(* ===== verification/Prelude.thy ===== *)
theory Prelude
  imports Main "HOL-Library.Word" "HOL-Library.Sublist" "HOL-Library.Char_ord" "HOL-Library.List_Lexorder"
begin

text \<open>
  What every component shares: JSON values, the crate's error type (src/src/error.rs) and its
  result type, the effect monad in which the commands run, its Hoare rules, and generic lemmas.

  A command of the program reads and writes files, calls the mail server and may be killed at
  any of these points.  Such a command is a function from the state to an outcome and the next
  state: \<open>Done\<close> is a return with \<open>Ok\<close>, \<open>Fail\<close> a return with \<open>Err\<close>, \<open>Killed\<close> the end of
  the process (power loss, a signal, a panic).  Nothing runs after \<open>Killed\<close>: no handler of the
  code sees it, only what was already on disk or sent remains.
\<close>

named_theorems io_defs "definitions of the combinators of the effect monad"
named_theorems hoare_rules "structural Hoare rules of the effect monad"
named_theorems error_defs "definitions of error values"

section \<open>JSON values\<close>

text \<open>serde_json's \<open>Value\<close>; an object is its list of members in iteration order.\<close>

datatype json =
    JNull
  | JBool bool
  | JNum int
  | JStr string
  | JArr "json list"
  | JObj "(string \<times> json) list"

definition json_get :: "json \<Rightarrow> string \<Rightarrow> json option" where
  "json_get v k = (case v of JObj ms \<Rightarrow> map_of ms k | _ \<Rightarrow> None)"

definition json_as_bool :: "json \<Rightarrow> bool option" where
  "json_as_bool v = (case v of JBool b \<Rightarrow> Some b | _ \<Rightarrow> None)"

definition json_remove :: "string \<Rightarrow> json \<Rightarrow> json" where
  "json_remove k v = (case v of JObj ms \<Rightarrow> JObj (filter (\<lambda>(k', _). k' \<noteq> k) ms) | _ \<Rightarrow> v)"

lemma json_get_remove [simp]: "json_get (json_remove k v) k = None"
proof (cases v)
  case (JObj ms)
  have "map_of (filter (\<lambda>(k', _). k' \<noteq> k) ms) k = None"
    by (auto simp: map_of_eq_None_iff)
  with JObj show ?thesis by (simp add: json_get_def json_remove_def)
qed (simp_all add: json_get_def json_remove_def)

lemma json_get_remove_other: "k' \<noteq> k \<Longrightarrow> json_get (json_remove k v) k' = json_get v k'"
proof (cases v)
  case (JObj ms)
  assume "k' \<noteq> k"
  then have "map_of (filter (\<lambda>(a, _). a \<noteq> k) ms) k' = map_of ms k'"
    by (induction ms) auto
  with JObj show ?thesis by (simp add: json_get_def json_remove_def)
qed (simp_all add: json_get_def json_remove_def)

section \<open>Errors and results\<close>

text \<open>
  \<open>AppError\<close> of src/src/error.rs.  The display-only \<open>hint\<close> is left out, and of \<open>details\<close> the
  errors of this development carry the members that code reads back.
\<close>

record app_error =
  error_code :: string
  message :: string
  retryable :: bool
  details :: "json option"

definition app_error_new :: "string \<Rightarrow> string \<Rightarrow> app_error" where
  "app_error_new code msg = \<lparr>error_code = code, message = msg, retryable = False, details = None\<rparr>"

definition app_error_retryable :: "string \<Rightarrow> string \<Rightarrow> app_error" where
  "app_error_retryable code msg =
     \<lparr>error_code = code, message = msg, retryable = True, details = None\<rparr>"

definition with_details :: "app_error \<Rightarrow> json \<Rightarrow> app_error" where
  "with_details e d = e\<lparr>details := Some d\<rparr>"

definition app_error_io :: "string \<Rightarrow> string \<Rightarrow> app_error" where
  "app_error_io ctxt err = app_error_new ''store_error'' (ctxt @ '': '' @ err)"

definition app_error_to_string :: "app_error \<Rightarrow> string" where
  "app_error_to_string e = error_code e @ '': '' @ message e"

lemma app_error_new_sel [simp]:
  "error_code (app_error_new c m) = c" "message (app_error_new c m) = m"
  "retryable (app_error_new c m) = False" "details (app_error_new c m) = None"
  by (simp_all add: app_error_new_def)

lemma with_details_sel [simp]:
  "error_code (with_details e d) = error_code e" "message (with_details e d) = message e"
  "retryable (with_details e d) = retryable e" "details (with_details e d) = Some d"
  by (simp_all add: with_details_def)

lemma app_error_io_sel [simp]:
  "error_code (app_error_io c m) = ''store_error''" "details (app_error_io c m) = None"
  by (simp_all add: app_error_io_def)

type_synonym 'a res = "app_error + 'a"

definition bind_res :: "'a res \<Rightarrow> ('a \<Rightarrow> 'b res) \<Rightarrow> 'b res" where
  "bind_res r f = (case r of Inl e \<Rightarrow> Inl e | Inr a \<Rightarrow> f a)"

lemma bind_res_simps [simp]:
  "bind_res (Inl e) f = Inl e" "bind_res (Inr a) f = f a"
  by (simp_all add: bind_res_def)

lemma bind_res_Inr_iff: "bind_res r f = Inr b \<longleftrightarrow> (\<exists>a. r = Inr a \<and> f a = Inr b)"
  by (cases r) auto

fun map_res :: "('a \<Rightarrow> 'b res) \<Rightarrow> 'a list \<Rightarrow> 'b list res" where
  "map_res f [] = Inr []"
| "map_res f (x # xs) = bind_res (f x) (\<lambda>y. bind_res (map_res f xs) (\<lambda>ys. Inr (y # ys)))"

definition res_ok :: "'a res \<Rightarrow> bool" where
  "res_ok r = (case r of Inl _ \<Rightarrow> False | Inr _ \<Rightarrow> True)"

lemma res_ok_simps [simp]: "res_ok (Inr a)" "\<not> res_ok (Inl e)"
  by (simp_all add: res_ok_def)

text \<open>A loop of fallible checks that stops at the first error, as \<open>for x in xs { check(x)?; }\<close>.\<close>

fun for_res :: "('a \<Rightarrow> unit res) \<Rightarrow> 'a list \<Rightarrow> unit res" where
  "for_res f [] = Inr ()"
| "for_res f (x # xs) = bind_res (f x) (\<lambda>_. for_res f xs)"

lemma for_res_ok: "for_res f xs = Inr () \<longleftrightarrow> (\<forall>x \<in> set xs. f x = Inr ())"
  by (induction xs) (auto simp: bind_res_Inr_iff)

definition require :: "bool \<Rightarrow> app_error \<Rightarrow> unit res" where
  "require b e = (if b then Inr () else Inl e)"

lemma require_ok [simp]: "require b e = Inr () \<longleftrightarrow> b"
  by (simp add: require_def)

lemma bind_require_ok: "bind_res (require b e) f = Inr y \<longleftrightarrow> b \<and> f () = Inr y"
  by (simp add: require_def)

definition ok_or :: "app_error \<Rightarrow> 'a option \<Rightarrow> 'a res" where
  "ok_or e x = (case x of None \<Rightarrow> Inl e | Some a \<Rightarrow> Inr a)"

lemma ok_or_simps [simp]: "ok_or e None = Inl e" "ok_or e (Some a) = Inr a"
  by (simp_all add: ok_or_def)

section \<open>The effect monad\<close>

datatype 'a outcome = Done 'a | Fail app_error | Killed

type_synonym ('s, 'a) io = "'s \<Rightarrow> 'a outcome \<times> 's"

definition ret :: "'a \<Rightarrow> ('s, 'a) io" where [io_defs]:
  "ret a = (\<lambda>s. (Done a, s))"

definition fail :: "app_error \<Rightarrow> ('s, 'a) io" where [io_defs]:
  "fail e = (\<lambda>s. (Fail e, s))"

definition bind_io :: "('s, 'a) io \<Rightarrow> ('a \<Rightarrow> ('s, 'b) io) \<Rightarrow> ('s, 'b) io" where [io_defs]:
  "bind_io m f = (\<lambda>s. case m s of
      (Done a, s') \<Rightarrow> f a s'
    | (Fail e, s') \<Rightarrow> (Fail e, s')
    | (Killed, s') \<Rightarrow> (Killed, s'))"

definition then_io :: "('s, 'a) io \<Rightarrow> ('s, 'b) io \<Rightarrow> ('s, 'b) io" where [io_defs]:
  "then_io m n = bind_io m (\<lambda>_. n)"

definition gets :: "('s \<Rightarrow> 'a) \<Rightarrow> ('s, 'a) io" where [io_defs]:
  "gets f = (\<lambda>s. (Done (f s), s))"

definition modify :: "('s \<Rightarrow> 's) \<Rightarrow> ('s, unit) io" where [io_defs]:
  "modify f = (\<lambda>s. (Done (), f s))"

definition of_res :: "'a res \<Rightarrow> ('s, 'a) io" where [io_defs]:
  "of_res r = (case r of Inl e \<Rightarrow> fail e | Inr a \<Rightarrow> ret a)"

text \<open>A match on the result of a call: the caller sees \<open>Ok\<close> and \<open>Err\<close>, never \<open>Killed\<close>.\<close>

definition match_io ::
  "('s, 'a) io \<Rightarrow> ('a \<Rightarrow> ('s, 'b) io) \<Rightarrow> (app_error \<Rightarrow> ('s, 'b) io) \<Rightarrow> ('s, 'b) io" where [io_defs]:
  "match_io m f h = (\<lambda>s. case m s of
      (Done a, s') \<Rightarrow> f a s'
    | (Fail e, s') \<Rightarrow> h e s'
    | (Killed, s') \<Rightarrow> (Killed, s'))"

definition when_io :: "bool \<Rightarrow> ('s, unit) io \<Rightarrow> ('s, unit) io" where [io_defs]:
  "when_io b m = (if b then m else ret ())"

fun for_io :: "'a list \<Rightarrow> ('a \<Rightarrow> ('s, unit) io) \<Rightarrow> ('s, unit) io" where
  "for_io [] f = ret ()"
| "for_io (x # xs) f = then_io (f x) (for_io xs f)"

fun map_io :: "('a \<Rightarrow> ('s, 'b) io) \<Rightarrow> 'a list \<Rightarrow> ('s, 'b list) io" where
  "map_io f [] = ret []"
| "map_io f (x # xs) = bind_io (f x) (\<lambda>y. bind_io (map_io f xs) (\<lambda>ys. ret (y # ys)))"

text \<open>A loop over a list with local variables, which it hands from one pass to the next.\<close>

fun fold_io :: "('a \<Rightarrow> 'b \<Rightarrow> ('s, 'b) io) \<Rightarrow> 'a list \<Rightarrow> 'b \<Rightarrow> ('s, 'b) io" where
  "fold_io f [] b = ret b"
| "fold_io f (x # xs) b = bind_io (f x b) (fold_io f xs)"

section \<open>Hoare triples\<close>

text \<open>
  \<open>hoare P m Q E C\<close>: from a state with \<open>P\<close>, a return with \<open>Ok a\<close> is in \<open>Q a\<close>, a return with
  \<open>Err e\<close> in \<open>E e\<close>, and a killed process leaves a state in \<open>C\<close>.
\<close>

definition hoare ::
  "('s \<Rightarrow> bool) \<Rightarrow> ('s, 'a) io \<Rightarrow> ('a \<Rightarrow> 's \<Rightarrow> bool) \<Rightarrow> (app_error \<Rightarrow> 's \<Rightarrow> bool) \<Rightarrow> ('s \<Rightarrow> bool) \<Rightarrow> bool"
where
  "hoare P m Q E C \<longleftrightarrow> (\<forall>s. P s \<longrightarrow> (case m s of
      (Done a, s') \<Rightarrow> Q a s'
    | (Fail e, s') \<Rightarrow> E e s'
    | (Killed, s') \<Rightarrow> C s'))"

text \<open>The triple for an invariant: it holds however the call ends.\<close>

abbreviation keeps :: "('s \<Rightarrow> bool) \<Rightarrow> ('s, 'a) io \<Rightarrow> bool" where
  "keeps I m \<equiv> hoare I m (\<lambda>_. I) (\<lambda>_. I) I"

lemma hoareD_Done: "hoare P m Q E C \<Longrightarrow> P s \<Longrightarrow> m s = (Done a, s') \<Longrightarrow> Q a s'"
  by (auto simp: hoare_def dest!: spec [where x = s])

lemma hoareD_Fail: "hoare P m Q E C \<Longrightarrow> P s \<Longrightarrow> m s = (Fail e, s') \<Longrightarrow> E e s'"
  by (auto simp: hoare_def dest!: spec [where x = s])

lemma hoareD_Killed: "hoare P m Q E C \<Longrightarrow> P s \<Longrightarrow> m s = (Killed, s') \<Longrightarrow> C s'"
  by (auto simp: hoare_def dest!: spec [where x = s])

lemma keepsD: "keeps I m \<Longrightarrow> I s \<Longrightarrow> I (snd (m s))"
  by (cases "m s"; cases "fst (m s)") (auto simp: hoare_def dest!: spec [where x = s])

lemma hoareI:
  assumes "\<And>s a s'. P s \<Longrightarrow> m s = (Done a, s') \<Longrightarrow> Q a s'"
    and "\<And>s e s'. P s \<Longrightarrow> m s = (Fail e, s') \<Longrightarrow> E e s'"
    and "\<And>s s'. P s \<Longrightarrow> m s = (Killed, s') \<Longrightarrow> C s'"
  shows "hoare P m Q E C"
  using assms by (auto simp: hoare_def split: prod.splits outcome.splits)

lemma hoare_weaken:
  assumes "hoare P' m Q' E' C'"
    and "\<And>s. P s \<Longrightarrow> P' s"
    and "\<And>a s. Q' a s \<Longrightarrow> Q a s"
    and "\<And>e s. E' e s \<Longrightarrow> E e s"
    and "\<And>s. C' s \<Longrightarrow> C s"
  shows "hoare P m Q E C"
  using assms unfolding hoare_def
  by (fastforce split: prod.splits outcome.splits)

lemma hoare_pre: "hoare P' m Q E C \<Longrightarrow> (\<And>s. P s \<Longrightarrow> P' s) \<Longrightarrow> hoare P m Q E C"
  by (rule hoare_weaken)

lemma hoare_assume: "(\<And>s. P s \<Longrightarrow> hoare ((=) s) m Q E C) \<Longrightarrow> hoare P m Q E C"
  by (auto simp: hoare_def)

lemma hoare_pure_pre: "(b \<Longrightarrow> hoare P m Q E C) \<Longrightarrow> hoare (\<lambda>s. b \<and> P s) m Q E C"
  by (auto simp: hoare_def)

lemma hoare_ret [hoare_rules]: "hoare (Q a) (ret a) Q E C"
  by (simp add: hoare_def ret_def)

lemma hoare_fail [hoare_rules]: "hoare (E e) (fail e) Q E C"
  by (simp add: hoare_def fail_def)

lemma hoare_gets [hoare_rules]: "hoare (\<lambda>s. Q (f s) s) (gets f) Q E C"
  by (simp add: hoare_def gets_def)

lemma hoare_modify [hoare_rules]: "hoare (\<lambda>s. Q () (f s)) (modify f) Q E C"
  by (simp add: hoare_def modify_def)

lemma hoare_bind:
  assumes "hoare P m R E C" "\<And>a. hoare (R a) (f a) Q E C"
  shows "hoare P (bind_io m f) Q E C"
  unfolding hoare_def bind_io_def
proof (intro allI impI)
  fix s assume P: "P s"
  obtain r s' where ms: "m s = (r, s')" by fastforce
  show "case (case m s of (Done a, s') \<Rightarrow> f a s' | (Fail e, s') \<Rightarrow> (Fail e, s')
                | (Killed, s') \<Rightarrow> (Killed, s')) of
          (Done a, s') \<Rightarrow> Q a s' | (Fail e, s') \<Rightarrow> E e s' | (Killed, s') \<Rightarrow> C s'"
    using assms(1) [unfolded hoare_def, rule_format, OF P] assms(2) ms
    by (cases r) (auto simp: hoare_def)
qed

lemma hoare_then:
  assumes "hoare P m (\<lambda>_. R) E C" "hoare R n Q E C"
  shows "hoare P (then_io m n) Q E C"
  unfolding then_io_def using assms by (rule hoare_bind)

lemma hoare_match:
  assumes "hoare P m R H C" "\<And>a. hoare (R a) (f a) Q E C" "\<And>e. hoare (H e) (h e) Q E C"
  shows "hoare P (match_io m f h) Q E C"
  unfolding hoare_def match_io_def
proof (intro allI impI)
  fix s assume P: "P s"
  obtain r s' where ms: "m s = (r, s')" by fastforce
  show "case (case m s of (Done a, s') \<Rightarrow> f a s' | (Fail e, s') \<Rightarrow> h e s'
                | (Killed, s') \<Rightarrow> (Killed, s')) of
          (Done a, s') \<Rightarrow> Q a s' | (Fail e, s') \<Rightarrow> E e s' | (Killed, s') \<Rightarrow> C s'"
    using assms(1) [unfolded hoare_def, rule_format, OF P] assms(2,3) ms
    by (cases r) (auto simp: hoare_def)
qed

lemma hoare_if:
  assumes "b \<Longrightarrow> hoare P m Q E C" "\<not> b \<Longrightarrow> hoare P n Q E C"
  shows "hoare P (if b then m else n) Q E C"
  using assms by simp

lemma hoare_when:
  assumes "b \<Longrightarrow> hoare P m (\<lambda>_. R) E C" "\<And>s. \<not> b \<Longrightarrow> P s \<Longrightarrow> R s"
  shows "hoare P (when_io b m) (\<lambda>_. R) E C"
  using assms by (cases b) (auto simp: when_io_def hoare_def ret_def)

lemma hoare_case_option:
  assumes "x = None \<Longrightarrow> hoare P m Q E C" "\<And>y. x = Some y \<Longrightarrow> hoare P (f y) Q E C"
  shows "hoare P (case x of None \<Rightarrow> m | Some y \<Rightarrow> f y) Q E C"
  using assms by (cases x) auto

lemma hoare_of_res:
  assumes "\<And>a s. r = Inr a \<Longrightarrow> P s \<Longrightarrow> Q a s" "\<And>e s. r = Inl e \<Longrightarrow> P s \<Longrightarrow> E e s"
  shows "hoare P (of_res r) Q E C"
  using assms by (cases r) (auto simp: of_res_def hoare_def ret_def fail_def)

lemma hoare_for:
  assumes "\<And>x. x \<in> set xs \<Longrightarrow> hoare I (f x) (\<lambda>_. I) E C"
  shows "hoare I (for_io xs f) (\<lambda>_. I) E C"
  using assms
proof (induction xs)
  case Nil
  show ?case by (simp add: hoare_def ret_def)
next
  case (Cons x xs)
  then have "hoare I (f x) (\<lambda>_. I) E C" "hoare I (for_io xs f) (\<lambda>_. I) E C"
    by simp_all
  then show ?case by (simp add: hoare_then)
qed

lemma keeps_ret [hoare_rules]: "keeps I (ret a)"
  by (simp add: hoare_def ret_def)

lemma keeps_fail [hoare_rules]: "keeps I (fail e)"
  by (simp add: hoare_def fail_def)

lemma keeps_gets [hoare_rules]: "keeps I (gets f)"
  by (simp add: hoare_def gets_def)

lemma keeps_of_res [hoare_rules]: "keeps I (of_res r)"
  by (rule hoare_of_res) auto

lemma keeps_bind [hoare_rules]: "keeps I m \<Longrightarrow> (\<And>a. keeps I (f a)) \<Longrightarrow> keeps I (bind_io m f)"
  by (rule hoare_bind)

lemma keeps_then [hoare_rules]: "keeps I m \<Longrightarrow> keeps I n \<Longrightarrow> keeps I (then_io m n)"
  by (rule hoare_then)

lemma keeps_match [hoare_rules]:
  "keeps I m \<Longrightarrow> (\<And>a. keeps I (f a)) \<Longrightarrow> (\<And>e. keeps I (h e)) \<Longrightarrow> keeps I (match_io m f h)"
  by (rule hoare_match)

lemma keeps_when [hoare_rules]: "keeps I m \<Longrightarrow> keeps I (when_io b m)"
  by (rule hoare_when)

lemma keeps_if [hoare_rules]: "keeps I m \<Longrightarrow> keeps I n \<Longrightarrow> keeps I (if b then m else n)"
  by simp

lemma keeps_case_option [hoare_rules]:
  "keeps I m \<Longrightarrow> (\<And>y. keeps I (f y)) \<Longrightarrow> keeps I (case x of None \<Rightarrow> m | Some y \<Rightarrow> f y)"
  by (cases x) auto

lemma keeps_for [hoare_rules]: "(\<And>x. keeps I (f x)) \<Longrightarrow> keeps I (for_io xs f)"
  by (rule hoare_for)

lemma keeps_map [hoare_rules]: "(\<And>x. keeps I (f x)) \<Longrightarrow> keeps I (map_io f xs)"
  by (induction xs) (auto intro!: hoare_rules)

lemma hoare_fold:
  assumes "\<And>x b. x \<in> set xs \<Longrightarrow> hoare (I b) (f x b) I E C"
  shows "hoare (I b) (fold_io f xs b) I E C"
  using assms
proof (induction xs arbitrary: b)
  case Nil
  show ?case by (simp add: hoare_ret)
next
  case (Cons x xs)
  have "hoare (I b) (f x b) I E C" using Cons.prems by simp
  then show ?case using Cons by (auto intro: hoare_bind)
qed

lemma keeps_fold [hoare_rules]: "(\<And>x b. keeps I (f x b)) \<Longrightarrow> keeps I (fold_io f xs b)"
  by (rule hoare_fold)

lemma hoare_conj_keeps:
  assumes "keeps I m" "hoare (\<lambda>_. True) m (\<lambda>r _. R r) (\<lambda>_ _. True) (\<lambda>_. True)"
  shows "hoare I m (\<lambda>r w. I w \<and> R r) (\<lambda>_. I) I"
  using assms by (fastforce simp: hoare_def split: prod.splits outcome.splits)

lemma hoare_conj:
  assumes "hoare P m Q E C" "keeps I m"
  shows "hoare (\<lambda>w. P w \<and> I w) m (\<lambda>r w. Q r w \<and> I w) (\<lambda>e w. E e w \<and> I w) C"
  using assms by (fastforce simp: hoare_def split: prod.splits outcome.splits)

section \<open>Strings\<close>

definition strip_prefix :: "string \<Rightarrow> string \<Rightarrow> string option" where
  "strip_prefix p s = (if prefix p s then Some (drop (length p) s) else None)"

definition is_ascii_digit :: "char \<Rightarrow> bool" where
  "is_ascii_digit c \<longleftrightarrow> CHR ''0'' \<le> c \<and> c \<le> CHR ''9''"

definition is_ascii_lower :: "char \<Rightarrow> bool" where
  "is_ascii_lower c \<longleftrightarrow> CHR ''a'' \<le> c \<and> c \<le> CHR ''z''"

definition is_ascii_upper :: "char \<Rightarrow> bool" where
  "is_ascii_upper c \<longleftrightarrow> CHR ''A'' \<le> c \<and> c \<le> CHR ''Z''"

definition ascii_lower :: "char \<Rightarrow> char" where
  "ascii_lower c = (if is_ascii_upper c then char_of (of_char c + 32 :: nat) else c)"

definition to_ascii_lowercase :: "string \<Rightarrow> string" where
  "to_ascii_lowercase s = map ascii_lower s"

definition eq_ignore_ascii_case :: "string \<Rightarrow> string \<Rightarrow> bool" where
  "eq_ignore_ascii_case a b \<longleftrightarrow> to_ascii_lowercase a = to_ascii_lowercase b"

lemma eq_ignore_ascii_case_refl [simp]: "eq_ignore_ascii_case a a"
  by (simp add: eq_ignore_ascii_case_def)

lemma eq_ignore_ascii_case_sym: "eq_ignore_ascii_case a b \<Longrightarrow> eq_ignore_ascii_case b a"
  by (simp add: eq_ignore_ascii_case_def)

lemma eq_ignore_ascii_case_trans:
  "eq_ignore_ascii_case a b \<Longrightarrow> eq_ignore_ascii_case b c \<Longrightarrow> eq_ignore_ascii_case a c"
  by (simp add: eq_ignore_ascii_case_def)

text \<open>\<open>str::trim\<close>, for the ASCII white space.\<close>

definition is_space :: "char \<Rightarrow> bool" where
  "is_space c \<longleftrightarrow> c = CHR '' '' \<or> (CHR 0x09 \<le> c \<and> c \<le> CHR 0x0D)"

definition trim :: "string \<Rightarrow> string" where
  "trim s = rev (dropWhile is_space (rev (dropWhile is_space s)))"

lemma trim_Nil [simp]: "trim [] = []"
  by (simp add: trim_def)

text \<open>The decimal rendering of a number, as \<open>{n}\<close> in a format string.\<close>

fun show_nat :: "nat \<Rightarrow> string" where
  "show_nat n = (if n < 10 then [char_of (48 + n)] else show_nat (n div 10) @ [char_of (48 + n mod 10)])"

declare show_nat.simps [simp del]

section \<open>Lists\<close>

lemma find_Some_prop: "List.find P xs = Some x \<Longrightarrow> x \<in> set xs \<and> P x"
  by (induction xs) (auto split: if_splits)

text \<open>A \<open>BTreeMap\<close> or a directory of named files, as its list of entries.\<close>

fun put :: "'k \<Rightarrow> 'v \<Rightarrow> ('k \<times> 'v) list \<Rightarrow> ('k \<times> 'v) list" where
  "put k v [] = [(k, v)]"
| "put k v ((k', v') # m) = (if k = k' then (k, v) # m else (k', v') # put k v m)"

definition remove :: "'k \<Rightarrow> ('k \<times> 'v) list \<Rightarrow> ('k \<times> 'v) list" where
  "remove k m = filter (\<lambda>(k', _). k' \<noteq> k) m"

lemma map_of_put [simp]: "map_of (put k v m) = (map_of m)(k \<mapsto> v)"
  by (induction k v m rule: put.induct) auto

lemma map_of_remove [simp]: "map_of (remove k m) = (map_of m)(k := None)"
  by (induction m) (auto simp: remove_def)

lemma keys_put: "set (map fst (put k v m)) = insert k (set (map fst m))"
  by (induction k v m rule: put.induct) auto

lemma keys_remove: "set (map fst (remove k m)) = set (map fst m) - {k}"
  by (auto simp: remove_def image_iff)

lemma distinct_put: "distinct (map fst m) \<Longrightarrow> distinct (map fst (put k v m))"
proof (induction k v m rule: put.induct)
  case (2 k v k' v' m)
  then show ?case using keys_put [of k v m] by auto
qed simp

lemma distinct_remove: "distinct (map fst m) \<Longrightarrow> distinct (map fst (remove k m))"
  by (induction m) (auto simp: remove_def)

lemma set_put: "distinct (map fst m) \<Longrightarrow> set (put k v m) = insert (k, v) {x \<in> set m. fst x \<noteq> k}"
  by (induction k v m rule: put.induct) force+

lemma set_remove: "set (remove k m) = {x \<in> set m. fst x \<noteq> k}"
  by (auto simp: remove_def)

definition enumerate0 :: "'a list \<Rightarrow> (nat \<times> 'a) list" where
  "enumerate0 xs = zip [0..<length xs] xs"

end
