(* ===== verification/Mail_Config.thy ===== *)
theory Mail_Config
  imports Prelude
begin

text \<open>
  The configuration that decides remote effects: special-use kinds and mailbox rules
  (src/src/config/mailbox.rs, defaults.rs), action steps and sections
  (src/src/config/actions.rs), their validation (src/src/config/validation.rs,
  src/src/config/mod.rs) and the label of a step (src/src/push_queue/preview.rs).
\<close>

section \<open>Special-use kinds\<close>

datatype special_use_kind = Archive | Junk | Trash | Sent | Drafts | All | Flagged

definition special_use_as_str :: "special_use_kind \<Rightarrow> string" where
  "special_use_as_str k = (case k of
     Archive \<Rightarrow> ''archive'' | Junk \<Rightarrow> ''junk'' | Trash \<Rightarrow> ''trash'' | Sent \<Rightarrow> ''sent''
   | Drafts \<Rightarrow> ''drafts'' | All \<Rightarrow> ''all'' | Flagged \<Rightarrow> ''flagged'')"

definition special_use_from_str :: "string \<Rightarrow> special_use_kind option" where
  "special_use_from_str value = (let v = to_ascii_lowercase value in
     if v = ''archive'' then Some Archive
     else if v = ''junk'' \<or> v = ''spam'' then Some Junk
     else if v = ''trash'' then Some Trash
     else if v = ''sent'' then Some Sent
     else if v = ''drafts'' then Some Drafts
     else if v = ''all'' then Some All
     else if v = ''flagged'' \<or> v = ''flag'' then Some Flagged
     else None)"

definition attribute :: "special_use_kind \<Rightarrow> string" where
  "attribute k = CHR 0x5C # (case k of
     Archive \<Rightarrow> ''Archive'' | Junk \<Rightarrow> ''Junk'' | Trash \<Rightarrow> ''Trash'' | Sent \<Rightarrow> ''Sent''
   | Drafts \<Rightarrow> ''Drafts'' | All \<Rightarrow> ''All'' | Flagged \<Rightarrow> ''Flagged'')"

definition special_use_kinds :: "special_use_kind list" where
  "special_use_kinds = [All, Archive, Drafts, Flagged, Junk, Sent, Trash]"

definition from_attribute :: "string \<Rightarrow> special_use_kind option" where
  "from_attribute value = List.find (\<lambda>k. eq_ignore_ascii_case value (attribute k)) special_use_kinds"

definition fallback_names :: "special_use_kind \<Rightarrow> string list" where
  "fallback_names k = (case k of
     Archive \<Rightarrow> [''Archive'', ''Archives'']
   | Junk \<Rightarrow> [''Junk'', ''Spam'', ''Junk Email'', ''Junk E-mail'']
   | Trash \<Rightarrow> [''Trash'', ''Deleted Items'', ''Deleted Messages'', ''Bin'']
   | Sent \<Rightarrow> [''Sent'', ''Sent Mail'', ''Sent Messages'']
   | Drafts \<Rightarrow> [''Drafts'', ''Draft'']
   | All \<Rightarrow> [''All Mail'', ''All'']
   | Flagged \<Rightarrow> [''Flagged'', ''Starred''])"

definition can_move_to :: "special_use_kind \<Rightarrow> bool" where
  "can_move_to k = (case k of All \<Rightarrow> False | Flagged \<Rightarrow> False | _ \<Rightarrow> True)"

section \<open>Mailbox rules\<close>

record mailbox_resolve_rule =
  mr_mailbox_name :: "string option"
  mr_special_use :: "string option"

type_synonym imap_mailbox_config = "mailbox_resolve_rule list"

definition rule_mailbox_name :: "string \<Rightarrow> mailbox_resolve_rule" where
  "rule_mailbox_name n = \<lparr>mr_mailbox_name = Some n, mr_special_use = None\<rparr>"

definition rule_special_use :: "string \<Rightarrow> mailbox_resolve_rule" where
  "rule_special_use a = \<lparr>mr_mailbox_name = None, mr_special_use = Some a\<rparr>"

definition mailbox_config_name :: "string \<Rightarrow> imap_mailbox_config" where
  "mailbox_config_name n = [rule_mailbox_name n]"

definition mailbox_config_special_use :: "special_use_kind \<Rightarrow> imap_mailbox_config" where
  "mailbox_config_special_use k = rule_special_use (attribute k) # map rule_mailbox_name (fallback_names k)"

definition config_invalid :: "string \<Rightarrow> app_error" where
  "config_invalid msg = app_error_new ''config_invalid'' msg"

definition rule_validate :: "string \<Rightarrow> nat \<Rightarrow> mailbox_resolve_rule \<Rightarrow> unit res" where
  "rule_validate ident idx r =
     (let err = config_invalid (''mailboxes.'' @ ident @ ''.resolve['' @ show_nat idx @
                  ''] must set exactly one selector field'')
      in case (mr_mailbox_name r, mr_special_use r) of
        (Some m, None) \<Rightarrow> require (trim m \<noteq> []) err
      | (None, Some s) \<Rightarrow> require (trim s \<noteq> []) err
      | (Some _, Some _) \<Rightarrow> Inl err
      | _ \<Rightarrow> Inl err)"

definition mailbox_validate :: "string \<Rightarrow> imap_mailbox_config \<Rightarrow> unit res" where
  "mailbox_validate ident rules =
     bind_res (require (rules \<noteq> [])
       (config_invalid (''mailboxes.'' @ ident @ ''.resolve must contain at least one rule'')))
     (\<lambda>_. for_res (\<lambda>(i, r). rule_validate ident i r) (enumerate0 rules))"

definition rule_offline_mailbox_name :: "mailbox_resolve_rule \<Rightarrow> string option" where
  "rule_offline_mailbox_name r = (case mr_mailbox_name r of
     Some m \<Rightarrow> Some m
   | None \<Rightarrow> (case mr_special_use r of None \<Rightarrow> None
              | Some a \<Rightarrow> map_option (\<lambda>k. hd (fallback_names k)) (from_attribute a)))"

definition rule_matches_mailbox_offline :: "mailbox_resolve_rule \<Rightarrow> string \<Rightarrow> bool" where
  "rule_matches_mailbox_offline r name = (mr_mailbox_name r = Some name \<or>
     (case mr_special_use r of None \<Rightarrow> False
      | Some a \<Rightarrow> (case from_attribute a of None \<Rightarrow> False
                  | Some k \<Rightarrow> list_ex (eq_ignore_ascii_case name) (fallback_names k))))"

fun find_map :: "('a \<Rightarrow> 'b option) \<Rightarrow> 'a list \<Rightarrow> 'b option" where
  "find_map f [] = None"
| "find_map f (x # xs) = (case f x of Some y \<Rightarrow> Some y | None \<Rightarrow> find_map f xs)"

definition offline_mailbox_name :: "imap_mailbox_config \<Rightarrow> string option" where
  "offline_mailbox_name rules = find_map rule_offline_mailbox_name rules"

definition matches_mailbox_offline :: "imap_mailbox_config \<Rightarrow> string \<Rightarrow> bool" where
  "matches_mailbox_offline rules name = list_ex (\<lambda>r. rule_matches_mailbox_offline r name) rules"

definition contains_special_use :: "imap_mailbox_config \<Rightarrow> special_use_kind \<Rightarrow> bool" where
  "contains_special_use rules k = list_ex (\<lambda>r. case mr_special_use r of None \<Rightarrow> False
     | Some v \<Rightarrow> eq_ignore_ascii_case v (attribute k)) rules"

definition first_special_use_kind :: "imap_mailbox_config \<Rightarrow> special_use_kind option" where
  "first_special_use_kind rules =
     find_map (\<lambda>r. Option.bind (mr_special_use r) from_attribute) rules"

definition default_mailbox_configs :: "(string \<times> imap_mailbox_config) list" where
  "default_mailbox_configs =
     [(''archive'', mailbox_config_special_use Archive), (''drafts'', mailbox_config_special_use Drafts),
      (''inbox'', mailbox_config_name ''INBOX''), (''junk'', mailbox_config_special_use Junk),
      (''sent'', mailbox_config_special_use Sent), (''trash'', mailbox_config_special_use Trash)]"

section \<open>Action steps\<close>

datatype action_step_on = ReplyToMessage

record action_step =
  as_add_flags :: "string list"
  as_move_to_mailbox_id :: "string option"
  as_append_to_mailbox_id :: "string option"
  as_smtp_send :: "(string \<times> string) list option"
  as_cloudflare_send :: "(string \<times> string) list option"
  as_file_send :: "(string \<times> string) list option"
  as_on :: "action_step_on option"

definition default_step :: action_step where
  "default_step = \<lparr>as_add_flags = [], as_move_to_mailbox_id = None, as_append_to_mailbox_id = None,
     as_smtp_send = None, as_cloudflare_send = None, as_file_send = None, as_on = None\<rparr>"

definition is_send :: "action_step \<Rightarrow> bool" where
  "is_send s \<longleftrightarrow> as_smtp_send s \<noteq> None \<or> as_cloudflare_send s \<noteq> None \<or> as_file_send s \<noteq> None"

definition step_cloudflare_send :: action_step where
  "step_cloudflare_send = default_step\<lparr>as_cloudflare_send := Some []\<rparr>"

definition step_add_flags :: "string list \<Rightarrow> action_step" where
  "step_add_flags fs = default_step\<lparr>as_add_flags := fs\<rparr>"

definition step_add_flags_on :: "string list \<Rightarrow> action_step_on \<Rightarrow> action_step" where
  "step_add_flags_on fs on_target = default_step\<lparr>as_add_flags := fs, as_on := Some on_target\<rparr>"

definition step_move :: "string \<Rightarrow> action_step" where
  "step_move m = default_step\<lparr>as_move_to_mailbox_id := Some m\<rparr>"

definition step_append :: "string \<Rightarrow> action_step" where
  "step_append m = default_step\<lparr>as_append_to_mailbox_id := Some m\<rparr>"

definition step_smtp_send :: action_step where
  "step_smtp_send = default_step\<lparr>as_smtp_send := Some []\<rparr>"

definition step_file_send :: action_step where
  "step_file_send = default_step\<lparr>as_file_send := Some []\<rparr>"

definition step_label :: "action_step \<Rightarrow> string" where
  "step_label s =
     (if as_add_flags s \<noteq> [] then
        ''add_flags'' @ (case as_on s of None \<Rightarrow> [] | Some ReplyToMessage \<Rightarrow> '':ReplyToMessage'')
      else case as_move_to_mailbox_id s of
        Some m \<Rightarrow> ''move_to_mailbox_id_'' @ m
      | None \<Rightarrow> (case as_append_to_mailbox_id s of
          Some m \<Rightarrow> ''append_to_mailbox_id_'' @ m
        | None \<Rightarrow>
            if as_file_send s \<noteq> None then ''file_send''
            else if as_smtp_send s \<noteq> None then ''smtp_send''
            else if as_cloudflare_send s \<noteq> None then ''cloudflare_send''
            else ''noop''))"

section \<open>Action sections and the configuration\<close>

record pull_mailbox_action =
  pm_import_as :: string
  pm_direction :: string

record pull_action_section =
  pa_default_mailbox_ids :: "string list"
  pa_by_mailbox_id :: "(string \<times> pull_mailbox_action) list"

record draft_actions =
  da_save :: "action_step list"
  da_send :: "action_step list"

record message_actions =
  ma_spam :: "action_step list"
  ma_trash :: "action_step list"
  ma_unspam :: "action_step list"
  ma_untrash :: "action_step list"
  ma_notification :: "(string \<times> action_step list) list"

record actions_section =
  ac_pull :: pull_action_section
  ac_case_add :: "action_step list"
  ac_draft :: draft_actions
  ac_message :: message_actions

text \<open>The sections of \<open>MailConfig\<close> that the push and pull code reads.\<close>

record mail_config =
  mc_mailboxes :: "(string \<times> imap_mailbox_config) list"
  mc_actions :: actions_section

definition default_draft_send_steps :: "action_step list" where
  "default_draft_send_steps =
     [step_append ''drafts'', step_smtp_send, step_append ''sent'',
      step_add_flags_on [CHR 0x5C # ''Seen'', CHR 0x5C # ''Answered''] ReplyToMessage]"

definition default_draft_actions :: draft_actions where
  "default_draft_actions = \<lparr>da_save = [step_append ''drafts''], da_send = default_draft_send_steps\<rparr>"

definition default_notification_action :: "(string \<times> action_step list) list" where
  "default_notification_action =
     [(''archive'', []), (''drafts'', []), (''inbox'', [step_move ''archive'']), (''junk'', []),
      (''sent'', []), (''trash'', [])]"

definition default_message_actions :: message_actions where
  "default_message_actions =
     \<lparr>ma_spam = [step_add_flags [CHR 0x5C # ''Seen'', ''$Junk''], step_move ''junk''],
      ma_trash = [step_move ''trash''],
      ma_unspam = [step_move ''inbox''],
      ma_untrash = [step_move ''inbox''],
      ma_notification = default_notification_action\<rparr>"

definition default_pull_actions :: pull_action_section where
  "default_pull_actions =
     \<lparr>pa_default_mailbox_ids = [''inbox'', ''sent'', ''archive'', ''junk'', ''trash''],
      pa_by_mailbox_id =
        [(''archive'', \<lparr>pm_import_as = ''triage'', pm_direction = ''inbound''\<rparr>),
         (''drafts'', \<lparr>pm_import_as = ''triage'', pm_direction = ''outbound''\<rparr>),
         (''inbox'', \<lparr>pm_import_as = ''triage'', pm_direction = ''inbound''\<rparr>),
         (''junk'', \<lparr>pm_import_as = ''spam'', pm_direction = ''inbound''\<rparr>),
         (''sent'', \<lparr>pm_import_as = ''triage'', pm_direction = ''outbound''\<rparr>),
         (''trash'', \<lparr>pm_import_as = ''trashed'', pm_direction = ''inbound''\<rparr>)]\<rparr>"

definition default_actions :: actions_section where
  "default_actions = \<lparr>ac_pull = default_pull_actions, ac_case_add = [],
     ac_draft = default_draft_actions, ac_message = default_message_actions\<rparr>"

definition default_config :: mail_config where
  "default_config = \<lparr>mc_mailboxes = default_mailbox_configs, mc_actions = default_actions\<rparr>"

definition config_mailbox :: "mail_config \<Rightarrow> string \<Rightarrow> imap_mailbox_config res" where
  "config_mailbox cfg ident = ok_or
     (app_error_new ''unknown_mailbox_id'' (''unknown IMAP mailbox id: '' @ ident))
     (map_of (mc_mailboxes cfg) ident)"

definition mailbox_is_kind :: "mail_config \<Rightarrow> string \<Rightarrow> special_use_kind \<Rightarrow> bool" where
  "mailbox_is_kind cfg mailbox_id kind =
     ((case config_mailbox cfg mailbox_id of Inl _ \<Rightarrow> False | Inr m \<Rightarrow> contains_special_use m kind)
      \<or> mailbox_id = special_use_as_str kind)"

section \<open>Validation\<close>

definition is_config_id_char :: "char \<Rightarrow> bool" where
  "is_config_id_char c \<longleftrightarrow> is_ascii_lower c \<or> is_ascii_upper c \<or> is_ascii_digit c
     \<or> c = CHR ''_'' \<or> c = CHR ''-''"

definition validate_config_id :: "string \<Rightarrow> string \<Rightarrow> unit res" where
  "validate_config_id label v = require (v \<noteq> [] \<and> list_all is_config_id_char v)
     (app_error_new ''invalid_request'' (''invalid '' @ label @ '': '' @ v))"

definition op_count :: "action_step \<Rightarrow> nat" where
  "op_count s = (if as_add_flags s \<noteq> [] then 1 else 0)
     + (if as_move_to_mailbox_id s \<noteq> None then 1 else 0)
     + (if as_append_to_mailbox_id s \<noteq> None then 1 else 0)
     + (if as_smtp_send s \<noteq> None then 1 else 0)
     + (if as_file_send s \<noteq> None then 1 else 0)
     + (if as_cloudflare_send s \<noteq> None then 1 else 0)"

definition step_targets :: "action_step \<Rightarrow> string list" where
  "step_targets s = (case as_move_to_mailbox_id s of None \<Rightarrow> [] | Some m \<Rightarrow> [m])
     @ (case as_append_to_mailbox_id s of None \<Rightarrow> [] | Some m \<Rightarrow> [m])"

definition validate_target :: "mail_config \<Rightarrow> string \<Rightarrow> nat \<Rightarrow> action_step \<Rightarrow> string \<Rightarrow> unit res" where
  "validate_target cfg label idx s target =
     bind_res (validate_config_id ''action step mailbox id'' target) (\<lambda>_.
     bind_res (ok_or (config_invalid (label @ ''['' @ show_nat idx @ ''] references unknown mailbox id: '' @ target))
       (map_of (mc_mailboxes cfg) target)) (\<lambda>mailbox.
     case first_special_use_kind mailbox of
       None \<Rightarrow> Inr ()
     | Some kind \<Rightarrow> require (\<not> (as_move_to_mailbox_id s \<noteq> None \<and> \<not> can_move_to kind))
         (config_invalid (label @ ''['' @ show_nat idx @ ''].move_to_mailbox_id cannot target '' @ target))))"

definition validate_step :: "mail_config \<Rightarrow> string \<Rightarrow> nat \<Rightarrow> action_step \<Rightarrow> unit res" where
  "validate_step cfg label idx s =
     (let at = label @ ''['' @ show_nat idx @ '']'' in
      bind_res (require (as_file_send s = None) (config_invalid (at @
        ''.file_send cannot be configured; drafts with a file reply route use it automatically''))) (\<lambda>_.
      bind_res (require (op_count s = 1) (config_invalid (at @ '' must define exactly one operation''))) (\<lambda>_.
      bind_res (require (\<not> (is_send s \<and> as_on s \<noteq> None))
        (config_invalid (at @ '' send operation cannot be conditional''))) (\<lambda>_.
      bind_res (require (case as_cloudflare_send s of None \<Rightarrow> True | Some ps \<Rightarrow> ps = [])
        (config_invalid (at @ ''.cloudflare_send must be an empty object''))) (\<lambda>_.
      bind_res (require (case as_smtp_send s of None \<Rightarrow> True | Some ps \<Rightarrow> ps = [])
        (config_invalid (at @ ''.smtp_send must be an empty object''))) (\<lambda>_.
      bind_res (for_res (\<lambda>flag. require (trim flag \<noteq> [])
        (config_invalid (at @ ''.add_flags contains an empty flag''))) (as_add_flags s)) (\<lambda>_.
      for_res (validate_target cfg label idx s) (step_targets s))))))))"

definition validate_steps :: "mail_config \<Rightarrow> string \<Rightarrow> action_step list \<Rightarrow> unit res" where
  "validate_steps cfg label steps =
     bind_res (require (\<not> (label = ''actions.draft.send.steps'' \<and> length (filter is_send steps) \<noteq> 1))
       (config_invalid
         ''actions.draft.send.steps must contain exactly one send step (smtp_send or cloudflare_send)''))
     (\<lambda>_. for_res (\<lambda>(i, s). validate_step cfg label i s) (enumerate0 steps))"

definition pull_validate :: "mail_config \<Rightarrow> pull_action_section \<Rightarrow> unit res" where
  "pull_validate cfg p =
     bind_res (for_res (\<lambda>ident.
       bind_res (validate_config_id ''actions.pull.default_mailbox_ids id'' ident) (\<lambda>_.
       bind_res (require (map_of (mc_mailboxes cfg) ident \<noteq> None) (config_invalid
         (''actions.pull.default_mailbox_ids references unknown mailbox id: '' @ ident))) (\<lambda>_.
       require (map_of (pa_by_mailbox_id p) ident \<noteq> None) (config_invalid
         (''actions.pull.by_mailbox_id.'' @ ident @ '' is required by default_mailbox_ids'')))))
       (pa_default_mailbox_ids p)) (\<lambda>_.
     for_res (\<lambda>ident.
       bind_res (validate_config_id ''actions.pull.by_mailbox_id id'' ident) (\<lambda>_.
       require (map_of (mc_mailboxes cfg) ident \<noteq> None) (config_invalid
         (''actions.pull.by_mailbox_id.'' @ ident @ '' references unknown mailbox id''))))
       (map fst (pa_by_mailbox_id p)))"

definition actions_validate :: "mail_config \<Rightarrow> unit res" where
  "actions_validate cfg = (let a = mc_actions cfg in
     bind_res (pull_validate cfg (ac_pull a)) (\<lambda>_.
     bind_res (validate_steps cfg ''actions.case.add.steps'' (ac_case_add a)) (\<lambda>_.
     bind_res (validate_steps cfg ''actions.draft.save.steps'' (da_save (ac_draft a))) (\<lambda>_.
     bind_res (validate_steps cfg ''actions.draft.send.steps'' (da_send (ac_draft a))) (\<lambda>_.
     bind_res (validate_steps cfg ''actions.message.spam.steps'' (ma_spam (ac_message a))) (\<lambda>_.
     bind_res (validate_steps cfg ''actions.message.trash.steps'' (ma_trash (ac_message a))) (\<lambda>_.
     bind_res (validate_steps cfg ''actions.message.unspam.steps'' (ma_unspam (ac_message a))) (\<lambda>_.
     bind_res (validate_steps cfg ''actions.message.untrash.steps'' (ma_untrash (ac_message a))) (\<lambda>_.
     for_res (\<lambda>(ident, steps).
       bind_res (validate_config_id ''actions.message.notification source id'' ident) (\<lambda>_.
       bind_res (require (map_of (mc_mailboxes cfg) ident \<noteq> None) (config_invalid
         (''actions.message.notification.by_source_mailbox_id.'' @ ident @
          '' references unknown mailbox id''))) (\<lambda>_.
       validate_steps cfg (''actions.message.notification.by_source_mailbox_id.'' @ ident @ ''.steps'')
         steps)))
       (ma_notification (ac_message a)))))))))))"

definition mailboxes_validate :: "mail_config \<Rightarrow> unit res" where
  "mailboxes_validate cfg = for_res (\<lambda>(ident, m).
     bind_res (validate_config_id ''mailboxes id'' ident) (\<lambda>_. mailbox_validate ident m))
     (mc_mailboxes cfg)"

definition config_validate :: "mail_config \<Rightarrow> unit res" where
  "config_validate cfg = bind_res (mailboxes_validate cfg) (\<lambda>_. actions_validate cfg)"

end
