(* ===== verification/Config_Facts.thy ===== *)
theory Config_Facts
  imports Mail_Config
begin

text \<open>
  What a validated configuration guarantees to the code that runs its steps, and the round trips
  of the special-use kinds.
\<close>

section \<open>Special-use kinds\<close>

lemma kinds_round: "list_all (\<lambda>k. from_attribute (attribute k) = Some k
    \<and> special_use_from_str (special_use_as_str k) = Some k
    \<and> fallback_names k \<noteq> []) special_use_kinds"
  by code_simp

lemma eq_ignore_case_cong:
  "eq_ignore_ascii_case a b \<Longrightarrow> eq_ignore_ascii_case a c = eq_ignore_ascii_case b c"
  by (simp add: eq_ignore_ascii_case_def)

text \<open>a special-use attribute and a kind's name are read back as that kind in any
  letter case: whatever spelling of \<open>attribute k\<close> or of \<open>special_use_as_str k\<close> a server or a person
  uses, \<open>from_attribute\<close> and \<open>from_str\<close> give \<open>k\<close>.\<close>

theorem special_use_roundtrip:
  assumes "eq_ignore_ascii_case a (attribute k)" "eq_ignore_ascii_case n (special_use_as_str k)"
  shows "from_attribute a = Some k \<and> special_use_from_str n = Some k"
proof -
  have k: "from_attribute (attribute k) = Some k \<and> special_use_from_str (special_use_as_str k) = Some k"
    using kinds_round by (cases k) (simp_all add: special_use_kinds_def)
  have "from_attribute a = from_attribute (attribute k)"
    unfolding from_attribute_def using eq_ignore_case_cong [OF assms(1)] by simp
  moreover have "to_ascii_lowercase n = to_ascii_lowercase (special_use_as_str k)"
    using assms(2) by (simp add: eq_ignore_ascii_case_def)
  then have "special_use_from_str n = special_use_from_str (special_use_as_str k)"
    by (simp add: special_use_from_str_def)
  ultimately show ?thesis using k by simp
qed

theorem special_use_roundtrip_witness:
  "from_attribute (CHR 0x5C # ''dRAFTS'') = Some Drafts \<and> special_use_from_str ''DraFts'' = Some Drafts"
  by (rule special_use_roundtrip) (code_simp+)

section \<open>Validated steps\<close>

lemma for_res_enumerate: "for_res (\<lambda>(i, x). f i x) (enumerate0 xs) = Inr () \<longleftrightarrow> (\<forall>i < length xs. f i (xs ! i) = Inr ())"
proof -
  have "set (enumerate0 xs) = {(i, xs ! i) |i. i < length xs}"
    by (auto simp: enumerate0_def set_zip) (metis add_0 nth_upt)
  then show ?thesis by (auto simp: for_res_ok)
qed

lemma validate_steps_each:
  "validate_steps cfg label steps = Inr () \<Longrightarrow> s \<in> set steps \<Longrightarrow> \<exists>i. validate_step cfg label i s = Inr ()"
  by (auto simp: validate_steps_def bind_require_ok for_res_enumerate in_set_conv_nth)

lemma validate_step_ok:
  assumes "validate_step cfg label i s = Inr ()"
  shows "op_count s = 1" "as_file_send s = None" "is_send s \<Longrightarrow> as_on s = None"
    and "t \<in> set (step_targets s) \<Longrightarrow> validate_target cfg label i s t = Inr ()"
  using assms by (auto simp: validate_step_def Let_def bind_require_ok bind_res_Inr_iff for_res_ok)

lemma validate_target_ok:
  assumes "validate_target cfg label i s t = Inr ()"
  shows "\<exists>m. map_of (mc_mailboxes cfg) t = Some m
    \<and> (as_move_to_mailbox_id s \<noteq> None \<longrightarrow> (\<forall>k. first_special_use_kind m = Some k \<longrightarrow> can_move_to k))"
  using assms
  by (auto simp: validate_target_def bind_res_Inr_iff ok_or_def split: option.splits)

lemma config_validate_draft:
  assumes "config_validate cfg = Inr ()"
  shows "validate_steps cfg ''actions.draft.save.steps'' (da_save (ac_draft (mc_actions cfg))) = Inr ()"
    "validate_steps cfg ''actions.draft.send.steps'' (da_send (ac_draft (mc_actions cfg))) = Inr ()"
  using assms by (auto simp: config_validate_def actions_validate_def Let_def bind_res_Inr_iff)

lemma default_config_validates: "config_validate default_config = Inr ()"
  by code_simp

lemma validated_ops:
  assumes "config_validate cfg = Inr ()"
    and "s \<in> set (da_save (ac_draft (mc_actions cfg))) \<union> set (da_send (ac_draft (mc_actions cfg)))"
  shows "op_count s = 1"
  using assms config_validate_draft [OF assms(1)] by (auto dest!: validate_steps_each validate_step_ok(1))

text \<open>The steps a validated configuration gives to outbound drafts are executable as
  written: each has exactly one operation, none is a configured \<open>file_send\<close>, no send is conditional,
  every mailbox a step names is configured, and no move goes to a mailbox whose first special use
  cannot be a target.\<close>

theorem validated_outbound_steps:
  assumes "config_validate cfg = Inr ()"
    and "s \<in> set (da_save (ac_draft (mc_actions cfg))) \<union> set (da_send (ac_draft (mc_actions cfg)))"
  shows "op_count s = 1 \<and> as_file_send s = None \<and> \<not> (is_send s \<and> as_on s \<noteq> None)
    \<and> (\<forall>t \<in> set (step_targets s). \<exists>m. map_of (mc_mailboxes cfg) t = Some m
         \<and> (as_move_to_mailbox_id s \<noteq> None \<longrightarrow> (\<forall>k. first_special_use_kind m = Some k \<longrightarrow> can_move_to k)))"
proof -
  obtain label i where "validate_step cfg label i s = Inr ()"
    using assms config_validate_draft [OF assms(1)] by (auto dest: validate_steps_each)
  note v = validate_step_ok [OF this]
  show ?thesis using v(1,2) v(3) by (auto dest!: v(4) validate_target_ok)
qed

theorem validated_outbound_steps_witness:
  "op_count step_smtp_send = 1 \<and> \<not> (is_send step_smtp_send \<and> as_on step_smtp_send \<noteq> None)"
proof -
  have "step_smtp_send \<in> set (da_send (ac_draft (mc_actions default_config)))"
    by code_simp
  then show ?thesis
    using validated_outbound_steps [OF default_config_validates, of step_smtp_send] by blast
qed

text \<open>A validated configuration sends a draft by exactly one step, so a draft that is sent
  is submitted to exactly one transport.\<close>

theorem validated_single_send:
  assumes "config_validate cfg = Inr ()"
  shows "length (filter is_send (da_send (ac_draft (mc_actions cfg)))) = 1"
  using config_validate_draft(2) [OF assms] by (simp add: validate_steps_def bind_require_ok)

theorem validated_single_send_witness:
  "length (filter is_send (da_send (ac_draft (mc_actions default_config)))) = 1"
  by (rule validated_single_send [OF default_config_validates])

text \<open>the built-in default configuration passes its own validation.\<close>

theorem default_config_valid:
  "config_validate default_config = Inr ()
     \<and> list_all (\<lambda>(ident, m). offline_mailbox_name m \<noteq> None) (mc_mailboxes default_config)"
  by code_simp

end
