(* ===== verification/Push_Types.thy ===== *)
theory Push_Types
  imports Mail_Config
begin

text \<open>
  The durable push item and its parts (src/src/types/push.rs), the draft projection over it
  (src/src/types/draft.rs) and the counts of a command's result
  (src/src/types/command_result.rs).  Sequence numbers, attempt counts and IMAP UIDs are
  \<open>u64\<close> in the code and \<open>64 word\<close> here; step indices (\<open>usize\<close>) are naturals.
\<close>

type_synonym u64 = "64 word"

definition PUSH_ITEM_SCHEMA_VERSION :: u64 where
  "PUSH_ITEM_SCHEMA_VERSION = 2"

section \<open>Kinds, statuses and stages\<close>

datatype push_kind = KDraft | KMessage

definition err_unsupported_kind :: "string \<Rightarrow> app_error" where
  "err_unsupported_kind other =
     app_error_new ''push_item_invalid'' (''unsupported push item kind: '' @ other)"

definition push_kind_parse :: "string \<Rightarrow> push_kind res" where
  "push_kind_parse v =
     (if v = ''draft'' then Inr KDraft else if v = ''message'' then Inr KMessage
      else Inl (err_unsupported_kind v))"

definition push_kind_as_str :: "push_kind \<Rightarrow> string" where
  "push_kind_as_str k = (case k of KDraft \<Rightarrow> ''draft'' | KMessage \<Rightarrow> ''message'')"

datatype push_step_status = Pending | Succeeded | Failed | RemoteOutcomeUnknown

datatype push_local_stage =
  RemoteSucceeded | OutboundRecorded | DraftRemoved | PendingCleared | AuditPending

text \<open>The stages are ordered by declaration, as the derived \<open>Ord\<close> of the code orders them.\<close>

definition stage_rank :: "push_local_stage \<Rightarrow> nat" where
  "stage_rank s = (case s of RemoteSucceeded \<Rightarrow> 0 | OutboundRecorded \<Rightarrow> 1 | DraftRemoved \<Rightarrow> 2
     | PendingCleared \<Rightarrow> 3 | AuditPending \<Rightarrow> 4)"

lemma stage_rank_inj: "stage_rank a = stage_rank b \<Longrightarrow> a = b"
  by (cases a; cases b) (simp_all add: stage_rank_def)

instantiation push_local_stage :: linorder
begin

definition less_eq_push_local_stage :: "push_local_stage \<Rightarrow> push_local_stage \<Rightarrow> bool" where
  "a \<le> b \<longleftrightarrow> stage_rank a \<le> stage_rank b"

definition less_push_local_stage :: "push_local_stage \<Rightarrow> push_local_stage \<Rightarrow> bool" where
  "a < b \<longleftrightarrow> stage_rank a < stage_rank b"

instance
  by standard (auto simp: less_eq_push_local_stage_def less_push_local_stage_def dest: stage_rank_inj)

end

datatype outbound_action = SaveDraft | Send

definition outbound_action_as_str :: "outbound_action \<Rightarrow> string" where
  "outbound_action_as_str a = (case a of SaveDraft \<Rightarrow> ''save_draft'' | Send \<Rightarrow> ''send'')"

datatype message_push_action = CaseAdd | Notification | MarkSpam | MarkTrash | Unspam | Untrash

definition action_from_kind :: "string \<Rightarrow> message_push_action option" where
  "action_from_kind kind =
     (if kind = ''case.add'' \<or> kind = ''case_add'' then Some CaseAdd
      else if kind = ''message.notification'' \<or> kind = ''notification'' then Some Notification
      else if kind = ''message.spam'' \<or> kind = ''spam'' then Some MarkSpam
      else if kind = ''message.trash'' \<or> kind = ''trash'' then Some MarkTrash
      else if kind = ''message.unspam'' \<or> kind = ''unspam'' then Some Unspam
      else if kind = ''message.untrash'' \<or> kind = ''untrash'' then Some Untrash
      else None)"

definition action_kind :: "message_push_action \<Rightarrow> string" where
  "action_kind a = (case a of CaseAdd \<Rightarrow> ''case.add'' | Notification \<Rightarrow> ''message.notification''
     | MarkSpam \<Rightarrow> ''message.spam'' | MarkTrash \<Rightarrow> ''message.trash''
     | Unspam \<Rightarrow> ''message.unspam'' | Untrash \<Rightarrow> ''message.untrash'')"

definition action_mode_label :: "message_push_action \<Rightarrow> string" where
  "action_mode_label a = (case a of CaseAdd \<Rightarrow> ''case'' | Notification \<Rightarrow> ''notification''
     | MarkSpam \<Rightarrow> ''spam'' | MarkTrash \<Rightarrow> ''trash'' | Unspam \<Rightarrow> ''unspam'' | Untrash \<Rightarrow> ''untrash'')"

section \<open>Step states and payloads\<close>

record send_receipt =
  sr_message_id :: string
  sr_delivered :: "string list"
  sr_queued :: "string list"
  sr_permanent_bounces :: "string list"
  sr_suppressed_recipients :: "string list"

record push_step_state =
  ss_index :: nat
  ss_label :: string
  ss_status :: push_step_status
  ss_started :: "string option"
  ss_completed :: "string option"
  ss_result_summary :: "string option"
  ss_send_receipt :: "send_receipt option"
  ss_error_code :: "string option"
  ss_error :: "string option"
  ss_retryable :: "bool option"

record push_audit_pending =
  ap_event_id :: string
  ap_created :: string
  ap_push_kind :: string
  ap_case_uid :: "string option"
  ap_draft_name :: "string option"
  ap_action :: "string option"
  ap_message_ids :: "string list"
  ap_succeeded_step_count :: nat
  ap_attempt_count :: u64
  ap_last_error :: "string option"

record push_location =
  loc_message_id :: string
  loc_mailbox_name :: string
  loc_uid_validity :: u64
  loc_uid :: u64

record message_action_push =
  ma_action :: message_push_action
  ma_message_ids :: "string list"
  ma_locations :: "push_location list"
  ma_steps :: "action_step list"
  ma_reply_to_message_id :: "string option"

record draft_push =
  dp_case_uid :: string
  dp_draft_name :: string
  dp_draft_uid_validity :: "u64 option"
  dp_draft_uid :: "u64 option"

record message_push =
  mp_message_id :: string
  mp_action :: message_push_action
  mp_snapshot :: "message_action_push option"

datatype push_payload = PDraft draft_push | PMessage message_push

record outbound_push =
  ob_action :: outbound_action
  ob_case_uid :: string
  ob_draft_name :: string
  ob_draft_uid_validity :: "u64 option"
  ob_draft_uid :: "u64 option"
  ob_steps :: "action_step list"
  ob_reply_to_message_id :: "string option"

record reply_route =
  rr_channel :: string
  rr_source_id :: string
  rr_conversation_id :: string

record email_delivery =
  pe_delivery_raw :: string
  pe_envelope_from :: string
  pe_envelope_to :: "string list"

datatype outbound_delivery = DeliverEmail email_delivery | DeliverFile reply_route

record prepared_outbound =
  po_message_id :: string
  po_raw :: string
  po_delivery :: outbound_delivery

definition err_no_email :: app_error where
  "err_no_email = app_error_new ''channel_operation_unsupported''
     ''email transport cannot deliver a file-channel message''"

definition prepared_email :: "prepared_outbound \<Rightarrow> email_delivery res" where
  "prepared_email p = (case po_delivery p of DeliverEmail e \<Rightarrow> Inr e | DeliverFile _ \<Rightarrow> Inl err_no_email)"

record push_item =
  pi_push_id :: string
  pi_enqueue_seq :: u64
  pi_payload :: push_payload
  pi_planned_outbound :: "outbound_push option"
  pi_planned_outbound_message :: "prepared_outbound option"
  pi_planned_message_action :: "message_action_push option"
  pi_planned_message_rfc822 :: "(string \<times> string) list"
  pi_created :: string
  pi_updated :: string
  pi_attempt_count :: u64
  pi_step_states :: "push_step_state list"
  pi_local_stage :: "push_local_stage option"
  pi_audit_pending :: "push_audit_pending option"
  pi_last_error :: "string option"

text \<open>What serialising an item keeps: the \<open>planned_*\<close> members are \<open>serde(skip)\<close>.\<close>

definition durable :: "push_item \<Rightarrow> push_item" where
  "durable it = it\<lparr>pi_planned_outbound := None, pi_planned_outbound_message := None,
     pi_planned_message_action := None, pi_planned_message_rfc822 := []\<rparr>"

lemma durable_sel [simp]:
  "pi_push_id (durable it) = pi_push_id it" "pi_enqueue_seq (durable it) = pi_enqueue_seq it"
  "pi_payload (durable it) = pi_payload it" "pi_step_states (durable it) = pi_step_states it"
  "pi_local_stage (durable it) = pi_local_stage it" "pi_audit_pending (durable it) = pi_audit_pending it"
  "pi_created (durable it) = pi_created it" "pi_updated (durable it) = pi_updated it"
  "pi_attempt_count (durable it) = pi_attempt_count it" "pi_last_error (durable it) = pi_last_error it"
  "pi_planned_outbound (durable it) = None" "pi_planned_message_action (durable it) = None"
  "pi_planned_outbound_message (durable it) = None" "pi_planned_message_rfc822 (durable it) = []"
  by (simp_all add: durable_def)

lemma durable_idem [simp]: "durable (durable it) = durable it"
  by (simp add: durable_def)

section \<open>Accessors of a push item\<close>

definition item_push_kind :: "push_item \<Rightarrow> push_kind" where
  "item_push_kind it = (case pi_payload it of PDraft _ \<Rightarrow> KDraft | PMessage _ \<Rightarrow> KMessage)"

definition display_kind :: "push_item \<Rightarrow> string" where
  "display_kind it = (case pi_planned_outbound it of
     Some ob \<Rightarrow> outbound_action_as_str (ob_action ob)
   | None \<Rightarrow> (case pi_planned_message_action it of
       Some a \<Rightarrow> action_kind (ma_action a)
     | None \<Rightarrow> (case pi_payload it of PDraft _ \<Rightarrow> ''draft'' | PMessage m \<Rightarrow> action_kind (mp_action m))))"

definition item_draft :: "push_item \<Rightarrow> draft_push option" where
  "item_draft it = (case pi_payload it of PDraft d \<Rightarrow> Some d | PMessage _ \<Rightarrow> None)"

definition item_message :: "push_item \<Rightarrow> message_push option" where
  "item_message it = (case pi_payload it of PMessage m \<Rightarrow> Some m | PDraft _ \<Rightarrow> None)"

text \<open>What an item is for, and its identity: its id with what it is for.\<close>

datatype push_subject = DraftOf string string | MessageOf string

definition item_subject :: "push_item \<Rightarrow> push_subject" where
  "item_subject it = (case pi_payload it of PDraft d \<Rightarrow> DraftOf (dp_case_uid d) (dp_draft_name d)
     | PMessage m \<Rightarrow> MessageOf (mp_message_id m))"

definition item_ident :: "push_item \<Rightarrow> string \<times> push_subject" where
  "item_ident it = (pi_push_id it, item_subject it)"

lemma item_ident_eq: "pi_push_id a = pi_push_id b \<Longrightarrow> pi_payload a = pi_payload b \<Longrightarrow> item_ident a = item_ident b"
  by (simp add: item_ident_def item_subject_def)

lemma item_identD: "item_ident a = item_ident b \<Longrightarrow> pi_push_id a = pi_push_id b"
  by (simp add: item_ident_def)

lemma item_ident_update [simp]:
  "item_ident (it\<lparr>pi_enqueue_seq := v0\<rparr>) = item_ident it"
  "item_ident (it\<lparr>pi_planned_outbound := v1\<rparr>) = item_ident it"
  "item_ident (it\<lparr>pi_planned_outbound_message := v2\<rparr>) = item_ident it"
  "item_ident (it\<lparr>pi_planned_message_action := v3\<rparr>) = item_ident it"
  "item_ident (it\<lparr>pi_planned_message_rfc822 := v4\<rparr>) = item_ident it"
  "item_ident (it\<lparr>pi_created := v5\<rparr>) = item_ident it"
  "item_ident (it\<lparr>pi_updated := v6\<rparr>) = item_ident it"
  "item_ident (it\<lparr>pi_attempt_count := v7\<rparr>) = item_ident it"
  "item_ident (it\<lparr>pi_step_states := v8\<rparr>) = item_ident it"
  "item_ident (it\<lparr>pi_local_stage := v9\<rparr>) = item_ident it"
  "item_ident (it\<lparr>pi_audit_pending := v10\<rparr>) = item_ident it"
  "item_ident (it\<lparr>pi_last_error := v11\<rparr>) = item_ident it"
  by (simp_all add: item_ident_def item_subject_def)

lemma item_ident_durable [simp]: "item_ident (durable it) = item_ident it" "item_subject (durable it) = item_subject it"
  by (simp_all add: item_ident_def item_subject_def)

definition message_ids :: "push_item \<Rightarrow> string list" where
  "message_ids it = (case pi_planned_message_action it of
     Some a \<Rightarrow> ma_message_ids a
   | None \<Rightarrow> (case pi_payload it of PMessage m \<Rightarrow> [mp_message_id m] | PDraft _ \<Rightarrow> []))"

definition item_locations :: "push_item \<Rightarrow> push_location list" where
  "item_locations it = (case pi_planned_message_action it of Some a \<Rightarrow> ma_locations a | None \<Rightarrow> [])"

definition item_steps :: "push_item \<Rightarrow> action_step list" where
  "item_steps it = (case pi_planned_message_action it of Some a \<Rightarrow> ma_steps a | None \<Rightarrow> [])"

definition item_reply_to_message_id :: "push_item \<Rightarrow> string option" where
  "item_reply_to_message_id it =
     (case Option.bind (pi_planned_message_action it) ma_reply_to_message_id of
        Some r \<Rightarrow> Some r
      | None \<Rightarrow> Option.bind (pi_planned_outbound it) ob_reply_to_message_id)"

fun count_succeeded :: "nat \<Rightarrow> push_step_state list \<Rightarrow> nat" where
  "count_succeeded n [] = n"
| "count_succeeded n (s # ss) =
     count_succeeded (if ss_index s = n \<and> ss_status s = Succeeded then Suc n else n) ss"

definition succeeded_step_count :: "push_item \<Rightarrow> nat" where
  "succeeded_step_count it = count_succeeded 0 (pi_step_states it)"

definition step_started :: "push_step_state \<Rightarrow> bool" where
  "step_started s \<longleftrightarrow> ss_status s \<noteq> Pending \<or> ss_started s \<noteq> None \<or> ss_completed s \<noteq> None"

definition has_started_steps :: "push_item \<Rightarrow> bool" where
  "has_started_steps it = list_ex step_started (pi_step_states it)"

definition has_started_effects :: "push_item \<Rightarrow> bool" where
  "has_started_effects it \<longleftrightarrow>
     has_started_steps it \<or> pi_local_stage it \<noteq> None \<or> pi_audit_pending it \<noteq> None"

lemma has_started_durable [simp]:
  "has_started_steps (durable it) = has_started_steps it"
  "has_started_effects (durable it) = has_started_effects it"
  "item_push_kind (durable it) = item_push_kind it"
  "item_draft (durable it) = item_draft it" "item_message (durable it) = item_message it"
  by (simp_all add: has_started_steps_def has_started_effects_def item_push_kind_def
      item_draft_def item_message_def)

definition local_stage_at_least :: "push_item \<Rightarrow> push_local_stage \<Rightarrow> bool" where
  "local_stage_at_least it stage = (case pi_local_stage it of None \<Rightarrow> False | Some cur \<Rightarrow> stage \<le> cur)"

section \<open>The key check of a parsed item\<close>

definition push_item_common_keys :: "string list" where
  "push_item_common_keys =
     [''schema_name'', ''schema_version'', ''push_id'', ''enqueue_seq'', ''kind'',
      ''created_rfc3339'', ''updated_rfc3339'', ''attempt_count'', ''step_states'',
      ''local_stage'', ''audit_pending'', ''last_error'']"

definition push_payload_key_allowed :: "push_kind \<Rightarrow> string \<Rightarrow> bool" where
  "push_payload_key_allowed kind key = (case kind of
     KDraft \<Rightarrow> key \<in> set [''case_uid'', ''draft_name'', ''draft_uid_validity'', ''draft_uid'']
   | KMessage \<Rightarrow> key \<in> set [''message_id'', ''action'', ''message_action_snapshot''])"

definition err_push_item_invalid :: "string \<Rightarrow> app_error" where
  "err_push_item_invalid msg = app_error_new ''push_item_invalid'' msg"

definition validate_push_item_keys :: "json \<Rightarrow> unit res" where
  "validate_push_item_keys v = (case v of
     JObj ms \<Rightarrow> (case map_of ms ''kind'' of
         Some (JStr raw_kind) \<Rightarrow>
           if map_of ms ''schema_name'' \<noteq> Some (JStr ''push_item'')
              \<or> map_of ms ''schema_version'' \<noteq> Some (JNum (uint PUSH_ITEM_SCHEMA_VERSION))
           then Inl (err_push_item_invalid
             ''push item requires schema_name push_item and schema_version 2'')
           else bind_res (push_kind_parse raw_kind) (\<lambda>kind.
             for_res (\<lambda>key. require
                 (key \<in> set push_item_common_keys \<or> push_payload_key_allowed kind key)
                 (err_push_item_invalid (''unsupported push item field: '' @ key)))
               (map fst ms))
       | _ \<Rightarrow> Inl (err_push_item_invalid ''push item requires kind''))
   | _ \<Rightarrow> Inl (err_push_item_invalid ''push item must be an object''))"

section \<open>The observable state of a draft\<close>

datatype draft_sync_intent = IntentSaveDraft | IntentSend

definition draft_intent_as_str :: "draft_sync_intent \<Rightarrow> string" where
  "draft_intent_as_str i = (case i of IntentSaveDraft \<Rightarrow> ''save_draft'' | IntentSend \<Rightarrow> ''send'')"

definition intent_of_action :: "outbound_action \<Rightarrow> draft_sync_intent" where
  "intent_of_action a = (case a of SaveDraft \<Rightarrow> IntentSaveDraft | Send \<Rightarrow> IntentSend)"

definition action_of_intent :: "draft_sync_intent \<Rightarrow> outbound_action" where
  "action_of_intent i = (case i of IntentSaveDraft \<Rightarrow> SaveDraft | IntentSend \<Rightarrow> Send)"

datatype draft_status = Editable | QueuedUpload | QueuedSend | Pushing | DraftFailed

datatype draft_projection_issue = IntentWithoutPush | PushWithoutIntent

record draft_state_projection =
  pr_status :: draft_status
  pr_queued_action :: "draft_sync_intent option"
  pr_issue :: "draft_projection_issue option"

definition status_for_queued_item :: "draft_sync_intent \<Rightarrow> push_item \<Rightarrow> draft_status" where
  "status_for_queued_item intent it =
     (let failed = (pi_last_error it \<noteq> None \<or> list_ex (\<lambda>s.
            ss_status s = Failed \<or> ss_status s = RemoteOutcomeUnknown) (pi_step_states it))
      in if failed then DraftFailed
         else if has_started_effects it then Pushing
         else case intent of IntentSaveDraft \<Rightarrow> QueuedUpload | IntentSend \<Rightarrow> QueuedSend)"

definition from_queue :: "draft_sync_intent option \<Rightarrow> push_item option \<Rightarrow> draft_state_projection" where
  "from_queue intent queued = (case (intent, queued) of
     (None, None) \<Rightarrow> \<lparr>pr_status = Editable, pr_queued_action = None, pr_issue = None\<rparr>
   | (Some _, None) \<Rightarrow>
       \<lparr>pr_status = DraftFailed, pr_queued_action = None, pr_issue = Some IntentWithoutPush\<rparr>
   | (None, Some _) \<Rightarrow>
       \<lparr>pr_status = DraftFailed, pr_queued_action = None, pr_issue = Some PushWithoutIntent\<rparr>
   | (Some i, Some it) \<Rightarrow>
       \<lparr>pr_status = status_for_queued_item i it, pr_queued_action = Some i, pr_issue = None\<rparr>)"

section \<open>The counts of a command's result\<close>

record command_result =
  cr_succeeded_count :: nat
  cr_failed_count :: nat

definition command_succeeded :: command_result where
  "command_succeeded = \<lparr>cr_succeeded_count = 1, cr_failed_count = 0\<rparr>"

definition command_aggregate :: "nat \<Rightarrow> nat \<Rightarrow> command_result" where
  "command_aggregate s f = \<lparr>cr_succeeded_count = s, cr_failed_count = f\<rparr>"

definition command_is_success :: "command_result \<Rightarrow> bool" where
  "command_is_success r \<longleftrightarrow> cr_failed_count r = 0"

definition command_is_partial :: "command_result \<Rightarrow> bool" where
  "command_is_partial r \<longleftrightarrow> cr_succeeded_count r > 0 \<and> cr_failed_count r > 0"

definition command_exit_code :: "command_result \<Rightarrow> int" where
  "command_exit_code r = (if cr_failed_count r = 0 then 0
     else if cr_succeeded_count r = 0 then 1 else 3)"

definition with_additional_failures :: "command_result \<Rightarrow> nat \<Rightarrow> command_result" where
  "with_additional_failures r n = r\<lparr>cr_failed_count := cr_failed_count r + n\<rparr>"

end
