(* ===== verification/Step_State.thy ===== *)
theory Step_State
  imports Push_Types
begin

text \<open>
  The transitions of one tracked step inside a push item
  (src/src/push_queue/execute/step_state.rs).  The \<open>now\<close> a transition reads from the clock is
  an argument.  A transition on a missing index changes no step, as \<open>step_state_mut\<close> returning
  \<open>None\<close> does.
\<close>

named_theorems step_defs "definitions of the step transitions"

section \<open>Transitions\<close>

fun update_first :: "('a \<Rightarrow> bool) \<Rightarrow> ('a \<Rightarrow> 'a) \<Rightarrow> 'a list \<Rightarrow> 'a list" where
  "update_first P f [] = []"
| "update_first P f (x # xs) = (if P x then f x # xs else x # update_first P f xs)"

definition fresh_step_state :: "nat \<Rightarrow> action_step \<Rightarrow> push_step_state" where
  "fresh_step_state i s = \<lparr>ss_index = i, ss_label = step_label s, ss_status = Pending,
     ss_started = None, ss_completed = None, ss_result_summary = None, ss_send_receipt = None,
     ss_error_code = None, ss_error = None, ss_retryable = None\<rparr>"

text \<open>Push the missing states in order, drop the ones past the end, sort by index.\<close>

definition ensure_states :: "action_step list \<Rightarrow> push_step_state list \<Rightarrow> push_step_state list" where
  "ensure_states steps sts =
     sort_key ss_index (filter (\<lambda>st. ss_index st < length steps)
       (fold (\<lambda>(i, s) acc. if \<exists>st \<in> set acc. ss_index st = i then acc else acc @ [fresh_step_state i s])
          (enumerate0 steps) sts))"

definition ensure_step_states :: "push_item \<Rightarrow> action_step list \<Rightarrow> push_item" where
  "ensure_step_states it steps = it\<lparr>pi_step_states := ensure_states steps (pi_step_states it)\<rparr>"

definition step_has :: "push_item \<Rightarrow> nat \<Rightarrow> push_step_status \<Rightarrow> bool" where
  "step_has it i status = (\<exists>st \<in> set (pi_step_states it). ss_index st = i \<and> ss_status st = status)"

definition step_succeeded :: "push_item \<Rightarrow> nat \<Rightarrow> bool" where
  "step_succeeded it i = step_has it i Succeeded"

definition step_remote_outcome_unknown :: "push_item \<Rightarrow> nat \<Rightarrow> bool" where
  "step_remote_outcome_unknown it i = step_has it i RemoteOutcomeUnknown"

definition relocation_error_text :: "string \<Rightarrow> string" where
  "relocation_error_text mid =
     ''message cannot be relocated after remote move without Message-ID: '' @ mid"

definition legacy_move_message_id_preflight_failed :: "push_item \<Rightarrow> nat \<Rightarrow> action_step \<Rightarrow> bool" where
  "legacy_move_message_id_preflight_failed it i s =
     (if pi_planned_message_action it = None \<or> as_move_to_mailbox_id s = None
         \<or> as_add_flags s \<noteq> [] \<or> as_append_to_mailbox_id s \<noteq> None \<or> is_send s
      then False
      else \<exists>st \<in> set (pi_step_states it). ss_index st = i
             \<and> ss_error_code st = Some ''rfc822_message_id_missing''
             \<and> (\<exists>mid \<in> set (message_ids it). ss_error st = Some (relocation_error_text mid)))"

definition update_step :: "nat \<Rightarrow> (push_step_state \<Rightarrow> push_step_state) \<Rightarrow> push_item \<Rightarrow> push_item" where
  "update_step i f it =
     it\<lparr>pi_step_states := update_first (\<lambda>st. ss_index st = i) f (pi_step_states it)\<rparr>"

definition record_attempt ::
  "action_step \<Rightarrow> push_step_status \<Rightarrow> string \<Rightarrow> push_step_state \<Rightarrow> push_step_state" where [step_defs]:
  "record_attempt s status now st = st\<lparr>ss_label := step_label s, ss_status := status,
     ss_started := (case ss_started st of None \<Rightarrow> Some now | Some t \<Rightarrow> Some t)\<rparr>"

definition clear_step_error :: "push_step_state \<Rightarrow> push_step_state" where [step_defs]:
  "clear_step_error st = st\<lparr>ss_error_code := None, ss_error := None, ss_retryable := None\<rparr>"

definition freeze_message_action_snapshot :: "push_item \<Rightarrow> push_item" where
  "freeze_message_action_snapshot it = (case pi_payload it of
     PDraft _ \<Rightarrow> it
   | PMessage m \<Rightarrow>
       (if mp_snapshot m = None
        then it\<lparr>pi_payload := PMessage (m\<lparr>mp_snapshot := pi_planned_message_action it\<rparr>)\<rparr>
        else it))"

definition pend_step :: "action_step \<Rightarrow> string \<Rightarrow> push_step_state \<Rightarrow> push_step_state" where [step_defs]:
  "pend_step s now st = clear_step_error (st\<lparr>ss_label := step_label s, ss_status := Pending,
     ss_started := Some now, ss_completed := None, ss_result_summary := None, ss_send_receipt := None\<rparr>)"

definition mark_step_pending :: "string \<Rightarrow> push_item \<Rightarrow> nat \<Rightarrow> action_step \<Rightarrow> push_item" where
  "mark_step_pending now it i s =
     (update_step i (pend_step s now) (freeze_message_action_snapshot it))\<lparr>pi_updated := now\<rparr>"

definition step_result_summary :: "action_step \<Rightarrow> string" where
  "step_result_summary s =
     (if as_file_send s \<noteq> None then ''file_send published''
      else if as_cloudflare_send s \<noteq> None
        then ''cloudflare_send submitted; inspect send_receipt for recipient outcomes''
      else if as_smtp_send s \<noteq> None then ''smtp_send succeeded''
      else if as_append_to_mailbox_id s \<noteq> None then ''append succeeded''
      else if as_move_to_mailbox_id s \<noteq> None then ''move succeeded''
      else if as_add_flags s \<noteq> [] then ''flags updated''
      else ''noop succeeded'')"

definition succeed_step :: "action_step \<Rightarrow> string \<Rightarrow> push_step_state \<Rightarrow> push_step_state" where [step_defs]:
  "succeed_step s now st = clear_step_error ((record_attempt s Succeeded now st)
     \<lparr>ss_completed := Some now, ss_result_summary := Some (step_result_summary s)\<rparr>)"

definition mark_step_succeeded :: "string \<Rightarrow> push_item \<Rightarrow> nat \<Rightarrow> action_step \<Rightarrow> push_item" where
  "mark_step_succeeded now it i s = update_step i (succeed_step s now) it"

definition fail_step ::
  "action_step \<Rightarrow> string \<Rightarrow> app_error \<Rightarrow> push_step_state \<Rightarrow> push_step_state" where [step_defs]:
  "fail_step s now err st = (record_attempt s Failed now st)
     \<lparr>ss_completed := Some now, ss_result_summary := None, ss_error_code := Some (error_code err),
      ss_error := Some (message err), ss_retryable := Some (retryable err)\<rparr>"

definition mark_step_failed ::
  "string \<Rightarrow> push_item \<Rightarrow> nat \<Rightarrow> action_step \<Rightarrow> app_error \<Rightarrow> push_item" where
  "mark_step_failed now it i s err = update_step i (fail_step s now err) it"

definition unknown_step ::
  "action_step \<Rightarrow> string \<Rightarrow> app_error option \<Rightarrow> push_step_state \<Rightarrow> push_step_state" where [step_defs]:
  "unknown_step s now err st = (record_attempt s RemoteOutcomeUnknown now st)
     \<lparr>ss_completed := None, ss_result_summary := Some ''remote outcome unknown'',
      ss_error_code := map_option error_code err, ss_error := map_option message err,
      ss_retryable := Some False\<rparr>"

definition mark_step_remote_outcome_unknown ::
  "string \<Rightarrow> push_item \<Rightarrow> nat \<Rightarrow> action_step \<Rightarrow> app_error option \<Rightarrow> push_item" where
  "mark_step_remote_outcome_unknown now it i s err = update_step i (unknown_step s now err) it"

definition mark_step_recovered_pending :: "string \<Rightarrow> push_step_state \<Rightarrow> push_step_state" where [step_defs]:
  "mark_step_recovered_pending summary st = st\<lparr>ss_status := Pending, ss_started := None,
     ss_completed := None, ss_result_summary := Some summary, ss_retryable := Some True\<rparr>"

section \<open>What a transition changes\<close>

text \<open>Every item the program writes has its step states in order, one for each index from 0.\<close>

definition wf_steps :: "push_item \<Rightarrow> bool" where
  "wf_steps it \<longleftrightarrow> map ss_index (pi_step_states it) = [0..<length (pi_step_states it)]"

lemma wf_distinct: "wf_steps it \<Longrightarrow> distinct (map ss_index (pi_step_states it))"
  by (simp add: wf_steps_def)

definition step_done :: "push_item \<Rightarrow> nat \<Rightarrow> bool" where
  "step_done it i \<longleftrightarrow> step_has it i Succeeded \<or> step_has it i RemoteOutcomeUnknown"

definition has_step :: "push_item \<Rightarrow> nat \<Rightarrow> bool" where
  "has_step it i \<longleftrightarrow> i \<in> ss_index ` set (pi_step_states it)"

lemma update_step_sel [simp]:
  "pi_push_id (update_step i f it) = pi_push_id it"
  "pi_enqueue_seq (update_step i f it) = pi_enqueue_seq it"
  "pi_payload (update_step i f it) = pi_payload it"
  "pi_local_stage (update_step i f it) = pi_local_stage it"
  "pi_audit_pending (update_step i f it) = pi_audit_pending it"
  "pi_attempt_count (update_step i f it) = pi_attempt_count it"
  "pi_planned_outbound (update_step i f it) = pi_planned_outbound it"
  "pi_planned_outbound_message (update_step i f it) = pi_planned_outbound_message it"
  "pi_planned_message_action (update_step i f it) = pi_planned_message_action it"
  "pi_planned_message_rfc822 (update_step i f it) = pi_planned_message_rfc822 it"
  "pi_created (update_step i f it) = pi_created it"
  by (simp_all add: update_step_def)

lemma states_update_step:
  "pi_step_states (update_step i f it) = update_first (\<lambda>st. ss_index st = i) f (pi_step_states it)"
  by (simp add: update_step_def)

lemma freeze_sel [simp]:
  "pi_push_id (freeze_message_action_snapshot it) = pi_push_id it"
  "pi_enqueue_seq (freeze_message_action_snapshot it) = pi_enqueue_seq it"
  "pi_step_states (freeze_message_action_snapshot it) = pi_step_states it"
  "pi_local_stage (freeze_message_action_snapshot it) = pi_local_stage it"
  "pi_audit_pending (freeze_message_action_snapshot it) = pi_audit_pending it"
  "pi_planned_outbound (freeze_message_action_snapshot it) = pi_planned_outbound it"
  "pi_planned_message_action (freeze_message_action_snapshot it) = pi_planned_message_action it"
  "item_push_kind (freeze_message_action_snapshot it) = item_push_kind it"
  "item_draft (freeze_message_action_snapshot it) = item_draft it"
  by (simp_all add: freeze_message_action_snapshot_def item_push_kind_def item_draft_def
      split: push_payload.splits)

lemma item_ident_freeze [simp]: "item_ident (freeze_message_action_snapshot it) = item_ident it"
  by (simp add: freeze_message_action_snapshot_def item_ident_def item_subject_def split: push_payload.splits)

lemma item_ident_update_step [simp]: "item_ident (update_step i f it) = item_ident it"
  by (rule item_ident_eq) simp_all

lemma set_update_first:
  assumes "distinct (map k xs)" "\<And>x. k (f x) = k x"
  shows "set (update_first (\<lambda>x. k x = i) f xs) = (\<lambda>x. if k x = i then f x else x) ` set xs"
  using assms(1)
proof (induction xs)
  case (Cons x xs)
  show ?case
  proof (cases "k x = i")
    case True
    with Cons.prems have "\<And>y. y \<in> set xs \<Longrightarrow> k y \<noteq> i" by (force simp: image_iff)
    with True show ?thesis by (auto simp: image_iff)
  next
    case False
    with Cons show ?thesis by auto
  qed
qed simp

lemma map_index_update_first:
  "(\<And>x. k (f x) = k x) \<Longrightarrow> map k (update_first P f xs) = map k xs"
  by (induction xs) auto

lemma transition_index [simp]:
  "ss_index (pend_step s now st) = ss_index st" "ss_index (succeed_step s now st) = ss_index st"
  "ss_index (fail_step s now err st) = ss_index st" "ss_index (unknown_step s now e st) = ss_index st"
  "ss_index (mark_step_recovered_pending m st) = ss_index st"
  by (simp_all add: step_defs)

lemma transition_status [simp]:
  "ss_status (pend_step s now st) = Pending" "ss_status (succeed_step s now st) = Succeeded"
  "ss_status (fail_step s now err st) = Failed"
  "ss_status (unknown_step s now e st) = RemoteOutcomeUnknown"
  "ss_status (mark_step_recovered_pending m st) = Pending"
  by (simp_all add: step_defs)

lemma length_update_first [simp]: "length (update_first P f xs) = length xs"
  by (induction xs) auto

lemma wf_update_step [simp]: "(\<And>st. ss_index (f st) = ss_index st) \<Longrightarrow> wf_steps (update_step i f it) = wf_steps it"
  by (simp add: wf_steps_def update_step_def map_index_update_first)

lemma has_step_update_step [simp]:
  assumes "\<And>st. ss_index (f st) = ss_index st"
  shows "has_step (update_step i f it) j = has_step it j"
proof -
  have "set (map ss_index (pi_step_states (update_step i f it))) = set (map ss_index (pi_step_states it))"
    by (simp only: states_update_step map_index_update_first assms)
  then show ?thesis by (auto simp: has_step_def)
qed

lemma step_has_update_step:
  assumes "wf_steps it" "\<And>st. ss_index (f st) = ss_index st" "\<And>st. ss_status (f st) = status"
  shows "step_has (update_step i f it) j st =
    (if j = i then has_step it i \<and> st = status else step_has it j st)"
  using assms wf_distinct [OF assms(1)]
  by (auto simp: step_has_def update_step_def has_step_def
      set_update_first [where k = ss_index and f = f])

lemma step_done_durable [simp]: "step_done (durable it) i = step_done it i"
  and step_has_durable [simp]: "step_has (durable it) i st = step_has it i st"
  and wf_steps_durable [simp]: "wf_steps (durable it) = wf_steps it"
  by (simp_all add: step_done_def step_has_def wf_steps_def)

lemma step_has_unique:
  "wf_steps it \<Longrightarrow> step_has it i a \<Longrightarrow> step_has it i b \<Longrightarrow> a = b"
  by (force simp: step_has_def distinct_map dest!: wf_distinct dest: inj_onD)

lemma wf_index_bound: "wf_steps it \<Longrightarrow> has_step it i = (i < length (pi_step_states it))"
proof -
  assume "wf_steps it"
  then have "set (map ss_index (pi_step_states it)) = {..<length (pi_step_states it)}"
    by (simp only: wf_steps_def set_upt atLeast0LessThan)
  then show ?thesis by (auto simp: has_step_def)
qed

lemma step_has_has_step: "step_has it i st \<Longrightarrow> has_step it i"
  by (auto simp: step_has_def has_step_def)

lemma step_done_bound: "wf_steps it \<Longrightarrow> step_done it i \<Longrightarrow> i < length (pi_step_states it)"
  by (auto simp: step_done_def wf_index_bound [symmetric] intro: step_has_has_step)

lemma step_done_started: "step_done it i \<Longrightarrow> has_started_steps it"
proof -
  assume "step_done it i"
  then obtain st where "st \<in> set (pi_step_states it)" "ss_status st \<noteq> Pending"
    by (auto simp: step_done_def step_has_def)
  then show ?thesis
    by (auto simp: has_started_steps_def step_started_def list_ex_iff intro!: bexI [of _ st])
qed

section \<open>\<open>ensure_step_states\<close>\<close>

definition fill_states :: "(nat \<times> action_step) list \<Rightarrow> push_step_state list \<Rightarrow> push_step_state list" where
  "fill_states ixs sts = fold (\<lambda>(i, s) acc.
     if \<exists>st \<in> set acc. ss_index st = i then acc else acc @ [fresh_step_state i s]) ixs sts"

lemma ensure_states_fill:
  "ensure_states steps sts = sort_key ss_index (filter (\<lambda>st. ss_index st < length steps)
     (fill_states (enumerate0 steps) sts))"
  by (simp add: ensure_states_def fill_states_def)

lemma fill_states_simps [simp]:
  "fill_states [] sts = sts"
  "fill_states ((i, s) # ixs) sts = fill_states ixs
     (if \<exists>st \<in> set sts. ss_index st = i then sts else sts @ [fresh_step_state i s])"
  by (simp_all add: fill_states_def)

lemma fresh_step_sel [simp]:
  "ss_index (fresh_step_state i s) = i" "ss_status (fresh_step_state i s) = Pending"
  "ss_label (fresh_step_state i s) = step_label s" "\<not> step_started (fresh_step_state i s)"
  "ss_started (fresh_step_state i s) = None" "ss_completed (fresh_step_state i s) = None"
  by (simp_all add: fresh_step_state_def step_started_def)

lemma fill_states_props:
  "distinct (map ss_index sts) \<Longrightarrow> distinct (map ss_index (fill_states ixs sts))"
  "set sts \<subseteq> set (fill_states ixs sts)"
  "st \<in> set (fill_states ixs sts) \<Longrightarrow> st \<in> set sts \<or> (\<exists>(i, s) \<in> set ixs. st = fresh_step_state i s)"
  "ss_index ` set (fill_states ixs sts) = ss_index ` set sts \<union> fst ` set ixs"
proof (induction ixs arbitrary: sts)
  case (Cons a ixs)
  obtain i s where a: "a = (i, s)" by fastforce
  {
    case 1
    then have "distinct (map ss_index (if \<exists>st \<in> set sts. ss_index st = i then sts else sts @ [fresh_step_state i s]))"
      by auto
    then show ?case using Cons(1) a by simp
  next
    case 2
    show ?case using Cons(2) [of "if \<exists>st \<in> set sts. ss_index st = i then sts else sts @ [fresh_step_state i s]"] a
      by (auto split: if_splits)
  next
    case 3
    then show ?case
      using Cons(3) [of "if \<exists>st \<in> set sts. ss_index st = i then sts else sts @ [fresh_step_state i s]"] a
      by (auto split: if_splits)
  next
    case 4
    show ?case
      using Cons(4) [of "if \<exists>st \<in> set sts. ss_index st = i then sts else sts @ [fresh_step_state i s]"] a
      by (auto split: if_splits)
  }
qed auto

lemma fst_enumerate0: "fst ` set (enumerate0 xs) = {..<length xs}"
proof -
  have "map fst (enumerate0 xs) = [0..<length xs]" by (simp add: enumerate0_def)
  then have "set (map fst (enumerate0 xs)) = {..<length xs}" by auto
  then show ?thesis by simp
qed

lemma ensure_indices:
  assumes "distinct (map ss_index sts)"
  shows "map ss_index (ensure_states steps sts) = [0..<length steps]"
proof (rule sorted_distinct_set_unique)
  let ?fs = "fill_states (enumerate0 steps) sts"
  have d: "distinct (map ss_index (filter (\<lambda>st. ss_index st < length steps) ?fs))"
    using fill_states_props(1) [OF assms] by (rule distinct_map_filter)
  then show "distinct (map ss_index (ensure_states steps sts))"
    by (simp add: ensure_states_fill distinct_map)
  show "sorted (map ss_index (ensure_states steps sts))"
    by (simp add: ensure_states_fill)
  have "ss_index ` set ?fs = ss_index ` set sts \<union> {..<length steps}"
    by (simp add: fill_states_props(4) fst_enumerate0)
  then have "ss_index ` {st \<in> set ?fs. ss_index st < length steps} = {..<length steps}"
    by (force simp: image_iff set_eq_iff)
  then show "set (map ss_index (ensure_states steps sts)) = set [0..<length steps]"
    by (simp add: ensure_states_fill atLeast0LessThan)
qed simp_all

lemma wf_ensure: "wf_steps it \<Longrightarrow> wf_steps (ensure_step_states it steps)"
proof -
  assume "wf_steps it"
  then have i: "map ss_index (pi_step_states (ensure_step_states it steps)) = [0..<length steps]"
    by (simp add: ensure_step_states_def ensure_indices wf_distinct)
  then have "length (pi_step_states (ensure_step_states it steps)) = length steps"
    by (metis length_map length_upt minus_nat.diff_0)
  with i show ?thesis by (simp add: wf_steps_def)
qed

lemma step_has_ensure:
  "step_has (ensure_step_states it steps) i st \<Longrightarrow> st \<noteq> Pending \<Longrightarrow> step_has it i st"
  using fill_states_props(3)
  by (fastforce simp: step_has_def ensure_step_states_def ensure_states_fill)

lemma step_has_ensure_old:
  "step_has it i st \<Longrightarrow> i < length steps \<Longrightarrow> step_has (ensure_step_states it steps) i st"
  using fill_states_props(2)
  by (fastforce simp: step_has_def ensure_step_states_def ensure_states_fill)

lemma has_step_ensure: "i < length steps \<Longrightarrow> has_step (ensure_step_states it steps) i"
proof -
  assume i: "i < length steps"
  then have "i \<in> ss_index ` set (fill_states (enumerate0 steps) (pi_step_states it))"
    by (simp add: fill_states_props(4) fst_enumerate0)
  then show ?thesis
    using i by (fastforce simp: has_step_def ensure_step_states_def ensure_states_fill)
qed

lemma ensure_sel [simp]:
  "pi_push_id (ensure_step_states it steps) = pi_push_id it"
  "pi_payload (ensure_step_states it steps) = pi_payload it"
  "pi_local_stage (ensure_step_states it steps) = pi_local_stage it"
  "pi_audit_pending (ensure_step_states it steps) = pi_audit_pending it"
  "pi_planned_outbound (ensure_step_states it steps) = pi_planned_outbound it"
  "pi_planned_message_action (ensure_step_states it steps) = pi_planned_message_action it"
  by (simp_all add: ensure_step_states_def)

end
