(* ===== verification/Workspace.thy ===== *)
theory Workspace
  imports Step_State
begin

text \<open>
  The state the commands work on and every operation of the store that the push code calls:
  the queue directory (src/src/push_queue/io.rs), the message store
  (src/src/store/remote_sync.rs, messages.rs, util.rs), the pending-push projection inside a
  message (src/src/store/push_state.rs), drafts, the audit log, and the remote
  (the trait of src/src/remote.rs).

  Files, the clock, the mail server and the process itself are an environment \<open>env\<close>, indexed by a
  counter of I/O operations that the state carries: whatever the disk, the server or a kill may
  do at any point is some \<open>env\<close>, so a theorem for every \<open>env\<close> covers every such run.
\<close>

section \<open>Messages, drafts and the world\<close>

record remote_location =
  rl_mailbox_name :: string
  rl_mailbox_id :: "string option"
  rl_uid_validity :: "u64 option"
  rl_uid :: "u64 option"
  rl_flags :: "string list"
  rl_observed :: string
  rl_missing :: "string option"

record pending_push =
  pp_push_id :: string
  pp_kind :: string
  pp_queued :: string
  pp_last_error :: "string option"

record push_state =
  ps_pending :: "pending_push list"
  ps_last_completed :: "string option"

text \<open>The members of \<open>MessageFile\<close> that push, pull planning and the archive checks read.\<close>

record message_file =
  mf_rfc822_message_id :: "string option"
  mf_remote :: "remote_location list option"
  mf_direction :: "string option"
  mf_status :: string
  mf_notification_uid :: "string option"
  mf_remote_sync :: "(bool \<times> string) option"
  mf_push :: "push_state option"

record draft_fields =
  df_sync_intent :: "draft_sync_intent option"
  df_send_intent :: "string option"
  df_reply_to_message_id :: "string option"
  df_reply_route :: "reply_route option"

record audit_event =
  ae_event_id :: string
  ae_created :: string
  ae_kind :: string
  ae_targets :: "(string \<times> string) list"

text \<open>A call that changes something outside the workspace.\<close>

datatype remote_call =
    CallAppend string string bool
  | CallMove string u64 u64 string
  | CallAddFlags string u64 u64 "string list"
  | CallSmtp string "string list" string
  | CallCloudflare prepared_outbound
  | CallPublish prepared_outbound

fun is_send_call :: "remote_call \<Rightarrow> bool" where
  "is_send_call (CallSmtp _ _ _) = True"
| "is_send_call (CallCloudflare _) = True"
| "is_send_call (CallPublish _) = True"
| "is_send_call _ = False"

text \<open>
  What happened, newest first: durable writes and deletions of queue items, remote calls with
  the item and step they were made for and whether they may have taken effect, and the release
  of an uncertain step by a person.
\<close>

datatype event =
    Wrote push_item
  | Deleted string
  | Called string nat remote_call bool
  | Released string nat

record world =
  w_tick :: nat
  w_queue :: "(string \<times> push_item) list"
  w_item :: push_item
  w_messages :: "(string \<times> message_file) list"
  w_sent :: "(string \<times> string) list"
  w_cases :: "string list"
  w_drafts :: "((string \<times> string) \<times> draft_fields res) list"
  w_draft_state :: "(string \<times> string) list"
  w_audit :: "audit_event list"
  w_audit_torn :: bool
  w_log :: "event list"

section \<open>The environment\<close>

datatype disk_event = DiskOk | DiskFail string | DiskFailAfter string | CrashBefore | CrashAfter

datatype 'a reply = Reply 'a | ReplyErr app_error | ReplyKilled

record env =
  e_disk :: "nat \<Rightarrow> disk_event"
  e_clock :: "nat \<Rightarrow> string"
  e_event_id :: "nat \<Rightarrow> string"
  e_random :: "nat \<Rightarrow> string"
  e_valid_segment :: "string \<Rightarrow> bool"
  e_compiled :: "string \<Rightarrow> bool"
  e_validate_draft :: "nat \<Rightarrow> string \<Rightarrow> string \<Rightarrow> outbound_action \<Rightarrow> unit res"
  e_prepare :: "nat \<Rightarrow> string \<Rightarrow> string \<Rightarrow> string \<Rightarrow> string \<Rightarrow> prepared_outbound res"
  e_smtp_ready :: "email_delivery \<Rightarrow> unit res"
  e_eml :: "nat \<Rightarrow> string \<Rightarrow> string res"
  e_sent_message :: "nat \<Rightarrow> string \<Rightarrow> string \<Rightarrow> message_file res"
  e_archive_blockers :: "nat \<Rightarrow> string \<Rightarrow> string list res"
  e_references :: "nat \<Rightarrow> string list \<Rightarrow> unit res"
  e_archiving_cases :: "nat \<Rightarrow> unit res"
  e_folder :: "nat \<Rightarrow> string \<Rightarrow> string reply"
  e_append :: "nat \<Rightarrow> string \<Rightarrow> string \<Rightarrow> bool \<Rightarrow> unit reply"
  e_move :: "nat \<Rightarrow> string \<Rightarrow> u64 \<Rightarrow> u64 \<Rightarrow> string \<Rightarrow> string option \<Rightarrow> remote_location option reply"
  e_add_flags :: "nat \<Rightarrow> string \<Rightarrow> u64 \<Rightarrow> u64 \<Rightarrow> string list \<Rightarrow> unit reply"
  e_prepare_send :: "nat \<Rightarrow> string \<Rightarrow> string list \<Rightarrow> unit reply"
  e_send_raw :: "nat \<Rightarrow> string \<Rightarrow> string list \<Rightarrow> string \<Rightarrow> unit reply"
  e_prepare_cloudflare :: "nat \<Rightarrow> prepared_outbound \<Rightarrow> unit reply"
  e_send_cloudflare :: "nat \<Rightarrow> prepared_outbound \<Rightarrow> send_receipt reply"
  e_find :: "nat \<Rightarrow> string \<Rightarrow> string \<Rightarrow> remote_location option reply"
  e_output_confirmed :: "nat \<Rightarrow> prepared_outbound \<Rightarrow> bool reply"
  e_publish :: "nat \<Rightarrow> prepared_outbound \<Rightarrow> unit reply"

section \<open>Primitive effects\<close>

type_synonym 'a cmd = "(world, 'a) io"

definition tick :: "world \<Rightarrow> world" where
  "tick w = w\<lparr>w_tick := Suc (w_tick w)\<rparr>"

definition disk :: "env \<Rightarrow> string \<Rightarrow> (world \<Rightarrow> world) \<Rightarrow> unit cmd" where
  "disk env ctxt f = (\<lambda>w. case e_disk env (w_tick w) of
     DiskOk \<Rightarrow> (Done (), f (tick w))
   | DiskFail m \<Rightarrow> (Fail (app_error_io ctxt m), tick w)
   | DiskFailAfter m \<Rightarrow> (Fail (app_error_io ctxt m), f (tick w))
   | CrashBefore \<Rightarrow> (Killed, tick w)
   | CrashAfter \<Rightarrow> (Killed, f (tick w)))"

definition disk_read :: "env \<Rightarrow> string \<Rightarrow> unit cmd" where
  "disk_read env ctxt = disk env ctxt id"

definition now :: "env \<Rightarrow> string cmd" where
  "now env = gets (\<lambda>w. e_clock env (w_tick w))"

definition ask :: "(nat \<Rightarrow> 'a reply) \<Rightarrow> 'a cmd" where
  "ask rep = (\<lambda>w. case rep (w_tick w) of
     Reply a \<Rightarrow> (Done a, tick w)
   | ReplyErr e \<Rightarrow> (Fail e, tick w)
   | ReplyKilled \<Rightarrow> (Killed, tick w))"

definition ask_res :: "(nat \<Rightarrow> 'a res) \<Rightarrow> 'a cmd" where
  "ask_res rep = ask (\<lambda>n. case rep n of Inl e \<Rightarrow> ReplyErr e | Inr a \<Rightarrow> Reply a)"

definition remote_effect_not_applied :: "app_error \<Rightarrow> bool" where
  "remote_effect_not_applied e = (case details e of None \<Rightarrow> False | Some d \<Rightarrow>
     Option.bind (json_get d ''remote_calls_started'') json_as_bool = Some False
     \<or> Option.bind (json_get d ''remote_effect_rejected'') json_as_bool = Some True)"

definition maybe_applied :: "('a \<Rightarrow> bool) \<Rightarrow> 'a reply \<Rightarrow> bool" where
  "maybe_applied ok r = (case r of Reply a \<Rightarrow> ok a | ReplyErr e \<Rightarrow> \<not> remote_effect_not_applied e
     | ReplyKilled \<Rightarrow> True)"

text \<open>A call with an effect on behalf of step \<open>i\<close> of item \<open>p\<close>; \<open>ok\<close> reads the effect off a reply.\<close>

definition call ::
  "string \<Rightarrow> nat \<Rightarrow> remote_call \<Rightarrow> ('a \<Rightarrow> bool) \<Rightarrow> (nat \<Rightarrow> 'a reply) \<Rightarrow> 'a cmd" where
  "call p i c ok rep = (\<lambda>w. let r = rep (w_tick w);
       w' = (tick w)\<lparr>w_log := Called p i c (maybe_applied ok r) # w_log w\<rparr>
     in case r of Reply a \<Rightarrow> (Done a, w') | ReplyErr e \<Rightarrow> (Fail e, w') | ReplyKilled \<Rightarrow> (Killed, w'))"

definition upd_item :: "(push_item \<Rightarrow> push_item) \<Rightarrow> unit cmd" where
  "upd_item f = modify (\<lambda>w. w\<lparr>w_item := f (w_item w)\<rparr>)"

section \<open>The queue directory\<close>

definition queue_put :: "push_item \<Rightarrow> world \<Rightarrow> world" where
  "queue_put it w = w\<lparr>w_queue := put (pi_push_id it) (durable it) (w_queue w),
     w_log := Wrote (durable it) # w_log w\<rparr>"

definition queue_delete :: "string \<Rightarrow> world \<Rightarrow> world" where
  "queue_delete p w = w\<lparr>w_queue := remove p (w_queue w), w_log := Deleted p # w_log w\<rparr>"

definition read_items :: "env \<Rightarrow> push_item list cmd" where
  "read_items env = then_io (disk_read env ''read push queue'') (gets (\<lambda>w. map snd (w_queue w)))"

definition find_draft_item :: "env \<Rightarrow> string \<Rightarrow> string \<Rightarrow> push_item option cmd" where
  "find_draft_item env case_uid draft_name = bind_io (read_items env) (\<lambda>items.
     ret (List.find (\<lambda>it. case item_draft it of None \<Rightarrow> False
       | Some d \<Rightarrow> dp_case_uid d = case_uid \<and> dp_draft_name d = draft_name) items))"

definition find_message_item :: "env \<Rightarrow> string \<Rightarrow> push_item option cmd" where
  "find_message_item env message_id = bind_io (read_items env) (\<lambda>items.
     ret (List.find (\<lambda>it. case item_message it of None \<Rightarrow> False
       | Some m \<Rightarrow> mp_message_id m = message_id) items))"

definition queue_key :: "push_item \<Rightarrow> nat \<times> string" where
  "queue_key it = (unat (pi_enqueue_seq it), pi_push_id it)"

definition queue_le :: "push_item \<Rightarrow> push_item \<Rightarrow> bool" where
  "queue_le a b \<longleftrightarrow> unat (pi_enqueue_seq a) < unat (pi_enqueue_seq b)
     \<or> (pi_enqueue_seq a = pi_enqueue_seq b \<and> pi_push_id a \<le> pi_push_id b)"

fun insert_item :: "push_item \<Rightarrow> push_item list \<Rightarrow> push_item list" where
  "insert_item x [] = [x]"
| "insert_item x (y # ys) = (if queue_le x y then x # y # ys else y # insert_item x ys)"

definition sort_items :: "push_item list \<Rightarrow> push_item list" where
  "sort_items xs = foldr insert_item xs []"

definition sorted_items :: "env \<Rightarrow> push_item list cmd" where
  "sorted_items env = bind_io (read_items env) (\<lambda>items. ret (sort_items items))"

definition next_enqueue_seq :: "env \<Rightarrow> u64 cmd" where
  "next_enqueue_seq env = bind_io (read_items env) (\<lambda>items.
     ret (fold max (map pi_enqueue_seq items) 0 + 1))"

definition write_item :: "env \<Rightarrow> push_item \<Rightarrow> unit cmd" where
  "write_item env it = then_io (disk_read env ''create directory'')
     (disk env ''write file'' (queue_put it))"

definition delete_item :: "env \<Rightarrow> push_item \<Rightarrow> unit cmd" where
  "delete_item env it = bind_io (gets (\<lambda>w. map_of (w_queue w) (pi_push_id it) \<noteq> None)) (\<lambda>ex.
     when_io ex (disk env ''remove push json'' (queue_delete (pi_push_id it))))"

definition save_item :: "env \<Rightarrow> unit cmd" where
  "save_item env = bind_io (gets w_item) (write_item env)"

definition message_push_id :: "string \<Rightarrow> string" where
  "message_push_id message_id = ''push_message_'' @ message_id"

fun new_draft_push_id_from :: "env \<Rightarrow> nat \<Rightarrow> string cmd" where
  "new_draft_push_id_from env 0 = fail (app_error_new ''push_id_generation_failed''
     ''could not allocate a unique outbound push identity'')"
| "new_draft_push_id_from env (Suc n) =
     bind_io (ask (\<lambda>t. Reply (''push_draft_'' @ e_random env t))) (\<lambda>push_id.
     bind_io (gets (\<lambda>w. map_of (w_queue w) push_id = None)) (\<lambda>free.
     if free then ret push_id else new_draft_push_id_from env n))"

definition new_draft_push_id :: "env \<Rightarrow> string cmd" where
  "new_draft_push_id env = new_draft_push_id_from env 8"

section \<open>Cases and drafts\<close>

definition find_case_path :: "env \<Rightarrow> string \<Rightarrow> unit cmd" where
  "find_case_path env case_uid = then_io (disk_read env ''read cases'')
     (bind_io (gets (\<lambda>w. case_uid \<in> set (w_cases w))) (\<lambda>ok.
      if ok then ret () else fail (app_error_new ''case_not_found'' (''case not found: '' @ case_uid))))"

definition draft_frontmatter :: "env \<Rightarrow> string \<Rightarrow> string \<Rightarrow> draft_fields option cmd" where
  "draft_frontmatter env case_uid draft_name = then_io (find_case_path env case_uid)
     (bind_io (gets (\<lambda>w. map_of (w_drafts w) (case_uid, draft_name))) (\<lambda>d.
      case d of None \<Rightarrow> ret None
      | Some r \<Rightarrow> then_io (disk_read env ''read draft'') (bind_io (of_res r) (\<lambda>fm. ret (Some fm)))))"

section \<open>The message store\<close>

definition validate_id :: "env \<Rightarrow> string \<Rightarrow> string \<Rightarrow> unit res" where
  "validate_id env label v = require (e_valid_segment env v)
     (app_error_new ''invalid_request'' (''invalid '' @ label @ '': must be a single path segment''))"

definition read_message_by_id :: "env \<Rightarrow> string \<Rightarrow> message_file cmd" where
  "read_message_by_id env mid = then_io (disk_read env ''read message'')
     (bind_io (gets (\<lambda>w. map_of (w_messages w) mid)) (\<lambda>m. case m of
        None \<Rightarrow> fail (app_error_new ''message_not_found'' (''message not found: '' @ mid))
      | Some msg \<Rightarrow> ret msg))"

definition put_message :: "env \<Rightarrow> string \<Rightarrow> message_file \<Rightarrow> unit cmd" where
  "put_message env mid m = disk env ''write json'' (\<lambda>w. w\<lparr>w_messages := put mid m (w_messages w)\<rparr>)"

definition same_location :: "remote_location \<Rightarrow> remote_location \<Rightarrow> bool" where
  "same_location a b \<longleftrightarrow> rl_mailbox_name a = rl_mailbox_name b
     \<and> rl_uid_validity a = rl_uid_validity b \<and> rl_uid a = rl_uid b"

definition remote_location_matches_push :: "remote_location \<Rightarrow> push_location \<Rightarrow> bool" where
  "remote_location_matches_push ex pl \<longleftrightarrow> rl_mailbox_name ex = loc_mailbox_name pl
     \<and> rl_uid_validity ex = Some (loc_uid_validity pl) \<and> rl_uid ex = Some (loc_uid pl)"

definition dedup_locations :: "remote_location list \<Rightarrow> remote_location list" where
  "dedup_locations ls = fold (\<lambda>l acc. if list_ex (\<lambda>x. same_location x l) acc then acc else acc @ [l]) ls []"

definition relocate_message :: "env \<Rightarrow> string \<Rightarrow> remote_location list \<Rightarrow> unit cmd" where
  "relocate_message env mid targets = then_io (of_res (validate_id env ''message_id'' mid))
     (let locations = dedup_locations targets in
      if locations = [] then ret ()
      else bind_io (read_message_by_id env mid) (\<lambda>m.
        let m' = m\<lparr>mf_remote := Some locations\<rparr> in
        then_io (put_message env mid m') (put_message env mid m')))"

definition canonical_flags :: "string list \<Rightarrow> string list" where
  "canonical_flags fs = remdups_adj (sort (filter (\<lambda>f. \<not> eq_ignore_ascii_case f (CHR 0x5C # ''Recent'')) fs))"

definition merge_flags :: "string list \<Rightarrow> string list \<Rightarrow> string list \<times> bool" where
  "merge_flags existing flags = (let merged = canonical_flags (existing @ flags) in
     if existing = merged then (existing, False) else (merged, True))"

fun add_flags_locations ::
  "string \<Rightarrow> push_location \<Rightarrow> string list \<Rightarrow> remote_location list \<Rightarrow> remote_location list \<times> bool" where
  "add_flags_locations t loc flags [] =
     ([\<lparr>rl_mailbox_name = loc_mailbox_name loc, rl_mailbox_id = None,
        rl_uid_validity = Some (loc_uid_validity loc), rl_uid = Some (loc_uid loc), rl_flags = flags,
        rl_observed = t, rl_missing = None\<rparr>], True)"
| "add_flags_locations t loc flags (l # ls) =
     (if remote_location_matches_push l loc
      then (let (fs, changed) = merge_flags (rl_flags l) flags in (l\<lparr>rl_flags := fs\<rparr> # ls, changed))
      else (let (ls', changed) = add_flags_locations t loc flags ls in (l # ls', changed)))"

definition add_remote_flags :: "env \<Rightarrow> push_location list \<Rightarrow> string list \<Rightarrow> unit cmd" where
  "add_remote_flags env locations flags =
     (if locations = [] then ret ()
      else let fs = canonical_flags flags in
        for_io locations (\<lambda>loc.
          then_io (of_res (validate_id env ''message_id'' (loc_message_id loc)))
          (bind_io (read_message_by_id env (loc_message_id loc)) (\<lambda>m.
           bind_io (now env) (\<lambda>t.
           let (ls, changed) = add_flags_locations t loc fs
                 (case mf_remote m of None \<Rightarrow> [] | Some ls \<Rightarrow> ls);
               m' = m\<lparr>mf_remote := Some ls\<rparr>
           in when_io changed (then_io (put_message env (loc_message_id loc) m')
                                       (put_message env (loc_message_id loc) m')))))))"

definition active_push_location :: "string \<Rightarrow> remote_location \<Rightarrow> push_location option" where
  "active_push_location mid l = (if rl_missing l \<noteq> None then None else
     case (rl_uid_validity l, rl_uid l) of
       (Some v, Some u) \<Rightarrow> Some \<lparr>loc_message_id = mid, loc_mailbox_name = rl_mailbox_name l,
                                loc_uid_validity = v, loc_uid = u\<rparr>
     | _ \<Rightarrow> None)"

definition message_locations :: "bool \<Rightarrow> string \<Rightarrow> message_file \<Rightarrow> push_location list" where
  "message_locations inbound_only mid m =
     (if inbound_only \<and> mf_direction m \<noteq> Some ''inbound'' then []
      else case mf_remote m of None \<Rightarrow> [] | Some ls \<Rightarrow> List.map_filter (active_push_location mid) ls)"

definition message_remote_locations_inner ::
  "env \<Rightarrow> string list \<Rightarrow> bool \<Rightarrow> push_location list cmd" where
  "message_remote_locations_inner env mids inbound_only =
     bind_io (map_io (\<lambda>mid.
       then_io (of_res (validate_id env ''message_id'' mid))
       (bind_io (read_message_by_id env mid) (\<lambda>m. ret (message_locations inbound_only mid m)))) mids)
     (\<lambda>lss. ret (concat lss))"

definition message_remote_locations_any :: "env \<Rightarrow> string list \<Rightarrow> push_location list cmd" where
  "message_remote_locations_any env mids = message_remote_locations_inner env mids False"

definition write_archive_sync_state :: "env \<Rightarrow> string \<Rightarrow> bool \<Rightarrow> unit cmd" where
  "write_archive_sync_state env mid eligible = bind_io (read_message_by_id env mid) (\<lambda>m.
     bind_io (now env) (\<lambda>t. put_message env mid (m\<lparr>mf_remote_sync := Some (eligible, t)\<rparr>)))"

definition err_message_referenced :: app_error where
  "err_message_referenced = app_error_new ''message_referenced''
     ''message id cannot be archived remotely while blocked by references''"

definition ensure_archive_eligible :: "env \<Rightarrow> string list \<Rightarrow> unit cmd" where
  "ensure_archive_eligible env mids =
     bind_io (map_io (\<lambda>mid.
       bind_io (ask_res (\<lambda>n. e_archive_blockers env n mid)) (\<lambda>blockers.
       then_io (write_archive_sync_state env mid (blockers = [])) (ret blockers))) mids)
     (\<lambda>bs. if concat bs = [] then ret () else fail err_message_referenced)"

definition ensure_message_ids_unreferenced :: "env \<Rightarrow> string list \<Rightarrow> unit cmd" where
  "ensure_message_ids_unreferenced env mids = ask_res (\<lambda>n. e_references env n mids)"

section \<open>The pending-push projection of a message\<close>

definition empty_push_state :: push_state where
  "empty_push_state = \<lparr>ps_pending = [], ps_last_completed = None\<rparr>"

definition push_state_of :: "message_file \<Rightarrow> push_state" where
  "push_state_of m = (case mf_push m of None \<Rightarrow> empty_push_state | Some s \<Rightarrow> s)"

definition store_push_state :: "push_state \<Rightarrow> message_file \<Rightarrow> message_file" where
  "store_push_state s m = m\<lparr>mf_push :=
     (if ps_pending s = [] \<and> ps_last_completed s = None then None else Some s)\<rparr>"

definition update_message_push_state :: "env \<Rightarrow> string \<Rightarrow> (push_state \<Rightarrow> push_state) \<Rightarrow> unit cmd" where
  "update_message_push_state env mid f = then_io (of_res (validate_id env ''message_id'' mid))
     (bind_io (read_message_by_id env mid) (\<lambda>m.
      put_message env mid (store_push_state (f (push_state_of m)) m)))"

definition record_pending :: "pending_push \<Rightarrow> push_state \<Rightarrow> push_state" where
  "record_pending p s = s\<lparr>ps_pending :=
     sort_key pp_push_id (filter (\<lambda>x. pp_push_id x \<noteq> pp_push_id p) (ps_pending s) @ [p])\<rparr>"

definition record_pending_push_item :: "env \<Rightarrow> push_item \<Rightarrow> unit cmd" where
  "record_pending_push_item env it = for_io (message_ids it) (\<lambda>mid. update_message_push_state env mid
     (record_pending \<lparr>pp_push_id = pi_push_id it, pp_kind = display_kind it, pp_queued = pi_created it,
        pp_last_error = pi_last_error it\<rparr>))"

definition clear_pending :: "string list \<Rightarrow> bool \<Rightarrow> string \<Rightarrow> push_state \<Rightarrow> push_state" where
  "clear_pending push_ids completed t s =
     (let count = length (ps_pending s);
          kept = filter (\<lambda>p. pp_push_id p \<notin> set push_ids) (ps_pending s)
      in s\<lparr>ps_pending := kept, ps_last_completed :=
           (if completed \<and> (length kept \<noteq> count \<or> count = 0) then Some t else ps_last_completed s)\<rparr>)"

definition clear_message_pending_pushes :: "env \<Rightarrow> string \<Rightarrow> string list \<Rightarrow> bool \<Rightarrow> unit cmd" where
  "clear_message_pending_pushes env mid push_ids completed =
     (if push_ids = [] then ret ()
      else then_io (of_res (validate_id env ''message_id'' mid))
        (bind_io (read_message_by_id env mid) (\<lambda>m. bind_io (now env) (\<lambda>t.
         put_message env mid (store_push_state (clear_pending push_ids completed t (push_state_of m)) m)))))"

definition clear_pending_push_item :: "env \<Rightarrow> push_item \<Rightarrow> unit cmd" where
  "clear_pending_push_item env it = for_io (message_ids it) (\<lambda>mid.
     clear_message_pending_pushes env mid [pi_push_id it] True)"

definition mark_pending_error :: "string \<Rightarrow> string \<Rightarrow> push_state \<Rightarrow> push_state" where
  "mark_pending_error p err s = s\<lparr>ps_pending := map (\<lambda>x.
     if pp_push_id x = p then x\<lparr>pp_last_error := Some err\<rparr> else x) (ps_pending s)\<rparr>"

definition refresh_views :: "env \<Rightarrow> unit cmd" where
  "refresh_views env = disk_read env ''refresh views''"

definition mark_pending_push_error :: "env \<Rightarrow> push_item \<Rightarrow> string \<Rightarrow> unit cmd" where
  "mark_pending_push_error env it err = then_io
     (for_io (message_ids it) (\<lambda>mid. update_message_push_state env mid
        (mark_pending_error (pi_push_id it) err)))
     (when_io (message_ids it \<noteq> []) (refresh_views env))"

definition refresh_message_push_views :: "env \<Rightarrow> string list \<Rightarrow> unit cmd" where
  "refresh_message_push_views env mids = when_io (mids \<noteq> []) (refresh_views env)"

definition refresh_outbound_push_views :: "env \<Rightarrow> push_item \<Rightarrow> unit cmd" where
  "refresh_outbound_push_views env it = (case pi_planned_outbound it of None \<Rightarrow> ret ()
     | Some ob \<Rightarrow> then_io (find_case_path env (ob_case_uid ob)) (refresh_views env))"

section \<open>The audit log\<close>

definition append_audit_event_record :: "env \<Rightarrow> audit_event \<Rightarrow> unit cmd" where
  "append_audit_event_record env ev = then_io (disk_read env ''create directory'')
     (disk env ''append audit log'' (\<lambda>w. w\<lparr>w_audit := w_audit w @ [ev]\<rparr>))"

definition append_audit_event :: "env \<Rightarrow> string \<Rightarrow> (string \<times> string) list \<Rightarrow> unit cmd" where
  "append_audit_event env kind targets =
     bind_io (gets (\<lambda>w. e_event_id env (w_tick w))) (\<lambda>eid. bind_io (now env) (\<lambda>t.
     append_audit_event_record env
       \<lparr>ae_event_id = eid, ae_created = t, ae_kind = kind, ae_targets = targets\<rparr>))"

definition err_audit_log_recovery_required :: app_error where
  "err_audit_log_recovery_required = app_error_new ''audit_log_recovery_required''
     ''audit log has a truncated tail; refusing to append after damaged bytes''"

definition append_audit_event_with_identity ::
  "env \<Rightarrow> string \<Rightarrow> string \<Rightarrow> string \<Rightarrow> (string \<times> string) list \<Rightarrow> bool cmd" where
  "append_audit_event_with_identity env event_id created kind targets =
     then_io (disk_read env ''read audit log'') (bind_io (gets w_audit_torn) (\<lambda>torn.
     if torn then fail err_audit_log_recovery_required
     else bind_io (gets (\<lambda>w. list_ex (\<lambda>ev. ae_event_id ev = event_id) (w_audit w))) (\<lambda>known.
       if known then ret False
       else then_io (append_audit_event_record env
              \<lparr>ae_event_id = event_id, ae_created = created, ae_kind = kind, ae_targets = targets\<rparr>)
            (ret True))))"

end
