(* ===== verification/Push_Plan.thy ===== *)
theory Push_Plan
  imports Workspace
begin

text \<open>
  Planning (src/src/push_queue/plan.rs, preview.rs, the \<open>plan_item\<close> part of mod.rs, the step
  selection of execute.rs, and \<open>plan_message_push\<close> of src/src/store/remote_sync.rs): each queued
  item is resolved against the current drafts, messages and configuration, the items are put in
  dependency order, and the result is bound to a plan id.
\<close>

named_theorems plan_defs "definitions of the planning operations"

section \<open>Errors\<close>

definition flagged :: "string \<Rightarrow> string \<Rightarrow> string \<Rightarrow> bool \<Rightarrow> app_error" where
  "flagged code msg key b = with_details (app_error_new code msg) (JObj [(key, JBool b)])"

definition err_file_send_email :: app_error where
  "err_file_send_email = flagged ''channel_operation_unsupported''
     ''file_send applies only to drafts with a file reply route; this email draft cannot use it''
     ''remote_calls_started'' False"

definition err_file_no_drafts :: app_error where
  "err_file_no_drafts = app_error_new ''channel_operation_unsupported''
     ''file channels do not upload remote drafts''"

definition err_not_outbound :: app_error where
  "err_not_outbound = err_push_item_invalid ''push item is not outbound''"

definition err_draft_not_found :: "string \<Rightarrow> app_error" where
  "err_draft_not_found d = app_error_new ''draft_not_found'' (''queued draft file is missing: '' @ d)"

definition err_feature_disabled :: "string \<Rightarrow> string \<Rightarrow> app_error" where
  "err_feature_disabled label feature = flagged ''feature_disabled''
     (label @ '' requires the '' @ feature @ '' feature, which this afmail build does not include'')
     ''remote_calls_started'' False"

definition err_plan_unavailable :: "string \<Rightarrow> app_error" where
  "err_plan_unavailable p = flagged ''push_remote_outcome_unknown''
     (''message push '' @ p @ '' has started but its original action plan is unavailable'')
     ''remote_calls_started'' True"

definition err_no_sync_intent :: "string \<Rightarrow> app_error" where
  "err_no_sync_intent p = app_error_new ''push_remote_outcome_unknown''
     (''draft push '' @ p @ '' has started but the draft has no sync_intent'')"

definition err_snapshot_mismatch :: "string \<Rightarrow> bool \<Rightarrow> app_error" where
  "err_snapshot_mismatch p started = flagged ''push_item_invalid''
     (''message action snapshot does not match queued intent for '' @ p) ''remote_calls_started'' started"

definition err_audit_state :: "string \<Rightarrow> app_error" where
  "err_audit_state msg = app_error_new ''push_audit_state_invalid'' msg"

definition err_plan_changed_after_start :: "string \<Rightarrow> app_error" where
  "err_plan_changed_after_start p = app_error_new ''push_plan_changed_after_start''
     (''push item '' @ p @ '' has recorded remote progress but now resolves to a different plan'')"

definition err_push_plan_changed :: app_error where
  "err_push_plan_changed = flagged ''push_plan_changed''
     ''the confirmed push plan does not match the current resolved queue'' ''remote_calls_started'' False"

definition err_state_mismatch :: "message_push_action \<Rightarrow> string \<Rightarrow> string \<Rightarrow> app_error" where
  "err_state_mismatch a st mid = app_error_new ''push_state_mismatch''
     (''queued action '' @ action_kind a @ '' does not match canonical message status '' @ st @ '' for '' @ mid)"

section \<open>The steps of an outbound item\<close>

definition configured_outbound_steps :: "mail_config \<Rightarrow> outbound_action \<Rightarrow> action_step list" where
  "configured_outbound_steps cfg a = (case a of
     SaveDraft \<Rightarrow> da_save (ac_draft (mc_actions cfg)) | Send \<Rightarrow> da_send (ac_draft (mc_actions cfg)))"

definition should_skip_reply_to_steps :: "env \<Rightarrow> push_item \<Rightarrow> bool cmd" where
  "should_skip_reply_to_steps env it = (case pi_planned_outbound it of
     None \<Rightarrow> ret True
   | Some ob \<Rightarrow> bind_io (draft_frontmatter env (ob_case_uid ob) (ob_draft_name ob)) (\<lambda>fm.
       case fm of None \<Rightarrow> fail (err_draft_not_found (ob_draft_name ob))
       | Some f \<Rightarrow> ret (df_send_intent f = Some ''new'' \<or> df_reply_to_message_id f = None)))"

definition filter_reply_to_steps :: "env \<Rightarrow> push_item \<Rightarrow> action_step list \<Rightarrow> action_step list cmd" where
  "filter_reply_to_steps env it steps =
     bind_io (case pi_planned_outbound it of None \<Rightarrow> ret None
       | Some ob \<Rightarrow> bind_io (draft_frontmatter env (ob_case_uid ob) (ob_draft_name ob)) (\<lambda>fm.
           ret (case fm of None \<Rightarrow> None
             | Some f \<Rightarrow> if df_reply_route f \<noteq> None then Some (ob_action ob) else None))) (\<lambda>file_route.
     case file_route of
       Some a \<Rightarrow> if a \<noteq> Send then fail err_file_no_drafts else ret [step_file_send]
     | None \<Rightarrow>
         if list_ex (\<lambda>s. as_file_send s \<noteq> None) steps then fail err_file_send_email
         else if \<not> list_ex (\<lambda>s. as_on s = Some ReplyToMessage) steps then ret steps
         else bind_io (should_skip_reply_to_steps env it) (\<lambda>skip.
           ret (if skip then filter (\<lambda>s. as_on s \<noteq> Some ReplyToMessage) steps else steps)))"

definition missing_send_feature :: "action_step list \<Rightarrow> (string \<Rightarrow> bool) \<Rightarrow> (string \<times> string) option" where
  "missing_send_feature steps compiled = find_map (\<lambda>s.
     Option.bind
       (if as_cloudflare_send s \<noteq> None then Some (''cloudflare_send'', ''cloudflare'')
        else if as_smtp_send s \<noteq> None then Some (''smtp_send'', ''smtp'')
        else if as_file_send s \<noteq> None then Some (''file_send'', ''files'')
        else None)
       (\<lambda>req. if \<not> compiled (snd req) then Some req else None)) steps"

definition require_compiled_send_features :: "env \<Rightarrow> action_step list \<Rightarrow> unit res" where
  "require_compiled_send_features env steps = (case missing_send_feature steps (e_compiled env) of
     None \<Rightarrow> Inr () | Some (label, feature) \<Rightarrow> Inl (err_feature_disabled label feature))"

section \<open>The prepared message\<close>

definition message_id_char :: "char \<Rightarrow> char" where
  "message_id_char c = (if is_ascii_lower c \<or> is_ascii_upper c \<or> is_ascii_digit c \<or> c = CHR ''_''
     \<or> c = CHR ''-'' then c else CHR ''_'')"

definition message_id_for_push :: "string \<Rightarrow> string" where
  "message_id_for_push push_id = ''message_sent_'' @ map message_id_char
     (case strip_prefix ''push_'' push_id of Some r \<Rightarrow> r | None \<Rightarrow> push_id)"

definition prepare_current_outbound :: "env \<Rightarrow> push_item \<Rightarrow> prepared_outbound cmd" where
  "prepare_current_outbound env it = (case pi_planned_outbound_message it of
     Some p \<Rightarrow> ret p
   | None \<Rightarrow> (case pi_planned_outbound it of
       None \<Rightarrow> fail err_not_outbound
     | Some ob \<Rightarrow>
         then_io (find_case_path env (ob_case_uid ob))
         (bind_io (gets (\<lambda>w. map_of (w_drafts w) (ob_case_uid ob, ob_draft_name ob) \<noteq> None)) (\<lambda>ex.
          if \<not> ex then fail (err_draft_not_found (ob_draft_name ob))
          else then_io (ask_res (\<lambda>n. e_validate_draft env n (ob_case_uid ob) (ob_draft_name ob) (ob_action ob)))
            (ask_res (\<lambda>n. e_prepare env n (ob_case_uid ob) (ob_draft_name ob)
               (message_id_for_push (pi_push_id it)) (pi_created it)))))))"

section \<open>Message actions\<close>

datatype message_status = StTriage | StCase | StNotification | StArchived | StSpam | StTrashed
  | StDeletedRemote | StPushQueued

definition message_status_parse :: "string \<Rightarrow> message_status res" where
  "message_status_parse v = (let t = trim v in
     if t = [] \<or> t = ''triage'' then Inr StTriage
     else if t = ''case'' then Inr StCase
     else if t = ''notification'' then Inr StNotification
     else if t = ''archived'' then Inr StArchived
     else if t = ''spam'' then Inr StSpam
     else if t = ''trashed'' then Inr StTrashed
     else if t = ''deleted_remote'' then Inr StDeletedRemote
     else if t = ''push_queued'' then Inr StPushQueued
     else Inl (app_error_new ''message_status_invalid''
       (''unsupported message workspace status: '' @ t)))"

definition message_status_as_str :: "message_status \<Rightarrow> string" where
  "message_status_as_str s = (case s of StTriage \<Rightarrow> ''triage'' | StCase \<Rightarrow> ''case''
     | StNotification \<Rightarrow> ''notification'' | StArchived \<Rightarrow> ''archived'' | StSpam \<Rightarrow> ''spam''
     | StTrashed \<Rightarrow> ''trashed'' | StDeletedRemote \<Rightarrow> ''deleted_remote'' | StPushQueued \<Rightarrow> ''push_queued'')"

definition action_status_ok :: "message_push_action \<Rightarrow> message_status \<Rightarrow> bool" where
  "action_status_ok a s = (case a of
     MarkSpam \<Rightarrow> s = StSpam | MarkTrash \<Rightarrow> s = StTrashed
   | Unspam \<Rightarrow> s = StTriage | Untrash \<Rightarrow> s = StTriage | CaseAdd \<Rightarrow> s = StCase
   | Notification \<Rightarrow> s = StNotification \<or> s = StArchived)"

definition matching_mailbox_ids_offline :: "mail_config \<Rightarrow> string \<Rightarrow> string list" where
  "matching_mailbox_ids_offline cfg name =
     map fst (filter (\<lambda>(_, m). matches_mailbox_offline m name) (mc_mailboxes cfg))"

text \<open>A location with the mailbox id that pull recorded for it.\<close>

type_synonym mailbox_id_location = "string option \<times> push_location"

definition resolve_location_mailbox_id :: "mail_config \<Rightarrow> mailbox_id_location \<Rightarrow> string option res" where
  "resolve_location_mailbox_id cfg l =
     (let by_name = (case matching_mailbox_ids_offline cfg (loc_mailbox_name (snd l)) of
          [ident] \<Rightarrow> Inr (Some ident) | [] \<Rightarrow> Inr None
        | _ \<Rightarrow> Inl (app_error_new ''imap_mailbox_ambiguous''
            (''remote mailbox '' @ loc_mailbox_name (snd l) @ '' matches multiple mailbox ids'')))
      in case fst l of
          Some ident \<Rightarrow> if map_of (mc_mailboxes cfg) ident \<noteq> None then Inr (Some ident) else by_name
        | None \<Rightarrow> by_name)"

definition locations_with_mailbox_ids :: "string \<Rightarrow> message_file \<Rightarrow> mailbox_id_location list" where
  "locations_with_mailbox_ids mid m = (case mf_remote m of None \<Rightarrow> []
     | Some ls \<Rightarrow> List.map_filter (\<lambda>l. map_option (\<lambda>p. (rl_mailbox_id l, p)) (active_push_location mid l)) ls)"

text \<open>Keep the locations whose mailbox kind passes; \<open>unknown\<close> says what happens to an unresolved one.\<close>

fun select_locations ::
  "mail_config \<Rightarrow> bool \<Rightarrow> (string \<Rightarrow> bool) \<Rightarrow> mailbox_id_location list \<Rightarrow> push_location list res" where
  "select_locations cfg unknown keep [] = Inr []"
| "select_locations cfg unknown keep (l # ls) =
     bind_res (resolve_location_mailbox_id cfg l) (\<lambda>src.
     bind_res (select_locations cfg unknown keep ls) (\<lambda>rest.
     Inr (if (case src of None \<Rightarrow> unknown | Some ident \<Rightarrow> keep ident) then snd l # rest else rest)))"

definition locations_for_kinds ::
  "mail_config \<Rightarrow> special_use_kind list \<Rightarrow> mailbox_id_location list \<Rightarrow> push_location list res" where
  "locations_for_kinds cfg kinds ls =
     select_locations cfg False (\<lambda>ident. list_ex (mailbox_is_kind cfg ident) kinds) ls"

definition locations_except_kinds ::
  "mail_config \<Rightarrow> special_use_kind list \<Rightarrow> mailbox_id_location list \<Rightarrow> push_location list res" where
  "locations_except_kinds cfg kinds ls =
     select_locations cfg True (\<lambda>ident. \<not> list_ex (mailbox_is_kind cfg ident) kinds) ls"

definition message_action_plan ::
  "message_push_action \<Rightarrow> string list \<Rightarrow> push_location list \<Rightarrow> action_step list \<Rightarrow> message_action_push option"
where
  "message_action_plan a mids ls steps = (if ls = [] \<or> steps = [] then None
     else Some \<lparr>ma_action = a, ma_message_ids = mids, ma_locations = ls, ma_steps = steps,
                ma_reply_to_message_id = None\<rparr>)"

definition err_archive_conflict :: "string \<Rightarrow> app_error" where
  "err_archive_conflict mid = flagged ''archive_action_conflict''
     (''message '' @ mid @ '' has remote locations whose archive actions differ'')
     ''remote_calls_started'' False"

fun resolve_archive ::
  "mail_config \<Rightarrow> string \<Rightarrow> action_step list option \<Rightarrow> push_location list \<Rightarrow> mailbox_id_location list
     \<Rightarrow> (push_location list \<times> action_step list) res" where
  "resolve_archive cfg mid sel acc [] = Inr (acc, case sel of None \<Rightarrow> [] | Some s \<Rightarrow> s)"
| "resolve_archive cfg mid sel acc (l # ls) =
     bind_res (resolve_location_mailbox_id cfg l) (\<lambda>src.
     case Option.bind src (map_of (ma_notification (ac_message (mc_actions cfg)))) of
       None \<Rightarrow> resolve_archive cfg mid sel acc ls
     | Some steps \<Rightarrow>
         if steps = [] then resolve_archive cfg mid sel acc ls
         else (case sel of
             Some chosen \<Rightarrow> if chosen \<noteq> steps then Inl (err_archive_conflict mid)
               else resolve_archive cfg mid sel (acc @ [snd l]) ls
           | None \<Rightarrow> resolve_archive cfg mid (Some steps) (acc @ [snd l]) ls))"

definition resolve_archive_action ::
  "mail_config \<Rightarrow> mailbox_id_location list \<Rightarrow> string \<Rightarrow> (push_location list \<times> action_step list) res" where
  "resolve_archive_action cfg ls mid = resolve_archive cfg mid None [] ls"

definition plan_locations ::
  "env \<Rightarrow> string \<Rightarrow> mailbox_id_location list cmd" where
  "plan_locations env mid = then_io (of_res (validate_id env ''message_id'' mid))
     (bind_io (read_message_by_id env mid) (\<lambda>m. ret (locations_with_mailbox_ids mid m)))"

definition plan_archive_message_push ::
  "env \<Rightarrow> mail_config \<Rightarrow> string \<Rightarrow> message_action_push option cmd" where
  "plan_archive_message_push env cfg mid =
     bind_io (ask_res (\<lambda>n. e_archive_blockers env n mid)) (\<lambda>blockers.
     if blockers \<noteq> [] then ret None
     else bind_io (plan_locations env mid) (\<lambda>ls.
       bind_io (of_res (resolve_archive_action cfg ls mid)) (\<lambda>(sel, steps).
       ret (message_action_plan Notification [mid] sel steps))))"

definition plan_message_push ::
  "env \<Rightarrow> mail_config \<Rightarrow> string \<Rightarrow> message_push_action \<Rightarrow> message_action_push option cmd" where
  "plan_message_push env cfg mid a =
     then_io (of_res (validate_id env ''message_id'' mid))
     (bind_io (read_message_by_id env mid) (\<lambda>m.
      bind_io (of_res (message_status_parse (mf_status m))) (\<lambda>st.
      if \<not> action_status_ok a st then fail (err_state_mismatch a (message_status_as_str st) mid)
      else let acts = ac_message (mc_actions cfg);
               with_locs = (\<lambda>sel steps. bind_io (plan_locations env mid) (\<lambda>ls.
                 bind_io (of_res (sel ls)) (\<lambda>chosen. ret (message_action_plan a [mid] chosen steps))))
           in case a of
                MarkSpam \<Rightarrow> with_locs (locations_except_kinds cfg [Junk]) (ma_spam acts)
              | MarkTrash \<Rightarrow> with_locs (locations_except_kinds cfg [Trash]) (ma_trash acts)
              | Unspam \<Rightarrow> with_locs (locations_for_kinds cfg [Junk]) (ma_unspam acts)
              | Untrash \<Rightarrow> with_locs (locations_for_kinds cfg [Trash]) (ma_untrash acts)
              | CaseAdd \<Rightarrow> bind_io (message_remote_locations_any env [mid]) (\<lambda>ls.
                  ret (message_action_plan CaseAdd [mid] ls (ac_case_add (mc_actions cfg))))
              | Notification \<Rightarrow> plan_archive_message_push env cfg mid)))"

section \<open>Resolving one item\<close>

definition validate_message_action_snapshot ::
  "push_item \<Rightarrow> message_push \<Rightarrow> message_action_push \<Rightarrow> unit res" where
  "validate_message_action_snapshot it m snap = require
     (ma_action snap = mp_action m \<and> ma_message_ids snap = [mp_message_id m]
      \<and> list_all (\<lambda>l. loc_message_id l = mp_message_id m) (ma_locations snap)
      \<and> ma_locations snap \<noteq> [] \<and> ma_steps snap \<noteq> [])
     (err_snapshot_mismatch (pi_push_id it) (has_started_effects it))"

definition hydrate_audit_pending_plan :: "push_item \<Rightarrow> push_item res" where
  "hydrate_audit_pending_plan it = (case pi_audit_pending it of
     None \<Rightarrow> Inl (err_audit_state (''push '' @ pi_push_id it @ '' has no audit_pending payload''))
   | Some p \<Rightarrow> (case (ap_case_uid p, ap_draft_name p, ap_action p) of
       (Some case_uid, Some draft_name, Some action) \<Rightarrow>
         bind_res (if action = ''save_draft'' then Inr SaveDraft else if action = ''send'' then Inr Send
           else Inl (err_audit_state (''unsupported audit_pending outbound action: '' @ action))) (\<lambda>a.
         Inr (it\<lparr>pi_planned_outbound := Some \<lparr>ob_action = a, ob_case_uid = case_uid,
            ob_draft_name = draft_name,
            ob_draft_uid_validity = Option.bind (item_draft it) dp_draft_uid_validity,
            ob_draft_uid = Option.bind (item_draft it) dp_draft_uid,
            ob_steps = [], ob_reply_to_message_id = None\<rparr>\<rparr>))
     | _ \<Rightarrow> bind_res (ok_or (err_audit_state
              (''unsupported audit_pending message action: '' @ ap_push_kind p))
              (action_from_kind (ap_push_kind p))) (\<lambda>a.
         Inr (it\<lparr>pi_planned_message_action := Some \<lparr>ma_action = a, ma_message_ids = ap_message_ids p,
            ma_locations = [], ma_steps = [], ma_reply_to_message_id = None\<rparr>\<rparr>))))"

definition actions_for :: "env \<Rightarrow> mail_config \<Rightarrow> push_item \<Rightarrow> string list cmd" where
  "actions_for env cfg it = (case pi_planned_message_action it of
     Some a \<Rightarrow> ret (map step_label (ma_steps a))
   | None \<Rightarrow> (case pi_planned_outbound it of
       None \<Rightarrow> ret []
     | Some ob \<Rightarrow>
         if ob_steps ob \<noteq> [] then ret (map step_label (ob_steps ob))
         else if pi_local_stage it \<noteq> None then ret (map ss_label (pi_step_states it))
         else bind_io (filter_reply_to_steps env it (configured_outbound_steps cfg (ob_action ob)))
                (\<lambda>steps. ret (map step_label steps))))"

definition labels_compatible :: "string list \<Rightarrow> string list \<Rightarrow> bool" where
  "labels_compatible current planned \<longleftrightarrow>
     current = planned \<or> (length current < length planned \<and> prefix current planned)"

definition reset_progress_if_plan_changed :: "env \<Rightarrow> mail_config \<Rightarrow> push_item \<Rightarrow> push_item cmd" where
  "reset_progress_if_plan_changed env cfg it =
     (if pi_step_states it = [] then ret it
      else bind_io (actions_for env cfg it) (\<lambda>planned.
        if labels_compatible (map ss_label (pi_step_states it)) planned then ret it
        else if has_started_effects it then fail (err_plan_changed_after_start (pi_push_id it))
        else ret (it\<lparr>pi_step_states := [], pi_local_stage := None, pi_last_error := None\<rparr>)))"

definition planned_rfc822 :: "env \<Rightarrow> push_item \<Rightarrow> push_item cmd" where
  "planned_rfc822 env it =
     (case pi_planned_message_action it of
        Some a \<Rightarrow>
          if list_ex (\<lambda>s. as_append_to_mailbox_id s \<noteq> None) (ma_steps a) then
            bind_io (map_io (\<lambda>mid. bind_io (ask_res (\<lambda>n. e_eml env n mid)) (\<lambda>raw. ret (mid, raw)))
              (message_ids it)) (\<lambda>raws.
            ret (it\<lparr>pi_planned_message_rfc822 := fold (\<lambda>(k, v). put k v) raws (pi_planned_message_rfc822 it)\<rparr>))
          else ret it
      | None \<Rightarrow> ret it)"

definition plan_message_item :: "env \<Rightarrow> mail_config \<Rightarrow> push_item \<Rightarrow> message_push \<Rightarrow> (push_item \<times> bool) cmd" where
  "plan_message_item env cfg it m =
     bind_io (if has_started_effects it
        then (case mp_snapshot m of
            Some snap \<Rightarrow> then_io (of_res (validate_message_action_snapshot it m snap)) (ret (Some snap))
          | None \<Rightarrow> plan_message_push env cfg (mp_message_id m) (mp_action m))
        else plan_message_push env cfg (mp_message_id m) (mp_action m)) (\<lambda>planned.
     let it1 = it\<lparr>pi_planned_message_action := planned\<rparr> in
     if planned \<noteq> None then
       bind_io (reset_progress_if_plan_changed env cfg it1) (\<lambda>it2.
       bind_io (planned_rfc822 env it2) (\<lambda>it3. ret (it3, True)))
     else if has_started_effects it1 then fail (err_plan_unavailable (pi_push_id it1))
     else ret (it1, False))"

definition outbound_of :: "outbound_action \<Rightarrow> draft_push \<Rightarrow> string option \<Rightarrow> outbound_push" where
  "outbound_of a d reply = \<lparr>ob_action = a, ob_case_uid = dp_case_uid d, ob_draft_name = dp_draft_name d,
     ob_draft_uid_validity = dp_draft_uid_validity d, ob_draft_uid = dp_draft_uid d,
     ob_steps = [], ob_reply_to_message_id = reply\<rparr>"

definition plan_draft_item :: "env \<Rightarrow> mail_config \<Rightarrow> push_item \<Rightarrow> draft_push \<Rightarrow> (push_item \<times> bool) cmd" where
  "plan_draft_item env cfg it d =
     bind_io (draft_frontmatter env (dp_case_uid d) (dp_draft_name d)) (\<lambda>fm. case fm of
       None \<Rightarrow>
         if local_stage_at_least it DraftRemoved
         then ret (it\<lparr>pi_planned_outbound := Some (outbound_of Send d None)\<rparr>, True)
         else if \<not> has_started_effects it then ret (it, False)
         else fail (err_no_sync_intent (pi_push_id it))
     | Some f \<Rightarrow> (case df_sync_intent f of
         None \<Rightarrow> if \<not> has_started_effects it then ret (it, False)
           else fail (err_no_sync_intent (pi_push_id it))
       | Some intent \<Rightarrow>
           let a = action_of_intent intent;
               ob = outbound_of a d (df_reply_to_message_id f);
               it1 = it\<lparr>pi_planned_outbound := Some ob\<rparr> in
           bind_io (filter_reply_to_steps env it1 (configured_outbound_steps cfg a)) (\<lambda>steps.
           let it2 = it1\<lparr>pi_planned_outbound := Some (ob\<lparr>ob_steps := steps\<rparr>)\<rparr> in
           bind_io (reset_progress_if_plan_changed env cfg it2) (\<lambda>it3.
           bind_io (prepare_current_outbound env it3) (\<lambda>prepared.
           ret (it3\<lparr>pi_planned_outbound_message := Some prepared\<rparr>, True))))))"

definition plan_item :: "env \<Rightarrow> mail_config \<Rightarrow> push_item \<Rightarrow> (push_item \<times> bool) cmd" where
  "plan_item env cfg it =
     (if pi_audit_pending it \<noteq> None
      then bind_io (of_res (hydrate_audit_pending_plan it)) (\<lambda>it1. ret (it1, True))
      else case pi_payload it of
          PMessage m \<Rightarrow> plan_message_item env cfg it m
        | PDraft d \<Rightarrow> plan_draft_item env cfg it d)"

section \<open>Dependency order\<close>

definition item_must_run_before :: "push_item \<Rightarrow> push_item \<Rightarrow> bool" where
  "item_must_run_before it candidate = (case pi_planned_outbound it of
     None \<Rightarrow> False
   | Some ob \<Rightarrow>
       if ob_action ob \<noteq> Send then False
       else (case ob_reply_to_message_id ob of
         None \<Rightarrow> False
       | Some reply \<Rightarrow> (case pi_planned_message_action candidate of
           None \<Rightarrow> False
         | Some ma \<Rightarrow>
             if has_started_effects candidate
                \<or> ma_action ma \<notin> {Notification, MarkSpam, MarkTrash} then False
             else reply \<in> set (ma_message_ids ma))))"

fun position :: "('a \<Rightarrow> bool) \<Rightarrow> 'a list \<Rightarrow> nat option" where
  "position P [] = None"
| "position P (x # xs) = (if P x then Some 0 else map_option Suc (position P xs))"

definition next_item :: "push_item list \<Rightarrow> nat" where
  "next_item remaining = (case position (\<lambda>c. \<not> list_ex (\<lambda>it. item_must_run_before it c) remaining) remaining of
     Some n \<Rightarrow> n | None \<Rightarrow> 0)"

lemma position_Some: "position P xs = Some n \<Longrightarrow> n < length xs \<and> P (xs ! n)"
  by (induction xs arbitrary: n) (auto split: if_splits)

lemma position_None: "position P xs = None \<longleftrightarrow> (\<forall>x \<in> set xs. \<not> P x)"
  by (induction xs) auto

lemma next_item_bound: "xs \<noteq> [] \<Longrightarrow> next_item xs < length xs"
  by (auto simp: next_item_def split: option.splits dest: position_Some)

function order_items_for_dependencies :: "push_item list \<Rightarrow> push_item list" where
  "order_items_for_dependencies remaining = (if remaining = [] then []
     else let n = next_item remaining
          in remaining ! n # order_items_for_dependencies (take n remaining @ drop (Suc n) remaining))"
  by pat_completeness auto
termination
  by (relation "measure length") (use next_item_bound in \<open>fastforce+\<close>)

declare order_items_for_dependencies.simps [simp del]

section \<open>The bound plan\<close>

record push_plan_outbound =
  po_review_path :: "string option"
  po_content_hash :: "string option"
  po_envelope :: "string list"
  po_attachment_hashes :: "string list"

record plan_item_view =
  pv_push_id :: string
  pv_queue_item_hash :: string
  pv_kind :: string
  pv_display_kind :: string
  pv_effect_scope :: string
  pv_action :: "string option"
  pv_case_uid :: "string option"
  pv_draft_name :: "string option"
  pv_message_id :: "string option"
  pv_actions :: "string list"
  pv_steps :: "action_step list"
  pv_step_states :: "push_step_state list"
  pv_attempt_count :: u64
  pv_local_stage :: "push_local_stage option"
  pv_audit_pending :: bool
  pv_last_error :: "string option"
  pv_message_ids :: "string list"
  pv_locations :: "push_location list"
  pv_outbound :: "push_plan_outbound option"
  pv_content_hashes :: "(string \<times> string \<times> nat) list"

record push_plan_digest =
  pd_config_effect_id :: string
  pd_queue_records :: "(string \<times> string) list"
  pd_items :: "plan_item_view list"
  pd_skipped :: "(string \<times> string) list"

text \<open>
  The hashes are parameters: of the bytes of a queue item, of a raw message, of the effective
  configuration, and of the canonical digest (src/src/plan_id.rs); so is the view of the draft's
  own content, which reads attachments and identities.
\<close>

record plan_hashes =
  ph_item :: "push_item \<Rightarrow> string"
  ph_content :: "string \<Rightarrow> string"
  ph_config :: "mail_config \<Rightarrow> string"
  ph_outbound :: "nat \<Rightarrow> push_item \<Rightarrow> push_plan_outbound res"
  ph_plan :: "push_plan_digest \<Rightarrow> string"

record resolved_push_plan =
  rp_plan_id :: string
  rp_items :: "push_item list"
  rp_skipped_items :: "push_item list"
  rp_digest :: push_plan_digest

definition view_steps :: "push_item \<Rightarrow> action_step list" where
  "view_steps it = (case pi_planned_message_action it of
     Some a \<Rightarrow> ma_steps a
   | None \<Rightarrow> (case pi_planned_outbound it of Some ob \<Rightarrow> ob_steps ob | None \<Rightarrow> []))"

definition push_plan_item_view ::
  "env \<Rightarrow> plan_hashes \<Rightarrow> mail_config \<Rightarrow> push_item \<Rightarrow> string \<Rightarrow> plan_item_view cmd" where
  "push_plan_item_view env ph cfg it queue_item_hash =
     bind_io (actions_for env cfg it) (\<lambda>actions.
     bind_io (case pi_planned_outbound it of
         None \<Rightarrow> ret None
       | Some ob \<Rightarrow> bind_io (ask_res (\<lambda>n. ph_outbound ph n it)) (\<lambda>v. ret (Some v))) (\<lambda>outbound.
     ret \<lparr>pv_push_id = pi_push_id it, pv_queue_item_hash = queue_item_hash,
       pv_kind = push_kind_as_str (item_push_kind it), pv_display_kind = display_kind it,
       pv_effect_scope = (if pi_local_stage it \<noteq> None \<or> length (view_steps it) \<le> succeeded_step_count it
         then ''local_recovery'' else ''remote''),
       pv_action = (case pi_planned_outbound it of
           Some ob \<Rightarrow> Some (outbound_action_as_str (ob_action ob))
         | None \<Rightarrow> map_option (\<lambda>a. action_mode_label (ma_action a)) (pi_planned_message_action it)),
       pv_case_uid = map_option ob_case_uid (pi_planned_outbound it),
       pv_draft_name = map_option ob_draft_name (pi_planned_outbound it),
       pv_message_id = map_option mp_message_id (item_message it),
       pv_actions = actions, pv_steps = view_steps it, pv_step_states = pi_step_states it,
       pv_attempt_count = pi_attempt_count it, pv_local_stage = pi_local_stage it,
       pv_audit_pending = (pi_audit_pending it \<noteq> None), pv_last_error = pi_last_error it,
       pv_message_ids = message_ids it, pv_locations = item_locations it, pv_outbound = outbound,
       pv_content_hashes = map (\<lambda>(mid, raw). (mid, ph_content ph raw, length raw))
         (pi_planned_message_rfc822 it)\<rparr>))"

definition queue_records :: "env \<Rightarrow> plan_hashes \<Rightarrow> (string \<times> string) list cmd" where
  "queue_records env ph = bind_io (sorted_items env) (\<lambda>items.
     then_io (disk_read env ''read push plan queue item'')
     (ret (sort_key fst (map (\<lambda>it. (pi_push_id it, ph_item ph it)) items))))"

definition err_queue_snapshot :: "string \<Rightarrow> app_error" where
  "err_queue_snapshot p = app_error_new ''push_plan_invalid''
     (''queue snapshot is missing push item '' @ p)"

definition plan_items ::
  "env \<Rightarrow> mail_config \<Rightarrow> (string \<times> string) list \<Rightarrow> push_item list \<Rightarrow> (push_item \<times> bool) list cmd" where
  "plan_items env cfg records queued = map_io (\<lambda>it.
     then_io (of_res (ok_or (err_queue_snapshot (pi_push_id it)) (map_of records (pi_push_id it))))
             (plan_item env cfg it)) queued"

definition build_push_plan :: "env \<Rightarrow> plan_hashes \<Rightarrow> mail_config \<Rightarrow> resolved_push_plan cmd" where
  "build_push_plan env ph cfg =
     bind_io (queue_records env ph) (\<lambda>records.
     bind_io (sorted_items env) (\<lambda>queued.
     bind_io (plan_items env cfg records queued) (\<lambda>planned.
     let items = order_items_for_dependencies (map fst (filter snd planned));
         skipped = map fst (filter (\<lambda>p. \<not> snd p) planned) in
     bind_io (map_io (\<lambda>it. bind_io (of_res (ok_or (err_queue_snapshot (pi_push_id it))
         (map_of records (pi_push_id it)))) (push_plan_item_view env ph cfg it)) items) (\<lambda>views.
     let digest = \<lparr>pd_config_effect_id = ph_config ph cfg, pd_queue_records = records,
           pd_items = views,
           pd_skipped = map (\<lambda>it. (pi_push_id it, the (map_of records (pi_push_id it)))) skipped\<rparr> in
     ret \<lparr>rp_plan_id = ph_plan ph digest, rp_items = items, rp_skipped_items = skipped,
          rp_digest = digest\<rparr>))))"

definition require_matching_push_plan :: "resolved_push_plan \<Rightarrow> string \<Rightarrow> unit res" where
  "require_matching_push_plan plan confirmed = require (confirmed = rp_plan_id plan) err_push_plan_changed"

definition reconcile_push_plan :: "env \<Rightarrow> resolved_push_plan \<Rightarrow> string list cmd" where
  "reconcile_push_plan env plan =
     then_io (for_io (rp_items plan) (write_item env))
     (then_io (for_io (rp_skipped_items plan) (delete_item env))
       (ret (map pi_push_id (rp_skipped_items plan))))"

end
