(* ===== verification/Push_Execute.thy ===== *)
theory Push_Execute
  imports Push_Plan
begin

text \<open>
  Execution of the steps of one item (src/src/push_queue/execute.rs).  The item that the code
  borrows mutably is \<open>w_item\<close>.  Before a call that may change the server, the step is written to
  disk as \<open>RemoteOutcomeUnknown\<close>; the result of the call then decides whether it becomes
  \<open>Succeeded\<close>, \<open>Failed\<close> or stays unknown.  Every call carries, for the log only, the item and
  step it is made for.
\<close>

section \<open>Errors\<close>

definition err_remote_outcome_unknown :: "action_step \<Rightarrow> app_error" where
  "err_remote_outcome_unknown s = with_details (app_error_new ''push_remote_outcome_unknown''
     (''remote outcome is unknown for push step '' @ step_label s @ ''; refusing to retry automatically''))
     (JObj [(''step_status'', JStr ''remote_outcome_unknown''), (''label'', JStr (step_label s))])"

definition err_no_recipients :: app_error where
  "err_no_recipients = flagged ''cloudflare_send_no_recipients_accepted''
     ''Cloudflare reported no accepted recipients; inspect the send receipt''
     ''remote_effect_rejected'' True"

definition err_file_route_required :: app_error where
  "err_file_route_required = flagged ''channel_operation_unsupported''
     ''file_send requires a draft with a file reply route'' ''remote_calls_started'' False"

definition err_draft_upload_unavailable :: app_error where
  "err_draft_upload_unavailable = app_error_new ''draft_upload_unavailable'' ''draft upload is not configured''"

definition err_move_target_uid_missing :: "string \<Rightarrow> app_error" where
  "err_move_target_uid_missing mid = flagged ''imap_move_target_uid_missing''
     (''remote move succeeded but the target UID was not returned for message '' @ mid)
     ''remote_effect_completed'' True"

definition err_relocation_not_found :: app_error where
  "err_relocation_not_found = app_error_new ''message_not_found'' ''message not found during remote relocation''"

definition err_rfc822_missing :: "string \<Rightarrow> string \<Rightarrow> app_error" where
  "err_rfc822_missing what mid = app_error_new ''rfc822_message_id_missing''
     (''message cannot be verified after '' @ what @ '': '' @ mid)"

section \<open>Locations and the refresh after a step\<close>

definition err_no_reply_to :: app_error where
  "err_no_reply_to = err_push_item_invalid ''reply_to_message action has no reply_to_message_id''"

definition reply_to_message_id_for_step :: "env \<Rightarrow> push_item \<Rightarrow> string cmd" where
  "reply_to_message_id_for_step env it = (case item_reply_to_message_id it of
     Some r \<Rightarrow> ret r
   | None \<Rightarrow> (case pi_planned_outbound it of
       None \<Rightarrow> fail err_no_reply_to
     | Some ob \<Rightarrow> bind_io (draft_frontmatter env (ob_case_uid ob) (ob_draft_name ob)) (\<lambda>fm. case fm of
         None \<Rightarrow> fail (err_draft_not_found (ob_draft_name ob))
       | Some f \<Rightarrow> of_res (ok_or err_no_reply_to (df_reply_to_message_id f)))))"

definition action_locations :: "env \<Rightarrow> push_item \<Rightarrow> action_step \<Rightarrow> push_location list cmd" where
  "action_locations env it s =
     (if as_on s = Some ReplyToMessage
      then bind_io (reply_to_message_id_for_step env it) (\<lambda>r. message_remote_locations_any env [r])
      else ret (item_locations it))"

definition message_ids_for_step_refresh :: "env \<Rightarrow> push_item \<Rightarrow> action_step \<Rightarrow> string list cmd" where
  "message_ids_for_step_refresh env it s =
     (if as_add_flags s = [] \<and> as_move_to_mailbox_id s = None \<and> as_append_to_mailbox_id s = None
      then ret []
      else bind_io (if as_add_flags s \<noteq> [] \<or> as_move_to_mailbox_id s \<noteq> None
          then bind_io (action_locations env it s) (\<lambda>ls. ret (map loc_message_id ls))
          else ret []) (\<lambda>ids.
        ret (remdups (sort (ids @ (if as_append_to_mailbox_id s \<noteq> None then message_ids it else []))))))"

definition refresh_after_successful_step :: "env \<Rightarrow> action_step \<Rightarrow> unit cmd" where
  "refresh_after_successful_step env s = bind_io (gets w_item) (\<lambda>it.
     bind_io (message_ids_for_step_refresh env it s) (refresh_message_push_views env))"

section \<open>Durable marks\<close>

definition mark :: "env \<Rightarrow> (string \<Rightarrow> push_item \<Rightarrow> push_item) \<Rightarrow> unit cmd" where
  "mark env f = bind_io (now env) (\<lambda>t. upd_item (\<lambda>it. (f t it)\<lparr>pi_updated := t\<rparr>))"

definition set_last_error :: "string option \<Rightarrow> unit cmd" where
  "set_last_error e = upd_item (\<lambda>it. it\<lparr>pi_last_error := e\<rparr>)"

definition persist_remote_outcome_unknown :: "env \<Rightarrow> nat \<Rightarrow> action_step \<Rightarrow> unit cmd" where
  "persist_remote_outcome_unknown env i s =
     then_io (mark env (\<lambda>t it. mark_step_remote_outcome_unknown t it i s None))
     (then_io (set_last_error None) (save_item env))"

definition persist_succeeded :: "env \<Rightarrow> nat \<Rightarrow> action_step \<Rightarrow> unit cmd" where
  "persist_succeeded env i s = then_io (mark env (\<lambda>t it. mark_step_succeeded t it i s))
     (then_io (set_last_error None) (save_item env))"

section \<open>Remote effects of a step\<close>

definition execute_add_flags ::
  "env \<Rightarrow> string \<Rightarrow> nat \<Rightarrow> push_location list \<Rightarrow> string list \<Rightarrow> unit cmd" where
  "execute_add_flags env p i locations flags = for_io locations (\<lambda>l.
     then_io (call p i (CallAddFlags (loc_mailbox_name l) (loc_uid_validity l) (loc_uid l) flags) (\<lambda>_. True)
       (\<lambda>n. e_add_flags env n (loc_mailbox_name l) (loc_uid_validity l) (loc_uid l) flags))
     (add_remote_flags env [l] flags))"

definition active_of :: "message_file \<Rightarrow> remote_location list" where
  "active_of m = (case mf_remote m of None \<Rightarrow> [] | Some ls \<Rightarrow> filter (\<lambda>l. rl_missing l = None) ls)"

type_synonym move_state = "(string \<times> (string option \<times> remote_location list)) list"

fun collect_active :: "env \<Rightarrow> string list \<Rightarrow> move_state \<Rightarrow> move_state cmd" where
  "collect_active env [] acc = ret acc"
| "collect_active env (mid # mids) acc =
     (if map_of acc mid \<noteq> None then collect_active env mids acc
      else bind_io (read_message_by_id env mid) (\<lambda>m.
        collect_active env mids (put mid (mf_rfc822_message_id m, active_of m) acc)))"

definition already_moved :: "remote_location list \<Rightarrow> push_location \<Rightarrow> string \<Rightarrow> bool" where
  "already_moved existing source target \<longleftrightarrow>
     \<not> list_ex (\<lambda>l. remote_location_matches_push l source) existing
     \<and> list_ex (\<lambda>l. rl_mailbox_name l = target) existing"

definition relocated :: "remote_location list \<Rightarrow> push_location \<Rightarrow> remote_location \<Rightarrow> remote_location list" where
  "relocated locations source target =
     (let kept = filter (\<lambda>l. \<not> remote_location_matches_push l source) locations
      in if list_ex (\<lambda>l. same_location l target) kept then kept else kept @ [target])"

fun move_locations ::
  "env \<Rightarrow> string \<Rightarrow> nat \<Rightarrow> string \<Rightarrow> push_location list \<Rightarrow> move_state \<Rightarrow> unit cmd" where
  "move_locations env p i target [] active = ret ()"
| "move_locations env p i target (l # ls) active =
     (if loc_mailbox_name l = target then move_locations env p i target ls active
      else case map_of active (loc_message_id l) of
          None \<Rightarrow> fail err_relocation_not_found
        | Some (rfc822, existing) \<Rightarrow>
            if already_moved existing l target then move_locations env p i target ls active
            else bind_io (call p i (CallMove (loc_mailbox_name l) (loc_uid_validity l) (loc_uid l) target)
                (\<lambda>_. True)
                (\<lambda>n. e_move env n (loc_mailbox_name l) (loc_uid_validity l) (loc_uid l) target rfc822)) (\<lambda>outcome.
              case outcome of
                None \<Rightarrow> fail (err_move_target_uid_missing (loc_message_id l))
              | Some tgt \<Rightarrow>
                  let existing' = relocated existing l tgt in
                  then_io (relocate_message env (loc_message_id l) existing')
                    (move_locations env p i target ls
                       (put (loc_message_id l) (rfc822, existing') active))))"

definition execute_move :: "env \<Rightarrow> nat \<Rightarrow> push_item \<Rightarrow> push_location list \<Rightarrow> string \<Rightarrow> unit cmd" where
  "execute_move env i it locations mailbox_id =
     (if locations = [] then ret ()
      else bind_io (collect_active env (message_ids it) []) (\<lambda>active.
        bind_io (ask (\<lambda>n. e_folder env n mailbox_id)) (\<lambda>target.
        move_locations env (pi_push_id it) i target locations active)))"

definition rejection_after_applied_effect :: "app_error \<Rightarrow> app_error" where
  "rejection_after_applied_effect e =
     e\<lparr>details := map_option (json_remove ''remote_effect_rejected'') (details e)\<rparr>"

fun append_messages ::
  "env \<Rightarrow> string \<Rightarrow> nat \<Rightarrow> action_step \<Rightarrow> string \<Rightarrow> string list \<Rightarrow> bool \<Rightarrow> bool \<Rightarrow> unit cmd" where
  "append_messages env p i s folder [] marked appended = ret ()"
| "append_messages env p i s folder (mid # mids) marked appended =
     bind_io (gets (\<lambda>w. map_of (pi_planned_message_rfc822 (w_item w)) mid)) (\<lambda>planned.
     bind_io (case planned of Some raw \<Rightarrow> ret raw | None \<Rightarrow> ask_res (\<lambda>n. e_eml env n mid)) (\<lambda>raw.
     then_io (when_io (\<not> marked) (persist_remote_outcome_unknown env i s))
     (then_io (match_io (call p i (CallAppend folder raw False) (\<lambda>_. True) (\<lambda>n. e_append env n folder raw False))
        ret (\<lambda>e. fail (if appended then rejection_after_applied_effect e else e)))
     (append_messages env p i s folder mids True True))))"

definition execute_message_step :: "env \<Rightarrow> nat \<Rightarrow> action_step \<Rightarrow> unit cmd" where
  "execute_message_step env i s = bind_io (gets w_item) (\<lambda>it.
     then_io (when_io (as_add_flags s \<noteq> []) (bind_io (action_locations env it s) (\<lambda>ls.
       execute_add_flags env (pi_push_id it) i ls (as_add_flags s))))
     (then_io (case as_move_to_mailbox_id s of None \<Rightarrow> ret ()
       | Some mailbox_id \<Rightarrow> bind_io (action_locations env it s) (\<lambda>ls.
           bind_io (ask (\<lambda>n. e_folder env n mailbox_id)) (\<lambda>target.
           then_io (when_io (list_ex (\<lambda>l. loc_mailbox_name l \<noteq> target) ls)
             (persist_remote_outcome_unknown env i s))
           (execute_move env i it ls mailbox_id))))
     (then_io (case as_append_to_mailbox_id s of None \<Rightarrow> ret ()
       | Some mailbox_id \<Rightarrow> bind_io (ask (\<lambda>n. e_folder env n mailbox_id)) (\<lambda>folder.
           append_messages env (pi_push_id it) i s folder (message_ids it) False False))
     (when_io (is_send s) (fail (err_push_item_invalid
        ''send operations are only valid for outbound push items''))))))"

definition receipt_accepted :: "send_receipt \<Rightarrow> bool" where
  "receipt_accepted r \<longleftrightarrow> sr_delivered r \<noteq> [] \<or> sr_queued r \<noteq> []"

definition validate_smtp_send_attempt :: "env \<Rightarrow> prepared_outbound \<Rightarrow> unit res" where
  "validate_smtp_send_attempt env prepared = bind_res (prepared_email prepared) (e_smtp_ready env)"

definition outbound_file_send :: "env \<Rightarrow> nat \<Rightarrow> action_step \<Rightarrow> prepared_outbound \<Rightarrow> unit cmd" where
  "outbound_file_send env i s prepared = (case po_delivery prepared of
     DeliverEmail _ \<Rightarrow> fail err_file_route_required
   | DeliverFile _ \<Rightarrow>
       then_io (ask (\<lambda>n. e_output_confirmed env n prepared))
       (then_io (persist_remote_outcome_unknown env i s)
       (bind_io (gets (\<lambda>w. pi_push_id (w_item w))) (\<lambda>p.
        call p i (CallPublish prepared) (\<lambda>_. True) (\<lambda>n. e_publish env n prepared)))))"

definition outbound_cloudflare_send :: "env \<Rightarrow> nat \<Rightarrow> action_step \<Rightarrow> prepared_outbound \<Rightarrow> unit cmd" where
  "outbound_cloudflare_send env i s prepared =
     then_io (ask (\<lambda>n. e_prepare_cloudflare env n prepared))
     (then_io (persist_remote_outcome_unknown env i s)
     (bind_io (gets (\<lambda>w. pi_push_id (w_item w))) (\<lambda>p.
      bind_io (call p i (CallCloudflare prepared) receipt_accepted (\<lambda>n. e_send_cloudflare env n prepared)) (\<lambda>receipt.
      bind_io (gets (\<lambda>w. has_step (w_item w) i)) (\<lambda>present.
      if \<not> present then fail (err_push_item_invalid ''send step state is missing'')
      else then_io (upd_item (update_step i (\<lambda>st. st\<lparr>ss_send_receipt := Some receipt\<rparr>)))
        (if receipt_accepted receipt then ret () else fail err_no_recipients))))))"

definition outbound_smtp_send :: "env \<Rightarrow> nat \<Rightarrow> action_step \<Rightarrow> prepared_outbound \<Rightarrow> unit cmd" where
  "outbound_smtp_send env i s prepared =
     then_io (of_res (validate_smtp_send_attempt env prepared))
     (bind_io (of_res (prepared_email prepared)) (\<lambda>email.
      then_io (ask (\<lambda>n. e_prepare_send env n (pe_envelope_from email) (pe_envelope_to email)))
      (then_io (persist_remote_outcome_unknown env i s)
      (bind_io (gets (\<lambda>w. pi_push_id (w_item w))) (\<lambda>p.
       call p i (CallSmtp (pe_envelope_from email) (pe_envelope_to email) (pe_delivery_raw email)) (\<lambda>_. True)
         (\<lambda>n. e_send_raw env n (pe_envelope_from email) (pe_envelope_to email) (pe_delivery_raw email)))))))"

definition outbound_append ::
  "env \<Rightarrow> mail_config \<Rightarrow> nat \<Rightarrow> action_step \<Rightarrow> prepared_outbound \<Rightarrow> string \<Rightarrow> unit cmd" where
  "outbound_append env cfg i s prepared mailbox_id =
     bind_io (ask (\<lambda>n. e_folder env n mailbox_id)) (\<lambda>folder.
     then_io (persist_remote_outcome_unknown env i s)
     (bind_io (gets (\<lambda>w. pi_push_id (w_item w))) (\<lambda>p.
      call p i (CallAppend folder (po_raw prepared) (mailbox_is_kind cfg mailbox_id Drafts)) (\<lambda>_. True)
        (\<lambda>n. e_append env n folder (po_raw prepared) (mailbox_is_kind cfg mailbox_id Drafts)))))"

definition execute_outbound_step :: "env \<Rightarrow> mail_config \<Rightarrow> nat \<Rightarrow> action_step \<Rightarrow> unit cmd" where
  "execute_outbound_step env cfg i s = bind_io (gets w_item) (\<lambda>it.
     if pi_planned_outbound it = None then fail err_not_outbound
     else bind_io (prepare_current_outbound env it) (\<lambda>prepared.
       then_io (when_io (as_file_send s \<noteq> None) (outbound_file_send env i s prepared))
       (then_io (when_io (as_cloudflare_send s \<noteq> None) (outbound_cloudflare_send env i s prepared))
       (then_io (when_io (as_smtp_send s \<noteq> None) (outbound_smtp_send env i s prepared))
       (then_io (case as_append_to_mailbox_id s of None \<Rightarrow> ret ()
         | Some mailbox_id \<Rightarrow> outbound_append env cfg i s prepared mailbox_id)
       (then_io (when_io (as_add_flags s \<noteq> []) (bind_io (action_locations env it s) (\<lambda>ls.
         execute_add_flags env (pi_push_id it) i ls (as_add_flags s))))
       (when_io (as_move_to_mailbox_id s \<noteq> None) (execute_message_step env i s))))))))"

section \<open>Recovery of an uncertain step from evidence\<close>

definition find_absence_is_nonfatal :: "app_error \<Rightarrow> bool" where
  "find_absence_is_nonfatal e \<longleftrightarrow>
     error_code e = ''imap_uid_missing'' \<or> error_code e = ''remote_operation_unsupported''"

definition outbound_rfc822_message_id :: "push_item \<Rightarrow> string" where
  "outbound_rfc822_message_id it = ''<'' @ message_id_for_push (pi_push_id it) @ ''@afmail.local>''"

definition append_rfc822_message_ids :: "env \<Rightarrow> push_item \<Rightarrow> string list cmd" where
  "append_rfc822_message_ids env it =
     (if pi_planned_outbound it \<noteq> None then ret [outbound_rfc822_message_id it]
      else map_io (\<lambda>mid. bind_io (read_message_by_id env mid) (\<lambda>m.
        of_res (ok_or (err_rfc822_missing ''append'' mid) (mf_rfc822_message_id m)))) (message_ids it))"

text \<open>A lookup by Message-ID: a provider's \<open>not found\<close> error counts as absence.\<close>

definition find_present :: "env \<Rightarrow> string \<Rightarrow> string \<Rightarrow> remote_location option cmd" where
  "find_present env folder mid = match_io (ask (\<lambda>n. e_find env n folder mid)) ret
     (\<lambda>e. if find_absence_is_nonfatal e then ret None else fail e)"

fun all_present :: "env \<Rightarrow> string \<Rightarrow> string list \<Rightarrow> bool cmd" where
  "all_present env folder [] = ret True"
| "all_present env folder (mid # mids) = bind_io (find_present env folder mid) (\<lambda>r.
     if r = None then ret False else all_present env folder mids)"

definition recover_unknown_append :: "env \<Rightarrow> nat \<Rightarrow> action_step \<Rightarrow> string \<Rightarrow> bool cmd" where
  "recover_unknown_append env i s mailbox_id = bind_io (gets w_item) (\<lambda>it.
     bind_io (ask (\<lambda>n. e_folder env n mailbox_id)) (\<lambda>folder.
     bind_io (append_rfc822_message_ids env it) (\<lambda>mids.
     if mids = [] then ret False
     else bind_io (all_present env folder mids) (\<lambda>ok.
       if \<not> ok then ret False else then_io (persist_succeeded env i s) (ret True)))))"

definition move_completed_before_target_uid_lookup_failed :: "push_item \<Rightarrow> nat \<Rightarrow> bool" where
  "move_completed_before_target_uid_lookup_failed it i =
     (case List.find (\<lambda>st. ss_index st = i) (pi_step_states it) of None \<Rightarrow> False
      | Some st \<Rightarrow>
          ss_error_code st = Some ''imap_move_target_uid_missing''
          \<or> (ss_error_code st = Some ''imap_uid_missing''
              \<and> ss_error st = Some ''moved message uid was not found'')
          \<or> (ss_error_code st = Some ''push_remote_outcome_unknown''
              \<and> (case ss_error st of None \<Rightarrow> False
                 | Some e \<Rightarrow> prefix ''remote move completed without a target UID for message '' e)))"

definition has_active_planned_source :: "message_file \<Rightarrow> push_location list \<Rightarrow> bool" where
  "has_active_planned_source m sources = (case mf_remote m of None \<Rightarrow> False
     | Some ls \<Rightarrow> list_ex (\<lambda>l. rl_missing l = None
         \<and> list_ex (remote_location_matches_push l) sources) ls)"

type_synonym reconciled = "string \<times> message_file \<times> push_location list"

text \<open>\<open>None\<close>: some planned source is still active.\<close>

fun reconcile_sources ::
  "env \<Rightarrow> push_location list \<Rightarrow> string list \<Rightarrow> reconciled list option cmd" where
  "reconcile_sources env locs [] = ret (Some [])"
| "reconcile_sources env locs (mid # mids) = bind_io (read_message_by_id env mid) (\<lambda>m.
     let sources = filter (\<lambda>l. loc_message_id l = mid) locs in
     if has_active_planned_source m sources then ret None
     else bind_io (reconcile_sources env locs mids) (\<lambda>rest.
       ret (map_option (\<lambda>r. (mid, m, sources) # r) rest)))"

fun find_targets ::
  "env \<Rightarrow> string \<Rightarrow> reconciled list \<Rightarrow> (string \<times> push_location list \<times> remote_location) list option cmd" where
  "find_targets env folder [] = ret (Some [])"
| "find_targets env folder ((mid, m, sources) # rest) =
     bind_io (of_res (ok_or (err_rfc822_missing ''remote move'' mid) (mf_rfc822_message_id m))) (\<lambda>rfc.
     bind_io (case List.find (\<lambda>l. rl_mailbox_name l = folder \<and> rl_missing l = None)
                (case mf_remote m of None \<Rightarrow> [] | Some ls \<Rightarrow> ls) of
         Some l \<Rightarrow> ret (Some l)
       | None \<Rightarrow> find_present env folder rfc) (\<lambda>target. case target of
         None \<Rightarrow> ret None
       | Some l \<Rightarrow> bind_io (find_targets env folder rest) (\<lambda>more.
           ret (map_option (\<lambda>r. (mid, sources, l) # r) more))))"

definition moved_locations :: "remote_location list \<Rightarrow> push_location list \<Rightarrow> remote_location \<Rightarrow> remote_location list" where
  "moved_locations active sources target =
     (let kept = filter (\<lambda>l. \<not> list_ex (remote_location_matches_push l) sources) active
      in if list_ex (\<lambda>l. same_location l target) kept then kept else kept @ [target])"

definition recover_unknown_move :: "env \<Rightarrow> nat \<Rightarrow> action_step \<Rightarrow> string \<Rightarrow> bool cmd" where
  "recover_unknown_move env i s mailbox_id = bind_io (gets w_item) (\<lambda>it.
     bind_io (action_locations env it s) (\<lambda>locs.
     let mids = remdups (sort (message_ids it @ map loc_message_id locs)) in
     if mids = [] then ret False
     else bind_io (reconcile_sources env locs mids) (\<lambda>sources. case sources of
         None \<Rightarrow> ret False
       | Some rs \<Rightarrow> bind_io (ask (\<lambda>n. e_folder env n mailbox_id)) (\<lambda>folder.
           bind_io (find_targets env folder rs) (\<lambda>targets. case targets of
             None \<Rightarrow> ret False
           | Some ts \<Rightarrow>
               then_io (for_io ts (\<lambda>(mid, srcs, target). bind_io (read_message_by_id env mid) (\<lambda>m.
                 relocate_message env mid (moved_locations (active_of m) srcs target))))
               (then_io (persist_succeeded env i s) (ret True)))))))"

definition recover_remote_outcome_unknown_step :: "env \<Rightarrow> nat \<Rightarrow> action_step \<Rightarrow> bool cmd" where
  "recover_remote_outcome_unknown_step env i s =
     (if as_file_send s \<noteq> None then
        bind_io (gets w_item) (\<lambda>it. bind_io (prepare_current_outbound env it) (\<lambda>prepared.
        bind_io (ask (\<lambda>n. e_output_confirmed env n prepared)) (\<lambda>ok.
        if \<not> ok then ret False else then_io (persist_succeeded env i s) (ret True))))
      else case as_append_to_mailbox_id s of
          Some mailbox_id \<Rightarrow> recover_unknown_append env i s mailbox_id
        | None \<Rightarrow> (case as_move_to_mailbox_id s of
            None \<Rightarrow> ret False
          | Some mailbox_id \<Rightarrow> bind_io (gets w_item) (\<lambda>it.
              if move_completed_before_target_uid_lookup_failed it i
              then recover_unknown_move env i s mailbox_id else ret False)))"

section \<open>The tracked steps of an item\<close>

definition handle_step_error :: "env \<Rightarrow> nat \<Rightarrow> action_step \<Rightarrow> app_error \<Rightarrow> unit cmd" where
  "handle_step_error env i s e = bind_io (gets w_item) (\<lambda>it.
     if step_remote_outcome_unknown it i \<and> \<not> remote_effect_not_applied e then
       (let unknown = err_remote_outcome_unknown s in
        then_io (mark env (\<lambda>t it. mark_step_remote_outcome_unknown t it i s (Some e)))
        (then_io (set_last_error (Some (app_error_to_string unknown)))
        (then_io (save_item env) (fail unknown))))
     else
       then_io (mark env (\<lambda>t it. mark_step_failed t it i s e))
       (then_io (set_last_error (Some (app_error_to_string e)))
       (then_io (save_item env) (fail e))))"

definition attempt_step :: "env \<Rightarrow> (nat \<Rightarrow> action_step \<Rightarrow> unit cmd) \<Rightarrow> nat \<Rightarrow> action_step \<Rightarrow> unit cmd" where
  "attempt_step env execute i s =
     then_io (mark env (\<lambda>t it. mark_step_pending t it i s))
     (then_io (save_item env)
     (match_io (execute i s)
       (\<lambda>_. then_io (persist_succeeded env i s) (refresh_after_successful_step env s))
       (handle_step_error env i s)))"

definition resume_legacy_move :: "env \<Rightarrow> nat \<Rightarrow> action_step \<Rightarrow> unit cmd" where
  "resume_legacy_move env i s = bind_io (gets w_item) (\<lambda>it.
     when_io (step_remote_outcome_unknown it i \<and> legacy_move_message_id_preflight_failed it i s)
       (then_io (mark env (\<lambda>t it. mark_step_pending t it i s))
       (then_io (set_last_error None) (save_item env))))"

definition run_step :: "env \<Rightarrow> (nat \<Rightarrow> action_step \<Rightarrow> unit cmd) \<Rightarrow> nat \<Rightarrow> action_step \<Rightarrow> unit cmd" where
  "run_step env execute i s = bind_io (gets w_item) (\<lambda>it.
     if step_succeeded it i then when_io (pi_local_stage it = None) (refresh_after_successful_step env s)
     else then_io (resume_legacy_move env i s)
       (bind_io (gets (\<lambda>w. step_remote_outcome_unknown (w_item w) i)) (\<lambda>unknown.
        if unknown then
          bind_io (recover_remote_outcome_unknown_step env i s) (\<lambda>ok.
          if ok then refresh_after_successful_step env s else fail (err_remote_outcome_unknown s))
        else attempt_step env execute i s)))"

definition execute_tracked_steps ::
  "env \<Rightarrow> (nat \<Rightarrow> action_step \<Rightarrow> unit cmd) \<Rightarrow> action_step list \<Rightarrow> unit cmd" where
  "execute_tracked_steps env execute steps =
     then_io (upd_item (\<lambda>it. ensure_step_states it steps))
     (for_io (enumerate0 steps) (\<lambda>(i, s). run_step env execute i s))"

section \<open>One item\<close>

definition push_outbound :: "env \<Rightarrow> mail_config \<Rightarrow> unit cmd" where
  "push_outbound env cfg = bind_io (gets w_item) (\<lambda>it. case pi_planned_outbound it of
     None \<Rightarrow> fail err_not_outbound
   | Some ob \<Rightarrow>
       if pi_local_stage it \<noteq> None then ret ()
       else bind_io (if ob_steps ob = []
           then filter_reply_to_steps env it (configured_outbound_steps cfg (ob_action ob))
           else ret (ob_steps ob)) (\<lambda>steps.
         then_io (of_res (require_compiled_send_features env steps))
         (if ob_action ob = SaveDraft \<and> steps = [] then fail err_draft_upload_unavailable
          else execute_tracked_steps env (execute_outbound_step env cfg) steps)))"

definition push_action_steps :: "env \<Rightarrow> unit cmd" where
  "push_action_steps env = bind_io (gets w_item) (\<lambda>it. case pi_planned_message_action it of
     None \<Rightarrow> fail (err_push_item_invalid ''push item is not a message action'')
   | Some payload \<Rightarrow>
       then_io (case ma_action payload of
           Notification \<Rightarrow> ensure_archive_eligible env (ma_message_ids payload)
         | MarkSpam \<Rightarrow> ensure_message_ids_unreferenced env (ma_message_ids payload)
         | MarkTrash \<Rightarrow> ensure_message_ids_unreferenced env (ma_message_ids payload)
         | CaseAdd \<Rightarrow> ret () | Unspam \<Rightarrow> ret () | Untrash \<Rightarrow> ret ())
       (execute_tracked_steps env (execute_message_step env) (ma_steps payload)))"

end
