(* ===== verification/Frames.thy ===== *)
theory Frames
  imports Push_Execute
begin

text \<open>
  What the operations of the store, of planning and of the lookups leave alone.  A predicate on
  the queue, the log and the borrowed item survives every operation that touches none of the
  three: the locale states that contract once, and each invariant of the development is an
  interpretation of it.
\<close>

section \<open>Rules for the primitives\<close>

lemma tick_sel [simp]:
  "w_queue (tick w) = w_queue w" "w_item (tick w) = w_item w" "w_messages (tick w) = w_messages w"
  "w_log (tick w) = w_log w" "w_cases (tick w) = w_cases w" "w_drafts (tick w) = w_drafts w"
  "w_audit (tick w) = w_audit w" "w_tick (tick w) = Suc (w_tick w)" "w_sent (tick w) = w_sent w"
  "w_audit_torn (tick w) = w_audit_torn w" "w_draft_state (tick w) = w_draft_state w"
  by (simp_all add: tick_def)

lemma hoare_disk:
  assumes "\<And>w. P w \<Longrightarrow> Q () (f (tick w)) \<and> C (f (tick w)) \<and> (\<forall>m. E (app_error_io ctxt m) (f (tick w)))"
    and "\<And>w. P w \<Longrightarrow> C (tick w) \<and> (\<forall>m. E (app_error_io ctxt m) (tick w))"
  shows "hoare P (disk env ctxt f) Q E C"
  using assms by (simp add: hoare_def disk_def split: disk_event.splits)

lemma hoare_ask:
  assumes "\<And>w a. P w \<Longrightarrow> rep (w_tick w) = Reply a \<Longrightarrow> Q a (tick w)"
    and "\<And>w e. P w \<Longrightarrow> E e (tick w)" and "\<And>w. P w \<Longrightarrow> C (tick w)"
  shows "hoare P (ask rep) Q E C"
  using assms by (simp add: hoare_def ask_def split: reply.splits)

lemma hoare_call:
  assumes "\<And>w a. P w \<Longrightarrow> rep (w_tick w) = Reply a \<Longrightarrow>
      Q a ((tick w)\<lparr>w_log := Called p i c (ok a) # w_log w\<rparr>)"
    and "\<And>w e. P w \<Longrightarrow> rep (w_tick w) = ReplyErr e \<Longrightarrow>
      E e ((tick w)\<lparr>w_log := Called p i c (\<not> remote_effect_not_applied e) # w_log w\<rparr>)"
    and "\<And>w. P w \<Longrightarrow> C ((tick w)\<lparr>w_log := Called p i c True # w_log w\<rparr>)"
  shows "hoare P (call p i c ok rep) Q E C"
  using assms by (simp add: hoare_def call_def maybe_applied_def Let_def split: reply.splits)

lemma hoare_upd_item: "hoare (\<lambda>w. Q () (w\<lparr>w_item := f (w_item w)\<rparr>)) (upd_item f) Q E C"
  by (simp add: upd_item_def hoare_def modify_def)

lemma hoare_mark:
  assumes "\<And>w t. P w \<Longrightarrow> Q () (w\<lparr>w_item := (f t (w_item w))\<lparr>pi_updated := t\<rparr>\<rparr>)"
  shows "hoare P (mark env f) Q E C"
  using assms by (simp add: mark_def hoare_def io_defs now_def upd_item_def)

lemma hoare_gets_bind:
  assumes "\<And>a. hoare (\<lambda>w. P w \<and> f w = a) (k a) Q E C"
  shows "hoare P (bind_io (gets f) k) Q E C"
  using assms by (auto simp: hoare_def bind_io_def gets_def)

lemma keeps_case_action [hoare_rules]:
  assumes "keeps I m1" "keeps I m2" "keeps I m3" "keeps I m4" "keeps I m5" "keeps I m6"
  shows "keeps I (case a of CaseAdd \<Rightarrow> m1 | Notification \<Rightarrow> m2 | MarkSpam \<Rightarrow> m3 | MarkTrash \<Rightarrow> m4
    | Unspam \<Rightarrow> m5 | Untrash \<Rightarrow> m6)"
  using assms by (cases a) auto

lemma keeps_case_payload [hoare_rules]:
  "(\<And>d. keeps I (f d)) \<Longrightarrow> (\<And>m. keeps I (g m)) \<Longrightarrow> keeps I (case x of PDraft d \<Rightarrow> f d | PMessage m \<Rightarrow> g m)"
  by (cases x) auto

section \<open>The frame\<close>

definition same_core :: "world \<Rightarrow> world \<Rightarrow> bool" where
  "same_core w w' \<longleftrightarrow> w_queue w' = w_queue w \<and> w_log w' = w_log w \<and> w_item w' = w_item w"

locale frame =
  fixes I :: "world \<Rightarrow> bool"
  assumes frame: "same_core w w' \<Longrightarrow> I w \<Longrightarrow> I w'"
begin

lemma keeps_disk: "(\<And>w. same_core w (f w)) \<Longrightarrow> keeps I (disk env ctxt f)"
proof (rule hoare_disk)
  fix w assume f: "\<And>w. same_core w (f w)" and I: "I w"
  have "same_core w (tick w)" by (simp add: same_core_def)
  then have t: "I (tick w)" using I by (rule frame)
  then have "I (f (tick w))" using f by (rule frame [rotated])
  then show "I (f (tick w)) \<and> I (f (tick w)) \<and> (\<forall>m. I (f (tick w)))" by simp
next
  fix w assume "I w"
  then have "I (tick w)" by (rule frame [rotated]) (simp add: same_core_def)
  then show "I (tick w) \<and> (\<forall>m. I (tick w))" by simp
qed

lemma keeps_read: "keeps I (disk_read env ctxt)"
  unfolding disk_read_def by (rule keeps_disk) (simp add: same_core_def)

lemma keeps_ask: "keeps I (ask rep)"
  by (rule hoare_ask) (auto intro: frame [rotated] simp: same_core_def)

lemma keeps_ask_res: "keeps I (ask_res rep)"
  unfolding ask_res_def by (rule keeps_ask)

lemma keeps_now: "keeps I (now env)"
  unfolding now_def by (rule keeps_gets)

lemma keeps_put_message: "keeps I (put_message env mid m)"
  unfolding put_message_def by (rule keeps_disk) (simp add: same_core_def)

lemmas prim = keeps_read keeps_ask keeps_ask_res keeps_now keeps_put_message

lemma keeps_find_case: "keeps I (find_case_path env c)"
  unfolding find_case_path_def by (intro hoare_rules prim)

lemma keeps_frontmatter: "keeps I (draft_frontmatter env c d)"
  unfolding draft_frontmatter_def by (intro hoare_rules prim keeps_find_case)

lemma keeps_read_message: "keeps I (read_message_by_id env mid)"
  unfolding read_message_by_id_def by (intro hoare_rules prim)

lemmas reads = prim keeps_find_case keeps_frontmatter keeps_read_message

lemma keeps_relocate: "keeps I (relocate_message env mid ls)"
  unfolding relocate_message_def Let_def by (intro hoare_rules reads)

lemma keeps_add_remote_flags: "keeps I (add_remote_flags env ls fs)"
  unfolding add_remote_flags_def Let_def case_prod_unfold by (intro hoare_rules reads)

lemma keeps_locations: "keeps I (message_remote_locations_any env mids)"
  unfolding message_remote_locations_any_def message_remote_locations_inner_def
  by (intro hoare_rules reads)

lemma keeps_sync_state: "keeps I (write_archive_sync_state env mid b)"
  unfolding write_archive_sync_state_def by (intro hoare_rules reads)

lemma keeps_eligible: "keeps I (ensure_archive_eligible env mids)"
  unfolding ensure_archive_eligible_def by (intro hoare_rules reads keeps_sync_state)

lemma keeps_unreferenced: "keeps I (ensure_message_ids_unreferenced env mids)"
  unfolding ensure_message_ids_unreferenced_def by (intro reads)

lemma keeps_update_push_state: "keeps I (update_message_push_state env mid f)"
  unfolding update_message_push_state_def by (intro hoare_rules reads)

lemma keeps_record_pending: "keeps I (record_pending_push_item env it)"
  unfolding record_pending_push_item_def by (intro hoare_rules keeps_update_push_state)

lemma keeps_clear_message_pending: "keeps I (clear_message_pending_pushes env mid ps b)"
  unfolding clear_message_pending_pushes_def by (intro hoare_rules reads)

lemma keeps_clear_pending: "keeps I (clear_pending_push_item env it)"
  unfolding clear_pending_push_item_def by (intro hoare_rules keeps_clear_message_pending)

lemma keeps_refresh_views: "keeps I (refresh_views env)"
  unfolding refresh_views_def by (rule keeps_read)

lemma keeps_mark_pending_error: "keeps I (mark_pending_push_error env it e)"
  unfolding mark_pending_push_error_def by (intro hoare_rules keeps_update_push_state keeps_refresh_views)

lemma keeps_refresh_message: "keeps I (refresh_message_push_views env mids)"
  unfolding refresh_message_push_views_def by (intro hoare_rules keeps_refresh_views)

lemma keeps_refresh_outbound: "keeps I (refresh_outbound_push_views env it)"
  unfolding refresh_outbound_push_views_def by (intro hoare_rules keeps_refresh_views reads)

lemma keeps_append_audit_record: "keeps I (append_audit_event_record env ev)"
  unfolding append_audit_event_record_def
  by (intro hoare_rules prim keeps_disk) (simp add: same_core_def)

lemma keeps_append_audit: "keeps I (append_audit_event env k ts)"
  unfolding append_audit_event_def by (intro hoare_rules reads keeps_append_audit_record)

lemma keeps_append_audit_identity: "keeps I (append_audit_event_with_identity env ev c k ts)"
  unfolding append_audit_event_with_identity_def
  by (intro hoare_rules reads keeps_append_audit_record)

lemmas store_ops = reads keeps_relocate keeps_add_remote_flags keeps_locations keeps_eligible
  keeps_unreferenced keeps_update_push_state keeps_record_pending keeps_clear_message_pending
  keeps_clear_pending keeps_refresh_views keeps_mark_pending_error keeps_refresh_message
  keeps_refresh_outbound keeps_append_audit keeps_append_audit_identity

lemma keeps_read_items: "keeps I (read_items env)"
  unfolding read_items_def by (intro hoare_rules prim)

lemma keeps_sorted_items: "keeps I (sorted_items env)"
  unfolding sorted_items_def by (intro hoare_rules keeps_read_items)

lemma keeps_find_draft_item: "keeps I (find_draft_item env c d)"
  unfolding find_draft_item_def by (intro hoare_rules keeps_read_items)

lemma keeps_find_message_item: "keeps I (find_message_item env mid)"
  unfolding find_message_item_def by (intro hoare_rules keeps_read_items)

lemma keeps_next_seq: "keeps I (next_enqueue_seq env)"
  unfolding next_enqueue_seq_def by (intro hoare_rules keeps_read_items)

lemma keeps_new_push_id_from: "keeps I (new_draft_push_id_from env n)"
  by (induction n) (simp_all, (intro hoare_rules prim | assumption)+)

lemma keeps_new_push_id: "keeps I (new_draft_push_id env)"
  unfolding new_draft_push_id_def by (rule keeps_new_push_id_from)

lemmas queue_reads = keeps_read_items keeps_sorted_items keeps_find_draft_item
  keeps_find_message_item keeps_next_seq keeps_new_push_id

lemma keeps_skip: "keeps I (should_skip_reply_to_steps env it)"
  unfolding should_skip_reply_to_steps_def by (intro hoare_rules store_ops)

lemma keeps_filter_steps: "keeps I (filter_reply_to_steps env it steps)"
  unfolding filter_reply_to_steps_def by (intro hoare_rules store_ops keeps_skip)

lemma keeps_prepare: "keeps I (prepare_current_outbound env it)"
  unfolding prepare_current_outbound_def by (intro hoare_rules store_ops)

lemma keeps_plan_message: "keeps I (plan_message_push env cfg mid a)"
  unfolding plan_message_push_def Let_def plan_archive_message_push_def plan_locations_def
    case_prod_unfold
  by (intro hoare_rules store_ops)

lemma keeps_actions_for: "keeps I (actions_for env cfg it)"
  unfolding actions_for_def by (intro hoare_rules keeps_filter_steps)

lemma keeps_reset: "keeps I (reset_progress_if_plan_changed env cfg it)"
  unfolding reset_progress_if_plan_changed_def by (intro hoare_rules keeps_actions_for)

lemma keeps_planned_rfc822: "keeps I (planned_rfc822 env it)"
  unfolding planned_rfc822_def by (intro hoare_rules store_ops)

lemma keeps_plan_message_item: "keeps I (plan_message_item env cfg it m)"
  unfolding plan_message_item_def Let_def
  by (intro hoare_rules keeps_plan_message keeps_reset keeps_planned_rfc822)

lemma keeps_plan_draft_item: "keeps I (plan_draft_item env cfg it d)"
  unfolding plan_draft_item_def Let_def
  by (intro hoare_rules store_ops keeps_filter_steps keeps_reset keeps_prepare)

lemma keeps_plan_item: "keeps I (plan_item env cfg it)"
  unfolding plan_item_def by (intro hoare_rules keeps_plan_message_item keeps_plan_draft_item)

lemma keeps_view: "keeps I (push_plan_item_view env ph cfg it h)"
  unfolding push_plan_item_view_def by (intro hoare_rules store_ops keeps_actions_for)

lemma keeps_records: "keeps I (queue_records env ph)"
  unfolding queue_records_def by (intro hoare_rules store_ops queue_reads)

lemma keeps_build: "keeps I (build_push_plan env ph cfg)"
  unfolding build_push_plan_def plan_items_def Let_def
  by (intro hoare_rules queue_reads keeps_records keeps_plan_item keeps_view)

lemmas planning_ops = keeps_filter_steps keeps_prepare keeps_actions_for keeps_reset keeps_plan_item
  keeps_build

lemma keeps_reply_to: "keeps I (reply_to_message_id_for_step env it)"
  unfolding reply_to_message_id_for_step_def by (intro hoare_rules store_ops)

lemma keeps_action_locations: "keeps I (action_locations env it s)"
  unfolding action_locations_def by (intro hoare_rules store_ops keeps_reply_to)

lemma keeps_refresh_step: "keeps I (refresh_after_successful_step env s)"
  unfolding refresh_after_successful_step_def message_ids_for_step_refresh_def
  by (intro hoare_rules store_ops keeps_action_locations)

lemma keeps_collect_active: "keeps I (collect_active env mids acc)"
  by (induction mids arbitrary: acc) (simp_all, (intro conjI impI hoare_rules store_ops | simp)+)

lemma keeps_append_ids: "keeps I (append_rfc822_message_ids env it)"
  unfolding append_rfc822_message_ids_def by (intro hoare_rules store_ops)

lemma keeps_find_present: "keeps I (find_present env f mid)"
  unfolding find_present_def by (intro hoare_rules store_ops)

lemma keeps_all_present: "keeps I (all_present env f mids)"
  by (induction mids) (simp_all, (intro hoare_rules keeps_find_present | assumption)+)

lemma keeps_reconcile_sources: "keeps I (reconcile_sources env ls mids)"
  by (induction mids) (simp_all add: Let_def, (intro hoare_rules store_ops | assumption)+)

lemma keeps_find_targets: "keeps I (find_targets env f rs)"
proof (induction rs)
  case (Cons r rs)
  obtain mid m srcs where "r = (mid, m, srcs)" by (cases r) auto
  then show ?case
    by simp (intro hoare_rules store_ops keeps_find_present Cons.IH)
qed (simp, intro hoare_rules)

lemmas lookup_ops = keeps_action_locations keeps_refresh_step keeps_collect_active keeps_append_ids
  keeps_find_present keeps_all_present keeps_reconcile_sources keeps_find_targets

end

end
