(* ===== verification/Push_Safety.thy ===== *)
theory Push_Safety
  imports Frames
begin

text \<open>
  The safety invariant of execution, over the log of durable writes and remote calls: a send is
  made at most once for a step until a person releases it, and every call that may change the
  server is preceded by the durable mark \<open>RemoteOutcomeUnknown\<close> of its step.
\<close>

section \<open>Reading the log\<close>

text \<open>
  Sends for step \<open>i\<close> of item \<open>p\<close> that may have been delivered, since the item was last deleted or
  the step last released by a person.
\<close>

fun sends :: "string \<Rightarrow> nat \<Rightarrow> event list \<Rightarrow> nat" where
  "sends p i [] = 0"
| "sends p i (Wrote it # es) = sends p i es"
| "sends p i (Deleted q # es) = (if q = p then 0 else sends p i es)"
| "sends p i (Released q j # es) = (if q = p \<and> j = i then 0 else sends p i es)"
| "sends p i (Called q j c eff # es) =
     (if q = p \<and> j = i \<and> is_send_call c \<and> eff then Suc (sends p i es) else sends p i es)"

text \<open>The queue file of \<open>p\<close>, as the log left it.\<close>

fun last_write :: "string \<Rightarrow> event list \<Rightarrow> push_item option" where
  "last_write p [] = None"
| "last_write p (Wrote it # es) = (if pi_push_id it = p then Some it else last_write p es)"
| "last_write p (Deleted q # es) = (if q = p then None else last_write p es)"
| "last_write p (Called _ _ _ _ # es) = last_write p es"
| "last_write p (Released _ _ # es) = last_write p es"

definition marked_unknown :: "string \<Rightarrow> nat \<Rightarrow> event list \<Rightarrow> bool" where
  "marked_unknown p i es = (case last_write p es of None \<Rightarrow> False
     | Some it \<Rightarrow> step_remote_outcome_unknown it i)"

text \<open>
  The calls that need the mark: all but adding a flag, which is idempotent.  A move is covered
  (\<open>mv\<close>) when the folder of a mailbox id does not change while the command runs, as the cached
  mailbox list of the remote ensures.
\<close>

fun guarded_call :: "bool \<Rightarrow> remote_call \<Rightarrow> bool" where
  "guarded_call mv (CallAddFlags _ _ _ _) = False"
| "guarded_call mv (CallMove _ _ _ _) = mv"
| "guarded_call mv _ = True"

fun write_ahead :: "bool \<Rightarrow> event list \<Rightarrow> bool" where
  "write_ahead mv [] = True"
| "write_ahead mv (Called p i c eff # es) =
     ((guarded_call mv c \<longrightarrow> marked_unknown p i es) \<and> write_ahead mv es)"
| "write_ahead mv (Wrote _ # es) = write_ahead mv es"
| "write_ahead mv (Deleted _ # es) = write_ahead mv es"
| "write_ahead mv (Released _ _ # es) = write_ahead mv es"

definition stable_folders :: "env \<Rightarrow> bool" where
  "stable_folders env \<longleftrightarrow> (\<forall>ident m n f g.
     e_folder env m ident = Reply f \<longrightarrow> e_folder env n ident = Reply g \<longrightarrow> f = g)"

section \<open>The invariant\<close>

text \<open>Only a draft's push id starts as \<open>new_draft_push_id\<close> makes it.\<close>

definition named :: "push_item \<Rightarrow> bool" where
  "named it \<longleftrightarrow> (item_push_kind it = KDraft \<longrightarrow> prefix ''push_draft_'' (pi_push_id it))"

definition queue_ok :: "(string \<times> push_item) list \<Rightarrow> bool" where
  "queue_ok q \<longleftrightarrow> distinct (map fst q)
     \<and> (\<forall>(p, it) \<in> set q. pi_push_id it = p \<and> named it \<and> wf_steps it \<and> durable it = it)"

definition sent_once :: "(string \<times> push_item) list \<Rightarrow> event list \<Rightarrow> bool" where
  "sent_once q es \<longleftrightarrow> (\<forall>p i. sends p i es \<le> 1 \<and> (0 < sends p i es \<longrightarrow>
     (\<exists>it. map_of q p = Some it \<and> item_push_kind it = KDraft \<and> step_done it i)))"

definition log_ok :: "(string \<times> push_item) list \<Rightarrow> event list \<Rightarrow> bool" where
  "log_ok q es \<longleftrightarrow> (\<forall>p it. last_write p es = Some it \<longrightarrow> map_of q p = Some it)"

definition disk_ok :: "bool \<Rightarrow> world \<Rightarrow> bool" where
  "disk_ok mv w \<longleftrightarrow> queue_ok (w_queue w) \<and> log_ok (w_queue w) (w_log w)
     \<and> sent_once (w_queue w) (w_log w) \<and> write_ahead mv (w_log w)"

text \<open>The borrowed item agrees with what was sent for it.\<close>

definition item_ok :: "push_item \<Rightarrow> event list \<Rightarrow> bool" where
  "item_ok it es \<longleftrightarrow> wf_steps it \<and> named it
     \<and> (\<forall>i. 0 < sends (pi_push_id it) i es \<longrightarrow> item_push_kind it = KDraft \<and> step_done it i)
     \<and> (pi_audit_pending it = None \<longrightarrow> item_push_kind it = KDraft \<longrightarrow> pi_planned_message_action it = None)"

definition run_ok :: "bool \<Rightarrow> world \<Rightarrow> bool" where
  "run_ok mv w \<longleftrightarrow> disk_ok mv w \<and> item_ok (w_item w) (w_log w)"

lemma frame_disk_ok: "frame (disk_ok mv)"
  by standard (simp add: same_core_def disk_ok_def)

lemma frame_run_ok: "frame (run_ok mv)"
  by standard (simp add: same_core_def run_ok_def disk_ok_def)

interpretation disk_frame: frame "disk_ok mv" for mv
  by (rule frame_disk_ok)

interpretation run_frame: frame "run_ok mv" for mv
  by (rule frame_run_ok)

section \<open>Writing the queue\<close>

lemma queue_ok_put: "queue_ok q \<Longrightarrow> wf_steps it \<Longrightarrow> named it \<Longrightarrow> queue_ok (put (pi_push_id it) (durable it) q)"
  by (auto simp: queue_ok_def distinct_put set_put named_def)

lemma queue_ok_remove: "queue_ok q \<Longrightarrow> queue_ok (remove p q)"
  by (auto simp: queue_ok_def distinct_remove set_remove)

lemma queue_ok_item:
  "queue_ok q \<Longrightarrow> map_of q p = Some it \<Longrightarrow> pi_push_id it = p \<and> named it \<and> wf_steps it \<and> durable it = it"
  by (auto simp: queue_ok_def dest!: map_of_SomeD)

lemma sent_once_put:
  assumes "sent_once q es"
    and "\<And>i. 0 < sends (pi_push_id it) i es \<Longrightarrow> item_push_kind it = KDraft \<and> step_done it i"
  shows "sent_once (put (pi_push_id it) (durable it) q) (Wrote (durable it) # es)"
  unfolding sent_once_def
proof (intro allI conjI impI)
  fix p i
  show "sends p i (Wrote (durable it) # es) \<le> 1"
    using assms(1) by (simp add: sent_once_def)
next
  fix p i assume s: "0 < sends p i (Wrote (durable it) # es)"
  show "\<exists>it'. map_of (put (pi_push_id it) (durable it) q) p = Some it'
      \<and> item_push_kind it' = KDraft \<and> step_done it' i"
  proof (cases "p = pi_push_id it")
    case True
    then show ?thesis using assms(2) s by simp
  next
    case False
    then show ?thesis using assms(1) s by (simp add: sent_once_def)
  qed
qed

lemma sent_once_delete: "sent_once q es \<Longrightarrow> sent_once (remove p q) (Deleted p # es)"
  by (simp add: sent_once_def)

lemma log_ok_put: "log_ok q es \<Longrightarrow> log_ok (put (pi_push_id it) (durable it) q) (Wrote (durable it) # es)"
  by (auto simp: log_ok_def)

lemma log_ok_delete: "log_ok q es \<Longrightarrow> log_ok (remove p q) (Deleted p # es)"
  by (auto simp: log_ok_def)

definition writable :: "push_item \<Rightarrow> event list \<Rightarrow> bool" where
  "writable it es \<longleftrightarrow> wf_steps it \<and> named it
     \<and> (\<forall>i. 0 < sends (pi_push_id it) i es \<longrightarrow> item_push_kind it = KDraft \<and> step_done it i)"

lemma item_ok_writable: "item_ok it es \<Longrightarrow> writable it es"
  by (simp add: item_ok_def writable_def)

lemma disk_ok_put: "disk_ok mv w \<Longrightarrow> writable it (w_log w) \<Longrightarrow> disk_ok mv (queue_put it w)"
  by (simp add: disk_ok_def queue_put_def queue_ok_put log_ok_put sent_once_put writable_def)

lemma disk_ok_delete: "disk_ok mv w \<Longrightarrow> disk_ok mv (queue_delete p w)"
  by (simp add: disk_ok_def queue_delete_def queue_ok_remove log_ok_delete sent_once_delete)

lemma disk_ok_tick [simp]: "disk_ok mv (tick w) = disk_ok mv w"
  by (simp add: disk_ok_def)

lemma run_ok_tick [simp]: "run_ok mv (tick w) = run_ok mv w"
  by (simp add: run_ok_def)

lemma item_ok_log_put: "item_ok it (Wrote x # es) = item_ok it es"
  by (simp add: item_ok_def)

lemma queue_put_sel [simp]:
  "w_item (queue_put it w) = w_item w" "w_log (queue_put it w) = Wrote (durable it) # w_log w"
  by (simp_all add: queue_put_def)

lemma write_item_disk: "hoare (\<lambda>w. disk_ok mv w \<and> writable it (w_log w)) (write_item env it)
    (\<lambda>_ w. disk_ok mv w) (\<lambda>_ w. disk_ok mv w) (disk_ok mv)"
  unfolding write_item_def disk_read_def
  by (rule hoare_then, rule hoare_disk [where Q = "\<lambda>_ w. disk_ok mv w \<and> writable it (w_log w)"])
     (auto intro!: hoare_disk disk_ok_put)

section \<open>Updating the borrowed item\<close>

definition same_identity :: "push_item \<Rightarrow> push_item \<Rightarrow> bool" where
  "same_identity a b \<longleftrightarrow> pi_push_id b = pi_push_id a \<and> item_push_kind b = item_push_kind a
     \<and> pi_planned_message_action b = pi_planned_message_action a
     \<and> pi_audit_pending b = pi_audit_pending a \<and> pi_local_stage b = pi_local_stage a
     \<and> pi_planned_outbound b = pi_planned_outbound a"

lemma item_ok_update:
  assumes "item_ok it es" "same_identity it it'" "wf_steps it'"
    and "\<And>j. step_done it j \<Longrightarrow> 0 < sends (pi_push_id it) j es \<Longrightarrow> step_done it' j"
  shows "item_ok it' es"
  using assms by (auto simp: item_ok_def same_identity_def named_def)

text \<open>
  The state during the execution of a step list of length \<open>n\<close>: the invariant, no audit yet, and a
  step state for every index.
\<close>

definition ready :: "bool \<Rightarrow> push_kind \<Rightarrow> nat \<Rightarrow> world \<Rightarrow> bool" where
  "ready mv k n w \<longleftrightarrow> run_ok mv w \<and> pi_audit_pending (w_item w) = None
     \<and> item_push_kind (w_item w) = k \<and> (\<forall>i < n. has_step (w_item w) i)"

definition unsent :: "nat \<Rightarrow> world \<Rightarrow> bool" where
  "unsent i w \<longleftrightarrow> sends (pi_push_id (w_item w)) i (w_log w) = 0"

definition hot :: "nat \<Rightarrow> world \<Rightarrow> bool" where
  "hot i w \<longleftrightarrow> last_write (pi_push_id (w_item w)) (w_log w) = Some (durable (w_item w))
     \<and> step_remote_outcome_unknown (w_item w) i"

lemma hot_marked: "hot i w \<Longrightarrow> marked_unknown (pi_push_id (w_item w)) i (w_log w)"
  by (simp add: hot_def marked_unknown_def step_remote_outcome_unknown_def)

definition uncertain :: "nat \<Rightarrow> app_error \<Rightarrow> world \<Rightarrow> bool" where
  "uncertain i e w \<longleftrightarrow> unsent i w
     \<or> (step_remote_outcome_unknown (w_item w) i \<and> \<not> remote_effect_not_applied e)"

lemma frame_ready: "frame (ready mv k n)"
  by standard (simp add: same_core_def ready_def run_ok_def disk_ok_def)

interpretation ready_frame: frame "ready mv k n" for mv k n
  by (rule frame_ready)

interpretation unsent_frame: frame "\<lambda>w. ready mv k n w \<and> unsent i w" for mv k n i
  by standard (simp add: same_core_def ready_def run_ok_def disk_ok_def unsent_def)

interpretation hot_frame: frame "\<lambda>w. ready mv k n w \<and> unsent i w \<and> (b \<longrightarrow> hot i w)" for mv k n i b
  by standard (simp add: same_core_def ready_def run_ok_def disk_ok_def unsent_def hot_def)

lemma ready_update:
  assumes "ready mv k n w" "same_identity (w_item w) it'" "wf_steps it'"
    and "\<And>j. has_step it' j = has_step (w_item w) j"
    and "\<And>j. step_done (w_item w) j \<Longrightarrow> 0 < sends (pi_push_id (w_item w)) j (w_log w) \<Longrightarrow> step_done it' j"
  shows "ready mv k n (w\<lparr>w_item := it'\<rparr>)"
  using assms item_ok_update [OF _ assms(2,3,5)]
  by (auto simp: ready_def run_ok_def disk_ok_def same_identity_def)

lemma unsent_update:
  "same_identity (w_item w) it' \<Longrightarrow> unsent i (w\<lparr>w_item := it'\<rparr>) = unsent i w"
  by (simp add: unsent_def same_identity_def)

lemma ready_wf: "ready mv k n w \<Longrightarrow> wf_steps (w_item w)"
  by (simp add: ready_def run_ok_def item_ok_def)

text \<open>A step that is not done was never sent for.\<close>

lemma ready_unsent: "ready mv k n w \<Longrightarrow> \<not> step_done (w_item w) i \<Longrightarrow> unsent i w"
  by (auto simp: ready_def run_ok_def item_ok_def unsent_def)

lemma ready_message_unsent: "ready mv KMessage n w \<Longrightarrow> unsent i w"
  by (auto simp: ready_def run_ok_def item_ok_def unsent_def)

section \<open>The transitions of a step keep the invariant\<close>

lemma update_wf: "wf_steps it \<Longrightarrow> (\<And>st. ss_index (f st) = ss_index st) \<Longrightarrow> wf_steps ((update_step i f it)\<lparr>pi_updated := t\<rparr>)"
  using wf_update_step [of f i it] by (simp add: wf_steps_def)

lemma step_has_updated [simp]: "step_has (it\<lparr>pi_updated := t\<rparr>) i s = step_has it i s"
  "step_has (it\<lparr>pi_last_error := e\<rparr>) i s = step_has it i s"
  "has_step (it\<lparr>pi_updated := t\<rparr>) i = has_step it i" "has_step (it\<lparr>pi_last_error := e\<rparr>) i = has_step it i"
  "wf_steps (it\<lparr>pi_updated := t\<rparr>) = wf_steps it" "wf_steps (it\<lparr>pi_last_error := e\<rparr>) = wf_steps it"
  "item_push_kind (it\<lparr>pi_updated := t\<rparr>) = item_push_kind it"
  "item_push_kind (it\<lparr>pi_last_error := e\<rparr>) = item_push_kind it"
  "item_push_kind (update_step j f it) = item_push_kind it"
  by (simp_all add: step_has_def has_step_def wf_steps_def item_push_kind_def)

lemma step_has_freeze [simp]: "step_has (freeze_message_action_snapshot it) i s = step_has it i s"
  "has_step (freeze_message_action_snapshot it) i = has_step it i"
  "wf_steps (freeze_message_action_snapshot it) = wf_steps it"
  by (simp_all add: step_has_def has_step_def wf_steps_def)

lemmas transition_sel = mark_step_pending_def mark_step_succeeded_def mark_step_failed_def
  mark_step_remote_outcome_unknown_def

lemma same_identity_transitions [simp]:
  "same_identity it (mark_step_pending t0 it i s)"
  "same_identity it (mark_step_succeeded t0 it i s)"
  "same_identity it (mark_step_failed t0 it i s err)"
  "same_identity it (mark_step_remote_outcome_unknown t0 it i s e)"
  "same_identity it (it'\<lparr>pi_last_error := l\<rparr>) = same_identity it it'"
  "same_identity it (it'\<lparr>pi_updated := t\<rparr>) = same_identity it it'" "same_identity it it" "same_identity it (update_step i f it)"
  by (simp_all add: same_identity_def transition_sel)

lemma wf_transitions [simp]:
  "wf_steps (mark_step_pending t0 it i s) = wf_steps it"
  "wf_steps (mark_step_succeeded t0 it i s) = wf_steps it"
  "wf_steps (mark_step_failed t0 it i s err) = wf_steps it"
  "wf_steps (mark_step_remote_outcome_unknown t0 it i s e) = wf_steps it"
  by (simp_all add: transition_sel)

lemma has_step_transitions [simp]:
  "has_step (mark_step_pending t0 it i s) j = has_step it j"
  "has_step (mark_step_succeeded t0 it i s) j = has_step it j"
  "has_step (mark_step_failed t0 it i s err) j = has_step it j"
  "has_step (mark_step_remote_outcome_unknown t0 it i s e) j = has_step it j"
  by (simp_all add: transition_sel)

lemma status_transitions:
  assumes "wf_steps it"
  shows "step_has (mark_step_pending t0 it i s) j st =
      (if j = i then has_step it i \<and> st = Pending else step_has it j st)"
    and "step_has (mark_step_succeeded t0 it i s) j st =
      (if j = i then has_step it i \<and> st = Succeeded else step_has it j st)"
    and "step_has (mark_step_failed t0 it i s err) j st =
      (if j = i then has_step it i \<and> st = Failed else step_has it j st)"
    and "step_has (mark_step_remote_outcome_unknown t0 it i s e) j st =
      (if j = i then has_step it i \<and> st = RemoteOutcomeUnknown else step_has it j st)"
  using assms by (simp_all add: transition_sel step_has_update_step)

section \<open>Contracts of the remote effects\<close>

text \<open>
  Before an effect for step \<open>i\<close> of item \<open>p\<close>: nothing was sent for the step yet and, once \<open>b\<close>,
  its mark is on disk.  After an error the step is either unsent or uncertain.
\<close>

definition pre :: "bool \<Rightarrow> push_kind \<Rightarrow> nat \<Rightarrow> string \<Rightarrow> nat \<Rightarrow> bool \<Rightarrow> world \<Rightarrow> bool" where
  "pre mv k n p i b w \<longleftrightarrow> ready mv k n w \<and> pi_push_id (w_item w) = p \<and> unsent i w \<and> (b \<longrightarrow> hot i w)"

definition err :: "bool \<Rightarrow> push_kind \<Rightarrow> nat \<Rightarrow> nat \<Rightarrow> app_error \<Rightarrow> world \<Rightarrow> bool" where
  "err mv k n i e w \<longleftrightarrow> ready mv k n w \<and> uncertain i e w"

interpretation pre_frame: frame "pre mv k n p i b" for mv k n p i b
  by standard (auto simp: same_core_def pre_def ready_def run_ok_def disk_ok_def unsent_def hot_def)

lemma ready_disk_ok: "ready mv k n w \<Longrightarrow> disk_ok mv w"
  by (simp add: ready_def run_ok_def)

lemma pre_disk_ok: "pre mv k n p i b w \<Longrightarrow> disk_ok mv w"
  by (auto simp: pre_def ready_disk_ok)

lemma pre_err: "pre mv k n p i b w \<Longrightarrow> err mv k n i e w"
  by (simp add: pre_def err_def uncertain_def)

lemma pre_relax: "pre mv k n p i b w \<Longrightarrow> pre mv k n p i False w"
  by (simp add: pre_def)

lemma pre_quiet:
  assumes "keeps (pre mv k n p i b) m"
  shows "hoare (pre mv k n p i b) m (\<lambda>_. pre mv k n p i b) (err mv k n i) (disk_ok mv)"
  using assms by (rule hoare_weaken) (auto intro: pre_err pre_disk_ok)

lemma pre_bind:
  assumes "keeps (pre mv k n p i b) m" "\<And>a. hoare (pre mv k n p i b) (f a) Q (err mv k n i) (disk_ok mv)"
  shows "hoare (pre mv k n p i b) (bind_io m f) Q (err mv k n i) (disk_ok mv)"
  using pre_quiet [OF assms(1)] assms(2) by (rule hoare_bind)

lemma pre_then:
  assumes "keeps (pre mv k n p i b) m" "hoare (pre mv k n p i b) f Q (err mv k n i) (disk_ok mv)"
  shows "hoare (pre mv k n p i b) (then_io m f) Q (err mv k n i) (disk_ok mv)"
  using pre_quiet [OF assms(1)] assms(2) by (rule hoare_then)

lemma pre_fail: "hoare (pre mv k n p i b) (fail e) Q (err mv k n i) C"
  by (simp add: hoare_def fail_def pre_err)

lemma save_item_ready:
  assumes "\<And>w w'. same_core w w' \<Longrightarrow> P w \<Longrightarrow> P w'"
    and "\<And>w. P w \<Longrightarrow> disk_ok mv w \<and> writable (w_item w) (w_log w)"
    and "\<And>w. P w \<Longrightarrow> disk_ok mv (queue_put (w_item w) w) \<Longrightarrow> Q (queue_put (w_item w) w) \<and> E (queue_put (w_item w) w)"
    and "\<And>w. P w \<Longrightarrow> E w"
  shows "hoare P (save_item env) (\<lambda>_. Q) (\<lambda>_. E) (disk_ok mv)"
  unfolding save_item_def
proof (rule hoare_gets_bind)
  fix it
  have tick: "P w \<Longrightarrow> P (tick w)" for w
    by (rule assms(1)) (simp_all add: same_core_def)
  show "hoare (\<lambda>w. P w \<and> w_item w = it) (write_item env it) (\<lambda>_. Q) (\<lambda>_. E) (disk_ok mv)"
    unfolding write_item_def disk_read_def
  proof (rule hoare_then)
    show "hoare (\<lambda>w. P w \<and> w_item w = it) (disk env ''create directory'' id)
        (\<lambda>_ w. P w \<and> w_item w = it) (\<lambda>_. E) (disk_ok mv)"
      using tick assms(2,4) by (intro hoare_disk) auto
    show "hoare (\<lambda>w. P w \<and> w_item w = it) (disk env ''write file'' (queue_put it)) (\<lambda>_. Q) (\<lambda>_. E) (disk_ok mv)"
    proof (rule hoare_disk)
      fix w assume w: "P w \<and> w_item w = it"
      then have t: "P (tick w)" "w_item (tick w) = it" using tick by auto
      then have "disk_ok mv (queue_put it (tick w))"
        using assms(2) [OF t(1)] by (auto intro: disk_ok_put)
      then show "Q (queue_put it (tick w)) \<and> disk_ok mv (queue_put it (tick w)) \<and> (\<forall>m. E (queue_put it (tick w)))"
        using assms(3) [OF t(1)] t(2) by auto
      show "disk_ok mv (tick w) \<and> (\<forall>m. E (tick w))"
        using w assms(2,4) t(1) by auto
    qed
  qed
qed

lemma queue_put_ready:
  "ready mv k n w \<Longrightarrow> disk_ok mv (queue_put (w_item w) w) \<Longrightarrow> ready mv k n (queue_put (w_item w) w)"
  by (simp add: ready_def run_ok_def item_ok_log_put)

lemma queue_put_unsent: "unsent i w \<Longrightarrow> unsent i (queue_put it w)"
  by (simp add: unsent_def)

lemma queue_put_hot:
  "step_remote_outcome_unknown (w_item w) i \<Longrightarrow> hot i (queue_put (w_item w) w)"
  by (simp add: hot_def step_remote_outcome_unknown_def)

lemma ready_writable: "ready mv k n w \<Longrightarrow> disk_ok mv w \<and> writable (w_item w) (w_log w)"
  by (simp add: ready_def run_ok_def item_ok_writable)

lemma same_core_ready: "same_core w w' \<Longrightarrow> ready mv k n w \<Longrightarrow> ready mv k n w'"
  by (simp add: same_core_def ready_def run_ok_def disk_ok_def)

lemma same_core_unsent: "same_core w w' \<Longrightarrow> unsent i w \<Longrightarrow> unsent i w'"
  by (simp add: same_core_def unsent_def)

lemma persist_unknown_pre:
  assumes i: "i < n"
  shows "hoare (pre mv k n p i b) (persist_remote_outcome_unknown env i s)
    (\<lambda>_. pre mv k n p i True) (err mv k n i) (disk_ok mv)"
proof -
  define R where "R = (\<lambda>w. ready mv k n w \<and> pi_push_id (w_item w) = p \<and> unsent i w
    \<and> step_remote_outcome_unknown (w_item w) i)"
  have 1: "hoare (pre mv k n p i b) (mark env (\<lambda>t it. mark_step_remote_outcome_unknown t it i s None))
      (\<lambda>_. R) (err mv k n i) (disk_ok mv)"
  proof (rule hoare_mark)
    fix w t assume "pre mv k n p i b w"
    then have w: "ready mv k n w" "pi_push_id (w_item w) = p" "unsent i w" by (simp_all add: pre_def)
    let ?it = "(mark_step_remote_outcome_unknown t (w_item w) i s None)\<lparr>pi_updated := t\<rparr>"
    have h: "has_step (w_item w) i" using w(1) i by (simp add: ready_def)
    note st = status_transitions(4) [OF ready_wf [OF w(1)]]
    have "ready mv k n (w\<lparr>w_item := ?it\<rparr>)"
      by (rule ready_update [OF w(1)]) (auto simp: ready_wf [OF w(1)] step_done_def st h)
    then show "R (w\<lparr>w_item := ?it\<rparr>)"
      using w h by (simp add: R_def unsent_update step_remote_outcome_unknown_def st)
        (simp add: transition_sel)
  qed
  have 2: "hoare R (set_last_error None) (\<lambda>_. R) (err mv k n i) (disk_ok mv)"
    unfolding set_last_error_def
    by (rule hoare_pre [OF hoare_upd_item])
       (auto simp: R_def unsent_update step_remote_outcome_unknown_def ready_wf step_done_def intro!: ready_update)
  have 3: "hoare R (save_item env) (\<lambda>_. pre mv k n p i True) (err mv k n i) (disk_ok mv)"
  proof (rule hoare_weaken [OF save_item_ready [where P = R and Q = "pre mv k n p i True" and E = "\<lambda>w. ready mv k n w \<and> unsent i w"]])
    fix w w' assume "same_core w w'" "R w"
    then show "R w'" using same_core_ready same_core_unsent by (auto simp: R_def same_core_def)
  next
    fix w assume "R w" then show "disk_ok mv w \<and> writable (w_item w) (w_log w)"
      by (auto simp: R_def dest: ready_writable)
  next
    fix w assume w: "R w" "disk_ok mv (queue_put (w_item w) w)"
    then show "pre mv k n p i True (queue_put (w_item w) w)
        \<and> ready mv k n (queue_put (w_item w) w) \<and> unsent i (queue_put (w_item w) w)"
      by (simp add: R_def pre_def queue_put_ready queue_put_unsent queue_put_hot)
  next
    fix w assume "R w" then show "ready mv k n w \<and> unsent i w" by (simp add: R_def)
  qed (auto simp: err_def uncertain_def)
  show ?thesis
    unfolding persist_remote_outcome_unknown_def
    by (rule hoare_then [OF 1], rule hoare_then [OF 2 3])
qed

lemma call_other_keeps:
  assumes "\<not> is_send_call c" "guarded_call mv c \<longrightarrow> b"
  shows "keeps (pre mv k n p i b) (call p i c ok rep)"
proof (rule hoare_call)
  fix w eff assume w: "pre mv k n p i b w"
  let ?w = "\<lambda>eff. (tick w)\<lparr>w_log := Called p i c eff # w_log w\<rparr>"
  have s: "sends q j (Called p i c eff # w_log w) = sends q j (w_log w)" for q j eff
    using assms(1) by simp
  have g: "guarded_call mv c \<longrightarrow> marked_unknown p i (w_log w)"
    using w assms(2) hot_marked by (auto simp: pre_def)
  have l: "last_write q (Called p i c eff # w_log w) = last_write q (w_log w)" for q eff
    by simp
  have pre: "pre mv k n p i b (?w eff)" for eff
    using w s g l
    by (auto simp: pre_def ready_def run_ok_def disk_ok_def item_ok_def sent_once_def unsent_def
        log_ok_def hot_def simp del: sends.simps last_write.simps)
  then show "pre mv k n p i b (?w (ok a))" "pre mv k n p i b (?w (\<not> remote_effect_not_applied e))"
    "pre mv k n p i b (?w True)" for a e
    by auto
qed

lemma call_other:
  assumes "\<not> is_send_call c" "guarded_call mv c \<longrightarrow> b"
  shows "hoare (pre mv k n p i b) (call p i c ok rep) (\<lambda>_. pre mv k n p i b) (err mv k n i) (disk_ok mv)"
  by (rule pre_quiet [OF call_other_keeps [OF assms]])

lemma call_send:
  assumes c: "is_send_call c"
  shows "hoare (pre mv KDraft n p i True) (call p i c ok rep)
    (\<lambda>a w. ready mv KDraft n w \<and> pi_push_id (w_item w) = p \<and> (ok a \<or> unsent i w))
    (err mv KDraft n i) (disk_ok mv)"
proof -
  let ?w = "\<lambda>w eff. (tick w)\<lparr>w_log := Called p i c eff # w_log w\<rparr>"
  have called: "ready mv KDraft n (?w w eff) \<and> step_remote_outcome_unknown (w_item w) i
      \<and> pi_push_id (w_item w) = p \<and> (eff \<or> unsent i (?w w eff))"
    if w: "pre mv KDraft n p i True w" for w eff
  proof -
    have r: "ready mv KDraft n w" and p: "pi_push_id (w_item w) = p" and u: "sends p i (w_log w) = 0"
      and h: "hot i w"
      using w by (auto simp: pre_def unsent_def)
    have x: "step_remote_outcome_unknown (w_item w) i" and l: "last_write p (w_log w) = Some (durable (w_item w))"
      using h p by (simp_all add: hot_def)
    then have d: "step_done (w_item w) i" by (simp add: step_done_def step_remote_outcome_unknown_def)
    have k: "item_push_kind (w_item w) = KDraft" using r by (simp add: ready_def)
    have lo: "log_ok (w_queue w) (w_log w)" and so: "sent_once (w_queue w) (w_log w)"
      using r by (simp_all add: ready_def run_ok_def disk_ok_def)
    have q: "map_of (w_queue w) p = Some (durable (w_item w))"
      using lo l by (simp add: log_ok_def)
    have "sent_once (w_queue w) (Called p i c eff # w_log w)"
      using so u q d k by (auto simp: sent_once_def)
    moreover have "item_ok (w_item w) (Called p i c eff # w_log w)"
      using r d k p by (auto simp: ready_def run_ok_def item_ok_def)
    moreover have "log_ok (w_queue w) (Called p i c eff # w_log w)"
      using lo by (simp add: log_ok_def)
    moreover have "marked_unknown p i (w_log w)" using hot_marked [OF h] p by simp
    ultimately show ?thesis
      using r p u x by (simp add: ready_def run_ok_def disk_ok_def unsent_def)
  qed
  show ?thesis
  proof (rule hoare_call)
    fix w assume w: "pre mv KDraft n p i True w"
    show "ready mv KDraft n (?w w (ok a)) \<and> pi_push_id (w_item (?w w (ok a))) = p \<and> (ok a \<or> unsent i (?w w (ok a)))" for a
      using called [OF w, of "ok a"] by simp
    show "err mv KDraft n i e (?w w (\<not> remote_effect_not_applied e))" for e
      using called [OF w, of "\<not> remote_effect_not_applied e"] by (auto simp: err_def uncertain_def)
    show "disk_ok mv (?w w True)"
      using called [OF w, of True] by (auto dest: ready_disk_ok)
  qed
qed

section \<open>The effects of a message step\<close>

lemma hoare_ret_const: "hoare P (ret a) (\<lambda>_. P) E C"
  by (simp add: hoare_def ret_def)

lemma hoare_case_option':
  assumes "hoare P m Q E C" "\<And>y. hoare P (f y) Q E C"
  shows "hoare P (case x of None \<Rightarrow> m | Some y \<Rightarrow> f y) Q E C"
  using assms by (cases x) auto

lemma pre_when:
  "hoare (pre mv k n p i b) m (\<lambda>_. pre mv k n p i b) E C \<Longrightarrow>
   hoare (pre mv k n p i b) (when_io c m) (\<lambda>_. pre mv k n p i b) E C"
  by (rule hoare_when)

lemma add_flags_pre:
  "hoare (pre mv k n p i b) (execute_add_flags env p i ls fs) (\<lambda>_. pre mv k n p i b)
     (err mv k n i) (disk_ok mv)"
  unfolding execute_add_flags_def
  by (rule hoare_for, rule hoare_then, rule call_other)
     (auto intro: pre_quiet pre_frame.keeps_add_remote_flags)

lemma move_locations_pre:
  assumes "mv \<Longrightarrow> b \<or> (\<forall>l \<in> set ls. loc_mailbox_name l = target)"
  shows "hoare (pre mv k n p i b) (move_locations env p i target ls active) (\<lambda>_. pre mv k n p i b)
    (err mv k n i) (disk_ok mv)"
  using assms
proof (induction env p i target ls active rule: move_locations.induct)
  case (1 env p i target active)
  show ?case by (simp add: hoare_ret_const)
next
  case (2 env p i target l ls active)
  show ?case
  proof (cases "loc_mailbox_name l = target")
    case True
    then show ?thesis using 2 by simp
  next
    case False
    then have b: "mv \<longrightarrow> b" using 2(4) by auto
    show ?thesis
    proof (cases "map_of active (loc_message_id l)")
      case None
      then show ?thesis using False by (simp add: pre_fail)
    next
      case (Some x)
      obtain rfc ex where x: "x = (rfc, ex)" by fastforce
      show ?thesis
      proof (cases "already_moved ex l target")
        case True
        then show ?thesis using 2(2) [OF False Some x [symmetric] True] b False Some x by simp
      next
        case nm: False
        have step: "hoare (pre mv k n p i b)
            (then_io (relocate_message env (loc_message_id l) (relocated ex l tgt))
              (move_locations env p i target ls (put (loc_message_id l) (rfc, relocated ex l tgt) active)))
            (\<lambda>_. pre mv k n p i b) (err mv k n i) (disk_ok mv)" for tgt
          using b by (intro pre_then pre_frame.keeps_relocate 2(3) [OF False Some x [symmetric] nm]) auto
        show ?thesis
          using False Some x nm b
          by (auto simp: Let_def intro!: hoare_bind [OF call_other] hoare_case_option' pre_fail step)
      qed
    qed
  qed
qed

lemma execute_move_pre:
  assumes "mv \<Longrightarrow> b \<or> (stable_folders env \<and> (\<exists>m t. e_folder env m mb = Reply t \<and> (\<forall>l \<in> set ls. loc_mailbox_name l = t)))"
    and p: "pi_push_id it = p"
  shows "hoare (pre mv k n p i b) (execute_move env i it ls mb) (\<lambda>_. pre mv k n p i b)
    (err mv k n i) (disk_ok mv)"
  unfolding execute_move_def p
  proof (rule hoare_if)
    show "hoare (pre mv k n p i b) (ret ()) (\<lambda>_. pre mv k n p i b) (err mv k n i) (disk_ok mv)"
      by (rule hoare_ret_const)
    show "hoare (pre mv k n p i b) (bind_io (collect_active env (message_ids it) []) (\<lambda>active.
        bind_io (ask (\<lambda>n. e_folder env n mb)) (\<lambda>target. move_locations env p i target ls active)))
      (\<lambda>_. pre mv k n p i b) (err mv k n i) (disk_ok mv)"
    proof (rule pre_bind [OF pre_frame.keeps_collect_active])
      fix active
      show "hoare (pre mv k n p i b) (bind_io (ask (\<lambda>n. e_folder env n mb))
          (\<lambda>target. move_locations env p i target ls active)) (\<lambda>_. pre mv k n p i b) (err mv k n i) (disk_ok mv)"
      proof (rule hoare_bind [where R = "\<lambda>t w. pre mv k n p i b w \<and> (\<exists>m. e_folder env m mb = Reply t)"])
        have t: "pre mv k n p i b w \<Longrightarrow> pre mv k n p i b (tick w)" for w
          by (rule pre_frame.frame [rotated]) (simp_all add: same_core_def)
        show "hoare (pre mv k n p i b) (ask (\<lambda>n. e_folder env n mb))
            (\<lambda>t w. pre mv k n p i b w \<and> (\<exists>m. e_folder env m mb = Reply t)) (err mv k n i) (disk_ok mv)"
          by (rule hoare_ask) (use t in \<open>blast intro: pre_err pre_disk_ok\<close>)+
        fix t
        show "hoare (\<lambda>w. pre mv k n p i b w \<and> (\<exists>m. e_folder env m mb = Reply t))
            (move_locations env p i t ls active) (\<lambda>_. pre mv k n p i b) (err mv k n i) (disk_ok mv)"
        proof (cases "\<exists>m. e_folder env m mb = Reply t")
          case True
          then have "mv \<Longrightarrow> b \<or> (\<forall>l \<in> set ls. loc_mailbox_name l = t)"
            using assms(1) by (fastforce simp: stable_folders_def)
          then show ?thesis using True by (simp add: move_locations_pre)
        qed (simp add: hoare_def)
      qed
    qed
  qed

lemma append_messages_pre:
  assumes "i < n" "marked \<longrightarrow> b"
  shows "hoare (pre mv k n p i b) (append_messages env p i s folder mids marked appended)
    (\<lambda>_. pre mv k n p i False) (err mv k n i) (disk_ok mv)"
  using assms(2)
proof (induction mids arbitrary: marked appended b)
  case Nil
  show ?case by (simp add: hoare_def ret_def pre_relax)
next
  case (Cons mid mids)
  have persist: "hoare (pre mv k n p i b) (when_io (\<not> marked) (persist_remote_outcome_unknown env i s))
      (\<lambda>_. pre mv k n p i True) (err mv k n i) (disk_ok mv)"
    using Cons.prems persist_unknown_pre [OF assms(1), of mv k p b env s]
    by (cases marked) (auto simp: when_io_def hoare_def ret_def pre_def)
  have call: "hoare (pre mv k n p i True)
      (match_io (call p i (CallAppend folder raw False) (\<lambda>_. True) (\<lambda>n. e_append env n folder raw False))
        ret (\<lambda>e. fail (if appended then rejection_after_applied_effect e else e)))
      (\<lambda>_. pre mv k n p i True) (err mv k n i) (disk_ok mv)" for raw
  proof (rule hoare_match [where R = "\<lambda>_. pre mv k n p i True" and H = "\<lambda>_. pre mv k n p i True"])
    have "hoare (pre mv k n p i True) (call p i (CallAppend folder raw False) (\<lambda>_. True)
       (\<lambda>n. e_append env n folder raw False)) (\<lambda>_. pre mv k n p i True) (\<lambda>_. pre mv k n p i True) (pre mv k n p i True)"
      by (rule call_other_keeps) auto
    then show "hoare (pre mv k n p i True) (call p i (CallAppend folder raw False) (\<lambda>_. True)
       (\<lambda>n. e_append env n folder raw False)) (\<lambda>_. pre mv k n p i True) (\<lambda>_. pre mv k n p i True) (disk_ok mv)"
      by (rule hoare_weaken) (auto intro: pre_disk_ok)
  qed (auto intro: hoare_ret_const pre_fail)
  show ?case
    unfolding append_messages.simps
    by (rule pre_bind [OF keeps_gets], rule pre_bind)
       (auto intro!: hoare_rules pre_frame.keeps_ask_res hoare_then [OF persist] hoare_then [OF call] Cons.IH)
qed

lemma pre_relax_post:
  "hoare P m (\<lambda>_. pre mv k n p i b) E C \<Longrightarrow> hoare P m (\<lambda>_. pre mv k n p i False) E C"
  by (erule hoare_weaken) (auto intro: pre_relax)

lemma ask_known:
  "hoare (pre mv k n p i b) (ask rep) (\<lambda>a w. pre mv k n p i b w \<and> (\<exists>m. rep m = Reply a))
     (err mv k n i) (disk_ok mv)"
proof (rule hoare_ask)
  fix w assume "pre mv k n p i b w"
  then have t: "pre mv k n p i b (tick w)"
    by (rule pre_frame.frame [rotated]) (simp add: same_core_def)
  then show "pre mv k n p i b (tick w) \<and> (\<exists>m. rep m = Reply a)" if "rep (w_tick w) = Reply a" for a
    using that by auto
  show "err mv k n i e (tick w)" "disk_ok mv (tick w)" for e
    using pre_err [OF t] pre_disk_ok [OF t] by auto
qed

lemma hoare_known:
  assumes "\<And>m. rep m = Reply a \<Longrightarrow> hoare P f Q E C"
  shows "hoare (\<lambda>w. P w \<and> (\<exists>m. rep m = Reply a)) f Q E C"
proof (cases "\<exists>m. rep m = Reply a")
  case True
  then obtain m where "rep m = Reply a" by blast
  from assms [OF this] show ?thesis by (rule hoare_pre) simp
qed (simp add: hoare_def)

lemma pre_seq:
  assumes "hoare (pre mv k n p i b) m (\<lambda>_. pre mv k n p i b) E C" "hoare (pre mv k n p i b) f Q E C"
  shows "hoare (pre mv k n p i b) (then_io m f) Q E C"
  using assms by (rule hoare_then)

lemma move_part_pre:
  assumes "i < n" "mv \<Longrightarrow> stable_folders env" "pi_push_id it = p"
  shows "hoare (pre mv k n p i False)
    (bind_io (action_locations env it s) (\<lambda>ls. bind_io (ask (\<lambda>n. e_folder env n mb)) (\<lambda>target.
       then_io (when_io (list_ex (\<lambda>l. loc_mailbox_name l \<noteq> target) ls) (persist_remote_outcome_unknown env i s))
         (execute_move env i it ls mb))))
    (\<lambda>_. pre mv k n p i False) (err mv k n i) (disk_ok mv)"
proof (rule pre_bind [OF pre_frame.keeps_action_locations], rule hoare_bind [OF ask_known], rule hoare_known)
  fix ls :: "push_location list" and target m assume m: "e_folder env m mb = Reply target"
  let ?b = "list_ex (\<lambda>l. loc_mailbox_name l \<noteq> target) ls"
  have "hoare (pre mv k n p i False) (when_io ?b (persist_remote_outcome_unknown env i s))
      (\<lambda>_. pre mv k n p i ?b) (err mv k n i) (disk_ok mv)"
    using persist_unknown_pre [OF assms(1)] by (cases ?b) (auto simp: when_io_def hoare_ret_const)
  moreover have "hoare (pre mv k n p i ?b) (execute_move env i it ls mb) (\<lambda>_. pre mv k n p i False)
      (err mv k n i) (disk_ok mv)"
  proof (rule pre_relax_post, rule execute_move_pre)
    assume mv
    then show "?b \<or> (stable_folders env \<and> (\<exists>m t. e_folder env m mb = Reply t \<and> (\<forall>l \<in> set ls. loc_mailbox_name l = t)))"
      using m assms(2) by (auto simp: list_ex_iff)
  qed (rule assms(3))
  ultimately show "hoare (pre mv k n p i False)
      (then_io (when_io ?b (persist_remote_outcome_unknown env i s)) (execute_move env i it ls mb))
      (\<lambda>_. pre mv k n p i False) (err mv k n i) (disk_ok mv)"
    by (rule hoare_then)
qed

lemma execute_message_step_pre:
  assumes "i < n" "mv \<Longrightarrow> stable_folders env"
  shows "hoare (pre mv k n p i False) (execute_message_step env i s) (\<lambda>_. pre mv k n p i False)
    (err mv k n i) (disk_ok mv)"
  unfolding execute_message_step_def
proof (rule hoare_gets_bind)
  fix it
  let ?C = "then_io (when_io (as_add_flags s \<noteq> []) (bind_io (action_locations env it s) (\<lambda>ls.
       execute_add_flags env (pi_push_id it) i ls (as_add_flags s))))
     (then_io (case as_move_to_mailbox_id s of None \<Rightarrow> ret ()
       | Some mailbox_id \<Rightarrow> bind_io (action_locations env it s) (\<lambda>ls.
           bind_io (ask (\<lambda>n. e_folder env n mailbox_id)) (\<lambda>target.
           then_io (when_io (list_ex (\<lambda>l. loc_mailbox_name l \<noteq> target) ls)
             (persist_remote_outcome_unknown env i s))
           (execute_move env i it ls mailbox_id))))
     (then_io (case as_append_to_mailbox_id s of None \<Rightarrow> ret ()
       | Some mailbox_id \<Rightarrow> bind_io (ask (\<lambda>n. e_folder env n mailbox_id)) (\<lambda>folder.
           append_messages env (pi_push_id it) i s folder (message_ids it) False False))
     (when_io (is_send s) (fail (err_push_item_invalid
        ''send operations are only valid for outbound push items'')))))"
  show "hoare (\<lambda>w. pre mv k n p i False w \<and> w_item w = it) ?C (\<lambda>_. pre mv k n p i False)
      (err mv k n i) (disk_ok mv)"
  proof (cases "pi_push_id it = p")
    case False
    then show ?thesis by (auto simp: hoare_def pre_def)
  next
    case p: True
    have "hoare (pre mv k n p i False) ?C (\<lambda>_. pre mv k n p i False) (err mv k n i) (disk_ok mv)"
      unfolding p
    proof (rule pre_seq, intro pre_when pre_bind pre_frame.keeps_action_locations add_flags_pre,
        rule pre_seq, rule hoare_case_option', rule hoare_ret_const, rule move_part_pre,
        goal_cases)
      case 4
      show ?case
        by (intro pre_seq pre_when pre_bind pre_frame.keeps_ask hoare_case_option' hoare_ret_const
            append_messages_pre pre_fail assms) simp
    qed (use assms p in auto)
    then show ?thesis by (rule hoare_pre) simp
  qed
qed

section \<open>The effects of an outbound step\<close>

lemma pre_ready: "pre mv k n p i b w \<Longrightarrow> ready mv k n w"
  by (simp add: pre_def)

lemma pre_to_ready: "hoare P m (\<lambda>_. pre mv k n p i b) E C \<Longrightarrow> hoare P m (\<lambda>_. ready mv k n) E C"
  by (erule hoare_weaken) (auto intro: pre_ready)

lemma pre_gets_id:
  assumes "hoare (pre mv k n p i b) (f p) Q E C"
  shows "hoare (pre mv k n p i b) (bind_io (gets (\<lambda>w. pi_push_id (w_item w))) f) Q E C"
proof (rule hoare_gets_bind)
  fix a
  show "hoare (\<lambda>w. pre mv k n p i b w \<and> pi_push_id (w_item w) = a) (f a) Q E C"
    by (cases "a = p") (use assms in \<open>auto simp: hoare_def pre_def\<close>)
qed

lemma file_send_pre:
  assumes "i < n"
  shows "hoare (pre mv KDraft n p i False) (outbound_file_send env i s prepared)
    (\<lambda>_. ready mv KDraft n) (err mv KDraft n i) (disk_ok mv)"
  unfolding outbound_file_send_def
  by (cases "po_delivery prepared")
    (auto intro!: pre_fail pre_then [OF pre_frame.keeps_ask] hoare_then [OF persist_unknown_pre [OF assms]]
      pre_gets_id hoare_weaken [OF call_send])

lemma smtp_send_pre:
  assumes "i < n"
  shows "hoare (pre mv KDraft n p i False) (outbound_smtp_send env i s prepared)
    (\<lambda>_. ready mv KDraft n) (err mv KDraft n i) (disk_ok mv)"
  unfolding outbound_smtp_send_def
  by (intro pre_then [OF keeps_of_res] pre_bind [OF keeps_of_res] pre_then [OF pre_frame.keeps_ask]
      hoare_then [OF persist_unknown_pre [OF assms]] pre_gets_id hoare_weaken [OF call_send]) auto

lemma append_pre:
  assumes "i < n"
  shows "hoare (pre mv k n p i False) (outbound_append env cfg i s prepared mb)
    (\<lambda>_. ready mv k n) (err mv k n i) (disk_ok mv)"
  unfolding outbound_append_def
  by (intro pre_bind [OF pre_frame.keeps_ask] hoare_then [OF persist_unknown_pre [OF assms]] pre_gets_id
      pre_to_ready [OF call_other]) auto

lemma step_has_same_status:
  assumes "wf_steps it" "\<And>st. ss_index (f st) = ss_index st" "\<And>st. ss_status (f st) = ss_status st"
  shows "step_has (update_step i f it) j st = step_has it j st"
proof -
  define g where "g = (\<lambda>x. if ss_index x = i then f x else x)"
  have "set (pi_step_states (update_step i f it)) = g ` set (pi_step_states it)"
    unfolding states_update_step g_def
    by (rule set_update_first) (use assms wf_distinct [OF assms(1)] in simp_all)
  moreover have "ss_index (g x) = ss_index x" "ss_status (g x) = ss_status x" for x
    using assms by (simp_all add: g_def)
  ultimately show ?thesis by (simp add: step_has_def)
qed

lemma cloudflare_send_pre:
  assumes i: "i < n"
  shows "hoare (pre mv KDraft n p i False) (outbound_cloudflare_send env i s prepared)
    (\<lambda>_. ready mv KDraft n) (err mv KDraft n i) (disk_ok mv)"
proof -
  define R where "R = (\<lambda>a w. ready mv KDraft n w \<and> (a \<or> unsent i w))"
  define set_receipt where "set_receipt = (\<lambda>r. update_step i (\<lambda>st. st\<lparr>ss_send_receipt := Some r\<rparr>))"
  have upd: "hoare (R a) (upd_item (set_receipt r)) (\<lambda>_. R a) E C" for a r E C
  proof (rule hoare_pre [OF hoare_upd_item])
    fix w assume w: "R a w"
    then have wf: "wf_steps (w_item w)" by (auto simp: R_def dest: ready_wf)
    have "ready mv KDraft n (w\<lparr>w_item := set_receipt r (w_item w)\<rparr>)"
      by (rule ready_update)
        (use w wf in \<open>auto simp: R_def set_receipt_def step_done_def step_has_same_status\<close>)
    then show "R a (w\<lparr>w_item := set_receipt r (w_item w)\<rparr>)"
      using w by (simp add: R_def set_receipt_def unsent_update)
  qed
  have tail: "hoare (R (receipt_accepted r)) (bind_io (gets (\<lambda>w. has_step (w_item w) i)) (\<lambda>present.
      if \<not> present then fail (err_push_item_invalid ''send step state is missing'')
      else then_io (upd_item (set_receipt r)) (if receipt_accepted r then ret () else fail err_no_recipients)))
      (\<lambda>_. ready mv KDraft n) (err mv KDraft n i) (disk_ok mv)" for r
  proof (rule hoare_gets_bind)
    fix present
    have "hoare (R (receipt_accepted r)) (then_io (upd_item (set_receipt r))
        (if receipt_accepted r then ret () else fail err_no_recipients))
        (\<lambda>_. ready mv KDraft n) (err mv KDraft n i) (disk_ok mv)"
      by (rule hoare_then [OF upd])
        (auto simp: hoare_def R_def ret_def fail_def err_def uncertain_def)
    then show "hoare (\<lambda>w. R (receipt_accepted r) w \<and> has_step (w_item w) i = present)
        (if \<not> present then fail (err_push_item_invalid ''send step state is missing'')
         else then_io (upd_item (set_receipt r)) (if receipt_accepted r then ret () else fail err_no_recipients))
        (\<lambda>_. ready mv KDraft n) (err mv KDraft n i) (disk_ok mv)"
      using i by (cases present) (auto simp: R_def ready_def hoare_def)
  qed
  have call: "hoare (pre mv KDraft n p i True)
      (call p i (CallCloudflare prepared) receipt_accepted (\<lambda>n. e_send_cloudflare env n prepared))
      (\<lambda>r. R (receipt_accepted r)) (err mv KDraft n i) (disk_ok mv)"
    by (rule hoare_weaken [OF call_send]) (auto simp: R_def)
  show ?thesis
    unfolding outbound_cloudflare_send_def
    by (intro pre_then [OF pre_frame.keeps_ask] hoare_then [OF persist_unknown_pre [OF i]] pre_gets_id
        hoare_bind [OF call tail [unfolded set_receipt_def]])
qed

lemma then_ret [simp]: "then_io (ret ()) m = m" "then_io m (ret ()) = (m :: ('s, unit) io)"
  by (auto simp: io_defs fun_eq_iff split: prod.splits outcome.splits)

lemma when_io_simps [simp]: "when_io False m = ret ()" "when_io True m = m"
  by (simp_all add: when_io_def)

lemma op_count_cases:
  assumes "op_count s = 1"
  obtains
    (flags) "as_add_flags s \<noteq> []" "as_move_to_mailbox_id s = None" "as_append_to_mailbox_id s = None"
      "as_smtp_send s = None" "as_cloudflare_send s = None" "as_file_send s = None"
  | (move) mb where "as_add_flags s = []" "as_move_to_mailbox_id s = Some mb" "as_append_to_mailbox_id s = None"
      "as_smtp_send s = None" "as_cloudflare_send s = None" "as_file_send s = None"
  | (append) mb where "as_add_flags s = []" "as_move_to_mailbox_id s = None" "as_append_to_mailbox_id s = Some mb"
      "as_smtp_send s = None" "as_cloudflare_send s = None" "as_file_send s = None"
  | (smtp) "as_add_flags s = []" "as_move_to_mailbox_id s = None" "as_append_to_mailbox_id s = None"
      "as_smtp_send s \<noteq> None" "as_cloudflare_send s = None" "as_file_send s = None"
  | (cloudflare) "as_add_flags s = []" "as_move_to_mailbox_id s = None" "as_append_to_mailbox_id s = None"
      "as_smtp_send s = None" "as_cloudflare_send s \<noteq> None" "as_file_send s = None"
  | (publish) "as_add_flags s = []" "as_move_to_mailbox_id s = None" "as_append_to_mailbox_id s = None"
      "as_smtp_send s = None" "as_cloudflare_send s = None" "as_file_send s \<noteq> None"
  using assms by (auto simp: op_count_def split: if_splits)

lemma execute_outbound_step_pre:
  assumes i: "i < n" and mv: "mv \<Longrightarrow> stable_folders env" and one: "op_count s = 1"
  shows "hoare (pre mv KDraft n p i False) (execute_outbound_step env cfg i s)
    (\<lambda>_. ready mv KDraft n) (err mv KDraft n i) (disk_ok mv)"
  unfolding execute_outbound_step_def
proof (rule hoare_gets_bind)
  fix it
  let ?op = "\<lambda>prepared. then_io (when_io (as_file_send s \<noteq> None) (outbound_file_send env i s prepared))
       (then_io (when_io (as_cloudflare_send s \<noteq> None) (outbound_cloudflare_send env i s prepared))
       (then_io (when_io (as_smtp_send s \<noteq> None) (outbound_smtp_send env i s prepared))
       (then_io (case as_append_to_mailbox_id s of None \<Rightarrow> ret ()
         | Some mailbox_id \<Rightarrow> outbound_append env cfg i s prepared mailbox_id)
       (then_io (when_io (as_add_flags s \<noteq> []) (bind_io (action_locations env it s) (\<lambda>ls.
         execute_add_flags env (pi_push_id it) i ls (as_add_flags s))))
       (when_io (as_move_to_mailbox_id s \<noteq> None) (execute_message_step env i s))))))"
  let ?C = "if pi_planned_outbound it = None then fail err_not_outbound
     else bind_io (prepare_current_outbound env it) ?op"
  show "hoare (\<lambda>w. pre mv KDraft n p i False w \<and> w_item w = it) ?C (\<lambda>_. ready mv KDraft n)
      (err mv KDraft n i) (disk_ok mv)"
  proof (cases "pi_push_id it = p")
    case False
    then show ?thesis by (auto simp: hoare_def pre_def)
  next
    case p: True
    have op: "hoare (pre mv KDraft n p i False) (?op prepared) (\<lambda>_. ready mv KDraft n)
        (err mv KDraft n i) (disk_ok mv)" for prepared
      using one
    proof (cases rule: op_count_cases)
      case flags
      then show ?thesis
        by (simp add: p) (intro pre_to_ready [where p = p and i = i and b = False]
            pre_bind pre_frame.keeps_action_locations add_flags_pre)
    next
      case move
      then show ?thesis by (simp add: pre_to_ready [OF execute_message_step_pre [OF i mv]])
    qed (simp_all add: append_pre smtp_send_pre cloudflare_send_pre file_send_pre i)
    have "hoare (pre mv KDraft n p i False) ?C (\<lambda>_. ready mv KDraft n) (err mv KDraft n i) (disk_ok mv)"
      by (intro hoare_if pre_fail pre_bind pre_frame.keeps_prepare op)
    then show ?thesis by (rule hoare_pre) simp
  qed
qed

end
