(* ===== verification/Plan_Facts.thy ===== *)
theory Plan_Facts
  imports Frames "HOL-Library.Multiset"
begin

text \<open>
  What planning gives: the steps selected for a draft are a function of the draft, the dependency
  order is a permutation that respects the dependencies, and a planned item keeps the identity
  and the recorded progress of the queued one.
\<close>

section \<open>The steps selected for a draft\<close>

lemma io_ret_bind: "bind_io (ret a) f = f a"
  by (simp add: io_defs)

lemma hoare_and_pure: "(b \<Longrightarrow> hoare P m Q E C) \<Longrightarrow> hoare (\<lambda>s. P s \<and> b) m Q E C"
  by (cases b) (auto simp: hoare_def)

abbreviation drafts_are :: "((string \<times> string) \<times> draft_fields res) list \<Rightarrow> world \<Rightarrow> bool" where
  "drafts_are D \<equiv> \<lambda>w. w_drafts w = D"

abbreviation any_err :: "app_error \<Rightarrow> world \<Rightarrow> bool" where
  "any_err \<equiv> \<lambda>_ _. True"

definition parsed_draft ::
  "((string \<times> string) \<times> draft_fields res) list \<Rightarrow> string \<Rightarrow> string \<Rightarrow> draft_fields option" where
  "parsed_draft D c d = (case map_of D (c, d) of Some (Inr f) \<Rightarrow> Some f | _ \<Rightarrow> None)"

definition without_reply_steps :: "action_step list \<Rightarrow> action_step list" where
  "without_reply_steps steps = filter (\<lambda>s. as_on s \<noteq> Some ReplyToMessage) steps"

definition selected_steps ::
  "((string \<times> string) \<times> draft_fields res) list \<Rightarrow> push_item \<Rightarrow> action_step list \<Rightarrow> action_step list" where
  "selected_steps D it steps = (case pi_planned_outbound it of
     None \<Rightarrow> without_reply_steps steps
   | Some ob \<Rightarrow> (case parsed_draft D (ob_case_uid ob) (ob_draft_name ob) of
       None \<Rightarrow> steps
     | Some f \<Rightarrow> if df_reply_route f \<noteq> None then [step_file_send]
         else if df_send_intent f = Some ''new'' \<or> df_reply_to_message_id f = None
           then without_reply_steps steps else steps))"

lemma drafts_disk: "(\<And>w. w_drafts (f w) = w_drafts w) \<Longrightarrow>
    hoare (drafts_are D) (disk env c f) (\<lambda>_. drafts_are D) any_err (\<lambda>_. True)"
  by (rule hoare_disk) simp_all

lemma drafts_read: "hoare (drafts_are D) (disk_read env c) (\<lambda>_. drafts_are D) any_err (\<lambda>_. True)"
  unfolding disk_read_def by (rule drafts_disk) simp

lemma drafts_find_case: "hoare (drafts_are D) (find_case_path env c) (\<lambda>_. drafts_are D) any_err (\<lambda>_. True)"
  unfolding find_case_path_def
  by (rule hoare_then [OF drafts_read]) (auto simp: hoare_def io_defs)

lemma draft_frontmatter_spec:
  "hoare (drafts_are D) (draft_frontmatter env c d)
    (\<lambda>r w. drafts_are D w \<and> r = parsed_draft D c d) any_err (\<lambda>_. True)"
  unfolding draft_frontmatter_def
proof (rule hoare_then [OF drafts_find_case], rule hoare_gets_bind)
  fix m
  show "hoare (\<lambda>w. drafts_are D w \<and> map_of (w_drafts w) (c, d) = m)
      (case m of None \<Rightarrow> ret None
       | Some r \<Rightarrow> then_io (disk_read env ''read draft'') (bind_io (of_res r) (\<lambda>fm. ret (Some fm))))
      (\<lambda>r w. drafts_are D w \<and> r = parsed_draft D c d) any_err (\<lambda>_. True)"
  proof (cases m)
    case None
    then show ?thesis by (auto simp: hoare_def ret_def parsed_draft_def)
  next
    case (Some r)
    have "hoare (drafts_are D) (bind_io (of_res r) (\<lambda>fm. ret (Some fm)))
        (\<lambda>x w. drafts_are D w \<and> (map_of D (c, d) = m \<longrightarrow> x = parsed_draft D c d)) any_err (\<lambda>_. True)"
      using Some by (cases r) (auto simp: hoare_def io_defs parsed_draft_def)
    then have "hoare (drafts_are D) (then_io (disk_read env ''read draft'') (bind_io (of_res r) (\<lambda>fm. ret (Some fm))))
        (\<lambda>x w. drafts_are D w \<and> (map_of D (c, d) = m \<longrightarrow> x = parsed_draft D c d)) any_err (\<lambda>_. True)"
      by (rule hoare_then [OF drafts_read])
    then show ?thesis
      using Some by (cases "map_of D (c, d) = m") (auto simp: hoare_def)
  qed
qed

lemma without_reply_id: "\<not> list_ex (\<lambda>s. as_on s = Some ReplyToMessage) steps \<Longrightarrow> without_reply_steps steps = steps"
  by (auto simp: without_reply_steps_def list_ex_iff filter_id_conv)

lemma skip_spec:
  "hoare (drafts_are D) (should_skip_reply_to_steps env it)
    (\<lambda>skip w. drafts_are D w \<and> (case pi_planned_outbound it of None \<Rightarrow> skip
       | Some ob \<Rightarrow> (\<exists>f. parsed_draft D (ob_case_uid ob) (ob_draft_name ob) = Some f
           \<and> skip = (df_send_intent f = Some ''new'' \<or> df_reply_to_message_id f = None)))) any_err (\<lambda>_. True)"
proof (cases "pi_planned_outbound it")
  case None
  then show ?thesis by (simp add: should_skip_reply_to_steps_def hoare_def ret_def)
next
  case (Some ob)
  show ?thesis
    unfolding should_skip_reply_to_steps_def using Some
    by simp (rule hoare_bind [OF draft_frontmatter_spec], auto simp: hoare_def ret_def fail_def split: option.splits)
qed

lemma filter_steps_spec:
  "hoare (drafts_are D) (filter_reply_to_steps env it steps)
    (\<lambda>r w. drafts_are D w \<and> r = selected_steps D it steps) any_err (\<lambda>_. True)"
  unfolding filter_reply_to_steps_def
proof (rule hoare_bind [where R = "\<lambda>route w. drafts_are D w \<and> (case pi_planned_outbound it of None \<Rightarrow> route = None
    | Some ob \<Rightarrow> route = (case parsed_draft D (ob_case_uid ob) (ob_draft_name ob) of None \<Rightarrow> None
        | Some f \<Rightarrow> if df_reply_route f \<noteq> None then Some (ob_action ob) else None))"])
  show "hoare (drafts_are D) (case pi_planned_outbound it of None \<Rightarrow> ret None
       | Some ob \<Rightarrow> bind_io (draft_frontmatter env (ob_case_uid ob) (ob_draft_name ob)) (\<lambda>fm.
           ret (case fm of None \<Rightarrow> None
             | Some f \<Rightarrow> if df_reply_route f \<noteq> None then Some (ob_action ob) else None)))
     (\<lambda>route w. drafts_are D w \<and> (case pi_planned_outbound it of None \<Rightarrow> route = None
    | Some ob \<Rightarrow> route = (case parsed_draft D (ob_case_uid ob) (ob_draft_name ob) of None \<Rightarrow> None
        | Some f \<Rightarrow> if df_reply_route f \<noteq> None then Some (ob_action ob) else None))) any_err (\<lambda>_. True)"
  proof (cases "pi_planned_outbound it")
    case (Some ob)
    then show ?thesis
      by simp (rule hoare_bind [OF draft_frontmatter_spec], auto simp: hoare_def ret_def)
  qed (simp add: hoare_def ret_def)
next
  fix route
  let ?R = "\<lambda>w. drafts_are D w \<and> (case pi_planned_outbound it of None \<Rightarrow> route = None
    | Some ob \<Rightarrow> route = (case parsed_draft D (ob_case_uid ob) (ob_draft_name ob) of None \<Rightarrow> None
        | Some f \<Rightarrow> if df_reply_route f \<noteq> None then Some (ob_action ob) else None))"
  have skip: "hoare ?R (bind_io (should_skip_reply_to_steps env it) (\<lambda>skip.
           ret (if skip then filter (\<lambda>s. as_on s \<noteq> Some ReplyToMessage) steps else steps)))
      (\<lambda>r w. drafts_are D w \<and> r = selected_steps D it steps) any_err (\<lambda>_. True)" if "route = None"
  proof (rule hoare_and_pure)
    assume route: "case pi_planned_outbound it of None \<Rightarrow> route = None
      | Some ob \<Rightarrow> route = (case parsed_draft D (ob_case_uid ob) (ob_draft_name ob) of None \<Rightarrow> None
          | Some f \<Rightarrow> if df_reply_route f \<noteq> None then Some (ob_action ob) else None)"
    show "hoare (drafts_are D) (bind_io (should_skip_reply_to_steps env it) (\<lambda>skip.
           ret (if skip then filter (\<lambda>s. as_on s \<noteq> Some ReplyToMessage) steps else steps)))
      (\<lambda>r w. drafts_are D w \<and> r = selected_steps D it steps) any_err (\<lambda>_. True)"
      by (rule hoare_bind [OF skip_spec])
        (use route that in \<open>auto simp: hoare_def ret_def selected_steps_def without_reply_steps_def split: option.splits if_splits\<close>)
  qed
  show "hoare ?R (case route of
       Some a \<Rightarrow> if a \<noteq> Send then fail err_file_no_drafts else ret [step_file_send]
     | None \<Rightarrow>
         if list_ex (\<lambda>s. as_file_send s \<noteq> None) steps then fail err_file_send_email
         else if \<not> list_ex (\<lambda>s. as_on s = Some ReplyToMessage) steps then ret steps
         else bind_io (should_skip_reply_to_steps env it) (\<lambda>skip.
           ret (if skip then filter (\<lambda>s. as_on s \<noteq> Some ReplyToMessage) steps else steps)))
     (\<lambda>r w. drafts_are D w \<and> r = selected_steps D it steps) any_err (\<lambda>_. True)"
  proof (cases route)
    case None
    then show ?thesis
      using skip without_reply_id [of steps]
      by (auto simp: hoare_def ret_def fail_def selected_steps_def split: option.splits)
  next
    case (Some a)
    then show ?thesis
      by (auto simp: hoare_def ret_def fail_def selected_steps_def split: option.splits if_splits)
  qed
qed

lemma selected_steps_subset: "set (selected_steps D it steps) \<subseteq> insert step_file_send (set steps)"
  by (auto simp: selected_steps_def without_reply_steps_def split: option.splits)


section \<open>The dependency order\<close>

lemma mset_take_drop_nth:
  "n < length xs \<Longrightarrow> add_mset (xs ! n) (mset (take n xs @ drop (Suc n) xs)) = mset xs"
proof -
  assume n: "n < length xs"
  have "mset xs = mset (take n xs @ drop n xs)" by simp
  also have "drop n xs = xs ! n # drop (Suc n) xs" using n by (rule Cons_nth_drop_Suc [symmetric])
  finally show ?thesis by simp
qed

lemma mset_order: "mset (order_items_for_dependencies xs) = mset xs"
proof (induction xs rule: order_items_for_dependencies.induct)
  case (1 xs)
  show ?case
  proof (cases "xs = []")
    case True
    then show ?thesis by (simp add: order_items_for_dependencies.simps)
  next
    case False
    then have "mset (order_items_for_dependencies xs)
        = add_mset (xs ! next_item xs) (mset (take (next_item xs) xs @ drop (Suc (next_item xs)) xs))"
      using 1 [OF False refl] by (subst order_items_for_dependencies.simps) (simp add: Let_def)
    then show ?thesis using mset_take_drop_nth [OF next_item_bound [OF False]] by simp
  qed
qed

lemma set_order: "set (order_items_for_dependencies xs) = set xs"
  using mset_order [of xs] by (rule mset_eq_setD)

text \<open>An item has either an outbound plan or a message plan.\<close>

definition one_plan :: "push_item \<Rightarrow> bool" where
  "one_plan it \<longleftrightarrow> pi_planned_outbound it = None \<or> pi_planned_message_action it = None"

lemma must_run_before_plans:
  "item_must_run_before a b \<Longrightarrow> pi_planned_outbound a \<noteq> None \<and> pi_planned_message_action b \<noteq> None"
  by (auto simp: item_must_run_before_def split: option.splits)

lemma next_item_free:
  assumes "xs \<noteq> []" "\<forall>it \<in> set xs. one_plan it"
  shows "\<forall>a \<in> set xs. \<not> item_must_run_before a (xs ! next_item xs)"
proof -
  let ?P = "\<lambda>c. \<not> list_ex (\<lambda>it. item_must_run_before it c) xs"
  have "\<exists>c \<in> set xs. ?P c"
  proof (cases "\<exists>c \<in> set xs. pi_planned_outbound c \<noteq> None")
    case True
    then obtain c where c: "c \<in> set xs" "pi_planned_outbound c \<noteq> None" by blast
    with assms(2) have "?P c"
      by (auto simp: list_ex_iff one_plan_def dest: must_run_before_plans)
    with c show ?thesis by blast
  next
    case False
    then have "?P (hd xs)" by (auto simp: list_ex_iff dest: must_run_before_plans)
    with assms(1) show ?thesis by (meson list.set_sel(1))
  qed
  then obtain n where n: "position ?P xs = Some n"
    by (metis not_None_eq position_None)
  then have "?P (xs ! next_item xs)" using position_Some [OF n] by (simp add: next_item_def)
  then show ?thesis by (simp add: list_ex_iff)
qed

lemma order_dependencies:
  "\<forall>it \<in> set xs. one_plan it \<Longrightarrow>
   sorted_wrt (\<lambda>a b. \<not> item_must_run_before b a) (order_items_for_dependencies xs)"
proof (induction xs rule: order_items_for_dependencies.induct)
  case (1 xs)
  show ?case
  proof (cases "xs = []")
    case True
    then show ?thesis by (simp add: order_items_for_dependencies.simps)
  next
    case False
    let ?n = "next_item xs"
    let ?rest = "take ?n xs @ drop (Suc ?n) xs"
    have sub: "set ?rest \<subseteq> set xs" by (auto dest: in_set_takeD in_set_dropD)
    have "sorted_wrt (\<lambda>a b. \<not> item_must_run_before b a) (order_items_for_dependencies ?rest)"
      using 1(1) [OF False refl] "1.prems" sub by blast
    moreover have "\<forall>b \<in> set ?rest. \<not> item_must_run_before b (xs ! ?n)"
      using next_item_free [OF False "1.prems"] sub by blast
    ultimately show ?thesis
      using False by (subst order_items_for_dependencies.simps) (simp add: Let_def set_order)
  qed
qed

lemma order_id:
  "\<forall>a \<in> set xs. \<forall>b \<in> set xs. \<not> item_must_run_before a b \<Longrightarrow> order_items_for_dependencies xs = xs"
proof (induction xs)
  case Nil
  then show ?case by (simp add: order_items_for_dependencies.simps)
next
  case (Cons x xs)
  have "\<not> list_ex (\<lambda>it. item_must_run_before it x) (x # xs)"
    using Cons.prems by (auto simp: list_ex_iff)
  then have "next_item (x # xs) = 0" by (simp add: next_item_def)
  with Cons show ?case by (subst order_items_for_dependencies.simps) simp
qed

section \<open>What planning keeps of an item\<close>

text \<open>Progress is reset only for an item that has not started.\<close>

definition reset_of :: "push_item \<Rightarrow> push_item \<Rightarrow> bool" where
  "reset_of it it' \<longleftrightarrow> it' = it \<or> (\<not> has_started_effects it
     \<and> it' = it\<lparr>pi_step_states := [], pi_local_stage := None, pi_last_error := None\<rparr>)"

lemma hoare_true_bind:
  assumes "\<And>a. hoare (\<lambda>_. True) (f a) Q any_err (\<lambda>_. True)"
  shows "hoare (\<lambda>_. True) (bind_io m f) Q any_err (\<lambda>_. True)"
  by (rule hoare_bind [where R = "\<lambda>_ _. True"])
    (auto simp: hoare_def assms [unfolded hoare_def] split: prod.splits outcome.splits)

lemma hoare_true_then:
  assumes "hoare (\<lambda>_. True) n Q any_err (\<lambda>_. True)"
  shows "hoare (\<lambda>_. True) (then_io m n) Q any_err (\<lambda>_. True)"
  unfolding then_io_def using assms by (rule hoare_true_bind)

lemma reset_spec:
  "hoare (\<lambda>_. True) (reset_progress_if_plan_changed env cfg it) (\<lambda>it' _. reset_of it it') any_err (\<lambda>_. True)"
  unfolding reset_progress_if_plan_changed_def
  by (intro hoare_if hoare_true_bind) (auto simp: hoare_def ret_def fail_def reset_of_def)

text \<open>The part of an item that planning never changes, and the progress it keeps.\<close>

definition replanned :: "push_item \<Rightarrow> push_item \<Rightarrow> bool" where
  "replanned it it' \<longleftrightarrow> pi_push_id it' = pi_push_id it \<and> pi_enqueue_seq it' = pi_enqueue_seq it
     \<and> pi_payload it' = pi_payload it \<and> pi_created it' = pi_created it
     \<and> pi_attempt_count it' = pi_attempt_count it \<and> pi_audit_pending it' = pi_audit_pending it
     \<and> (pi_step_states it' = pi_step_states it \<and> pi_local_stage it' = pi_local_stage it
         \<or> \<not> has_started_effects it \<and> pi_step_states it' = [] \<and> pi_local_stage it' = None)
     \<and> one_plan it'
     \<and> (pi_audit_pending it = None \<longrightarrow> item_push_kind it = KDraft \<longrightarrow> pi_planned_message_action it' = None)"

text \<open>The item that is read from the queue directory.\<close>

definition unplanned :: "push_item \<Rightarrow> bool" where
  "unplanned it \<longleftrightarrow> pi_planned_outbound it = None \<and> pi_planned_message_action it = None"

lemma durable_unplanned: "durable it = it \<Longrightarrow> unplanned it"
  by (metis durable_sel(11,12) unplanned_def)

lemma has_started_planned [simp]:
  "has_started_effects (it\<lparr>pi_planned_outbound := a\<rparr>) = has_started_effects it"
  "has_started_effects (it\<lparr>pi_planned_message_action := b\<rparr>) = has_started_effects it"
  "has_started_effects (it\<lparr>pi_planned_outbound_message := c\<rparr>) = has_started_effects it"
  by (simp_all add: has_started_effects_def has_started_steps_def)

lemma plan_message_replanned:
  assumes "unplanned it" "pi_payload it = PMessage m"
  shows "hoare (\<lambda>_. True) (plan_message_item env cfg it m) (\<lambda>r _. replanned it (fst r)) any_err (\<lambda>_. True)"
proof -
  have k: "item_push_kind it = KMessage" using assms(2) by (simp add: item_push_kind_def)
  have base: "replanned it (it\<lparr>pi_planned_message_action := pl\<rparr>)" for pl
    using assms(1) k by (simp add: replanned_def unplanned_def one_plan_def)
  have tail: "hoare (\<lambda>_. True) (bind_io (reset_progress_if_plan_changed env cfg (it\<lparr>pi_planned_message_action := pl\<rparr>)) (\<lambda>it2.
       bind_io (planned_rfc822 env it2) (\<lambda>it3. ret (it3, True)))) (\<lambda>r _. replanned it (fst r)) any_err (\<lambda>_. True)" for pl
  proof (rule hoare_bind [OF reset_spec])
    fix it2
    show "hoare (\<lambda>_. reset_of (it\<lparr>pi_planned_message_action := pl\<rparr>) it2)
        (bind_io (planned_rfc822 env it2) (\<lambda>it3. ret (it3, True))) (\<lambda>r _. replanned it (fst r)) any_err (\<lambda>_. True)"
    proof (cases "reset_of (it\<lparr>pi_planned_message_action := pl\<rparr>) it2")
      case True
      then have r: "replanned it it2"
        using base [of pl] by (auto simp: reset_of_def replanned_def one_plan_def)
      have "hoare (\<lambda>_. True) (planned_rfc822 env it2) (\<lambda>it3 _. replanned it it3) any_err (\<lambda>_. True)"
        unfolding planned_rfc822_def
        by (intro hoare_case_option hoare_if hoare_true_bind)
          (use r in \<open>auto simp: hoare_def ret_def replanned_def one_plan_def\<close>)
      then show ?thesis
        by (intro hoare_pre [OF hoare_bind]) (auto simp: hoare_def ret_def)
    qed (simp add: hoare_def)
  qed
  show ?thesis
    unfolding plan_message_item_def Let_def
    by (intro hoare_true_bind hoare_if tail) (auto simp: hoare_def ret_def fail_def base)
qed


text \<open>
  What planning gives a draft that still has remote steps to run: each step has one operation
  and no recorded step lies past the planned ones.
\<close>

definition runnable :: "push_item \<Rightarrow> bool" where
  "runnable it \<longleftrightarrow> (pi_audit_pending it = None \<longrightarrow> item_push_kind it = KDraft \<longrightarrow> pi_local_stage it = None
     \<longrightarrow> (case pi_planned_outbound it of None \<Rightarrow> True
          | Some ob \<Rightarrow> length (pi_step_states it) \<le> length (ob_steps ob)
              \<and> (\<forall>s \<in> set (ob_steps ob). op_count s = 1)))"

definition single_op_config :: "mail_config \<Rightarrow> bool" where
  "single_op_config cfg \<longleftrightarrow>
     list_all (\<lambda>a. list_all (\<lambda>s. op_count s = 1) (configured_outbound_steps cfg a)) [SaveDraft, Send]"

lemma single_op_configD:
  "single_op_config cfg \<Longrightarrow> s \<in> set (configured_outbound_steps cfg a) \<Longrightarrow> op_count s = 1"
  by (cases a) (auto simp: single_op_config_def list_all_iff)

lemma op_count_file_send: "op_count step_file_send = 1"
  by code_simp

lemma selected_single_op:
  "single_op_config cfg \<Longrightarrow> s \<in> set (selected_steps D it (configured_outbound_steps cfg a)) \<Longrightarrow> op_count s = 1"
  using selected_steps_subset [of D it "configured_outbound_steps cfg a"]
  using op_count_file_send single_op_configD by blast

lemma actions_for_length:
  assumes "pi_planned_outbound it = Some ob" "pi_planned_message_action it = None"
    and "selected_steps D it (configured_outbound_steps cfg (ob_action ob)) = ob_steps ob"
  shows "hoare (drafts_are D) (actions_for env cfg it)
    (\<lambda>ls _. pi_local_stage it = None \<longrightarrow> length ls = length (ob_steps ob)) any_err (\<lambda>_. True)"
proof -
  have "hoare (drafts_are D) (bind_io (filter_reply_to_steps env it (configured_outbound_steps cfg (ob_action ob)))
      (\<lambda>steps. ret (map step_label steps)))
    (\<lambda>ls _. pi_local_stage it = None \<longrightarrow> length ls = length (ob_steps ob)) any_err (\<lambda>_. True)"
    by (rule hoare_bind [OF filter_steps_spec]) (simp add: hoare_def ret_def assms(3))
  then show ?thesis
    unfolding actions_for_def using assms(1,2) by (auto simp: hoare_def ret_def)
qed

lemma reset_fits:
  assumes "pi_planned_outbound it = Some ob" "pi_planned_message_action it = None"
    and "selected_steps D it (configured_outbound_steps cfg (ob_action ob)) = ob_steps ob"
  shows "hoare (drafts_are D) (reset_progress_if_plan_changed env cfg it)
    (\<lambda>it' _. reset_of it it' \<and> (pi_local_stage it' = None \<longrightarrow> length (pi_step_states it') \<le> length (ob_steps ob)))
    any_err (\<lambda>_. True)"
proof (cases "pi_step_states it = []")
  case True
  then show ?thesis by (simp add: reset_progress_if_plan_changed_def hoare_def ret_def reset_of_def)
next
  case False
  show ?thesis
    unfolding reset_progress_if_plan_changed_def if_not_P [OF False]
    by (rule hoare_bind [OF actions_for_length [OF assms]])
      (auto simp: hoare_def ret_def fail_def reset_of_def labels_compatible_def dest: arg_cong [where f = length])
qed

lemma plan_draft_replanned:
  assumes u: "unplanned it" and d: "pi_payload it = PDraft d" and cfg: "single_op_config cfg"
  shows "hoare (drafts_are D) (plan_draft_item env cfg it d)
    (\<lambda>r _. replanned it (fst r) \<and> runnable (fst r)) any_err (\<lambda>_. True)"
  unfolding plan_draft_item_def
proof (rule hoare_bind [OF draft_frontmatter_spec], rule hoare_and_pure)
  fix fm
  have same: "replanned it it \<and> runnable it"
    using u by (simp add: replanned_def runnable_def unplanned_def one_plan_def)
  have out: "replanned it (it\<lparr>pi_planned_outbound := Some ob\<rparr>)" for ob
    using u by (simp add: replanned_def unplanned_def one_plan_def)
  have staged: "runnable (it\<lparr>pi_planned_outbound := Some ob\<rparr>)" if "local_stage_at_least it DraftRemoved" for ob
    using that by (auto simp: runnable_def local_stage_at_least_def split: option.splits)
  let ?Q = "\<lambda>r _ :: world. replanned it (fst r) \<and> runnable (fst r)"
  have plan: "hoare (drafts_are D) (let a = action_of_intent intent; ob = outbound_of a d reply;
               it1 = it\<lparr>pi_planned_outbound := Some ob\<rparr> in
           bind_io (filter_reply_to_steps env it1 (configured_outbound_steps cfg a)) (\<lambda>steps.
           let it2 = it1\<lparr>pi_planned_outbound := Some (ob\<lparr>ob_steps := steps\<rparr>)\<rparr> in
           bind_io (reset_progress_if_plan_changed env cfg it2) (\<lambda>it3.
           bind_io (prepare_current_outbound env it3) (\<lambda>prepared.
           ret (it3\<lparr>pi_planned_outbound_message := Some prepared\<rparr>, True))))) ?Q any_err (\<lambda>_. True)"
    for intent reply
    unfolding Let_def
  proof (rule hoare_bind [OF filter_steps_spec], rule hoare_and_pure)
    fix steps
    let ?a = "action_of_intent intent"
    let ?ob = "(outbound_of ?a d reply)\<lparr>ob_steps := steps\<rparr>"
    let ?it2 = "it\<lparr>pi_planned_outbound := Some (outbound_of ?a d reply)\<rparr>\<lparr>pi_planned_outbound := Some ?ob\<rparr>"
    assume steps: "steps = selected_steps D (it\<lparr>pi_planned_outbound := Some (outbound_of ?a d reply)\<rparr>)
      (configured_outbound_steps cfg ?a)"
    have sel: "selected_steps D ?it2 (configured_outbound_steps cfg (ob_action ?ob)) = ob_steps ?ob"
      by (simp add: steps) (simp add: selected_steps_def outbound_of_def)
    have ops: "\<forall>s \<in> set steps. op_count s = 1" using steps selected_single_op [OF cfg] by blast
    show "hoare (drafts_are D) (bind_io (reset_progress_if_plan_changed env cfg ?it2) (\<lambda>it3.
           bind_io (prepare_current_outbound env it3) (\<lambda>prepared.
           ret (it3\<lparr>pi_planned_outbound_message := Some prepared\<rparr>, True)))) ?Q any_err (\<lambda>_. True)"
    proof (rule hoare_bind [OF reset_fits [where ob = ?ob, OF _ _ sel]])
      fix it3
      let ?F = "reset_of ?it2 it3 \<and> (pi_local_stage it3 = None \<longrightarrow> length (pi_step_states it3) \<le> length (ob_steps ?ob))"
      have ok: "replanned it (it3\<lparr>pi_planned_outbound_message := Some pr\<rparr>)
          \<and> runnable (it3\<lparr>pi_planned_outbound_message := Some pr\<rparr>)" if ?F for pr
        using that out [of ?ob] ops u d
        by (auto simp: reset_of_def replanned_def runnable_def one_plan_def unplanned_def)
      show "hoare (\<lambda>_. ?F) (bind_io (prepare_current_outbound env it3) (\<lambda>prepared.
           ret (it3\<lparr>pi_planned_outbound_message := Some prepared\<rparr>, True))) ?Q any_err (\<lambda>_. True)"
      proof (cases ?F)
        case True
        then show ?thesis
          by (intro hoare_pre [OF hoare_true_bind]) (auto simp: hoare_def ret_def ok)
      qed (auto simp: hoare_def)
    qed (use u in \<open>simp_all add: unplanned_def\<close>)
  qed
  show "hoare (drafts_are D) (case fm of
       None \<Rightarrow>
         if local_stage_at_least it DraftRemoved
         then ret (it\<lparr>pi_planned_outbound := Some (outbound_of Send d None)\<rparr>, True)
         else if \<not> has_started_effects it then ret (it, False)
         else fail (err_no_sync_intent (pi_push_id it))
     | Some f \<Rightarrow> (case df_sync_intent f of
         None \<Rightarrow> if \<not> has_started_effects it then ret (it, False)
           else fail (err_no_sync_intent (pi_push_id it))
       | Some intent \<Rightarrow> let a = action_of_intent intent; ob = outbound_of a d (df_reply_to_message_id f);
               it1 = it\<lparr>pi_planned_outbound := Some ob\<rparr> in
           bind_io (filter_reply_to_steps env it1 (configured_outbound_steps cfg a)) (\<lambda>steps.
           let it2 = it1\<lparr>pi_planned_outbound := Some (ob\<lparr>ob_steps := steps\<rparr>)\<rparr> in
           bind_io (reset_progress_if_plan_changed env cfg it2) (\<lambda>it3.
           bind_io (prepare_current_outbound env it3) (\<lambda>prepared.
           ret (it3\<lparr>pi_planned_outbound_message := Some prepared\<rparr>, True)))))) ?Q any_err (\<lambda>_. True)"
    by (intro hoare_case_option hoare_if plan)
      (simp_all add: hoare_def ret_def fail_def same out staged)
qed


lemma hydrate_replanned:
  assumes "unplanned it" "pi_audit_pending it \<noteq> None" "hydrate_audit_pending_plan it = Inr it'"
  shows "replanned it it' \<and> runnable it'"
  using assms
  by (auto simp: hydrate_audit_pending_plan_def unplanned_def replanned_def runnable_def one_plan_def bind_res_Inr_iff
      split: option.splits if_splits)

lemma plan_item_spec:
  assumes u: "unplanned it" and cfg: "single_op_config cfg"
  shows "hoare (\<lambda>_. True) (plan_item env cfg it) (\<lambda>r _. replanned it (fst r) \<and> runnable (fst r)) any_err (\<lambda>_. True)"
proof (cases "pi_audit_pending it = None")
  case False
  show ?thesis
    unfolding plan_item_def using False
    by (cases "hydrate_audit_pending_plan it")
      (auto simp: hoare_def io_defs dest: hydrate_replanned [OF u False])
next
  case None: True
  show ?thesis
  proof (cases "pi_payload it")
    case (PDraft d)
    have "hoare ((=) w) (plan_draft_item env cfg it d) (\<lambda>r _. replanned it (fst r) \<and> runnable (fst r)) any_err (\<lambda>_. True)" for w
      by (rule hoare_pre [OF plan_draft_replanned [where D = "w_drafts w", OF u PDraft cfg]]) simp
    then show ?thesis using None PDraft by (auto simp: plan_item_def intro: hoare_assume)
  next
    case (PMessage m)
    have "runnable it'" if "replanned it it'" for it'
      using that PMessage by (simp add: replanned_def runnable_def item_push_kind_def)
    then show ?thesis
      using None PMessage by (auto simp: plan_item_def intro: hoare_weaken [OF plan_message_replanned [OF u]])
  qed
qed

section \<open>The plan of the queue\<close>

lemma hoare_map_io:
  assumes "\<And>x. x \<in> set xs \<Longrightarrow> hoare (\<lambda>_. True) (f x) (\<lambda>y _. R x y) any_err (\<lambda>_. True)"
  shows "hoare (\<lambda>_. True) (map_io f xs) (\<lambda>ys _. list_all2 R xs ys) any_err (\<lambda>_. True)"
  using assms
proof (induction xs)
  case (Cons x xs)
  have "hoare (\<lambda>_. R x y) (bind_io (map_io f xs) (\<lambda>ys. ret (y # ys)))
      (\<lambda>ys _. list_all2 R (x # xs) ys) any_err (\<lambda>_. True)" for y
  proof (cases "R x y")
    case True
    have "hoare (\<lambda>_. True) (map_io f xs) (\<lambda>ys _. list_all2 R xs ys) any_err (\<lambda>_. True)"
      by (rule Cons.IH) (simp add: Cons.prems)
    then show ?thesis
      by (rule hoare_bind [OF hoare_pre]) (auto simp: hoare_def ret_def True)
  qed (simp add: hoare_def)
  then show ?case
    by (simp add: hoare_bind [OF Cons.prems])
qed (simp add: hoare_def ret_def)

text \<open>What a plan says of the queue it was built from.\<close>

definition plans_queue :: "(string \<times> push_item) list \<Rightarrow> resolved_push_plan \<Rightarrow> bool" where
  "plans_queue q plan \<longleftrightarrow>
     (\<exists>planned. list_all2 (\<lambda>it r. replanned it (fst r) \<and> runnable (fst r)) (sort_items (map snd q)) planned
       \<and> rp_items plan = order_items_for_dependencies (map fst (filter snd planned))
       \<and> rp_skipped_items plan = map fst (filter (\<lambda>p. \<not> snd p) planned))"

lemma set_insert_item: "set (insert_item x xs) = insert x (set xs)"
  by (induction xs) auto

lemma set_sort_items [simp]: "set (sort_items xs) = set xs"
  by (induction xs) (auto simp: sort_items_def set_insert_item)

definition queue_is :: "(string \<times> push_item) list \<Rightarrow> world \<Rightarrow> bool" where
  "queue_is q w \<longleftrightarrow> w_queue w = q"

interpretation queue_is: frame "queue_is q" for q
  by standard (simp add: same_core_def queue_is_def)

lemma keeps_done: "keeps I m \<Longrightarrow> hoare I m (\<lambda>_. I) any_err (\<lambda>_. True)"
  by (erule hoare_weaken) auto

lemma sorted_items_spec:
  "hoare (queue_is q) (sorted_items env) (\<lambda>items w. queue_is q w \<and> items = sort_items (map snd q)) any_err (\<lambda>_. True)"
  unfolding sorted_items_def read_items_def
  by (rule hoare_bind [where R = "\<lambda>r w. queue_is q w \<and> r = map snd q"],
      rule hoare_then [OF keeps_done [OF queue_is.keeps_read]])
    (auto simp: hoare_def ret_def gets_def queue_is_def)

lemma build_push_plan_spec:
  assumes cfg: "single_op_config cfg" and q: "\<forall>x \<in> set q. unplanned (snd x)"
  shows "hoare (queue_is q) (build_push_plan env ph cfg) (\<lambda>plan w. queue_is q w \<and> plans_queue q plan) any_err (\<lambda>_. True)"
  unfolding build_push_plan_def Let_def
proof (rule hoare_bind [OF keeps_done [OF queue_is.keeps_records]], rule hoare_bind [OF sorted_items_spec],
    rule hoare_and_pure)
  fix records queued
  assume queued: "queued = sort_items (map snd q)"
  let ?R = "\<lambda>it r. replanned it (fst r) \<and> runnable (fst r)"
  have "hoare (\<lambda>_. True) (plan_items env cfg records queued) (\<lambda>rs _. list_all2 ?R queued rs) any_err (\<lambda>_. True)"
    unfolding plan_items_def
    by (rule hoare_map_io, rule hoare_true_then, rule plan_item_spec) (use q queued cfg in auto)
  moreover have "keeps (queue_is q) (plan_items env cfg records queued)"
    unfolding plan_items_def by (intro hoare_rules queue_is.planning_ops)
  ultimately have plan: "hoare (queue_is q) (plan_items env cfg records queued)
      (\<lambda>rs w. queue_is q w \<and> list_all2 ?R queued rs) any_err (\<lambda>_. True)"
    by (fastforce simp: hoare_def split: prod.splits outcome.splits)
  show "hoare (queue_is q) (bind_io (plan_items env cfg records queued) (\<lambda>planned.
     bind_io (map_io (\<lambda>it. bind_io (of_res (ok_or (err_queue_snapshot (pi_push_id it))
         (map_of records (pi_push_id it)))) (push_plan_item_view env ph cfg it))
         (order_items_for_dependencies (map fst (filter snd planned)))) (\<lambda>views.
     ret \<lparr>rp_plan_id = ph_plan ph \<lparr>pd_config_effect_id = ph_config ph cfg, pd_queue_records = records, pd_items = views,
            pd_skipped = map (\<lambda>it. (pi_push_id it, the (map_of records (pi_push_id it))))
              (map fst (filter (\<lambda>p. \<not> snd p) planned))\<rparr>,
          rp_items = order_items_for_dependencies (map fst (filter snd planned)),
          rp_skipped_items = map fst (filter (\<lambda>p. \<not> snd p) planned),
          rp_digest = \<lparr>pd_config_effect_id = ph_config ph cfg, pd_queue_records = records, pd_items = views,
            pd_skipped = map (\<lambda>it. (pi_push_id it, the (map_of records (pi_push_id it))))
              (map fst (filter (\<lambda>p. \<not> snd p) planned))\<rparr>\<rparr>)))
     (\<lambda>plan w. queue_is q w \<and> plans_queue q plan) any_err (\<lambda>_. True)"
  proof (rule hoare_bind [OF plan], rule hoare_and_pure, rule hoare_bind [OF keeps_done])
    fix planned
    show "keeps (queue_is q) (map_io (\<lambda>it. bind_io (of_res (ok_or (err_queue_snapshot (pi_push_id it))
         (map_of records (pi_push_id it)))) (push_plan_item_view env ph cfg it))
         (order_items_for_dependencies (map fst (filter snd planned))))"
      by (intro hoare_rules queue_is.keeps_view)
  qed (auto simp: hoare_def ret_def plans_queue_def queued)
qed

end
