(* ===== verification/Push_Run.thy ===== *)
theory Push_Run
  imports Push_Execute
begin

text \<open>
  A push command (src/src/push_queue/mod.rs): local finalisation of an item whose remote steps
  succeeded, the audit of its completion, and the loop over the plan, which stops at the first
  failure.  The record of a sent message and the removal of its draft are those of
  src/src/store/drafts.rs and src/src/outbound.rs.
\<close>

section \<open>After the remote steps: record the message, remove the draft\<close>

definition err_message_id_conflict :: "string \<Rightarrow> app_error" where
  "err_message_id_conflict mid = app_error_new ''message_id_conflict''
     (''sent message id already belongs to different local content: '' @ mid)"

text \<open>The files \<open>.afmail/messages/*.eml\<close> of sent messages are \<open>w_sent\<close>.\<close>

definition mark_sent_and_append_case :: "env \<Rightarrow> string \<Rightarrow> string \<Rightarrow> string \<Rightarrow> unit cmd" where
  "mark_sent_and_append_case env case_uid mid raw =
     bind_io (ask_res (\<lambda>n. e_sent_message env n mid raw)) (\<lambda>msg.
     then_io (disk_read env ''create messages dir'')
     (bind_io (gets (\<lambda>w. map_of (w_sent w) mid)) (\<lambda>eml.
     then_io (case eml of
         Some existing \<Rightarrow> then_io (disk_read env ''read existing sent eml'')
           (if existing \<noteq> raw then fail (err_message_id_conflict mid) else ret ())
       | None \<Rightarrow> bind_io (gets (\<lambda>w. map_of (w_messages w) mid \<noteq> None)) (\<lambda>taken.
           if taken then fail (err_message_id_conflict mid)
           else disk env ''write sent eml'' (\<lambda>w. w\<lparr>w_sent := put mid raw (w_sent w)\<rparr>)))
     (then_io (put_message env mid msg) (then_io (put_message env mid msg)
       (disk_read env ''append sent message to case''))))))"

definition record_outbound_after_push :: "env \<Rightarrow> push_item \<Rightarrow> unit cmd" where
  "record_outbound_after_push env it = (case pi_planned_outbound it of
     None \<Rightarrow> ret ()
   | Some ob \<Rightarrow> then_io (find_case_path env (ob_case_uid ob))
       (if ob_action ob \<noteq> Send then ret ()
        else bind_io (case pi_planned_outbound_message it of
              Some prepared \<Rightarrow> ret prepared
            | None \<Rightarrow> ask_res (\<lambda>n. e_prepare env n (ob_case_uid ob) (ob_draft_name ob)
                (message_id_for_push (pi_push_id it)) (pi_created it))) (\<lambda>prepared.
          case po_delivery prepared of
            DeliverFile _ \<Rightarrow> disk env ''record sent message''
              (\<lambda>w. w\<lparr>w_sent := put (po_message_id prepared) (po_raw prepared) (w_sent w)\<rparr>)
          | DeliverEmail _ \<Rightarrow>
              mark_sent_and_append_case env (ob_case_uid ob) (po_message_id prepared) (po_raw prepared))))"

definition remove_outbound_draft_after_push :: "env \<Rightarrow> push_item \<Rightarrow> unit cmd" where
  "remove_outbound_draft_after_push env it = (case pi_planned_outbound it of
     None \<Rightarrow> ret ()
   | Some ob \<Rightarrow>
       let key = (ob_case_uid ob, ob_draft_name ob) in
       then_io (find_case_path env (ob_case_uid ob))
       (bind_io (gets (\<lambda>w. map_of (w_drafts w) key \<noteq> None)) (\<lambda>exists.
        then_io (when_io exists (disk env ''remove file'' (\<lambda>w. w\<lparr>w_drafts := remove key (w_drafts w)\<rparr>)))
        (then_io (disk_read env ''read draft state'')
        (then_io (disk env ''write json'' (\<lambda>w. w\<lparr>w_draft_state := filter (\<lambda>k. k \<noteq> key) (w_draft_state w)\<rparr>))
          (append_audit_event env (case ob_action ob of SaveDraft \<Rightarrow> ''draft_saved_remote'' | Send \<Rightarrow> ''draft_sent'')
             [(''case'', ob_case_uid ob)]))))))"

section \<open>Local stages\<close>

definition advance_local_stage :: "env \<Rightarrow> push_local_stage \<Rightarrow> unit cmd" where
  "advance_local_stage env stage = bind_io (gets (\<lambda>w. local_stage_at_least (w_item w) stage)) (\<lambda>reached.
     if reached then ret ()
     else bind_io (now env) (\<lambda>t.
       then_io (upd_item (\<lambda>it. it\<lparr>pi_local_stage := Some stage, pi_updated := t\<rparr>)) (save_item env)))"

definition audit_pending_of :: "string \<Rightarrow> string \<Rightarrow> push_item \<Rightarrow> push_audit_pending" where
  "audit_pending_of event_id t it =
     \<lparr>ap_event_id = event_id, ap_created = t, ap_push_kind = display_kind it,
      ap_case_uid = map_option ob_case_uid (pi_planned_outbound it),
      ap_draft_name = map_option ob_draft_name (pi_planned_outbound it),
      ap_action = map_option (\<lambda>ob. outbound_action_as_str (ob_action ob)) (pi_planned_outbound it),
      ap_message_ids = message_ids it, ap_succeeded_step_count = succeeded_step_count it,
      ap_attempt_count = pi_attempt_count it, ap_last_error = None\<rparr>"

definition prepare_push_audit_pending :: "env \<Rightarrow> unit cmd" where
  "prepare_push_audit_pending env =
     bind_io (gets (\<lambda>w. e_event_id env (w_tick w))) (\<lambda>eid. bind_io (now env) (\<lambda>t.
     then_io (upd_item (\<lambda>it. if pi_audit_pending it = None
         then it\<lparr>pi_audit_pending := Some (audit_pending_of eid t it)\<rparr> else it))
     (bind_io (gets (\<lambda>w. local_stage_at_least (w_item w) AuditPending)) (\<lambda>reached.
      if reached then ret ()
      else then_io (upd_item (\<lambda>it. it\<lparr>pi_local_stage := Some AuditPending, pi_updated := t\<rparr>))
        (save_item env)))))"

definition at_stage :: "push_local_stage \<Rightarrow> unit cmd \<Rightarrow> unit cmd" where
  "at_stage stage m = bind_io (gets (\<lambda>w. local_stage_at_least (w_item w) stage)) (\<lambda>reached.
     when_io (\<not> reached) m)"

definition stage_outbound_recorded :: "env \<Rightarrow> unit cmd" where
  "stage_outbound_recorded env = at_stage OutboundRecorded (bind_io (gets w_item) (\<lambda>it.
     then_io (record_outbound_after_push env it)
     (then_io (advance_local_stage env OutboundRecorded) (refresh_outbound_push_views env it))))"

definition stage_draft_removed :: "env \<Rightarrow> unit cmd" where
  "stage_draft_removed env = at_stage DraftRemoved (bind_io (gets w_item) (\<lambda>it.
     then_io (remove_outbound_draft_after_push env it)
     (then_io (advance_local_stage env DraftRemoved) (refresh_outbound_push_views env it))))"

definition stage_pending_cleared :: "env \<Rightarrow> unit cmd" where
  "stage_pending_cleared env = at_stage PendingCleared (bind_io (gets w_item) (\<lambda>it.
     then_io (clear_pending_push_item env it)
     (then_io (advance_local_stage env PendingCleared) (refresh_message_push_views env (message_ids it)))))"

definition finalize_pushed_item :: "env \<Rightarrow> unit cmd" where
  "finalize_pushed_item env =
     then_io (advance_local_stage env RemoteSucceeded)
     (bind_io (gets (\<lambda>w. pi_planned_outbound (w_item w) \<noteq> None)) (\<lambda>outbound.
      then_io (when_io outbound (then_io (stage_outbound_recorded env) (stage_draft_removed env)))
      (then_io (stage_pending_cleared env) (prepare_push_audit_pending env))))"

section \<open>The audit of a completed item\<close>

definition audit_targets :: "push_item \<Rightarrow> string option \<Rightarrow> string list \<Rightarrow> (string \<times> string) list" where
  "audit_targets it case_uid mids = (''push'', pi_push_id it) #
     (case case_uid of Some c \<Rightarrow> [(''case'', c)] | None \<Rightarrow> map (Pair ''message'') mids)"

definition audit_push_succeeded :: "env \<Rightarrow> unit cmd" where
  "audit_push_succeeded env = bind_io (gets w_item) (\<lambda>it. case pi_audit_pending it of
     None \<Rightarrow> fail (err_audit_state (''push '' @ pi_push_id it @ '' has no durable audit_pending identity''))
   | Some p \<Rightarrow> then_io (append_audit_event_with_identity env (ap_event_id p) (ap_created p) ''push_succeeded''
       (audit_targets it (ap_case_uid p) (ap_message_ids p))) (ret ()))"

definition audit_push_failed :: "env \<Rightarrow> unit cmd" where
  "audit_push_failed env = bind_io (gets w_item) (\<lambda>it. append_audit_event env ''push_failed''
     (audit_targets it (map_option ob_case_uid (pi_planned_outbound it)) (message_ids it)))"

definition complete_successful_push_audit :: "env \<Rightarrow> unit cmd" where
  "complete_successful_push_audit env =
     then_io (audit_push_succeeded env)
     (then_io (bind_io (gets w_item) (delete_item env))
     (then_io (ask_res (e_archiving_cases env))
       (upd_item (\<lambda>it. it\<lparr>pi_audit_pending := None, pi_last_error := None\<rparr>))))"

section \<open>The loop over the plan\<close>

record run_totals =
  rt_pushed :: nat
  rt_failed :: nat
  rt_partially_applied :: nat
  rt_audit_pending :: nat
  rt_stopped :: bool
  rt_unattempted :: nat
  rt_audit_warnings :: nat
  rt_persist_failures :: nat

definition no_totals :: run_totals where
  "no_totals = \<lparr>rt_pushed = 0, rt_failed = 0, rt_partially_applied = 0, rt_audit_pending = 0,
     rt_stopped = False, rt_unattempted = 0, rt_audit_warnings = 0, rt_persist_failures = 0\<rparr>"

text \<open>The result of a call as a value: \<open>None\<close> for \<open>Ok\<close>, the error otherwise.\<close>

definition attempt :: "unit cmd \<Rightarrow> app_error option cmd" where
  "attempt m = match_io m (\<lambda>_. ret None) (\<lambda>e. ret (Some e))"

definition push_one :: "env \<Rightarrow> mail_config \<Rightarrow> unit cmd" where
  "push_one env cfg = bind_io (gets w_item) (\<lambda>it.
     if pi_audit_pending it \<noteq> None then ret ()
     else then_io (case item_push_kind it of
         KDraft \<Rightarrow> push_outbound env cfg
       | KMessage \<Rightarrow> push_action_steps env)
       (finalize_pushed_item env))"

definition after_success :: "env \<Rightarrow> run_totals \<Rightarrow> run_totals cmd" where
  "after_success env t = bind_io (attempt (complete_successful_push_audit env)) (\<lambda>r. case r of
     None \<Rightarrow> ret (t\<lparr>rt_pushed := Suc (rt_pushed t)\<rparr>)
   | Some e \<Rightarrow>
       then_io (upd_item (\<lambda>it. it\<lparr>
         pi_audit_pending := map_option (\<lambda>p. p\<lparr>ap_last_error := Some (app_error_to_string e)\<rparr>) (pi_audit_pending it),
         pi_last_error := Some (app_error_to_string e)\<rparr>))
       (then_io (attempt (save_item env))
       (ret (t\<lparr>rt_pushed := Suc (rt_pushed t), rt_audit_pending := Suc (rt_audit_pending t),
          rt_audit_warnings := Suc (rt_audit_warnings t)\<rparr>))))"

definition item_partially_applied :: "push_item \<Rightarrow> bool" where
  "item_partially_applied it \<longleftrightarrow> succeeded_step_count it > 0 \<or> pi_local_stage it \<noteq> None
     \<or> list_ex (\<lambda>st. ss_status st = RemoteOutcomeUnknown) (pi_step_states it)"

definition after_failure :: "env \<Rightarrow> app_error \<Rightarrow> nat \<Rightarrow> run_totals \<Rightarrow> run_totals cmd" where
  "after_failure env e rest t = bind_io (gets (\<lambda>w. item_partially_applied (w_item w))) (\<lambda>partial.
     bind_io (attempt (audit_push_failed env)) (\<lambda>audit.
     bind_io (now env) (\<lambda>ts.
     then_io (upd_item (\<lambda>it. it\<lparr>pi_attempt_count := pi_attempt_count it + 1, pi_updated := ts,
       pi_last_error := Some (app_error_to_string e)\<rparr>))
     (bind_io (attempt (save_item env)) (\<lambda>p1.
      bind_io (attempt (bind_io (gets w_item) (\<lambda>it. mark_pending_push_error env it (app_error_to_string e)))) (\<lambda>p2.
      ret (t\<lparr>rt_failed := Suc (rt_failed t),
        rt_partially_applied := rt_partially_applied t + (if partial then 1 else 0),
        rt_audit_warnings := rt_audit_warnings t + (if audit \<noteq> None then 1 else 0),
        rt_persist_failures := rt_persist_failures t + (if p1 \<noteq> None then 1 else 0) + (if p2 \<noteq> None then 1 else 0),
        rt_stopped := True, rt_unattempted := rest\<rparr>)))))))"

fun push_items :: "env \<Rightarrow> mail_config \<Rightarrow> push_item list \<Rightarrow> run_totals \<Rightarrow> run_totals cmd" where
  "push_items env cfg [] t = ret t"
| "push_items env cfg (it # rest) t =
     then_io (upd_item (\<lambda>_. it))
     (bind_io (attempt (push_one env cfg)) (\<lambda>r. case r of
        Some e \<Rightarrow> after_failure env e (length rest) t
      | None \<Rightarrow> bind_io (after_success env t) (\<lambda>t'.
          bind_io (gets (\<lambda>w. pi_audit_pending (w_item w) \<noteq> None)) (\<lambda>stuck.
          if stuck then ret (t'\<lparr>rt_stopped := True, rt_unattempted := length rest\<rparr>)
          else push_items env cfg rest t'))))"

datatype push_outcome = Preview string | Confirmed run_totals "string list"

definition outcome_result :: "push_outcome \<Rightarrow> command_result" where
  "outcome_result r = (case r of
     Preview _ \<Rightarrow> command_succeeded
   | Confirmed t _ \<Rightarrow> command_aggregate (rt_pushed t + rt_partially_applied t)
       (rt_failed t + rt_audit_warnings t))"

definition require_plan_features :: "env \<Rightarrow> resolved_push_plan \<Rightarrow> unit res" where
  "require_plan_features env plan = for_res (\<lambda>it. case pi_planned_outbound it of
     None \<Rightarrow> Inr () | Some ob \<Rightarrow> require_compiled_send_features env (ob_steps ob)) (rp_items plan)"

definition push :: "env \<Rightarrow> plan_hashes \<Rightarrow> mail_config \<Rightarrow> string option \<Rightarrow> push_outcome cmd" where
  "push env ph cfg confirm =
     bind_io (build_push_plan env ph cfg) (\<lambda>plan.
     then_io (of_res (require_plan_features env plan))
     (case confirm of
        None \<Rightarrow> ret (Preview (rp_plan_id plan))
      | Some confirmed \<Rightarrow>
          then_io (of_res (require_matching_push_plan plan confirmed))
          (bind_io (reconcile_push_plan env plan) (\<lambda>removed.
           bind_io (push_items env cfg (rp_items plan) no_totals) (\<lambda>t.
           ret (Confirmed t removed))))))"

end
