(* ===== verification/Ownership.thy ===== *)
theory Ownership
  imports Frames Push_Run
begin

text \<open>
  Two contracts that build on \<open>frame\<close>.  \<open>item_writes\<close>: a predicate that survives writing the
  borrowed item and changing it under its id survives every operation that makes no remote call;
  this covers the marks, recovery from evidence, the local stages and the failure report.
  \<open>own_item\<close>: a push of one item acts for that item only, so a predicate that survives the calls
  made for an item and its deletion survives the whole push of it.
\<close>

section \<open>Writing the borrowed item\<close>

locale item_writes = frame +
  assumes write_kept: "I w \<Longrightarrow> I (queue_put (w_item w) w)"
    and write_update: "I w \<Longrightarrow> item_ident it = item_ident (w_item w) \<Longrightarrow> I (w\<lparr>w_item := it\<rparr>)"
begin

lemma kept_tick: "I w \<Longrightarrow> I (tick w)"
  by (rule frame [rotated]) (simp_all add: same_core_def)

lemma keeps_upd: "(\<And>it. item_ident (f it) = item_ident it) \<Longrightarrow> keeps I (upd_item f)"
  by (rule hoare_pre [OF hoare_upd_item]) (simp add: write_update)

lemma keeps_mark: "(\<And>t it. item_ident (f t it) = item_ident it) \<Longrightarrow> keeps I (mark env f)"
  by (rule hoare_mark) (simp add: write_update)

lemma keeps_save: "keeps I (save_item env)"
  unfolding save_item_def
proof (rule hoare_gets_bind)
  fix it
  show "hoare (\<lambda>w. I w \<and> w_item w = it) (write_item env it) (\<lambda>_. I) (\<lambda>_. I) I"
    unfolding write_item_def disk_read_def
  proof (rule hoare_then)
    show "hoare (\<lambda>w. I w \<and> w_item w = it) (disk env ''create directory'' id) (\<lambda>_ w. I w \<and> w_item w = it) (\<lambda>_. I) I"
      by (rule hoare_disk) (auto simp: kept_tick)
    show "hoare (\<lambda>w. I w \<and> w_item w = it) (disk env ''write file'' (queue_put it)) (\<lambda>_. I) (\<lambda>_. I) I"
    proof (rule hoare_disk)
      fix w assume "I w \<and> w_item w = it"
      then have "I (tick w)" "w_item (tick w) = it" using kept_tick by auto
      then show "I (queue_put it (tick w)) \<and> I (queue_put it (tick w)) \<and> (\<forall>m. I (queue_put it (tick w)))"
        "I (tick w) \<and> (\<forall>m. I (tick w))"
        using write_kept [of "tick w"] by simp_all
    qed
  qed
qed

lemmas write_rules = keeps_ret keeps_fail keeps_of_res keeps_bind keeps_then keeps_match keeps_when keeps_if
  keeps_case_option keeps_for keeps_gets

lemma keeps_last_error: "keeps I (set_last_error e)"
  unfolding set_last_error_def by (rule keeps_upd) simp

lemma keeps_persist_unknown: "keeps I (persist_remote_outcome_unknown env i s)"
  unfolding persist_remote_outcome_unknown_def mark_step_remote_outcome_unknown_def
  by (intro write_rules keeps_mark keeps_last_error keeps_save) simp

lemma keeps_persist_succeeded: "keeps I (persist_succeeded env i s)"
  unfolding persist_succeeded_def mark_step_succeeded_def
  by (intro write_rules keeps_mark keeps_last_error keeps_save) simp

lemmas marks = keeps_persist_unknown keeps_persist_succeeded keeps_last_error keeps_save

lemma keeps_case_prod: "(\<And>a b. keeps I (f a b)) \<Longrightarrow> keeps I (case x of (a, b) \<Rightarrow> f a b)"
  by (cases x) simp

lemma keeps_recover: "keeps I (recover_remote_outcome_unknown_step env i s)"
  unfolding recover_remote_outcome_unknown_step_def recover_unknown_append_def recover_unknown_move_def Let_def
  by (intro write_rules keeps_case_prod prim store_ops lookup_ops planning_ops marks)

lemma keeps_handle_error: "keeps I (handle_step_error env i s e)"
  unfolding handle_step_error_def Let_def mark_step_remote_outcome_unknown_def mark_step_failed_def
  by (intro write_rules marks keeps_mark) simp_all

lemma keeps_pending: "keeps I (mark env (\<lambda>t it. mark_step_pending t it i s))"
  by (rule keeps_mark) (simp add: mark_step_pending_def)

lemma keeps_run_step:
  assumes "keeps I (execute i s)"
  shows "keeps I (run_step env execute i s)"
  unfolding run_step_def resume_legacy_move_def attempt_step_def
  by (intro write_rules marks lookup_ops keeps_recover keeps_handle_error keeps_pending assms)

lemma keeps_tracked_steps:
  assumes "\<And>i s. keeps I (execute i s)"
  shows "keeps I (execute_tracked_steps env execute steps)"
  unfolding execute_tracked_steps_def case_prod_unfold
  by (intro write_rules keeps_upd keeps_run_step assms) (simp add: ensure_step_states_def)

lemma keeps_record_outbound: "keeps I (record_outbound_after_push env it)"
proof -
  have 1: "keeps I (mark_sent_and_append_case env c mid raw)" for c mid raw
    unfolding mark_sent_and_append_case_def
    by (intro write_rules prim keeps_disk) (simp add: same_core_def)
  have 2: "keeps I (case po_delivery pr of DeliverFile r \<Rightarrow> disk env ''record sent message'' (g pr)
       | DeliverEmail e \<Rightarrow> mark_sent_and_append_case env c (po_message_id pr) (po_raw pr))"
    if "\<And>w. same_core w (g pr w)" for pr g c
    by (cases "po_delivery pr") (simp_all add: 1 keeps_disk that)
  show ?thesis
    unfolding record_outbound_after_push_def
    by (intro write_rules store_ops 2) (simp add: same_core_def)
qed

lemma keeps_remove_draft: "keeps I (remove_outbound_draft_after_push env it)"
  unfolding remove_outbound_draft_after_push_def Let_def
  by (intro write_rules store_ops keeps_disk) (simp_all add: same_core_def)

lemma keeps_advance: "keeps I (advance_local_stage env st)"
  unfolding advance_local_stage_def by (intro write_rules prim keeps_upd keeps_save) simp

lemma keeps_finalize: "keeps I (finalize_pushed_item env)"
  unfolding finalize_pushed_item_def stage_outbound_recorded_def stage_draft_removed_def
    stage_pending_cleared_def at_stage_def prepare_push_audit_pending_def
  by (intro write_rules prim keeps_advance keeps_record_outbound keeps_remove_draft store_ops keeps_save keeps_upd) simp_all

lemma keeps_attempt: "keeps I m \<Longrightarrow> keeps I (attempt m)"
  unfolding attempt_def by (intro write_rules)

lemma keeps_after_failure: "keeps I (after_failure env e n t)"
  unfolding after_failure_def audit_push_failed_def
  by (intro write_rules keeps_attempt keeps_upd keeps_save store_ops) simp

end

section \<open>Acting for one item\<close>

locale own_item = item_writes +
  fixes p :: string
  assumes own: "I w \<Longrightarrow> pi_push_id (w_item w) = p"
    and own_delete: "I w \<Longrightarrow> I (queue_delete p w)"
    and own_call: "I w \<Longrightarrow> I (w\<lparr>w_log := Called p i c eff # w_log w\<rparr>)"
begin

lemma keeps_call: "keeps I (call p i c ok rep)"
proof (rule hoare_call)
  have "I ((tick w)\<lparr>w_log := Called p i c eff # w_log w\<rparr>)" if "I w" for w eff
    using own_call [OF kept_tick [OF that]] by simp
  then show "I w \<Longrightarrow> I ((tick w)\<lparr>w_log := Called p i c (ok a) # w_log w\<rparr>)"
    "I w \<Longrightarrow> I ((tick w)\<lparr>w_log := Called p i c (\<not> remote_effect_not_applied e) # w_log w\<rparr>)"
    "I w \<Longrightarrow> I ((tick w)\<lparr>w_log := Called p i c True # w_log w\<rparr>)" for w a e
    by blast+
qed

lemma keeps_gets_item: "(\<And>it. pi_push_id it = p \<Longrightarrow> keeps I (f it)) \<Longrightarrow> keeps I (bind_io (gets w_item) f)"
proof (rule hoare_gets_bind)
  fix it assume f: "\<And>it. pi_push_id it = p \<Longrightarrow> keeps I (f it)"
  show "hoare (\<lambda>w. I w \<and> w_item w = it) (f it) (\<lambda>_. I) (\<lambda>_. I) I"
    by (cases "pi_push_id it = p") (use f in \<open>auto simp: hoare_def dest: own\<close>)
qed

lemma keeps_gets_id: "keeps I (f p) \<Longrightarrow> keeps I (bind_io (gets (\<lambda>w. pi_push_id (w_item w))) f)"
proof (rule hoare_gets_bind)
  fix q assume f: "keeps I (f p)"
  show "hoare (\<lambda>w. I w \<and> pi_push_id (w_item w) = q) (f q) (\<lambda>_. I) (\<lambda>_. I) I"
    by (cases "q = p") (use f in \<open>auto simp: hoare_def dest: own\<close>)
qed

lemma keeps_delete: "pi_push_id it = p \<Longrightarrow> keeps I (delete_item env it)"
  unfolding delete_item_def
  by (intro hoare_rules hoare_disk) (auto simp: kept_tick own_delete)

lemmas own_rules = keeps_ret keeps_fail keeps_of_res keeps_gets_item keeps_gets_id keeps_bind keeps_then
  keeps_match keeps_when keeps_if keeps_case_option keeps_for keeps_gets

lemmas own_marks = marks keeps_call

lemma keeps_add_flags: "q = p \<Longrightarrow> keeps I (execute_add_flags env q i ls fs)"
  unfolding execute_add_flags_def by (simp, intro own_rules own_marks store_ops)

lemma keeps_move_locations: "keeps I (move_locations env p i target ls active)"
proof (induction ls arbitrary: active)
  case (Cons l ls)
  then show ?case
    unfolding move_locations.simps Let_def
    by (intro own_rules keeps_case_prod own_marks store_ops)
qed (simp, rule keeps_ret)

lemma keeps_execute_move: "pi_push_id it = p \<Longrightarrow> keeps I (execute_move env i it ls mb)"
  unfolding execute_move_def
  by (simp, intro conjI impI own_rules prim lookup_ops keeps_move_locations)

lemma keeps_append_messages: "q = p \<Longrightarrow> keeps I (append_messages env q i s folder mids m a)"
proof (induction mids arbitrary: m a)
  case (Cons mid mids)
  then show ?case
    unfolding append_messages.simps by (simp, intro own_rules prim own_marks)
qed (simp, rule keeps_ret)

lemma keeps_execute_message_step: "keeps I (execute_message_step env i s)"
  unfolding execute_message_step_def
  by (intro own_rules prim lookup_ops own_marks keeps_add_flags keeps_execute_move keeps_append_messages)

lemma keeps_file_send: "keeps I (outbound_file_send env i s pr)"
  unfolding outbound_file_send_def
  by (cases "po_delivery pr") (simp_all, (intro own_rules prim own_marks)+)

lemma keeps_cloudflare_send: "keeps I (outbound_cloudflare_send env i s pr)"
  unfolding outbound_cloudflare_send_def
  by (intro own_rules prim own_marks keeps_upd) simp

lemma keeps_smtp_send: "keeps I (outbound_smtp_send env i s pr)"
  unfolding outbound_smtp_send_def by (intro own_rules prim own_marks)

lemma keeps_outbound_append: "keeps I (outbound_append env cfg i s pr mb)"
  unfolding outbound_append_def by (intro own_rules prim own_marks)

lemma keeps_execute_outbound_step: "keeps I (execute_outbound_step env cfg i s)"
  unfolding execute_outbound_step_def
  by (intro own_rules prim lookup_ops planning_ops keeps_file_send keeps_cloudflare_send keeps_smtp_send
      keeps_outbound_append keeps_add_flags keeps_execute_message_step)

lemma keeps_push_outbound: "keeps I (push_outbound env cfg)"
  unfolding push_outbound_def
  by (intro own_rules planning_ops keeps_tracked_steps keeps_execute_outbound_step)

lemma keeps_push_action_steps: "keeps I (push_action_steps env)"
  unfolding push_action_steps_def
  by (intro own_rules keeps_case_action store_ops keeps_tracked_steps keeps_execute_message_step)

lemma keeps_complete: "keeps I (complete_successful_push_audit env)"
  unfolding complete_successful_push_audit_def audit_push_succeeded_def
  by (intro own_rules store_ops keeps_upd keeps_delete) simp_all

lemma keeps_push_one: "keeps I (push_one env cfg)"
  unfolding push_one_def
  by (intro own_rules keeps_finalize) (simp split: push_kind.split add: keeps_push_outbound keeps_push_action_steps)

lemma keeps_after_success: "keeps I (after_success env t)"
  unfolding after_success_def by (intro own_rules keeps_attempt keeps_complete keeps_upd keeps_save) simp

end

end
