(* ===== verification/Push_Tracking.thy ===== *)
theory Push_Tracking
  imports Push_Safety Plan_Facts Ownership
begin

text \<open>
  The safety invariant through a whole push: the tracked steps of an item, its local
  finalisation, the loop over the plan and planning itself all keep it, whatever the disk, the
  server or a kill does.
\<close>

section \<open>Marks and saves\<close>

lemma ready_quiet:
  assumes "keeps (ready mv k n) m"
  shows "hoare (ready mv k n) m (\<lambda>_. ready mv k n) (\<lambda>_. ready mv k n) (disk_ok mv)"
  using assms by (rule hoare_weaken) (auto intro: ready_disk_ok)

lemma ready_bind:
  assumes "keeps (ready mv k n) m" "\<And>a. hoare (ready mv k n) (f a) Q (\<lambda>_. ready mv k n) (disk_ok mv)"
  shows "hoare (ready mv k n) (bind_io m f) Q (\<lambda>_. ready mv k n) (disk_ok mv)"
  using ready_quiet [OF assms(1)] assms(2) by (rule hoare_bind)

lemma ready_then:
  assumes "keeps (ready mv k n) m" "hoare (ready mv k n) f Q (\<lambda>_. ready mv k n) (disk_ok mv)"
  shows "hoare (ready mv k n) (then_io m f) Q (\<lambda>_. ready mv k n) (disk_ok mv)"
  using ready_quiet [OF assms(1)] assms(2) by (rule hoare_then)

lemma ready_fail: "hoare (ready mv k n) (fail e) Q (\<lambda>_. ready mv k n) C"
  by (simp add: hoare_def fail_def)

lemma save_ready:
  "hoare (ready mv k n) (save_item env) (\<lambda>_. ready mv k n) (\<lambda>_. ready mv k n) (disk_ok mv)"
  by (rule save_item_ready) (auto intro: same_core_ready queue_put_ready dest: ready_writable)

lemma save_ready_unsent:
  "hoare (\<lambda>w. ready mv k n w \<and> unsent i w) (save_item env) (\<lambda>_ w. ready mv k n w \<and> unsent i w)
     (\<lambda>_ w. ready mv k n w \<and> unsent i w) (disk_ok mv)"
  by (rule save_item_ready)
    (auto intro: same_core_ready same_core_unsent queue_put_ready queue_put_unsent dest: ready_writable)

lemma last_error_ready:
  "hoare (\<lambda>w. ready mv k n w \<and> (\<forall>j \<in> S. unsent j w)) (set_last_error e)
     (\<lambda>_ w. ready mv k n w \<and> (\<forall>j \<in> S. unsent j w)) E C"
  unfolding set_last_error_def
  by (rule hoare_pre [OF hoare_upd_item])
     (auto simp: unsent_update ready_wf step_done_def intro!: ready_update)

lemma mark_ready:
  assumes "\<And>w t. ready mv k n w \<Longrightarrow> P w \<Longrightarrow> same_identity (w_item w) (f t (w_item w))
      \<and> wf_steps (f t (w_item w)) \<and> (\<forall>j. has_step (f t (w_item w)) j = has_step (w_item w) j)
      \<and> (\<forall>j. step_done (w_item w) j \<longrightarrow> \<not> unsent j w \<longrightarrow> step_done (f t (w_item w)) j)"
  shows "hoare (\<lambda>w. ready mv k n w \<and> P w \<and> (\<forall>j \<in> S. unsent j w)) (mark env f)
    (\<lambda>_ w. ready mv k n w \<and> (\<forall>j \<in> S. unsent j w)) E C"
proof (rule hoare_mark)
  fix w t assume w: "ready mv k n w \<and> P w \<and> (\<forall>j \<in> S. unsent j w)"
  let ?it = "(f t (w_item w))\<lparr>pi_updated := t\<rparr>"
  note f = assms [of w t]
  have "ready mv k n (w\<lparr>w_item := ?it\<rparr>)"
    by (rule ready_update) (use w f in \<open>auto simp: step_done_def unsent_def\<close>)
  then show "ready mv k n (w\<lparr>w_item := ?it\<rparr>) \<and> (\<forall>j \<in> S. unsent j (w\<lparr>w_item := ?it\<rparr>))"
    using w f by (auto simp: unsent_update)
qed

lemma mark_done_ready:
  assumes i: "i < n" and f: "f = (\<lambda>t it. mark_step_succeeded t it i s)
      \<or> f = (\<lambda>t it. mark_step_remote_outcome_unknown t it i s e)"
  shows "hoare (ready mv k n) (mark env f) (\<lambda>_. ready mv k n) E C"
proof -
  have "hoare (\<lambda>w. ready mv k n w \<and> True \<and> (\<forall>j \<in> {}. unsent j w)) (mark env f)
      (\<lambda>_ w. ready mv k n w \<and> (\<forall>j \<in> {}. unsent j w)) E C"
  proof (rule mark_ready)
    fix w t assume w: "ready mv k n w"
    then have h: "has_step (w_item w) i" using i by (simp add: ready_def)
    note st = status_transitions [OF ready_wf [OF w]]
    show "same_identity (w_item w) (f t (w_item w)) \<and> wf_steps (f t (w_item w))
      \<and> (\<forall>j. has_step (f t (w_item w)) j = has_step (w_item w) j)
      \<and> (\<forall>j. step_done (w_item w) j \<longrightarrow> \<not> unsent j w \<longrightarrow> step_done (f t (w_item w)) j)"
      using f by (elim disjE) (simp_all add: ready_wf [OF w] step_done_def st h)
  qed
  then show ?thesis by simp
qed

lemma mark_undone_ready:
  assumes f: "f = (\<lambda>t it. mark_step_pending t it i s) \<or> f = (\<lambda>t it. mark_step_failed t it i s e)"
  shows "hoare (\<lambda>w. ready mv k n w \<and> unsent i w) (mark env f) (\<lambda>_ w. ready mv k n w \<and> unsent i w) E C"
proof -
  have "hoare (\<lambda>w. ready mv k n w \<and> unsent i w \<and> (\<forall>j \<in> {i}. unsent j w)) (mark env f)
      (\<lambda>_ w. ready mv k n w \<and> (\<forall>j \<in> {i}. unsent j w)) E C"
  proof (rule mark_ready)
    fix w t assume w: "ready mv k n w" "unsent i w"
    note st = status_transitions [OF ready_wf [OF w(1)]]
    show "same_identity (w_item w) (f t (w_item w)) \<and> wf_steps (f t (w_item w))
      \<and> (\<forall>j. has_step (f t (w_item w)) j = has_step (w_item w) j)
      \<and> (\<forall>j. step_done (w_item w) j \<longrightarrow> \<not> unsent j w \<longrightarrow> step_done (f t (w_item w)) j)"
      using f w by (elim disjE) (auto simp: ready_wf step_done_def st)
  qed
  then show ?thesis by simp
qed

lemma set_error_ready: "hoare (ready mv k n) (set_last_error e) (\<lambda>_. ready mv k n) E C"
  using last_error_ready [where S = "{}"] by simp

lemma set_error_unsent: "hoare (\<lambda>w. ready mv k n w \<and> unsent i w) (set_last_error e)
    (\<lambda>_ w. ready mv k n w \<and> unsent i w) E C"
  using last_error_ready [where S = "{i}"] by simp

lemmas mark_succeeded_ready = mark_done_ready [OF _ disjI1 [OF refl]]
lemmas mark_unknown_ready = mark_done_ready [OF _ disjI2 [OF refl]]
lemmas mark_pending_unsent = mark_undone_ready [OF disjI1 [OF refl]]
lemmas mark_failed_unsent = mark_undone_ready [OF disjI2 [OF refl]]

lemma persist_succeeded_ready:
  assumes "i < n"
  shows "hoare (ready mv k n) (persist_succeeded env i s) (\<lambda>_. ready mv k n) (\<lambda>_. ready mv k n) (disk_ok mv)"
  unfolding persist_succeeded_def
  by (rule hoare_then [OF mark_succeeded_ready [OF assms]], rule hoare_then [OF set_error_ready save_ready])

section \<open>Recovery from evidence\<close>

lemma ready_ret: "hoare (ready mv k n) (ret a) (\<lambda>_. ready mv k n) E C"
  by (simp add: hoare_def ret_def)

lemmas ready_rules = ready_ret ready_fail hoare_if hoare_case_option' ready_bind ready_then

lemma recover_append_ready:
  assumes "i < n"
  shows "hoare (ready mv k n) (recover_unknown_append env i s mb) (\<lambda>_. ready mv k n) (\<lambda>_. ready mv k n) (disk_ok mv)"
  unfolding recover_unknown_append_def
  by (intro ready_rules keeps_gets ready_frame.prim ready_frame.lookup_ops
      hoare_then [OF persist_succeeded_ready [OF assms]])

lemma recover_move_ready:
  assumes "i < n"
  shows "hoare (ready mv k n) (recover_unknown_move env i s mb) (\<lambda>_. ready mv k n) (\<lambda>_. ready mv k n) (disk_ok mv)"
proof -
  have loc: "keeps (ready mv k n) (for_io ts (\<lambda>(mid, srcs, target). bind_io (read_message_by_id env mid) (\<lambda>m.
      relocate_message env mid (moved_locations (active_of m) srcs target))))" for ts
    unfolding case_prod_unfold by (intro hoare_rules ready_frame.store_ops)
  show ?thesis
    unfolding recover_unknown_move_def Let_def
    by (intro ready_rules keeps_gets ready_frame.prim ready_frame.lookup_ops loc
        hoare_then [OF persist_succeeded_ready [OF assms]])
qed

lemma recover_step_ready:
  assumes "i < n"
  shows "hoare (ready mv k n) (recover_remote_outcome_unknown_step env i s) (\<lambda>_. ready mv k n)
    (\<lambda>_. ready mv k n) (disk_ok mv)"
  unfolding recover_remote_outcome_unknown_step_def
  by (intro ready_rules keeps_gets ready_frame.prim ready_frame.planning_ops
      recover_append_ready recover_move_ready hoare_then [OF persist_succeeded_ready [OF assms]] assms)

section \<open>One tracked step\<close>

lemma handle_error_ready:
  assumes i: "i < n"
  shows "hoare (err mv k n i e) (handle_step_error env i s e) (\<lambda>_. ready mv k n) (\<lambda>_. ready mv k n) (disk_ok mv)"
  unfolding handle_step_error_def Let_def
proof (rule hoare_gets_bind, rule hoare_if)
  fix it
  let ?P = "\<lambda>w. err mv k n i e w \<and> w_item w = it"
  show "hoare ?P (then_io (mark env (\<lambda>t it. mark_step_remote_outcome_unknown t it i s (Some e)))
        (then_io (set_last_error (Some (app_error_to_string (err_remote_outcome_unknown s))))
          (then_io (save_item env) (fail (err_remote_outcome_unknown s)))))
      (\<lambda>_. ready mv k n) (\<lambda>_. ready mv k n) (disk_ok mv)"
    by (rule hoare_pre, rule hoare_then [OF mark_unknown_ready [OF i]], rule hoare_then [OF set_error_ready],
        rule hoare_then [OF save_ready ready_fail]) (simp add: err_def)
  assume c: "\<not> (step_remote_outcome_unknown it i \<and> \<not> remote_effect_not_applied e)"
  show "hoare ?P (then_io (mark env (\<lambda>t it. mark_step_failed t it i s e))
        (then_io (set_last_error (Some (app_error_to_string e))) (then_io (save_item env) (fail e))))
      (\<lambda>_. ready mv k n) (\<lambda>_. ready mv k n) (disk_ok mv)"
  proof (rule hoare_pre)
    have "hoare (\<lambda>w. ready mv k n w \<and> unsent i w) (then_io (save_item env) (fail e)) (\<lambda>_. ready mv k n)
        (\<lambda>_. ready mv k n) (disk_ok mv)"
      by (rule hoare_then [OF _ ready_fail], rule hoare_weaken [OF save_ready_unsent]) auto
    then show "hoare (\<lambda>w. ready mv k n w \<and> unsent i w) (then_io (mark env (\<lambda>t it. mark_step_failed t it i s e))
        (then_io (set_last_error (Some (app_error_to_string e))) (then_io (save_item env) (fail e))))
        (\<lambda>_. ready mv k n) (\<lambda>_. ready mv k n) (disk_ok mv)"
      by (intro hoare_then [OF mark_failed_unsent] hoare_then [OF set_error_unsent])
  qed (use c in \<open>auto simp: err_def uncertain_def\<close>)
qed

lemma attempt_step_ready:
  assumes i: "i < n"
    and exec: "\<And>p. hoare (pre mv k n p i False) (execute i s) (\<lambda>_. ready mv k n) (err mv k n i) (disk_ok mv)"
  shows "hoare (\<lambda>w. ready mv k n w \<and> unsent i w) (attempt_step env execute i s)
    (\<lambda>_. ready mv k n) (\<lambda>_. ready mv k n) (disk_ok mv)"
proof -
  have run: "hoare (\<lambda>w. ready mv k n w \<and> unsent i w) (match_io (execute i s)
       (\<lambda>_. then_io (persist_succeeded env i s) (refresh_after_successful_step env s))
       (handle_step_error env i s)) (\<lambda>_. ready mv k n) (\<lambda>_. ready mv k n) (disk_ok mv)"
  proof (rule hoare_match)
    show "hoare (\<lambda>w. ready mv k n w \<and> unsent i w) (execute i s) (\<lambda>_. ready mv k n) (err mv k n i) (disk_ok mv)"
    proof (rule hoare_assume)
      fix w assume w: "ready mv k n w \<and> unsent i w"
      then show "hoare ((=) w) (execute i s) (\<lambda>_. ready mv k n) (err mv k n i) (disk_ok mv)"
        by (intro hoare_pre [OF exec [of "pi_push_id (w_item w)"]]) (auto simp: pre_def)
    qed
    show "hoare (ready mv k n) (then_io (persist_succeeded env i s) (refresh_after_successful_step env s))
        (\<lambda>_. ready mv k n) (\<lambda>_. ready mv k n) (disk_ok mv)"
      by (rule hoare_then [OF persist_succeeded_ready [OF i] ready_quiet [OF ready_frame.keeps_refresh_step]])
  qed (rule handle_error_ready [OF i])
  show ?thesis
    unfolding attempt_step_def
    by (rule hoare_then [OF mark_pending_unsent], rule hoare_then [OF _ run],
        rule hoare_weaken [OF save_ready_unsent]) auto
qed

text \<open>Only the pure move of a message is resumed, and nothing is ever sent for a message.\<close>

lemma resume_legacy_ready:
  "hoare (\<lambda>w. ready mv k n w \<and> \<not> step_succeeded (w_item w) i) (resume_legacy_move env i s)
    (\<lambda>_ w. ready mv k n w \<and> \<not> step_succeeded (w_item w) i) (\<lambda>_. ready mv k n) (disk_ok mv)"
  unfolding resume_legacy_move_def
proof (rule hoare_gets_bind, rule hoare_when)
  fix it
  let ?P = "\<lambda>w. (ready mv k n w \<and> \<not> step_succeeded (w_item w) i) \<and> w_item w = it"
  assume c: "step_remote_outcome_unknown it i \<and> legacy_move_message_id_preflight_failed it i s"
  then have planned: "pi_planned_message_action it \<noteq> None"
    by (auto simp: legacy_move_message_id_preflight_failed_def split: if_splits)
  have start: "ready mv k n w \<and> unsent i w" if "?P w" for w
    using that planned by (cases k) (auto simp: ready_def run_ok_def item_ok_def unsent_def)
  have ns: "hoare (\<lambda>w. ready mv k n w \<and> unsent i w) (mark env (\<lambda>t it. mark_step_pending t it i s))
     (\<lambda>_ w. ready mv k n w \<and> \<not> step_succeeded (w_item w) i) E C" for E C
  proof (rule hoare_mark)
    fix w t assume w: "ready mv k n w \<and> unsent i w"
    let ?it = "(mark_step_pending t (w_item w) i s)\<lparr>pi_updated := t\<rparr>"
    have "ready mv k n (w\<lparr>w_item := ?it\<rparr>)"
      by (rule ready_update) (use w status_transitions(1) [OF ready_wf] in
          \<open>auto simp: ready_wf step_done_def unsent_def\<close>)
    then show "ready mv k n (w\<lparr>w_item := ?it\<rparr>) \<and> \<not> step_succeeded (w_item (w\<lparr>w_item := ?it\<rparr>)) i"
      using w status_transitions(1) [OF ready_wf] by (auto simp: step_succeeded_def)
  qed
  have set: "hoare (\<lambda>w. ready mv k n w \<and> \<not> step_succeeded (w_item w) i) (set_last_error None)
     (\<lambda>_ w. ready mv k n w \<and> \<not> step_succeeded (w_item w) i) E C" for E C
    unfolding set_last_error_def
    by (rule hoare_pre [OF hoare_upd_item])
       (auto simp: ready_wf step_done_def step_succeeded_def intro!: ready_update)
  have save: "hoare (\<lambda>w. ready mv k n w \<and> \<not> step_succeeded (w_item w) i) (save_item env)
     (\<lambda>_ w. ready mv k n w \<and> \<not> step_succeeded (w_item w) i) (\<lambda>_. ready mv k n) (disk_ok mv)"
    by (rule save_item_ready)
      (auto intro: same_core_ready queue_put_ready simp: same_core_def dest: ready_writable)
  show "hoare ?P (then_io (mark env (\<lambda>t it. mark_step_pending t it i s))
       (then_io (set_last_error None) (save_item env)))
     (\<lambda>_ w. ready mv k n w \<and> \<not> step_succeeded (w_item w) i) (\<lambda>_. ready mv k n) (disk_ok mv)"
    by (rule hoare_pre [OF hoare_then [OF ns hoare_then [OF set save]] start])
qed auto


lemma run_step_ready:
  assumes i: "i < n"
    and exec: "\<And>p. hoare (pre mv k n p i False) (execute i s) (\<lambda>_. ready mv k n) (err mv k n i) (disk_ok mv)"
  shows "hoare (ready mv k n) (run_step env execute i s) (\<lambda>_. ready mv k n) (\<lambda>_. ready mv k n) (disk_ok mv)"
  unfolding run_step_def
proof (rule hoare_gets_bind, rule hoare_if)
  fix it
  show "hoare (\<lambda>w. ready mv k n w \<and> w_item w = it)
      (when_io (pi_local_stage it = None) (refresh_after_successful_step env s))
      (\<lambda>_. ready mv k n) (\<lambda>_. ready mv k n) (disk_ok mv)"
    by (rule hoare_pre [OF ready_quiet]) (auto intro: hoare_rules ready_frame.lookup_ops)
  assume c: "\<not> step_succeeded it i"
  let ?R = "\<lambda>w. ready mv k n w \<and> \<not> step_succeeded (w_item w) i"
  have rest: "hoare ?R (bind_io (gets (\<lambda>w. step_remote_outcome_unknown (w_item w) i)) (\<lambda>unknown.
        if unknown then
          bind_io (recover_remote_outcome_unknown_step env i s) (\<lambda>ok.
          if ok then refresh_after_successful_step env s else fail (err_remote_outcome_unknown s))
        else attempt_step env execute i s)) (\<lambda>_. ready mv k n) (\<lambda>_. ready mv k n) (disk_ok mv)"
  proof (rule hoare_gets_bind, rule hoare_if)
    fix unknown :: bool
    let ?P = "\<lambda>w. ?R w \<and> step_remote_outcome_unknown (w_item w) i = unknown"
    have "hoare (ready mv k n) (bind_io (recover_remote_outcome_unknown_step env i s) (\<lambda>ok.
          if ok then refresh_after_successful_step env s else fail (err_remote_outcome_unknown s)))
        (\<lambda>_. ready mv k n) (\<lambda>_. ready mv k n) (disk_ok mv)"
      by (rule hoare_bind [OF recover_step_ready [OF i]])
        (intro hoare_if ready_fail ready_quiet ready_frame.lookup_ops)
    then show "hoare ?P (bind_io (recover_remote_outcome_unknown_step env i s) (\<lambda>ok.
          if ok then refresh_after_successful_step env s else fail (err_remote_outcome_unknown s)))
        (\<lambda>_. ready mv k n) (\<lambda>_. ready mv k n) (disk_ok mv)"
      by (rule hoare_pre) simp
    assume u: "\<not> unknown"
    show "hoare ?P (attempt_step env execute i s) (\<lambda>_. ready mv k n) (\<lambda>_. ready mv k n) (disk_ok mv)"
      by (rule hoare_pre [OF attempt_step_ready [where execute = execute and s = s, OF i exec]])
        (use u in \<open>auto simp: step_done_def step_succeeded_def step_remote_outcome_unknown_def intro: ready_unsent\<close>)
  qed
  show "hoare (\<lambda>w. ready mv k n w \<and> w_item w = it) (then_io (resume_legacy_move env i s)
       (bind_io (gets (\<lambda>w. step_remote_outcome_unknown (w_item w) i)) (\<lambda>unknown.
        if unknown then
          bind_io (recover_remote_outcome_unknown_step env i s) (\<lambda>ok.
          if ok then refresh_after_successful_step env s else fail (err_remote_outcome_unknown s))
        else attempt_step env execute i s))) (\<lambda>_. ready mv k n) (\<lambda>_. ready mv k n) (disk_ok mv)"
    by (rule hoare_pre [OF hoare_then [OF resume_legacy_ready rest]]) (use c in auto)
qed

section \<open>The steps of an item\<close>

lemma enumerate0_bound: "(i, s) \<in> set (enumerate0 steps) \<Longrightarrow> i < length steps \<and> s \<in> set steps"
  by (auto simp: enumerate0_def dest: set_zip_leftD set_zip_rightD)

text \<open>The item can be given the step states of \<open>n\<close> steps without losing one that was sent for.\<close>

definition startable :: "bool \<Rightarrow> push_kind \<Rightarrow> nat \<Rightarrow> world \<Rightarrow> bool" where
  "startable mv k n w \<longleftrightarrow> run_ok mv w \<and> pi_audit_pending (w_item w) = None \<and> item_push_kind (w_item w) = k
     \<and> (k = KDraft \<longrightarrow> length (pi_step_states (w_item w)) \<le> n)"

lemma ensure_ready:
  assumes "startable mv k (length steps) w"
  shows "ready mv k (length steps) (w\<lparr>w_item := ensure_step_states (w_item w) steps\<rparr>)"
proof -
  let ?it = "ensure_step_states (w_item w) steps"
  have r: "run_ok mv w" using assms by (simp add: startable_def)
  then have wf: "wf_steps (w_item w)" by (simp add: run_ok_def item_ok_def)
  have kept: "step_done ?it i" if "item_push_kind (w_item w) = KDraft" "step_done (w_item w) i" for i
  proof -
    have "i < length steps"
      using step_done_bound [OF wf that(2)] assms that(1) by (auto simp: startable_def)
    then show ?thesis using that(2) by (auto simp: step_done_def intro: step_has_ensure_old)
  qed
  have k: "item_push_kind ?it = item_push_kind (w_item w)" by (simp add: item_push_kind_def)
  have "item_ok ?it (w_log w)"
    using r kept by (auto simp: run_ok_def item_ok_def wf_ensure named_def k)
  then show ?thesis
    using assms by (simp add: startable_def ready_def run_ok_def disk_ok_def k has_step_ensure)
qed

lemma execute_tracked_ready:
  assumes "\<And>p i s. i < length steps \<Longrightarrow> s \<in> set steps \<Longrightarrow>
     hoare (pre mv k (length steps) p i False) (execute i s) (\<lambda>_. ready mv k (length steps))
       (err mv k (length steps) i) (disk_ok mv)"
  shows "hoare (startable mv k (length steps)) (execute_tracked_steps env execute steps)
    (\<lambda>_. run_ok mv) (\<lambda>_. run_ok mv) (disk_ok mv)"
  unfolding execute_tracked_steps_def
proof (rule hoare_then)
  show "hoare (startable mv k (length steps)) (upd_item (\<lambda>it. ensure_step_states it steps))
      (\<lambda>_. ready mv k (length steps)) (\<lambda>_. run_ok mv) (disk_ok mv)"
    by (rule hoare_pre [OF hoare_upd_item]) (rule ensure_ready)
  have "hoare (ready mv k (length steps)) (for_io (enumerate0 steps) (\<lambda>(i, s). run_step env execute i s))
      (\<lambda>_. ready mv k (length steps)) (\<lambda>_. ready mv k (length steps)) (disk_ok mv)"
    by (rule hoare_for) (auto dest!: enumerate0_bound intro: run_step_ready assms)
  then show "hoare (ready mv k (length steps)) (for_io (enumerate0 steps) (\<lambda>(i, s). run_step env execute i s))
      (\<lambda>_. run_ok mv) (\<lambda>_. run_ok mv) (disk_ok mv)"
    by (rule hoare_weaken) (auto simp: ready_def)
qed


section \<open>One item\<close>

lemma run_quiet:
  assumes "keeps (run_ok mv) m"
  shows "hoare (run_ok mv) m (\<lambda>_. run_ok mv) (\<lambda>_. run_ok mv) (disk_ok mv)"
  using assms by (rule hoare_weaken) (auto simp: run_ok_def)

lemma run_bind:
  assumes "keeps (run_ok mv) m" "\<And>a. hoare (run_ok mv) (f a) Q (\<lambda>_. run_ok mv) (disk_ok mv)"
  shows "hoare (run_ok mv) (bind_io m f) Q (\<lambda>_. run_ok mv) (disk_ok mv)"
  using run_quiet [OF assms(1)] assms(2) by (rule hoare_bind)

lemma run_then:
  assumes "keeps (run_ok mv) m" "hoare (run_ok mv) f Q (\<lambda>_. run_ok mv) (disk_ok mv)"
  shows "hoare (run_ok mv) (then_io m f) Q (\<lambda>_. run_ok mv) (disk_ok mv)"
  using run_quiet [OF assms(1)] assms(2) by (rule hoare_then)

lemma run_ret: "hoare (run_ok mv) (ret a) (\<lambda>_. run_ok mv) E C"
  by (simp add: hoare_def ret_def)

lemma run_fail: "hoare (run_ok mv) (fail e) Q (\<lambda>_. run_ok mv) C"
  by (simp add: hoare_def fail_def)

lemma startable_run: "startable mv k n w \<Longrightarrow> run_ok mv w"
  by (simp add: startable_def)

interpretation startable_frame: frame "startable mv k n" for mv k n
  by standard (simp add: same_core_def startable_def run_ok_def disk_ok_def)


lemma filter_single_op:
  assumes "single_op_config cfg"
  shows "hoare (\<lambda>_. True) (filter_reply_to_steps env it (configured_outbound_steps cfg a))
    (\<lambda>steps _. \<forall>s \<in> set steps. op_count s = 1) (\<lambda>_ _. True) (\<lambda>_. True)"
proof (rule hoare_assume)
  fix w
  show "hoare ((=) w) (filter_reply_to_steps env it (configured_outbound_steps cfg a))
    (\<lambda>steps _. \<forall>s \<in> set steps. op_count s = 1) (\<lambda>_ _. True) (\<lambda>_. True)"
    by (rule hoare_weaken [OF filter_steps_spec [where D = "w_drafts w"]])
      (use selected_single_op [OF assms] in auto)
qed

definition drafted :: "bool \<Rightarrow> world \<Rightarrow> bool" where
  "drafted mv w \<longleftrightarrow> run_ok mv w \<and> runnable (w_item w) \<and> pi_audit_pending (w_item w) = None
     \<and> item_push_kind (w_item w) = KDraft"

lemma push_outbound_run:
  assumes cfg: "single_op_config cfg" and mv: "mv \<Longrightarrow> stable_folders env"
  shows "hoare (drafted mv) (push_outbound env cfg) (\<lambda>_. run_ok mv) (\<lambda>_. run_ok mv) (disk_ok mv)"
  unfolding push_outbound_def
proof (rule hoare_gets_bind)
  fix it
  let ?P = "\<lambda>w. drafted mv w \<and> w_item w = it"
  have done_ok: "?P w \<Longrightarrow> run_ok mv w" for w by (simp add: drafted_def)
  show "hoare ?P (case pi_planned_outbound it of
     None \<Rightarrow> fail err_not_outbound
   | Some ob \<Rightarrow>
       if pi_local_stage it \<noteq> None then ret ()
       else bind_io (if ob_steps ob = []
           then filter_reply_to_steps env it (configured_outbound_steps cfg (ob_action ob))
           else ret (ob_steps ob)) (\<lambda>steps.
         then_io (of_res (require_compiled_send_features env steps))
         (if ob_action ob = SaveDraft \<and> steps = [] then fail err_draft_upload_unavailable
          else execute_tracked_steps env (execute_outbound_step env cfg) steps)))
     (\<lambda>_. run_ok mv) (\<lambda>_. run_ok mv) (disk_ok mv)"
  proof (rule hoare_case_option, goal_cases)
    case 1
    show ?case by (rule hoare_pre [OF run_fail done_ok])
  next
    case (2 ob)
    let ?steps = "ob_steps ob"
    let ?ops = "\<lambda>steps. (\<forall>s \<in> set steps. op_count s = 1) \<and> (?steps \<noteq> [] \<longrightarrow> steps = ?steps)"
    have exec: "hoare (\<lambda>w. startable mv KDraft (length ?steps) w \<and> ?ops steps)
       (then_io (of_res (require_compiled_send_features env steps))
         (if ob_action ob = SaveDraft \<and> steps = [] then fail err_draft_upload_unavailable
          else execute_tracked_steps env (execute_outbound_step env cfg) steps))
       (\<lambda>_. run_ok mv) (\<lambda>_. run_ok mv) (disk_ok mv)" for steps
    proof (rule hoare_and_pure)
      assume ops: "?ops steps"
      have fits: "startable mv KDraft (length ?steps) w \<Longrightarrow> startable mv KDraft (length steps) w" for w
        using ops by (cases "?steps = []") (auto simp: startable_def)
      have "hoare (startable mv KDraft (length steps)) (execute_tracked_steps env (execute_outbound_step env cfg) steps)
          (\<lambda>_. run_ok mv) (\<lambda>_. run_ok mv) (disk_ok mv)"
        by (rule execute_tracked_ready, rule execute_outbound_step_pre) (use ops mv in auto)
      then show "hoare (startable mv KDraft (length ?steps))
       (then_io (of_res (require_compiled_send_features env steps))
         (if ob_action ob = SaveDraft \<and> steps = [] then fail err_draft_upload_unavailable
          else execute_tracked_steps env (execute_outbound_step env cfg) steps))
       (\<lambda>_. run_ok mv) (\<lambda>_. run_ok mv) (disk_ok mv)"
        by (intro hoare_then [where R = "startable mv KDraft (length steps)"] hoare_if hoare_of_res)
          (auto simp: hoare_def fail_def startable_run fits)
    qed
    have choose: "hoare (startable mv KDraft (length ?steps)) (if ?steps = []
           then filter_reply_to_steps env it (configured_outbound_steps cfg (ob_action ob)) else ret ?steps)
       (\<lambda>steps w. startable mv KDraft (length ?steps) w \<and> ?ops steps) (\<lambda>_. run_ok mv) (disk_ok mv)"
      if "\<forall>s \<in> set ?steps. op_count s = 1"
    proof (rule hoare_if)
      assume "?steps = []"
      then show "hoare (startable mv KDraft (length ?steps))
          (filter_reply_to_steps env it (configured_outbound_steps cfg (ob_action ob)))
         (\<lambda>steps w. startable mv KDraft (length ?steps) w \<and> ?ops steps) (\<lambda>_. run_ok mv) (disk_ok mv)"
        by (intro hoare_weaken [OF hoare_conj_keeps [OF startable_frame.keeps_filter_steps filter_single_op [OF cfg]]])
          (auto simp: startable_def run_ok_def)
    qed (use that in \<open>auto simp: hoare_def ret_def\<close>)
    show ?case
    proof (rule hoare_if)
      show "hoare ?P (ret ()) (\<lambda>_. run_ok mv) (\<lambda>_. run_ok mv) (disk_ok mv)"
        by (rule hoare_pre [OF run_ret done_ok])
      assume "\<not> pi_local_stage it \<noteq> None"
      then have st: "?P w \<Longrightarrow> startable mv KDraft (length ?steps) w \<and> (\<forall>s \<in> set ?steps. op_count s = 1)" for w
        using 2 by (auto simp: drafted_def startable_def runnable_def)
      have run: "hoare (startable mv KDraft (length ?steps)) (bind_io (if ?steps = []
           then filter_reply_to_steps env it (configured_outbound_steps cfg (ob_action ob)) else ret ?steps) (\<lambda>steps.
         then_io (of_res (require_compiled_send_features env steps))
         (if ob_action ob = SaveDraft \<and> steps = [] then fail err_draft_upload_unavailable
          else execute_tracked_steps env (execute_outbound_step env cfg) steps)))
         (\<lambda>_. run_ok mv) (\<lambda>_. run_ok mv) (disk_ok mv)" if "\<forall>s \<in> set ?steps. op_count s = 1"
        by (rule hoare_bind [OF choose [OF that] exec])
      show "hoare ?P (bind_io (if ?steps = []
           then filter_reply_to_steps env it (configured_outbound_steps cfg (ob_action ob)) else ret ?steps) (\<lambda>steps.
         then_io (of_res (require_compiled_send_features env steps))
         (if ob_action ob = SaveDraft \<and> steps = [] then fail err_draft_upload_unavailable
          else execute_tracked_steps env (execute_outbound_step env cfg) steps)))
         (\<lambda>_. run_ok mv) (\<lambda>_. run_ok mv) (disk_ok mv)"
      proof (cases "\<forall>s \<in> set ?steps. op_count s = 1")
        case True
        show ?thesis by (rule hoare_pre [OF run [OF True]]) (simp add: st)
      next
        case False
        then have "\<not> ?P w" for w using st by blast
        then show ?thesis unfolding hoare_def by blast
      qed
    qed
  qed
qed


lemma push_action_steps_run:
  assumes mv: "mv \<Longrightarrow> stable_folders env"
  shows "hoare (\<lambda>w. run_ok mv w \<and> pi_audit_pending (w_item w) = None \<and> item_push_kind (w_item w) = KMessage)
    (push_action_steps env) (\<lambda>_. run_ok mv) (\<lambda>_. run_ok mv) (disk_ok mv)"
proof -
  have steps: "hoare (startable mv KMessage (length steps)) (execute_tracked_steps env (execute_message_step env) steps)
      (\<lambda>_. run_ok mv) (\<lambda>_. run_ok mv) (disk_ok mv)" for steps
    by (rule execute_tracked_ready, rule hoare_weaken [OF execute_message_step_pre])
      (use mv in \<open>auto intro: pre_ready\<close>)
  have start: "hoare (startable mv KMessage n) (push_action_steps env) (\<lambda>_. run_ok mv) (\<lambda>_. run_ok mv) (disk_ok mv)" for n
  proof -
    have 1: "startable mv KMessage n = startable mv KMessage m" for m
      by (simp add: startable_def fun_eq_iff)
    have quiet: "hoare (startable mv KMessage n) m (\<lambda>_. startable mv KMessage k) (\<lambda>_. run_ok mv) (disk_ok mv)"
      if "keeps (startable mv KMessage n) m" for m :: "unit cmd" and k
      by (rule hoare_weaken [OF that]) (auto simp: 1 [of k] startable_run, simp add: startable_def run_ok_def)
    show ?thesis
      unfolding push_action_steps_def
      by (rule hoare_bind [where R = "\<lambda>_. startable mv KMessage n"], simp add: hoare_def gets_def,
          rule hoare_case_option', simp add: hoare_def fail_def startable_run,
          rule hoare_then [OF quiet steps],
          intro hoare_rules startable_frame.store_ops)
  qed
  show ?thesis by (rule hoare_pre [OF start [of 0]]) (simp add: startable_def)
qed

section \<open>Finalisation and the audit\<close>

lemma save_run: "hoare (run_ok mv) (save_item env) (\<lambda>_. run_ok mv) (\<lambda>_. run_ok mv) (disk_ok mv)"
  by (rule save_item_ready)
    (auto simp: run_ok_def item_ok_log_put same_core_def disk_ok_def item_ok_writable)

lemma update_run:
  assumes "\<And>it es. item_ok it es \<Longrightarrow> item_ok (f it) es"
  shows "hoare (run_ok mv) (upd_item f) (\<lambda>_. run_ok mv) E C"
  by (rule hoare_pre [OF hoare_upd_item]) (use assms in \<open>auto simp: run_ok_def disk_ok_def\<close>)

lemma item_ok_fields [simp]:
  "item_ok (it\<lparr>pi_local_stage := a\<rparr>) es = item_ok it es" "item_ok (it\<lparr>pi_updated := b\<rparr>) es = item_ok it es"
  "item_ok (it\<lparr>pi_last_error := c\<rparr>) es = item_ok it es" "item_ok (it\<lparr>pi_attempt_count := d\<rparr>) es = item_ok it es"
  by (simp_all add: item_ok_def named_def wf_steps_def item_push_kind_def step_done_def step_has_def)

lemma item_ok_audit: "item_ok it es \<Longrightarrow> item_ok (it\<lparr>pi_audit_pending := Some a\<rparr>) es"
  by (simp add: item_ok_def named_def wf_steps_def item_push_kind_def step_done_def step_has_def)

lemma item_ok_audit_map:
  "item_ok it es \<Longrightarrow> item_ok (it\<lparr>pi_audit_pending := map_option f (pi_audit_pending it)\<rparr>) es"
  by (simp add: item_ok_def named_def wf_steps_def item_push_kind_def step_done_def step_has_def)

text \<open>The contract of a local operation on the borrowed item.\<close>

abbreviation local_op :: "bool \<Rightarrow> 'a cmd \<Rightarrow> bool" where
  "local_op mv m \<equiv> hoare (run_ok mv) m (\<lambda>_. run_ok mv) (\<lambda>_. run_ok mv) (disk_ok mv)"

lemma local_bind: "local_op mv m \<Longrightarrow> (\<And>a. local_op mv (f a)) \<Longrightarrow> local_op mv (bind_io m f)"
  by (rule hoare_bind)

lemma local_then: "local_op mv m \<Longrightarrow> local_op mv n \<Longrightarrow> local_op mv (then_io m n)"
  by (rule hoare_then)

lemma local_when: "local_op mv m \<Longrightarrow> local_op mv (when_io b m)"
  by (rule hoare_when)

lemma local_gets: "local_op mv (gets f)"
  by (rule run_quiet [OF keeps_gets])

lemmas local_rules = run_ret run_fail hoare_if hoare_case_option' local_bind local_then local_when
  local_gets update_run save_run run_frame.store_ops [THEN run_quiet]

lemma advance_run: "local_op mv (advance_local_stage env st)"
  unfolding advance_local_stage_def
  by (intro local_rules) simp

lemma record_run: "keeps (run_ok mv) (record_outbound_after_push env it)"
  and remove_run: "keeps (run_ok mv) (remove_outbound_draft_after_push env it)"
proof -
  have d: "keeps (run_ok mv) (disk env c f)" if "\<And>w. same_core w (f w)" for c f
    using that by (rule run_frame.keeps_disk)
  have 1: "keeps (run_ok mv) (mark_sent_and_append_case env c mid raw)" for c mid raw
    unfolding mark_sent_and_append_case_def
    by (intro hoare_rules run_frame.prim d) (simp add: same_core_def)
  have 2: "keeps (run_ok mv) (case po_delivery pr of DeliverFile r \<Rightarrow> disk env ''record sent message'' (g pr)
       | DeliverEmail e \<Rightarrow> mark_sent_and_append_case env c (po_message_id pr) (po_raw pr))"
    if "\<And>w. same_core w (g pr w)" for pr g c
    by (cases "po_delivery pr") (simp_all add: 1 d that)
  show "keeps (run_ok mv) (record_outbound_after_push env it)"
    unfolding record_outbound_after_push_def
    by (intro hoare_rules run_frame.store_ops 2) (simp add: same_core_def)
  show "keeps (run_ok mv) (remove_outbound_draft_after_push env it)"
    unfolding remove_outbound_draft_after_push_def Let_def
    by (intro hoare_rules run_frame.store_ops d) (simp_all add: same_core_def)
qed

lemma finalize_run: "local_op mv (finalize_pushed_item env)"
  unfolding finalize_pushed_item_def stage_outbound_recorded_def stage_draft_removed_def
    stage_pending_cleared_def at_stage_def prepare_push_audit_pending_def
  by (intro local_rules advance_run record_run [THEN run_quiet] remove_run [THEN run_quiet])
    (simp_all add: item_ok_audit)

lemma delete_run: "hoare (\<lambda>w. run_ok mv w \<and> w_item w = it) (delete_item env it) (\<lambda>_. run_ok mv)
    (\<lambda>_. run_ok mv) (disk_ok mv)"
  unfolding delete_item_def
proof (rule hoare_gets_bind, rule hoare_when, rule hoare_disk, goal_cases)
  case (1 ex w)
  then have "disk_ok mv (queue_delete (pi_push_id it) (tick w))" by (simp add: run_ok_def disk_ok_delete)
  moreover have "item_ok it (Deleted (pi_push_id it) # w_log w)"
    using 1 by (auto simp: run_ok_def item_ok_def)
  ultimately show ?case using 1 by (simp add: run_ok_def queue_delete_def)
next
  case 2
  then show ?case by (auto simp: run_ok_def)
qed simp

lemma complete_run:
  "hoare (run_ok mv) (complete_successful_push_audit env) (\<lambda>_. disk_ok mv) (\<lambda>_. run_ok mv) (disk_ok mv)"
proof -
  have audit: "local_op mv (audit_push_succeeded env)"
    unfolding audit_push_succeeded_def by (intro local_rules)
  have fin: "hoare (run_ok mv) (upd_item (\<lambda>it. it\<lparr>pi_audit_pending := None, pi_last_error := None\<rparr>))
      (\<lambda>_. disk_ok mv) (\<lambda>_. run_ok mv) (disk_ok mv)"
    by (rule hoare_pre [OF hoare_upd_item]) (simp add: run_ok_def disk_ok_def)
  show ?thesis
    unfolding complete_successful_push_audit_def
    by (intro hoare_then [OF audit] hoare_then [OF hoare_gets_bind [OF delete_run]]
        hoare_then [OF run_quiet [OF run_frame.keeps_ask_res] fin])
qed

section \<open>The loop over the plan\<close>

lemma attempt_run:
  assumes "hoare P m (\<lambda>_. Q) (\<lambda>_. E) C"
  shows "hoare P (attempt m) (\<lambda>r w. if r = None then Q w else E w) H C"
  unfolding attempt_def
  by (rule hoare_match [OF assms]) (simp_all add: hoare_def ret_def)

lemma attempt_local: "local_op mv m \<Longrightarrow> local_op mv (attempt m)"
  unfolding attempt_def by (rule hoare_match, assumption) (simp_all add: hoare_def ret_def)

text \<open>The rest of the loop only needs the disk.\<close>

abbreviation disk_op :: "bool \<Rightarrow> (world \<Rightarrow> bool) \<Rightarrow> 'a cmd \<Rightarrow> bool" where
  "disk_op mv P m \<equiv> hoare P m (\<lambda>_. disk_ok mv) (\<lambda>_. disk_ok mv) (disk_ok mv)"

lemma local_disk: "local_op mv m \<Longrightarrow> disk_op mv (run_ok mv) m"
  by (erule hoare_weaken) (auto simp: run_ok_def)

lemma after_failure_run: "disk_op mv (run_ok mv) (after_failure env e n t)"
  unfolding after_failure_def audit_push_failed_def
  by (rule local_disk, intro local_rules attempt_local) simp

lemma after_success_run: "disk_op mv (run_ok mv) (after_success env t)"
  unfolding after_success_def
proof (rule hoare_bind [OF attempt_run [OF complete_run]])
  fix r
  have fail: "local_op mv (then_io (upd_item (\<lambda>it. it\<lparr>
         pi_audit_pending := map_option (\<lambda>p. p\<lparr>ap_last_error := Some (app_error_to_string e)\<rparr>) (pi_audit_pending it),
         pi_last_error := Some (app_error_to_string e)\<rparr>))
       (then_io (attempt (save_item env)) (ret t')))" for e t'
    by (intro local_rules attempt_local) (simp add: item_ok_audit_map)
  show "hoare (\<lambda>w. if r = None then disk_ok mv w else run_ok mv w) (case r of
     None \<Rightarrow> ret (t\<lparr>rt_pushed := Suc (rt_pushed t)\<rparr>)
   | Some e \<Rightarrow>
       then_io (upd_item (\<lambda>it. it\<lparr>
         pi_audit_pending := map_option (\<lambda>p. p\<lparr>ap_last_error := Some (app_error_to_string e)\<rparr>) (pi_audit_pending it),
         pi_last_error := Some (app_error_to_string e)\<rparr>))
       (then_io (attempt (save_item env))
       (ret (t\<lparr>rt_pushed := Suc (rt_pushed t), rt_audit_pending := Suc (rt_audit_pending t),
          rt_audit_warnings := Suc (rt_audit_warnings t)\<rparr>))))
     (\<lambda>_. disk_ok mv) (\<lambda>_. disk_ok mv) (disk_ok mv)"
    by (cases r) (simp_all add: hoare_ret_const local_disk [OF fail])
qed

lemma push_one_run:
  assumes cfg: "single_op_config cfg" and mv: "mv \<Longrightarrow> stable_folders env"
  shows "hoare (\<lambda>w. run_ok mv w \<and> runnable (w_item w)) (push_one env cfg) (\<lambda>_. run_ok mv) (\<lambda>_. run_ok mv) (disk_ok mv)"
  unfolding push_one_def
proof (rule hoare_gets_bind, rule hoare_if)
  fix it
  let ?P = "\<lambda>w. (run_ok mv w \<and> runnable (w_item w)) \<and> w_item w = it"
  show "hoare ?P (ret ()) (\<lambda>_. run_ok mv) (\<lambda>_. run_ok mv) (disk_ok mv)"
    by (rule hoare_pre [OF run_ret]) simp
  assume a: "\<not> pi_audit_pending it \<noteq> None"
  show "hoare ?P (then_io (case item_push_kind it of KDraft \<Rightarrow> push_outbound env cfg | KMessage \<Rightarrow> push_action_steps env)
       (finalize_pushed_item env)) (\<lambda>_. run_ok mv) (\<lambda>_. run_ok mv) (disk_ok mv)"
  proof (rule hoare_then [OF _ finalize_run], cases "item_push_kind it")
    case KDraft
    then show "hoare ?P (case item_push_kind it of KDraft \<Rightarrow> push_outbound env cfg | KMessage \<Rightarrow> push_action_steps env)
        (\<lambda>_. run_ok mv) (\<lambda>_. run_ok mv) (disk_ok mv)"
      using a by (simp, intro hoare_pre [OF push_outbound_run [OF cfg mv]]) (auto simp: drafted_def)
  next
    case KMessage
    then show "hoare ?P (case item_push_kind it of KDraft \<Rightarrow> push_outbound env cfg | KMessage \<Rightarrow> push_action_steps env)
        (\<lambda>_. run_ok mv) (\<lambda>_. run_ok mv) (disk_ok mv)"
      using a by (simp, intro hoare_pre [OF push_action_steps_run [OF mv]]) auto
  qed
qed


lemma item_ok_mono:
  assumes "item_ok it es" "\<And>i. sends (pi_push_id it) i es' \<le> sends (pi_push_id it) i es"
  shows "item_ok it es'"
proof -
  have "0 < sends (pi_push_id it) i es" if "0 < sends (pi_push_id it) i es'" for i
    using assms(2) [of i] that by linarith
  then show ?thesis using assms(1) unfolding item_ok_def by blast
qed

lemma item_ok_deleted: "item_ok it es \<Longrightarrow> item_ok it (Deleted q # es)"
  by (erule item_ok_mono) simp

lemma item_ok_called: "pi_push_id it \<noteq> p \<Longrightarrow> item_ok it es \<Longrightarrow> item_ok it (Called p i c eff # es)"
  by (erule item_ok_mono) simp

interpretation others: own_item
  "\<lambda>w. pi_push_id (w_item w) = p \<and> (\<forall>it \<in> set rest. pi_push_id it \<noteq> p \<longrightarrow> item_ok it (w_log w))" p for p rest
proof
  fix w w'
  assume "same_core w w'" "pi_push_id (w_item w) = p \<and> (\<forall>it \<in> set rest. pi_push_id it \<noteq> p \<longrightarrow> item_ok it (w_log w))"
  then show "pi_push_id (w_item w') = p \<and> (\<forall>it \<in> set rest. pi_push_id it \<noteq> p \<longrightarrow> item_ok it (w_log w'))"
    by (simp add: same_core_def)
next
  fix w i c eff
  assume "pi_push_id (w_item w) = p \<and> (\<forall>it \<in> set rest. pi_push_id it \<noteq> p \<longrightarrow> item_ok it (w_log w))"
  then show "pi_push_id (w_item (w\<lparr>w_log := Called p i c eff # w_log w\<rparr>)) = p
    \<and> (\<forall>it \<in> set rest. pi_push_id it \<noteq> p \<longrightarrow> item_ok it (w_log (w\<lparr>w_log := Called p i c eff # w_log w\<rparr>)))"
    by (simp add: item_ok_called)
qed (auto simp: queue_delete_def item_ok_log_put item_ok_deleted dest: item_identD)

definition waiting :: "bool \<Rightarrow> push_item list \<Rightarrow> world \<Rightarrow> bool" where
  "waiting mv rest w \<longleftrightarrow> disk_ok mv w \<and> distinct (map pi_push_id rest)
     \<and> (\<forall>it \<in> set rest. item_ok it (w_log w) \<and> runnable it)"

lemma push_items_disk:
  assumes cfg: "single_op_config cfg" and mv: "mv \<Longrightarrow> stable_folders env"
  shows "disk_op mv (waiting mv items) (push_items env cfg items t)"
proof (induction items arbitrary: t)
  case Nil
  show ?case by (simp add: hoare_def ret_def waiting_def)
next
  case (Cons it rest)
  define p where "p = pi_push_id it"
  define keep :: "world \<Rightarrow> bool" where "keep = (\<lambda>w. pi_push_id (w_item w) = p
    \<and> (\<forall>x \<in> set rest. pi_push_id x \<noteq> p \<longrightarrow> item_ok x (w_log w)))"
  define static where "static \<longleftrightarrow> distinct (map pi_push_id (it # rest)) \<and> (\<forall>x \<in> set rest. runnable x)"
  have one: "hoare (\<lambda>w. (run_ok mv w \<and> runnable (w_item w)) \<and> keep w) (attempt (push_one env cfg))
      (\<lambda>_ w. run_ok mv w \<and> keep w) (\<lambda>_ w. disk_ok mv w) (disk_ok mv)"
  proof (rule hoare_weaken [OF hoare_conj])
    show "hoare (\<lambda>w. run_ok mv w \<and> runnable (w_item w)) (attempt (push_one env cfg)) (\<lambda>_. run_ok mv) (\<lambda>_. run_ok mv) (disk_ok mv)"
      unfolding attempt_def
      by (rule hoare_match [OF push_one_run [OF cfg mv]]) (simp_all add: hoare_def ret_def)
    show "keeps keep (attempt (push_one env cfg))"
      unfolding keep_def by (intro others.keeps_attempt others.keeps_push_one)
  qed (auto simp: run_ok_def)
  have next_ok: "hoare (\<lambda>w. run_ok mv w \<and> keep w) (after_success env t) (\<lambda>_ w. disk_ok mv w \<and> keep w)
      (\<lambda>_ w. disk_ok mv w) (disk_ok mv)"
    by (rule hoare_weaken [OF hoare_conj [OF after_success_run]])
      (auto simp: keep_def intro: others.keeps_after_success)
  have rest: "disk_op mv (\<lambda>w. disk_ok mv w \<and> keep w) (bind_io (gets (\<lambda>w. pi_audit_pending (w_item w) \<noteq> None)) (\<lambda>stuck.
          if stuck then ret (t'\<lparr>rt_stopped := True, rt_unattempted := length rest\<rparr>)
          else push_items env cfg rest t'))" if static for t'
  proof (rule hoare_gets_bind, rule hoare_if)
    fix stuck
    show "hoare (\<lambda>w. (disk_ok mv w \<and> keep w) \<and> (pi_audit_pending (w_item w) \<noteq> None) = stuck)
       (push_items env cfg rest t') (\<lambda>_. disk_ok mv) (\<lambda>_. disk_ok mv) (disk_ok mv)"
      by (rule hoare_pre [OF Cons.IH])
        (use that in \<open>auto simp: waiting_def keep_def static_def p_def image_iff\<close>)
  qed (auto simp: hoare_def ret_def)
  have body: "disk_op mv (\<lambda>w. (run_ok mv w \<and> runnable (w_item w)) \<and> keep w)
     (bind_io (attempt (push_one env cfg)) (\<lambda>r. case r of
        Some e \<Rightarrow> after_failure env e (length rest) t
      | None \<Rightarrow> bind_io (after_success env t) (\<lambda>t'.
          bind_io (gets (\<lambda>w. pi_audit_pending (w_item w) \<noteq> None)) (\<lambda>stuck.
          if stuck then ret (t'\<lparr>rt_stopped := True, rt_unattempted := length rest\<rparr>)
          else push_items env cfg rest t'))))" if static
    by (rule hoare_bind [OF one], rule hoare_case_option', rule hoare_bind [OF next_ok rest [OF that]],
        rule hoare_pre [OF after_failure_run]) auto
  have start: "hoare (waiting mv (it # rest)) (upd_item (\<lambda>_. it))
      (\<lambda>_ w. (run_ok mv w \<and> runnable (w_item w)) \<and> keep w) (\<lambda>_. disk_ok mv) (disk_ok mv)"
    by (rule hoare_pre [OF hoare_upd_item])
      (auto simp: waiting_def run_ok_def disk_ok_def keep_def p_def)
  show ?case
  proof (cases static)
    case True
    show ?thesis unfolding push_items.simps by (rule hoare_then [OF start body [OF True]])
  next
    case False
    then have "\<not> waiting mv (it # rest) w" for w by (auto simp: waiting_def static_def)
    then show ?thesis unfolding hoare_def by blast
  qed
qed

section \<open>A push\<close>

lemma queued_item_ok:
  assumes "disk_ok mv w" "(p, it) \<in> set (w_queue w)"
  shows "item_ok it (w_log w)"
proof -
  have q: "pi_push_id it = p" "wf_steps it" "durable it = it" "named it" "distinct (map fst (w_queue w))"
    using assms by (auto simp: disk_ok_def queue_ok_def)
  then have "map_of (w_queue w) p = Some it" using assms(2) by simp
  moreover have "sent_once (w_queue w) (w_log w)" using assms(1) by (simp add: disk_ok_def)
  ultimately have "item_push_kind it = KDraft \<and> step_done it i" if "0 < sends p i (w_log w)" for i
    using that unfolding sent_once_def by (metis option.inject)
  then show ?thesis
    using durable_unplanned [OF q(3)] q(1,2,4) by (simp add: item_ok_def unplanned_def)
qed

lemma replanned_item_ok:
  assumes "item_ok it es" "replanned it it'"
  shows "item_ok it' es"
proof -
  have same: "pi_push_id it' = pi_push_id it" "pi_audit_pending it' = pi_audit_pending it"
    "item_push_kind it' = item_push_kind it"
    using assms(2) by (simp_all add: replanned_def item_push_kind_def)
  have sd: "pi_step_states it' = pi_step_states it \<or> \<not> has_started_effects it \<and> pi_step_states it' = []"
    using assms(2) by (auto simp: replanned_def)
  have d: "step_done it' i" if "step_done it i" for i
    using sd step_done_started [OF that] that
    by (auto simp: step_done_def step_has_def has_started_effects_def)
  have "wf_steps it'" using assms sd by (auto simp: item_ok_def wf_steps_def)
  with assms d same show ?thesis by (auto simp: item_ok_def replanned_def named_def)
qed

lemma mset_insert_item: "mset (insert_item x xs) = add_mset x (mset xs)"
  by (induction xs) auto

lemma mset_sort_items: "mset (sort_items xs) = mset xs"
  by (induction xs) (auto simp: sort_items_def mset_insert_item)

lemma distinct_mset: "mset xs = mset ys \<Longrightarrow> distinct (map f xs) = distinct (map f ys)"
  by (metis distinct_count_atmost_1 mset_map mset_eq_setD)

lemma list_all2_ids: "list_all2 (\<lambda>it r. replanned it (fst r) \<and> Q r) xs rs \<Longrightarrow>
    map (\<lambda>r. pi_push_id (fst r)) rs = map pi_push_id xs"
  by (induction rule: list_all2_induct) (auto simp: replanned_def)

lemma list_all2_source: "list_all2 P xs ys \<Longrightarrow> y \<in> set ys \<Longrightarrow> \<exists>x \<in> set xs. P x y"
  by (induction rule: list_all2_induct) auto

lemma plans_queue_waiting:
  assumes d: "disk_ok mv w" and plan: "plans_queue (w_queue w) plan"
  shows "waiting mv (rp_items plan) w"
proof -
  let ?q = "w_queue w"
  obtain planned where
    all: "list_all2 (\<lambda>it r. replanned it (fst r) \<and> runnable (fst r)) (sort_items (map snd ?q)) planned"
    and items: "rp_items plan = order_items_for_dependencies (map fst (filter snd planned))"
    using plan by (auto simp: plans_queue_def)
  have q: "queue_ok ?q" using d by (simp add: disk_ok_def)
  have ids: "map (pi_push_id \<circ> snd) ?q = map fst ?q" using q by (force simp: queue_ok_def)
  have "distinct (map pi_push_id (map snd ?q))" using q by (simp add: ids queue_ok_def)
  then have "distinct (map pi_push_id (sort_items (map snd ?q)))"
    using distinct_mset [OF mset_sort_items] by blast
  then have "distinct (map (\<lambda>r. pi_push_id (fst r)) planned)" using list_all2_ids [OF all] by simp
  then have "distinct (map (\<lambda>r. pi_push_id (fst r)) (filter snd planned))" by (rule distinct_map_filter)
  then have "distinct (map pi_push_id (map fst (filter snd planned)))" by (simp add: comp_def)
  then have dist: "distinct (map pi_push_id (rp_items plan))"
    unfolding items using distinct_mset [OF mset_order] by blast
  have "item_ok it (w_log w) \<and> runnable it" if "it \<in> set (rp_items plan)" for it
  proof -
    have "it \<in> fst ` set planned" using that by (auto simp: items set_order)
    then obtain r where r: "r \<in> set planned" "it = fst r" by blast
    then obtain x where "x \<in> set (sort_items (map snd ?q))" "replanned x (fst r)" "runnable (fst r)"
      using list_all2_source [OF all] by blast
    then have "item_ok x (w_log w)" using queued_item_ok [OF d] by auto
    then show ?thesis using r \<open>replanned x (fst r)\<close> \<open>runnable (fst r)\<close> replanned_item_ok by blast
  qed
  with d dist show ?thesis by (simp add: waiting_def)
qed

lemma waiting_put: "waiting mv items w \<Longrightarrow> it \<in> set items \<Longrightarrow> waiting mv items (queue_put it (tick w))"
  by (auto simp: waiting_def item_ok_log_put intro!: disk_ok_put item_ok_writable)

lemma waiting_delete: "waiting mv items w \<Longrightarrow> waiting mv items (queue_delete p (tick w))"
  by (auto simp: waiting_def disk_ok_delete item_ok_deleted, simp_all add: queue_delete_def item_ok_deleted)

interpretation waiting_frame: frame "waiting mv items" for mv items
  by standard (simp add: same_core_def waiting_def disk_ok_def)

lemma waiting_tick: "waiting mv items w \<Longrightarrow> waiting mv items (tick w)"
  by (rule waiting_frame.frame [rotated]) (simp_all add: same_core_def)

lemma reconcile_waiting: "keeps (waiting mv (rp_items plan)) (reconcile_push_plan env plan)"
proof -
  have w: "keeps (waiting mv (rp_items plan)) (write_item env it)" if "it \<in> set (rp_items plan)" for it
    unfolding write_item_def
    by (intro keeps_then waiting_frame.keeps_read hoare_disk) (auto simp: that waiting_put waiting_tick)
  have "keeps (waiting mv (rp_items plan)) (delete_item env it)" for it
    unfolding delete_item_def
    by (intro hoare_rules hoare_disk) (auto simp: waiting_delete waiting_tick)
  then show ?thesis
    unfolding reconcile_push_plan_def by (intro keeps_then hoare_for keeps_ret w)
qed

lemma waiting_quiet:
  assumes "keeps (waiting mv items) m"
  shows "hoare (waiting mv items) m (\<lambda>_. waiting mv items) (\<lambda>_. disk_ok mv) (disk_ok mv)"
  by (rule hoare_weaken [OF assms]) (auto simp: waiting_def)

lemma waiting_preview: "disk_op mv (waiting mv items) (ret a)"
  by (simp add: hoare_def ret_def waiting_def)

lemma push_disk_ok:
  assumes cfg: "single_op_config cfg" and mv: "mv \<Longrightarrow> stable_folders env"
  shows "keeps (disk_ok mv) (push env ph cfg confirm)"
  unfolding push_def
proof (rule hoare_bind)
  let ?I = "disk_ok mv"
  show "hoare ?I (build_push_plan env ph cfg) (\<lambda>plan. waiting mv (rp_items plan)) (\<lambda>_. ?I) ?I"
  proof (rule hoare_assume)
    fix w assume d: "?I w"
    then have "\<forall>x \<in> set (w_queue w). unplanned (snd x)"
      by (fastforce simp: disk_ok_def queue_ok_def intro: durable_unplanned)
    then have b: "hoare (queue_is (w_queue w)) (build_push_plan env ph cfg)
        (\<lambda>plan w'. queue_is (w_queue w) w' \<and> plans_queue (w_queue w) plan) any_err (\<lambda>_. True)"
      by (rule build_push_plan_spec [OF cfg])
    have "hoare (\<lambda>w'. queue_is (w_queue w) w' \<and> ?I w') (build_push_plan env ph cfg)
        (\<lambda>plan w'. (queue_is (w_queue w) w' \<and> plans_queue (w_queue w) plan) \<and> ?I w') (\<lambda>_. ?I) ?I"
      using b disk_frame.keeps_build [of mv env ph cfg]
      by (fastforce simp: hoare_def split: prod.splits outcome.splits)
    then show "hoare ((=) w) (build_push_plan env ph cfg) (\<lambda>plan. waiting mv (rp_items plan)) (\<lambda>_. ?I) ?I"
      by (rule hoare_weaken) (auto simp: queue_is_def d intro: plans_queue_waiting)
  qed
  fix plan :: resolved_push_plan
  have "disk_op mv (waiting mv (rp_items plan)) (bind_io (push_items env cfg (rp_items plan) no_totals)
      (\<lambda>t. ret (Confirmed t removed)))" for removed
    by (rule hoare_bind [OF push_items_disk [OF cfg mv]]) (simp_all add: hoare_ret_const)
  then have "disk_op mv (waiting mv (rp_items plan)) (bind_io (reconcile_push_plan env plan) (\<lambda>removed.
      bind_io (push_items env cfg (rp_items plan) no_totals) (\<lambda>t. ret (Confirmed t removed))))"
    by (rule hoare_bind [OF waiting_quiet [OF reconcile_waiting]])
  then show "disk_op mv (waiting mv (rp_items plan)) (then_io (of_res (require_plan_features env plan))
     (case confirm of
        None \<Rightarrow> ret (Preview (rp_plan_id plan))
      | Some confirmed \<Rightarrow>
          then_io (of_res (require_matching_push_plan plan confirmed))
          (bind_io (reconcile_push_plan env plan) (\<lambda>removed.
           bind_io (push_items env cfg (rp_items plan) no_totals) (\<lambda>t.
           ret (Confirmed t removed))))))"
    by (intro hoare_then [OF waiting_quiet [OF keeps_of_res]] hoare_case_option' waiting_preview)
qed

end
