(* ===== verification/Push_Recovery.thy ===== *)
theory Push_Recovery
  imports Push_Run
begin

text \<open>
  Recovery of an uncertain step by a person (src/src/push_queue/recovery.rs): it looks things up
  and changes only the queue file.  A settlement or a check is bound by its plan id to the exact
  queue record and evidence it was shown for.  The write that makes a step pending again is
  logged as \<open>Released\<close>.
\<close>

section \<open>Evidence and plans\<close>

datatype delivery_evidence =
    EmailEvidence string string "string list"
  | FileEvidence reply_route bool

record send_evidence =
  sv_step_index :: nat
  sv_label :: string
  sv_started :: "string option"
  sv_error_code :: "string option"
  sv_error :: "string option"
  sv_send_receipt :: "send_receipt option"
  sv_delivery :: delivery_evidence

record drafts_evidence =
  dv_draft_found :: bool
  dv_mailboxes :: "(string \<times> remote_location option) list"

text \<open>The canonical hashes that bind a confirmation are parameters.\<close>

record recovery_hashes =
  rh_send :: "push_item \<Rightarrow> send_evidence \<Rightarrow> string"
  rh_drafts :: "push_item \<Rightarrow> drafts_evidence \<Rightarrow> string"

datatype send_settlement = SettleSent | SettleNotSent

datatype recovery_outcome = RecoveryShown string | RecoveryApplied string push_item

section \<open>Errors\<close>

definition err_recovery_unsupported :: "string \<Rightarrow> app_error" where
  "err_recovery_unsupported p = with_details (app_error_new ''push_recovery_unsupported''
     ''recovery requires an uncertain first Drafts APPEND with every later step unstarted, or an uncertain send step with every earlier step succeeded and every later step unstarted'')
     (JObj [(''push_id'', JStr p)])"

definition err_settlement_unsupported :: "string \<Rightarrow> app_error" where
  "err_settlement_unsupported p = with_details (app_error_new ''push_recovery_settlement_unsupported''
     ''--sent and --not-sent apply only to an uncertain send step'') (JObj [(''push_id'', JStr p)])"

definition err_settlement_required :: app_error where
  "err_settlement_required = app_error_new ''push_recovery_settlement_required''
     ''settling an uncertain send requires --sent or --not-sent''"

definition err_recovery_plan_changed :: app_error where
  "err_recovery_plan_changed = flagged ''push_recovery_plan_changed''
     ''the confirmed recovery plan does not match the current push item and evidence''
     ''remote_calls_started'' False"

definition err_sent_evidence_found :: app_error where
  "err_sent_evidence_found = app_error_new ''push_recovery_sent_evidence_found''
     ''the file output for this send exists with the exact content; it was published''"

definition err_recovery_mailboxes :: app_error where
  "err_recovery_mailboxes = app_error_new ''push_recovery_mailboxes_invalid''
     ''recovery requires distinct resolved Drafts and Sent mailboxes''"

definition err_sent_copy_found :: app_error where
  "err_sent_copy_found = app_error_new ''push_recovery_sent_copy_found''
     ''a Sent copy exists; inspect delivery before recovering this push''"

definition is_send_label :: "string \<Rightarrow> bool" where
  "is_send_label l \<longleftrightarrow> l = ''smtp_send'' \<or> l = ''cloudflare_send'' \<or> l = ''file_send''"

definition require_matching_recovery_plan :: "string \<Rightarrow> string \<Rightarrow> unit res" where
  "require_matching_recovery_plan confirmed plan_id = require (confirmed = plan_id) err_recovery_plan_changed"

section \<open>The write\<close>

text \<open>\<open>write_item\<close>, where the file also makes step \<open>i\<close> pending again when \<open>rel = Some i\<close>.\<close>

definition write_settled :: "env \<Rightarrow> push_item \<Rightarrow> nat option \<Rightarrow> unit cmd" where
  "write_settled env it rel = then_io (disk_read env ''create directory'')
     (disk env ''write file'' (\<lambda>w. queue_put it (case rel of None \<Rightarrow> w
        | Some i \<Rightarrow> w\<lparr>w_log := Released (pi_push_id it) i # w_log w\<rparr>)))"

definition audit_and_write :: "env \<Rightarrow> push_item \<Rightarrow> string \<Rightarrow> nat option \<Rightarrow> unit cmd" where
  "audit_and_write env it kind rel = (case item_draft it of
     None \<Rightarrow> fail (err_recovery_unsupported (pi_push_id it))
   | Some d \<Rightarrow>
       then_io (append_audit_event env kind [(''push'', pi_push_id it), (''case'', dp_case_uid d)])
       (then_io (write_settled env it rel) (refresh_outbound_push_views env it)))"

section \<open>An uncertain send\<close>

definition unstarted :: "push_step_state \<Rightarrow> bool" where
  "unstarted s \<longleftrightarrow> ss_status s = Pending \<and> ss_started s = None \<and> ss_completed s = None"

definition send_recoverable :: "push_item \<Rightarrow> nat \<Rightarrow> bool" where
  "send_recoverable it unknown \<longleftrightarrow> item_draft it \<noteq> None \<and> pi_local_stage it = None \<and> pi_audit_pending it = None
     \<and> list_all (\<lambda>(i, s). ss_index s = i \<and> (i < unknown \<longrightarrow> ss_status s = Succeeded)
         \<and> (i > unknown \<longrightarrow> unstarted s)) (enumerate0 (pi_step_states it))"

definition settle_item ::
  "string \<Rightarrow> send_settlement \<Rightarrow> push_item \<Rightarrow> nat \<Rightarrow> action_step \<Rightarrow> push_item" where
  "settle_item t settle it i s = (let it' = (case settle of
       SettleSent \<Rightarrow> (let m = mark_step_succeeded t it i s in m\<lparr>pi_step_states := (pi_step_states m)[i :=
           (pi_step_states m ! i)\<lparr>ss_result_summary := Some ''settled as sent by a person through push recover''\<rparr>]\<rparr>)
     | SettleNotSent \<Rightarrow> it\<lparr>pi_step_states := (pi_step_states it)[i := mark_step_recovered_pending
           ''settled as not sent by a person through push recover; sending requires a newly confirmed push plan''
           (pi_step_states it ! i)]\<rparr>)
   in it'\<lparr>pi_updated := t, pi_last_error := None\<rparr>)"

definition released_step :: "send_settlement \<Rightarrow> nat \<Rightarrow> nat option" where
  "released_step settle i = (case settle of SettleSent \<Rightarrow> None | SettleNotSent \<Rightarrow> Some i)"

definition delivery_evidence_of :: "env \<Rightarrow> push_item \<Rightarrow> prepared_outbound \<Rightarrow> delivery_evidence cmd" where
  "delivery_evidence_of env it prepared = (case po_delivery prepared of
     DeliverEmail email \<Rightarrow> ret (EmailEvidence (outbound_rfc822_message_id it)
       (pe_envelope_from email) (pe_envelope_to email))
   | DeliverFile route \<Rightarrow> bind_io (ask (\<lambda>n. e_output_confirmed env n prepared)) (\<lambda>ok.
       ret (FileEvidence route ok)))"

fun publication_confirmed :: "delivery_evidence \<Rightarrow> bool" where
  "publication_confirmed (FileEvidence _ ok) = ok"
| "publication_confirmed (EmailEvidence _ _ _) = False"

definition send_evidence_of :: "nat \<Rightarrow> push_step_state \<Rightarrow> delivery_evidence \<Rightarrow> send_evidence" where
  "send_evidence_of unknown state delivery = \<lparr>sv_step_index = Suc unknown, sv_label = ss_label state,
     sv_started = ss_started state, sv_error_code = ss_error_code state, sv_error = ss_error state,
     sv_send_receipt = ss_send_receipt state, sv_delivery = delivery\<rparr>"

definition settle_send :: "env \<Rightarrow> string \<Rightarrow> push_item \<Rightarrow> nat \<Rightarrow> action_step \<Rightarrow> delivery_evidence
     \<Rightarrow> string option \<Rightarrow> send_settlement option \<Rightarrow> recovery_outcome cmd" where
  "settle_send env plan_id item unknown step delivery confirm settle = (case confirm of
     None \<Rightarrow> ret (RecoveryShown plan_id)
   | Some confirmed \<Rightarrow> (case settle of
       None \<Rightarrow> fail err_settlement_required
     | Some st \<Rightarrow>
       then_io (of_res (require_matching_recovery_plan confirmed plan_id))
       (if st = SettleNotSent \<and> publication_confirmed delivery
        then fail err_sent_evidence_found
        else bind_io (now env) (\<lambda>t. let item' = settle_item t st item unknown step in
          then_io (audit_and_write env item' ''push_recovery_settled'' (released_step st unknown))
            (ret (RecoveryApplied plan_id item'))))))"

text \<open>The part of \<open>recover_send\<close> after planning.\<close>

definition recover_planned_send :: "env \<Rightarrow> recovery_hashes \<Rightarrow> push_item \<Rightarrow> push_item \<Rightarrow> nat \<Rightarrow> string option
     \<Rightarrow> send_settlement option \<Rightarrow> recovery_outcome cmd" where
  "recover_planned_send env rh original item unknown confirm settle =
     (let un = err_recovery_unsupported (pi_push_id original) in
      case pi_planned_outbound item of
        None \<Rightarrow> fail un
      | Some ob \<Rightarrow> if \<not> unknown < length (ob_steps ob) then fail un
        else let step = ob_steps ob ! unknown; state = pi_step_states item ! unknown in
        if length (pi_step_states item) \<noteq> length (ob_steps ob) \<or> ob_action ob \<noteq> Send \<or> \<not> is_send step
           \<or> step_label step \<noteq> ss_label state then fail un
        else bind_io (prepare_current_outbound env item) (\<lambda>prepared.
          bind_io (delivery_evidence_of env item prepared) (\<lambda>delivery.
          settle_send env (rh_send rh original (send_evidence_of unknown state delivery))
            item unknown step delivery confirm settle)))"

definition recover_send :: "env \<Rightarrow> recovery_hashes \<Rightarrow> mail_config \<Rightarrow> push_item \<Rightarrow> string option
     \<Rightarrow> send_settlement option \<Rightarrow> recovery_outcome cmd" where
  "recover_send env rh cfg original confirm settle = (let un = err_recovery_unsupported (pi_push_id original) in
     case position (\<lambda>s. ss_status s = RemoteOutcomeUnknown) (pi_step_states original) of
       None \<Rightarrow> fail un
     | Some unknown \<Rightarrow> if \<not> send_recoverable original unknown then fail un
       else bind_io (plan_item env cfg original) (\<lambda>r. if \<not> snd r then fail un
         else recover_planned_send env rh original (fst r) unknown confirm settle))"

section \<open>An uncertain Drafts append\<close>

definition drafts_recoverable :: "push_item \<Rightarrow> bool" where
  "drafts_recoverable it \<longleftrightarrow> item_draft it \<noteq> None \<and> pi_local_stage it = None \<and> pi_audit_pending it = None
     \<and> (case pi_step_states it of [] \<Rightarrow> False
        | s # rest \<Rightarrow> ss_index s = 0 \<and> ss_status s = RemoteOutcomeUnknown
            \<and> list_all (\<lambda>(i, s). ss_index s = Suc i \<and> unstarted s) (enumerate0 rest))"

definition drafts_plan_recoverable :: "mail_config \<Rightarrow> push_item \<Rightarrow> outbound_push \<Rightarrow> action_step \<Rightarrow> string \<Rightarrow> bool" where
  "drafts_plan_recoverable cfg it ob first mailbox_id \<longleftrightarrow>
     length (pi_step_states it) = length (ob_steps ob) \<and> ob_action ob = Send
     \<and> ob_draft_uid ob = None \<and> ob_draft_uid_validity ob = None \<and> mailbox_is_kind cfg mailbox_id Drafts
     \<and> \<not> is_send first \<and> as_move_to_mailbox_id first = None \<and> as_add_flags first = []
     \<and> list_ex is_send (tl (ob_steps ob))"

text \<open>Only the adapter's explicit zero-result condition is absence.\<close>

definition lookup_absent :: "env \<Rightarrow> string \<Rightarrow> string \<Rightarrow> remote_location option cmd" where
  "lookup_absent env folder mid = match_io (ask (\<lambda>n. e_find env n folder mid)) ret
     (\<lambda>e. if error_code e = ''imap_uid_missing'' then ret None else fail e)"

definition sent_mailbox_ids :: "mail_config \<Rightarrow> string list" where
  "sent_mailbox_ids cfg = filter (\<lambda>ident. mailbox_is_kind cfg ident Sent) (map fst (mc_mailboxes cfg))"

definition recover_first_item :: "string \<Rightarrow> bool \<Rightarrow> push_item \<Rightarrow> action_step \<Rightarrow> push_item" where
  "recover_first_item t found it first = (let it' = (if found then mark_step_succeeded t it 0 first
       else it\<lparr>pi_step_states := (pi_step_states it)[0 := mark_step_recovered_pending
         ''explicit recovery found no Drafts or Sent copy; APPEND may be retried'' (pi_step_states it ! 0)]\<rparr>)
   in it'\<lparr>pi_updated := t, pi_last_error := None\<rparr>)"

definition apply_drafts_check :: "env \<Rightarrow> string \<Rightarrow> bool \<Rightarrow> push_item \<Rightarrow> action_step \<Rightarrow> string option
     \<Rightarrow> recovery_outcome cmd" where
  "apply_drafts_check env plan_id found item first confirm = (case confirm of
     None \<Rightarrow> ret (RecoveryShown plan_id)
   | Some confirmed \<Rightarrow> then_io (of_res (require_matching_recovery_plan confirmed plan_id))
       (bind_io (now env) (\<lambda>t. let item' = recover_first_item t found item first in
        then_io (audit_and_write env item' ''push_recovery_checked'' (if found then None else Some 0))
          (ret (RecoveryApplied plan_id item')))))"

definition check_drafts_append :: "env \<Rightarrow> recovery_hashes \<Rightarrow> mail_config \<Rightarrow> push_item \<Rightarrow> push_item
     \<Rightarrow> action_step \<Rightarrow> string \<Rightarrow> string option \<Rightarrow> recovery_outcome cmd" where
  "check_drafts_append env rh cfg original item first mailbox_id confirm =
     (let mid = outbound_rfc822_message_id item in
      bind_io (ask (\<lambda>n. e_folder env n mailbox_id)) (\<lambda>drafts_folder.
      bind_io (map_io (\<lambda>ident. ask (\<lambda>n. e_folder env n ident)) (sent_mailbox_ids cfg)) (\<lambda>folders.
      let sent_folders = remdups (sort folders) in
      if sent_folders = [] \<or> drafts_folder \<in> set sent_folders then fail err_recovery_mailboxes
      else bind_io (lookup_absent env drafts_folder mid) (\<lambda>draft_location.
        bind_io (map_io (\<lambda>f. bind_io (lookup_absent env f mid) (\<lambda>l. ret (f, l))) sent_folders) (\<lambda>sent.
        if list_ex (\<lambda>x. snd x \<noteq> None) sent then fail err_sent_copy_found
        else apply_drafts_check env
          (rh_drafts rh original \<lparr>dv_draft_found = (draft_location \<noteq> None),
             dv_mailboxes = (drafts_folder, draft_location) # sent\<rparr>)
          (draft_location \<noteq> None) item first confirm)))))"

definition recover_drafts_append :: "env \<Rightarrow> recovery_hashes \<Rightarrow> mail_config \<Rightarrow> push_item \<Rightarrow> string option
     \<Rightarrow> recovery_outcome cmd" where
  "recover_drafts_append env rh cfg original confirm = (let un = err_recovery_unsupported (pi_push_id original) in
     if \<not> drafts_recoverable original then fail un
     else bind_io (plan_item env cfg original) (\<lambda>r. if \<not> snd r then fail un
       else case pi_planned_outbound (fst r) of
         None \<Rightarrow> fail un
       | Some ob \<Rightarrow> (case ob_steps ob of
           [] \<Rightarrow> fail un
         | first # _ \<Rightarrow> (case as_append_to_mailbox_id first of
             None \<Rightarrow> fail un
           | Some mailbox_id \<Rightarrow>
               if \<not> drafts_plan_recoverable cfg (fst r) ob first mailbox_id then fail un
               else check_drafts_append env rh cfg original (fst r) first mailbox_id confirm))))"

section \<open>The command\<close>

definition recover_with_remote :: "env \<Rightarrow> recovery_hashes \<Rightarrow> mail_config \<Rightarrow> string \<Rightarrow> string option
     \<Rightarrow> send_settlement option \<Rightarrow> recovery_outcome cmd" where
  "recover_with_remote env rh cfg push_id confirm settle = bind_io (read_items env) (\<lambda>items.
     case List.find (\<lambda>it. pi_push_id it = push_id) items of
       None \<Rightarrow> fail (app_error_new ''push_not_found'' ''queued push item was not found'')
     | Some item \<Rightarrow>
         if (case List.find (\<lambda>s. ss_status s = RemoteOutcomeUnknown) (pi_step_states item) of
               None \<Rightarrow> False | Some s \<Rightarrow> is_send_label (ss_label s))
         then recover_send env rh cfg item confirm settle
         else if settle \<noteq> None then fail (err_settlement_unsupported push_id)
         else recover_drafts_append env rh cfg item confirm)"

end
