(* ===== verification/Push_Enqueue.thy ===== *)
theory Push_Enqueue
  imports Push_Run
begin

text \<open>
  Putting items into the queue and taking them out (src/src/push_queue/mod.rs): an item that has
  started keeps its action and its file; a requeue keeps its id and its place in the order.
\<close>

section \<open>Errors\<close>

definition err_push_already_started :: "string \<Rightarrow> string \<Rightarrow> app_error" where
  "err_push_already_started what p = app_error_new ''push_already_started'' (what @ p)"

definition err_unsupported_action_kind :: "string \<Rightarrow> app_error" where
  "err_unsupported_action_kind kind = err_push_item_invalid (''unsupported message push action kind: '' @ kind)"

section \<open>Drafts\<close>

text \<open>\<open>True\<close>: the requeue starts its progress afresh.\<close>

definition validate_outbound_requeue ::
  "push_item option \<Rightarrow> outbound_action option \<Rightarrow> outbound_action \<Rightarrow> bool res" where
  "validate_outbound_requeue existing previous a = (case existing of
     None \<Rightarrow> Inr False
   | Some it \<Rightarrow> if has_started_effects it
       then Inl (err_push_already_started
         ''outbound push item already started and cannot be re-queued: '' (pi_push_id it))
       else Inr (previous \<noteq> Some a))"

definition ensure_outbound_requeue_allowed ::
  "env \<Rightarrow> string \<Rightarrow> string \<Rightarrow> outbound_action option \<Rightarrow> outbound_action \<Rightarrow> unit cmd" where
  "ensure_outbound_requeue_allowed env case_uid draft_name previous a =
     bind_io (find_draft_item env case_uid draft_name) (\<lambda>existing.
     then_io (of_res (validate_outbound_requeue existing previous a)) (ret ()))"

definition draft_item ::
  "string \<Rightarrow> u64 \<Rightarrow> string \<Rightarrow> string \<Rightarrow> string \<Rightarrow> push_item option \<Rightarrow> push_item option \<Rightarrow> push_item" where
  "draft_item push_id seq case_uid draft_name t existing preserved =
     \<lparr>pi_push_id = push_id, pi_enqueue_seq = seq,
      pi_payload = PDraft \<lparr>dp_case_uid = case_uid, dp_draft_name = draft_name,
        dp_draft_uid_validity = Option.bind (Option.bind existing item_draft) dp_draft_uid_validity,
        dp_draft_uid = Option.bind (Option.bind existing item_draft) dp_draft_uid\<rparr>,
      pi_planned_outbound = None, pi_planned_outbound_message = None, pi_planned_message_action = None,
      pi_planned_message_rfc822 = [],
      pi_created = (case preserved of None \<Rightarrow> t | Some p \<Rightarrow> pi_created p), pi_updated = t,
      pi_attempt_count = (case preserved of None \<Rightarrow> 0 | Some p \<Rightarrow> pi_attempt_count p),
      pi_step_states = (case preserved of None \<Rightarrow> [] | Some p \<Rightarrow> pi_step_states p),
      pi_local_stage = Option.bind preserved pi_local_stage,
      pi_audit_pending = Option.bind preserved pi_audit_pending, pi_last_error = None\<rparr>"

definition queue_outbound ::
  "env \<Rightarrow> string \<Rightarrow> string \<Rightarrow> outbound_action \<Rightarrow> outbound_action option \<Rightarrow> string cmd" where
  "queue_outbound env case_uid draft_name a previous =
     bind_io (find_draft_item env case_uid draft_name) (\<lambda>existing.
     bind_io (of_res (validate_outbound_requeue existing previous a)) (\<lambda>reset.
     let preserved = (if reset then None else existing) in
     bind_io (case existing of Some it \<Rightarrow> ret (pi_push_id it) | None \<Rightarrow> new_draft_push_id env) (\<lambda>push_id.
     then_io (disk_read env ''create directory'')
     (bind_io (now env) (\<lambda>t.
      bind_io (case existing of Some it \<Rightarrow> ret (pi_enqueue_seq it) | None \<Rightarrow> next_enqueue_seq env) (\<lambda>seq.
      then_io (write_item env (draft_item push_id seq case_uid draft_name t existing preserved))
        (ret push_id)))))))"

section \<open>Message actions\<close>

definition ensure_started_action_unchanged :: "push_item \<Rightarrow> message_push_action \<Rightarrow> unit res" where
  "ensure_started_action_unchanged existing a = require (\<not> has_started_effects existing)
     (err_push_already_started (''message push item already started and cannot change action from '' @
        (case item_message existing of None \<Rightarrow> ''unknown'' | Some m \<Rightarrow> action_kind (mp_action m)) @
        '' to '' @ action_kind a @ '': '') (pi_push_id existing))"

definition action_changed :: "push_item option \<Rightarrow> message_push_action \<Rightarrow> bool" where
  "action_changed existing a = (case Option.bind existing item_message of
     None \<Rightarrow> False | Some m \<Rightarrow> mp_action m \<noteq> a)"

definition ensure_message_action_can_queue ::
  "env \<Rightarrow> string \<Rightarrow> string list \<Rightarrow> action_step list \<Rightarrow> unit cmd" where
  "ensure_message_action_can_queue env kind mids steps =
     (if steps = [] then ret ()
      else case action_from_kind kind of None \<Rightarrow> ret ()
      | Some a \<Rightarrow> for_io mids (\<lambda>mid. bind_io (find_message_item env mid) (\<lambda>existing.
          case existing of None \<Rightarrow> ret ()
          | Some it \<Rightarrow> if action_changed existing a then of_res (ensure_started_action_unchanged it a)
              else ret ())))"

definition message_item ::
  "u64 \<Rightarrow> string \<Rightarrow> message_push_action \<Rightarrow> push_location list \<Rightarrow> action_step list \<Rightarrow> string option \<Rightarrow> string
     \<Rightarrow> push_item option \<Rightarrow> push_item" where
  "message_item seq mid a locations steps reply t preserved =
     \<lparr>pi_push_id = message_push_id mid, pi_enqueue_seq = seq,
      pi_payload = PMessage \<lparr>mp_message_id = mid, mp_action = a,
        mp_snapshot = Option.bind (Option.bind preserved item_message) mp_snapshot\<rparr>,
      pi_planned_outbound = None, pi_planned_outbound_message = None,
      pi_planned_message_action = Some \<lparr>ma_action = a, ma_message_ids = [mid],
        ma_locations = filter (\<lambda>l. loc_message_id l = mid) locations, ma_steps = steps,
        ma_reply_to_message_id = reply\<rparr>,
      pi_planned_message_rfc822 = [],
      pi_created = (case preserved of None \<Rightarrow> t | Some p \<Rightarrow> pi_created p), pi_updated = t,
      pi_attempt_count = (case preserved of None \<Rightarrow> 0 | Some p \<Rightarrow> pi_attempt_count p),
      pi_step_states = (case preserved of None \<Rightarrow> [] | Some p \<Rightarrow> pi_step_states p),
      pi_local_stage = Option.bind preserved pi_local_stage,
      pi_audit_pending = Option.bind preserved pi_audit_pending,
      pi_last_error = Option.bind preserved pi_last_error\<rparr>"

fun queue_messages :: "env \<Rightarrow> message_push_action \<Rightarrow> push_location list \<Rightarrow> action_step list \<Rightarrow> string option
     \<Rightarrow> string \<Rightarrow> string list \<Rightarrow> push_item option \<Rightarrow> push_item option cmd" where
  "queue_messages env a locations steps reply t [] first = ret first"
| "queue_messages env a locations steps reply t (mid # mids) first =
     (if mid \<notin> set (map loc_message_id locations)
      then queue_messages env a locations steps reply t mids first
      else bind_io (find_message_item env mid) (\<lambda>existing.
        then_io (case existing of
            Some it \<Rightarrow> if action_changed existing a then of_res (ensure_started_action_unchanged it a) else ret ()
          | None \<Rightarrow> ret ())
        (let preserved = (if action_changed existing a then None else existing) in
         bind_io (case existing of Some it \<Rightarrow> ret (pi_enqueue_seq it) | None \<Rightarrow> next_enqueue_seq env) (\<lambda>seq.
         let it = message_item seq mid a locations steps reply t preserved in
         then_io (write_item env it)
           (queue_messages env a locations steps reply t mids
              (case first of None \<Rightarrow> Some it | Some f \<Rightarrow> Some f))))))"

definition queue_action_steps :: "env \<Rightarrow> string \<Rightarrow> string list \<Rightarrow> push_location list \<Rightarrow> action_step list
     \<Rightarrow> string option \<Rightarrow> push_item option cmd" where
  "queue_action_steps env kind mids locations steps reply =
     (if mids = [] \<or> steps = [] then ret None
      else bind_io (of_res (ok_or (err_unsupported_action_kind kind) (action_from_kind kind))) (\<lambda>a.
        if locations = [] then ret None
        else then_io (disk_read env ''create directory'') (bind_io (now env) (\<lambda>t.
          queue_messages env a locations steps reply t mids None))))"

section \<open>Removal\<close>

definition for_draft :: "string \<Rightarrow> string \<Rightarrow> push_item \<Rightarrow> bool" where
  "for_draft case_uid draft_name it = (case item_draft it of None \<Rightarrow> False
     | Some d \<Rightarrow> dp_case_uid d = case_uid \<and> dp_draft_name d = draft_name)"

definition remove_outbound_for_draft :: "env \<Rightarrow> string \<Rightarrow> string \<Rightarrow> (string \<times> outbound_action) list cmd" where
  "remove_outbound_for_draft env case_uid draft_name = bind_io (read_items env) (\<lambda>items.
     let found = filter (for_draft case_uid draft_name) items in
     case List.find has_started_effects found of
       Some it \<Rightarrow> fail (err_push_already_started
         ''outbound push item already started and cannot be removed locally: '' (pi_push_id it))
     | None \<Rightarrow> map_io (\<lambda>it. bind_io (draft_frontmatter env case_uid draft_name) (\<lambda>fm.
         then_io (delete_item env it)
           (ret (pi_push_id it, case Option.bind fm df_sync_intent of
              Some intent \<Rightarrow> action_of_intent intent | None \<Rightarrow> Send)))) found)"

definition message_push_items :: "env \<Rightarrow> string \<Rightarrow> push_item list cmd" where
  "message_push_items env mid = bind_io (read_items env) (\<lambda>items.
     ret (filter (\<lambda>it. case item_message it of None \<Rightarrow> False | Some m \<Rightarrow> mp_message_id m = mid) items))"

definition removable_message_pushes :: "env \<Rightarrow> string \<Rightarrow> string \<Rightarrow> push_item list cmd" where
  "removable_message_pushes env mid kind =
     bind_io (of_res (ok_or (err_unsupported_action_kind kind) (action_from_kind kind))) (\<lambda>a.
     bind_io (message_push_items env mid) (\<lambda>items.
     let found = filter (\<lambda>it. case item_message it of None \<Rightarrow> False
           | Some m \<Rightarrow> mp_message_id m = mid \<and> mp_action m = a) items in
     case List.find has_started_effects found of
       Some it \<Rightarrow> fail (err_push_already_started
         ''push item already started and cannot be undone locally: '' (pi_push_id it))
     | None \<Rightarrow> ret found))"

definition remove_pending_message_pushes :: "env \<Rightarrow> string \<Rightarrow> string \<Rightarrow> string list cmd" where
  "remove_pending_message_pushes env mid kind = bind_io (removable_message_pushes env mid kind)
     (map_io (\<lambda>it. then_io (delete_item env it) (ret (pi_push_id it))))"

section \<open>Status\<close>

record queue_counts =
  st_drafts :: nat
  st_case :: nat
  st_notification :: nat
  st_spam :: nat
  st_trash :: nat

definition item_summary_label :: "push_item \<Rightarrow> string" where
  "item_summary_label it = (if pi_planned_outbound it \<noteq> None then ''drafts''
     else case pi_planned_message_action it of
       Some a \<Rightarrow> action_mode_label (ma_action a)
     | None \<Rightarrow> (case pi_payload it of PDraft _ \<Rightarrow> ''drafts'' | PMessage _ \<Rightarrow> ''message''))"

definition count_item :: "queue_counts \<Rightarrow> push_item \<Rightarrow> queue_counts" where
  "count_item st it = (let l = item_summary_label it in
     if l = ''drafts'' then st\<lparr>st_drafts := Suc (st_drafts st)\<rparr>
     else if l = ''case'' then st\<lparr>st_case := Suc (st_case st)\<rparr>
     else if l = ''notification'' then st\<lparr>st_notification := Suc (st_notification st)\<rparr>
     else if l = ''spam'' then st\<lparr>st_spam := Suc (st_spam st)\<rparr>
     else if l = ''trash'' then st\<lparr>st_trash := Suc (st_trash st)\<rparr>
     else st)"

definition push_status :: "env \<Rightarrow> plan_hashes \<Rightarrow> mail_config \<Rightarrow> queue_counts cmd" where
  "push_status env ph cfg = bind_io (build_push_plan env ph cfg) (\<lambda>plan.
     ret (fold (\<lambda>it st. count_item st it) (rp_items plan)
       \<lparr>st_drafts = 0, st_case = 0, st_notification = 0, st_spam = 0, st_trash = 0\<rparr>))"

end
