(* ===== verification/Queue_Safety.thy ===== *)
theory Queue_Safety
  imports Push_Tracking Push_Recovery Push_Enqueue Config_Facts
begin

text \<open>
  The safety invariant through every other command that writes the queue (enqueueing, removal,
  recovery), and from there through every history of commands.
\<close>

section \<open>Enqueueing and removal\<close>

lemma disk_sends_item:
  assumes "disk_ok mv w" "0 < sends p i (w_log w)"
  shows "\<exists>it. map_of (w_queue w) p = Some it \<and> item_push_kind it = KDraft \<and> step_done it i"
  using assms by (simp add: disk_ok_def sent_once_def)

lemma disk_item:
  assumes "disk_ok mv w" "it \<in> set (map snd (w_queue w))"
  shows "map_of (w_queue w) (pi_push_id it) = Some it \<and> named it \<and> wf_steps it \<and> durable it = it"
  using assms by (auto simp: disk_ok_def queue_ok_def intro: map_of_is_SomeI)

lemma unstarted_unsent:
  assumes d: "disk_ok mv w" and it: "it \<in> set (map snd (w_queue w))" and n: "\<not> has_started_effects it"
  shows "sends (pi_push_id it) i (w_log w) = 0"
proof (rule ccontr)
  assume "sends (pi_push_id it) i (w_log w) \<noteq> 0"
  then obtain x where "map_of (w_queue w) (pi_push_id it) = Some x" "step_done x i"
    using disk_sends_item [OF d] by blast
  then have "step_done it i" using disk_item [OF d it] by simp
  then show False using n by (simp add: has_started_effects_def step_done_started)
qed

lemma free_unsent: "disk_ok mv w \<Longrightarrow> map_of (w_queue w) p = None \<Longrightarrow> sends p i (w_log w) = 0"
  using disk_sends_item [of mv w p i] by (cases "sends p i (w_log w)") auto

lemma message_id_unsent:
  assumes "disk_ok mv w"
  shows "sends (message_push_id mid) i (w_log w) = 0"
proof (rule ccontr)
  assume "sends (message_push_id mid) i (w_log w) \<noteq> 0"
  then obtain x where "map_of (w_queue w) (message_push_id mid) = Some x" "item_push_kind x = KDraft"
    using disk_sends_item [OF assms] by blast
  then have "prefix ''push_draft_'' (message_push_id mid)"
    using assms by (auto simp: disk_ok_def dest!: queue_ok_item) (auto simp: named_def)
  then show False by (simp add: message_push_id_def)
qed

text \<open>An item with a fixed id may be written while nothing was sent under that id.\<close>

definition quiet_id :: "bool \<Rightarrow> string \<Rightarrow> world \<Rightarrow> bool" where
  "quiet_id mv p w \<longleftrightarrow> disk_ok mv w \<and> (\<forall>i. sends p i (w_log w) = 0)"

interpretation quiet_id: frame "quiet_id mv p" for mv p
  by standard (simp add: same_core_def quiet_id_def disk_ok_def)

lemma write_quiet:
  assumes "pi_push_id it = p" "wf_steps it" "named it"
  shows "keeps (quiet_id mv p) (write_item env it)"
  unfolding write_item_def
  by (intro keeps_then quiet_id.keeps_read hoare_disk)
    (use assms in \<open>auto simp: quiet_id_def writable_def intro!: disk_ok_put\<close>)

lemma quiet_disk:
  assumes "keeps (quiet_id mv p) m" "\<And>w. P w \<Longrightarrow> quiet_id mv p w"
  shows "disk_op mv P m"
  by (rule hoare_weaken [OF assms(1)]) (auto simp: assms(2), auto simp: quiet_id_def)

text \<open>What a lookup in the queue finds.\<close>

definition in_queue :: "push_item \<Rightarrow> world \<Rightarrow> bool" where
  "in_queue it w \<longleftrightarrow> it \<in> set (map snd (w_queue w))"

lemma find_spec:
  assumes "m = bind_io (read_items env) (\<lambda>items. ret (List.find P items))"
  shows "hoare (disk_ok mv) m (\<lambda>r w. disk_ok mv w \<and> (\<forall>it. r = Some it \<longrightarrow> in_queue it w \<and> P it))
    (\<lambda>_. disk_ok mv) (disk_ok mv)"
  unfolding assms read_items_def
  by (rule hoare_bind [where R = "\<lambda>r w. disk_ok mv w \<and> r = map snd (w_queue w)"],
      rule hoare_then [OF disk_frame.keeps_read])
    (auto simp: hoare_def gets_def ret_def in_queue_def dest: find_Some_prop)

lemmas find_draft_spec = find_spec [OF find_draft_item_def]
lemmas find_message_spec = find_spec [OF find_message_item_def]

interpretation queued: frame "\<lambda>w. disk_ok mv w \<and> in_queue it w" for mv it
  by standard (simp add: same_core_def disk_ok_def in_queue_def)

lemma new_push_id_spec:
  "hoare (disk_ok mv) (new_draft_push_id_from env n)
    (\<lambda>p w. disk_ok mv w \<and> map_of (w_queue w) p = None \<and> prefix ''push_draft_'' p) (\<lambda>_. disk_ok mv) (disk_ok mv)"
proof (induction n)
  case 0
  show ?case by (simp add: hoare_def fail_def)
next
  case (Suc n)
  have "hoare (disk_ok mv) (ask (\<lambda>t. Reply (''push_draft_'' @ e_random env t)))
      (\<lambda>p w. disk_ok mv w \<and> prefix ''push_draft_'' p) (\<lambda>_. disk_ok mv) (disk_ok mv)"
    by (rule hoare_ask) auto
  moreover have "hoare (\<lambda>w. disk_ok mv w \<and> prefix ''push_draft_'' p) (bind_io (gets (\<lambda>w. map_of (w_queue w) p = None))
      (\<lambda>free. if free then ret p else new_draft_push_id_from env n))
    (\<lambda>p w. disk_ok mv w \<and> map_of (w_queue w) p = None \<and> prefix ''push_draft_'' p) (\<lambda>_. disk_ok mv) (disk_ok mv)" for p
    by (rule hoare_gets_bind, rule hoare_if) (auto simp: hoare_def ret_def intro!: hoare_pre [OF Suc, unfolded hoare_def])
  ultimately show ?case by (simp add: hoare_bind)
qed

lemma queue_outbound_disk: "keeps (disk_ok mv) (queue_outbound env c d a prev)"
  unfolding queue_outbound_def
proof (rule hoare_bind [OF find_draft_spec])
  fix existing
  let ?F = "\<lambda>w. disk_ok mv w \<and> (\<forall>it. existing = Some it \<longrightarrow> in_queue it w \<and>
      (case item_draft it of None \<Rightarrow> False | Some x \<Rightarrow> dp_case_uid x = c \<and> dp_draft_name x = d))"
  have put: "disk_op mv (\<lambda>w. quiet_id mv p w \<and> prefix ''push_draft_'' p
        \<and> (\<forall>it. preserved = Some it \<longrightarrow> wf_steps it))
      (then_io (disk_read env ''create directory'')
     (bind_io (now env) (\<lambda>t.
      bind_io (case existing of Some it \<Rightarrow> ret (pi_enqueue_seq it) | None \<Rightarrow> next_enqueue_seq env) (\<lambda>seq.
      then_io (write_item env (draft_item p seq c d t existing preserved)) (ret p)))))" for p preserved
  proof (cases "prefix ''push_draft_'' p \<and> (\<forall>it. preserved = Some it \<longrightarrow> wf_steps it)")
    case True
    have "wf_steps (draft_item p seq c d t existing preserved)" for seq t
      using True by (auto simp: draft_item_def wf_steps_def split: option.splits)
    moreover have "named (draft_item p seq c d t existing preserved)" for seq t
      using True by (simp add: draft_item_def named_def)
    moreover have "pi_push_id (draft_item p seq c d t existing preserved) = p" for seq t
      by (simp add: draft_item_def)
    ultimately show ?thesis
      by (intro quiet_disk [where p = p] hoare_rules quiet_id.prim quiet_id.queue_reads write_quiet) auto
  next
    case False
    then have "\<not> (quiet_id mv p w \<and> prefix ''push_draft_'' p \<and> (\<forall>it. preserved = Some it \<longrightarrow> wf_steps it))" for w
      by blast
    then show ?thesis unfolding hoare_def by blast
  qed
  show "disk_op mv ?F (bind_io (of_res (validate_outbound_requeue existing prev a)) (\<lambda>reset.
     let preserved = (if reset then None else existing) in
     bind_io (case existing of Some it \<Rightarrow> ret (pi_push_id it) | None \<Rightarrow> new_draft_push_id env) (\<lambda>push_id.
     then_io (disk_read env ''create directory'')
     (bind_io (now env) (\<lambda>t.
      bind_io (case existing of Some it \<Rightarrow> ret (pi_enqueue_seq it) | None \<Rightarrow> next_enqueue_seq env) (\<lambda>seq.
      then_io (write_item env (draft_item push_id seq c d t existing preserved)) (ret push_id)))))))"
  proof (cases existing)
    case None
    have "hoare ?F (new_draft_push_id env) (\<lambda>p w. quiet_id mv p w \<and> prefix ''push_draft_'' p) (\<lambda>_. disk_ok mv) (disk_ok mv)"
      unfolding new_draft_push_id_def
      by (rule hoare_weaken [OF new_push_id_spec]) (auto simp: quiet_id_def free_unsent)
    then show ?thesis
      using None put [unfolded None, where preserved = None]
      by (simp add: validate_outbound_requeue_def of_res_def io_ret_bind hoare_bind)
  next
    case (Some it)
    show ?thesis
    proof (cases "has_started_effects it")
      case True
      then show ?thesis
        using Some by (simp add: validate_outbound_requeue_def of_res_def io_defs hoare_def)
    next
      case False
      have q: "quiet_id mv (pi_push_id it) w \<and> prefix ''push_draft_'' (pi_push_id it) \<and> wf_steps it" if "?F w" for w
        using that Some disk_item [of mv w it] unstarted_unsent [OF _ _ False, of mv w]
        by (auto simp: quiet_id_def in_queue_def named_def item_push_kind_def item_draft_def
            split: push_payload.splits option.splits)
      have w: "disk_op mv ?F (then_io (disk_read env ''create directory'')
         (bind_io (now env) (\<lambda>t. then_io (write_item env
            (draft_item (pi_push_id it) (pi_enqueue_seq it) c d t existing preserved)) (ret (pi_push_id it)))))"
        if "preserved = None \<or> preserved = existing" for preserved
        using put [of "pi_push_id it" preserved] q that Some
        by (auto simp: io_ret_bind elim!: hoare_pre)
      show ?thesis
        using Some False w [of None] w [of existing]
        by (simp add: validate_outbound_requeue_def of_res_def io_ret_bind Let_def)
    qed
  qed
qed


lemma message_quiet: "disk_ok mv w = quiet_id mv (message_push_id mid) w"
  by (auto simp: quiet_id_def message_id_unsent)

lemma write_message_disk:
  assumes "preserved = None \<or> (\<exists>it. preserved = Some it \<and> wf_steps it)"
  shows "keeps (disk_ok mv) (write_item env (message_item seq mid a ls steps reply t preserved))"
proof -
  have "wf_steps (message_item seq mid a ls steps reply t preserved)"
    using assms by (auto simp: message_item_def wf_steps_def split: option.splits)
  moreover have "named (message_item seq mid a ls steps reply t preserved)"
    by (simp add: message_item_def named_def item_push_kind_def)
  ultimately have "keeps (quiet_id mv (message_push_id mid)) (write_item env (message_item seq mid a ls steps reply t preserved))"
    by (intro write_quiet) (simp_all add: message_item_def)
  moreover have "disk_ok mv = quiet_id mv (message_push_id mid)"
    by (rule ext) (rule message_quiet)
  ultimately show ?thesis by simp
qed

lemma queue_messages_disk: "keeps (disk_ok mv) (queue_messages env a ls steps reply t mids first)"
proof (induction mids arbitrary: first)
  case Nil
  show ?case by (simp add: keeps_ret)
next
  case (Cons mid mids)
  have tail: "keeps (disk_ok mv) (then_io (case existing of
            Some it \<Rightarrow> if action_changed existing a then of_res (ensure_started_action_unchanged it a) else ret ()
          | None \<Rightarrow> ret ())
        (let preserved = (if action_changed existing a then None else existing) in
         bind_io (case existing of Some it \<Rightarrow> ret (pi_enqueue_seq it) | None \<Rightarrow> next_enqueue_seq env) (\<lambda>seq.
         let it = message_item seq mid a ls steps reply t preserved in
         then_io (write_item env it)
           (queue_messages env a ls steps reply t mids
              (case first of None \<Rightarrow> Some it | Some f \<Rightarrow> Some f)))))"
    if "existing = None \<or> (\<exists>it. existing = Some it \<and> wf_steps it)" for existing
    unfolding Let_def
    by (intro hoare_rules disk_frame.queue_reads write_message_disk Cons.IH) (use that in auto)
  show ?case
  proof (cases "mid \<in> set (map loc_message_id ls)")
    case False
    then show ?thesis using Cons.IH by simp
  next
    case True
    show ?thesis
      unfolding queue_messages.simps if_not_P [OF not_not [THEN iffD2, OF True]]
    proof (rule hoare_bind [OF find_message_spec])
      fix existing
      show "disk_op mv (\<lambda>w. disk_ok mv w \<and> (\<forall>it. existing = Some it \<longrightarrow> in_queue it w \<and>
          (case item_message it of None \<Rightarrow> False | Some m \<Rightarrow> mp_message_id m = mid)))
        (then_io (case existing of
            Some it \<Rightarrow> if action_changed existing a then of_res (ensure_started_action_unchanged it a) else ret ()
          | None \<Rightarrow> ret ())
        (let preserved = (if action_changed existing a then None else existing) in
         bind_io (case existing of Some it \<Rightarrow> ret (pi_enqueue_seq it) | None \<Rightarrow> next_enqueue_seq env) (\<lambda>seq.
         let it = message_item seq mid a ls steps reply t preserved in
         then_io (write_item env it)
           (queue_messages env a ls steps reply t mids
              (case first of None \<Rightarrow> Some it | Some f \<Rightarrow> Some f)))))" (is "disk_op mv ?P ?m")
      proof (cases "existing = None \<or> (\<exists>it. existing = Some it \<and> wf_steps it)")
        case True
        show ?thesis by (rule hoare_pre [OF tail [OF True]]) simp
      next
        case False
        then obtain it where "existing = Some it" "\<not> wf_steps it" by auto
        then have "\<not> ?P w" for w using disk_item [of mv w it] by (auto simp: in_queue_def)
        then show ?thesis unfolding hoare_def by blast
      qed
    qed
  qed
qed

lemma queue_action_steps_disk: "keeps (disk_ok mv) (queue_action_steps env kind mids ls steps reply)"
  unfolding queue_action_steps_def
  by (intro hoare_rules disk_frame.prim queue_messages_disk)

lemma delete_item_disk: "keeps (disk_ok mv) (delete_item env it)"
  unfolding delete_item_def
  by (intro hoare_rules hoare_disk) (auto simp: disk_ok_delete)

lemma keeps_case_option_eq:
  "keeps I m \<Longrightarrow> (\<And>y. keeps I (f y)) \<Longrightarrow> keeps I (case x of Some y \<Rightarrow> f y | None \<Rightarrow> m)"
  by (cases x) auto

lemma remove_outbound_disk: "keeps (disk_ok mv) (remove_outbound_for_draft env c d)"
  unfolding remove_outbound_for_draft_def Let_def
  by (intro hoare_rules disk_frame.store_ops disk_frame.queue_reads delete_item_disk)

lemma remove_message_disk: "keeps (disk_ok mv) (remove_pending_message_pushes env mid kind)"
  unfolding remove_pending_message_pushes_def removable_message_pushes_def message_push_items_def Let_def
  by (intro hoare_rules disk_frame.queue_reads delete_item_disk)

section \<open>Recovery\<close>

lemma update_first_nth:
  assumes "map k xs = [m..<m + length xs]" "i < length xs"
  shows "update_first (\<lambda>x. k x = m + i) f xs = xs[i := f (xs ! i)]"
  using assms
proof (induction xs arbitrary: m i)
  case (Cons x xs)
  have "[m..<m + length (x # xs)] = m # [Suc m..<Suc m + length xs]"
    using upt_conv_Cons [of m "m + length (x # xs)"] by simp
  then have k: "k x = m" "map k xs = [Suc m..<Suc m + length xs]" using Cons.prems(1) by auto
  show ?case
  proof (cases i)
    case 0
    then show ?thesis using k by simp
  next
    case (Suc j)
    then show ?thesis using Cons.IH [OF k(2), of j] Cons.prems(2) k(1) by simp
  qed
qed simp

lemma wf_update_nth:
  assumes "wf_steps it" "i < length (pi_step_states it)"
  shows "it\<lparr>pi_step_states := (pi_step_states it)[i := f (pi_step_states it ! i)]\<rparr> = update_step i f it"
  using update_first_nth [of ss_index "pi_step_states it" 0 i f] assms
  by (simp add: wf_steps_def update_step_def)

lemma released_disk:
  assumes "disk_ok mv w"
  shows "sends p j (Released p i # w_log w) = (if j = i then 0 else sends p j (w_log w))"
    "queue_ok (w_queue w)" "log_ok (w_queue w) (Released p i # w_log w)"
    "sent_once (w_queue w) (Released p i # w_log w)" "write_ahead mv (Released p i # w_log w)"
  using assms by (auto simp: disk_ok_def sent_once_def log_ok_def)

text \<open>An item may be written over the queued one when it keeps every step that was sent for.\<close>

definition settles :: "push_item \<Rightarrow> push_item \<Rightarrow> nat option \<Rightarrow> bool" where
  "settles old it rel \<longleftrightarrow> pi_push_id it = pi_push_id old \<and> item_push_kind it = item_push_kind old
     \<and> wf_steps it \<and> (\<forall>j. step_done old j \<longrightarrow> rel \<noteq> Some j \<longrightarrow> step_done it j)"

lemma write_settled_disk:
  assumes s: "settles old it rel"
  shows "disk_op mv (\<lambda>w. disk_ok mv w \<and> in_queue old w) (write_settled env it rel)"
  unfolding write_settled_def
proof (rule hoare_then)
  show "hoare (\<lambda>w. disk_ok mv w \<and> in_queue old w) (disk_read env ''create directory'')
      (\<lambda>_ w. disk_ok mv w \<and> in_queue old w) (\<lambda>_. disk_ok mv) (disk_ok mv)"
    by (rule hoare_weaken [OF queued.keeps_read]) auto
  let ?f = "\<lambda>w. queue_put it (case rel of None \<Rightarrow> w | Some i \<Rightarrow> w\<lparr>w_log := Released (pi_push_id it) i # w_log w\<rparr>)"
  show "disk_op mv (\<lambda>w. disk_ok mv w \<and> in_queue old w) (disk env ''write file'' ?f)"
  proof (rule hoare_disk)
    fix w assume w: "disk_ok mv w \<and> in_queue old w"
    let ?w = "case rel of None \<Rightarrow> tick w | Some i \<Rightarrow> (tick w)\<lparr>w_log := Released (pi_push_id it) i # w_log w\<rparr>"
    have old: "named old" "map_of (w_queue w) (pi_push_id old) = Some old"
      using w disk_item by (auto simp: in_queue_def)
    have "item_push_kind old = KDraft \<and> step_done old j" if "0 < sends (pi_push_id it) j (w_log w)" for j
      using w that old s disk_sends_item [of mv w "pi_push_id it" j] by (auto simp: settles_def)
    then have "writable it (w_log ?w)"
      using s old(1) by (auto simp: writable_def settles_def named_def split: option.splits)
    moreover have "disk_ok mv ?w"
      using w released_disk by (auto simp: disk_ok_def split: option.splits)
    ultimately have "disk_ok mv (queue_put it ?w)" by (rule disk_ok_put [rotated])
    then show "disk_ok mv (?f (tick w)) \<and> disk_ok mv (?f (tick w)) \<and> (\<forall>m. disk_ok mv (?f (tick w)))"
      by (simp split: option.splits)
  qed simp
qed

lemma audit_and_write_disk:
  assumes "settles old it rel"
  shows "disk_op mv (\<lambda>w. disk_ok mv w \<and> in_queue old w) (audit_and_write env it kind rel)"
proof -
  have a: "hoare (\<lambda>w. disk_ok mv w \<and> in_queue old w) (append_audit_event env k ts)
      (\<lambda>_ w. disk_ok mv w \<and> in_queue old w) (\<lambda>_. disk_ok mv) (disk_ok mv)" for k ts
    by (rule hoare_weaken [OF queued.keeps_append_audit]) auto
  show ?thesis
    unfolding audit_and_write_def
    by (intro hoare_case_option' hoare_then [OF a] hoare_then [OF write_settled_disk [OF assms]]
        disk_frame.keeps_refresh_outbound) (simp add: hoare_def fail_def)
qed


lemma wf_updated_states: "wf_steps it \<Longrightarrow> (\<And>st. ss_index (f st) = ss_index st) \<Longrightarrow> wf_steps (update_step i f it)"
  by simp

lemma settles_fields [simp]:
  "settles old (it\<lparr>pi_updated := t\<rparr>) rel = settles old it rel"
  "settles old (it\<lparr>pi_last_error := e\<rparr>) rel = settles old it rel"
  by (simp_all add: settles_def step_done_def)

lemma settles_succeeded:
  assumes "wf_steps it" "pi_push_id it = pi_push_id old" "item_push_kind it = item_push_kind old"
    "pi_step_states it = pi_step_states old" "i < length (pi_step_states it)"
  shows "settles old (mark_step_succeeded t it i s) None"
proof -
  have "has_step it i" using assms(1,5) wf_index_bound by blast
  moreover have "step_done it j = step_done old j" for j
    using assms(4) by (simp add: step_done_def step_has_def)
  ultimately show ?thesis
    using assms status_transitions(2) [OF assms(1), of t i s]
    by (auto simp: settles_def step_done_def) (simp_all add: mark_step_succeeded_def)
qed

lemma settles_summary:
  assumes "settles old it rel" "i < length (pi_step_states it)"
    "\<And>st. ss_index (f st) = ss_index st" "\<And>st. ss_status (f st) = ss_status st"
  shows "settles old (it\<lparr>pi_step_states := (pi_step_states it)[i := f (pi_step_states it ! i)]\<rparr>) rel"
proof -
  have wf: "wf_steps it" using assms(1) by (simp add: settles_def)
  show ?thesis
    using assms(1) step_has_same_status [OF wf assms(3,4)]
    by (simp add: wf_update_nth [OF wf assms(2)] settles_def step_done_def assms(3))
qed

lemma settles_released:
  assumes "wf_steps it" "pi_push_id it = pi_push_id old" "item_push_kind it = item_push_kind old"
    "pi_step_states it = pi_step_states old" "i < length (pi_step_states it)"
  shows "settles old (it\<lparr>pi_step_states := (pi_step_states it)[i := mark_step_recovered_pending m (pi_step_states it ! i)]\<rparr>) (Some i)"
proof -
  have "step_done it j = step_done old j" for j
    using assms(4) by (simp add: step_done_def step_has_def)
  then show ?thesis
    unfolding wf_update_nth [OF assms(1,5)]
    using assms(1-3) step_has_update_step [OF assms(1), of "mark_step_recovered_pending m" Pending i]
    by (auto simp: settles_def step_done_def)
qed

lemma replanned_started:
  assumes "replanned old it" "has_started_effects old" "wf_steps old"
  shows "wf_steps it" "pi_push_id it = pi_push_id old" "item_push_kind it = item_push_kind old"
    "pi_step_states it = pi_step_states old"
  using assms by (auto simp: replanned_def item_push_kind_def wf_steps_def)

lemma settle_item_settles:
  assumes "replanned old it" "has_started_effects old" "wf_steps old" "i < length (pi_step_states old)"
  shows "settles old (settle_item t st it i s) (released_step st i)"
proof -
  note it = replanned_started [OF assms(1-3)]
  have i: "i < length (pi_step_states it)" using it(4) assms(4) by simp
  show ?thesis
  proof (cases st)
    case SettleSent
    have "i < length (pi_step_states (mark_step_succeeded t it i s))"
      using i by (simp add: mark_step_succeeded_def update_step_def)
    from settles_summary [OF settles_succeeded [OF it i] this,
        of "\<lambda>x. x\<lparr>ss_result_summary := Some ''settled as sent by a person through push recover''\<rparr>"]
    show ?thesis using SettleSent by (simp add: settle_item_def released_step_def Let_def)
  next
    case SettleNotSent
    then show ?thesis
      using settles_released [OF it i] by (simp add: settle_item_def released_step_def Let_def)
  qed
qed

lemma recover_first_settles:
  assumes "replanned old it" "has_started_effects old" "wf_steps old" "0 < length (pi_step_states old)"
  shows "settles old (recover_first_item t found it s) (if found then None else Some 0)"
proof -
  note it = replanned_started [OF assms(1-3)]
  have i: "0 < length (pi_step_states it)" using it(4) assms(4) by simp
  show ?thesis
    using settles_succeeded [OF it i] settles_released [OF it i]
    by (cases found) (simp_all add: recover_first_item_def Let_def)
qed

text \<open>Everything before the write only looks: planning, the remote and the prepared message.\<close>

abbreviation looked :: "bool \<Rightarrow> push_item \<Rightarrow> world \<Rightarrow> bool" where
  "looked mv old \<equiv> \<lambda>w. disk_ok mv w \<and> in_queue old w"

lemma looked_quiet:
  assumes "keeps (looked mv old) m"
  shows "hoare (looked mv old) m (\<lambda>_. looked mv old) (\<lambda>_. disk_ok mv) (disk_ok mv)"
  by (rule hoare_weaken [OF assms]) auto

lemma looked_bind:
  assumes "keeps (looked mv old) m" "\<And>a. disk_op mv (looked mv old) (f a)"
  shows "disk_op mv (looked mv old) (bind_io m f)"
  by (rule hoare_bind [OF looked_quiet [OF assms(1)] assms(2)])

lemma looked_then:
  assumes "keeps (looked mv old) m" "disk_op mv (looked mv old) n"
  shows "disk_op mv (looked mv old) (then_io m n)"
  by (rule hoare_then [OF looked_quiet [OF assms(1)] assms(2)])

lemma looked_fail: "disk_op mv (looked mv old) (fail e)"
  by (simp add: hoare_def fail_def)

lemma looked_ret: "disk_op mv (looked mv old) (ret a)"
  by (simp add: hoare_def ret_def)

lemma disk_ret: "disk_op mv (disk_ok mv) (ret a)"
  by (simp add: hoare_def ret_def)

lemma looked_plan:
  assumes "single_op_config cfg" "unplanned old"
  shows "hoare (looked mv old) (plan_item env cfg old) (\<lambda>r w. looked mv old w \<and> replanned old (fst r))
    (\<lambda>_. disk_ok mv) (disk_ok mv)"
proof -
  have "hoare (\<lambda>_. True) (plan_item env cfg old) (\<lambda>r _. replanned old (fst r)) (\<lambda>_ _. True) (\<lambda>_. True)"
    by (rule hoare_weaken [OF plan_item_spec [OF assms(2,1)]]) auto
  from hoare_conj_keeps [OF queued.keeps_plan_item this]
  show ?thesis by (rule hoare_weaken) auto
qed

lemmas looked_rules = looked_fail looked_ret hoare_if hoare_case_option' looked_then looked_bind

lemma settled_tail:
  assumes "settles old it rel"
  shows "disk_op mv (looked mv old) (then_io (audit_and_write env it kind rel) (ret x))"
  by (rule hoare_then [OF audit_and_write_disk [OF assms] disk_ret])

lemma unknown_started: "x \<in> set (pi_step_states it) \<Longrightarrow> ss_status x = RemoteOutcomeUnknown \<Longrightarrow> has_started_effects it"
  by (auto simp: has_started_effects_def has_started_steps_def step_started_def list_ex_iff)

lemma settle_send_disk:
  assumes "replanned old it" "has_started_effects old" "wf_steps old" "i < length (pi_step_states old)"
  shows "disk_op mv (looked mv old) (settle_send env plan_id it i s d confirm settle)"
  unfolding settle_send_def Let_def
  by (intro looked_rules keeps_of_res queued.prim settled_tail settle_item_settles assms)

lemma recover_planned_disk:
  assumes "replanned old it" "has_started_effects old" "wf_steps old" "i < length (pi_step_states old)"
  shows "disk_op mv (looked mv old) (recover_planned_send env rh old it i confirm settle)"
proof -
  have "keeps (looked mv old) (delivery_evidence_of env it pr)" for pr
    unfolding delivery_evidence_of_def
    by (cases "po_delivery pr") (simp_all add: keeps_ret, intro hoare_rules queued.prim)
  then show ?thesis
    unfolding recover_planned_send_def Let_def
    by (intro looked_rules queued.planning_ops settle_send_disk assms)
qed

lemma recover_send_disk:
  assumes cfg: "single_op_config cfg" and old: "unplanned old" "wf_steps old"
  shows "disk_op mv (looked mv old) (recover_send env rh cfg old confirm settle)"
proof (cases "position (\<lambda>s. ss_status s = RemoteOutcomeUnknown) (pi_step_states old)")
  case None
  then show ?thesis by (simp add: recover_send_def Let_def looked_fail)
next
  case (Some i)
  have i: "i < length (pi_step_states old)" "ss_status (pi_step_states old ! i) = RemoteOutcomeUnknown"
    using position_Some [OF Some] by auto
  then have st: "has_started_effects old" using unknown_started [OF nth_mem] by blast
  show ?thesis
    unfolding recover_send_def Let_def Some option.case
  proof (rule hoare_if [OF looked_fail], rule hoare_bind [OF looked_plan [OF cfg old(1)]], rule hoare_and_pure)
    fix r :: "push_item \<times> bool" assume "replanned old (fst r)"
    then show "disk_op mv (looked mv old) (if \<not> snd r then fail (err_recovery_unsupported (pi_push_id old))
        else recover_planned_send env rh old (fst r) i confirm settle)"
      by (intro looked_rules recover_planned_disk st old(2) i(1))
  qed
qed

lemma lookup_absent_keeps: "keeps (looked mv old) (lookup_absent env f mid)"
  unfolding lookup_absent_def by (intro hoare_rules queued.prim)

lemma check_drafts_disk:
  assumes "replanned old it" "has_started_effects old" "wf_steps old" "0 < length (pi_step_states old)"
  shows "disk_op mv (looked mv old) (check_drafts_append env rh cfg old it s mb confirm)"
  unfolding check_drafts_append_def apply_drafts_check_def Let_def
  by (intro looked_rules queued.prim keeps_map keeps_bind keeps_ret lookup_absent_keeps keeps_of_res settled_tail
      recover_first_settles assms)

lemma recover_drafts_disk:
  assumes cfg: "single_op_config cfg" and old: "unplanned old" "wf_steps old"
  shows "disk_op mv (looked mv old) (recover_drafts_append env rh cfg old confirm)"
  unfolding recover_drafts_append_def Let_def
proof (rule hoare_if [OF looked_fail], rule hoare_bind [OF looked_plan [OF cfg old(1)]], rule hoare_and_pure)
  assume "\<not> \<not> drafts_recoverable old"
  then have st: "has_started_effects old" "0 < length (pi_step_states old)"
    by (auto simp: drafts_recoverable_def intro: unknown_started split: list.splits)
  fix r :: "push_item \<times> bool" assume r: "replanned old (fst r)"
  show "disk_op mv (looked mv old) (if \<not> snd r then fail (err_recovery_unsupported (pi_push_id old))
       else case pi_planned_outbound (fst r) of
         None \<Rightarrow> fail (err_recovery_unsupported (pi_push_id old))
       | Some ob \<Rightarrow> (case ob_steps ob of
           [] \<Rightarrow> fail (err_recovery_unsupported (pi_push_id old))
         | first # _ \<Rightarrow> (case as_append_to_mailbox_id first of
             None \<Rightarrow> fail (err_recovery_unsupported (pi_push_id old))
           | Some mailbox_id \<Rightarrow>
               if \<not> drafts_plan_recoverable cfg (fst r) ob first mailbox_id
               then fail (err_recovery_unsupported (pi_push_id old))
               else check_drafts_append env rh cfg old (fst r) first mailbox_id confirm)))"
    using r st old(2) by (simp split: option.split list.split add: looked_fail check_drafts_disk)
qed

lemma recover_disk:
  assumes cfg: "single_op_config cfg"
  shows "keeps (disk_ok mv) (recover_with_remote env rh cfg push_id confirm settle)"
  unfolding recover_with_remote_def read_items_def
proof (rule hoare_bind [where R = "\<lambda>r w. disk_ok mv w \<and> r = map snd (w_queue w)"])
  show "hoare (disk_ok mv) (then_io (disk_read env ''read push queue'') (gets (\<lambda>w. map snd (w_queue w))))
      (\<lambda>r w. disk_ok mv w \<and> r = map snd (w_queue w)) (\<lambda>_. disk_ok mv) (disk_ok mv)"
    by (rule hoare_then [OF disk_frame.keeps_read]) (auto simp: hoare_def gets_def)
  fix items
  let ?P = "\<lambda>w. disk_ok mv w \<and> items = map snd (w_queue w)"
  show "disk_op mv ?P (case List.find (\<lambda>it. pi_push_id it = push_id) items of
       None \<Rightarrow> fail (app_error_new ''push_not_found'' ''queued push item was not found'')
     | Some item \<Rightarrow>
         if (case List.find (\<lambda>s. ss_status s = RemoteOutcomeUnknown) (pi_step_states item) of
               None \<Rightarrow> False | Some s \<Rightarrow> is_send_label (ss_label s))
         then recover_send env rh cfg item confirm settle
         else if settle \<noteq> None then fail (err_settlement_unsupported push_id)
         else recover_drafts_append env rh cfg item confirm)"
  proof (rule hoare_case_option)
    show "disk_op mv ?P (fail (app_error_new ''push_not_found'' ''queued push item was not found''))"
      by (simp add: hoare_def fail_def)
    fix item assume "List.find (\<lambda>it. pi_push_id it = push_id) items = Some item"
    then have inq: "item \<in> set items" by (auto dest: find_Some_prop)
    have ok: "looked mv item w \<and> unplanned item \<and> wf_steps item" if "?P w" for w
      using that inq disk_item [of mv w item] by (auto simp: in_queue_def intro: durable_unplanned)
    show "disk_op mv ?P (if (case List.find (\<lambda>s. ss_status s = RemoteOutcomeUnknown) (pi_step_states item) of
               None \<Rightarrow> False | Some s \<Rightarrow> is_send_label (ss_label s))
         then recover_send env rh cfg item confirm settle
         else if settle \<noteq> None then fail (err_settlement_unsupported push_id)
         else recover_drafts_append env rh cfg item confirm)"
    proof (cases "unplanned item \<and> wf_steps item")
      case True
      have "disk_op mv (looked mv item) (if (case List.find (\<lambda>s. ss_status s = RemoteOutcomeUnknown) (pi_step_states item) of
               None \<Rightarrow> False | Some s \<Rightarrow> is_send_label (ss_label s))
         then recover_send env rh cfg item confirm settle
         else if settle \<noteq> None then fail (err_settlement_unsupported push_id)
         else recover_drafts_append env rh cfg item confirm)"
        using True by (intro hoare_if looked_fail recover_send_disk recover_drafts_disk cfg) auto
      then show ?thesis by (rule hoare_pre) (use ok in blast)
    next
      case False
      then have "\<not> ?P w" for w using ok by blast
      then show ?thesis unfolding hoare_def by blast
    qed
  qed
qed

section \<open>Histories\<close>

text \<open>
  The commands that touch the queue, in any order, each with its own environment: the disk and
  the server may do anything at any point, a kill included.  Between commands everything but
  the queue directory may change: messages arrive, a person edits drafts and cases.
\<close>

datatype command =
    Push plan_hashes mail_config "string option"
  | Recover recovery_hashes mail_config string "string option" "send_settlement option"
  | QueueOutbound string string outbound_action "outbound_action option"
  | QueueActions string "string list" "push_location list" "action_step list" "string option"
  | RemoveOutbound string string
  | RemoveMessage string string

fun command_config :: "command \<Rightarrow> mail_config option" where
  "command_config (Push _ cfg _) = Some cfg"
| "command_config (Recover _ cfg _ _ _) = Some cfg"
| "command_config _ = None"

fun run :: "env \<Rightarrow> command \<Rightarrow> world \<Rightarrow> world" where
  "run env (Push ph cfg confirm) w = snd (push env ph cfg confirm w)"
| "run env (Recover rh cfg p confirm settle) w = snd (recover_with_remote env rh cfg p confirm settle w)"
| "run env (QueueOutbound c d a prev) w = snd (queue_outbound env c d a prev w)"
| "run env (QueueActions k mids ls steps reply) w = snd (queue_action_steps env k mids ls steps reply w)"
| "run env (RemoveOutbound c d) w = snd (remove_outbound_for_draft env c d w)"
| "run env (RemoveMessage mid k) w = snd (remove_pending_message_pushes env mid k w)"

definition admissible :: "bool \<Rightarrow> env \<Rightarrow> command \<Rightarrow> bool" where
  "admissible mv env c \<longleftrightarrow> (case command_config c of None \<Rightarrow> True | Some cfg \<Rightarrow> config_validate cfg = Inr ())
     \<and> (mv \<longrightarrow> stable_folders env)"

inductive history :: "bool \<Rightarrow> world \<Rightarrow> bool" for mv where
  start: "w_queue w = [] \<Longrightarrow> w_log w = [] \<Longrightarrow> history mv w"
| command: "history mv w \<Longrightarrow> admissible mv env c \<Longrightarrow> history mv (run env c w)"
| other: "history mv w \<Longrightarrow> w_queue w' = w_queue w \<Longrightarrow> w_log w' = w_log w \<Longrightarrow> history mv w'"

inductive_cases history_elim: "history mv w"

lemma validated_single_op: "config_validate cfg = Inr () \<Longrightarrow> single_op_config cfg"
  using validated_ops by (auto simp: single_op_config_def list_all_iff configured_outbound_steps_def)

lemma history_disk_ok: "history mv w \<Longrightarrow> disk_ok mv w"
proof (induction rule: history.induct)
  case (start w)
  then show ?case by (simp add: disk_ok_def queue_ok_def log_ok_def sent_once_def)
next
  case (command w env c)
  then have single: "command_config c = Some cfg \<Longrightarrow> single_op_config cfg" for cfg
    by (simp add: admissible_def validated_single_op)
  have mv: "mv \<Longrightarrow> stable_folders env" using command by (simp add: admissible_def)
  show ?case
    using command.IH single mv
    by (cases c) (auto intro!: keepsD [OF push_disk_ok] keepsD [OF recover_disk] keepsD [OF queue_outbound_disk]
        keepsD [OF queue_action_steps_disk] keepsD [OF remove_outbound_disk] keepsD [OF remove_message_disk])
next
  case (other w w')
  then show ?case by (simp add: disk_ok_def)
qed

end
