(* ===== verification/Effects.thy ===== *)
theory Effects
  imports Ownership Plan_Facts Push_Enqueue Push_Recovery
begin

text \<open>
  Which command may do what to the queue and the server.  \<open>queue_writes\<close> is the contract of the
  commands that only write or delete queue items; \<open>pushing\<close> adds remote calls and covers a push,
  \<open>recovering\<close> adds the release of a step and covers recovery.
\<close>

section \<open>Writing and deleting queue items\<close>

locale queue_writes = frame +
  fixes ok :: "push_item \<Rightarrow> bool"
  assumes put_kept: "I w \<Longrightarrow> ok it \<Longrightarrow> I (queue_put it w)"
    and delete_kept: "I w \<Longrightarrow> I (queue_delete p w)"
    and ok_ident: "item_ident a = item_ident b \<Longrightarrow> ok a = ok b"
begin

lemma tick_kept: "I w \<Longrightarrow> I (tick w)"
  by (rule frame [rotated]) (simp_all add: same_core_def)

lemma keeps_write_item: "ok it \<Longrightarrow> keeps I (write_item env it)"
  unfolding write_item_def
  by (intro keeps_then keeps_read hoare_disk) (simp_all add: put_kept tick_kept)

lemma keeps_delete_item: "keeps I (delete_item env it)"
  unfolding delete_item_def by (intro hoare_rules hoare_disk) (simp_all add: delete_kept tick_kept)

lemma keeps_remove_outbound: "keeps I (remove_outbound_for_draft env c d)"
  unfolding remove_outbound_for_draft_def Let_def
  by (intro hoare_rules store_ops queue_reads keeps_delete_item)

lemma keeps_remove_messages: "keeps I (remove_pending_message_pushes env mid kind)"
  unfolding remove_pending_message_pushes_def removable_message_pushes_def message_push_items_def Let_def
  by (intro hoare_rules queue_reads keeps_delete_item)

lemma keeps_reconcile: "\<forall>it \<in> set (rp_items plan). ok it \<Longrightarrow> keeps I (reconcile_push_plan env plan)"
  unfolding reconcile_push_plan_def
  by (intro keeps_then hoare_for keeps_ret keeps_write_item keeps_delete_item) auto

end

text \<open>A contract for commands that enqueue items nobody has seen.\<close>

locale queueing = queue_writes +
  assumes any_ok: "ok it"
begin

lemmas keeps_write_any = keeps_write_item [OF any_ok]

lemma keeps_queue_outbound: "keeps I (queue_outbound env c d a prev)"
  unfolding queue_outbound_def Let_def
  by (intro hoare_rules prim queue_reads keeps_write_any)

lemma keeps_queue_messages: "keeps I (queue_messages env a ls steps reply t mids first)"
  by (induction mids arbitrary: first)
    (simp_all add: Let_def, (intro conjI impI hoare_rules queue_reads keeps_write_any | simp)+)

lemma keeps_queue_actions: "keeps I (queue_action_steps env kind mids ls steps reply)"
  unfolding queue_action_steps_def by (intro hoare_rules prim keeps_queue_messages)

end

section \<open>Planning\<close>

text \<open>Planning an item keeps its identity, so a plan is over items the contract allows.\<close>

lemma plan_keeps_ident:
  "hoare (\<lambda>_. True) (plan_item env cfg it) (\<lambda>r _. item_ident (fst r) = item_ident it) any_err (\<lambda>_. True)"
proof -
  have reset: "hoare (\<lambda>_. True) (reset_progress_if_plan_changed env cfg x) (\<lambda>r _. item_ident r = item_ident x) any_err (\<lambda>_. True)" for x
    unfolding reset_progress_if_plan_changed_def
    by (intro hoare_if hoare_true_bind) (auto simp: hoare_def ret_def fail_def)
  have rfc: "hoare (\<lambda>_. True) (planned_rfc822 env x) (\<lambda>r _. item_ident r = item_ident x) any_err (\<lambda>_. True)" for x
    unfolding planned_rfc822_def
    by (intro hoare_case_option hoare_if hoare_true_bind) (auto simp: hoare_def ret_def)
  have step: "hoare (\<lambda>_. True) (bind_io m f) Q any_err (\<lambda>_. True)"
    if "hoare (\<lambda>_. True) m (\<lambda>r _. item_ident r = item_ident x) any_err (\<lambda>_. True)" "item_ident x = item_ident it"
      "\<And>r. item_ident r = item_ident it \<Longrightarrow> hoare (\<lambda>_. True) (f r) Q any_err (\<lambda>_. True)"
    for m x and f :: "push_item \<Rightarrow> (push_item \<times> bool) cmd" and Q
    by (rule hoare_bind [OF that(1)]) (use that(2,3) in \<open>auto simp: hoare_def\<close>)
  have message: "hoare (\<lambda>_. True) (plan_message_item env cfg it m) (\<lambda>r _. item_ident (fst r) = item_ident it) any_err (\<lambda>_. True)" for m
    unfolding plan_message_item_def Let_def
    by (intro hoare_true_bind hoare_if step [OF reset] step [OF rfc]) (simp_all add: hoare_def ret_def fail_def)
  have draft: "hoare (\<lambda>_. True) (plan_draft_item env cfg it d) (\<lambda>r _. item_ident (fst r) = item_ident it) any_err (\<lambda>_. True)" for d
    unfolding plan_draft_item_def Let_def
    by (intro hoare_true_bind hoare_if hoare_case_option step [OF reset]) (simp_all add: hoare_def ret_def fail_def)
  have audit: "hydrate_audit_pending_plan it = Inr x \<Longrightarrow> item_ident x = item_ident it" for x
    by (auto simp: hydrate_audit_pending_plan_def Let_def bind_res_Inr_iff split: option.splits push_payload.splits if_splits)
  then have "hoare (\<lambda>_. True) (bind_io (of_res (hydrate_audit_pending_plan it)) (\<lambda>x. ret (x, True)))
      (\<lambda>r _. item_ident (fst r) = item_ident it) any_err (\<lambda>_. True)"
    by (cases "hydrate_audit_pending_plan it") (simp_all add: hoare_def io_defs of_res_def)
  then show ?thesis
    unfolding plan_item_def using message draft by (simp split: push_payload.split)
qed

locale plan_items_ok = queue_writes +
  assumes queued_ok: "I w \<Longrightarrow> it \<in> set (map snd (w_queue w)) \<Longrightarrow> ok it"
begin

lemma planned_ok:
  assumes "ok it"
  shows "hoare I (plan_item env cfg it) (\<lambda>r w. I w \<and> ok (fst r)) (\<lambda>_. I) I"
  by (rule hoare_weaken [OF hoare_conj_keeps [OF keeps_plan_item plan_keeps_ident]])
    (use assms ok_ident in blast)+

lemma keeps_planned:
  assumes "ok it" "\<And>r. ok (fst r) \<Longrightarrow> keeps I (f r)"
  shows "keeps I (bind_io (plan_item env cfg it) f)"
proof (rule hoare_bind [OF planned_ok [OF assms(1)]])
  fix r
  show "hoare (\<lambda>w. I w \<and> ok (fst r)) (f r) (\<lambda>_. I) (\<lambda>_. I) I"
    by (cases "ok (fst r)") (use assms(2) in \<open>auto simp: hoare_def\<close>)
qed

lemma read_items_ok: "hoare I (read_items env) (\<lambda>items w. I w \<and> (\<forall>it \<in> set items. ok it)) (\<lambda>_. I) I"
  unfolding read_items_def
  by (rule hoare_then [OF keeps_read]) (use queued_ok in \<open>auto simp: hoare_def gets_def\<close>)

lemma plan_items_spec:
  "\<forall>it \<in> set items. ok it \<Longrightarrow> hoare I (plan_items env cfg records items) (\<lambda>rs w. I w \<and> (\<forall>r \<in> set rs. ok (fst r))) (\<lambda>_. I) I"
proof (induction items)
  case Nil
  show ?case by (simp add: plan_items_def hoare_def ret_def)
next
  case (Cons it items)
  let ?Q = "\<lambda>rs w. I w \<and> (\<forall>r \<in> set rs. ok (fst r))"
  have one: "hoare I (then_io (of_res (ok_or (err_queue_snapshot (pi_push_id it)) (map_of records (pi_push_id it))))
      (plan_item env cfg it)) (\<lambda>r w. I w \<and> ok (fst r)) (\<lambda>_. I) I"
    using Cons.prems by (intro hoare_then [OF keeps_of_res planned_ok]) simp
  have tail: "hoare (\<lambda>w. I w \<and> ok (fst r)) (bind_io (plan_items env cfg records items) (\<lambda>rs. ret (r # rs))) ?Q (\<lambda>_. I) I" for r
  proof (cases "ok (fst r)")
    case True
    have "hoare I (plan_items env cfg records items) ?Q (\<lambda>_. I) I" using Cons by simp
    then have "hoare I (bind_io (plan_items env cfg records items) (\<lambda>rs. ret (r # rs))) ?Q (\<lambda>_. I) I"
      by (rule hoare_bind) (use True in \<open>auto simp: hoare_def ret_def\<close>)
    then show ?thesis by (rule hoare_pre) simp
  qed (simp add: hoare_def)
  show ?case
    using hoare_bind [OF one tail] by (simp add: plan_items_def)
qed

lemma build_ok: "hoare I (build_push_plan env ph cfg) (\<lambda>plan w. I w \<and> (\<forall>it \<in> set (rp_items plan). ok it)) (\<lambda>_. I) I"
proof -
  have sorted: "hoare I (sorted_items env) (\<lambda>items w. I w \<and> (\<forall>it \<in> set items. ok it)) (\<lambda>_. I) I"
    unfolding sorted_items_def
    by (rule hoare_bind [OF read_items_ok]) (auto simp: hoare_def ret_def set_sort_items)
  have tail: "hoare (\<lambda>w. I w \<and> (\<forall>it \<in> set queued. ok it)) (bind_io (plan_items env cfg records queued) (\<lambda>planned.
     let items = order_items_for_dependencies (map fst (filter snd planned));
         skipped = map fst (filter (\<lambda>p. \<not> snd p) planned) in
     bind_io (map_io (\<lambda>it. bind_io (of_res (ok_or (err_queue_snapshot (pi_push_id it))
         (map_of records (pi_push_id it)))) (push_plan_item_view env ph cfg it)) items) (\<lambda>views.
     let digest = \<lparr>pd_config_effect_id = ph_config ph cfg, pd_queue_records = records,
           pd_items = views,
           pd_skipped = map (\<lambda>it. (pi_push_id it, the (map_of records (pi_push_id it)))) skipped\<rparr> in
     ret \<lparr>rp_plan_id = ph_plan ph digest, rp_items = items, rp_skipped_items = skipped,
          rp_digest = digest\<rparr>))) (\<lambda>plan w. I w \<and> (\<forall>it \<in> set (rp_items plan). ok it)) (\<lambda>_. I) I" for records queued
  proof (cases "\<forall>it \<in> set queued. ok it")
    case True
    show ?thesis
      unfolding Let_def
    proof (rule hoare_pre [where P' = I], rule hoare_bind [OF plan_items_spec [OF True]], rule hoare_and_pure)
      fix planned :: "(push_item \<times> bool) list"
      assume p: "\<forall>r \<in> set planned. ok (fst r)"
      show "hoare I (bind_io (map_io (\<lambda>it. bind_io (of_res (ok_or (err_queue_snapshot (pi_push_id it))
         (map_of records (pi_push_id it)))) (push_plan_item_view env ph cfg it))
           (order_items_for_dependencies (map fst (filter snd planned)))) (\<lambda>views.
         ret \<lparr>rp_plan_id = ph_plan ph \<lparr>pd_config_effect_id = ph_config ph cfg, pd_queue_records = records,
           pd_items = views, pd_skipped = map (\<lambda>it. (pi_push_id it, the (map_of records (pi_push_id it))))
             (map fst (filter (\<lambda>p. \<not> snd p) planned))\<rparr>,
          rp_items = order_items_for_dependencies (map fst (filter snd planned)),
          rp_skipped_items = map fst (filter (\<lambda>p. \<not> snd p) planned),
          rp_digest = \<lparr>pd_config_effect_id = ph_config ph cfg, pd_queue_records = records,
           pd_items = views, pd_skipped = map (\<lambda>it. (pi_push_id it, the (map_of records (pi_push_id it))))
             (map fst (filter (\<lambda>p. \<not> snd p) planned))\<rparr>\<rparr>))
        (\<lambda>plan w. I w \<and> (\<forall>it \<in> set (rp_items plan). ok it)) (\<lambda>_. I) I"
        by (rule hoare_bind [OF keeps_map], intro keeps_bind keeps_of_res keeps_view)
          (use p in \<open>auto simp: hoare_def ret_def set_order\<close>)
    qed simp
  next
    case False
    then have "\<not> (I w \<and> (\<forall>it \<in> set queued. ok it))" for w by blast
    then show ?thesis unfolding hoare_def by blast
  qed
  show ?thesis
    unfolding build_push_plan_def by (rule hoare_bind [OF keeps_records], rule hoare_bind [OF sorted tail])
qed

end

section \<open>Pushing\<close>

locale pushing = plan_items_ok +
  assumes item_kept: "I w \<Longrightarrow> I (w\<lparr>w_item := it\<rparr>)"
    and call_kept: "I w \<Longrightarrow> I (w\<lparr>w_log := Called p i c eff # w_log w\<rparr>)"
begin

abbreviation owned :: "string \<Rightarrow> world \<Rightarrow> bool" where
  "owned p \<equiv> \<lambda>w. I w \<and> ok (w_item w) \<and> pi_push_id (w_item w) = p"

lemma owned: "own_item (owned p) p"
proof
  fix w w' assume "same_core w w'" "owned p w"
  then show "owned p w'" using frame by (simp add: same_core_def)
next
  fix w it assume "owned p w" "item_ident it = item_ident (w_item w)"
  then show "owned p (w\<lparr>w_item := it\<rparr>)"
    using ok_ident [of it "w_item w"] by (simp add: item_kept item_ident_def)
qed (auto simp: put_kept delete_kept call_kept queue_put_def queue_delete_def
    intro: put_kept [unfolded queue_put_def] delete_kept [unfolded queue_delete_def])

lemma keeps_owned:
  assumes "keeps (owned p) m"
  shows "hoare (owned p) m (\<lambda>_. owned p) (\<lambda>_. I) I"
  by (rule hoare_weaken [OF assms]) auto

lemma keeps_push_items: "\<forall>it \<in> set items. ok it \<Longrightarrow> keeps I (push_items env cfg items t)"
proof (induction items arbitrary: t)
  case (Cons it rest)
  let ?J = "owned (pi_push_id it)"
  have tail: "keeps I (bind_io (gets (\<lambda>w. pi_audit_pending (w_item w) \<noteq> None)) (\<lambda>stuck.
          if stuck then ret (t'\<lparr>rt_stopped := True, rt_unattempted := length rest\<rparr>)
          else push_items env cfg rest t'))" for t'
    using Cons by (intro hoare_rules) simp_all
  have success: "hoare ?J (bind_io (after_success env t) (\<lambda>t'.
          bind_io (gets (\<lambda>w. pi_audit_pending (w_item w) \<noteq> None)) (\<lambda>stuck.
          if stuck then ret (t'\<lparr>rt_stopped := True, rt_unattempted := length rest\<rparr>)
          else push_items env cfg rest t'))) (\<lambda>_. I) (\<lambda>_. I) I"
    by (rule hoare_bind [OF keeps_owned [OF own_item.keeps_after_success [OF owned]]], rule hoare_pre [OF tail], simp)
  have fail: "hoare ?J (after_failure env e (length rest) t) (\<lambda>_. I) (\<lambda>_. I) I" for e
    by (rule hoare_weaken [OF item_writes.keeps_after_failure [OF own_item.axioms(1) [OF owned]]]) auto
  have attempt: "hoare ?J (attempt (push_one env cfg)) (\<lambda>_. ?J) (\<lambda>_. I) I"
    by (rule keeps_owned [OF item_writes.keeps_attempt [OF own_item.axioms(1) [OF owned] own_item.keeps_push_one [OF owned]]])
  show ?case
    unfolding push_items.simps
  proof (rule hoare_then)
    show "hoare I (upd_item (\<lambda>_. it)) (\<lambda>_. ?J) (\<lambda>_. I) I"
      using Cons.prems by (intro hoare_pre [OF hoare_upd_item]) (simp add: item_kept)
    show "hoare ?J (bind_io (attempt (push_one env cfg)) (\<lambda>r. case r of
        Some e \<Rightarrow> after_failure env e (length rest) t
      | None \<Rightarrow> bind_io (after_success env t) (\<lambda>t'.
          bind_io (gets (\<lambda>w. pi_audit_pending (w_item w) \<noteq> None)) (\<lambda>stuck.
          if stuck then ret (t'\<lparr>rt_stopped := True, rt_unattempted := length rest\<rparr>)
          else push_items env cfg rest t')))) (\<lambda>_. I) (\<lambda>_. I) I"
      by (rule hoare_bind [OF attempt], rule hoare_case_option, rule success, rule fail)
  qed
qed (simp add: keeps_ret)

lemma keeps_push: "keeps I (push env ph cfg confirm)"
  unfolding push_def
proof (rule hoare_bind [OF build_ok])
  fix plan
  show "hoare (\<lambda>w. I w \<and> (\<forall>it \<in> set (rp_items plan). ok it)) (then_io (of_res (require_plan_features env plan))
     (case confirm of
        None \<Rightarrow> ret (Preview (rp_plan_id plan))
      | Some confirmed \<Rightarrow>
          then_io (of_res (require_matching_push_plan plan confirmed))
          (bind_io (reconcile_push_plan env plan) (\<lambda>removed.
           bind_io (push_items env cfg (rp_items plan) no_totals) (\<lambda>t.
           ret (Confirmed t removed)))))) (\<lambda>_. I) (\<lambda>_. I) I"
  proof (cases "\<forall>it \<in> set (rp_items plan). ok it")
    case True
    show ?thesis
      by (rule hoare_pre [where P' = I], intro hoare_rules keeps_reconcile keeps_push_items) (use True in simp_all)
  qed (auto simp: hoare_def)
qed

end

section \<open>Recovering\<close>

lemma item_ident_settle [simp]: "item_ident (settle_item t st it i s) = item_ident it"
  by (cases st) (simp_all add: settle_item_def Let_def mark_step_succeeded_def)

lemma item_ident_recover_first [simp]: "item_ident (recover_first_item t found it s) = item_ident it"
  by (simp add: recover_first_item_def Let_def mark_step_succeeded_def)

locale recovering = plan_items_ok +
  assumes release_kept: "I w \<Longrightarrow> I (w\<lparr>w_log := Released p i # w_log w\<rparr>)"
begin

lemma keeps_write_settled: "ok it \<Longrightarrow> keeps I (write_settled env it rel)"
  unfolding write_settled_def
  by (intro keeps_then keeps_read hoare_disk)
    (use release_kept [OF tick_kept] in \<open>auto simp: put_kept tick_kept split: option.split\<close>)

lemma keeps_audit_and_write: "ok it \<Longrightarrow> keeps I (audit_and_write env it kind rel)"
  unfolding audit_and_write_def by (intro hoare_rules store_ops keeps_write_settled)

lemma keeps_recover_send: "ok original \<Longrightarrow> keeps I (recover_send env rh cfg original confirm settle)"
proof -
  have "keeps I (delivery_evidence_of env it pr)" for it pr
    unfolding delivery_evidence_of_def
    by (cases "po_delivery pr") (simp_all add: keeps_ret, intro hoare_rules prim)
  moreover have "ok (settle_item t st it i s)" if "ok it" for t st it i s
    using that ok_ident [of "settle_item t st it i s" it] by simp
  ultimately show "ok original \<Longrightarrow> ?thesis"
    unfolding recover_send_def recover_planned_send_def settle_send_def Let_def
    by (intro keeps_planned hoare_rules planning_ops prim keeps_audit_and_write)
qed

lemma keeps_recover_drafts: "ok original \<Longrightarrow> keeps I (recover_drafts_append env rh cfg original confirm)"
proof -
  assume o: "ok original"
  have lookup: "keeps I (lookup_absent env f mid)" for f mid
    unfolding lookup_absent_def by (intro hoare_rules prim)
  have "ok (recover_first_item t found it s)" if "ok it" for t found it s
    using that ok_ident [of "recover_first_item t found it s" it] by simp
  then have check: "ok it \<Longrightarrow> keeps I (check_drafts_append env rh cfg original it s mb confirm)" for it s mb
    unfolding check_drafts_append_def apply_drafts_check_def Let_def
    by (intro hoare_rules prim lookup keeps_audit_and_write)
  show ?thesis
    unfolding recover_drafts_append_def Let_def
    by (intro hoare_if keeps_fail keeps_planned [OF o]) (auto simp: keeps_fail check split: list.split option.split)
qed

lemma keeps_recover_command: "keeps I (recover_with_remote env rh cfg push_id confirm settle)"
proof -
  have ok: "\<forall>it \<in> set items. ok it \<Longrightarrow> List.find P items = Some it \<Longrightarrow> ok it" for items P it
    by (auto dest: find_Some_prop)
  show ?thesis
    unfolding recover_with_remote_def
  proof (rule hoare_bind [OF read_items_ok])
    fix items :: "push_item list"
    let ?m = "case List.find (\<lambda>it. pi_push_id it = push_id) items of
       None \<Rightarrow> fail (app_error_new ''push_not_found'' ''queued push item was not found'')
     | Some item \<Rightarrow>
         if (case List.find (\<lambda>s. ss_status s = RemoteOutcomeUnknown) (pi_step_states item) of
               None \<Rightarrow> False | Some s \<Rightarrow> is_send_label (ss_label s))
         then recover_send env rh cfg item confirm settle
         else if settle \<noteq> None then fail (err_settlement_unsupported push_id)
         else recover_drafts_append env rh cfg item confirm"
    have "keeps I ?m" if "\<forall>it \<in> set items. ok it"
      using ok [OF that] by (cases "List.find (\<lambda>it. pi_push_id it = push_id) items")
        (auto intro!: keeps_if keeps_fail keeps_recover_send keeps_recover_drafts)
    then show "hoare (\<lambda>w. I w \<and> (\<forall>it \<in> set items. ok it)) ?m (\<lambda>_. I) (\<lambda>_. I) I"
      by (cases "\<forall>it \<in> set items. ok it") (auto simp: hoare_def)
  qed
qed

end

section \<open>The two kinds of events\<close>

fun is_called :: "event \<Rightarrow> bool" where
  "is_called (Called _ _ _ _) = True"
| "is_called _ = False"

fun is_released :: "event \<Rightarrow> bool" where
  "is_released (Released _ _) = True"
| "is_released _ = False"

definition remote_calls :: "world \<Rightarrow> event list" where
  "remote_calls w = filter is_called (w_log w)"

definition releases :: "world \<Rightarrow> event list" where
  "releases w = filter is_released (w_log w)"

interpretation no_release: pushing "\<lambda>w. releases w = L" "\<lambda>_. True" for L
  by standard (auto simp: releases_def same_core_def queue_put_def queue_delete_def)

interpretation no_call: recovering "\<lambda>w. remote_calls w = L" "\<lambda>_. True" for L
  by standard (auto simp: remote_calls_def same_core_def queue_put_def queue_delete_def)

interpretation no_call_queueing: queueing "\<lambda>w. remote_calls w = L" "\<lambda>_. True" for L
  by standard simp

end
