(* ===== verification/Scenario.thy ===== *)
theory Scenario
  imports Queue_Safety Effects
begin

text \<open>
  One concrete workspace, run in the kernel: a draft of case \<open>c1\<close> is queued for sending under the
  default configuration, planned, and pushed, on a disk and a server that work and on a server
  whose answer never comes.  The witnesses of the properties about whole commands run it.
\<close>

section \<open>The workspace and its surroundings\<close>

definition demo_prepared :: "string \<Rightarrow> prepared_outbound" where
  "demo_prepared mid = \<lparr>po_message_id = mid, po_raw = ''raw'',
     po_delivery = DeliverEmail \<lparr>pe_delivery_raw = ''raw'', pe_envelope_from = ''me'', pe_envelope_to = [''you'']\<rparr>\<rparr>"

definition demo_message :: message_file where
  "demo_message = \<lparr>mf_rfc822_message_id = Some ''m'', mf_remote = None, mf_direction = Some ''outbound'',
     mf_status = ''case'', mf_notification_uid = None, mf_remote_sync = None, mf_push = None\<rparr>"

definition demo_env :: env where
  "demo_env = \<lparr>e_disk = (\<lambda>_. DiskOk), e_clock = (\<lambda>_. ''t''), e_event_id = show_nat, e_random = (\<lambda>_. ''r''),
     e_valid_segment = (\<lambda>_. True), e_compiled = (\<lambda>_. True), e_validate_draft = (\<lambda>_ _ _ _. Inr ()),
     e_prepare = (\<lambda>_ _ _ mid _. Inr (demo_prepared mid)), e_smtp_ready = (\<lambda>_. Inr ()),
     e_eml = (\<lambda>_ _. Inr ''raw''), e_sent_message = (\<lambda>_ _ _. Inr demo_message),
     e_archive_blockers = (\<lambda>_ _. Inr []), e_references = (\<lambda>_ _. Inr ()), e_archiving_cases = (\<lambda>_. Inr ()),
     e_folder = (\<lambda>_ f. Reply f), e_append = (\<lambda>_ _ _ _. Reply ()), e_move = (\<lambda>_ _ _ _ _ _. Reply None),
     e_add_flags = (\<lambda>_ _ _ _ _. Reply ()), e_prepare_send = (\<lambda>_ _ _. Reply ()),
     e_send_raw = (\<lambda>_ _ _ _. Reply ()), e_prepare_cloudflare = (\<lambda>_ _. Reply ()),
     e_send_cloudflare = (\<lambda>_ _. Reply \<lparr>sr_message_id = '''', sr_delivered = [], sr_queued = [],
       sr_permanent_bounces = [], sr_suppressed_recipients = []\<rparr>),
     e_find = (\<lambda>_ _ _. Reply None), e_output_confirmed = (\<lambda>_ _. Reply False), e_publish = (\<lambda>_ _. Reply ())\<rparr>"

text \<open>The process is killed while it waits for the answer of the mail server.\<close>

definition killed_env :: env where
  "killed_env = demo_env\<lparr>e_send_raw := (\<lambda>_ _ _ _. ReplyKilled)\<rparr>"

definition demo_draft :: draft_fields where
  "demo_draft = \<lparr>df_sync_intent = Some IntentSend, df_send_intent = Some ''new'',
     df_reply_to_message_id = None, df_reply_route = None\<rparr>"

definition demo_world :: world where
  "demo_world = \<lparr>w_tick = 0, w_queue = [], w_item = draft_item '''' 0 '''' '''' '''' None None,
     w_messages = [], w_sent = [], w_cases = [''c1''], w_drafts = [((''c1'', ''d''), Inr demo_draft)],
     w_draft_state = [(''c1'', ''d'')], w_audit = [], w_audit_torn = False, w_log = []\<rparr>"

definition demo_hashes :: plan_hashes where
  "demo_hashes = \<lparr>ph_item = pi_push_id, ph_content = id, ph_config = (\<lambda>_. ''cfg''),
     ph_outbound = (\<lambda>_ _. Inr \<lparr>po_review_path = None, po_content_hash = None, po_envelope = [], po_attachment_hashes = []\<rparr>),
     ph_plan = (\<lambda>d. concat (map fst (pd_queue_records d)))\<rparr>"

definition queued_world :: world where
  "queued_world = run demo_env (QueueOutbound ''c1'' ''d'' Send None) demo_world"

definition sent_world :: world where
  "sent_world = run demo_env (Push demo_hashes default_config (Some ''push_draft_r'')) queued_world"

definition killed_world :: world where
  "killed_world = run killed_env (Push demo_hashes default_config (Some ''push_draft_r'')) queued_world"

definition retried_world :: world where
  "retried_world = run demo_env (Push demo_hashes default_config (Some ''push_draft_r'')) killed_world"

text \<open>Killed after the draft file is gone and before the item records it.\<close>

definition crash_env :: env where
  "crash_env = demo_env\<lparr>e_disk := (\<lambda>n. if n = 59 then CrashAfter else DiskOk)\<rparr>"

definition crashed_world :: world where
  "crashed_world = run crash_env (Push demo_hashes default_config (Some ''push_draft_r'')) queued_world"

text \<open>A message that was marked as spam and is still in the inbox of the server.\<close>

definition spam_message :: message_file where
  "spam_message = \<lparr>mf_rfc822_message_id = Some ''<m1@x>'', mf_remote = Some [\<lparr>rl_mailbox_name = ''INBOX'',
     rl_mailbox_id = Some ''inbox'', rl_uid_validity = Some 7, rl_uid = Some 42, rl_flags = [],
     rl_observed = ''t'', rl_missing = None\<rparr>], mf_direction = Some ''inbound'',
     mf_status = ''spam'', mf_notification_uid = None, mf_remote_sync = None, mf_push = None\<rparr>"

definition spam_world :: world where
  "spam_world = demo_world\<lparr>w_messages := [(''m1'', spam_message)]\<rparr>"

definition spam_queued_world :: world where
  "spam_queued_world = run demo_env (QueueActions ''message.spam'' [''m1'']
     [\<lparr>loc_message_id = ''m1'', loc_mailbox_name = ''INBOX'', loc_uid_validity = 7, loc_uid = 42\<rparr>]
     (ma_spam default_message_actions) None) spam_world"

text \<open>A draft whose append to the drafts folder is uncertain.\<close>

definition uncertain_item :: push_item where
  "uncertain_item = (draft_item ''push_draft_r'' 1 ''c1'' ''d'' ''t'' None None)\<lparr>pi_step_states :=
     [(fresh_step_state 0 (step_append ''drafts''))\<lparr>ss_status := RemoteOutcomeUnknown\<rparr>]\<rparr>"

definition uncertain_world :: world where
  "uncertain_world = demo_world\<lparr>w_item := uncertain_item\<rparr>"

text \<open>A draft whose sending is recorded and whose local completion was interrupted.\<close>

definition staged_world :: world where
  "staged_world = demo_world\<lparr>w_item := uncertain_item\<lparr>pi_local_stage := Some OutboundRecorded\<rparr>\<rparr>"

lemma demo_admissible:
  "env = demo_env \<or> env = killed_env \<or> env = crash_env \<Longrightarrow> command_config c = None \<or> command_config c = Some default_config
    \<Longrightarrow> admissible True env c"
  using default_config_validates
  by (auto simp: admissible_def stable_folders_def demo_env_def killed_env_def crash_env_def)

lemma scenario_history:
  "history True demo_world" "history True queued_world" "history True sent_world" "history True killed_world"
  "history True retried_world" "history True crashed_world" "history True spam_queued_world"
proof -
  show d: "history True demo_world" by (rule history.start) (simp_all add: demo_world_def)
  show q: "history True queued_world"
    unfolding queued_world_def by (rule history.command [OF d demo_admissible]) simp_all
  show "history True sent_world"
    unfolding sent_world_def by (rule history.command [OF q demo_admissible]) simp_all
  show k: "history True killed_world"
    unfolding killed_world_def by (rule history.command [OF q demo_admissible]) simp_all
  show "history True retried_world"
    unfolding retried_world_def by (rule history.command [OF k demo_admissible]) simp_all
  show "history True crashed_world"
    unfolding crashed_world_def by (rule history.command [OF q demo_admissible]) simp_all
  have "history True spam_world" by (rule history.start) (simp_all add: spam_world_def demo_world_def)
  then show "history True spam_queued_world"
    unfolding spam_queued_world_def by (rule history.command [OF _ demo_admissible]) simp_all
qed

text \<open>The last thing that happened before the kill was the submission, for the step marked unknown.\<close>

definition submitted_last :: "event list \<Rightarrow> bool" where
  "submitted_last es \<longleftrightarrow> sends ''push_draft_r'' 1 es = 1 \<and> es \<noteq> []
     \<and> hd es = Called ''push_draft_r'' 1 (CallSmtp ''me'' [''you''] ''raw'') True"

lemma killed_submitted: "submitted_last (w_log killed_world)"
  by code_simp

lemmas killed_facts = killed_submitted [unfolded submitted_last_def]

end
