(* ===== verification/Plan_Laws.thy ===== *)
theory Plan_Laws
  imports Scenario
begin

text \<open>
  What planning promises: the plan covers the queue, in an order that respects what must run
  first; a message action is planned only for the status it needs, and what it plans passes the
  check that a resumed item's frozen snapshot has to pass.
\<close>

section \<open>Queue order\<close>

lemma queue_le_refl: "queue_le a a"
  by (simp add: queue_le_def)

lemma queue_le_trans: "queue_le a b \<Longrightarrow> queue_le b c \<Longrightarrow> queue_le a c"
  by (auto simp: queue_le_def)

lemma queue_le_total: "queue_le a b \<or> queue_le b a"
  by (auto simp: queue_le_def word_less_nat_alt [symmetric] word_unat_eq_iff)

lemma sorted_insert_item: "sorted_wrt queue_le xs \<Longrightarrow> sorted_wrt queue_le (insert_item x xs)"
  by (induction xs) (use queue_le_total in \<open>auto simp: set_insert_item intro: queue_le_trans\<close>)

text \<open>the queue is read in the order of its sequence numbers, ties by push id, and no item is
  lost or invented by sorting.\<close>

theorem queue_order: "sorted_wrt queue_le (sort_items xs) \<and> mset (sort_items xs) = mset xs"
proof
  show "sorted_wrt queue_le (sort_items xs)"
    by (induction xs) (simp_all add: sort_items_def sorted_insert_item)
qed (rule mset_sort_items)

section \<open>The plan of a queue\<close>

lemma list_all2_plan_ids:
  "list_all2 (\<lambda>it r. replanned it (fst r) \<and> runnable (fst r)) xs rs \<Longrightarrow>
   map (pi_push_id \<circ> fst) rs = map pi_push_id xs \<and> (\<forall>r \<in> set rs. one_plan (fst r))"
  by (induction rule: list_all2_induct) (auto simp: replanned_def)

lemma mset_filter_split: "mset (map f (filter P xs)) + mset (map f (filter (\<lambda>x. \<not> P x) xs)) = mset (map f xs)"
  by (induction xs) auto

lemma plans_queue_covers:
  assumes "plans_queue q plan" "queue_ok q"
  shows "mset (map pi_push_id (rp_items plan)) + mset (map pi_push_id (rp_skipped_items plan)) = mset (map fst q)"
    "sorted_wrt (\<lambda>a b. \<not> item_must_run_before b a) (rp_items plan)"
proof -
  obtain planned where p: "list_all2 (\<lambda>it r. replanned it (fst r) \<and> runnable (fst r)) (sort_items (map snd q)) planned"
    "rp_items plan = order_items_for_dependencies (map fst (filter snd planned))"
    "rp_skipped_items plan = map fst (filter (\<lambda>p. \<not> snd p) planned)"
    using assms(1) by (auto simp: plans_queue_def)
  note ids = list_all2_plan_ids [OF p(1)]
  have "map pi_push_id (map snd q) = map fst q"
    using assms(2) by (auto simp: queue_ok_def)
  then have "mset (map pi_push_id (sort_items (map snd q))) = mset (map fst q)"
    by (metis mset_map mset_sort_items)
  moreover have "mset (map pi_push_id (rp_items plan)) = mset (map (pi_push_id \<circ> fst) (filter snd planned))"
    by (metis p(2) mset_order mset_map map_map)
  moreover have "map pi_push_id (rp_skipped_items plan) = map (pi_push_id \<circ> fst) (filter (\<lambda>p. \<not> snd p) planned)"
    by (simp add: p(3))
  ultimately show "mset (map pi_push_id (rp_items plan)) + mset (map pi_push_id (rp_skipped_items plan)) = mset (map fst q)"
    using ids mset_filter_split [of "pi_push_id \<circ> fst" snd planned] by simp
  show "sorted_wrt (\<lambda>a b. \<not> item_must_run_before b a) (rp_items plan)"
    unfolding p(2) by (rule order_dependencies) (use ids in auto)
qed

text \<open>Claim C31: a plan covers the queue exactly: every queued item is either planned or skipped, once;
  and no item of the plan comes before one that must run first, so a reply is sent before the
  message it answers is archived or filed away.\<close>

theorem plan_covers_queue:
  assumes "history mv w" "config_validate cfg = Inr ()" "build_push_plan env ph cfg w = (Done plan, w1)"
  shows "mset (map pi_push_id (rp_items plan)) + mset (map pi_push_id (rp_skipped_items plan))
      = mset (map fst (w_queue w))
    \<and> sorted_wrt (\<lambda>a b. \<not> item_must_run_before b a) (rp_items plan)"
proof -
  have ok: "queue_ok (w_queue w)" using history_disk_ok [OF assms(1)] by (simp add: disk_ok_def)
  then have "\<forall>x \<in> set (w_queue w). unplanned (snd x)"
    by (fastforce simp: queue_ok_def intro: durable_unplanned)
  from build_push_plan_spec [OF validated_single_op [OF assms(2)] this, of env ph]
  have "plans_queue (w_queue w) plan"
    using assms(3) by (auto simp: hoare_def queue_is_def)
  then show ?thesis using plans_queue_covers ok by blast
qed

definition planned_ids :: "resolved_push_plan outcome \<Rightarrow> string list option" where
  "planned_ids r = (case r of Done plan \<Rightarrow> Some (map pi_push_id (rp_items plan)) | _ \<Rightarrow> None)"

lemma demo_planned: "planned_ids (fst (build_push_plan demo_env demo_hashes default_config queued_world)) = Some [''push_draft_r'']"
  by code_simp

theorem plan_covers_queue_witness:
  "\<exists>plan w1. build_push_plan demo_env demo_hashes default_config queued_world = (Done plan, w1)
    \<and> map pi_push_id (rp_items plan) = [''push_draft_r'']
    \<and> mset (map pi_push_id (rp_items plan)) + mset (map pi_push_id (rp_skipped_items plan))
        = mset (map fst (w_queue queued_world))"
proof -
  obtain plan w1 where b: "build_push_plan demo_env demo_hashes default_config queued_world = (Done plan, w1)"
    "map pi_push_id (rp_items plan) = [''push_draft_r'']"
    using demo_planned
    by (cases "build_push_plan demo_env demo_hashes default_config queued_world")
      (auto simp: planned_ids_def split: outcome.splits)
  then show ?thesis
    using plan_covers_queue [OF scenario_history(2) default_config_validates b(1)]
    by (intro exI [of _ plan] exI [of _ w1]) simp
qed

section \<open>Message actions\<close>

definition about :: "string \<Rightarrow> push_location list \<Rightarrow> bool" where
  "about mid ls \<longleftrightarrow> (\<forall>l \<in> set ls. loc_message_id l = mid)"

definition about_ids :: "string \<Rightarrow> mailbox_id_location list \<Rightarrow> bool" where
  "about_ids mid ls \<longleftrightarrow> (\<forall>l \<in> set ls. loc_message_id (snd l) = mid)"

lemma active_about: "active_push_location mid l = Some p \<Longrightarrow> loc_message_id p = mid"
  by (auto simp: active_push_location_def split: if_splits option.splits)

lemma locations_about: "about_ids mid (locations_with_mailbox_ids mid m)"
  by (auto simp: about_ids_def locations_with_mailbox_ids_def List.map_filter_def dest: active_about split: option.splits)

lemma message_locations_about: "about mid (message_locations b mid m)"
  by (auto simp: about_def message_locations_def List.map_filter_def dest: active_about split: option.splits)

lemma select_about: "select_locations cfg u k ls = Inr sel \<Longrightarrow> about_ids mid ls \<Longrightarrow> about mid sel"
proof (induction ls arbitrary: sel)
  case (Cons l ls)
  from Cons.prems(1) obtain src rest where
    "select_locations cfg u k ls = Inr rest" "sel = snd l # rest \<or> sel = rest"
    by (auto simp: bind_res_Inr_iff split: if_splits)
  then show ?case using Cons.IH Cons.prems(2) by (auto simp: about_def about_ids_def)
qed (simp add: about_def)

lemma resolve_archive_Cons:
  assumes "resolve_archive cfg m sel acc (l # ls) = Inr r"
  obtains src where "resolve_location_mailbox_id cfg l = Inr src"
    "Option.bind src (map_of (ma_notification (ac_message (mc_actions cfg)))) \<in> {None, Some []}"
    "resolve_archive cfg m sel acc ls = Inr r"
  | src steps where "resolve_location_mailbox_id cfg l = Inr src"
    "Option.bind src (map_of (ma_notification (ac_message (mc_actions cfg)))) = Some steps" "steps \<noteq> []"
    "sel = None \<or> sel = Some steps" "resolve_archive cfg m (Some steps) (acc @ [snd l]) ls = Inr r"
proof (cases "resolve_location_mailbox_id cfg l")
  case (Inr src)
  let ?steps = "Option.bind src (map_of (ma_notification (ac_message (mc_actions cfg))))"
  show ?thesis
  proof (cases "?steps \<in> {None, Some []}")
    case True
    then show ?thesis using assms Inr that(1) [OF Inr True] by auto
  next
    case False
    then obtain steps where s: "?steps = Some steps" "steps \<noteq> []" by auto
    then show ?thesis
      using assms Inr that(2) [OF Inr s] by (cases sel) (auto split: if_splits)
  qed
qed (use assms in simp)

lemma resolve_about:
  "resolve_archive cfg m sel acc ls = Inr (out, steps) \<Longrightarrow> about_ids mid ls \<Longrightarrow> about mid acc \<Longrightarrow> about mid out"
proof (induction ls arbitrary: sel acc)
  case (Cons l ls)
  have l: "about mid (acc @ [snd l])" "about_ids mid ls"
    using Cons.prems(2,3) by (auto simp: about_def about_ids_def)
  from Cons.prems(1) show ?case
    by (cases rule: resolve_archive_Cons) (use Cons.IH Cons.prems(3) l in blast)+
qed simp

definition plans_message :: "string \<Rightarrow> message_push_action \<Rightarrow> message_action_push option \<Rightarrow> bool" where
  "plans_message mid a r \<longleftrightarrow> (\<forall>p. r = Some p \<longrightarrow> ma_action p = a \<and> ma_message_ids p = [mid]
     \<and> about mid (ma_locations p) \<and> ma_locations p \<noteq> [] \<and> ma_steps p \<noteq> [])"

lemma plans_message_plan: "about mid ls \<Longrightarrow> plans_message mid a (message_action_plan a [mid] ls steps)"
  by (simp add: plans_message_def message_action_plan_def)

abbreviation returns :: "('a \<Rightarrow> bool) \<Rightarrow> 'a cmd \<Rightarrow> bool" where
  "returns P m \<equiv> hoare (\<lambda>_. True) m (\<lambda>r _. P r) any_err (\<lambda>_. True)"

lemma returnsD: "returns P m \<Longrightarrow> m w = (Done a, w') \<Longrightarrow> P a"
  by (auto simp: hoare_def dest!: spec [where x = w])

lemma returns_ret: "P a \<Longrightarrow> returns P (ret a)"
  by (simp add: hoare_def ret_def)

lemma returns_fail: "returns P (fail e)"
  by (simp add: hoare_def fail_def)

lemma returns_bind: "returns Q m \<Longrightarrow> (\<And>a. Q a \<Longrightarrow> returns P (f a)) \<Longrightarrow> returns P (bind_io m f)"
  by (rule hoare_bind [where R = "\<lambda>r _. Q r"], assumption) (auto simp: hoare_def)

lemma returns_any: "(\<And>a. returns P (f a)) \<Longrightarrow> returns P (bind_io m f)"
  by (rule hoare_true_bind)

lemma returns_of_res: "(\<And>a. r = Inr a \<Longrightarrow> P a) \<Longrightarrow> returns P (of_res r)"
  by (cases r) (simp_all add: hoare_def of_res_def ret_def fail_def)

lemma plan_locations_about: "returns (about_ids mid) (plan_locations env mid)"
  unfolding plan_locations_def
  by (intro hoare_true_then returns_any returns_ret locations_about)

lemma remote_locations_about: "returns (about mid) (message_remote_locations_any env [mid])"
proof -
  have one: "returns (\<lambda>ls. about mid (concat ls)) (map_io (\<lambda>mid.
      then_io (of_res (validate_id env ''message_id'' mid))
        (bind_io (read_message_by_id env mid) (\<lambda>m. ret (message_locations False mid m)))) [mid])"
    by (simp add: io_ret_bind, rule returns_bind [where Q = "about mid"],
        intro hoare_true_then returns_any returns_ret message_locations_about, rule returns_ret) simp
  show ?thesis
    unfolding message_remote_locations_any_def message_remote_locations_inner_def
    by (rule returns_bind [OF one]) (rule returns_ret)
qed

lemma plan_archive_about: "returns (plans_message mid Notification) (plan_archive_message_push env cfg mid)"
  unfolding plan_archive_message_push_def
proof (rule returns_any, rule hoare_if)
  show "returns (plans_message mid Notification) (ret None)"
    by (rule returns_ret) (simp add: plans_message_def)
  show "returns (plans_message mid Notification) (bind_io (plan_locations env mid) (\<lambda>ls.
       bind_io (of_res (resolve_archive_action cfg ls mid)) (\<lambda>(sel, steps).
       ret (message_action_plan Notification [mid] sel steps))))"
    by (rule returns_bind [OF plan_locations_about], rule returns_bind [OF returns_of_res [where P = "\<lambda>r. about mid (fst r)"]])
      (auto simp: resolve_archive_action_def about_def intro!: returns_ret plans_message_plan
        dest: resolve_about [where acc = "[]"])
qed

lemma plan_chosen_about:
  assumes "\<And>ls sel. pick ls = Inr sel \<Longrightarrow> about_ids mid ls \<Longrightarrow> about mid sel"
  shows "returns (plans_message mid a) (bind_io (plan_locations env mid) (\<lambda>ls.
     bind_io (of_res (pick ls)) (\<lambda>chosen. ret (message_action_plan a [mid] chosen steps))))"
  by (rule returns_bind [OF plan_locations_about], rule returns_bind [OF returns_of_res [where P = "about mid"]])
    (auto intro: assms returns_ret plans_message_plan)

lemma plan_message_about: "returns (plans_message mid a) (plan_message_push env cfg mid a)"
proof -
  have kinds: "locations_for_kinds cfg k ls = Inr sel \<Longrightarrow> about_ids mid ls \<Longrightarrow> about mid sel"
    "locations_except_kinds cfg k ls = Inr sel \<Longrightarrow> about_ids mid ls \<Longrightarrow> about mid sel" for k ls sel
    unfolding locations_for_kinds_def locations_except_kinds_def by (erule select_about, assumption)+
  have case_add: "returns (plans_message mid CaseAdd) (bind_io (message_remote_locations_any env [mid]) (\<lambda>ls.
      ret (message_action_plan CaseAdd [mid] ls steps)))" for steps
    by (rule returns_bind [OF remote_locations_about]) (rule returns_ret, erule plans_message_plan)
  show ?thesis
    unfolding plan_message_push_def Let_def
    by (intro hoare_true_then returns_any hoare_if returns_fail, cases a)
      (simp_all add: plan_chosen_about kinds case_add plan_archive_about)
qed

definition spam_location :: push_location where
  "spam_location = \<lparr>loc_message_id = ''m1'', loc_mailbox_name = ''INBOX'', loc_uid_validity = 7, loc_uid = 42\<rparr>"

definition spam_plan :: message_action_push where
  "spam_plan = \<lparr>ma_action = MarkSpam, ma_message_ids = [''m1''], ma_locations = [spam_location],
     ma_steps = ma_spam default_message_actions, ma_reply_to_message_id = None\<rparr>"

lemma spam_planned: "fst (plan_message_push demo_env default_config ''m1'' MarkSpam spam_world) = Done (Some spam_plan)"
  by code_simp

text \<open>A freshly planned message action passes the very check that the frozen snapshot of a
  started item must pass: it is for the queued action and message, names only locations of that
  message, and has at least one location and one step.\<close>

theorem planned_action_is_valid_snapshot:
  assumes "plan_message_push env cfg (mp_message_id m) (mp_action m) w = (Done (Some snap), w')"
  shows "validate_message_action_snapshot it m snap = Inr ()"
proof -
  have "plans_message (mp_message_id m) (mp_action m) (Some snap)"
    by (rule returnsD [OF plan_message_about assms])
  then show ?thesis
    by (simp add: plans_message_def about_def validate_message_action_snapshot_def list_all_iff)
qed

theorem planned_action_is_valid_snapshot_witness:
  "validate_message_action_snapshot uncertain_item
     \<lparr>mp_message_id = ''m1'', mp_action = MarkSpam, mp_snapshot = None\<rparr> spam_plan = Inr ()"
  by (rule planned_action_is_valid_snapshot [where env = demo_env and cfg = default_config and w = spam_world])
    (simp add: prod_eq_iff spam_planned)

text \<open>a message action is planned only for a message whose canonical status is the one the
  action presupposes, so a queued spam move of a message that was restored in the meantime fails
  before anything is called.\<close>

theorem plan_needs_matching_status:
  assumes "plan_message_push env cfg mid a w = (Done r, w')"
  shows "\<exists>m st. map_of (w_messages w) mid = Some m \<and> message_status_parse (mf_status m) = Inr st
    \<and> action_status_ok a st"
proof -
  let ?P = "\<lambda>w'. w_messages w' = w_messages w"
  obtain w1 where v: "validate_id env ''message_id'' mid = Inr ()" "disk_read env ''read message'' w = (Done (), w1)"
    using assms
    by (auto simp: plan_message_push_def read_message_by_id_def io_defs split: prod.splits outcome.splits sum.splits)
  have w1: "w_messages w1 = w_messages w"
    using v(2) by (auto simp: disk_read_def disk_def tick_def split: disk_event.splits)
  from assms v w1 show ?thesis
    by (auto simp: plan_message_push_def read_message_by_id_def io_defs
        split: option.splits sum.splits if_splits)
qed

theorem plan_needs_matching_status_witness:
  "\<exists>m st. map_of (w_messages spam_world) ''m1'' = Some m \<and> message_status_parse (mf_status m) = Inr st
     \<and> action_status_ok MarkSpam st"
  by (rule plan_needs_matching_status [where env = demo_env and cfg = default_config and r = "Some spam_plan"])
    (simp add: prod_eq_iff spam_planned)

text \<open>archiving never mixes rules: every resolved location of the message that has a
  non-empty archive rule is selected, and its rule is exactly the steps that will run; locations
  whose rules differ are refused instead.\<close>

theorem archive_steps_agree:
  assumes "resolve_archive_action cfg ls mid = Inr (sel, steps)" "l \<in> set ls"
    and "resolve_location_mailbox_id cfg l = Inr (Some src)"
    and "map_of (ma_notification (ac_message (mc_actions cfg))) src = Some rule" "rule \<noteq> []"
  shows "snd l \<in> set sel \<and> rule = steps"
proof -
  have chosen: "set acc \<subseteq> set out \<and> (\<forall>s. c = Some s \<longrightarrow> st = s)"
    if "resolve_archive cfg mid c acc ks = Inr (out, st)" for c acc ks out st
    using that
  proof (induction ks arbitrary: c acc)
    case (Cons k ks)
    from Cons.prems show ?case
      by (cases rule: resolve_archive_Cons) (use Cons.IH in fastforce)+
  qed (auto split: option.splits)
  have "snd l \<in> set out \<and> rule = st"
    if "resolve_archive cfg mid c acc ks = Inr (out, st)" "l \<in> set ks" for c acc ks out st
    using that
  proof (induction ks arbitrary: c acc)
    case (Cons k ks)
    from Cons.prems(1) show ?case
    proof (cases rule: resolve_archive_Cons)
      case 1
      then show ?thesis using Cons.IH Cons.prems(2) assms(3-5) by auto
    next
      case (2 src' steps')
      then show ?thesis using Cons.IH Cons.prems(2) assms(3-5) chosen [OF 2(5)] by auto
    qed
  qed simp
  then show ?thesis using assms(1,2) unfolding resolve_archive_action_def by blast
qed

theorem archive_steps_agree_witness:
  "\<exists>sel steps. resolve_archive_action default_config [(Some ''inbox'', spam_location)] ''m1'' = Inr (sel, steps)
     \<and> spam_location \<in> set sel \<and> steps = [step_move ''archive'']"
proof (intro exI conjI)
  let ?l = "(Some ''inbox'', spam_location)"
  show r: "resolve_archive_action default_config [?l] ''m1'' = Inr ([spam_location], [step_move ''archive''])"
    by code_simp
  have "snd ?l \<in> set [spam_location] \<and> [step_move ''archive''] = [step_move ''archive'']"
    by (rule archive_steps_agree [OF r, where src = "''inbox''"]) (simp, code_simp+)
  then show "spam_location \<in> set [spam_location]" by simp
qed (rule refl)

section \<open>A started item\<close>

lemma plan_message_item_kept: "has_started_effects it \<Longrightarrow> returns snd (plan_message_item env cfg it m)"
  unfolding plan_message_item_def Let_def
  by (intro returns_any hoare_if returns_fail returns_ret) simp_all

lemma plan_draft_item_kept: "has_started_effects it \<Longrightarrow> returns snd (plan_draft_item env cfg it d)"
  unfolding plan_draft_item_def Let_def
  by (rule returns_any, simp split: option.split add: returns_fail returns_ret,
      intro allI impI returns_any returns_ret) simp

text \<open>Claim C32: an item that has started is never dropped by planning and keeps its recorded progress:
  planning either fails or plans it with the step states, local stage and audit identity it had.  Only
  items that never started are skipped, and only those lose the states of an outdated plan.\<close>

theorem started_item_is_planned_with_its_progress:
  assumes "plan_item env cfg it w = (Done (it', planned), w')" "has_started_effects it" "durable it = it"
    and "config_validate cfg = Inr ()"
  shows "planned \<and> pi_push_id it' = pi_push_id it \<and> pi_payload it' = pi_payload it
    \<and> pi_step_states it' = pi_step_states it \<and> pi_local_stage it' = pi_local_stage it
    \<and> pi_audit_pending it' = pi_audit_pending it"
proof -
  have kept: "returns snd (plan_item env cfg it)"
    unfolding plan_item_def
    by (auto intro!: returns_any returns_ret plan_message_item_kept plan_draft_item_kept assms(2)
        split: push_payload.split)
  have "planned" using returnsD [OF kept assms(1)] by simp
  moreover have "replanned it it'"
    using hoareD_Done [OF plan_item_spec [OF durable_unplanned [OF assms(3)] validated_single_op [OF assms(4)]] _ assms(1)]
    by simp
  ultimately show ?thesis using assms(2) by (auto simp: replanned_def)
qed

definition plan_result :: "(push_item \<times> bool) outcome \<Rightarrow> (push_step_status list \<times> bool) option" where
  "plan_result r = (case r of Done p \<Rightarrow> Some (map ss_status (pi_step_states (fst p)), snd p) | _ \<Rightarrow> None)"

lemma uncertain_planned:
  "plan_result (fst (plan_item demo_env default_config uncertain_item demo_world)) = Some ([RemoteOutcomeUnknown], True)"
  "has_started_effects uncertain_item" "durable uncertain_item = uncertain_item"
  by code_simp+

theorem started_item_is_planned_with_its_progress_witness:
  "\<exists>it' w'. plan_item demo_env default_config uncertain_item demo_world = (Done (it', True), w')
     \<and> pi_step_states it' = pi_step_states uncertain_item"
proof -
  obtain it' planned w' where p: "plan_item demo_env default_config uncertain_item demo_world = (Done (it', planned), w')"
    using uncertain_planned(1)
    by (cases "plan_item demo_env default_config uncertain_item demo_world")
      (auto simp: plan_result_def split: outcome.splits)
  show ?thesis
    using started_item_is_planned_with_its_progress [OF p uncertain_planned(2,3) default_config_validates] p
    by (intro exI [of _ it'] exI [of _ w']) simp
qed

end
