(* ===== verification/Step_Facts.thy ===== *)
theory Step_Facts
  imports Scenario
begin

text \<open>
  What one tracked step, the local stages of an item and the loop over a plan do: which states
  they end in, and that a resumed item repeats no remote call.
\<close>

section \<open>Remote calls\<close>

interpretation calls_kept: item_writes "\<lambda>w. remote_calls w = L" for L
  by standard (simp_all add: remote_calls_def same_core_def)

interpretation calls_item: frame "\<lambda>w. remote_calls w = L \<and> w_item w = it" for L it
  by standard (simp add: remote_calls_def same_core_def)

lemma keeps_calls: "(\<And>L. keeps (\<lambda>w. remote_calls w = L) m) \<Longrightarrow> remote_calls (snd (m w)) = remote_calls w"
  by (rule keepsD) auto

text \<open>Claim C13: a step that succeeded, or whose outcome is unknown, is never executed again by a push,
  whatever the executor would do: an unknown step is only looked up, and the rest is refused.  The
  one exception the code names is the legacy pure move whose Message-ID check failed before the
  move.\<close>

theorem settled_step_not_repeated:
  assumes "step_done (w_item w) i" "\<not> legacy_move_message_id_preflight_failed (w_item w) i s"
  shows "remote_calls (snd (run_step env execute i s w)) = remote_calls w"
proof -
  define it where "it = w_item w"
  let ?P = "\<lambda>w'. remote_calls w' = remote_calls w \<and> w_item w' = it"
  let ?I = "\<lambda>w'. remote_calls w' = remote_calls w"
  have refresh: "keeps ?I (refresh_after_successful_step env s)"
    by (rule no_call.keeps_refresh_step)
  have unknown: "hoare ?P (bind_io (gets (\<lambda>w. step_remote_outcome_unknown (w_item w) i)) (\<lambda>unknown.
        if unknown then
          bind_io (recover_remote_outcome_unknown_step env i s) (\<lambda>ok.
          if ok then refresh_after_successful_step env s else fail (err_remote_outcome_unknown s))
        else attempt_step env execute i s)) (\<lambda>_. ?I) (\<lambda>_. ?I) ?I" if "\<not> step_succeeded it i"
  proof (rule hoare_gets_bind)
    fix unknown
    have u: "step_remote_outcome_unknown it i"
      using assms(1) that by (simp add: it_def step_done_def step_succeeded_def step_remote_outcome_unknown_def)
    have "keeps ?I (bind_io (recover_remote_outcome_unknown_step env i s) (\<lambda>ok.
          if ok then refresh_after_successful_step env s else fail (err_remote_outcome_unknown s)))"
      by (intro hoare_rules calls_kept.keeps_recover refresh)
    then have "hoare ?P (bind_io (recover_remote_outcome_unknown_step env i s) (\<lambda>ok.
          if ok then refresh_after_successful_step env s else fail (err_remote_outcome_unknown s)))
        (\<lambda>_. ?I) (\<lambda>_. ?I) ?I"
      by (rule hoare_pre) simp
    then show "hoare (\<lambda>w. ?P w \<and> step_remote_outcome_unknown (w_item w) i = unknown) (if unknown then
          bind_io (recover_remote_outcome_unknown_step env i s) (\<lambda>ok.
          if ok then refresh_after_successful_step env s else fail (err_remote_outcome_unknown s))
        else attempt_step env execute i s) (\<lambda>_. ?I) (\<lambda>_. ?I) ?I"
      using u by (cases unknown) (auto elim!: hoare_pre simp: hoare_def)
  qed
  have legacy: "hoare ?P (resume_legacy_move env i s) (\<lambda>_. ?P) (\<lambda>_. ?I) ?I"
    unfolding resume_legacy_move_def
    by (rule hoare_gets_bind, rule hoare_when) (use assms(2) in \<open>auto simp: it_def hoare_def\<close>)
  have "hoare ?P (run_step env execute i s) (\<lambda>_. ?I) (\<lambda>_. ?I) ?I"
    unfolding run_step_def
  proof (rule hoare_gets_bind)
    fix x
    show "hoare (\<lambda>w'. ?P w' \<and> w_item w' = x) (if step_succeeded x i
        then when_io (pi_local_stage x = None) (refresh_after_successful_step env s)
        else then_io (resume_legacy_move env i s) (bind_io (gets (\<lambda>w. step_remote_outcome_unknown (w_item w) i)) (\<lambda>unknown.
          if unknown then
            bind_io (recover_remote_outcome_unknown_step env i s) (\<lambda>ok.
            if ok then refresh_after_successful_step env s else fail (err_remote_outcome_unknown s))
          else attempt_step env execute i s))) (\<lambda>_. ?I) (\<lambda>_. ?I) ?I"
    proof (cases "step_succeeded x i")
      case True
      have "keeps ?I (when_io (pi_local_stage x = None) (refresh_after_successful_step env s))"
        by (intro keeps_when refresh)
      then show ?thesis using True by simp (erule hoare_pre, simp)
    next
      case False
      then show ?thesis
        using hoare_then [OF legacy unknown] by (cases "x = it") (auto elim!: hoare_pre simp: hoare_def)
    qed
  qed
  then show ?thesis
    using it_def by (cases "run_step env execute i s w"; cases "fst (run_step env execute i s w)")
      (auto dest: hoareD_Done hoareD_Fail hoareD_Killed)
qed

theorem settled_step_not_repeated_witness:
  "remote_calls (snd (run_step demo_env (execute_outbound_step demo_env default_config) 0
     (step_append ''drafts'') uncertain_world)) = []"
proof -
  have "step_done (w_item uncertain_world) 0"
    "\<not> legacy_move_message_id_preflight_failed (w_item uncertain_world) 0 (step_append ''drafts'')"
    by code_simp+
  note settled_step_not_repeated [OF this]
  then show ?thesis by (simp add: uncertain_world_def demo_world_def remote_calls_def)
qed

section \<open>The outcome of a failed attempt\<close>

lemma hoare_true_disk: "hoare (\<lambda>w. Q (w_item w)) (disk env c f) (\<lambda>_ w. Q (w_item w)) (\<lambda>_ w. Q (w_item w)) (\<lambda>_. True)"
  if "\<And>w. w_item (f w) = w_item w"
  by (rule hoare_disk) (simp_all add: that)

lemma save_item_keeps_item:
  "hoare (\<lambda>w. Q (w_item w)) (save_item env) (\<lambda>_ w. Q (w_item w)) (\<lambda>_ w. Q (w_item w)) (\<lambda>_. True)"
  unfolding save_item_def write_item_def disk_read_def
  by (rule hoare_bind [where R = "\<lambda>_ w. Q (w_item w)"], simp add: hoare_def gets_def,
      rule hoare_then [OF hoare_true_disk hoare_true_disk]) simp_all

lemma handle_error_status:
  assumes "\<And>t it. same_identity it (f t it) \<and> (wf_steps it \<longrightarrow> has_step it i \<longrightarrow> wf_steps (f t it) \<and> step_has (f t it) i st)"
  shows "hoare (\<lambda>w. wf_steps (w_item w) \<and> has_step (w_item w) i)
    (then_io (mark env f) (then_io (set_last_error l) (then_io (save_item env) (fail e))))
    (\<lambda>_ _. False) (\<lambda>_ w. step_has (w_item w) i st) (\<lambda>_. True)"
proof (rule hoare_then)
  show "hoare (\<lambda>w. wf_steps (w_item w) \<and> has_step (w_item w) i) (mark env f)
      (\<lambda>_ w. step_has (w_item w) i st) (\<lambda>_ w. step_has (w_item w) i st) (\<lambda>_. True)"
    by (rule hoare_mark) (use assms in auto)
  have upd: "hoare (\<lambda>w. step_has (w_item w) i st) (set_last_error l) (\<lambda>_ w. step_has (w_item w) i st)
      (\<lambda>_ w. step_has (w_item w) i st) (\<lambda>_. True)"
    unfolding set_last_error_def by (rule hoare_pre [OF hoare_upd_item]) simp
  show "hoare (\<lambda>w. step_has (w_item w) i st) (then_io (set_last_error l) (then_io (save_item env) (fail e)))
      (\<lambda>_ _. False) (\<lambda>_ w. step_has (w_item w) i st) (\<lambda>_. True)"
    by (rule hoare_then [OF upd], rule hoare_then [OF save_item_keeps_item]) (simp add: hoare_def fail_def)
qed

text \<open>Claim C34: a failed attempt never ends as a success.  When the step is marked as uncertain and
  the error does not prove that nothing was applied, the step stays uncertain; otherwise it is
  recorded as failed and may be retried.  This holds also when the disk fails while recording it.\<close>

theorem failed_attempt_status:
  assumes "wf_steps (w_item w)" "has_step (w_item w) i" "handle_step_error env i s e w = (r, w')" "r \<noteq> Killed"
  shows "(\<exists>e'. r = Fail e') \<and> step_has (w_item w') i
    (if step_remote_outcome_unknown (w_item w) i \<and> \<not> remote_effect_not_applied e then RemoteOutcomeUnknown else Failed)"
proof -
  define it where "it = w_item w"
  let ?st = "if step_remote_outcome_unknown it i \<and> \<not> remote_effect_not_applied e then RemoteOutcomeUnknown else Failed"
  let ?P = "\<lambda>w. wf_steps (w_item w) \<and> has_step (w_item w) i"
  have unknown: "same_identity it (mark_step_remote_outcome_unknown t it i s x)
      \<and> (wf_steps it \<longrightarrow> has_step it i \<longrightarrow> wf_steps (mark_step_remote_outcome_unknown t it i s x)
          \<and> step_has (mark_step_remote_outcome_unknown t it i s x) i RemoteOutcomeUnknown)" for t it x
    using status_transitions(4) [of it t i s x i] by auto
  have failed: "same_identity it (mark_step_failed t it i s e)
      \<and> (wf_steps it \<longrightarrow> has_step it i \<longrightarrow> wf_steps (mark_step_failed t it i s e)
          \<and> step_has (mark_step_failed t it i s e) i Failed)" for t it
    using status_transitions(3) [of it t i s e i] by auto
  have "hoare (\<lambda>w. ?P w \<and> w_item w = it) (handle_step_error env i s e) (\<lambda>_ _. False) (\<lambda>_ w. step_has (w_item w) i ?st) (\<lambda>_. True)"
    unfolding handle_step_error_def Let_def
  proof (rule hoare_gets_bind)
    fix x
    let ?c = "step_remote_outcome_unknown x i \<and> \<not> remote_effect_not_applied e"
    show "hoare (\<lambda>w. (?P w \<and> w_item w = it) \<and> w_item w = x) (if ?c then
       then_io (mark env (\<lambda>t it. mark_step_remote_outcome_unknown t it i s (Some e)))
        (then_io (set_last_error (Some (app_error_to_string (err_remote_outcome_unknown s))))
        (then_io (save_item env) (fail (err_remote_outcome_unknown s))))
     else
       then_io (mark env (\<lambda>t it. mark_step_failed t it i s e))
       (then_io (set_last_error (Some (app_error_to_string e))) (then_io (save_item env) (fail e))))
      (\<lambda>_ _. False) (\<lambda>_ w. step_has (w_item w) i ?st) (\<lambda>_. True)"
    proof (cases "x = it")
      case False
      then have "\<not> ((?P w \<and> w_item w = it) \<and> w_item w = x)" for w by blast
      then show ?thesis unfolding hoare_def by blast
    next
      case x: True
      show ?thesis
      proof (cases ?c)
        case True
        then have st: "?st = RemoteOutcomeUnknown" using x by simp
        show ?thesis
          unfolding if_P [OF True] st by (rule hoare_pre [OF handle_error_status]) (rule unknown, blast)
      next
        case False
        then have st: "?st = Failed" using x by simp
        show ?thesis
          unfolding if_not_P [OF False] st by (rule hoare_pre [OF handle_error_status]) (rule failed, blast)
      qed
    qed
  qed
  then show ?thesis
    using assms it_def by (cases r) (auto dest: hoareD_Done hoareD_Fail)
qed

definition lost_connection :: app_error where
  "lost_connection = app_error_new ''imap_error'' ''connection lost''"

definition failed_with :: "'a outcome \<Rightarrow> app_error option" where
  "failed_with r = (case r of Fail e \<Rightarrow> Some e | _ \<Rightarrow> None)"

lemma failed_reply: "failed_with (fst (handle_step_error demo_env 0 (step_append ''drafts'') lost_connection uncertain_world))
    = Some (err_remote_outcome_unknown (step_append ''drafts''))"
  by code_simp

theorem failed_attempt_status_witness:
  "step_has (w_item (snd (handle_step_error demo_env 0 (step_append ''drafts'') lost_connection uncertain_world))) 0
     RemoteOutcomeUnknown"
proof -
  let ?h = "handle_step_error demo_env 0 (step_append ''drafts'') lost_connection uncertain_world"
  have "wf_steps (w_item uncertain_world)"
    by (simp add: wf_steps_def uncertain_world_def uncertain_item_def fresh_step_state_def)
  moreover have "has_step (w_item uncertain_world) 0"
    by (simp add: has_step_def uncertain_world_def uncertain_item_def fresh_step_state_def)
  moreover have "fst ?h \<noteq> Killed"
    using failed_reply by (cases "fst ?h") (simp_all add: failed_with_def)
  ultimately have "step_has (w_item (snd ?h)) 0 (if step_remote_outcome_unknown (w_item uncertain_world) 0
      \<and> \<not> remote_effect_not_applied lost_connection then RemoteOutcomeUnknown else Failed)"
    using failed_attempt_status [of uncertain_world 0 demo_env "step_append ''drafts''" lost_connection "fst ?h" "snd ?h"]
    by simp
  moreover have "step_remote_outcome_unknown (w_item uncertain_world) 0" "\<not> remote_effect_not_applied lost_connection"
    by code_simp+
  ultimately show ?thesis by simp
qed

section \<open>Local finalisation\<close>

text \<open>once the local stage of a draft is recorded, pushing it again is local work: no
  remote call is made however far the previous run got.\<close>

theorem recorded_draft_is_local:
  assumes "item_push_kind (w_item w) = KDraft" "pi_local_stage (w_item w) \<noteq> None"
  shows "remote_calls (snd (push_one env cfg w)) = remote_calls w"
proof -
  have out: "push_outbound env cfg w = ((case pi_planned_outbound (w_item w) of None \<Rightarrow> Fail err_not_outbound
      | Some _ \<Rightarrow> Done ()), w)"
    using assms(2) by (simp add: push_outbound_def io_defs split: option.split)
  have fin: "remote_calls (snd (finalize_pushed_item env w)) = remote_calls w"
    by (rule keeps_calls [OF calls_kept.keeps_finalize])
  show ?thesis
    using assms(1) fin by (simp add: push_one_def io_defs out split: option.split)
qed

theorem recorded_draft_is_local_witness:
  "remote_calls (snd (push_one demo_env default_config staged_world)) = []"
proof -
  have "item_push_kind (w_item staged_world) = KDraft" "pi_local_stage (w_item staged_world) \<noteq> None"
    by code_simp+
  note recorded_draft_is_local [OF this, of demo_env default_config]
  then show ?thesis by (simp add: staged_world_def demo_world_def remote_calls_def)
qed

section \<open>The result of a push\<close>

abbreviation any :: "world \<Rightarrow> bool" where
  "any \<equiv> \<lambda>_. True"

lemma after_failure_totals:
  "hoare any (after_failure env e n t) (\<lambda>t' _. rt_pushed t' = rt_pushed t \<and> rt_failed t' = Suc (rt_failed t)
     \<and> rt_unattempted t' = n \<and> rt_stopped t') any_err any"
  unfolding after_failure_def
  by (intro hoare_true_bind hoare_true_then) (simp add: hoare_def ret_def)

text \<open>A success leaves the item free of its audit duty, or counts a warning.\<close>

lemma after_success_totals:
  "hoare any (after_success env t) (\<lambda>t' w. rt_pushed t' = Suc (rt_pushed t) \<and> rt_failed t' = rt_failed t
     \<and> rt_unattempted t' = rt_unattempted t \<and> rt_audit_warnings t \<le> rt_audit_warnings t'
     \<and> (pi_audit_pending (w_item w) = None \<or> 0 < rt_audit_warnings t')) any_err any"
proof -
  let ?Q = "\<lambda>t' w. rt_pushed t' = Suc (rt_pushed t) \<and> rt_failed t' = rt_failed t
     \<and> rt_unattempted t' = rt_unattempted t \<and> rt_audit_warnings t \<le> rt_audit_warnings t'
     \<and> (pi_audit_pending (w_item w) = None \<or> 0 < rt_audit_warnings t')"
  have complete: "hoare any (complete_successful_push_audit env) (\<lambda>_ w. pi_audit_pending (w_item w) = None) any_err any"
    unfolding complete_successful_push_audit_def
    by (intro hoare_true_then hoare_pre [OF hoare_upd_item]) simp
  have "hoare any (attempt (complete_successful_push_audit env))
      (\<lambda>r w. r = None \<longrightarrow> pi_audit_pending (w_item w) = None) any_err any"
    unfolding attempt_def
    by (rule hoare_match [OF complete]) (auto simp: hoare_def ret_def)
  moreover have "hoare (\<lambda>w. r = None \<longrightarrow> pi_audit_pending (w_item w) = None) (case r of
     None \<Rightarrow> ret (t\<lparr>rt_pushed := Suc (rt_pushed t)\<rparr>)
   | Some e \<Rightarrow>
       then_io (upd_item (\<lambda>it. it\<lparr>
         pi_audit_pending := map_option (\<lambda>p. p\<lparr>ap_last_error := Some (app_error_to_string e)\<rparr>) (pi_audit_pending it),
         pi_last_error := Some (app_error_to_string e)\<rparr>))
       (then_io (attempt (save_item env))
       (ret (t\<lparr>rt_pushed := Suc (rt_pushed t), rt_audit_pending := Suc (rt_audit_pending t),
          rt_audit_warnings := Suc (rt_audit_warnings t)\<rparr>)))) ?Q any_err any" for r
  proof (cases r)
    case None
    then show ?thesis by (simp add: hoare_def ret_def)
  next
    case (Some e)
    have "hoare any (then_io (upd_item f) (then_io (attempt (save_item env))
       (ret (t\<lparr>rt_pushed := Suc (rt_pushed t), rt_audit_pending := Suc (rt_audit_pending t),
          rt_audit_warnings := Suc (rt_audit_warnings t)\<rparr>)))) ?Q any_err any" for f
      by (intro hoare_true_then) (simp add: hoare_def ret_def)
    then show ?thesis using Some by simp
  qed
  ultimately show ?thesis unfolding after_success_def by (rule hoare_bind)
qed

text \<open>Every item of the plan is pushed, failed or left unattempted; an unattempted rest has a cause.\<close>

definition accounted :: "nat \<Rightarrow> run_totals \<Rightarrow> run_totals \<Rightarrow> bool" where
  "accounted n t t' \<longleftrightarrow> rt_pushed t' + rt_failed t' + rt_unattempted t' = rt_pushed t + rt_failed t + n
     \<and> rt_pushed t \<le> rt_pushed t' \<and> rt_failed t' \<le> Suc (rt_failed t)
     \<and> (0 < rt_unattempted t' \<longrightarrow> rt_stopped t' \<and> 0 < rt_failed t' + rt_audit_warnings t')"

lemma accounted_next:
  "accounted n t1 t' \<Longrightarrow> rt_pushed t1 = Suc (rt_pushed t) \<Longrightarrow> rt_failed t1 = rt_failed t \<Longrightarrow> accounted (Suc n) t t'"
  by (simp add: accounted_def)

lemma push_items_accounted:
  "rt_unattempted t = 0 \<Longrightarrow> hoare any (push_items env cfg items t) (\<lambda>t' _. accounted (length items) t t') any_err any"
proof (induction items arbitrary: t)
  case Nil
  then show ?case by (simp add: hoare_def ret_def accounted_def)
next
  case (Cons it rest)
  have fail: "hoare any (after_failure env e (length rest) t) (\<lambda>t' _. accounted (length (it # rest)) t t') any_err any" for e
    by (rule hoare_weaken [OF after_failure_totals]) (auto simp: accounted_def)
  let ?S = "\<lambda>t1 w. rt_pushed t1 = Suc (rt_pushed t) \<and> rt_failed t1 = rt_failed t
     \<and> rt_unattempted t1 = rt_unattempted t \<and> rt_audit_warnings t \<le> rt_audit_warnings t1
     \<and> (pi_audit_pending (w_item w) = None \<or> 0 < rt_audit_warnings t1)"
  have continue: "hoare (?S t1) (bind_io (gets (\<lambda>w. pi_audit_pending (w_item w) \<noteq> None)) (\<lambda>stuck.
          if stuck then ret (t1\<lparr>rt_stopped := True, rt_unattempted := length rest\<rparr>)
          else push_items env cfg rest t1)) (\<lambda>t' _. accounted (length (it # rest)) t t') any_err any" for t1
  proof (rule hoare_gets_bind, rule hoare_if)
    fix stuck
    assume s: stuck
    show "hoare (\<lambda>w. ?S t1 w \<and> (pi_audit_pending (w_item w) \<noteq> None) = stuck)
        (ret (t1\<lparr>rt_stopped := True, rt_unattempted := length rest\<rparr>))
        (\<lambda>t' _. accounted (length (it # rest)) t t') any_err any"
      using s by (auto simp: hoare_def ret_def accounted_def)
  next
    fix stuck
    show "hoare (\<lambda>w. ?S t1 w \<and> (pi_audit_pending (w_item w) \<noteq> None) = stuck) (push_items env cfg rest t1)
        (\<lambda>t' _. accounted (length (it # rest)) t t') any_err any"
    proof (cases "rt_pushed t1 = Suc (rt_pushed t) \<and> rt_failed t1 = rt_failed t \<and> rt_unattempted t1 = rt_unattempted t")
      case True
      then have "hoare any (push_items env cfg rest t1) (\<lambda>t' _. accounted (length rest) t1 t') any_err any"
        using Cons by simp
      then show ?thesis by (rule hoare_weaken) (use True in \<open>auto intro: accounted_next\<close>)
    next
      case False
      then have "\<not> (?S t1 w \<and> (pi_audit_pending (w_item w) \<noteq> None) = stuck)" for w by blast
      then show ?thesis unfolding hoare_def by blast
    qed
  qed
  show ?case
    unfolding push_items.simps
    by (rule hoare_true_then, rule hoare_true_bind, rule hoare_case_option,
        rule hoare_bind [OF after_success_totals continue], rule fail)
qed

text \<open>Claim C35: a confirmed push accounts for every item of its plan exactly once (pushed, failed or
  unattempted, with at most one failure), and it exits with code 0 exactly when every item was
  pushed and every completion was audited.\<close>

theorem push_accounts_for_every_item:
  assumes "push_items env cfg items no_totals w = (Done t, w')"
  shows "rt_pushed t + rt_failed t + rt_unattempted t = length items \<and> rt_failed t \<le> 1
    \<and> (command_exit_code (outcome_result (Confirmed t removed)) = 0
         \<longleftrightarrow> rt_pushed t = length items \<and> rt_audit_warnings t = 0)"
proof -
  have "accounted (length items) no_totals t"
    using hoareD_Done [OF push_items_accounted _ assms] by (simp add: no_totals_def)
  then show ?thesis
    by (auto simp: accounted_def no_totals_def outcome_result_def command_aggregate_def command_exit_code_def)
qed

definition totals_of :: "run_totals outcome \<Rightarrow> run_totals option" where
  "totals_of r = (case r of Done t \<Rightarrow> Some t | _ \<Rightarrow> None)"

text \<open>An item without a plan fails, and the one behind it is left unattempted.\<close>

lemma unplanned_pushed:
  "map_option (\<lambda>t. (rt_pushed t, rt_failed t, rt_unattempted t))
     (totals_of (fst (push_items demo_env default_config [uncertain_item, uncertain_item] no_totals demo_world))) = Some (0, 1, 1)"
  by code_simp

theorem push_accounts_for_every_item_witness:
  "\<exists>t w'. push_items demo_env default_config [uncertain_item, uncertain_item] no_totals demo_world = (Done t, w')
     \<and> rt_pushed t + rt_failed t + rt_unattempted t = 2
     \<and> command_exit_code (outcome_result (Confirmed t [])) \<noteq> 0"
proof -
  obtain t w' where p: "push_items demo_env default_config [uncertain_item, uncertain_item] no_totals demo_world = (Done t, w')"
    "rt_pushed t = 0"
    using unplanned_pushed
    by (cases "push_items demo_env default_config [uncertain_item, uncertain_item] no_totals demo_world")
      (auto simp: totals_of_def split: outcome.splits)
  then show ?thesis
    using push_accounts_for_every_item [OF p(1)] by (intro exI [of _ t] exI [of _ w']) auto
qed

end
