(* ===== verification/Recovery_Facts.thy ===== *)
theory Recovery_Facts
  imports Effects
begin

text \<open>
  What a recovery may change and when: only on the exact plan id that a preview of the same state
  shows, never by a call to the server.
\<close>

section \<open>Comparing a confirmed recovery with its preview\<close>

lemma same_core_refl [simp]: "same_core w w"
  by (simp add: same_core_def)

lemma same_core_trans: "same_core a b \<Longrightarrow> same_core b c \<Longrightarrow> same_core a c"
  by (simp add: same_core_def)

interpretation core: frame "same_core w" for w
  by standard (erule same_core_trans)

text \<open>
  \<open>shown confirm preview m\<close>: from every state, \<open>m\<close> leaves queue, item and log as they were, or
  \<open>preview\<close> would show from that state the very plan id that was confirmed.
\<close>

definition shown :: "string option \<Rightarrow> recovery_outcome cmd \<Rightarrow> 'a cmd \<Rightarrow> bool" where
  "shown confirm preview m \<longleftrightarrow> (\<forall>w. same_core w (snd (m w))
     \<or> (\<exists>plan_id. confirm = Some plan_id \<and> fst (preview w) = Done (RecoveryShown plan_id)))"

lemma shown_quiet: "(\<And>w. keeps (same_core w) m) \<Longrightarrow> shown c p m"
  unfolding shown_def using keepsD [where s = w and I = "same_core w" and m = m for w] by auto

lemma shown_fail: "shown c p (fail e)"
  by (rule shown_quiet) (rule keeps_fail)

lemma shown_ret: "shown c p (ret a)"
  by (rule shown_quiet) (rule keeps_ret)

lemma fst_ret: "fst (ret a w) = Done a"
  by (simp add: ret_def)

lemma shown_bind:
  assumes "\<And>w. keeps (same_core w) m" "\<And>a. shown c (p a) (f a)"
  shows "shown c (bind_io m p) (bind_io m f)"
  unfolding shown_def
proof
  fix w
  have core: "same_core w (snd (m w))" using keepsD [OF assms(1)] by simp
  obtain r w1 where m: "m w = (r, w1)" by (cases "m w")
  show "same_core w (snd (bind_io m f w)) \<or> (\<exists>plan_id. c = Some plan_id
      \<and> fst (bind_io m p w) = Done (RecoveryShown plan_id))"
  proof (cases r)
    case (Done a)
    then show ?thesis
      using assms(2) [of a] core m same_core_trans
      by (fastforce simp: shown_def bind_io_def)
  qed (use core m in \<open>simp_all add: bind_io_def\<close>)
qed

lemma shown_if: "(b \<Longrightarrow> shown c p m) \<Longrightarrow> (\<not> b \<Longrightarrow> shown c q n) \<Longrightarrow> shown c (if b then p else q) (if b then m else n)"
  by simp

lemma shown_option:
  "shown c p m \<Longrightarrow> (\<And>y. shown c (q y) (f y)) \<Longrightarrow>
    shown c (case x of None \<Rightarrow> p | Some y \<Rightarrow> q y) (case x of None \<Rightarrow> m | Some y \<Rightarrow> f y)"
  by (cases x) auto

lemma shown_list:
  "shown c p m \<Longrightarrow> (\<And>y ys. shown c (q y ys) (f y ys)) \<Longrightarrow>
    shown c (case x of [] \<Rightarrow> p | y # ys \<Rightarrow> q y ys) (case x of [] \<Rightarrow> m | y # ys \<Rightarrow> f y ys)"
  by (cases x) auto

lemmas shown_rules = shown_fail shown_bind shown_if shown_option shown_list

section \<open>The tails that may write\<close>

lemma shown_confirmed:
  assumes "\<And>w. fst (p w) = Done (RecoveryShown plan_id)"
  shows "shown (Some confirmed) p (then_io (of_res (require_matching_recovery_plan confirmed plan_id)) m)"
  using assms by (simp add: shown_def require_matching_recovery_plan_def require_def then_io_def bind_io_def of_res_def fail_def)

lemma settle_send_shown:
  "shown confirm (settle_send env plan_id it i s d None settle) (settle_send env plan_id it i s d confirm settle)"
  unfolding settle_send_def
  by (cases confirm; cases settle) (simp_all add: shown_ret shown_fail shown_confirmed fst_ret)

lemma apply_drafts_shown:
  "shown confirm (apply_drafts_check env plan_id b it s None) (apply_drafts_check env plan_id b it s confirm)"
  unfolding apply_drafts_check_def
  by (cases confirm) (simp_all add: shown_ret shown_confirmed fst_ret)

lemma recover_send_shown:
  "shown confirm (recover_send env rh cfg it None settle) (recover_send env rh cfg it confirm settle)"
proof -
  have "keeps (same_core w) (delivery_evidence_of env it pr)" for w it pr
    unfolding delivery_evidence_of_def
    by (cases "po_delivery pr") (simp_all add: keeps_ret, intro hoare_rules core.prim)
  then show ?thesis
    unfolding recover_send_def recover_planned_send_def Let_def
    by (intro shown_rules core.planning_ops settle_send_shown)
qed

lemma recover_drafts_shown:
  "shown confirm (recover_drafts_append env rh cfg it None) (recover_drafts_append env rh cfg it confirm)"
proof -
  have lookup: "keeps (same_core w) (lookup_absent env f mid)" for w f mid
    unfolding lookup_absent_def by (intro hoare_rules core.prim)
  show ?thesis
    unfolding recover_drafts_append_def check_drafts_append_def Let_def
    by (intro shown_rules core.planning_ops core.prim keeps_map keeps_bind keeps_ret lookup apply_drafts_shown)
qed

text \<open>Claim C15: a recovery changes the queue only when it is confirmed with exactly the plan id that
  previewing it in the same state shows, over the same queue record and the same evidence; an
  unconfirmed recovery, and one confirmed with any other id, leaves queue, item and log as they
  were.\<close>

theorem recovery_needs_shown_plan:
  "same_core w (snd (recover_with_remote env rh cfg push_id confirm settle w))
   \<or> (\<exists>plan_id. confirm = Some plan_id
        \<and> fst (recover_with_remote env rh cfg push_id None settle w) = Done (RecoveryShown plan_id))"
proof -
  have "shown confirm (recover_with_remote env rh cfg push_id None settle)
      (recover_with_remote env rh cfg push_id confirm settle)"
    unfolding recover_with_remote_def
    by (intro shown_rules core.queue_reads recover_send_shown recover_drafts_shown)
  then show ?thesis by (simp add: shown_def)
qed

end
