(* ===== verification/Data_Laws.thy ===== *)
theory Data_Laws
  imports Push_Plan
begin

text \<open>
  Laws of the data the queue keeps: step states against a reference definition, the key check of a
  queue file, the locations, flags and pending pushes of a message, the projection of a draft.
\<close>

section \<open>Step states\<close>

text \<open>The reference: one state for each index, the recorded one where there is one.\<close>

definition state_at :: "action_step list \<Rightarrow> push_step_state list \<Rightarrow> nat \<Rightarrow> push_step_state" where
  "state_at steps sts i = (case List.find (\<lambda>st. ss_index st = i) sts of
     Some st \<Rightarrow> st | None \<Rightarrow> fresh_step_state i (steps ! i))"

lemma find_index:
  "distinct (map ss_index sts) \<Longrightarrow> st \<in> set sts \<Longrightarrow> List.find (\<lambda>x. ss_index x = ss_index st) sts = Some st"
  by (induction sts) auto

lemma ensured_state:
  assumes "distinct (map ss_index sts)" "st \<in> set (ensure_states steps sts)"
  shows "st = state_at steps sts (ss_index st)"
proof -
  let ?fs = "fill_states (enumerate0 steps) sts"
  have st: "st \<in> set ?fs" "ss_index st < length steps"
    using assms(2) by (auto simp: ensure_states_fill)
  have d: "distinct (map ss_index ?fs)" by (rule fill_states_props(1) [OF assms(1)])
  show ?thesis
  proof (cases "List.find (\<lambda>x. ss_index x = ss_index st) sts")
    case None
    then have "st \<notin> set sts" by (auto simp: find_None_iff)
    then obtain i s where "(i, s) \<in> set (enumerate0 steps)" "st = fresh_step_state i s"
      using fill_states_props(3) [OF st(1)] by auto
    then have "st = fresh_step_state (ss_index st) (steps ! ss_index st)"
      by (auto simp: enumerate0_def set_zip)
    then show ?thesis using None by (simp add: state_at_def)
  next
    case (Some x)
    then have x: "x \<in> set sts" "ss_index x = ss_index st" by (auto dest: find_Some_prop)
    then have "x \<in> set ?fs" using fill_states_props(2) by blast
    then have "x = st" using d st(1) x(2) by (auto simp: distinct_map dest: inj_onD)
    then show ?thesis using Some by (simp add: state_at_def)
  qed
qed

lemma ensured_by_index:
  assumes "distinct (map ss_index sts)"
  shows "ensure_states steps sts = map (state_at steps sts) [0..<length steps]"
proof -
  let ?e = "ensure_states steps sts"
  have "map (\<lambda>st. state_at steps sts (ss_index st)) ?e = ?e"
    by (rule map_idI) (simp add: ensured_state [OF assms, symmetric])
  then have "map (state_at steps sts) (map ss_index ?e) = ?e" by (simp add: comp_def)
  then show ?thesis by (simp only: ensure_indices [OF assms])
qed

text \<open>\<open>ensure_step_states\<close> is a lookup by index: the state it leaves for step \<open>i\<close> is the
  recorded one if there is one, else a fresh one with the label of the step, and there is exactly one
  for each step of the plan.  So it changes nothing when run again.\<close>

theorem ensure_states_by_index:
  assumes "distinct (map ss_index sts)"
  shows "ensure_states steps sts = map (state_at steps sts) [0..<length steps]
    \<and> ensure_states steps (ensure_states steps sts) = ensure_states steps sts"
proof
  let ?e = "ensure_states steps sts"
  have d: "distinct (map ss_index ?e)" by (simp add: ensure_indices [OF assms])
  show "?e = map (state_at steps sts) [0..<length steps]" by (rule ensured_by_index [OF assms])
  have "ss_index (?e ! i) = i" if "i < length steps" for i
    using that ensure_indices [OF assms, of steps] by (metis add_0 length_map length_upt minus_nat.diff_0 nth_map nth_upt)
  then have "state_at steps ?e i = ?e ! i" if "i < length steps" for i
    using that find_index [OF d, of "?e ! i"] ensured_by_index [OF assms, of steps]
    by (simp add: state_at_def)
  then have "ensure_states steps ?e = map ((!) ?e) [0..<length steps]"
    unfolding ensured_by_index [OF d] by simp
  also have "\<dots> = ?e" using ensured_by_index [OF assms, of steps] by (metis length_map length_upt map_nth minus_nat.diff_0)
  finally show "ensure_states steps ?e = ?e" .
qed

definition sent_state :: push_step_state where
  "sent_state = (fresh_step_state 1 step_smtp_send)\<lparr>ss_status := Succeeded\<rparr>"

theorem ensure_states_by_index_witness:
  "ensure_states [step_append ''sent'', step_smtp_send] [sent_state]
     = [fresh_step_state 0 (step_append ''sent''), sent_state]"
proof -
  have "distinct (map ss_index [sent_state])" by simp
  from ensure_states_by_index [OF this, of "[step_append ''sent'', step_smtp_send]"] show ?thesis
    by (simp add: state_at_def sent_state_def upt_conv_Cons)
qed

section \<open>Names and their readers\<close>

lemma status_round: "message_status_parse (message_status_as_str st) = Inr st"
  by (cases st; hypsubst; code_simp)

text \<open>Claim C36: the names written to queue files and messages are read back as the values they
  stand for (action kinds, item kinds, message statuses), two values never share a name, and the two
  conversions between a draft's intent and an outbound action are inverse to each other.\<close>

theorem names_roundtrip:
  "action_from_kind (action_kind a) = Some a \<and> action_from_kind (action_mode_label a) \<in> {None, Some a}
   \<and> push_kind_parse (push_kind_as_str k) = Inr k
   \<and> message_status_parse (message_status_as_str st) = Inr st
   \<and> action_of_intent (intent_of_action oa) = oa \<and> intent_of_action (action_of_intent i) = i
   \<and> draft_intent_as_str (intent_of_action oa) = outbound_action_as_str oa"
proof (intro conjI)
  show "action_from_kind (action_kind a) = Some a" "action_from_kind (action_mode_label a) \<in> {None, Some a}"
    by (cases a; simp add: action_from_kind_def action_kind_def action_mode_label_def)+
  show "push_kind_parse (push_kind_as_str k) = Inr k"
    by (cases k) (simp_all add: push_kind_parse_def push_kind_as_str_def)
  show "message_status_parse (message_status_as_str st) = Inr st" by (rule status_round)
  show "action_of_intent (intent_of_action oa) = oa" "draft_intent_as_str (intent_of_action oa) = outbound_action_as_str oa"
    by (cases oa; simp add: action_of_intent_def intent_of_action_def draft_intent_as_str_def outbound_action_as_str_def)+
  show "intent_of_action (action_of_intent i) = i"
    by (cases i) (simp_all add: action_of_intent_def intent_of_action_def)
qed

section \<open>The keys of a queue file\<close>

text \<open>a queue file is accepted exactly when it is an object of schema \<open>push_item\<close>, version
  2, with a known kind and with no key but the common ones and those of its kind; so no file of
  another version, and no file with a key this build does not know, is ever read as an item.\<close>

theorem push_item_keys_accepted:
  "validate_push_item_keys v = Inr () \<longleftrightarrow> (\<exists>ms raw kind. v = JObj ms \<and> map_of ms ''kind'' = Some (JStr raw)
     \<and> push_kind_parse raw = Inr kind \<and> map_of ms ''schema_name'' = Some (JStr ''push_item'')
     \<and> map_of ms ''schema_version'' = Some (JNum 2)
     \<and> list_all (\<lambda>key. key \<in> set push_item_common_keys \<or> push_payload_key_allowed kind key) (map fst ms))"
  by (auto simp: validate_push_item_keys_def bind_res_Inr_iff for_res_ok list_all_iff PUSH_ITEM_SCHEMA_VERSION_def
      split: json.splits option.splits if_splits)

section \<open>Locations and flags\<close>

lemma dedup_snoc: "dedup_locations (ls @ [l]) = (if list_ex (\<lambda>x. same_location x l) (dedup_locations ls)
    then dedup_locations ls else dedup_locations ls @ [l])"
  by (simp add: dedup_locations_def)

lemma same_location_equiv:
  "same_location a a" "same_location a b \<Longrightarrow> same_location b a"
  "same_location a b \<Longrightarrow> same_location b c \<Longrightarrow> same_location a c"
  by (auto simp: same_location_def)

lemma dedup_distinct: "sorted_wrt (\<lambda>a b. \<not> same_location a b) (dedup_locations ls)"
  by (induction ls rule: rev_induct)
    (auto simp: dedup_snoc sorted_wrt_append list_ex_iff, simp add: dedup_locations_def)

lemma dedup_subset: "set (dedup_locations ls) \<subseteq> set ls"
  by (induction ls rule: rev_induct) (auto simp: dedup_snoc, simp add: dedup_locations_def)

lemma dedup_covers: "l \<in> set ls \<Longrightarrow> \<exists>x \<in> set (dedup_locations ls). same_location x l"
proof (induction ls rule: rev_induct)
  case (snoc k ls)
  show ?case
  proof (cases "l = k")
    case True
    then show ?thesis by (auto simp: dedup_snoc list_ex_iff same_location_equiv(1))
  next
    case False
    then show ?thesis using snoc by (auto simp: dedup_snoc)
  qed
qed simp

lemma dedup_id: "sorted_wrt (\<lambda>a b. \<not> same_location a b) ls \<Longrightarrow> dedup_locations ls = ls"
proof (induction ls rule: rev_induct)
  case (snoc l ls)
  then show ?case by (auto simp: dedup_snoc sorted_wrt_append list_ex_iff)
qed (simp add: dedup_locations_def)

text \<open>relocating a message records each place (mailbox, UID validity, UID) once, keeps a
  representative of every place it was given and invents none; doing it again changes nothing.\<close>

theorem dedup_locations_laws:
  "sorted_wrt (\<lambda>a b. \<not> same_location a b) (dedup_locations ls)
   \<and> set (dedup_locations ls) \<subseteq> set ls
   \<and> list_all (\<lambda>l. list_ex (\<lambda>x. same_location x l) (dedup_locations ls)) ls
   \<and> dedup_locations (dedup_locations ls) = dedup_locations ls"
  using dedup_distinct dedup_subset dedup_covers dedup_id [OF dedup_distinct] by (simp add: list_all_iff list_ex_iff)

lemma sorted_remdups_adj_distinct: "sorted xs \<Longrightarrow> distinct (remdups_adj (xs :: string list))"
  by (induction xs rule: remdups_adj.induct) auto

definition recent :: "string \<Rightarrow> bool" where
  "recent f = eq_ignore_ascii_case f (CHR 0x5C # ''Recent'')"

lemma canonical_flags_props:
  "sorted (canonical_flags fs)" "distinct (canonical_flags fs)" "set (canonical_flags fs) = {f \<in> set fs. \<not> recent f}"
  by (simp_all add: canonical_flags_def recent_def sorted_remdups_adj_distinct)

lemma canonical_flags_unique:
  "sorted fs \<Longrightarrow> distinct fs \<Longrightarrow> set fs = {f \<in> set gs. \<not> recent f} \<Longrightarrow> canonical_flags gs = fs"
  by (rule sorted_distinct_set_unique) (simp_all add: canonical_flags_props)

text \<open>flags are kept in canonical form: sorted, without duplicates and without
  \<open>\Recent\<close> in any letter case; merging adds exactly the new flags, is idempotent, and reports a
  change exactly when the stored list is not already that form.\<close>

theorem merged_flags_canonical:
  "sorted (fst (merge_flags old new)) \<and> distinct (fst (merge_flags old new))
   \<and> set (fst (merge_flags old new)) = {f \<in> set old \<union> set new. \<not> recent f}
   \<and> snd (merge_flags old new) = (fst (merge_flags old new) \<noteq> old)
   \<and> merge_flags (fst (merge_flags old new)) new = (fst (merge_flags old new), False)"
proof -
  let ?c = "canonical_flags (old @ new)"
  have m: "merge_flags old new = (?c, ?c \<noteq> old)" by (auto simp: merge_flags_def Let_def)
  have "canonical_flags (?c @ new) = ?c"
    by (rule canonical_flags_unique) (auto simp: canonical_flags_props)
  then have "merge_flags ?c new = (?c, False)" by (simp add: merge_flags_def)
  then show ?thesis unfolding m by (auto simp: canonical_flags_props)
qed

section \<open>Pending pushes of a message\<close>

text \<open>recording a pending push gives the message exactly one entry under its id, keeps the
  others and the list sorted; clearing it afterwards removes exactly that entry, and stamps the time
  of completion.\<close>

theorem record_then_clear:
  "sorted (map pp_push_id (ps_pending (record_pending p s)))
   \<and> filter (\<lambda>x. pp_push_id x = pp_push_id p) (ps_pending (record_pending p s)) = [p]
   \<and> clear_pending [pp_push_id p] True t (record_pending p s)
      = s\<lparr>ps_pending := sort_key pp_push_id (filter (\<lambda>x. pp_push_id x \<noteq> pp_push_id p) (ps_pending s)),
          ps_last_completed := Some t\<rparr>"
proof -
  let ?others = "filter (\<lambda>x. pp_push_id x \<noteq> pp_push_id p) (ps_pending s)"
  have own: "filter (\<lambda>x. pp_push_id x = pp_push_id p) (sort_key pp_push_id (?others @ [p])) = [p]"
    by (simp add: filter_sort)
  have "filter (\<lambda>x. pp_push_id x \<noteq> pp_push_id p) (sort_key pp_push_id (?others @ [p])) = sort_key pp_push_id ?others"
    by (simp add: filter_sort)
  moreover have "length (sort_key pp_push_id ?others) \<noteq> length (sort_key pp_push_id (?others @ [p]))" by simp
  ultimately show ?thesis
    using own by (simp add: record_pending_def clear_pending_def Let_def)
qed

section \<open>The state of a draft\<close>

text \<open>the state shown for a draft agrees with the queue: it is editable exactly when it has
  no intent and no queue item; a mismatch of the two is reported exactly when one is there without
  the other; it is shown as queued only while no effect started, and as being pushed only after one
  did.\<close>

theorem draft_state_agrees:
  "(pr_status (from_queue i q) = Editable) = (i = None \<and> q = None)
   \<and> (pr_issue (from_queue i q) = None) = ((i = None) = (q = None))
   \<and> (pr_status (from_queue i q) \<in> {QueuedUpload, QueuedSend})
      = (i \<noteq> None \<and> (\<exists>it. q = Some it \<and> \<not> has_started_effects it \<and> pi_last_error it = None))
   \<and> (pr_status (from_queue i q) = Pushing)
      = (i \<noteq> None \<and> (\<exists>it. q = Some it \<and> has_started_effects it \<and> pi_last_error it = None
          \<and> list_all (\<lambda>s. ss_status s \<in> {Pending, Succeeded}) (pi_step_states it)))"
proof -
  have unstarted: "\<not> list_ex (\<lambda>s. ss_status s = Failed \<or> ss_status s = RemoteOutcomeUnknown) (pi_step_states it)"
    if "\<not> has_started_effects it" for it
    using that by (auto simp: has_started_effects_def has_started_steps_def step_started_def list_ex_iff)
  have settled: "list_ex (\<lambda>s. ss_status s = Failed \<or> ss_status s = RemoteOutcomeUnknown) sts
      = (\<not> list_all (\<lambda>s. ss_status s = Pending \<or> ss_status s = Succeeded) sts)" for sts
  proof (induction sts)
    case (Cons x sts)
    then show ?case by (cases "ss_status x") simp_all
  qed simp
  show ?thesis
  proof (cases i)
    case None
    then show ?thesis by (cases q) (simp_all add: from_queue_def)
  next
    case (Some j)
    then show ?thesis
      using unstarted by (cases q; cases j) (auto simp: from_queue_def status_for_queued_item_def Let_def settled)
  qed
qed

end
