(* ===== verification/Queue_Laws.thy ===== *)
theory Queue_Laws
  imports Scenario
begin

text \<open>
  What the queue directory promises to the commands that enqueue and remove: writes and deletions
  are updates of a map and atomic, a draft and a message have one push at most, a requeue keeps the
  push it replaces, and a push that has started is frozen.
\<close>

section \<open>The queue directory as a map\<close>

text \<open>
  The contract of one write to the disk: seen through an abstraction, the write is \<open>f\<close>.  Then the
  write is atomic: whatever happens during it, its effect is either all there or not at all, and it
  is there when the write succeeds.
\<close>

locale disk_update =
  fixes view :: "world \<Rightarrow> 'a" and upd :: "world \<Rightarrow> world" and f :: "'a \<Rightarrow> 'a"
  assumes refines: "view (upd w) = f (view w)"
    and view_tick: "view (tick w) = view w"
begin

lemma atomic:
  "case disk env c upd w of (Done _, w') \<Rightarrow> view w' = f (view w) | (_, w') \<Rightarrow> view w' \<in> {view w, f (view w)}"
  by (cases "e_disk env (w_tick w)") (simp_all add: disk_def refines view_tick)

lemma atomic_after_read:
  "case then_io (disk_read env d) (disk env c upd) w of
     (Done _, w') \<Rightarrow> view w' = f (view w) | (_, w') \<Rightarrow> view w' \<in> {view w, f (view w)}"
proof -
  have t: "view (snd (disk_read env d w)) = view w"
    by (simp add: disk_read_def disk_def view_tick split: disk_event.split)
  obtain r w1 where d: "disk_read env d w = (r, w1)" by (cases "disk_read env d w")
  then show ?thesis
    using t atomic [where env = env and c = c and w = w1] by (cases r) (auto simp: io_defs split: prod.splits outcome.splits)
qed

end

definition queue_map :: "world \<Rightarrow> string \<Rightarrow> push_item option" where
  "queue_map w = map_of (w_queue w)"

interpretation put_item: disk_update queue_map "queue_put it" "\<lambda>m. m(pi_push_id it \<mapsto> durable it)" for it
  by standard (simp_all add: queue_map_def queue_put_def)

interpretation drop_item: disk_update queue_map "queue_delete p" "\<lambda>m. m(p := None)" for p
  by standard (simp_all add: queue_map_def queue_delete_def)

interpretation put_message: disk_update "\<lambda>w. map_of (w_messages w)" "\<lambda>w. w\<lparr>w_messages := put mid m (w_messages w)\<rparr>"
    "\<lambda>ms. ms(mid \<mapsto> m)" for mid m
  by standard simp_all

text \<open>The queue directory and the message store refine finite maps, atomically: a write
  that succeeds is the update of the map at the id of the item, one that fails or is cut off by a
  kill leaves the map as it was or is that same update, and nothing in between; deleting likewise, and
  deleting what is not there succeeds.\<close>

theorem store_refines_map:
  "(case write_item env it w of
      (Done _, w') \<Rightarrow> queue_map w' = (queue_map w)(pi_push_id it \<mapsto> durable it)
    | (_, w') \<Rightarrow> queue_map w' \<in> {queue_map w, (queue_map w)(pi_push_id it \<mapsto> durable it)})
   \<and> (case delete_item env it w of
      (Done _, w') \<Rightarrow> queue_map w' = (queue_map w)(pi_push_id it := None)
    | (_, w') \<Rightarrow> queue_map w' \<in> {queue_map w, (queue_map w)(pi_push_id it := None)})
   \<and> (case put_message env mid m w of
      (Done _, w') \<Rightarrow> map_of (w_messages w') = (map_of (w_messages w))(mid \<mapsto> m)
    | (_, w') \<Rightarrow> map_of (w_messages w') \<in> {map_of (w_messages w), (map_of (w_messages w))(mid \<mapsto> m)})"
proof (intro conjI)
  show "case delete_item env it w of
      (Done _, w') \<Rightarrow> queue_map w' = (queue_map w)(pi_push_id it := None)
    | (_, w') \<Rightarrow> queue_map w' \<in> {queue_map w, (queue_map w)(pi_push_id it := None)}"
  proof (cases "map_of (w_queue w) (pi_push_id it)")
    case None
    then have "(queue_map w)(pi_push_id it := None) = queue_map w" by (auto simp: queue_map_def)
    then show ?thesis using None by (simp add: delete_item_def io_defs)
  next
    case (Some x)
    then have "delete_item env it w = disk env ''remove push json'' (queue_delete (pi_push_id it)) w"
      by (simp add: delete_item_def io_defs)
    then show ?thesis by (simp only: drop_item.atomic)
  qed
qed (unfold write_item_def put_message_def, rule put_item.atomic_after_read, rule put_message.atomic)

section \<open>Identities\<close>

definition well_named :: "string \<times> push_subject \<Rightarrow> bool" where
  "well_named i = (case snd i of DraftOf _ _ \<Rightarrow> prefix ''push_draft_'' (fst i)
     | MessageOf m \<Rightarrow> fst i = message_push_id m)"

definition coherent :: "(string \<times> push_subject) set \<Rightarrow> bool" where
  "coherent R \<longleftrightarrow> (\<forall>i \<in> R. well_named i) \<and> inj_on snd R"

definition idents :: "(string \<times> push_item) list \<Rightarrow> (string \<times> push_subject) set" where
  "idents q = item_ident ` snd ` set q"

definition ids_match :: "(string \<times> push_item) list \<Rightarrow> bool" where
  "ids_match q \<longleftrightarrow> (\<forall>e \<in> set q. pi_push_id (snd e) = fst e)"

definition identified :: "(string \<times> push_item) list \<Rightarrow> bool" where
  "identified q \<longleftrightarrow> coherent (idents q) \<and> ids_match q"

lemma coherent_mono: "coherent R \<Longrightarrow> S \<subseteq> R \<Longrightarrow> coherent S"
  by (auto simp: coherent_def intro: inj_on_subset)

lemma set_put_subset: "set (put k v m) \<subseteq> insert (k, v) (set m)"
  by (induction k v m rule: put.induct) auto

lemma idents_put: "idents (put p it q) \<subseteq> insert (item_ident it) (idents q)"
  using set_put_subset [of p it q] by (force simp: idents_def)

lemma ids_match_put: "ids_match q \<Longrightarrow> ids_match (put (pi_push_id it) (durable it) q)"
  using set_put_subset [of "pi_push_id it" "durable it" q] by (auto simp: ids_match_def)

lemma idents_remove: "idents (remove p q) \<subseteq> idents q" "ids_match q \<Longrightarrow> ids_match (remove p q)"
  by (auto simp: idents_def ids_match_def remove_def)

definition idents_in :: "(string \<times> push_subject) set \<Rightarrow> world \<Rightarrow> bool" where
  "idents_in R w \<longleftrightarrow> ids_match (w_queue w) \<and> idents (w_queue w) \<subseteq> R"

lemma idents_in_put: "idents_in R w \<Longrightarrow> item_ident it \<in> R \<Longrightarrow> idents_in R (queue_put it w)"
  using idents_put [of "pi_push_id it" "durable it" "w_queue w"]
  by (auto simp: idents_in_def queue_put_def ids_match_put)

lemma idents_in_delete: "idents_in R w \<Longrightarrow> idents_in R (queue_delete p w)"
  using idents_remove [where p = p and q = "w_queue w"] by (auto simp: idents_in_def queue_delete_def)

lemma idents_in_item: "idents_in R w \<Longrightarrow> it \<in> set (map snd (w_queue w)) \<Longrightarrow> item_ident it \<in> R"
  by (auto simp: idents_in_def idents_def)

interpretation known: pushing "idents_in R" "\<lambda>it. item_ident it \<in> R" for R
  by standard (simp_all add: idents_in_put idents_in_delete idents_in_item, simp_all add: idents_in_def same_core_def)

interpretation known_released: recovering "idents_in R" "\<lambda>it. item_ident it \<in> R" for R
  by standard (simp add: idents_in_def)

lemma known_identified: "idents_in R w \<Longrightarrow> coherent R \<Longrightarrow> identified (w_queue w)"
  by (auto simp: identified_def idents_in_def intro: coherent_mono)

lemma keeps_identified:
  assumes "\<And>R. keeps (idents_in R) m" "identified (w_queue w)"
  shows "identified (w_queue (snd (m w)))"
proof (rule known_identified)
  show "idents_in (idents (w_queue w)) (snd (m w))"
    by (rule keepsD [OF assms(1)]) (use assms(2) in \<open>simp add: identified_def idents_in_def\<close>)
  show "coherent (idents (w_queue w))" using assms(2) by (simp add: identified_def)
qed

lemma identified_unique:
  assumes "identified q" "x \<in> snd ` set q" "y \<in> snd ` set q" "item_subject x = item_subject y"
  shows "pi_push_id x = pi_push_id y"
proof -
  have "inj_on snd (idents q)" using assms(1) by (simp add: identified_def coherent_def)
  moreover have "snd (item_ident x) = snd (item_ident y)" using assms(4) by (simp add: item_ident_def)
  ultimately have "item_ident x = item_ident y" using assms(2,3) by (auto simp: idents_def dest: inj_onD)
  then show ?thesis by (rule item_identD)
qed

lemma identified_put:
  assumes "identified q" "well_named (item_ident it)"
    and "\<And>x. x \<in> snd ` set q \<Longrightarrow> item_subject x = item_subject it \<Longrightarrow> pi_push_id x = pi_push_id it"
  shows "identified (put (pi_push_id it) (durable it) q)"
proof -
  have c: "coherent (idents q)" "ids_match q" using assms(1) by (simp_all add: identified_def)
  have own: "j = item_ident it" if "j \<in> idents q" "snd j = snd (item_ident it)" for j
  proof -
    obtain x where x: "x \<in> snd ` set q" "j = item_ident x" using \<open>j \<in> idents q\<close> unfolding idents_def by blast
    then show ?thesis using assms(3) [OF x(1)] that(2) by (simp add: item_ident_def)
  qed
  have "inj_on snd (insert (item_ident it) (idents q))"
    using c(1) own [OF _ sym] by (auto simp: coherent_def)
  then have "coherent (insert (item_ident it) (idents q))"
    using c(1) assms(2) by (simp add: coherent_def)
  then show ?thesis
    using idents_put [of "pi_push_id it" "durable it" q] c(2)
    by (simp add: identified_def ids_match_put coherent_mono)
qed

section \<open>Queueing a draft\<close>

text \<open>What is queued for a draft when the queue is \<open>q\<close>.\<close>

definition enqueued :: "string \<Rightarrow> string \<Rightarrow> (string \<times> push_item) list \<Rightarrow> push_item \<Rightarrow> bool" where
  "enqueued c d q it \<longleftrightarrow> durable it = it \<and> item_subject it = DraftOf c d \<and> \<not> has_started_effects it
     \<and> (case List.find (for_draft c d) (map snd q) of
          Some old \<Rightarrow> pi_push_id it = pi_push_id old \<and> pi_enqueue_seq it = pi_enqueue_seq old
            \<and> \<not> has_started_effects old
        | None \<Rightarrow> map_of q (pi_push_id it) = None \<and> prefix ''push_draft_'' (pi_push_id it)
            \<and> pi_enqueue_seq it = fold max (map (pi_enqueue_seq \<circ> snd) q) 0 + 1)"

definition enqueued_or_same :: "string \<Rightarrow> string \<Rightarrow> (string \<times> push_item) list \<Rightarrow> world \<Rightarrow> bool" where
  "enqueued_or_same c d q w \<longleftrightarrow> w_queue w = q
     \<or> (\<exists>it. enqueued c d q it \<and> w_queue w = put (pi_push_id it) it q)"

abbreviation enqueues :: "string \<Rightarrow> string \<Rightarrow> (string \<times> push_item) list \<Rightarrow> (world \<Rightarrow> bool) \<Rightarrow> 'a cmd \<Rightarrow> ('a \<Rightarrow> world \<Rightarrow> bool) \<Rightarrow> bool" where
  "enqueues c d q P m Q \<equiv> hoare P m Q (\<lambda>_. enqueued_or_same c d q) (enqueued_or_same c d q)"

lemma same_enqueued: "queue_is q w \<Longrightarrow> enqueued_or_same c d q w"
  by (simp add: queue_is_def enqueued_or_same_def)

lemma keeps_enqueues: "keeps (queue_is q) m \<Longrightarrow> enqueues c d q (queue_is q) m (\<lambda>_. queue_is q)"
  by (erule hoare_weaken) (simp_all add: same_enqueued)

lemma find_draft_queue:
  "enqueues c d q (queue_is q) (find_draft_item env c d)
     (\<lambda>r w. queue_is q w \<and> r = List.find (for_draft c d) (map snd q))"
  unfolding find_draft_item_def read_items_def for_draft_def
  by (rule hoare_bind [where R = "\<lambda>items w. queue_is q w \<and> items = map snd q"],
      rule hoare_then [OF keeps_enqueues [OF queue_is.keeps_read]])
    (auto simp: hoare_def gets_def ret_def queue_is_def)

lemma new_push_id_queue:
  "enqueues c d q (queue_is q) (new_draft_push_id_from env n)
     (\<lambda>p w. queue_is q w \<and> (map_of q p = None \<and> prefix ''push_draft_'' p))"
proof (induction n)
  case 0
  show ?case by (simp add: hoare_def fail_def same_enqueued)
next
  case (Suc n)
  have pick: "enqueues c d q (queue_is q) (ask (\<lambda>t. Reply (''push_draft_'' @ e_random env t)))
      (\<lambda>p w. queue_is q w \<and> prefix ''push_draft_'' p)"
    by (rule hoare_ask) (auto simp: same_enqueued queue_is_def enqueued_or_same_def)
  have test: "enqueues c d q (\<lambda>w. queue_is q w \<and> prefix ''push_draft_'' p)
      (bind_io (gets (\<lambda>w. map_of (w_queue w) p = None)) (\<lambda>free. if free then ret p else new_draft_push_id_from env n))
      (\<lambda>p w. queue_is q w \<and> (map_of q p = None \<and> prefix ''push_draft_'' p))" for p
    by (rule hoare_gets_bind, rule hoare_if)
      (auto simp: hoare_def ret_def queue_is_def intro!: hoare_pre [OF Suc, unfolded hoare_def queue_is_def])
  show ?case unfolding new_draft_push_id_from.simps by (rule hoare_bind [OF pick test])
qed

lemma next_seq_queue:
  "enqueues c d q (queue_is q) (next_enqueue_seq env)
     (\<lambda>n w. queue_is q w \<and> n = fold max (map (pi_enqueue_seq \<circ> snd) q) 0 + 1)"
  unfolding next_enqueue_seq_def read_items_def
  by (rule hoare_bind [where R = "\<lambda>items w. queue_is q w \<and> items = map snd q"],
      rule hoare_then [OF keeps_enqueues [OF queue_is.keeps_read]])
    (auto simp: hoare_def gets_def ret_def queue_is_def)

lemma write_enqueued:
  assumes "enqueued c d q it"
  shows "enqueues c d q (queue_is q) (write_item env it) (\<lambda>_. queue_is (put (pi_push_id it) it q))"
  unfolding write_item_def
  by (rule hoare_then [OF keeps_enqueues [OF queue_is.keeps_read]], rule hoare_disk)
    (use assms in \<open>auto simp: queue_is_def queue_put_def enqueued_or_same_def enqueued_def\<close>)

lemma write_draft_queue:
  assumes "\<And>t seq. seqs seq \<Longrightarrow> enqueued c d q (draft_item p seq c d t existing preserved)"
    and "enqueues c d q (queue_is q) pick (\<lambda>n w. queue_is q w \<and> seqs n)"
  shows "enqueues c d q (queue_is q) (then_io (disk_read env ctxt)
     (bind_io (now env) (\<lambda>t. bind_io pick (\<lambda>seq.
      then_io (write_item env (draft_item p seq c d t existing preserved)) (ret p)))))
     (\<lambda>r w. r = p \<and> (\<exists>it. enqueued c d q it \<and> pi_push_id it = p \<and> w_queue w = put p it q))"
proof (rule hoare_then [OF keeps_enqueues [OF queue_is.keeps_read]],
    rule hoare_bind [OF keeps_enqueues [OF queue_is.keeps_now]], rule hoare_bind [OF assms(2)], rule hoare_and_pure)
  fix t seq assume s: "seqs seq"
  let ?it = "draft_item p seq c d t existing preserved"
  have e: "enqueued c d q ?it" "pi_push_id ?it = p" using assms(1) [OF s] by (simp_all add: draft_item_def)
  show "enqueues c d q (queue_is q) (then_io (write_item env ?it) (ret p))
     (\<lambda>r w. r = p \<and> (\<exists>it. enqueued c d q it \<and> pi_push_id it = p \<and> w_queue w = put p it q))"
    by (rule hoare_then [OF write_enqueued [OF e(1)]]) (use e in \<open>auto simp: hoare_def ret_def queue_is_def\<close>)
qed

lemma draft_item_fields:
  "durable (draft_item p seq c d t existing preserved) = draft_item p seq c d t existing preserved"
  "pi_push_id (draft_item p seq c d t existing preserved) = p"
  "pi_enqueue_seq (draft_item p seq c d t existing preserved) = seq"
  "item_subject (draft_item p seq c d t existing preserved) = DraftOf c d"
  "has_started_effects (draft_item p seq c d t existing preserved)
     = (case preserved of None \<Rightarrow> False | Some it \<Rightarrow> has_started_effects it)"
  by (auto simp: draft_item_def durable_def item_subject_def has_started_effects_def has_started_steps_def
      split: option.splits)

lemma queue_outbound_queue:
  "enqueues c d q (queue_is q) (queue_outbound env c d a prev)
     (\<lambda>p w. \<exists>it. enqueued c d q it \<and> pi_push_id it = p \<and> w_queue w = put p it q)"
  unfolding queue_outbound_def
proof (rule hoare_bind [OF find_draft_queue], rule hoare_and_pure)
  fix existing assume e: "existing = List.find (for_draft c d) (map snd q)"
  let ?Q = "\<lambda>p w. \<exists>it. enqueued c d q it \<and> pi_push_id it = p \<and> w_queue w = put p it q"
  show "enqueues c d q (queue_is q) (bind_io (of_res (validate_outbound_requeue existing prev a)) (\<lambda>reset.
     let preserved = (if reset then None else existing) in
     bind_io (case existing of Some it \<Rightarrow> ret (pi_push_id it) | None \<Rightarrow> new_draft_push_id env) (\<lambda>push_id.
     then_io (disk_read env ''create directory'')
     (bind_io (now env) (\<lambda>t.
      bind_io (case existing of Some it \<Rightarrow> ret (pi_enqueue_seq it) | None \<Rightarrow> next_enqueue_seq env) (\<lambda>seq.
      then_io (write_item env (draft_item push_id seq c d t existing preserved))
        (ret push_id))))))) ?Q"
  proof (cases existing)
    case None
    have "enqueues c d q (queue_is q) (bind_io (new_draft_push_id env) (\<lambda>p.
     then_io (disk_read env ''create directory'') (bind_io (now env) (\<lambda>t. bind_io (next_enqueue_seq env) (\<lambda>seq.
      then_io (write_item env (draft_item p seq c d t None None)) (ret p)))))) ?Q"
      unfolding new_draft_push_id_def
    proof (rule hoare_bind [OF new_push_id_queue], rule hoare_and_pure)
      fix p assume "map_of q p = None \<and> prefix ''push_draft_'' p"
      then have "seq = fold max (map (pi_enqueue_seq \<circ> snd) q) 0 + 1 \<Longrightarrow> enqueued c d q (draft_item p seq c d t None None)" for t seq
        using e None by (simp add: enqueued_def draft_item_fields)
      from write_draft_queue [OF this next_seq_queue, where env = env and ctxt = "''create directory''"]
      show "enqueues c d q (queue_is q) (then_io (disk_read env ''create directory'') (bind_io (now env) (\<lambda>t.
          bind_io (next_enqueue_seq env) (\<lambda>seq. then_io (write_item env (draft_item p seq c d t None None)) (ret p))))) ?Q"
        by (rule hoare_weaken) auto
    qed
    then show ?thesis using None by (simp add: validate_outbound_requeue_def of_res_def io_ret_bind)
  next
    case (Some it)
    show ?thesis
    proof (cases "has_started_effects it")
      case True
      then show ?thesis
        using Some by (simp add: validate_outbound_requeue_def of_res_def io_defs hoare_def same_enqueued)
    next
      case False
      have put: "enqueues c d q (queue_is q) (then_io (disk_read env ''create directory'') (bind_io (now env) (\<lambda>t.
          bind_io (ret (pi_enqueue_seq it)) (\<lambda>seq.
          then_io (write_item env (draft_item (pi_push_id it) seq c d t existing preserved)) (ret (pi_push_id it)))))) ?Q"
        if "preserved = None \<or> preserved = existing" for preserved
      proof (rule hoare_weaken)
        have "seq = pi_enqueue_seq it \<Longrightarrow> enqueued c d q (draft_item (pi_push_id it) seq c d t existing preserved)" for t seq
          using e False that unfolding Some by (auto simp: enqueued_def draft_item_fields e [symmetric])
        moreover have "enqueues c d q (queue_is q) (ret (pi_enqueue_seq it)) (\<lambda>n w. queue_is q w \<and> n = pi_enqueue_seq it)"
          by (simp add: hoare_def ret_def)
        ultimately show "enqueues c d q (queue_is q) (then_io (disk_read env ''create directory'') (bind_io (now env) (\<lambda>t.
          bind_io (ret (pi_enqueue_seq it)) (\<lambda>seq.
          then_io (write_item env (draft_item (pi_push_id it) seq c d t existing preserved)) (ret (pi_push_id it))))))
          (\<lambda>r w. r = pi_push_id it \<and> (\<exists>x. enqueued c d q x \<and> pi_push_id x = pi_push_id it \<and> w_queue w = put (pi_push_id it) x q))"
          by (rule write_draft_queue)
      qed auto
      show ?thesis
        using Some False put [of None] put [of existing]
        by (simp add: validate_outbound_requeue_def of_res_def io_ret_bind Let_def)
    qed
  qed
qed

text \<open>Queueing a draft writes exactly one record and touches no other: for a draft that is
  not queued yet it is a new record under a fresh id behind every queued one; for one that is queued and
  has not started it replaces that record under the same id and at the same place in the order; and for
  one that has started it fails.  Whatever fails or is killed on the way, the queue is as before or
  holds that same record.\<close>

theorem queueing_a_draft:
  "case queue_outbound env c d a prev w of
     (Done p, w') \<Rightarrow> \<exists>it. enqueued c d (w_queue w) it \<and> pi_push_id it = p \<and> w_queue w' = put p it (w_queue w)
   | (_, w') \<Rightarrow> enqueued_or_same c d (w_queue w) w'"
  using queue_outbound_queue [where c = c and d = d and q = "w_queue w" and env = env and a = a and prev = prev,
      unfolded hoare_def, rule_format, of w]
  by (simp add: queue_is_def)

text \<open>A new record gets a sequence number above every one in the queue as long as the
  largest is not the last \<open>u64\<close>; so the queue is first in, first out.  (At the last one the addition
  overflows: a release build wraps to 0 and puts the new record first, a debug build panics.)\<close>

theorem next_sequence_number:
  assumes "next_enqueue_seq env w = (Done n, w')" "\<forall>x \<in> snd ` set (w_queue w). pi_enqueue_seq x \<noteq> - 1"
  shows "\<forall>x \<in> snd ` set (w_queue w). pi_enqueue_seq x < n"
proof -
  let ?m = "fold max (map (pi_enqueue_seq \<circ> snd) (w_queue w)) 0"
  have "n = ?m + 1"
    using hoareD_Done [OF next_seq_queue [where q = "w_queue w"] _ assms(1)] by (simp add: queue_is_def)
  have fold: "fold max xs a = Max (insert a (set xs))" for xs and a :: u64
    using Max.set_eq_fold [of a xs] by simp
  have le: "pi_enqueue_seq x \<le> ?m" if "x \<in> snd ` set (w_queue w)" for x
    unfolding fold using that by (auto intro!: Max_ge)
  have "?m \<in> insert 0 ((pi_enqueue_seq \<circ> snd) ` set (w_queue w))"
    unfolding fold by (metis Max_in finite.insertI List.finite_set insert_not_empty list.set_map)
  then have "?m \<noteq> - 1" using assms(2) by auto
  then have "1 + ?m \<noteq> 0" by (metis add.commute add_eq_0_iff)
  then have "?m < ?m + 1" by (simp add: word_less_nat_alt unatSuc add.commute [of ?m])
  then show ?thesis using le \<open>n = ?m + 1\<close> by (auto intro: le_less_trans)
qed

theorem next_sequence_number_witness:
  "\<exists>n w'. next_enqueue_seq demo_env queued_world = (Done n, w')
     \<and> w_queue queued_world \<noteq> [] \<and> list_all (\<lambda>x. pi_enqueue_seq (snd x) < n) (w_queue queued_world)"
proof -
  have q: "list_all (\<lambda>x. pi_enqueue_seq (snd x) \<noteq> - 1) (w_queue queued_world)" "w_queue queued_world \<noteq> []"
    by code_simp+
  obtain n w' where n: "next_enqueue_seq demo_env queued_world = (Done n, w')"
    by (simp add: next_enqueue_seq_def read_items_def disk_read_def disk_def demo_env_def io_defs)
  have "\<forall>x \<in> snd ` set (w_queue queued_world). pi_enqueue_seq x < n"
    by (rule next_sequence_number [OF n]) (use q(1) in \<open>auto simp: list_all_iff\<close>)
  then show ?thesis using n q(2) by (auto simp: list_all_iff)
qed

section \<open>A push that has started\<close>

text \<open>What nobody but a push or a recovery may change.\<close>

definition same_progress :: "push_item \<Rightarrow> push_item \<Rightarrow> bool" where
  "same_progress old it \<longleftrightarrow> item_subject it = item_subject old \<and> pi_enqueue_seq it = pi_enqueue_seq old
     \<and> pi_step_states it = pi_step_states old \<and> pi_local_stage it = pi_local_stage old
     \<and> pi_audit_pending it = pi_audit_pending old \<and> pi_created it = pi_created old
     \<and> pi_attempt_count it = pi_attempt_count old
     \<and> map_option mp_action (item_message it) = map_option mp_action (item_message old)
     \<and> map_option mp_snapshot (item_message it) = map_option mp_snapshot (item_message old)"

text \<open>The pushes of \<open>Z\<close> have started, are in the queue and keep their progress.\<close>

definition frozen :: "(string \<times> push_item) set \<Rightarrow> (string \<times> push_item) list \<Rightarrow> bool" where
  "frozen Z q \<longleftrightarrow> identified q \<and> distinct (map fst q)
     \<and> (\<forall>(p, old) \<in> Z. has_started_effects old \<and> (\<exists>it. map_of q p = Some it \<and> same_progress old it))"

lemma frozenD:
  assumes "frozen Z q" "(p, old) \<in> Z"
  obtains it where "map_of q p = Some it" "same_progress old it" "has_started_effects it"
proof -
  obtain it where "has_started_effects old" "map_of q p = Some it" "same_progress old it"
    using assms by (auto simp: frozen_def)
  then show ?thesis using that by (auto simp: same_progress_def has_started_effects_def has_started_steps_def)
qed

lemma identified_named: "identified q \<Longrightarrow> map_of q p = Some it \<Longrightarrow> pi_push_id it = p \<and> well_named (p, item_subject it)"
proof -
  assume q: "identified q" and "map_of q p = Some it"
  then have e: "(p, it) \<in> set q" by (simp add: map_of_SomeD)
  then have "item_ident it \<in> idents q" by (force simp: idents_def)
  then have "well_named (item_ident it)" using q by (simp add: identified_def coherent_def)
  moreover have "pi_push_id it = p" using q e by (auto simp: identified_def ids_match_def)
  ultimately show ?thesis by (simp add: item_ident_def)
qed

lemma identified_entry:
  assumes "identified q" "distinct (map fst q)" "x \<in> set (map snd q)"
  shows "map_of q (pi_push_id x) = Some x"
proof -
  obtain k where "(k, x) \<in> set q" using assms(3) by auto
  moreover then have "pi_push_id x = k" using assms(1) by (auto simp: identified_def ids_match_def)
  ultimately show ?thesis using assms(2) by simp
qed

lemma same_subject_entry:
  assumes "identified q" "distinct (map fst q)" "x \<in> set (map snd q)" "map_of q p = Some it" "item_subject x = item_subject it"
  shows "x = it"
proof -
  have "it \<in> snd ` set q" using map_of_SomeD [OF assms(4)] by force
  moreover have "x \<in> snd ` set q" using assms(3) by simp
  ultimately have "pi_push_id x = pi_push_id it" using assms(5) by (intro identified_unique [OF assms(1)])
  then show ?thesis
    using identified_entry [OF assms(1-3)] identified_named [OF assms(1,4)] assms(4) by simp
qed

lemma named_message: "well_named (message_push_id mid, s) \<Longrightarrow> s = MessageOf mid"
  by (cases s) (auto simp: well_named_def message_push_id_def prefix_def)

lemma for_draft_subject: "for_draft c d it \<longleftrightarrow> item_subject it = DraftOf c d"
  by (auto simp: for_draft_def item_draft_def item_subject_def split: push_payload.splits)

definition for_message :: "string \<Rightarrow> push_item \<Rightarrow> bool" where
  "for_message mid it = (case item_message it of None \<Rightarrow> False | Some m \<Rightarrow> mp_message_id m = mid)"

lemma for_message_subject: "for_message mid it \<longleftrightarrow> item_subject it = MessageOf mid"
  by (auto simp: for_message_def item_message_def item_subject_def split: push_payload.splits)

lemma frozen_put:
  assumes f: "frozen Z q" and new: "well_named (item_ident it)"
    and own: "\<And>old. (pi_push_id it, old) \<in> Z \<Longrightarrow> same_progress old it"
    and other: "\<And>x. x \<in> snd ` set q \<Longrightarrow> item_subject x = item_subject it \<Longrightarrow> pi_push_id x = pi_push_id it"
  shows "frozen Z (put (pi_push_id it) (durable it) q)"
proof -
  have "identified (put (pi_push_id it) (durable it) q)"
    by (rule identified_put [OF _ new other]) (use f in \<open>simp_all add: frozen_def\<close>)
  moreover have "has_started_effects old \<and> (\<exists>x. map_of (put (pi_push_id it) (durable it) q) p = Some x \<and> same_progress old x)"
    if "(p, old) \<in> Z" for p old
  proof -
    have "has_started_effects old" "\<exists>x. map_of q p = Some x \<and> same_progress old x" using f that by (auto simp: frozen_def)
    moreover have "same_progress old (durable it)" if "pi_push_id it = p"
      using own [of old] that \<open>(p, old) \<in> Z\<close> by (simp add: same_progress_def)
    ultimately show ?thesis by (cases "pi_push_id it = p") auto
  qed
  moreover have "distinct (map fst (put (pi_push_id it) (durable it) q))" using f by (simp add: frozen_def distinct_put)
  ultimately show ?thesis unfolding frozen_def by blast
qed

lemma message_item_fields:
  "pi_push_id (message_item seq mid a ls steps reply t preserved) = message_push_id mid"
  "item_subject (message_item seq mid a ls steps reply t preserved) = MessageOf mid"
  by (simp_all add: message_item_def item_subject_def)

text \<open>A requeue of a message action keeps what has started.\<close>

lemma frozen_message:
  assumes f: "frozen Z q"
    and x: "x = List.find (for_message mid) (map snd q)"
    and allowed: "\<And>it. x = Some it \<Longrightarrow> action_changed x a \<Longrightarrow> \<not> has_started_effects it"
    and seq: "\<And>it. x = Some it \<Longrightarrow> seq = pi_enqueue_seq it"
  shows "frozen Z (put (message_push_id mid)
    (durable (message_item seq mid a ls steps reply t (if action_changed x a then None else x))) q)"
proof -
  let ?new = "message_item seq mid a ls steps reply t (if action_changed x a then None else x)"
  have q: "identified q" "distinct (map fst q)" using f by (simp_all add: frozen_def)
  have own: "same_progress old ?new" if m: "(message_push_id mid, old) \<in> Z" for old
  proof -
    obtain it where it: "map_of q (message_push_id mid) = Some it" "same_progress old it" "has_started_effects it"
      using frozenD [OF f m] by metis
    have s: "item_subject it = MessageOf mid"
      using identified_named [OF q(1) it(1)] by (auto intro: named_message)
    have "it \<in> set (map snd q)" using map_of_SomeD [OF it(1)] by force
    then have "x \<noteq> None" using s unfolding x find_None_iff for_message_subject by blast
    then obtain y where y: "x = Some y" by blast
    then have "y \<in> set (map snd q)" "item_subject y = MessageOf mid"
      using find_Some_prop [of "for_message mid" "map snd q" y] x by (simp_all add: for_message_subject)
    then have "y = it" using same_subject_entry [OF q _ it(1)] s by simp
    then have unchanged: "x = Some it" "\<not> action_changed x a"
      using y allowed it(3) by auto
    then obtain m where m: "item_message it = Some m" "mp_message_id m = mid" "mp_action m = a"
      using s by (auto simp: action_changed_def item_message_def item_subject_def split: push_payload.splits)
    show ?thesis
      using it(2) unchanged m seq [OF unchanged(1)] s
      by (simp add: same_progress_def message_item_def item_subject_def item_message_def)
  qed
  have other: "pi_push_id z = pi_push_id ?new" if z: "z \<in> snd ` set q" "item_subject z = item_subject ?new" for z
  proof -
    have "z \<in> set (map snd q)" using z(1) by simp
    from identified_named [OF q(1) identified_entry [OF q this]] show ?thesis
      using z(2) by (simp add: well_named_def message_item_fields)
  qed
  have "well_named (item_ident ?new)"
    by (simp add: message_item_fields item_ident_def well_named_def)
  from frozen_put [OF f this _ other] show ?thesis using own by (simp only: message_item_fields)
qed

text \<open>Predicates on the queue alone.\<close>

interpretation on_queue: frame "\<lambda>w. F (w_queue w)" for F
  by standard (simp add: same_core_def)

lemma on_queue_write:
  assumes "\<And>q. F q \<Longrightarrow> G q" "\<And>q. F q \<Longrightarrow> G (put (pi_push_id it) (durable it) q)"
  shows "hoare (\<lambda>w. F (w_queue w)) (write_item env it) (\<lambda>_ w. G (w_queue w)) (\<lambda>_ w. G (w_queue w)) (\<lambda>w. G (w_queue w))"
  unfolding write_item_def disk_read_def
  by (rule hoare_then [where R = "\<lambda>w. F (w_queue w)"]; rule hoare_disk) (auto simp: assms queue_put_def)

lemma queue_messages_frozen:
  "keeps (\<lambda>w. frozen Z (w_queue w)) (queue_messages env a ls steps reply t mids first)"
proof (induction mids arbitrary: first)
  case (Cons mid mids)
  let ?J = "\<lambda>w. frozen Z (w_queue w)"
  let ?find = "\<lambda>x q. frozen Z q \<and> x = List.find (for_message mid) (map snd q)"
  have find: "hoare ?J (find_message_item env mid) (\<lambda>x w. ?find x (w_queue w)) (\<lambda>_. ?J) ?J"
    unfolding find_message_item_def read_items_def for_message_def
    by (rule hoare_bind [where R = "\<lambda>r w. frozen Z (w_queue w) \<and> r = map snd (w_queue w)"],
        rule hoare_then [OF on_queue.keeps_read]) (auto simp: hoare_def gets_def ret_def)
  have weak: "hoare (\<lambda>w. ?find x (w_queue w)) m (\<lambda>_ w. ?find x (w_queue w)) (\<lambda>_. ?J) ?J"
    if "keeps (\<lambda>w. ?find x (w_queue w)) m" for x and m :: "'b cmd"
    by (rule hoare_weaken [OF that]) auto
  have seq: "hoare (\<lambda>w. ?find x (w_queue w)) (case x of Some it \<Rightarrow> ret (pi_enqueue_seq it) | None \<Rightarrow> next_enqueue_seq env)
      (\<lambda>seq w. ?find x (w_queue w) \<and> (\<forall>it. x = Some it \<longrightarrow> seq = pi_enqueue_seq it)) (\<lambda>_. ?J) ?J" for x
  proof (cases x)
    case None
    then show ?thesis using weak [OF on_queue.keeps_next_seq, of x env] by simp
  qed (simp add: hoare_def ret_def)
  have check: "hoare (\<lambda>w. ?find x (w_queue w)) (case x of
            Some it \<Rightarrow> if action_changed x a then of_res (ensure_started_action_unchanged it a) else ret ()
          | None \<Rightarrow> ret ()) (\<lambda>_ w. ?find x (w_queue w) \<and> (\<forall>it. x = Some it \<longrightarrow> action_changed x a \<longrightarrow> \<not> has_started_effects it))
      (\<lambda>_. ?J) ?J" for x
    by (cases x) (auto simp: hoare_def ret_def of_res_def fail_def ensure_started_action_unchanged_def require_def)
  let ?tail = "\<lambda>it first. then_io (write_item env it) (queue_messages env a ls steps reply t mids
       (case first of None \<Rightarrow> Some it | Some f \<Rightarrow> Some f))"
  have put: "hoare (\<lambda>w. (?find x (w_queue w) \<and> (\<forall>it. x = Some it \<longrightarrow> seq = pi_enqueue_seq it)) \<and> ok)
      (?tail (message_item seq mid a ls steps reply t (if action_changed x a then None else x)) first) (\<lambda>_. ?J) (\<lambda>_. ?J) ?J"
    if ok: "ok \<longleftrightarrow> (\<forall>it. x = Some it \<longrightarrow> action_changed x a \<longrightarrow> \<not> has_started_effects it)" for x seq ok
  proof (rule hoare_then [OF _ Cons.IH], rule hoare_pre [OF on_queue_write])
    let ?it = "message_item seq mid a ls steps reply t (if action_changed x a then None else x)"
    let ?F = "\<lambda>q. (?find x q \<and> (\<forall>it. x = Some it \<longrightarrow> seq = pi_enqueue_seq it)) \<and> ok"
    show "?F q \<Longrightarrow> frozen Z q" for q by simp
    show "?F q \<Longrightarrow> frozen Z (put (pi_push_id ?it) (durable ?it) q)" for q
      unfolding message_item_fields by (rule frozen_message) (auto simp: ok)
  qed
  show ?case
  proof (cases "mid \<in> set (map loc_message_id ls)")
    case True
    show ?thesis
      unfolding queue_messages.simps if_not_P [OF not_not [THEN iffD2, OF True]] Let_def
    proof (rule hoare_bind [OF find], rule hoare_then [OF check])
      fix x
      let ?ok = "\<forall>it. x = Some it \<longrightarrow> action_changed x a \<longrightarrow> \<not> has_started_effects it"
      have "hoare (\<lambda>w. ?find x (w_queue w) \<and> ?ok) (bind_io (case x of Some it \<Rightarrow> ret (pi_enqueue_seq it) | None \<Rightarrow> next_enqueue_seq env)
          (\<lambda>seq. ?tail (message_item seq mid a ls steps reply t (if action_changed x a then None else x)) first)) (\<lambda>_. ?J) (\<lambda>_. ?J) ?J"
      proof (rule hoare_and_pure)
        assume ok: ?ok
        show "hoare (\<lambda>w. ?find x (w_queue w)) (bind_io (case x of Some it \<Rightarrow> ret (pi_enqueue_seq it) | None \<Rightarrow> next_enqueue_seq env)
          (\<lambda>seq. ?tail (message_item seq mid a ls steps reply t (if action_changed x a then None else x)) first)) (\<lambda>_. ?J) (\<lambda>_. ?J) ?J"
          by (rule hoare_bind [OF seq], rule hoare_pre [OF put [OF refl]]) (use ok in simp)
      qed
      then show "hoare (\<lambda>w. ?find x (w_queue w) \<and> ?ok) (bind_io (case x of Some it \<Rightarrow> ret (pi_enqueue_seq it) | None \<Rightarrow> next_enqueue_seq env)
          (\<lambda>seq. then_io (write_item env (message_item seq mid a ls steps reply t (if action_changed x a then None else x)))
           (queue_messages env a ls steps reply t mids (case first of None \<Rightarrow>
              Some (message_item seq mid a ls steps reply t (if action_changed x a then None else x)) | Some f \<Rightarrow> Some f))))
          (\<lambda>_. ?J) (\<lambda>_. ?J) ?J" .
    qed
  qed (use Cons.IH in simp)
qed (simp add: keeps_ret)

lemma frozen_enqueued:
  assumes f: "frozen Z q" and e: "enqueued c d q it"
  shows "frozen Z (put (pi_push_id it) it q)"
proof -
  have q: "identified q" "distinct (map fst q)" using f by (simp_all add: frozen_def)
  have busy: "\<exists>x. map_of q p = Some x \<and> has_started_effects x" if "(p, old) \<in> Z" for p old
    using frozenD [OF f that] by metis
  have s: "item_subject it = DraftOf c d" "durable it = it" using e by (simp_all add: enqueued_def)
  show ?thesis
  proof (cases "List.find (for_draft c d) (map snd q)")
    case None
    then have n: "map_of q (pi_push_id it) = None" "prefix ''push_draft_'' (pi_push_id it)"
      using e by (simp_all add: enqueued_def)
    have "item_subject z \<noteq> item_subject it" if "z \<in> snd ` set q" for z
      using None that by (auto simp: find_None_iff for_draft_subject s(1))
    then have "frozen Z (put (pi_push_id it) (durable it) q)"
      using n s(1) by (intro frozen_put [OF f]) (auto simp: item_ident_def well_named_def dest: busy)
    then show ?thesis by (simp add: s(2))
  next
    case (Some y)
    then have y: "pi_push_id it = pi_push_id y" "\<not> has_started_effects y" using e by (simp_all add: enqueued_def)
    have yq: "y \<in> set (map snd q)" "item_subject y = DraftOf c d"
      using find_Some_prop [OF Some] by (simp_all add: for_draft_subject)
    have m: "map_of q (pi_push_id it) = Some y" using identified_entry [OF q yq(1)] y(1) by simp
    have other: "pi_push_id z = pi_push_id it" if "z \<in> snd ` set q" "item_subject z = item_subject it" for z
      unfolding y(1) by (rule identified_unique [OF q(1) that(1)]) (use yq that(2) s(1) in auto)
    have "well_named (item_ident it)"
      using identified_named [OF q(1) m] yq(2) s(1) by (simp add: item_ident_def)
    moreover have "(pi_push_id it, old) \<notin> Z" for old using busy m y(2) by fastforce
    ultimately have "frozen Z (put (pi_push_id it) (durable it) q)"
      by (intro frozen_put [OF f _ _ other]) auto
    then show ?thesis by (simp add: s(2))
  qed
qed

lemma frozen_remove:
  assumes "frozen Z q" "k \<notin> fst ` Z"
  shows "frozen Z (remove k q)"
proof -
  have "identified (remove k q)"
    using assms(1) idents_remove [where p = k and q = q] coherent_mono by (auto simp: frozen_def identified_def)
  moreover have "p \<noteq> k" if "(p, old) \<in> Z" for p old using assms(2) that by force
  ultimately show ?thesis using assms(1) by (auto simp: frozen_def distinct_remove)
qed

lemma frozen_delete:
  assumes "pi_push_id it \<notin> fst ` Z"
  shows "keeps (\<lambda>w. frozen Z (w_queue w)) (delete_item env it)"
  unfolding delete_item_def
  by (intro hoare_rules hoare_disk) (use assms in \<open>auto simp: queue_delete_def frozen_remove\<close>)

lemma read_unstarted:
  "hoare (\<lambda>w. frozen Z (w_queue w)) (read_items env)
    (\<lambda>items w. frozen Z (w_queue w) \<and> (\<forall>it \<in> set items. \<not> has_started_effects it \<longrightarrow> pi_push_id it \<notin> fst ` Z))
    (\<lambda>_ w. frozen Z (w_queue w)) (\<lambda>w. frozen Z (w_queue w))"
proof -
  have "pi_push_id it \<notin> fst ` Z" if f: "frozen Z q" and it: "it \<in> set (map snd q)" "\<not> has_started_effects it" for it q
  proof
    assume "pi_push_id it \<in> fst ` Z"
    then obtain old where "(pi_push_id it, old) \<in> Z" by auto
    then obtain x where "map_of q (pi_push_id it) = Some x" "has_started_effects x" using frozenD [OF f] by metis
    moreover have "map_of q (pi_push_id it) = Some it"
      using f identified_entry [OF _ _ it(1)] unfolding frozen_def by blast
    ultimately show False using it(2) by simp
  qed
  then show ?thesis
    unfolding read_items_def
    by (intro hoare_then [OF on_queue.keeps_read]) (auto simp: hoare_def gets_def)
qed

lemma keeps_each: "(\<And>x. x \<in> set xs \<Longrightarrow> keeps I (f x)) \<Longrightarrow> keeps I (map_io f xs)"
  by (induction xs) (auto intro!: hoare_rules)

text \<open>Deleting some items of the queue after checking that none of them has started.\<close>

lemma frozen_checked:
  assumes "\<And>it. pi_push_id it \<notin> fst ` Z \<Longrightarrow> keeps (\<lambda>w. frozen Z (w_queue w)) (del it)"
    and "\<forall>it \<in> set items. \<not> has_started_effects it \<longrightarrow> pi_push_id it \<notin> fst ` Z"
  shows "keeps (\<lambda>w. frozen Z (w_queue w)) (case List.find has_started_effects (filter P items) of
     Some it \<Rightarrow> fail (e it) | None \<Rightarrow> map_io del (filter P items))"
proof (cases "List.find has_started_effects (filter P items)")
  case None
  then have "\<forall>it \<in> set (filter P items). pi_push_id it \<notin> fst ` Z"
    using assms(2) unfolding find_None_iff by auto
  then show ?thesis unfolding None using assms(1) by (auto intro!: keeps_each)
qed (simp add: keeps_fail)

lemma remove_outbound_frozen: "keeps (\<lambda>w. frozen Z (w_queue w)) (remove_outbound_for_draft env c d)"
  unfolding remove_outbound_for_draft_def Let_def
proof (rule hoare_bind [OF read_unstarted], rule hoare_and_pure)
  fix items :: "push_item list"
  assume a: "\<forall>it \<in> set items. \<not> has_started_effects it \<longrightarrow> pi_push_id it \<notin> fst ` Z"
  show "keeps (\<lambda>w. frozen Z (w_queue w)) (case List.find has_started_effects (filter (for_draft c d) items) of
       Some it \<Rightarrow> fail (err_push_already_started
         ''outbound push item already started and cannot be removed locally: '' (pi_push_id it))
     | None \<Rightarrow> map_io (\<lambda>it. bind_io (draft_frontmatter env c d) (\<lambda>fm.
         then_io (delete_item env it)
           (ret (pi_push_id it, case Option.bind fm df_sync_intent of
              Some intent \<Rightarrow> action_of_intent intent | None \<Rightarrow> Send)))) (filter (for_draft c d) items))"
    by (rule frozen_checked [OF _ a]) (intro hoare_rules on_queue.store_ops frozen_delete, assumption)
qed

lemma remove_messages_frozen: "keeps (\<lambda>w. frozen Z (w_queue w)) (remove_pending_message_pushes env mid kind)"
proof -
  let ?J = "\<lambda>w. frozen Z (w_queue w)"
  let ?P = "\<lambda>a it. case item_message it of None \<Rightarrow> False | Some m \<Rightarrow> mp_message_id m = mid \<and> mp_action m = a"
  have items: "hoare ?J (message_push_items env mid)
      (\<lambda>items w. ?J w \<and> (\<forall>it \<in> set items. \<not> has_started_effects it \<longrightarrow> pi_push_id it \<notin> fst ` Z)) (\<lambda>_. ?J) ?J"
    unfolding message_push_items_def
    by (rule hoare_bind [OF read_unstarted]) (auto simp: hoare_def ret_def)
  have found: "hoare ?J (removable_message_pushes env mid kind)
      (\<lambda>found w. ?J w \<and> (\<forall>it \<in> set found. pi_push_id it \<notin> fst ` Z)) (\<lambda>_. ?J) ?J"
    unfolding removable_message_pushes_def Let_def
    by (rule hoare_bind [OF keeps_of_res], rule hoare_bind [OF items])
      (auto simp: hoare_def ret_def fail_def find_None_iff split: option.split)
  show ?thesis
    unfolding remove_pending_message_pushes_def
    by (rule hoare_bind [OF found], rule hoare_and_pure, rule keeps_each)
      (intro hoare_rules frozen_delete, blast)
qed

lemma queue_actions_frozen:
  "keeps (\<lambda>w. frozen Z (w_queue w)) (queue_action_steps env kind mids ls steps reply)"
  unfolding queue_action_steps_def by (intro hoare_rules on_queue.prim queue_messages_frozen)

lemma queue_outbound_frozen:
  assumes "frozen Z (w_queue w)"
  shows "frozen Z (w_queue (snd (queue_outbound env c d a prev w)))"
proof -
  have "hoare (queue_is (w_queue w)) (queue_outbound env c d a prev) (\<lambda>_. enqueued_or_same c d (w_queue w))
      (\<lambda>_. enqueued_or_same c d (w_queue w)) (enqueued_or_same c d (w_queue w))"
    by (rule hoare_weaken [OF queue_outbound_queue]) (auto simp: enqueued_or_same_def)
  then have "enqueued_or_same c d (w_queue w) (snd (queue_outbound env c d a prev w))"
    unfolding hoare_def by (fastforce simp: queue_is_def split: prod.splits outcome.splits)
  then show ?thesis using assms frozen_enqueued by (auto simp: enqueued_or_same_def)
qed

fun local_command :: "command \<Rightarrow> bool" where
  "local_command (Push _ _ _) = False"
| "local_command (Recover _ _ _ _ _) = False"
| "local_command _ = True"

lemma local_frozen:
  assumes "local_command c" "frozen Z (w_queue w)"
  shows "frozen Z (w_queue (run env c w))"
  using assms
  by (cases c) (simp_all add: queue_outbound_frozen
      keepsD [OF queue_actions_frozen] keepsD [OF remove_outbound_frozen] keepsD [OF remove_messages_frozen])

section \<open>Through every history\<close>

lemma history_identified: "history mv w \<Longrightarrow> identified (w_queue w)"
proof (induction rule: history.induct)
  case (start w)
  then show ?case by (simp add: identified_def coherent_def idents_def ids_match_def)
next
  case (command w env c)
  show ?case
  proof (cases "local_command c")
    case True
    have "frozen {} (w_queue w)"
      using history_disk_ok [OF command(1)] command.IH by (simp add: frozen_def disk_ok_def queue_ok_def)
    then show ?thesis using local_frozen [OF True] by (auto simp: frozen_def)
  next
    case False
    then show ?thesis
      using command.IH by (cases c) (simp_all add: keeps_identified known.keeps_push known_released.keeps_recover_command)
  qed
next
  case (other w w')
  then show ?case by simp
qed

text \<open>Claim C19: after any history no draft and no message has two pushes, the push of a message has
  the id derived from the message, and the push of a draft has a draft id; so looking up the push of a
  draft or of a message finds the only one, and its file name is determined by it.\<close>

theorem one_push_per_subject:
  assumes "history mv w"
  shows "distinct (map (item_subject \<circ> snd) (w_queue w))
    \<and> list_all (\<lambda>(p, it). well_named (p, item_subject it)) (w_queue w)"
proof
  let ?q = "w_queue w"
  have q: "identified ?q" by (rule history_identified [OF assms])
  have d: "distinct (map fst ?q)" using history_disk_ok [OF assms] by (simp add: disk_ok_def queue_ok_def)
  have "inj_on (item_subject \<circ> snd) (set ?q)"
  proof (rule inj_onI)
    fix x y assume xy: "x \<in> set ?q" "y \<in> set ?q" "(item_subject \<circ> snd) x = (item_subject \<circ> snd) y"
    then have "pi_push_id (snd x) = pi_push_id (snd y)" by (intro identified_unique [OF q]) auto
    then have "fst x = fst y" using q xy(1,2) by (simp add: identified_def ids_match_def)
    then show "x = y" using d xy(1,2) by (meson distinct_map inj_onD)
  qed
  then show "distinct (map (item_subject \<circ> snd) ?q)" using d by (simp add: distinct_map)
  show "list_all (\<lambda>(p, it). well_named (p, item_subject it)) ?q"
    using d identified_named [OF q] by (auto simp: list_all_iff)
qed

theorem one_push_per_subject_witness:
  "distinct (map (item_subject \<circ> snd) (w_queue spam_queued_world))
    \<and> list_all (\<lambda>(p, it). well_named (p, item_subject it)) (w_queue spam_queued_world)"
  by (rule one_push_per_subject [OF scenario_history(7)])

text \<open>Claim C16: a push that has started is frozen: no enqueueing, requeueing or removal, of its own
  draft or message or of any other, deletes it, restarts it, changes its action or its place, or
  touches its steps, stage or audit duty.  Only a push or a confirmed recovery does.\<close>

theorem started_push_is_frozen:
  assumes "history mv w" "map_of (w_queue w) p = Some it" "has_started_effects it" "local_command c"
  shows "\<exists>it'. map_of (w_queue (run env c w)) p = Some it' \<and> same_progress it it'"
proof -
  have "distinct (map fst (w_queue w))"
    using history_disk_ok [OF assms(1)] by (simp add: disk_ok_def queue_ok_def)
  moreover have "same_progress it it" by (simp add: same_progress_def)
  ultimately have "frozen {(p, it)} (w_queue w)"
    using history_identified [OF assms(1)] assms(2,3) unfolding frozen_def by blast
  then have "frozen {(p, it)} (w_queue (run env c w))" by (rule local_frozen [OF assms(4)])
  then show ?thesis unfolding frozen_def by blast
qed

lemma killed_started: "map_option has_started_effects (map_of (w_queue killed_world) ''push_draft_r'') = Some True"
  by code_simp

theorem started_push_is_frozen_witness:
  "\<exists>it. map_of (w_queue (run demo_env (RemoveOutbound ''c1'' ''d'') killed_world)) ''push_draft_r'' = Some it
     \<and> has_started_effects it"
proof -
  obtain it where it: "map_of (w_queue killed_world) ''push_draft_r'' = Some it" "has_started_effects it"
    using killed_started by auto
  from started_push_is_frozen [OF scenario_history(4) this, of "RemoveOutbound ''c1'' ''d''" demo_env]
  show ?thesis
    using it(2) by (auto simp: same_progress_def has_started_effects_def has_started_steps_def)
qed

end
