(* ===== verification/Plan_Frame.thy ===== *)
theory Plan_Frame
  imports Plan_Facts
begin

text \<open>
  What planning leaves alone besides queue, log and item: it reads, asks and may update message files, so a
  predicate that neither the clock nor the message files can change survives it.  Drafts, cases and
  the audit log are of that kind.
\<close>

locale plan_frame =
  fixes I :: "world \<Rightarrow> bool"
  assumes tick_free: "I w \<Longrightarrow> I (tick w)"
    and messages_free: "I w \<Longrightarrow> I (w\<lparr>w_messages := ms\<rparr>)"
begin

lemma plans_read: "keeps I (disk_read env ctxt)"
  unfolding disk_read_def by (rule hoare_disk) (simp_all add: tick_free)

lemma plans_ask: "keeps I (ask rep)"
  by (rule hoare_ask) (simp_all add: tick_free)

lemma plans_ask_res: "keeps I (ask_res rep)"
  unfolding ask_res_def by (rule plans_ask)

lemma plans_now: "keeps I (now env)"
  unfolding now_def by (rule keeps_gets)

lemma plans_put_message: "keeps I (put_message env mid m)"
  unfolding put_message_def by (rule hoare_disk) (auto intro: messages_free tick_free)

lemmas plan_prim = plans_read plans_ask plans_ask_res plans_now plans_put_message

lemma plans_find_case: "keeps I (find_case_path env c)"
  unfolding find_case_path_def by (intro hoare_rules plan_prim)

lemma plans_frontmatter: "keeps I (draft_frontmatter env c d)"
  unfolding draft_frontmatter_def by (intro hoare_rules plan_prim plans_find_case)

lemma plans_read_message: "keeps I (read_message_by_id env mid)"
  unfolding read_message_by_id_def by (intro hoare_rules plan_prim)

lemmas plan_reads = plan_prim plans_find_case plans_frontmatter plans_read_message

lemma plans_locations: "keeps I (message_remote_locations_any env mids)"
  unfolding message_remote_locations_any_def message_remote_locations_inner_def
  by (intro hoare_rules plan_reads)

lemma plans_sync_state: "keeps I (write_archive_sync_state env mid b)"
  unfolding write_archive_sync_state_def by (intro hoare_rules plan_reads)

lemma plans_eligible: "keeps I (ensure_archive_eligible env mids)"
  unfolding ensure_archive_eligible_def by (intro hoare_rules plan_reads plans_sync_state)

lemma plans_unreferenced: "keeps I (ensure_message_ids_unreferenced env mids)"
  unfolding ensure_message_ids_unreferenced_def by (intro plan_reads)

lemma plans_skip: "keeps I (should_skip_reply_to_steps env it)"
  unfolding should_skip_reply_to_steps_def by (intro hoare_rules plan_reads)

lemma plans_filter_steps: "keeps I (filter_reply_to_steps env it steps)"
  unfolding filter_reply_to_steps_def by (intro hoare_rules plan_reads plans_skip)

lemma plans_prepare: "keeps I (prepare_current_outbound env it)"
  unfolding prepare_current_outbound_def by (intro hoare_rules plan_reads)

lemma plans_message: "keeps I (plan_message_push env cfg mid a)"
  unfolding plan_message_push_def Let_def plan_archive_message_push_def plan_locations_def
    case_prod_unfold
  by (intro hoare_rules plan_reads plans_locations plans_eligible plans_unreferenced)

lemma plans_actions_for: "keeps I (actions_for env cfg it)"
  unfolding actions_for_def by (intro hoare_rules plans_filter_steps)

lemma plans_reset: "keeps I (reset_progress_if_plan_changed env cfg it)"
  unfolding reset_progress_if_plan_changed_def by (intro hoare_rules plans_actions_for)

lemma plans_rfc822: "keeps I (planned_rfc822 env it)"
  unfolding planned_rfc822_def by (intro hoare_rules plan_reads)

lemma plans_message_item: "keeps I (plan_message_item env cfg it m)"
  unfolding plan_message_item_def Let_def
  by (intro hoare_rules plans_message plans_reset plans_rfc822)

lemma plans_draft_item: "keeps I (plan_draft_item env cfg it d)"
  unfolding plan_draft_item_def Let_def
  by (intro hoare_rules plan_reads plans_filter_steps plans_reset plans_prepare)

lemma plans_item: "keeps I (plan_item env cfg it)"
  unfolding plan_item_def by (intro hoare_rules plans_message_item plans_draft_item)

lemma plans_view: "keeps I (push_plan_item_view env ph cfg it h)"
  unfolding push_plan_item_view_def by (intro hoare_rules plan_reads plans_actions_for)

lemma plans_sorted: "keeps I (sorted_items env)"
  unfolding sorted_items_def read_items_def by (intro hoare_rules plan_prim)

lemma plans_records: "keeps I (queue_records env ph)"
  unfolding queue_records_def by (intro hoare_rules plan_prim plans_sorted)

lemma plans_build: "keeps I (build_push_plan env ph cfg)"
  unfolding build_push_plan_def plan_items_def Let_def
  by (intro hoare_rules plans_sorted plans_records plans_item plans_view)

end

section \<open>What planning finds it leaves\<close>

text \<open>The queue, the drafts, the cases and the log are as they were, and the clock has not gone back.\<close>

definition planning_from :: "world \<Rightarrow> world \<Rightarrow> bool" where
  "planning_from w w' \<longleftrightarrow> w_queue w' = w_queue w \<and> w_drafts w' = w_drafts w \<and> w_cases w' = w_cases w \<and> w_audit w' = w_audit w
     \<and> w_audit_torn w' = w_audit_torn w \<and> w_tick w \<le> w_tick w'"

interpretation planning: plan_frame "planning_from w" for w
  by unfold_locales (auto simp: planning_from_def)

lemma planning_from_refl [simp]: "planning_from w w"
  by (simp add: planning_from_def)

lemma sorted_items_from:
  "hoare (planning_from w) (sorted_items env)
     (\<lambda>its v. planning_from w v \<and> its = sort_items (map snd (w_queue w))) any_err (\<lambda>_. True)"
  unfolding sorted_items_def read_items_def
  by (rule hoare_bind [where R = "\<lambda>r v. planning_from w v \<and> r = map snd (w_queue w)"],
      rule hoare_then [OF keeps_done [OF planning.plans_read]])
    (auto simp: hoare_def ret_def gets_def planning_from_def)

text \<open>A loop that returns has run its body on every element, from a state with the invariant.\<close>

lemma map_io_all_done:
  assumes "\<And>x. keeps I (f x)" "I w" "map_io f xs w = (Done ys, w')" "x \<in> set xs"
  shows "\<exists>w1 y w2. I w1 \<and> f x w1 = (Done y, w2)"
  using assms(2-4)
proof (induction xs arbitrary: w ys)
  case (Cons a xs)
  obtain r w1 where a: "f a w = (r, w1)" by (cases "f a w")
  have I1: "I w1" using keepsD [OF assms(1), of w a] Cons.prems(1) a by simp
  show ?case
  proof (cases r)
    case (Done y)
    have "bind_io (map_io f xs) (\<lambda>ys. ret (y # ys)) w1 = (Done ys, w')"
      using Cons.prems(2) a Done by (simp add: bind_io_def)
    then obtain ys' where m: "map_io f xs w1 = (Done ys', w')"
      by (auto simp: bind_io_def ret_def split: prod.splits outcome.splits)
    show ?thesis
    proof (cases "x = a")
      case True
      then show ?thesis using Cons.prems(1) a Done by blast
    next
      case False
      then show ?thesis using Cons.IH [OF I1 m] Cons.prems(3) by simp
    qed
  qed (use Cons.prems a in \<open>auto simp: io_defs\<close>)
qed simp

end
