(* ===== verification/Completion_Laws.thy ===== *)
theory Completion_Laws
  imports Scenario Plan_Frame
begin

text \<open>
  The end of a push: the audit log gets each completion exactly once, an item leaves the queue only
  after its completion is in the log, a completion that was interrupted is finished by the next push,
  and what a recovery settles is one step.
\<close>

section \<open>The audit log\<close>

definition events_of :: "string \<Rightarrow> world \<Rightarrow> nat" where
  "events_of eid w = length (filter (\<lambda>ev. ae_event_id ev = eid) (w_audit w))"


lemma events_of_tick [simp]: "events_of eid (tick w) = events_of eid w"
  by (simp add: events_of_def)






section \<open>Leaving the queue\<close>




text \<open>An item that only lacks its audit entry.\<close>

definition audited_later :: push_item where
  "audited_later = uncertain_item\<lparr>pi_step_states := [], pi_local_stage := Some AuditPending,
     pi_audit_pending := Some \<lparr>ap_event_id = ''e'', ap_created = ''t'', ap_push_kind = ''send'', ap_case_uid = Some ''c1'',
       ap_draft_name = Some ''d'', ap_action = Some ''send'', ap_message_ids = [], ap_succeeded_step_count = 1,
       ap_attempt_count = 0, ap_last_error = None\<rparr>\<rparr>"

definition audited_world :: world where
  "audited_world = queue_put audited_later (demo_world\<lparr>w_item := audited_later\<rparr>)"



section \<open>Finishing an interrupted completion\<close>


lemma stage_mono: "local_stage_at_least it b \<Longrightarrow> a \<le> b \<Longrightarrow> local_stage_at_least it a"
  by (auto simp: local_stage_at_least_def split: option.splits)

subsection \<open>Commands that return\<close>














subsection \<open>A log in order\<close>

text \<open>The event that records the completion of a push, under the identity it has if that is fixed.\<close>

definition completes :: "push_item \<Rightarrow> audit_event \<Rightarrow> bool" where
  "completes it ev \<longleftrightarrow> ae_kind ev = ''push_succeeded'' \<and> (''push'', pi_push_id it) \<in> set (ae_targets ev)
     \<and> (\<forall>ap. pi_audit_pending it = Some ap \<longrightarrow> ae_event_id ev = ap_event_id ap)"

text \<open>
  The audit log can be read, no two of its events have the same identity, none has one that is drawn
  later, and under the identity of a pending completion there is nothing but that completion.
\<close>

definition audit_ok :: "env \<Rightarrow> push_item list \<Rightarrow> world \<Rightarrow> bool" where
  "audit_ok env its w \<longleftrightarrow> \<not> w_audit_torn w \<and> distinct (map ae_event_id (w_audit w))
     \<and> (\<forall>ev \<in> set (w_audit w). \<forall>n \<ge> w_tick w. ae_event_id ev \<noteq> e_event_id env n)
     \<and> (\<forall>it \<in> set its. \<forall>ap. pi_audit_pending it = Some ap \<longrightarrow> (\<forall>n \<ge> w_tick w. ap_event_id ap \<noteq> e_event_id env n)
          \<and> (\<forall>ev \<in> set (w_audit w). ae_event_id ev = ap_event_id ap \<longrightarrow> completes it ev))"

text \<open>What a completion keeps: the log, the events \<open>A\<close> in it, the cases, and the absence of the records \<open>P\<close>.\<close>

definition completing :: "env \<Rightarrow> push_item list \<Rightarrow> audit_event set \<Rightarrow> string set \<Rightarrow> string list \<Rightarrow> world \<Rightarrow> bool" where
  "completing env its A P C w \<longleftrightarrow> audit_ok env its w \<and> A \<subseteq> set (w_audit w) \<and> w_cases w = C
     \<and> (\<forall>p \<in> P. map_of (w_queue w) p = None)"

lemma audit_ok_cong:
  assumes "audit_ok env its w" "w_audit w' = w_audit w" "w_audit_torn w' = w_audit_torn w" "w_tick w \<le> w_tick w'"
  shows "audit_ok env its w'"
proof -
  have "w_tick w \<le> n" if "w_tick w' \<le> n" for n using that assms(4) by simp
  then show ?thesis using assms(1-3) by (auto simp: audit_ok_def)
qed

lemma completing_cong:
  assumes "completing env its A P C w" "w_audit w' = w_audit w" "w_audit_torn w' = w_audit_torn w" "w_tick w \<le> w_tick w'"
    and "w_cases w' = w_cases w" "\<And>p. p \<in> P \<Longrightarrow> map_of (w_queue w) p = None \<Longrightarrow> map_of (w_queue w') p = None"
  shows "completing env its A P C w'"
proof -
  have "audit_ok env its w'" using audit_ok_cong [OF _ assms(2-4)] assms(1) by (simp add: completing_def)
  moreover have "\<forall>p \<in> P. map_of (w_queue w') p = None" using assms(1,6) by (simp add: completing_def)
  ultimately show ?thesis using assms(1,2,5) by (simp add: completing_def)
qed

lemma completing_tick [simp]: "completing env its A P C w \<Longrightarrow> completing env its A P C (tick w)"
  by (erule completing_cong) simp_all

lemma completing_item [simp]: "completing env its A P C (w\<lparr>w_item := it\<rparr>) = completing env its A P C w"
  by (simp add: completing_def audit_ok_def)



subsection \<open>The stages\<close>

text \<open>The members of an item that its local stages leave alone.\<close>

definition same_push :: "push_item \<Rightarrow> push_item \<Rightarrow> bool" where
  "same_push it it' \<longleftrightarrow> pi_push_id it' = pi_push_id it \<and> pi_payload it' = pi_payload it
     \<and> pi_planned_outbound it' = pi_planned_outbound it \<and> pi_planned_message_action it' = pi_planned_message_action it
     \<and> pi_audit_pending it' = pi_audit_pending it"

lemma same_push_refl [simp]: "same_push it it"
  by (simp add: same_push_def)






lemma same_push_trans: "same_push a b \<Longrightarrow> same_push b c \<Longrightarrow> same_push a c"
  by (simp add: same_push_def)











subsection \<open>A push that only completes\<close>














section \<open>What a push has finished it does not do again\<close>

definition sent_state_is :: "(string \<times> string) list \<Rightarrow> ((string \<times> string) \<times> draft_fields res) list \<Rightarrow> world \<Rightarrow> bool" where
  "sent_state_is S D w \<longleftrightarrow> w_sent w = S \<and> w_drafts w = D \<and> local_stage_at_least (w_item w) DraftRemoved"

lemma sent_state_disk: "(\<And>w. sent_state_is S D w \<Longrightarrow> sent_state_is S D (f w)) \<Longrightarrow> keeps (sent_state_is S D) (disk env c f)"
  by (rule hoare_disk) (auto simp: sent_state_is_def)

lemma sent_state_put: "keeps (sent_state_is S D) (put_message env mid m)"
  unfolding put_message_def by (rule sent_state_disk) (simp add: sent_state_is_def)

lemma sent_state_read: "keeps (sent_state_is S D) (disk_read env c)"
  unfolding disk_read_def by (rule sent_state_disk) simp

lemma sent_state_save: "keeps (sent_state_is S D) (save_item env)"
  unfolding save_item_def write_item_def
  by (intro hoare_rules sent_state_read sent_state_disk) (simp add: sent_state_is_def queue_put_def)

lemma sent_state_upd:
  assumes "\<And>it. local_stage_at_least it DraftRemoved \<Longrightarrow> local_stage_at_least (f it) DraftRemoved"
  shows "keeps (sent_state_is S D) (upd_item f)"
  by (rule hoare_pre [OF hoare_upd_item]) (use assms in \<open>simp add: sent_state_is_def\<close>)

lemma sent_state_clear: "keeps (sent_state_is S D) (clear_pending_push_item env it)"
  unfolding clear_pending_push_item_def clear_message_pending_pushes_def read_message_by_id_def now_def
  by (intro hoare_rules sent_state_read sent_state_put)

lemma sent_state_advance: "DraftRemoved \<le> st \<Longrightarrow> keeps (sent_state_is S D) (advance_local_stage env st)"
  unfolding advance_local_stage_def now_def
  by (intro hoare_rules sent_state_save sent_state_upd) (simp add: local_stage_at_least_def)

text \<open>A push resumed after its draft was removed records the sent message and removes the
  draft no second time: finalisation leaves the sent messages and all drafts as they are, so a new
  draft under the same name survives it.\<close>

theorem finished_stages_not_repeated:
  assumes "local_stage_at_least (w_item w) DraftRemoved"
  shows "w_sent (snd (finalize_pushed_item env w)) = w_sent w
    \<and> w_drafts (snd (finalize_pushed_item env w)) = w_drafts w"
proof -
  let ?I = "sent_state_is (w_sent w) (w_drafts w)"
  have st: "local_stage_at_least (w_item w) RemoteSucceeded" "local_stage_at_least (w_item w) OutboundRecorded"
    by (rule stage_mono [OF assms], simp add: less_eq_push_local_stage_def stage_rank_def)+
  have pending: "keeps ?I (stage_pending_cleared env)"
    unfolding stage_pending_cleared_def at_stage_def refresh_message_push_views_def refresh_views_def
    by (intro hoare_rules sent_state_clear sent_state_advance sent_state_read)
      (simp add: less_eq_push_local_stage_def stage_rank_def)
  have prepare: "keeps ?I (prepare_push_audit_pending env)"
    unfolding prepare_push_audit_pending_def now_def
    by (intro hoare_rules sent_state_upd sent_state_save)
      (auto simp: local_stage_at_least_def less_eq_push_local_stage_def stage_rank_def)
  have "finalize_pushed_item env w = then_io (stage_pending_cleared env) (prepare_push_audit_pending env) w"
    using assms st by (simp add: finalize_pushed_item_def advance_local_stage_def stage_outbound_recorded_def
        stage_draft_removed_def at_stage_def io_defs)
  moreover have "?I (snd (then_io (stage_pending_cleared env) (prepare_push_audit_pending env) w))"
    by (rule keepsD [OF keeps_then [OF pending prepare]]) (simp add: sent_state_is_def assms)
  ultimately show ?thesis by (simp add: sent_state_is_def)
qed

theorem finished_stages_not_repeated_witness:
  "w_drafts (snd (finalize_pushed_item demo_env audited_world)) = [((''c1'', ''d''), Inr demo_draft)]"
proof -
  have "local_stage_at_least (w_item audited_world) DraftRemoved" by code_simp
  from finished_stages_not_repeated [OF this, of demo_env] show ?thesis
    by (simp add: audited_world_def queue_put_def demo_world_def)
qed

section \<open>Settling\<close>

text \<open>settling an uncertain send changes the status of that step alone: to succeeded when a
  person found it was sent, to pending with no trace of a start when it was not; the item keeps its
  identity, stage and audit duty.\<close>

theorem settlement_is_one_step:
  assumes "wf_steps it" "i < length (pi_step_states it)"
  shows "map ss_status (pi_step_states (settle_item t st it i s))
      = (map ss_status (pi_step_states it))[i := (case st of SettleSent \<Rightarrow> Succeeded | SettleNotSent \<Rightarrow> Pending)]
    \<and> (st = SettleNotSent \<longrightarrow> \<not> step_started (pi_step_states (settle_item t st it i s) ! i))
    \<and> item_ident (settle_item t st it i s) = item_ident it
    \<and> pi_local_stage (settle_item t st it i s) = pi_local_stage it
    \<and> pi_audit_pending (settle_item t st it i s) = pi_audit_pending it"
proof (cases st)
  case SettleSent
  have "pi_step_states (mark_step_succeeded t it i s) = (pi_step_states it)[i := succeed_step s t (pi_step_states it ! i)]"
    using wf_update_nth [OF assms, of "succeed_step s t"] by (simp add: mark_step_succeeded_def) (metis push_item.select_convs(11) push_item.surjective push_item.update_convs(11))
  then show ?thesis
    using assms(2) SettleSent by (simp add: settle_item_def Let_def map_update mark_step_succeeded_def)
next
  case SettleNotSent
  then show ?thesis
    using assms(2) by (simp add: settle_item_def Let_def map_update step_started_def mark_step_recovered_pending_def)
qed

theorem settlement_is_one_step_witness:
  "map ss_status (pi_step_states (settle_item ''t'' SettleNotSent uncertain_item 0 (step_append ''drafts''))) = [Pending]"
proof -
  have "wf_steps uncertain_item" "0 < length (pi_step_states uncertain_item)"
    by (simp_all add: wf_steps_def uncertain_item_def fresh_step_state_def)
  from settlement_is_one_step [OF this, of "''t''" SettleNotSent "step_append ''drafts''"] show ?thesis
    by (simp add: uncertain_item_def)
qed

end
