(* ===== verification/Findings.thy ===== *)
theory Findings
  imports Scenario Plan_Frame
begin

text \<open>
  What running the model on concrete workspaces showed: kills at unlucky points, after which the
  next command does not do what the code means to do.
\<close>

section \<open>A kill between the removal of a draft and the record of it\<close>

text \<open>In \<open>crashed_world\<close> the message was sent and its copy recorded, the draft file removed, and
  the process killed before the item reached the stage \<open>DraftRemoved\<close>.  The stages are there to let
  the next push resume, but resolving the plan of the queue fails from then on, for every item.\<close>

definition blocked :: "world \<Rightarrow> bool" where
  "blocked w \<longleftrightarrow> (case fst (build_push_plan demo_env demo_hashes default_config w) of
     Fail e \<Rightarrow> error_code e = ''push_remote_outcome_unknown''
       \<and> message e = ''draft push push_draft_r has started but the draft has no sync_intent''
   | _ \<Rightarrow> False)"

definition stuck_after_removal :: "world \<Rightarrow> bool" where
  "stuck_after_removal w \<longleftrightarrow> w_drafts w = [] \<and> length (w_sent w) = 1
     \<and> map (pi_local_stage \<circ> snd) (w_queue w) = [Some OutboundRecorded] \<and> blocked w"

lemma crashed_push_is_stuck: "stuck_after_removal crashed_world"
  by code_simp

text \<open>In general: a started push of a draft whose file is gone, without the record that it is.\<close>

definition removed_unrecorded :: "draft_push \<Rightarrow> world \<Rightarrow> bool" where
  "removed_unrecorded d w \<longleftrightarrow> map_of (w_drafts w) (dp_case_uid d, dp_draft_name d) = None
     \<and> (\<exists>it \<in> set (map snd (w_queue w)). pi_payload it = PDraft d \<and> pi_audit_pending it = None
          \<and> has_started_effects it \<and> \<not> local_stage_at_least it DraftRemoved)"

text \<open>The worlds after some pushes, each under its own disk, server, configuration and confirmation.\<close>

fun pushes :: "(env \<times> plan_hashes \<times> mail_config \<times> string option) list \<Rightarrow> world \<Rightarrow> world" where
  "pushes [] w = w"
| "pushes ((env, ph, cfg, confirm) # ms) w = pushes ms (snd (push env ph cfg confirm w))"

lemma unplannable:
  assumes "map_of (w_drafts w) (dp_case_uid d, dp_draft_name d) = None" "pi_payload it = PDraft d"
    and "pi_audit_pending it = None" "has_started_effects it" "\<not> local_stage_at_least it DraftRemoved"
  shows "plan_item env cfg it w \<noteq> (Done y, w')"
  using assms
  by (cases "e_disk env (w_tick w)")
    (auto simp: plan_item_def plan_draft_item_def draft_frontmatter_def find_case_path_def io_defs disk_read_def disk_def)

text \<open>No push returns from such a world, and each leaves one behind.\<close>

lemma plan_blocked:
  assumes r: "removed_unrecorded d w"
  shows "hoare (planning_from w) (build_push_plan env ph cfg) (\<lambda>_ _. False) (\<lambda>_. planning_from w) (planning_from w)"
proof -
  obtain it where it: "it \<in> set (map snd (w_queue w))" "pi_payload it = PDraft d" "pi_audit_pending it = None"
    "has_started_effects it" "\<not> local_stage_at_least it DraftRemoved"
    and gone: "map_of (w_drafts w) (dp_case_uid d, dp_draft_name d) = None"
    using r by (auto simp: removed_unrecorded_def)
  have "hoare (planning_from w) (build_push_plan env ph cfg) (\<lambda>_ _. False) any_err (\<lambda>_. True)"
    unfolding build_push_plan_def Let_def
  proof (rule hoare_bind [OF keeps_done [OF planning.plans_records]], rule hoare_bind [OF sorted_items_from],
      rule hoare_bind [where R = "\<lambda>_ _. False"])
    fix records its
    show "hoare (\<lambda>v. planning_from w v \<and> its = sort_items (map snd (w_queue w))) (plan_items env cfg records its)
        (\<lambda>_ _. False) any_err (\<lambda>_. True)"
    proof (rule hoareI)
      fix v ys v'
      assume v: "planning_from w v \<and> its = sort_items (map snd (w_queue w))" and p: "plan_items env cfg records its v = (Done ys, v')"
      have "it \<in> set its" using v it(1) by simp
      then obtain v1 y v2 where "planning_from w v1"
        "then_io (of_res (ok_or (err_queue_snapshot (pi_push_id it)) (map_of records (pi_push_id it)))) (plan_item env cfg it) v1 = (Done y, v2)"
        using map_io_all_done [where I = "planning_from w", OF _ conjunct1 [OF v] p [unfolded plan_items_def]]
        by (blast intro: hoare_rules planning.plans_item)
      then show False
        using unplannable [of v1 d it env cfg y v2] it gone
        by (auto simp: io_defs planning_from_def split: sum.splits)
    qed simp_all
  qed (simp add: hoare_def)
  then show ?thesis
    using planning.plans_build [of w env ph cfg] by (fastforce simp: hoare_def split: prod.splits outcome.splits)
qed

lemma push_blocked:
  assumes "removed_unrecorded d w"
  shows "fst (push env ph cfg confirm w) \<noteq> Done r \<and> removed_unrecorded d (snd (push env ph cfg confirm w))"
proof -
  obtain o1 w1 where b: "build_push_plan env ph cfg w = (o1, w1)" by (cases "build_push_plan env ph cfg w")
  have h: "case build_push_plan env ph cfg w of (Done a, s') \<Rightarrow> False | (Fail e, s') \<Rightarrow> planning_from w s' | (Killed, s') \<Rightarrow> planning_from w s'"
    using plan_blocked [OF assms, of env ph cfg] by (simp add: hoare_def)
  have "removed_unrecorded d w1 \<and> push env ph cfg confirm w = (case o1 of Fail e \<Rightarrow> Fail e | _ \<Rightarrow> Killed, w1)"
    using h b assms by (cases o1) (auto simp: push_def bind_io_def removed_unrecorded_def planning_from_def)
  then show ?thesis by (cases o1) (use h b in auto)
qed

lemma pushes_blocked: "removed_unrecorded d w \<Longrightarrow> removed_unrecorded d (pushes ms w)"
proof (induction ms arbitrary: w)
  case (Cons m ms)
  obtain env ph cfg confirm where "m = (env, ph, cfg, confirm)" by (cases m) auto
  then show ?case using Cons push_blocked [OF Cons.prems] by simp
qed simp

text \<open>Claim C38: a kill between the removal of a draft file and the record of it blocks the queue for good.  Whenever a
  push with its outgoing message recorded is killed right after it removed the draft, no push returns a
  result from then on: however often it is tried, on any disk and server, with any confirmation and
  configuration, and whatever else is queued, planning fails or is killed.\<close>

theorem kill_after_draft_removal_blocks_queue:
  assumes "map_of (w_queue w) (pi_push_id (w_item w)) = Some (durable (w_item w))"
    and "pi_payload (w_item w) = PDraft d" "pi_audit_pending (w_item w) = None"
    and "pi_local_stage (w_item w) = Some OutboundRecorded"
    and "pi_planned_outbound (w_item w) = Some ob" "ob_case_uid ob = dp_case_uid d" "ob_draft_name ob = dp_draft_name d"
    and "dp_case_uid d \<in> set (w_cases w)" "map_of (w_drafts w) (dp_case_uid d, dp_draft_name d) \<noteq> None"
    and "e_disk env (w_tick w) = DiskOk" "e_disk env (Suc (w_tick w)) = CrashAfter"
  shows "\<exists>w'. stage_draft_removed env w = (Killed, w')
    \<and> (\<forall>ms env' ph cfg confirm r. fst (push env' ph cfg confirm (pushes ms w')) \<noteq> Done r)"
proof -
  obtain w' where w': "stage_draft_removed env w = (Killed, w')" "w_queue w' = w_queue w"
    "map_of (w_drafts w') (dp_case_uid d, dp_draft_name d) = None"
    using assms by (auto simp: stage_draft_removed_def at_stage_def remove_outbound_draft_after_push_def Let_def
        find_case_path_def io_defs disk_read_def disk_def local_stage_at_least_def less_eq_push_local_stage_def stage_rank_def)
  have "durable (w_item w) \<in> set (map snd (w_queue w'))"
    using map_of_SomeD [OF assms(1)] w'(2) by force
  moreover have "has_started_effects (durable (w_item w))" "\<not> local_stage_at_least (durable (w_item w)) DraftRemoved"
    using assms(4) by (simp_all add: has_started_effects_def local_stage_at_least_def less_eq_push_local_stage_def stage_rank_def)
  ultimately have "removed_unrecorded d w'"
    unfolding removed_unrecorded_def using w'(3) assms(2,3) by (metis durable_sel)
  then show ?thesis using w'(1) pushes_blocked push_blocked by blast
qed

definition removing_outbound :: outbound_push where
  "removing_outbound = \<lparr>ob_action = Send, ob_case_uid = ''c1'', ob_draft_name = ''d'', ob_draft_uid_validity = None,
     ob_draft_uid = None, ob_steps = [], ob_reply_to_message_id = None\<rparr>"

definition removing_item :: push_item where
  "removing_item = uncertain_item\<lparr>pi_step_states := [], pi_local_stage := Some OutboundRecorded,
     pi_planned_outbound := Some removing_outbound\<rparr>"

definition removing_world :: world where
  "removing_world = queue_put removing_item (demo_world\<lparr>w_item := removing_item\<rparr>)"

theorem kill_after_draft_removal_blocks_queue_witness:
  "\<exists>w'. stage_draft_removed (demo_env\<lparr>e_disk := (\<lambda>n. if n = 1 then CrashAfter else DiskOk)\<rparr>) removing_world = (Killed, w')
    \<and> (\<forall>r. fst (push demo_env demo_hashes default_config (Some ''push_draft_r'') w') \<noteq> Done r)"
proof -
  have "\<exists>w'. stage_draft_removed (demo_env\<lparr>e_disk := (\<lambda>n. if n = 1 then CrashAfter else DiskOk)\<rparr>) removing_world = (Killed, w')
    \<and> (\<forall>ms env' ph cfg confirm r. fst (push env' ph cfg confirm (pushes ms w')) \<noteq> Done r)"
    by (rule kill_after_draft_removal_blocks_queue [where d = "\<lparr>dp_case_uid = ''c1'', dp_draft_name = ''d'',
        dp_draft_uid_validity = None, dp_draft_uid = None\<rparr>" and ob = removing_outbound])
      (simp_all add: removing_world_def removing_outbound_def removing_item_def uncertain_item_def draft_item_def queue_put_def demo_world_def)
  then show ?thesis by (metis pushes.simps(1))
qed

section \<open>A saved draft that is audited as sent\<close>

text \<open>A draft queued for saving to the drafts folder; the process is killed after its pending marks
  are cleared and before its completion is recorded.  The push that resumes no longer knows the
  action of the removed draft, takes it for \<open>send\<close>, and records the completion of a sending.\<close>

definition save_world :: world where
  "save_world = demo_world\<lparr>w_drafts :=
     [((''c1'', ''d''), Inr (demo_draft\<lparr>df_sync_intent := Some IntentSaveDraft\<rparr>))]\<rparr>"

definition save_queued_world :: world where
  "save_queued_world = run demo_env (QueueOutbound ''c1'' ''d'' SaveDraft None) save_world"

definition save_crash_env :: env where
  "save_crash_env = demo_env\<lparr>e_disk := (\<lambda>n. if n = 45 then CrashAfter else DiskOk)\<rparr>"

definition save_crashed_world :: world where
  "save_crashed_world = run save_crash_env (Push demo_hashes default_config (Some ''push_draft_r'')) save_queued_world"

definition save_resumed_world :: world where
  "save_resumed_world = run demo_env (Push demo_hashes default_config (Some ''push_draft_r'')) save_crashed_world"

definition recorded_actions :: "world \<Rightarrow> string list" where
  "recorded_actions w = List.map_filter (\<lambda>e. case e of
     Wrote it \<Rightarrow> Option.bind (pi_audit_pending it) ap_action | _ \<Rightarrow> None) (w_log w)"

text \<open>The completion of a draft that was saved is recorded under the action \<open>save_draft\<close>, but
  under \<open>send\<close> when the push is resumed after such a kill.\<close>

theorem saved_draft_audited_as_sent:
  "recorded_actions (run demo_env (Push demo_hashes default_config (Some ''push_draft_r'')) save_queued_world)
     = [''save_draft'']
   \<and> recorded_actions save_crashed_world = [] \<and> recorded_actions save_resumed_world = [''send'']"
  by code_simp

end
