(* ===== verification/Consumer_Journal.thy ===== *)
theory Consumer_Journal
  imports Workspace
begin

text \<open>
  The durable journal of the Cloudflare consumer (src/src/sources/cloudflare/journal.rs): receipts
  of imported spool objects, notification tasks by content, the batch that is being handed to the
  handler, and the completion marker.  First the state all consumer theories share: the files of
  the consumer, the stored mail, the bucket with the spooled objects, and a ghost history.

  Hashes, the mail and time parsers, templates, the disk, the network, the handler and the clock
  are an environment \<open>cenv\<close>.  The network answers arbitrarily; what the bucket holds is state,
  so that it can be said when a mail is removed from it.
\<close>

section \<open>Journal and stored mail\<close>

record receipt =
  rc_message_id :: string
  rc_imported_epoch :: int
  rc_content_key :: string
  rc_quota_managed :: bool
  rc_archive_key :: "string option"
  rc_cleanup_complete :: bool

datatype task_status = TaskPreparing | TaskPending | TaskCompleted

record task =
  tk_message_id :: string
  tk_status :: task_status

record batch =
  bt_task_id :: string
  bt_content_keys :: "string list"
  bt_retry_after :: int
  bt_attempt_count :: u64
  bt_last_attempt :: "string option"
  bt_last_error_code :: "string option"
  bt_last_exit_code :: "int option"

record journal =
  jn_receipts :: "(string \<times> receipt) list"
  jn_tasks :: "(string \<times> task) list"
  jn_active :: "batch option"

definition default_journal :: journal where
  "default_journal = \<lparr>jn_receipts = [], jn_tasks = [], jn_active = None\<rparr>"

text \<open>The journal file: absent, not a document, or a document of some schema and version.\<close>

datatype journal_file = NoJournal | BadJournal | JournalDoc string nat journal

text \<open>A completion marker: a document, or anything else that is at its path.\<close>

datatype marker_file = MarkerDoc string nat string | BadMarker

datatype delivery_source = CloudflareR2 string string | DeliveredFile string

record delivery_envelope =
  de_from :: "string option"
  de_to :: "string list"
  de_received :: "string option"
  de_sources :: "delivery_source list"

record mail_metadata =
  md_remote :: "remote_location list option"
  md_delivery :: "delivery_envelope option"

text \<open>The members of \<open>MessageFile\<close> that the import writes.\<close>

record mail =
  ml_id :: string
  ml_rfc822 :: "string option"
  ml_status :: string
  ml_remote :: "remote_location list option"
  ml_envelope_to :: "string list"
  ml_received :: "string option"
  ml_sent :: "string option"
  ml_direction :: "string option"

record r2_object =
  ob_raw :: string
  ob_delivery :: delivery_envelope
  ob_quota :: bool

text \<open>What happened, newest first: durable writes of the journal and of imported mail, stored mail
  that the index found, copies and removals in the bucket, runs of the handler, completion markers, tasks given up because their
  message is gone, and settled queue events.\<close>

datatype cevent =
    Saved journal
  | Published string string
  | Found string string
  | Removed string string
  | Copied string string
  | Started string "string list"
  | MarkerDone string "string list"
  | Dropped string
  | Settled "string list" "string list"

text \<open>What the import knows of the stored mail (\<open>ExistingIndex\<close>), as far as it reads it.\<close>

record existing_index =
  ix_content :: "(string \<times> string) list"
  ix_rfc822 :: "(string \<times> string list) list"
  ix_imap :: "((string \<times> u64 \<times> u64) \<times> string) list"

definition empty_index :: existing_index where
  "empty_index = \<lparr>ix_content = [], ix_rfc822 = [], ix_imap = []\<rparr>"

text \<open>The cursors of the mailboxes on disk: a document, or something that does not parse.\<close>

record mailbox_cursor =
  cu_mailbox_id :: string
  cu_mailbox_name :: string
  cu_uid_validity :: u64
  cu_highest_uid :: u64
  cu_pull_count :: u64
  cu_updated :: string

datatype cursor_file = NoCursors | CursorDocument string nat "(string \<times> mailbox_cursor) list" | CursorGarbage string

text \<open>The state: the files of the consumer, the stored mail (raw bytes, metadata, cache, triage views
  and dispositions), the bucket; in memory, the index of a running pull and the warnings of a
  running command; and the history.\<close>

record cworld =
  cw_tick :: nat
  cw_journal :: journal_file
  cw_markers :: "(string \<times> marker_file) list"
  cw_inputs :: "(string \<times> string list) list"
  cw_eml :: "(string \<times> string) list"
  cw_meta :: "(string \<times> mail_metadata) list"
  cw_cache :: "(string \<times> mail) list"
  cw_triage :: "string list"
  cw_disposed :: "(string \<times> string) list"
  cw_bucket :: "(string \<times> r2_object) list"
  cw_index :: existing_index
  cw_warnings :: "string list"
  cw_cursors :: cursor_file
  cw_quarantine :: "(string \<times> cursor_file) list"
  cw_log :: "cevent list"

section \<open>The environment\<close>

text \<open>A request to the bucket: answered, refused before or after its effect, or never answered.\<close>

datatype net_event = NetOk | NetFail app_error | NetFailAfter app_error | NetCrash | NetCrashAfter

record r2_listed =
  ls_key :: string
  ls_size :: u64

record r2_page =
  pg_objects :: "r2_listed list"
  pg_continuation :: "string option"

record queue_event =
  ev_account :: string
  ev_action :: string
  ev_bucket :: string
  ev_key :: string
  ev_size :: u64

record queue_message =
  qm_lease :: string
  qm_event :: "queue_event res"

datatype handler_result =
    HandlerExited "int option"
  | HandlerNotStarted
  | HandlerTimedOut
  | HandlerInterrupted
  | HandlerWaitFailed string
  | HandlerCrash

record cenv =
  c_disk :: "nat \<Rightarrow> disk_event"
  c_epoch :: "nat \<Rightarrow> int"
  c_clock :: "nat \<Rightarrow> string"
  c_net :: "nat \<Rightarrow> net_event"
  c_list :: "nat \<Rightarrow> string option \<Rightarrow> r2_page reply"
  c_events :: "nat \<Rightarrow> queue_message list reply"
  c_settle :: "nat \<Rightarrow> unit reply"
  c_control :: "nat \<Rightarrow> bool"
  c_lock :: "nat \<Rightarrow> unit res"
  c_clients :: "nat \<Rightarrow> unit res"
  c_transactions :: "nat \<Rightarrow> unit res"
  c_shutdown :: "nat \<Rightarrow> bool"
  c_content_key :: "string \<Rightarrow> string"
  c_message_id :: "string \<Rightarrow> string"
  c_object_id :: "string option \<Rightarrow> string option \<Rightarrow> string option \<Rightarrow> string \<Rightarrow> string"
  c_keys_hash :: "string list \<Rightarrow> string"
  c_parse :: "string \<Rightarrow> string \<Rightarrow> mail res"
  c_header_date :: "string \<Rightarrow> string option"
  c_header_id :: "string \<Rightarrow> string option"
  c_valid_segment :: "string \<Rightarrow> bool"
  c_spool_direction :: string
  c_pull_direction :: "string \<Rightarrow> string option"
  c_filed :: "nat \<Rightarrow> string \<Rightarrow> string"
  c_referenced :: "nat \<Rightarrow> string list \<Rightarrow> string list res"
  c_date :: "string \<Rightarrow> int option"
  c_refs :: "nat \<Rightarrow> unit res"
  c_render :: "nat \<Rightarrow> string \<Rightarrow> unit res"
  c_refresh :: "nat \<Rightarrow> unit res"
  c_handler :: "nat \<Rightarrow> handler_result"
  c_during :: "nat \<Rightarrow> cworld \<Rightarrow> cworld"

type_synonym 'a ccmd = "(cworld, 'a) io"

definition ctick :: "cworld \<Rightarrow> cworld" where
  "ctick w = w\<lparr>cw_tick := Suc (cw_tick w)\<rparr>"

definition clog :: "cevent \<Rightarrow> cworld \<Rightarrow> cworld" where
  "clog e w = w\<lparr>cw_log := e # cw_log w\<rparr>"

definition cdisk :: "cenv \<Rightarrow> string \<Rightarrow> (cworld \<Rightarrow> cworld) \<Rightarrow> unit ccmd" where
  "cdisk env ctxt f = (\<lambda>w. case c_disk env (cw_tick w) of
     DiskOk \<Rightarrow> (Done (), f (ctick w))
   | DiskFail m \<Rightarrow> (Fail (app_error_io ctxt m), ctick w)
   | DiskFailAfter m \<Rightarrow> (Fail (app_error_io ctxt m), f (ctick w))
   | CrashBefore \<Rightarrow> (Killed, ctick w)
   | CrashAfter \<Rightarrow> (Killed, f (ctick w)))"

abbreviation cread :: "cenv \<Rightarrow> string \<Rightarrow> unit ccmd" where
  "cread env ctxt \<equiv> cdisk env ctxt id"

definition cnet :: "cenv \<Rightarrow> (cworld \<Rightarrow> cworld) \<Rightarrow> unit ccmd" where
  "cnet env f = (\<lambda>w. case c_net env (cw_tick w) of
     NetOk \<Rightarrow> (Done (), f (ctick w))
   | NetFail e \<Rightarrow> (Fail e, ctick w)
   | NetFailAfter e \<Rightarrow> (Fail e, f (ctick w))
   | NetCrash \<Rightarrow> (Killed, ctick w)
   | NetCrashAfter \<Rightarrow> (Killed, f (ctick w)))"

definition cask :: "(nat \<Rightarrow> 'a reply) \<Rightarrow> 'a ccmd" where
  "cask rep = (\<lambda>w. case rep (cw_tick w) of
     Reply a \<Rightarrow> (Done a, ctick w)
   | ReplyErr e \<Rightarrow> (Fail e, ctick w)
   | ReplyKilled \<Rightarrow> (Killed, ctick w))"

definition cask_res :: "(nat \<Rightarrow> 'a res) \<Rightarrow> 'a ccmd" where
  "cask_res rep = cask (\<lambda>n. case rep n of Inl e \<Rightarrow> ReplyErr e | Inr a \<Rightarrow> Reply a)"

definition epoch :: "cenv \<Rightarrow> int ccmd" where
  "epoch env = gets (\<lambda>w. c_epoch env (cw_tick w))"

section \<open>Loading, checking and saving the journal\<close>

definition err_journal_invalid :: "string \<Rightarrow> app_error" where
  "err_journal_invalid m = app_error_new ''consumer_journal_invalid'' m"

definition safe_id_char :: "char \<Rightarrow> bool" where
  "safe_id_char c \<longleftrightarrow> is_ascii_digit c \<or> is_ascii_lower c \<or> is_ascii_upper c \<or> c = CHR ''_'' \<or> c = CHR ''-''"

definition pending_task :: "journal \<Rightarrow> string \<Rightarrow> bool" where
  "pending_task j k = (case map_of (jn_tasks j) k of None \<Rightarrow> False | Some t \<Rightarrow> tk_status t = TaskPending)"

definition validate_active :: "journal \<Rightarrow> unit res" where
  "validate_active j = (case jn_active j of None \<Rightarrow> Inr ()
   | Some b \<Rightarrow> require (strip_prefix ''mail_'' (bt_task_id b) \<noteq> None \<and> length (bt_task_id b) \<le> 128
         \<and> list_all safe_id_char (bt_task_id b) \<and> bt_content_keys b \<noteq> []
         \<and> distinct (bt_content_keys b) \<and> list_all (pending_task j) (bt_content_keys b))
       (err_journal_invalid
         ''Active consumer batch must have a safe task id and distinct pending notification tasks''))"

definition JOURNAL_SCHEMA_VERSION :: nat where
  "JOURNAL_SCHEMA_VERSION = 2"

definition load_journal :: "cenv \<Rightarrow> journal ccmd" where
  "load_journal env = then_io (cread env ''read consumer journal'') (bind_io (gets cw_journal) (\<lambda>f. case f of
     NoJournal \<Rightarrow> ret default_journal
   | BadJournal \<Rightarrow> fail (err_journal_invalid ''Cloudflare consumer journal is invalid; restore it from a trusted backup'')
   | JournalDoc name version j \<Rightarrow>
       if name \<noteq> ''cloudflare_consumer'' \<or> version \<noteq> JOURNAL_SCHEMA_VERSION
       then fail (err_journal_invalid ''unsupported Cloudflare consumer journal schema'')
       else then_io (of_res (validate_active j)) (ret j)))"

text \<open>\<open>i64::saturating_sub\<close>.\<close>

definition saturating_sub64 :: "int \<Rightarrow> int \<Rightarrow> int" where
  "saturating_sub64 a b = max (- (2 ^ 63)) (min (2 ^ 63 - 1) (a - b))"

definition RECEIPT_RETENTION_S :: int where
  "RECEIPT_RETENTION_S = (14 + 1) * 86400"

definition prune :: "int \<Rightarrow> journal \<Rightarrow> journal" where
  "prune t j = j\<lparr>jn_tasks := filter (\<lambda>(k, x). tk_status x \<noteq> TaskCompleted) (jn_tasks j),
     jn_receipts := filter (\<lambda>(k, r). \<not> rc_cleanup_complete r
        \<or> saturating_sub64 t (rc_imported_epoch r) < RECEIPT_RETENTION_S) (jn_receipts j)\<rparr>"

definition write_journal :: "journal \<Rightarrow> cworld \<Rightarrow> cworld" where
  "write_journal j w = clog (Saved j)
     (w\<lparr>cw_journal := JournalDoc ''cloudflare_consumer'' JOURNAL_SCHEMA_VERSION j\<rparr>)"

definition save_journal :: "cenv \<Rightarrow> journal \<Rightarrow> journal ccmd" where
  "save_journal env j = bind_io (epoch env) (\<lambda>t.
     then_io (cdisk env ''write json'' (write_journal (prune t j))) (ret (prune t j)))"

section \<open>Recording an import\<close>

definition prepare :: "cenv \<Rightarrow> string \<Rightarrow> journal \<Rightarrow> (bool \<times> journal) ccmd" where
  "prepare env raw j = (let k = c_content_key env raw in
     bind_io (gets cw_index) (\<lambda>index.
     if map_of (ix_content index) k = None \<and> map_of (jn_tasks j) k = None
     then bind_io (save_journal env (j\<lparr>jn_tasks := put k
            \<lparr>tk_message_id = c_message_id env raw, tk_status = TaskPreparing\<rparr> (jn_tasks j)\<rparr>))
          (\<lambda>j'. ret (True, j'))
     else ret (False, j)))"

definition withdraw :: "cenv \<Rightarrow> string \<Rightarrow> journal \<Rightarrow> journal ccmd" where
  "withdraw env k j = (case map_of (jn_tasks j) k of
     Some t \<Rightarrow> if tk_status t = TaskPreparing then save_journal env (j\<lparr>jn_tasks := remove k (jn_tasks j)\<rparr>) else ret j
   | None \<Rightarrow> ret j)"

definition mark_imported :: "receipt \<Rightarrow> journal \<Rightarrow> journal" where
  "mark_imported r j = (case map_of (jn_tasks j) (rc_content_key r) of
     Some t \<Rightarrow> if tk_status t = TaskPreparing
       then j\<lparr>jn_tasks := put (rc_content_key r) \<lparr>tk_message_id = rc_message_id r, tk_status = TaskPending\<rparr> (jn_tasks j)\<rparr>
       else j
   | None \<Rightarrow> j)"

definition imported :: "cenv \<Rightarrow> string \<Rightarrow> receipt \<Rightarrow> journal \<Rightarrow> journal ccmd" where
  "imported env object_id r j = (let j' = mark_imported r j in
     save_journal env (j'\<lparr>jn_receipts := put object_id r (jn_receipts j')\<rparr>))"

definition cleaned :: "cenv \<Rightarrow> string \<Rightarrow> journal \<Rightarrow> journal ccmd" where
  "cleaned env object_id j = (case map_of (jn_receipts j) object_id of
     Some r \<Rightarrow> save_journal env (j\<lparr>jn_receipts := put object_id (r\<lparr>rc_cleanup_complete := True\<rparr>) (jn_receipts j)\<rparr>)
   | None \<Rightarrow> ret j)"

definition count_tasks :: "task_status \<Rightarrow> journal \<Rightarrow> nat" where
  "count_tasks st j = length (filter (\<lambda>(k, t). tk_status t = st) (jn_tasks j))"

definition pending_count :: "journal \<Rightarrow> nat" where
  "pending_count j = count_tasks TaskPending j"

section \<open>Completion of a batch\<close>

definition err_completion_invalid :: app_error where
  "err_completion_invalid = app_error_new ''consumer_completion_invalid''
     ''Consumer completion marker must be a bounded regular JSON document matching the active task''"

definition complete_tasks :: "string list \<Rightarrow> journal \<Rightarrow> journal" where
  "complete_tasks keys j = j\<lparr>jn_tasks := map (\<lambda>(k, t).
     (k, if k \<in> set keys then t\<lparr>tk_status := TaskCompleted\<rparr> else t)) (jn_tasks j), jn_active := None\<rparr>"

definition apply_completed :: "cenv \<Rightarrow> journal \<Rightarrow> (bool \<times> journal) ccmd" where
  "apply_completed env j = then_io (of_res (validate_active j)) (case jn_active j of
     None \<Rightarrow> ret (False, j)
   | Some b \<Rightarrow> then_io (cread env ''inspect consumer completion marker'')
       (bind_io (gets (\<lambda>w. map_of (cw_markers w) (bt_task_id b))) (\<lambda>marker. case marker of
          None \<Rightarrow> ret (False, j)
        | Some BadMarker \<Rightarrow> fail err_completion_invalid
        | Some (MarkerDoc name version tid) \<Rightarrow> then_io (cread env ''read consumer completion marker'')
            (if name \<noteq> ''mail_received_task_completed'' \<or> version \<noteq> 1 \<or> tid \<noteq> bt_task_id b
             then fail err_completion_invalid
             else ret (True, complete_tasks (bt_content_keys b) j)))))"

record snapshot =
  sn_pending :: nat
  sn_preparing :: nat
  sn_completed :: nat
  sn_receipts :: nat
  sn_cleanup_pending :: nat
  sn_active :: "(batch \<times> string list) option"

definition snapshot_of :: "journal \<Rightarrow> snapshot" where
  "snapshot_of j = \<lparr>sn_pending = pending_count j, sn_preparing = count_tasks TaskPreparing j,
     sn_completed = count_tasks TaskCompleted j, sn_receipts = length (jn_receipts j),
     sn_cleanup_pending = length (filter (\<lambda>(k, r). \<not> rc_cleanup_complete r) (jn_receipts j)),
     sn_active = map_option (\<lambda>b. (b, List.map_filter (\<lambda>k.
        map_option tk_message_id (map_of (jn_tasks j) k)) (bt_content_keys b))) (jn_active j)\<rparr>"

definition journal_snapshot :: "cenv \<Rightarrow> snapshot ccmd" where
  "journal_snapshot env = bind_io (load_journal env) (\<lambda>j.
     bind_io (apply_completed env j) (\<lambda>(_, j'). ret (snapshot_of j')))"

end
