(* ===== verification/Consumer_Ingest.thy ===== *)
theory Consumer_Ingest
  imports Consumer_Journal
begin

text \<open>
  Importing one mail into the workspace (src/src/ingest/mod.rs, the index of
  src/src/ingest/identity.rs, metadata and reading of src/src/store/messages.rs).  Equal bytes are
  one message; the raw bytes are published only after the metadata and the disposition.

  Identity matching, contact links, case suggestions and the overlays a read adds are annotations
  that no code here branches on; they are left out.
\<close>

section \<open>Delivery metadata\<close>

definition default_delivery :: delivery_envelope where
  "default_delivery = \<lparr>de_from = None, de_to = [], de_received = None, de_sources = []\<rparr>"

definition add_recipients :: "string list \<Rightarrow> string list \<Rightarrow> string list" where
  "add_recipients known rs = fold (\<lambda>r acc.
     if list_ex (\<lambda>x. eq_ignore_ascii_case x r) acc then acc else acc @ [r]) rs known"

definition add_sources :: "delivery_source list \<Rightarrow> delivery_source list \<Rightarrow> delivery_source list" where
  "add_sources known ss = fold (\<lambda>s acc. if s \<in> set acc then acc else acc @ [s]) ss known"

definition err_received_invalid :: app_error where
  "err_received_invalid = app_error_new ''message_metadata_invalid''
     ''delivery.received_rfc3339 must be an RFC3339 timestamp''"

text \<open>The earlier of the two times of receipt; both must be dates.\<close>

definition merge_received :: "(string \<Rightarrow> int option) \<Rightarrow> string option \<Rightarrow> string option \<Rightarrow> string option res" where
  "merge_received date prior incoming = (case incoming of None \<Rightarrow> Inr prior
   | Some received \<Rightarrow> bind_res (ok_or err_received_invalid (date received)) (\<lambda>t.
       case prior of None \<Rightarrow> Inr (Some received)
       | Some p \<Rightarrow> bind_res (ok_or err_received_invalid (date p)) (\<lambda>tp.
           Inr (Some (if t < tp then received else p)))))"

definition merge_delivery :: "(string \<Rightarrow> int option) \<Rightarrow> delivery_envelope option \<Rightarrow> delivery_envelope \<Rightarrow> delivery_envelope res" where
  "merge_delivery date prior incoming = (let d = (case prior of None \<Rightarrow> default_delivery | Some d \<Rightarrow> d) in
     bind_res (merge_received date (de_received d) (de_received incoming)) (\<lambda>received.
       Inr \<lparr>de_from = (if de_from d = None then de_from incoming else de_from d),
            de_to = add_recipients (de_to d) (de_to incoming), de_received = received,
            de_sources = add_sources (de_sources d) (de_sources incoming)\<rparr>))"

definition merge_envelope_to :: "delivery_envelope \<Rightarrow> mail \<Rightarrow> mail" where
  "merge_envelope_to d m = m\<lparr>ml_envelope_to := add_recipients (ml_envelope_to m) (de_to d)\<rparr>"

section \<open>Reading and writing a message\<close>

definition err_metadata_missing :: app_error where
  "err_metadata_missing = app_error_new ''message_metadata_missing'' ''canonical metadata is missing for message''"

text \<open>\<open>parse_message_with_options\<close> (src/src/mail.rs) of the bytes of a mail: the direction decides
  which of the two times the date of the header stands in for.\<close>

record parse_options =
  po_direction :: "string option"
  po_status :: string
  po_remote :: "remote_location list option"
  po_received :: "string option"
  po_sent :: "string option"

definition or_else :: "'a option \<Rightarrow> 'a option \<Rightarrow> 'a option" where
  "or_else a b = (case a of None \<Rightarrow> b | Some x \<Rightarrow> Some x)"

definition parses_as_outbound :: "string \<Rightarrow> parse_options \<Rightarrow> bool" where
  "parses_as_outbound direction opt \<longleftrightarrow> eq_ignore_ascii_case direction ''outbound''
     \<or> eq_ignore_ascii_case direction ''sent'' \<and> po_received opt = None \<and> po_sent opt \<noteq> None"

definition parse_message :: "cenv \<Rightarrow> string \<Rightarrow> string \<Rightarrow> parse_options \<Rightarrow> mail res" where
  "parse_message env mid raw opt = bind_res (c_parse env mid raw) (\<lambda>m.
     let direction = (case po_direction opt of None \<Rightarrow> ''inbound'' | Some d \<Rightarrow> d);
         (received, sent) = (if parses_as_outbound direction opt
           then (None, or_else (po_sent opt) (c_header_date env raw))
           else (or_else (po_received opt) (c_header_date env raw), po_sent opt))
     in Inr (m\<lparr>ml_id := mid, ml_status := po_status opt, ml_remote := po_remote opt, ml_received := received,
          ml_sent := sent, ml_direction := Some direction\<rparr>))"

definition trim_matches :: "(char \<Rightarrow> bool) \<Rightarrow> string \<Rightarrow> string" where
  "trim_matches P s = rev (dropWhile P (rev (dropWhile P s)))"

definition is_local_id :: "string \<Rightarrow> bool" where
  "is_local_id v = (let t = trim_matches (\<lambda>c. c = CHR ''<'' \<or> c = CHR ''>'') (trim v)
     in rev (take (length ''@afmail.local'') (rev t)) = ''@afmail.local'')"

definition from_spool :: "mail_metadata \<Rightarrow> bool" where
  "from_spool md = (case md_delivery md of None \<Rightarrow> False
     | Some d \<Rightarrow> list_ex (\<lambda>s. case s of CloudflareR2 _ _ \<Rightarrow> True | _ \<Rightarrow> False) (de_sources d))"

definition infer_direction :: "cenv \<Rightarrow> string \<Rightarrow> mail option \<Rightarrow> remote_location list option \<Rightarrow> string" where
  "infer_direction env raw prior remote = (case Option.bind prior ml_direction of
     Some d \<Rightarrow> d
   | None \<Rightarrow> (case find_map (\<lambda>l. Option.bind (rl_mailbox_id l) (c_pull_direction env))
         (case remote of None \<Rightarrow> [] | Some ls \<Rightarrow> ls) of
       Some d \<Rightarrow> d
     | None \<Rightarrow> if (case c_header_id env raw of None \<Rightarrow> False | Some v \<Rightarrow> is_local_id v)
         then ''outbound'' else ''inbound''))"

definition read_direction :: "cenv \<Rightarrow> string \<Rightarrow> mail option \<Rightarrow> mail_metadata \<Rightarrow> string" where
  "read_direction env raw prior md = (if prior = None \<and> md_remote md = None \<and> from_spool md
     then c_spool_direction env else infer_direction env raw prior (md_remote md))"

definition read_options :: "cenv \<Rightarrow> string \<Rightarrow> mail option \<Rightarrow> mail_metadata \<Rightarrow> parse_options" where
  "read_options env raw prior md = \<lparr>po_direction = Some (read_direction env raw prior md),
     po_status = (case prior of None \<Rightarrow> ''triage'' | Some p \<Rightarrow> ml_status p), po_remote = md_remote md,
     po_received = or_else (Option.bind prior ml_received) (Option.bind (md_delivery md) de_received),
     po_sent = Option.bind prior ml_sent\<rparr>"

definition with_envelope :: "delivery_envelope option \<Rightarrow> mail \<Rightarrow> mail" where
  "with_envelope d m = (case d of None \<Rightarrow> m | Some d \<Rightarrow> merge_envelope_to d m)"

text \<open>\<open>MessageReader::read\<close>: a mail with its raw bytes is parsed again, another is its cached document.\<close>

definition read_from_eml :: "cenv \<Rightarrow> string \<Rightarrow> string \<Rightarrow> mail ccmd" where
  "read_from_eml env mid raw = then_io (cread env ''read message eml'')
     (bind_io (gets (\<lambda>w. map_of (cw_cache w) mid)) (\<lambda>prior.
      then_io (when_io (prior \<noteq> None) (cread env ''read message''))
      (then_io (cread env ''read message metadata'') (bind_io (gets (\<lambda>w. map_of (cw_meta w) mid)) (\<lambda>md.
       case md of None \<Rightarrow> fail err_metadata_missing
       | Some md \<Rightarrow> bind_io (of_res (parse_message env mid raw (read_options env raw prior md))) (\<lambda>m.
           ret (with_envelope (md_delivery md) m)))))))"

text \<open>\<open>read_message\<close>: the cached document alone.\<close>

definition read_message :: "cenv \<Rightarrow> string \<Rightarrow> mail ccmd" where
  "read_message env mid = then_io (cread env ''read message'') (bind_io (gets (\<lambda>w. map_of (cw_cache w) mid)) (\<lambda>m.
     case m of None \<Rightarrow> fail (app_error_new ''store_error'' (''read message json '' @ mid)) | Some m \<Rightarrow> ret m))"

text \<open>The status of a message is where it is filed: in a list of spam, trash or deleted messages, else in
  a notification, a case or an archive, whose documents answer \<open>c_filed\<close>.\<close>

definition status_of :: "cenv \<Rightarrow> cworld \<Rightarrow> string \<Rightarrow> string" where
  "status_of env w mid = (case map_of (map (\<lambda>(s, m). (m, s)) (cw_disposed w)) mid of
     Some s \<Rightarrow> s | None \<Rightarrow> c_filed env (cw_tick w) mid)"

definition with_status :: "cenv \<Rightarrow> mail \<Rightarrow> mail ccmd" where
  "with_status env m = bind_io (gets (\<lambda>w. status_of env w (ml_id m))) (\<lambda>s. ret (m\<lparr>ml_status := s\<rparr>))"

definition check_id :: "cenv \<Rightarrow> string \<Rightarrow> string \<Rightarrow> unit res" where
  "check_id env label v = require (c_valid_segment env v)
     (app_error_new ''invalid_request'' (''invalid '' @ label @ '': must be a single path segment''))"

definition read_mail :: "cenv \<Rightarrow> string \<Rightarrow> mail ccmd" where
  "read_mail env mid = then_io (cread env ''read messages'') (then_io (of_res (check_id env ''message_id'' mid))
     (bind_io (gets (\<lambda>w. map_of (cw_eml w) mid)) (\<lambda>eml. case eml of
        Some raw \<Rightarrow> bind_io (read_from_eml env mid raw) (with_status env)
      | None \<Rightarrow> bind_io (read_message env mid) (with_status env))))"

definition write_metadata :: "cenv \<Rightarrow> string \<Rightarrow> mail_metadata \<Rightarrow> unit ccmd" where
  "write_metadata env mid md = then_io (cread env ''create directory'')
     (cdisk env ''write json'' (\<lambda>w. w\<lparr>cw_meta := put mid md (cw_meta w)\<rparr>))"

definition persist_message_metadata :: "cenv \<Rightarrow> mail \<Rightarrow> unit ccmd" where
  "persist_message_metadata env m = then_io (cread env ''read message metadata'')
     (bind_io (gets (\<lambda>w. map_of (cw_meta w) (ml_id m))) (\<lambda>prior.
      write_metadata env (ml_id m) \<lparr>md_remote = ml_remote m, md_delivery = Option.bind prior md_delivery\<rparr>))"

definition merge_message_delivery :: "cenv \<Rightarrow> string \<Rightarrow> delivery_envelope \<Rightarrow> unit ccmd" where
  "merge_message_delivery env mid incoming = then_io (cread env ''read message metadata'')
     (bind_io (gets (\<lambda>w. map_of (cw_meta w) mid)) (\<lambda>md. case md of
        None \<Rightarrow> fail (app_error_new ''message_metadata_missing'' ''message metadata is missing'')
      | Some md \<Rightarrow> bind_io (of_res (merge_delivery (c_date env) (md_delivery md) incoming)) (\<lambda>d.
          write_metadata env mid (md\<lparr>md_delivery := Some d\<rparr>))))"

definition write_cache :: "cenv \<Rightarrow> mail \<Rightarrow> unit ccmd" where
  "write_cache env m = then_io (cread env ''read message metadata'') (then_io (cread env ''create directory'')
     (cdisk env ''write json'' (\<lambda>w. w\<lparr>cw_cache := put (ml_id m) m (cw_cache w)\<rparr>)))"

text \<open>Spam and trash are lists of messages, one file each: the message leaves the other list and
  enters its own.\<close>

definition set_message_disposition :: "cenv \<Rightarrow> string \<Rightarrow> string \<Rightarrow> unit ccmd" where
  "set_message_disposition env status mid =
     then_io (cread env ''read disposition messages'')
     (then_io (bind_io (gets (\<lambda>w. list_ex (\<lambda>(s, m). m = mid \<and> s \<noteq> status) (cw_disposed w))) (\<lambda>listed.
        when_io listed (cdisk env ''write json'' (\<lambda>w. w\<lparr>cw_disposed :=
          filter (\<lambda>(s, m). m = mid \<longrightarrow> s = status) (cw_disposed w)\<rparr>))))
     (then_io (cread env ''read disposition messages'')
       (cdisk env ''write json'' (\<lambda>w. w\<lparr>cw_disposed :=
          (if (status, mid) \<in> set (cw_disposed w) then cw_disposed w else cw_disposed w @ [(status, mid)])\<rparr>))))"

section \<open>The index of what is stored\<close>

definition is_id_wrapper :: "char \<Rightarrow> bool" where
  "is_id_wrapper c \<longleftrightarrow> c \<in> set ''<>,;''"

definition normalize_message_id :: "string \<Rightarrow> string" where
  "normalize_message_id v = to_ascii_lowercase (trim (trim_matches is_id_wrapper (trim v)))"

definition rfc822_key :: "mail \<Rightarrow> string option" where
  "rfc822_key m = (case map_option normalize_message_id (ml_rfc822 m) of
     Some k \<Rightarrow> if k = [] then None else Some k | None \<Rightarrow> None)"

definition add_rfc822 :: "string \<Rightarrow> string \<Rightarrow> existing_index \<Rightarrow> existing_index" where
  "add_rfc822 k mid ix = ix\<lparr>ix_rfc822 := put k
     (let ids = (case map_of (ix_rfc822 ix) k of None \<Rightarrow> [] | Some ids \<Rightarrow> ids)
      in if mid \<in> set ids then ids else insort mid ids) (ix_rfc822 ix)\<rparr>"

definition location_key :: "remote_location \<Rightarrow> (string \<times> u64 \<times> u64) option" where
  "location_key l = (case (rl_uid_validity l, rl_uid l) of
     (Some v, Some u) \<Rightarrow> Some (rl_mailbox_name l, v, u) | _ \<Rightarrow> None)"

definition index_location :: "remote_location \<Rightarrow> string \<Rightarrow> existing_index \<Rightarrow> existing_index" where
  "index_location l mid ix = (case location_key l of
     Some k \<Rightarrow> ix\<lparr>ix_imap := put k mid (ix_imap ix)\<rparr> | None \<Rightarrow> ix)"

definition or_insert :: "'k \<Rightarrow> 'v \<Rightarrow> ('k \<times> 'v) list \<Rightarrow> ('k \<times> 'v) list" where
  "or_insert k v m = (if map_of m k = None then put k v m else m)"

definition index_mail :: "mail \<Rightarrow> existing_index \<Rightarrow> existing_index" where
  "index_mail m ix = (let ix1 = (case rfc822_key m of None \<Rightarrow> ix | Some k \<Rightarrow> add_rfc822 k (ml_id m) ix) in
     fold (\<lambda>l acc. if rl_missing l \<noteq> None then acc else (case location_key l of
         None \<Rightarrow> acc | Some k \<Rightarrow> acc\<lparr>ix_imap := or_insert k (ml_id m) (ix_imap acc)\<rparr>))
       (case ml_remote m of None \<Rightarrow> [] | Some ls \<Rightarrow> ls) ix1)"

text \<open>\<open>load_existing_remote_index\<close>: every raw message in the order of the file names.
  The event \<open>Found\<close> belongs to the ghost history.\<close>

definition load_index :: "cenv \<Rightarrow> existing_index ccmd" where
  "load_index env = then_io (cask_res (c_refs env)) (then_io (cread env ''read messages'')
     (bind_io (gets (\<lambda>w. sort_key fst (cw_eml w))) (\<lambda>emls.
      fold_io (\<lambda>(mid, raw) ix. then_io (cread env ''read message eml'') (then_io (modify (clog (Found mid raw)))
        (bind_io (read_mail env mid) (\<lambda>m. ret (index_mail (m\<lparr>ml_id := mid\<rparr>)
            (ix\<lparr>ix_content := or_insert (c_content_key env raw) mid (ix_content ix)\<rparr>)))))) emls empty_index)))"

section \<open>Importing a mail\<close>

definition MAX_MESSAGE_BYTES :: u64 where
  "MAX_MESSAGE_BYTES = 104857600"

definition byte_count :: "string \<Rightarrow> u64" where
  "byte_count raw = word_of_nat (length raw)"

record ingest_input =
  in_raw :: string
  in_location :: "remote_location option"
  in_delivery :: "delivery_envelope option"
  in_import_as :: string
  in_direction :: string

datatype ingest_outcome = Stored string "string list" | Merged string bool

fun outcome_message_id :: "ingest_outcome \<Rightarrow> string" where
  "outcome_message_id (Stored mid _) = mid"
| "outcome_message_id (Merged mid _) = mid"

fun has_duplicate_candidates :: "ingest_outcome \<Rightarrow> bool" where
  "has_duplicate_candidates (Stored _ ids) = (ids \<noteq> [])"
| "has_duplicate_candidates (Merged _ _) = False"

definition same_place :: "remote_location \<Rightarrow> remote_location \<Rightarrow> bool" where
  "same_place a b \<longleftrightarrow> rl_mailbox_name a = rl_mailbox_name b \<and> rl_uid_validity a = rl_uid_validity b
     \<and> rl_uid a = rl_uid b"

text \<open>The place replaces the first entry for it, or is added; whether flags changed.\<close>

fun merge_location :: "remote_location \<Rightarrow> remote_location list \<Rightarrow> remote_location list \<times> bool" where
  "merge_location l [] = ([l], False)"
| "merge_location l (e # es) = (if same_place e l then (l # es, rl_flags e \<noteq> rl_flags l)
     else (let (es', f) = merge_location l es in (e # es', f)))"

definition in_index :: "(existing_index \<Rightarrow> existing_index) \<Rightarrow> unit ccmd" where
  "in_index f = modify (\<lambda>w. w\<lparr>cw_index := f (cw_index w)\<rparr>)"

definition merge_ingest :: "cenv \<Rightarrow> ingest_input \<Rightarrow> string \<Rightarrow> ingest_outcome ccmd" where
  "merge_ingest env input mid = bind_io (read_mail env mid) (\<lambda>m.
     let (ls, flags) = (case in_location input of None \<Rightarrow> (ml_remote m, False)
           | Some l \<Rightarrow> (let (ls, f) = merge_location l (case ml_remote m of None \<Rightarrow> [] | Some ls \<Rightarrow> ls)
                        in (Some ls, f)))
     in then_io (case in_location input of None \<Rightarrow> ret () | Some l \<Rightarrow> in_index (index_location l mid))
       (then_io (persist_message_metadata env (m\<lparr>ml_id := mid, ml_remote := ls\<rparr>))
       (then_io (case in_delivery input of None \<Rightarrow> ret () | Some d \<Rightarrow> merge_message_delivery env mid d)
       (bind_io (read_mail env mid) (\<lambda>m'. then_io (write_cache env (m'\<lparr>ml_id := mid\<rparr>))
          (ret (Merged mid flags)))))))"

definition ingest_options :: "ingest_input \<Rightarrow> parse_options" where
  "ingest_options input = \<lparr>po_direction = Some (in_direction input), po_status = in_import_as input,
     po_remote = map_option (\<lambda>l. [l]) (in_location input),
     po_received = Option.bind (in_delivery input) de_received, po_sent = None\<rparr>"

definition new_mail :: "ingest_input \<Rightarrow> mail \<Rightarrow> mail" where
  "new_mail input parsed = with_envelope (in_delivery input)
     (if in_direction input = ''outbound'' then parsed\<lparr>ml_sent := ml_received parsed, ml_received := None\<rparr> else parsed)"

definition is_disposition :: "string \<Rightarrow> bool" where
  "is_disposition s \<longleftrightarrow> s = ''spam'' \<or> s = ''trashed''"

definition publish_raw :: "cenv \<Rightarrow> string \<Rightarrow> string \<Rightarrow> unit ccmd" where
  "publish_raw env mid raw = cdisk env ''write eml'' (\<lambda>w.
     clog (Published mid raw) (w\<lparr>cw_eml := put mid raw (cw_eml w)\<rparr>))"

definition write_triage_view :: "cenv \<Rightarrow> string \<Rightarrow> unit ccmd" where
  "write_triage_view env mid = then_io (cread env ''create directory'') (then_io (cask_res (\<lambda>n. c_render env n mid))
     (cdisk env ''write'' (\<lambda>w. w\<lparr>cw_triage := mid # filter (\<lambda>x. x \<noteq> mid) (cw_triage w)\<rparr>)))"

definition index_stored :: "string \<Rightarrow> remote_location option \<Rightarrow> string option \<Rightarrow> string \<Rightarrow> existing_index \<Rightarrow> existing_index" where
  "index_stored k location rfc mid ix =
     (let ix1 = (case location of None \<Rightarrow> ix | Some l \<Rightarrow> index_location l mid ix);
          ix2 = ix1\<lparr>ix_content := put k mid (ix_content ix1)\<rparr>
      in (case rfc of None \<Rightarrow> ix2 | Some r \<Rightarrow> add_rfc822 r mid ix2))"

definition store_ingest :: "cenv \<Rightarrow> ingest_input \<Rightarrow> ingest_outcome ccmd" where
  "store_ingest env input = (let raw = in_raw input; mid = c_message_id env raw in
     bind_io (of_res (parse_message env mid raw (ingest_options input))) (\<lambda>parsed.
     let m = new_mail input parsed in
     bind_io (gets cw_index) (\<lambda>ix.
     let duplicates = (case rfc822_key m of None \<Rightarrow> []
           | Some k \<Rightarrow> (case map_of (ix_rfc822 ix) k of None \<Rightarrow> [] | Some ids \<Rightarrow> ids)) in
     then_io (cread env ''create directory'')
     (bind_io (gets (\<lambda>w. map_of (cw_eml w) mid \<noteq> None)) (\<lambda>exists.
      if exists then fail (app_error_new ''message_id_conflict'' (''message id '' @ mid @ '' already exists''))
      else then_io (persist_message_metadata env m)
       (then_io (case in_delivery input of None \<Rightarrow> ret () | Some d \<Rightarrow> merge_message_delivery env mid d)
       (then_io (when_io (is_disposition (in_import_as input)) (set_message_disposition env (in_import_as input) mid))
       (then_io (publish_raw env mid raw)
       (then_io (write_cache env m)
       (then_io (when_io (in_import_as input = ''triage'') (write_triage_view env mid))
       (then_io (in_index (index_stored (c_content_key env raw) (in_location input) (rfc822_key m) mid))
        (ret (Stored mid duplicates)))))))))))))"

definition ingest_message :: "cenv \<Rightarrow> ingest_input \<Rightarrow> ingest_outcome ccmd" where
  "ingest_message env input =
     (if MAX_MESSAGE_BYTES < byte_count (in_raw input)
      then fail (app_error_new ''message_too_large'' ''message exceeds the 100 MiB limit'')
      else bind_io (gets cw_index) (\<lambda>ix.
        case map_of (ix_content ix) (c_content_key env (in_raw input)) of
          Some mid \<Rightarrow> merge_ingest env input mid
        | None \<Rightarrow> store_ingest env input))"

end
