(* ===== verification/Consumer_Pull.thy ===== *)
theory Consumer_Pull
  imports Consumer_Ingest
begin

text \<open>
  The spool side of the consumer: its settings and their validation (src/src/config/cloudflare.rs),
  the bucket operations (src/src/sources/cloudflare/r2.rs) and the pull that imports spooled
  objects (src/src/sources/cloudflare/mod.rs).
\<close>

section \<open>Settings\<close>

record cf_settings =
  cf_account :: "string option"
  cf_sending_token :: "string option"
  cf_control_url :: "string option"
  cf_control_token :: "string option"
  cf_bucket :: "string option"
  cf_prefix :: string
  cf_imported_prefix :: "string option"
  cf_endpoint :: "string option"
  cf_access_key_id :: "string option"
  cf_secret_access_key :: "string option"
  cf_queue_id :: "string option"
  cf_queue_token :: "string option"
  cf_batch_size :: nat
  cf_visibility_timeout :: int
  cf_command :: "string list"
  cf_command_timeout :: int
  cf_retry_delay :: int
  cf_poll_interval :: int
  cf_reconcile_interval :: int
  cf_import_as :: string
  cf_direction :: string

definition default_settings :: cf_settings where
  "default_settings = \<lparr>cf_account = None, cf_sending_token = None, cf_control_url = None, cf_control_token = None,
     cf_bucket = None, cf_prefix = ''inbox/'', cf_imported_prefix = None, cf_endpoint = None,
     cf_access_key_id = None, cf_secret_access_key = None, cf_queue_id = None, cf_queue_token = None,
     cf_batch_size = 20, cf_visibility_timeout = 300, cf_command = [], cf_command_timeout = 300,
     cf_retry_delay = 60, cf_poll_interval = 5, cf_reconcile_interval = 300,
     cf_import_as = ''triage'', cf_direction = ''inbound''\<rparr>"

definition blank :: "string option \<Rightarrow> bool" where
  "blank v = (case v of None \<Rightarrow> True | Some s \<Rightarrow> trim s = [])"

definition is_configured :: "cf_settings \<Rightarrow> bool" where
  "is_configured cfg = (\<not> blank (cf_bucket cfg))"

definition journal_enabled :: "cf_settings \<Rightarrow> bool" where
  "journal_enabled cfg = (cf_queue_id cfg \<noteq> None \<or> cf_command cfg \<noteq> [])"

definition starts_with :: "string \<Rightarrow> string \<Rightarrow> bool" where
  "starts_with s p = prefix p s"

definition ends_with_slash :: "string \<Rightarrow> bool" where
  "ends_with_slash s = (s \<noteq> [] \<and> last s = CHR ''/'')"

definition err_config_invalid :: "string \<Rightarrow> app_error" where
  "err_config_invalid m = app_error_new ''config_invalid'' m"

definition in_range :: "int \<Rightarrow> int \<Rightarrow> int \<Rightarrow> bool" where
  "in_range lo hi x \<longleftrightarrow> lo \<le> x \<and> x \<le> hi"

definition command_bad :: "string list \<Rightarrow> bool" where
  "command_bad cmd = ((case cmd of [] \<Rightarrow> False | p # _ \<Rightarrow> trim p = [])
     \<or> list_ex (\<lambda>a. CHR 0x00 \<in> set a) cmd)"

text \<open>Where a secret comes from.  The grammar of sources is an external crate, the argument \<open>parse\<close>; a
  variable of the environment must show by its name that it holds a secret.\<close>

datatype value_source = EnvSource string | OtherSource

definition ends_with :: "string \<Rightarrow> string \<Rightarrow> bool" where
  "ends_with s t = (t = drop (length s - length t) s)"

fun has_double_underscore :: "string \<Rightarrow> bool" where
  "has_double_underscore (a # b # s) = (a = CHR ''_'' \<and> b = CHR ''_'' \<or> has_double_underscore (b # s))"
| "has_double_underscore _ = False"

definition secret_env_name :: "string \<Rightarrow> bool" where
  "secret_env_name name \<longleftrightarrow> name \<noteq> [] \<and> ends_with name ''_SECRET''
     \<and> list_all (\<lambda>c. is_ascii_upper c \<or> is_ascii_digit c \<or> c = CHR ''_'') name
     \<and> \<not> starts_with name ''_'' \<and> \<not> has_double_underscore name"

definition validate_secret_env_name :: "string \<Rightarrow> string \<Rightarrow> unit res" where
  "validate_secret_env_name label name = require (secret_env_name name)
     (err_config_invalid (label @ '' env: variable must be UPPER_SNAKE_CASE and end with _SECRET''))"

definition validate_password_secret_source :: "(string \<Rightarrow> string + value_source) \<Rightarrow> string \<Rightarrow> string option \<Rightarrow> unit res" where
  "validate_password_secret_source parse label v = (case v of None \<Rightarrow> Inr ()
   | Some s \<Rightarrow> (case parse s of
       Inl m \<Rightarrow> Inl (err_config_invalid (label @ '' '' @ m))
     | Inr (EnvSource name) \<Rightarrow> validate_secret_env_name label name
     | Inr OtherSource \<Rightarrow> Inr ()))"

definition validate_settings :: "(string \<Rightarrow> string + value_source) \<Rightarrow> cf_settings \<Rightarrow> unit res" where
  "validate_settings parse cfg =
     bind_res (validate_password_secret_source parse ''cloudflare.queue.api_token_secret'' (cf_queue_token cfg)) (\<lambda>_.
     bind_res (require (in_range 1 100 (int (cf_batch_size cfg)) \<and> in_range 1 43200 (cf_visibility_timeout cfg)
         \<and> in_range 1 86400 (cf_command_timeout cfg) \<and> in_range 1 43200 (cf_retry_delay cfg)
         \<and> in_range 1 3600 (cf_poll_interval cfg) \<and> in_range 1 86400 (cf_reconcile_interval cfg)
         \<and> \<not> command_bad (cf_command cfg))
       (err_config_invalid ''invalid Cloudflare queue batch, timeout, retry delay, or consumer command'')) (\<lambda>_.
     bind_res (validate_password_secret_source parse ''cloudflare.spool.token_secret'' (cf_control_token cfg)) (\<lambda>_.
     bind_res (validate_password_secret_source parse ''cloudflare.sending.api_token_secret'' (cf_sending_token cfg)) (\<lambda>_.
     bind_res (validate_password_secret_source parse ''cloudflare.r2.secret_access_key_secret'' (cf_secret_access_key cfg)) (\<lambda>_.
     bind_res (require (\<not> (is_configured cfg \<and> blank (cf_account cfg) \<and> blank (cf_endpoint cfg)))
       (err_config_invalid ''cloudflare.account_id or cloudflare.r2.endpoint_url is required when cloudflare.r2.bucket is configured'')) (\<lambda>_.
     bind_res (require (ends_with_slash (cf_prefix cfg))
       (err_config_invalid ''cloudflare.r2.prefix must be nonempty and end with /'')) (\<lambda>_.
     require (case cf_imported_prefix cfg of None \<Rightarrow> True
        | Some p \<Rightarrow> ends_with_slash p \<and> \<not> starts_with p (cf_prefix cfg) \<and> \<not> starts_with (cf_prefix cfg) p)
       (err_config_invalid ''cloudflare.r2.imported_prefix must end with / and must not overlap cloudflare.r2.prefix''))))))))"

section \<open>The bucket\<close>

definition r2_failed :: "string \<Rightarrow> string option \<Rightarrow> int \<Rightarrow> app_error" where
  "r2_failed operation key status = with_details (app_error_new ''cloudflare_r2_failed'' (''R2 '' @ operation @ '' failed''))
     (JObj [(''operation'', JStr operation), (''key'', case key of None \<Rightarrow> JNull | Some k \<Rightarrow> JStr k), (''http_status'', JNum status)])"

definition is_not_found :: "app_error \<Rightarrow> bool" where
  "is_not_found e = (case details e of None \<Rightarrow> False | Some d \<Rightarrow> json_get d ''http_status'' = Some (JNum 404))"

definition r2_get :: "cenv \<Rightarrow> string \<Rightarrow> r2_object ccmd" where
  "r2_get env key = then_io (cnet env id) (bind_io (gets (\<lambda>w. map_of (cw_bucket w) key)) (\<lambda>ob. case ob of
     None \<Rightarrow> fail (r2_failed ''get'' (Some key) 404)
   | Some ob \<Rightarrow> if MAX_MESSAGE_BYTES < byte_count (ob_raw ob)
       then fail (app_error_new ''message_too_large'' ''R2 message exceeds the 100 MiB limit'') else ret ob))"

definition remove_object :: "string \<Rightarrow> cworld \<Rightarrow> cworld" where
  "remove_object key w = (case map_of (cw_bucket w) key of None \<Rightarrow> w
   | Some ob \<Rightarrow> clog (Removed key (ob_raw ob)) (w\<lparr>cw_bucket := remove key (cw_bucket w)\<rparr>))"

definition copy_object :: "string \<Rightarrow> string \<Rightarrow> cworld \<Rightarrow> cworld" where
  "copy_object key target w = (case map_of (cw_bucket w) key of None \<Rightarrow> w
   | Some ob \<Rightarrow> clog (Copied key target) (w\<lparr>cw_bucket := put target ob (cw_bucket w)\<rparr>))"

definition r2_delete :: "cenv \<Rightarrow> string \<Rightarrow> unit ccmd" where
  "r2_delete env key = cnet env (remove_object key)"

definition r2_copy :: "cenv \<Rightarrow> string \<Rightarrow> string \<Rightarrow> unit ccmd" where
  "r2_copy env key target = bind_io (gets (\<lambda>w. map_of (cw_bucket w) key)) (\<lambda>ob. case ob of
     None \<Rightarrow> then_io (cnet env id) (fail (r2_failed ''copy'' (Some key) 404))
   | Some _ \<Rightarrow> cnet env (copy_object key target))"

text \<open>\<open>acknowledge\<close>: through the control API of the Worker, which copies and deletes, or directly.\<close>

definition r2_acknowledge :: "cenv \<Rightarrow> cf_settings \<Rightarrow> string \<Rightarrow> string option \<Rightarrow> bool \<Rightarrow> unit ccmd" where
  "r2_acknowledge env cfg key archive_key quota_managed =
     (if cf_control_url cfg \<noteq> None
      then cnet env (\<lambda>w. remove_object key (case archive_key of None \<Rightarrow> w | Some t \<Rightarrow> copy_object key t w))
      else if quota_managed then fail (app_error_new ''config_missing''
        ''quota-managed objects require cloudflare.spool.control_url and cloudflare.spool.token_secret for acknowledgement'')
      else then_io (case archive_key of None \<Rightarrow> ret () | Some t \<Rightarrow> r2_copy env key t) (r2_delete env key))"

text \<open>Listing goes on while the bucket answers with a token it has not given before.  Nothing in the
  code bounds the number of pages; \<open>fuel\<close> does here, and a listing that uses it up does not return,
  like one that is killed.\<close>

fun list_pages :: "nat \<Rightarrow> cenv \<Rightarrow> string option \<Rightarrow> string list \<Rightarrow> r2_listed list \<Rightarrow> r2_listed list ccmd" where
  "list_pages 0 env cont tokens acc = (\<lambda>w. (Killed, w))"
| "list_pages (Suc fuel) env cont tokens acc =
     bind_io (cask (\<lambda>n. c_list env n cont)) (\<lambda>pg.
     case pg_continuation pg of
       None \<Rightarrow> ret (acc @ pg_objects pg)
     | Some token \<Rightarrow> if token \<in> set tokens
         then fail (app_error_new ''cloudflare_r2_failed'' ''R2 list returned a repeated continuation token'')
         else list_pages fuel env (Some token) (token # tokens) (acc @ pg_objects pg))"

fun dedup_keys :: "r2_listed list \<Rightarrow> r2_listed list" where
  "dedup_keys (a # b # xs) = (if ls_key a = ls_key b then dedup_keys (a # xs) else a # dedup_keys (b # xs))"
| "dedup_keys xs = xs"

section \<open>Pulling\<close>

record pull_options =
  po_since_days :: "nat option"
  po_max_new :: u64
  po_max_bytes :: u64
  po_all_history :: bool
  po_dry_run :: bool

definition default_pull_options :: pull_options where
  "default_pull_options = \<lparr>po_since_days = None, po_max_new = 500, po_max_bytes = 536870912, po_all_history = False,
     po_dry_run = False\<rparr>"

record pull_state =
  pl_remaining_count :: u64
  pl_remaining_bytes :: u64
  pl_journal :: "journal option"
  pl_imported :: nat
  pl_merged :: nat
  pl_deleted :: nat
  pl_moved :: nat
  pl_candidates :: nat
  pl_stored_bytes :: u64
  pl_warnings :: "string list"
  pl_skipped :: "(string \<times> string) list"
  pl_ids :: "string list"

definition start_state :: "pull_options \<Rightarrow> journal option \<Rightarrow> pull_state" where
  "start_state opts j = \<lparr>pl_remaining_count = po_max_new opts, pl_remaining_bytes = po_max_bytes opts, pl_journal = j,
     pl_imported = 0, pl_merged = 0, pl_deleted = 0, pl_moved = 0, pl_candidates = 0, pl_stored_bytes = 0,
     pl_warnings = [], pl_skipped = [], pl_ids = []\<rparr>"

definition skip_reason :: "cf_settings \<Rightarrow> r2_listed \<Rightarrow> pull_state \<Rightarrow> string option" where
  "skip_reason cfg ob st = (if \<not> starts_with (ls_key ob) (cf_prefix cfg) then Some ''outside_prefix''
     else if MAX_MESSAGE_BYTES < ls_size ob then Some ''message_too_large''
     else if pl_remaining_count st = 0 then Some ''message_count_budget_exceeded''
     else if pl_remaining_bytes st < ls_size ob then Some ''total_bytes_budget_exceeded'' else None)"

definition skipped :: "string \<Rightarrow> string \<Rightarrow> pull_state \<Rightarrow> pull_state" where
  "skipped key reason st = st\<lparr>pl_skipped := pl_skipped st @ [(key, reason)]\<rparr>"

definition warned :: "string \<Rightarrow> pull_state \<Rightarrow> pull_state" where
  "warned code st = st\<lparr>pl_warnings := pl_warnings st @ [code]\<rparr>"

definition archive_key_of :: "cf_settings \<Rightarrow> string \<Rightarrow> string option" where
  "archive_key_of cfg key = map_option (\<lambda>p. p @ (case strip_prefix (cf_prefix cfg) key of
     None \<Rightarrow> [] | Some rest \<Rightarrow> rest)) (cf_imported_prefix cfg)"

definition object_id :: "cenv \<Rightarrow> cf_settings \<Rightarrow> string \<Rightarrow> string" where
  "object_id env cfg key = c_object_id env (cf_account cfg) (cf_endpoint cfg) (cf_bucket cfg) key"

definition with_journal :: "(journal \<Rightarrow> journal ccmd) \<Rightarrow> pull_state \<Rightarrow> pull_state ccmd" where
  "with_journal f st = (case pl_journal st of None \<Rightarrow> ret st
   | Some j \<Rightarrow> bind_io (f j) (\<lambda>j'. ret (st\<lparr>pl_journal := Some j'\<rparr>)))"

definition prepare_object :: "cenv \<Rightarrow> string \<Rightarrow> pull_state \<Rightarrow> (bool \<times> pull_state) ccmd" where
  "prepare_object env raw st = (case pl_journal st of None \<Rightarrow> ret (False, st)
   | Some j \<Rightarrow> bind_io (prepare env raw j) (\<lambda>(prepared, j'). ret (prepared, st\<lparr>pl_journal := Some j'\<rparr>)))"

definition count_outcome :: "ingest_outcome \<Rightarrow> u64 \<Rightarrow> pull_state \<Rightarrow> pull_state" where
  "count_outcome outcome actual st = (case outcome of
     Stored mid _ \<Rightarrow> st\<lparr>pl_imported := pl_imported st + 1, pl_remaining_count := pl_remaining_count st - 1,
        pl_remaining_bytes := pl_remaining_bytes st - actual, pl_stored_bytes := pl_stored_bytes st + actual,
        pl_ids := pl_ids st @ [mid]\<rparr>
   | Merged _ _ \<Rightarrow> st\<lparr>pl_merged := pl_merged st + 1\<rparr>)"

text \<open>Acknowledging an imported object: its removal from the spool, and the note that it is gone.\<close>

definition cleanup_object :: "cenv \<Rightarrow> cf_settings \<Rightarrow> string \<Rightarrow> bool \<Rightarrow> pull_state \<Rightarrow> pull_state ccmd" where
  "cleanup_object env cfg key quota st = match_io
     (case cf_imported_prefix cfg of
        Some p \<Rightarrow> (case strip_prefix (cf_prefix cfg) key of
            None \<Rightarrow> fail (app_error_new ''cloudflare_r2_failed'' ''object key is outside the configured prefix'')
          | Some rest \<Rightarrow> then_io (r2_acknowledge env cfg key (Some (p @ rest)) quota)
              (ret (st\<lparr>pl_moved := pl_moved st + 1\<rparr>)))
      | None \<Rightarrow> then_io (r2_acknowledge env cfg key None quota) (ret (st\<lparr>pl_deleted := pl_deleted st + 1\<rparr>)))
     (with_journal (cleaned env (object_id env cfg key)))
     (\<lambda>e. ret (warned (error_code e) st))"

definition record_import :: "cenv \<Rightarrow> cf_settings \<Rightarrow> string \<Rightarrow> r2_object \<Rightarrow> ingest_outcome \<Rightarrow> pull_state \<Rightarrow> pull_state ccmd" where
  "record_import env cfg key ob outcome st = bind_io (epoch env) (\<lambda>t.
     bind_io (with_journal (imported env (object_id env cfg key)
       \<lparr>rc_message_id = outcome_message_id outcome, rc_imported_epoch = t,
        rc_content_key = c_content_key env (ob_raw ob), rc_quota_managed = ob_quota ob,
        rc_archive_key = archive_key_of cfg key, rc_cleanup_complete = False\<rparr>) st) (\<lambda>st1.
     let st2 = (if has_duplicate_candidates outcome then warned ''duplicate_candidate'' st1 else st1)
     in cleanup_object env cfg key (ob_quota ob) (count_outcome outcome (byte_count (ob_raw ob)) st2)))"

definition import_downloaded :: "cenv \<Rightarrow> cf_settings \<Rightarrow> string \<Rightarrow> r2_object \<Rightarrow> pull_state \<Rightarrow> pull_state ccmd" where
  "import_downloaded env cfg key ob st =
     (if pl_remaining_bytes st < byte_count (ob_raw ob) then ret (skipped key ''total_bytes_budget_exceeded'' st)
      else bind_io (prepare_object env (ob_raw ob) st) (\<lambda>(prepared, st1).
        match_io (ingest_message env \<lparr>in_raw = ob_raw ob, in_location = None, in_delivery = Some (ob_delivery ob),
            in_import_as = cf_import_as cfg, in_direction = cf_direction cfg\<rparr>)
          (\<lambda>outcome. record_import env cfg key ob outcome st1)
          (\<lambda>e. if error_code e = ''store_error'' then fail e
             else bind_io (if prepared then with_journal (withdraw env (c_content_key env (ob_raw ob))) st1 else ret st1)
               (\<lambda>st2. ret (warned (error_code e) st2)))))"

definition pull_object :: "cenv \<Rightarrow> cf_settings \<Rightarrow> pull_options \<Rightarrow> r2_listed \<Rightarrow> pull_state \<Rightarrow> pull_state ccmd" where
  "pull_object env cfg opts ob st = (case skip_reason cfg ob st of
     Some reason \<Rightarrow> ret (skipped (ls_key ob) reason st)
   | None \<Rightarrow> let st = st\<lparr>pl_candidates := pl_candidates st + 1\<rparr> in
       if po_dry_run opts
       then ret (st\<lparr>pl_remaining_count := pl_remaining_count st - 1, pl_remaining_bytes := pl_remaining_bytes st - ls_size ob\<rparr>)
       else match_io (r2_get env (ls_key ob))
         (\<lambda>got. import_downloaded env cfg (ls_key ob) got st)
         (\<lambda>e. if error_code e = ''message_too_large'' then ret (skipped (ls_key ob) ''message_too_large'' st)
            else if is_not_found e then ret (warned (error_code e) st) else fail e))"

text \<open>\<open>pull_objects\<close>: of the selected objects, or of all that are listed under the prefix.\<close>

definition pull_objects :: "cenv \<Rightarrow> nat \<Rightarrow> cf_settings \<Rightarrow> pull_options \<Rightarrow> r2_listed list option \<Rightarrow> pull_state ccmd" where
  "pull_objects env fuel cfg opts selected = then_io (cask_res (c_clients env))
     (bind_io (case selected of Some obs \<Rightarrow> ret obs | None \<Rightarrow> list_pages fuel env None [] []) (\<lambda>listed.
      let objects = dedup_keys (sort_key ls_key listed) in
      bind_io (if po_dry_run opts then ret empty_index else load_index env) (\<lambda>ix.
      then_io (in_index (\<lambda>_. ix))
      (bind_io (if \<not> po_dry_run opts \<and> journal_enabled cfg then bind_io (load_journal env) (\<lambda>j. ret (Some j)) else ret None) (\<lambda>j.
       bind_io (fold_io (pull_object env cfg opts) objects (start_state opts j)) (\<lambda>st.
       then_io (when_io (\<not> po_dry_run opts) (cask_res (c_refresh env))) (ret st)))))))"

definition budget_limited :: "pull_state \<Rightarrow> bool" where
  "budget_limited st = list_ex (\<lambda>(_, reason).
     reason \<in> {''message_count_budget_exceeded'', ''total_bytes_budget_exceeded''}) (pl_skipped st)"

definition candidate_declared_bytes :: "pull_options \<Rightarrow> pull_state \<Rightarrow> u64" where
  "candidate_declared_bytes opts st = (if po_dry_run opts then po_max_bytes opts - pl_remaining_bytes st else 0)"

end
