(* ===== verification/Consumer_Run.thy ===== *)
theory Consumer_Run
  imports Consumer_Pull
begin

text \<open>
  One tick of the consumer (src/src/sources/cloudflare/consumer.rs, the event decoding of
  queue.rs): queue events are leased, imported and settled, the spool is scanned when a
  reconciliation is due, and one batch of pending notification tasks is handed to the handler.

  The consumer lock and the workspace lock are fallible operations; what other commands do while
  the handler runs, which holds neither, is \<open>c_during\<close>.
\<close>

section \<open>Recovering a receipt\<close>

definition recover_cleanup :: "cenv \<Rightarrow> cf_settings \<Rightarrow> string \<Rightarrow> receipt \<Rightarrow> unit ccmd" where
  "recover_cleanup env cfg key r =
     (if cf_control_url cfg \<noteq> None then r2_acknowledge env cfg key (rc_archive_key r) (rc_quota_managed r)
      else if rc_quota_managed r
      then fail (app_error_new ''config_missing'' ''managed spool cleanup requires cloudflare.spool.control_url'')
      else then_io (case rc_archive_key r of None \<Rightarrow> ret ()
        | Some target \<Rightarrow> match_io (r2_get env target)
            (\<lambda>got. if c_content_key env (ob_raw got) = rc_content_key r then ret ()
               else fail (app_error_new ''cloudflare_archive_conflict''
                 ''archive destination does not match the imported mail receipt''))
            (\<lambda>e. if is_not_found e then r2_copy env key target else fail e))
        (r2_delete env key))"

definition recover_receipt :: "cenv \<Rightarrow> cf_settings \<Rightarrow> string \<Rightarrow> bool ccmd" where
  "recover_receipt env cfg key = bind_io (load_journal env) (\<lambda>j.
     case map_of (jn_receipts j) (object_id env cfg key) of
       None \<Rightarrow> ret False
     | Some r \<Rightarrow> if rc_cleanup_complete r then ret True
         else bind_io (read_mail env (rc_message_id r)) (\<lambda>m.
           if ml_id m \<noteq> rc_message_id r
           then fail (err_journal_invalid ''receipt message identity mismatch'')
           else then_io (cask_res (c_clients env)) (then_io (recover_cleanup env cfg key r)
             (bind_io (cleaned env (object_id env cfg key) j) (\<lambda>_. ret True)))))"

section \<open>The batch for the handler\<close>

definition remove_marker :: "cenv \<Rightarrow> string \<Rightarrow> unit ccmd" where
  "remove_marker env tid = cdisk env ''remove consumer completion'' (\<lambda>w. w\<lparr>cw_markers := remove tid (cw_markers w)\<rparr>)"

text \<open>Folding a completion into the journal on disk, then removing the markers of batches that are
  not active.\<close>

definition record_completed :: "cenv \<Rightarrow> journal \<Rightarrow> journal ccmd" where
  "record_completed env j = (let tid = map_option bt_task_id (jn_active j) in
     bind_io (apply_completed env j) (\<lambda>(applied, j1).
     bind_io (if applied then save_journal env j1 else ret j1) (\<lambda>j2.
     then_io (cread env ''list consumer batches'')
     (bind_io (gets (\<lambda>w. map fst (cw_markers w))) (\<lambda>ids.
      then_io (for_io ids (\<lambda>t. when_io (\<not> (jn_active j2 \<noteq> None \<and> tid = Some t)) (remove_marker env t)))
        (ret j2))))))"

definition warn :: "string \<Rightarrow> unit ccmd" where
  "warn code = modify (\<lambda>w. w\<lparr>cw_warnings := cw_warnings w @ [code]\<rparr>)"

definition drop_task :: "string \<Rightarrow> journal \<Rightarrow> string \<Rightarrow> (string option \<times> journal) ccmd" where
  "drop_task code j key = then_io (warn code) (then_io (modify (clog (Dropped key)))
     (ret (None, j\<lparr>jn_tasks := remove key (jn_tasks j)\<rparr>)))"

text \<open>The message of a task, or the task is dropped: a purged or unreadable message must not block
  later batches.\<close>

definition drop_unavailable :: "cenv \<Rightarrow> string \<Rightarrow> journal \<Rightarrow> (string option \<times> journal) ccmd" where
  "drop_unavailable env key j = (case map_of (jn_tasks j) key of
     None \<Rightarrow> ret (None, j)
   | Some t \<Rightarrow> bind_io (gets (\<lambda>w. map_of (cw_eml w) (tk_message_id t) \<noteq> None)) (\<lambda>present.
       if \<not> present then drop_task ''consumer_message_missing'' j key
       else match_io (read_mail env (tk_message_id t))
         (\<lambda>_. ret (Some (tk_message_id t), j))
         (\<lambda>e. drop_task (error_code e) j key)))"

type_synonym gathered = "string list \<times> string list \<times> journal"

text \<open>Keys and messages gathered so far, at most \<open>limit\<close> of them.\<close>

definition gather :: "cenv \<Rightarrow> nat option \<Rightarrow> string \<Rightarrow> gathered \<Rightarrow> gathered ccmd" where
  "gather env limit key = (\<lambda>(keys, items, j).
     if (case limit of None \<Rightarrow> False | Some n \<Rightarrow> n \<le> length keys) then ret (keys, items, j)
     else bind_io (drop_unavailable env key j) (\<lambda>(mid, j'). ret (case mid of
         None \<Rightarrow> (keys, items, j')
       | Some m \<Rightarrow> (keys @ [key], items @ [m], j'))))"

definition resume_batch :: "cenv \<Rightarrow> journal \<Rightarrow> (string list \<times> journal) ccmd" where
  "resume_batch env j = (case jn_active j of
     None \<Rightarrow> ret ([], j)
   | Some b \<Rightarrow> bind_io (fold_io (gather env None) (bt_content_keys b) ([], [], j)) (\<lambda>(keys, items, j').
       ret (items, j'\<lparr>jn_active := (if keys = [] then None else Some (b\<lparr>bt_content_keys := keys\<rparr>))\<rparr>)))"

definition pending_keys :: "journal \<Rightarrow> string list" where
  "pending_keys j = sort (map fst (filter (\<lambda>(k, t). tk_status t = TaskPending) (jn_tasks j)))"

definition new_task_id :: "cenv \<Rightarrow> string list \<Rightarrow> string" where
  "new_task_id env keys = ''mail_'' @ c_keys_hash env keys"

definition new_batch :: "cenv \<Rightarrow> cf_settings \<Rightarrow> journal \<Rightarrow> (string list \<times> journal) ccmd" where
  "new_batch env cfg j = bind_io (fold_io (gather env (Some (cf_batch_size cfg))) (pending_keys j) ([], [], j))
     (\<lambda>(keys, items, j'). ret (items, if keys = [] then j' else j'\<lparr>jn_active := Some
        \<lparr>bt_task_id = new_task_id env keys, bt_content_keys = keys, bt_retry_after = 0, bt_attempt_count = 0,
         bt_last_attempt = None, bt_last_error_code = None, bt_last_exit_code = None\<rparr>\<rparr>))"

definition saturating_inc :: "u64 \<Rightarrow> u64" where
  "saturating_inc n = (if n = - 1 then n else n + 1)"

definition note_attempt :: "int \<Rightarrow> string \<Rightarrow> cf_settings \<Rightarrow> batch \<Rightarrow> batch" where
  "note_attempt t stamp cfg b = b\<lparr>bt_attempt_count := saturating_inc (bt_attempt_count b),
     bt_last_attempt := Some stamp, bt_retry_after := t + cf_command_timeout cfg + cf_retry_delay cfg\<rparr>"

text \<open>The first part of \<open>dispatch\<close>, under the workspace lock: the batch to run, with its input
  written and its attempt recorded, or nothing to do.\<close>

definition begin_attempt :: "cenv \<Rightarrow> cf_settings \<Rightarrow> batch \<Rightarrow> string list \<Rightarrow> journal \<Rightarrow> batch ccmd" where
  "begin_attempt env cfg b items j =
     then_io (cdisk env ''write json'' (\<lambda>w. w\<lparr>cw_inputs := put (bt_task_id b) items (cw_inputs w)\<rparr>))
     (bind_io (epoch env) (\<lambda>t. bind_io (gets (\<lambda>w. c_clock env (cw_tick w))) (\<lambda>stamp.
      bind_io (save_journal env (j\<lparr>jn_active := Some (note_attempt t stamp cfg b)\<rparr>)) (\<lambda>_. ret b))))"

definition prepare_batch :: "cenv \<Rightarrow> cf_settings \<Rightarrow> batch option ccmd" where
  "prepare_batch env cfg = then_io (cask_res (c_lock env)) (bind_io (load_journal env) (\<lambda>j0.
     bind_io (record_completed env j0) (\<lambda>j1.
     bind_io (resume_batch env j1) (\<lambda>(items1, j2).
     bind_io (if jn_active j2 = None then new_batch env cfg j2 else ret (items1, j2)) (\<lambda>(items, j3).
     bind_io (epoch env) (\<lambda>t.
     let wait = then_io (when_io (length (jn_tasks j3) \<noteq> length (jn_tasks j1))
           (bind_io (save_journal env j3) (\<lambda>_. ret ()))) (ret None)
     in case jn_active j3 of
       None \<Rightarrow> wait
     | Some b \<Rightarrow> if t < bt_retry_after b then wait
         else bind_io (begin_attempt env cfg b items j3) (\<lambda>b. ret (Some b))))))))"

definition err_interrupted :: app_error where
  "err_interrupted = app_error_new ''consumer_interrupted'' ''Mail consumer stopped; unfinished durable tasks remain pending''"

definition err_command_failed :: "string \<Rightarrow> app_error" where
  "err_command_failed m = app_error_retryable ''consumer_command_failed'' m"

definition exit_details :: "int option \<Rightarrow> json" where
  "exit_details code = JObj [(''exit_code'', case code of None \<Rightarrow> JNull | Some c \<Rightarrow> JNum c)]"

definition run_handler :: "cenv \<Rightarrow> cf_settings \<Rightarrow> batch \<Rightarrow> unit ccmd" where
  "run_handler env cfg b = (if cf_command cfg = []
     then fail (app_error_new ''config_missing'' ''cloudflare.consumer.command is required for dispatch'')
     else (\<lambda>w. let w' = c_during env (cw_tick w) (clog (Started (bt_task_id b) (bt_content_keys b)) (ctick w)) in
       case c_handler env (cw_tick w) of
         HandlerNotStarted \<Rightarrow> (Fail (err_command_failed ''could not start the configured Cloudflare consumer command''), ctick w)
       | HandlerCrash \<Rightarrow> (Killed, w')
       | HandlerInterrupted \<Rightarrow> (Fail err_interrupted, w')
       | HandlerWaitFailed m \<Rightarrow> (Fail (app_error_io ''wait for consumer command'' m), w')
       | HandlerTimedOut \<Rightarrow> (Fail (app_error_retryable ''consumer_command_timeout''
           ''Cloudflare consumer command timed out; its durable task remains pending''), w')
       | HandlerExited code \<Rightarrow> if code = Some 0 then (Done (), w')
           else (Fail (with_details (err_command_failed
             ''Cloudflare consumer command exited unsuccessfully; its durable task remains pending'') (exit_details code)), w')))"

definition exit_code_of :: "app_error \<Rightarrow> int option" where
  "exit_code_of e = (case Option.bind (details e) (\<lambda>d. json_get d ''exit_code'') of
     Some (JNum c) \<Rightarrow> if - (2 ^ 31) \<le> c \<and> c < 2 ^ 31 then Some c else None | _ \<Rightarrow> None)"

definition record_failure :: "int \<Rightarrow> app_error \<Rightarrow> cf_settings \<Rightarrow> batch \<Rightarrow> batch" where
  "record_failure t e cfg b = b\<lparr>bt_last_error_code := Some (error_code e), bt_last_exit_code := exit_code_of e,
     bt_retry_after := t + cf_retry_delay cfg\<rparr>"

definition record_handler_failure :: "cenv \<Rightarrow> cf_settings \<Rightarrow> batch \<Rightarrow> app_error \<Rightarrow> unit ccmd" where
  "record_handler_failure env cfg b e = match_io
     (then_io (cask_res (c_lock env)) (bind_io (load_journal env) (\<lambda>j. case jn_active j of
        Some a \<Rightarrow> if bt_task_id a = bt_task_id b
          then bind_io (epoch env) (\<lambda>t.
            bind_io (save_journal env (j\<lparr>jn_active := Some (record_failure t e cfg a)\<rparr>)) (\<lambda>_. ret ()))
          else ret ()
      | None \<Rightarrow> ret ())))
     ret (\<lambda>e'. warn (error_code e'))"

text \<open>The marker is written under the consumer lock alone; folding it at once is an optimisation.\<close>

definition write_marker :: "cenv \<Rightarrow> batch \<Rightarrow> unit ccmd" where
  "write_marker env b = cdisk env ''write json'' (\<lambda>w. clog (MarkerDone (bt_task_id b) (bt_content_keys b))
     (w\<lparr>cw_markers := put (bt_task_id b) (MarkerDoc ''mail_received_task_completed'' 1 (bt_task_id b)) (cw_markers w)\<rparr>))"

definition finish_batch :: "cenv \<Rightarrow> batch \<Rightarrow> bool ccmd" where
  "finish_batch env b = then_io (write_marker env b)
     (match_io (cask_res (c_lock env))
       (\<lambda>_. bind_io (load_journal env) (\<lambda>j. bind_io (record_completed env j) (\<lambda>_. ret True)))
       (\<lambda>_. ret True))"

definition dispatch :: "cenv \<Rightarrow> cf_settings \<Rightarrow> bool ccmd" where
  "dispatch env cfg = (if cf_command cfg = [] then ret False
     else bind_io (prepare_batch env cfg) (\<lambda>batch. case batch of
       None \<Rightarrow> ret False
     | Some b \<Rightarrow> match_io (run_handler env cfg b)
         (\<lambda>_. finish_batch env b)
         (\<lambda>e. then_io (record_handler_failure env cfg b e) (fail e))))"

section \<open>Queue events\<close>

record event_state =
  es_acks :: "string list"
  es_retries :: "string list"
  es_imported :: nat
  es_budget :: pull_options

definition err_event_rejected :: app_error where
  "err_event_rejected = app_error_new ''cloudflare_event_rejected''
     ''Queue event does not match the configured account, bucket, pending prefix, and create actions''"

definition event_accepted :: "cf_settings \<Rightarrow> queue_event \<Rightarrow> bool" where
  "event_accepted cfg ev \<longleftrightarrow> ev_account ev = (case cf_account cfg of None \<Rightarrow> [] | Some a \<Rightarrow> a)
     \<and> Some (ev_bucket ev) = cf_bucket cfg \<and> starts_with (ev_key ev) (cf_prefix cfg)
     \<and> ev_action ev \<in> {''PutObject'', ''CopyObject'', ''CompleteMultipartUpload''}"

definition after_pull :: "pull_state \<Rightarrow> event_state \<Rightarrow> event_state" where
  "after_pull rep st = st\<lparr>es_imported := es_imported st + pl_imported rep,
     es_budget := (es_budget st)\<lparr>po_max_new := pl_remaining_count rep, po_max_bytes := pl_remaining_bytes rep\<rparr>\<rparr>"

definition warn_all :: "string list \<Rightarrow> unit ccmd" where
  "warn_all codes = modify (\<lambda>w. w\<lparr>cw_warnings := cw_warnings w @ codes\<rparr>)"

definition cleanup_recorded :: "cenv \<Rightarrow> cf_settings \<Rightarrow> string \<Rightarrow> journal \<Rightarrow> bool" where
  "cleanup_recorded env cfg key j = (case map_of (jn_receipts j) (object_id env cfg key) of
     None \<Rightarrow> False | Some r \<Rightarrow> rc_cleanup_complete r)"

text \<open>The body of the loop over the leased messages: the new local variables, and the error if the
  event is to be retried.  An error before the pull leaves the variables as they were.\<close>

definition import_event :: "cenv \<Rightarrow> nat \<Rightarrow> cf_settings \<Rightarrow> queue_event \<Rightarrow> event_state \<Rightarrow> (event_state \<times> app_error option) ccmd" where
  "import_event env fuel cfg ev st = (if \<not> event_accepted cfg ev then fail err_event_rejected
     else bind_io (recover_receipt env cfg (ev_key ev)) (\<lambda>known.
       if known then ret (st, None)
       else bind_io (pull_objects env fuel cfg (es_budget st) (Some [\<lparr>ls_key = ev_key ev, ls_size = ev_size ev\<rparr>])) (\<lambda>rep.
         then_io (warn_all (pl_warnings rep)) (match_io (load_journal env)
           (\<lambda>j. ret (after_pull rep st, if cleanup_recorded env cfg (ev_key ev) j then None
              else Some (app_error_retryable ''cloudflare_import_pending'' ''mail import or spool cleanup remains pending'')))
           (\<lambda>e. ret (after_pull rep st, Some e))))))"

definition handle_message :: "cenv \<Rightarrow> nat \<Rightarrow> cf_settings \<Rightarrow> queue_message \<Rightarrow> event_state \<Rightarrow> event_state ccmd" where
  "handle_message env fuel cfg msg st =
     (let retry = (\<lambda>st e. then_io (warn (error_code e)) (ret (st\<lparr>es_retries := es_retries st @ [qm_lease msg]\<rparr>)))
      in match_io (bind_io (of_res (qm_event msg)) (\<lambda>ev. import_event env fuel cfg ev st))
        (\<lambda>(st', e). case e of None \<Rightarrow> ret (st'\<lparr>es_acks := es_acks st' @ [qm_lease msg]\<rparr>)
           | Some e \<Rightarrow> retry st' e)
        (retry st))"

definition err_queue_failed :: "string \<Rightarrow> app_error" where
  "err_queue_failed operation = app_error_retryable ''cloudflare_queue_failed'' (''Cloudflare Queue '' @ operation @ '' failed'')"

definition queue_pull :: "cenv \<Rightarrow> queue_message list ccmd" where
  "queue_pull env = bind_io (cask (c_events env)) (\<lambda>ms.
     if 100 < length ms \<or> list_ex (\<lambda>m. qm_lease m = []) ms then fail (err_queue_failed ''decode'') else ret ms)"

definition reconcile_spool :: "cenv \<Rightarrow> nat \<Rightarrow> cf_settings \<Rightarrow> event_state \<Rightarrow> (bool \<times> event_state) ccmd" where
  "reconcile_spool env fuel cfg st = match_io (pull_objects env fuel cfg (es_budget st) None)
     (\<lambda>rep. then_io (warn_all (pl_warnings rep)) (then_io (warn_all (map snd (pl_skipped rep)))
        (ret (True, st\<lparr>es_imported := es_imported st + pl_imported rep\<rparr>))))
     (\<lambda>e. then_io (warn (error_code e)) (ret (False, st)))"

text \<open>The part of a tick under the workspace lock.\<close>

definition import_phase :: "cenv \<Rightarrow> nat \<Rightarrow> cf_settings \<Rightarrow> bool \<Rightarrow> (nat \<times> bool \<times> event_state) ccmd" where
  "import_phase env fuel cfg reconcile = then_io (cask_res (c_lock env)) (then_io (cask_res (c_transactions env))
     (bind_io (match_io (queue_pull env) ret (\<lambda>e. then_io (warn (error_code e)) (ret []))) (\<lambda>ms.
      bind_io (fold_io (handle_message env fuel cfg) ms
        \<lparr>es_acks = [], es_retries = [], es_imported = 0, es_budget = default_pull_options\<rparr>) (\<lambda>st.
      bind_io (if reconcile then reconcile_spool env fuel cfg st else ret (False, st)) (\<lambda>(reconciled, st').
      ret (length ms, reconciled, st'))))))"

definition settle_events :: "cenv \<Rightarrow> event_state \<Rightarrow> bool ccmd" where
  "settle_events env st = (if es_acks st = [] \<and> es_retries st = [] then ret True
     else match_io (then_io (modify (clog (Settled (es_acks st) (es_retries st)))) (cask (c_settle env)))
       (\<lambda>_. ret True) (\<lambda>e. then_io (warn (error_code e)) (ret False)))"

section \<open>A tick\<close>

record consume_result =
  cr_received :: nat
  cr_imported :: nat
  cr_acknowledged :: nat
  cr_retried :: nat
  cr_reconciled :: bool
  cr_dispatched :: bool
  cr_pending :: nat
  cr_warnings :: "string list"

definition check_shutdown :: "cenv \<Rightarrow> unit ccmd" where
  "check_shutdown env = bind_io (gets (\<lambda>w. c_shutdown env (cw_tick w))) (\<lambda>stop.
     if stop then fail err_interrupted else ret ())"

definition dispatch_phase :: "cenv \<Rightarrow> cf_settings \<Rightarrow> bool ccmd" where
  "dispatch_phase env cfg = match_io (dispatch env cfg) ret
     (\<lambda>e. if error_code e = ''consumer_interrupted'' then fail e
        else then_io (warn (error_code e)) (ret False))"

definition consume :: "cenv \<Rightarrow> nat \<Rightarrow> cf_settings \<Rightarrow> bool \<Rightarrow> consume_result ccmd" where
  "consume env fuel cfg reconcile = then_io (check_shutdown env) (then_io (cask_res (c_lock env))
     (if \<not> is_configured cfg then fail (app_error_new ''config_missing'' ''cloudflare.r2.bucket is required'')
      else if cf_queue_id cfg = None
      then fail (app_error_new ''config_missing'' ''cloudflare.queue.queue_id must be a 32-character hexadecimal queue ID'')
      else then_io (cask_res (c_clients env)) (then_io (modify (\<lambda>w. w\<lparr>cw_warnings := []\<rparr>))
       (bind_io (import_phase env fuel cfg reconcile) (\<lambda>(received, reconciled, st).
        bind_io (settle_events env st) (\<lambda>settled.
        then_io (check_shutdown env) (bind_io (dispatch_phase env cfg) (\<lambda>dispatched.
        bind_io (load_journal env) (\<lambda>j. bind_io (apply_completed env j) (\<lambda>(_, j').
        bind_io (gets cw_warnings) (\<lambda>warnings.
        ret \<lparr>cr_received = received, cr_imported = es_imported st,
          cr_acknowledged = (if settled then length (es_acks st) else 0),
          cr_retried = (if settled then length (es_retries st) else 0),
          cr_reconciled = reconciled, cr_dispatched = dispatched, cr_pending = pending_count j',
          cr_warnings = warnings\<rparr>)))))))))))"

end
