(* ===== verification/Consumer_Safety.thy ===== *)
theory Consumer_Safety
  imports Consumer_Run
begin

text \<open>
  The invariant of the consumer: what the journal on disk, the spool and the history have in common
  at every moment, through every operation, every failure and every kill.
\<close>

section \<open>Reading the history\<close>

fun last_saved :: "cevent list \<Rightarrow> journal option" where
  "last_saved [] = None"
| "last_saved (Saved j # es) = Some j"
| "last_saved (_ # es) = last_saved es"

definition disk_journal :: "cevent list \<Rightarrow> journal" where
  "disk_journal es = (case last_saved es of None \<Rightarrow> default_journal | Some j \<Rightarrow> j)"

definition file_of :: "cevent list \<Rightarrow> journal_file" where
  "file_of es = (case last_saved es of None \<Rightarrow> NoJournal
     | Some j \<Rightarrow> JournalDoc ''cloudflare_consumer'' JOURNAL_SCHEMA_VERSION j)"

text \<open>Mail with this content was written by an import; was seen in the store; had its batch
  completed; had its task given up because the message was gone.\<close>

definition published :: "(string \<Rightarrow> string) \<Rightarrow> string \<Rightarrow> cevent list \<Rightarrow> bool" where
  "published ck k es \<longleftrightarrow> (\<exists>mid raw. Published mid raw \<in> set es \<and> ck raw = k)"

definition stored :: "(string \<Rightarrow> string) \<Rightarrow> string \<Rightarrow> cevent list \<Rightarrow> bool" where
  "stored ck k es \<longleftrightarrow> (\<exists>mid raw. (Published mid raw \<in> set es \<or> Found mid raw \<in> set es) \<and> ck raw = k)"

definition handled :: "string \<Rightarrow> cevent list \<Rightarrow> bool" where
  "handled k es \<longleftrightarrow> (\<exists>tid ks. MarkerDone tid ks \<in> set es \<and> k \<in> set ks)"

definition concluded :: "string \<Rightarrow> cevent list \<Rightarrow> bool" where
  "concluded k es \<longleftrightarrow> handled k es \<or> Dropped k \<in> set es"

text \<open>The last completed batch with this content is not followed by a new preparation of it.\<close>

fun completed_since :: "string \<Rightarrow> cevent list \<Rightarrow> bool" where
  "completed_since k [] = False"
| "completed_since k (MarkerDone tid ks # es) = (k \<in> set ks \<or> completed_since k es)"
| "completed_since k (Saved j # es) =
     (map_option tk_status (map_of (jn_tasks j) k) \<noteq> Some TaskPreparing \<and> completed_since k es)"
| "completed_since k (_ # es) = completed_since k es"

definition started_ok :: "string \<Rightarrow> string list \<Rightarrow> cevent list \<Rightarrow> bool" where
  "started_ok tid ks es \<longleftrightarrow> (case jn_active (disk_journal es) of None \<Rightarrow> False
     | Some b \<Rightarrow> bt_task_id b = tid \<and> bt_content_keys b = ks \<and> 0 < bt_attempt_count b)
     \<and> list_all (pending_task (disk_journal es)) ks \<and> list_all (\<lambda>k. \<not> completed_since k es) ks"

definition removed_ok :: "(string \<Rightarrow> string) \<Rightarrow> (string \<Rightarrow> string) \<Rightarrow> string \<Rightarrow> string \<Rightarrow> cevent list \<Rightarrow> bool" where
  "removed_ok ck oid key raw es \<longleftrightarrow> stored ck (ck raw) es
     \<and> map_option rc_content_key (map_of (jn_receipts (disk_journal es)) (oid key)) = Some (ck raw)"

fun history_ok :: "(string \<Rightarrow> string) \<Rightarrow> (string \<Rightarrow> string) \<Rightarrow> cevent list \<Rightarrow> bool" where
  "history_ok ck oid [] = True"
| "history_ok ck oid (Started tid ks # es) = (started_ok tid ks es \<and> history_ok ck oid es)"
| "history_ok ck oid (Removed key raw # es) = (removed_ok ck oid key raw es \<and> history_ok ck oid es)"
| "history_ok ck oid (_ # es) = history_ok ck oid es"

section \<open>Journals\<close>

definition journal_ok :: "journal \<Rightarrow> bool" where
  "journal_ok j \<longleftrightarrow> validate_active j = Inr () \<and> distinct (map fst (jn_tasks j)) \<and> distinct (map fst (jn_receipts j))"

definition no_completed :: "journal \<Rightarrow> bool" where
  "no_completed j \<longleftrightarrow> list_all (\<lambda>(k, t). tk_status t \<noteq> TaskCompleted) (jn_tasks j)"

text \<open>The parameters of the invariant: the hash functions, the settings, and whether the rendering of
  views fails with storage errors only.\<close>

definition same_world :: "cenv \<Rightarrow> (string \<Rightarrow> string) \<Rightarrow> (string \<Rightarrow> string) \<Rightarrow> cf_settings \<Rightarrow> bool" where
  "same_world env ck oid cfg \<longleftrightarrow> c_content_key env = ck \<and> object_id env cfg = oid"

definition spool_key :: "cf_settings \<Rightarrow> string \<Rightarrow> bool" where
  "spool_key cfg key = starts_with key (cf_prefix cfg)"

text \<open>The mail of a receipt is stored, and its archive is not in the spool.\<close>

definition receipt_ok :: "(string \<Rightarrow> string) \<Rightarrow> cf_settings \<Rightarrow> receipt \<Rightarrow> cevent list \<Rightarrow> bool" where
  "receipt_ok ck cfg r es \<longleftrightarrow> stored ck (rc_content_key r) es \<and> (\<forall>t. rc_archive_key r = Some t \<longrightarrow> \<not> spool_key cfg t)"

text \<open>An object in the spool that has a receipt is the imported one, and its cleanup is not recorded.\<close>

definition spooled_ok :: "(string \<Rightarrow> string) \<Rightarrow> receipt \<Rightarrow> r2_object \<Rightarrow> bool" where
  "spooled_ok ck r ob \<longleftrightarrow> \<not> rc_cleanup_complete r \<and> rc_content_key r = ck (ob_raw ob)"

definition gone :: "string \<Rightarrow> cworld \<Rightarrow> bool" where
  "gone key w \<longleftrightarrow> map_of (cw_bucket w) key = None"

text \<open>A receipt may be rewritten as long as it is for the same mail, and marked clean only when the object is gone.\<close>

definition revises :: "(string \<Rightarrow> string) \<Rightarrow> string \<Rightarrow> cworld \<Rightarrow> receipt \<Rightarrow> receipt \<Rightarrow> bool" where
  "revises oid o' w r' r \<longleftrightarrow> rc_content_key r' = rc_content_key r \<and> rc_archive_key r' = rc_archive_key r
     \<and> (rc_cleanup_complete r \<longrightarrow> rc_cleanup_complete r' \<or> (\<forall>key. o' = oid key \<longrightarrow> gone key w))"

lemma revises_refl [simp]: "revises oid o' w r r"
  by (simp add: revises_def)

definition receipts_ok :: "(string \<Rightarrow> string) \<Rightarrow> (string \<Rightarrow> string) \<Rightarrow> cf_settings \<Rightarrow> cworld \<Rightarrow> bool" where
  "receipts_ok ck oid cfg w \<longleftrightarrow> (\<forall>o' r. map_of (jn_receipts (disk_journal (cw_log w))) o' = Some r \<longrightarrow>
     receipt_ok ck cfg r (cw_log w) \<and> (\<exists>key. o' = oid key \<and> spool_key cfg key
       \<and> (\<forall>ob. map_of (cw_bucket w) key = Some ob \<longrightarrow> spooled_ok ck r ob)))"

definition published_ok :: "(string \<Rightarrow> string) \<Rightarrow> cevent list \<Rightarrow> bool" where
  "published_ok ck es \<longleftrightarrow> (\<forall>k. published ck k es \<longrightarrow>
     map_of (jn_tasks (disk_journal es)) k \<noteq> None \<or> concluded k es)"

definition marker_for :: "cworld \<Rightarrow> batch \<Rightarrow> bool" where
  "marker_for w b \<longleftrightarrow> map_of (cw_markers w) (bt_task_id b) \<noteq> None"

definition completion_ok :: "cworld \<Rightarrow> bool" where
  "completion_ok w \<longleftrightarrow> (let j = disk_journal (cw_log w) in
     (\<forall>k. completed_since k (cw_log w) \<longrightarrow> map_of (jn_tasks j) k = None
        \<or> (\<exists>b. jn_active j = Some b \<and> k \<in> set (bt_content_keys b) \<and> marker_for w b))
     \<and> (\<forall>b. jn_active j = Some b \<longrightarrow> marker_for w b \<longrightarrow> list_all (\<lambda>k. completed_since k (cw_log w)) (bt_content_keys b)))"

text \<open>What the index of a running pull knows was published or found.\<close>

definition index_ok :: "(string \<Rightarrow> string) \<Rightarrow> cworld \<Rightarrow> bool" where
  "index_ok ck w \<longleftrightarrow> (\<forall>k. map_of (ix_content (cw_index w)) k \<noteq> None \<longrightarrow> stored ck k (cw_log w))"

definition consumer_inv :: "bool \<Rightarrow> (string \<Rightarrow> string) \<Rightarrow> (string \<Rightarrow> string) \<Rightarrow> cf_settings \<Rightarrow> cworld \<Rightarrow> bool" where
  "consumer_inv rend ck oid cfg w \<longleftrightarrow> cw_journal w = file_of (cw_log w)
     \<and> journal_ok (disk_journal (cw_log w)) \<and> no_completed (disk_journal (cw_log w))
     \<and> receipts_ok ck oid cfg w \<and> (rend \<longrightarrow> published_ok ck (cw_log w))
     \<and> completion_ok w \<and> index_ok ck w \<and> history_ok ck oid (cw_log w)"

text \<open>A journal in memory is the one on disk.\<close>

definition held :: "journal \<Rightarrow> cworld \<Rightarrow> bool" where
  "held j w \<longleftrightarrow> disk_journal (cw_log w) = j"

section \<open>What does not touch journal, spool and history\<close>

definition core :: "cworld \<Rightarrow> journal_file \<times> (string \<times> marker_file) list \<times> (string \<times> r2_object) list
    \<times> cevent list \<times> existing_index" where
  "core w = (cw_journal w, cw_markers w, cw_bucket w, cw_log w, cw_index w)"

lemma core_simps [simp]:
  "core (ctick w) = core w" "core (w\<lparr>cw_inputs := a\<rparr>) = core w" "core (w\<lparr>cw_meta := b\<rparr>) = core w"
  "core (w\<lparr>cw_cache := c\<rparr>) = core w" "core (w\<lparr>cw_triage := d\<rparr>) = core w" "core (w\<lparr>cw_disposed := g\<rparr>) = core w"
  "core (w\<lparr>cw_warnings := h\<rparr>) = core w"
  by (simp_all add: core_def ctick_def)

lemma ctick_simps [simp]:
  "cw_journal (ctick w) = cw_journal w" "cw_markers (ctick w) = cw_markers w" "cw_bucket (ctick w) = cw_bucket w"
  "cw_log (ctick w) = cw_log w" "cw_index (ctick w) = cw_index w" "cw_eml (ctick w) = cw_eml w"
  by (simp_all add: ctick_def)

lemma clog_simps [simp]:
  "cw_journal (clog e w) = cw_journal w" "cw_markers (clog e w) = cw_markers w" "cw_bucket (clog e w) = cw_bucket w"
  "cw_log (clog e w) = e # cw_log w" "cw_index (clog e w) = cw_index w" "cw_eml (clog e w) = cw_eml w"
  by (simp_all add: clog_def)

lemma hoare_cdisk:
  assumes "\<And>w. P w \<Longrightarrow> Q () (f (ctick w))"
    and "\<And>w m. P w \<Longrightarrow> E (app_error_io ctxt m) (ctick w) \<and> E (app_error_io ctxt m) (f (ctick w))"
    and "\<And>w. P w \<Longrightarrow> C (ctick w) \<and> C (f (ctick w))"
  shows "hoare P (cdisk env ctxt f) Q E C"
  using assms by (auto simp: hoare_def cdisk_def split: disk_event.splits)

lemma hoare_cnet:
  assumes "\<And>w. P w \<Longrightarrow> Q () (f (ctick w))" "\<And>w e. P w \<Longrightarrow> E e (ctick w) \<and> E e (f (ctick w))"
    and "\<And>w. P w \<Longrightarrow> C (ctick w) \<and> C (f (ctick w))"
  shows "hoare P (cnet env f) Q E C"
  using assms by (auto simp: hoare_def cnet_def split: net_event.splits)

locale core_pred =
  fixes I :: "cworld \<Rightarrow> bool"
  assumes same_core: "I w \<Longrightarrow> core w' = core w \<Longrightarrow> I w'"
begin

lemma keeps_disk: "(\<And>w. core (f w) = core w) \<Longrightarrow> keeps I (cdisk env ctxt f)"
  by (rule hoare_cdisk) (auto intro: same_core)

lemma keeps_read: "keeps I (cread env ctxt)"
  by (rule keeps_disk) simp

lemma keeps_ask: "keeps I (cask rep)"
  unfolding hoare_def cask_def by (auto split: reply.splits intro: same_core)

lemma keeps_ask_res: "keeps I (cask_res rep)"
  unfolding cask_res_def by (rule keeps_ask)

lemma keeps_modify: "(\<And>w. core (f w) = core w) \<Longrightarrow> keeps I (modify f)"
  unfolding hoare_def modify_def by (auto intro: same_core)

lemma keeps_epoch: "keeps I (epoch env)"
  unfolding epoch_def by (rule keeps_gets)

lemmas core_rules = hoare_rules keeps_read keeps_ask keeps_ask_res keeps_epoch

lemma keeps_read_mail: "keeps I (read_mail env mid)"
  unfolding read_mail_def read_from_eml_def read_message_def with_status_def by (intro core_rules)

lemma keeps_write_metadata: "keeps I (write_metadata env mid md)"
  unfolding write_metadata_def by (intro core_rules keeps_disk) simp

lemma keeps_persist: "keeps I (persist_message_metadata env m)"
  unfolding persist_message_metadata_def by (intro core_rules keeps_write_metadata)

lemma keeps_merge_delivery: "keeps I (merge_message_delivery env mid d)"
  unfolding merge_message_delivery_def
  by (intro core_rules keeps_case_option) (intro core_rules keeps_write_metadata)+

lemma keeps_write_cache: "keeps I (write_cache env m)"
  unfolding write_cache_def by (intro core_rules keeps_disk) simp

lemma keeps_disposition: "keeps I (set_message_disposition env status mid)"
  unfolding set_message_disposition_def by (intro core_rules keeps_disk) simp_all

lemma keeps_warn: "keeps I (warn code)" "keeps I (warn_all codes)"
  unfolding warn_def warn_all_def by (rule keeps_modify, simp)+

end

lemma core_pred_conj: "core_pred I \<Longrightarrow> core_pred J \<Longrightarrow> core_pred (\<lambda>w. I w \<and> J w)"
  unfolding core_pred_def by blast

lemma core_pred_imp: "core_pred J \<Longrightarrow> core_pred (\<lambda>w. b \<longrightarrow> J w)"
  unfolding core_pred_def by blast

section \<open>Journal operations, functionally\<close>

lemma map_of_filter_distinct:
  "distinct (map fst m) \<Longrightarrow> map_of (filter P m) k = (case map_of m k of None \<Rightarrow> None
     | Some x \<Rightarrow> if P (k, x) then Some x else None)"
proof (induction m)
  case (Cons a m)
  then show ?case by (cases a) (auto simp: image_iff split: option.splits dest: map_of_SomeD)
qed simp

lemma distinct_filter_keys: "distinct (map fst m) \<Longrightarrow> distinct (map fst (filter P m))"
  by (induction m) auto

lemma no_completed_iff:
  "distinct (map fst (jn_tasks j)) \<Longrightarrow>
    no_completed j \<longleftrightarrow> (\<forall>k t. map_of (jn_tasks j) k = Some t \<longrightarrow> tk_status t \<noteq> TaskCompleted)"
  by (auto simp: no_completed_def list_all_iff)

declare map_of_eq_Some_iff [simp del]

lemma prune_simps [simp]: "jn_active (prune t j) = jn_active j" "no_completed (prune t j)"
  by (auto simp: prune_def no_completed_def list_all_iff)

lemma prune_tasks: "distinct (map fst (jn_tasks j)) \<Longrightarrow> map_of (jn_tasks (prune t j)) k
    = (case map_of (jn_tasks j) k of None \<Rightarrow> None | Some x \<Rightarrow> if tk_status x \<noteq> TaskCompleted then Some x else None)"
  by (simp add: prune_def map_of_filter_distinct split: option.splits)

lemma prune_tasks_same: "no_completed j \<Longrightarrow> jn_tasks (prune t j) = jn_tasks j"
  by (simp add: prune_def no_completed_def list_all_iff)

lemma prune_receipts: "distinct (map fst (jn_receipts j)) \<Longrightarrow>
    map_of (jn_receipts (prune t j)) k = Some r \<Longrightarrow> map_of (jn_receipts j) k = Some r"
  by (simp add: prune_def map_of_filter_distinct split: option.splits if_splits)

lemma prune_keeps_unclean: "distinct (map fst (jn_receipts j)) \<Longrightarrow> map_of (jn_receipts j) k = Some r \<Longrightarrow>
    \<not> rc_cleanup_complete r \<Longrightarrow> map_of (jn_receipts (prune t j)) k = Some r"
  by (simp add: prune_def map_of_filter_distinct)

definition batch_shape :: "batch \<Rightarrow> bool" where
  "batch_shape b \<longleftrightarrow> strip_prefix ''mail_'' (bt_task_id b) \<noteq> None \<and> length (bt_task_id b) \<le> 128
     \<and> list_all safe_id_char (bt_task_id b)"

lemma validate_active_iff: "validate_active j = Inr () \<longleftrightarrow> (\<forall>b. jn_active j = Some b \<longrightarrow>
    batch_shape b \<and> bt_content_keys b \<noteq> [] \<and> distinct (bt_content_keys b) \<and> list_all (pending_task j) (bt_content_keys b))"
  by (auto simp: validate_active_def batch_shape_def split: option.splits)

lemma pending_task_iff: "pending_task j k \<longleftrightarrow> map_option tk_status (map_of (jn_tasks j) k) = Some TaskPending"
  by (simp add: pending_task_def split: option.splits)

lemma journal_okD:
  assumes "journal_ok j" "jn_active j = Some b"
  shows "batch_shape b" "bt_content_keys b \<noteq> []" "distinct (bt_content_keys b)"
    "k \<in> set (bt_content_keys b) \<Longrightarrow> map_option tk_status (map_of (jn_tasks j) k) = Some TaskPending"
  using assms by (auto simp: journal_ok_def validate_active_iff list_all_iff pending_task_iff)

lemma journal_ok_distinct: "journal_ok j \<Longrightarrow> distinct (map fst (jn_tasks j)) \<and> distinct (map fst (jn_receipts j))"
  by (simp add: journal_ok_def)

lemma journal_ok_prune:
  assumes "journal_ok j"
  shows "journal_ok (prune t j)"
proof -
  have "pending_task (prune t j) x" if "pending_task j x" for x
    using that journal_ok_distinct [OF assms] by (auto simp: pending_task_def prune_tasks split: option.splits)
  moreover have "distinct (map fst (jn_tasks (prune t j))) \<and> distinct (map fst (jn_receipts (prune t j)))"
    using journal_ok_distinct [OF assms] by (simp add: prune_def distinct_filter_keys)
  ultimately show ?thesis using assms by (auto simp: journal_ok_def validate_active_iff list_all_iff)
qed

lemma journal_ok_default: "journal_ok default_journal" "no_completed default_journal"
  by (simp_all add: journal_ok_def default_journal_def validate_active_def no_completed_def)

text \<open>A change of one task that is not pending, or of receipts.\<close>

lemma journal_ok_task:
  assumes "journal_ok j" "\<not> pending_task j k" "distinct (map fst ts)" "\<And>x. x \<noteq> k \<Longrightarrow> map_of ts x = map_of (jn_tasks j) x"
  shows "journal_ok (j\<lparr>jn_tasks := ts\<rparr>)"
proof -
  have "pending_task (j\<lparr>jn_tasks := ts\<rparr>) x" if "pending_task j x" for x
    using assms(2,4) that by (cases "x = k") (auto simp: pending_task_def)
  then show ?thesis using assms(1,3) by (auto simp: journal_ok_def validate_active_iff list_all_iff)
qed

lemma journal_ok_receipts: "journal_ok j \<Longrightarrow> distinct (map fst rs) \<Longrightarrow> journal_ok (j\<lparr>jn_receipts := rs\<rparr>)"
  by (auto simp: journal_ok_def validate_active_iff list_all_iff pending_task_def)

lemma complete_tasks_map: "map_of (jn_tasks (complete_tasks keys j)) k
    = map_option (\<lambda>t. if k \<in> set keys then t\<lparr>tk_status := TaskCompleted\<rparr> else t) (map_of (jn_tasks j) k)"
proof -
  have "map_of (map (\<lambda>(k, t). (k, if k \<in> set keys then t\<lparr>tk_status := TaskCompleted\<rparr> else t)) ts) k
      = map_option (\<lambda>t. if k \<in> set keys then t\<lparr>tk_status := TaskCompleted\<rparr> else t) (map_of ts k)" for ts
    by (induction ts) auto
  then show ?thesis by (simp add: complete_tasks_def)
qed

lemma complete_tasks_simps [simp]: "jn_active (complete_tasks keys j) = None"
  "jn_receipts (complete_tasks keys j) = jn_receipts j"
  "map fst (jn_tasks (complete_tasks keys j)) = map fst (jn_tasks j)"
  by (auto simp: complete_tasks_def)

lemma journal_ok_complete: "journal_ok j \<Longrightarrow> journal_ok (complete_tasks keys j)"
  by (auto simp: journal_ok_def validate_active_iff)

section \<open>The invariant and the single events\<close>

lemma disk_journal_cons [simp]: "disk_journal [] = default_journal" "disk_journal (Saved j # es) = j"
  "disk_journal (Published m r # es) = disk_journal es" "disk_journal (Found m r # es) = disk_journal es"
  "disk_journal (Removed x r # es) = disk_journal es" "disk_journal (Copied x y # es) = disk_journal es"
  "disk_journal (Started t ks # es) = disk_journal es" "disk_journal (MarkerDone t ks # es) = disk_journal es"
  "disk_journal (Dropped k # es) = disk_journal es" "disk_journal (Settled as rs # es) = disk_journal es"
  by (simp_all add: disk_journal_def)

lemma file_of_cons [simp]: "file_of (Saved j # es) = JournalDoc ''cloudflare_consumer'' JOURNAL_SCHEMA_VERSION j"
  "file_of (Published m r # es) = file_of es" "file_of (Found m r # es) = file_of es"
  "file_of (Removed x r # es) = file_of es" "file_of (Copied x y # es) = file_of es"
  "file_of (Started t ks # es) = file_of es" "file_of (MarkerDone t ks # es) = file_of es"
  "file_of (Dropped k # es) = file_of es" "file_of (Settled as rs # es) = file_of es"
  by (simp_all add: file_of_def)

lemma stored_cons: "stored ck k es \<Longrightarrow> stored ck k (e # es)"
  by (auto simp: stored_def)

lemma receipt_ok_cons: "receipt_ok ck cfg r es \<Longrightarrow> receipt_ok ck cfg r (e # es)"
  by (auto simp: receipt_ok_def stored_cons)

lemma concluded_cons: "concluded k es \<Longrightarrow> concluded k (e # es)"
  by (auto simp: concluded_def handled_def)

lemma completed_concluded: "completed_since k es \<Longrightarrow> concluded k es"
proof (induction k es rule: completed_since.induct)
  case (2 k tid ks es)
  then show ?case by (auto simp: concluded_def handled_def)
qed (auto intro: concluded_cons)

lemma published_cons [simp]:
  "published ck k (Published m r # es) \<longleftrightarrow> ck r = k \<or> published ck k es"
  "published ck k (Saved j # es) \<longleftrightarrow> published ck k es" "published ck k (Found m r # es) \<longleftrightarrow> published ck k es"
  "published ck k (Removed x r # es) \<longleftrightarrow> published ck k es" "published ck k (Copied x y # es) \<longleftrightarrow> published ck k es"
  "published ck k (Started t ks # es) \<longleftrightarrow> published ck k es" "published ck k (MarkerDone t ks # es) \<longleftrightarrow> published ck k es"
  "published ck k (Dropped d # es) \<longleftrightarrow> published ck k es" "published ck k (Settled as rs # es) \<longleftrightarrow> published ck k es"
  by (auto simp: published_def)

lemma consumer_invD:
  assumes "consumer_inv rend ck oid cfg w"
  shows "cw_journal w = file_of (cw_log w)" "journal_ok (disk_journal (cw_log w))"
    "no_completed (disk_journal (cw_log w))" "receipts_ok ck oid cfg w" "rend \<Longrightarrow> published_ok ck (cw_log w)"
    "completion_ok w" "history_ok ck oid (cw_log w)" "index_ok ck w"
  using assms unfolding consumer_inv_def by blast+

lemma receipts_okD:
  assumes "receipts_ok ck oid cfg w" "map_of (jn_receipts (disk_journal (cw_log w))) o' = Some r"
  shows "receipt_ok ck cfg r (cw_log w)" "\<exists>key. o' = oid key \<and> spool_key cfg key \<and>
    (\<forall>ob. map_of (cw_bucket w) key = Some ob \<longrightarrow> spooled_ok ck r ob)"
  using assms unfolding receipts_ok_def by meson+

lemma consumer_inv_core: "core_pred (consumer_inv rend ck oid cfg)"
  unfolding core_pred_def consumer_inv_def receipts_ok_def completion_ok_def marker_for_def index_ok_def core_def by auto

lemma held_core: "core_pred (held j)"
  by (simp add: core_pred_def held_def core_def)

lemma published_ok_grow:
  "published_ok ck es \<Longrightarrow> disk_journal (e # es) = disk_journal es \<Longrightarrow>
    (\<And>k. published ck k (e # es) \<Longrightarrow> published ck k es) \<Longrightarrow> published_ok ck (e # es)"
  unfolding published_ok_def by (metis concluded_cons)

lemma receipts_ok_grow:
  assumes "receipts_ok ck oid cfg w" "disk_journal (cw_log w') = disk_journal (cw_log w)" "cw_log w' = e # cw_log w"
    and "\<And>key ob. spool_key cfg key \<Longrightarrow> map_of (cw_bucket w') key = Some ob \<Longrightarrow> map_of (cw_bucket w) key = Some ob"
  shows "receipts_ok ck oid cfg w'"
  unfolding receipts_ok_def
proof (intro allI impI)
  fix o' r
  assume "map_of (jn_receipts (disk_journal (cw_log w'))) o' = Some r"
  then have "map_of (jn_receipts (disk_journal (cw_log w))) o' = Some r" by (simp only: assms(2))
  then show "receipt_ok ck cfg r (cw_log w') \<and> (\<exists>key. o' = oid key \<and> spool_key cfg key
      \<and> (\<forall>ob. map_of (cw_bucket w') key = Some ob \<longrightarrow> spooled_ok ck r ob))"
    using receipts_okD [OF assms(1)] assms(4) unfolding assms(3) by (meson receipt_ok_cons)
qed

text \<open>What an event other than a write of the journal has to show.\<close>

lemma inv_event:
  assumes inv: "consumer_inv rend ck oid cfg w" and e: "cw_log w' = e # cw_log w" "cw_journal w' = cw_journal w"
      "cw_index w' = cw_index w"
      "disk_journal (e # cw_log w) = disk_journal (cw_log w)" "file_of (e # cw_log w) = file_of (cw_log w)"
    and b: "\<And>key ob. spool_key cfg key \<Longrightarrow> map_of (cw_bucket w') key = Some ob \<Longrightarrow> map_of (cw_bucket w) key = Some ob"
    and p: "\<And>k. rend \<Longrightarrow> published ck k (e # cw_log w) \<Longrightarrow>
      published ck k (cw_log w) \<or> map_of (jn_tasks (disk_journal (cw_log w))) k \<noteq> None"
    and c: "completion_ok w'" and h: "history_ok ck oid (e # cw_log w)"
  shows "consumer_inv rend ck oid cfg w'"
proof -
  have "receipts_ok ck oid cfg w'"
    by (rule receipts_ok_grow [OF consumer_invD(4) [OF inv] _ e(1) b]) (simp_all only: e)
  moreover have "index_ok ck w'"
    using consumer_invD(8) [OF inv] unfolding index_ok_def e(1,3) by (meson stored_cons)
  moreover have "published_ok ck (e # cw_log w)" if "rend"
    using consumer_invD(5) [OF inv that] p [OF that] unfolding published_ok_def e(4) by (meson concluded_cons)
  ultimately show ?thesis
    using consumer_invD(1-3) [OF inv] c h unfolding consumer_inv_def e(1) e(2) e(4) e(5) by blast
qed

lemma completion_note:
  assumes "completion_ok w" "disk_journal (cw_log w') = disk_journal (cw_log w)" "cw_markers w' = cw_markers w"
    and "\<And>k. completed_since k (cw_log w') = completed_since k (cw_log w)"
  shows "completion_ok w'"
  using assms by (simp add: completion_ok_def marker_for_def)

lemma inv_note:
  assumes "consumer_inv rend ck oid cfg w" "e = Found mid raw \<or> e = Settled as rs \<or> e = Dropped key"
  shows "consumer_inv rend ck oid cfg (clog e w)"
  by (rule inv_event [OF assms(1)], insert assms(2) consumer_invD(6,7) [OF assms(1)])
    (auto elim!: completion_note)

lemma inv_publish:
  assumes "consumer_inv rend ck oid cfg w" "rend \<Longrightarrow> map_of (jn_tasks (disk_journal (cw_log w))) (ck raw) \<noteq> None"
  shows "consumer_inv rend ck oid cfg (clog (Published mid raw) (w\<lparr>cw_eml := m\<rparr>))"
  by (rule inv_event [OF assms(1)], insert assms(2) consumer_invD(6,7) [OF assms(1)])
    (auto elim!: completion_note)

lemma inv_copy:
  assumes "consumer_inv rend ck oid cfg w" "\<not> spool_key cfg target"
  shows "consumer_inv rend ck oid cfg (copy_object key target w)"
proof (cases "map_of (cw_bucket w) key")
  case (Some ob)
  have "consumer_inv rend ck oid cfg (clog (Copied key target) (w\<lparr>cw_bucket := put target ob (cw_bucket w)\<rparr>))"
    by (rule inv_event [OF assms(1)], insert assms(2) consumer_invD(6,7) [OF assms(1)])
      (auto elim!: completion_note split: if_splits)
  with Some show ?thesis by (simp add: copy_object_def)
qed (use assms in \<open>simp add: copy_object_def\<close>)

lemma inv_remove:
  assumes inv: "consumer_inv rend ck oid cfg w" and inj: "inj oid"
    and "map_of (jn_receipts (disk_journal (cw_log w))) (oid key) \<noteq> None"
  shows "consumer_inv rend ck oid cfg (remove_object key w)"
proof (cases "map_of (cw_bucket w) key")
  case (Some ob)
  obtain r where r: "map_of (jn_receipts (disk_journal (cw_log w))) (oid key) = Some r" using assms(3) by blast
  note k = receipts_okD [OF consumer_invD(4) [OF inv] r]
  have "rc_content_key r = ck (ob_raw ob)" using k(2) Some by (auto simp: spooled_ok_def dest: injD [OF inj])
  then have "removed_ok ck oid key (ob_raw ob) (cw_log w)" using k(1) r by (simp add: removed_ok_def receipt_ok_def)
  then have "consumer_inv rend ck oid cfg (clog (Removed key (ob_raw ob)) (w\<lparr>cw_bucket := remove key (cw_bucket w)\<rparr>))"
    by (intro inv_event [OF inv], insert consumer_invD(6,7) [OF inv])
      (auto elim!: completion_note split: if_splits)
  with Some show ?thesis by (simp add: remove_object_def)
qed (use assms in \<open>simp add: remove_object_def\<close>)

lemma inv_start:
  assumes "consumer_inv rend ck oid cfg w" "started_ok tid ks (cw_log w)"
  shows "consumer_inv rend ck oid cfg (clog (Started tid ks) w)"
  by (rule inv_event [OF assms(1)], insert assms(2) consumer_invD(6,7) [OF assms(1)])
    (auto elim!: completion_note)

lemma inv_marker:
  assumes inv: "consumer_inv rend ck oid cfg w" and b: "jn_active (disk_journal (cw_log w)) = Some b"
    and "bt_task_id b = tid" "bt_content_keys b = ks"
  shows "consumer_inv rend ck oid cfg (clog (MarkerDone tid ks) (w\<lparr>cw_markers := put tid m (cw_markers w)\<rparr>))"
    (is "consumer_inv _ _ _ _ ?w")
proof -
  have "completion_ok ?w"
    using consumer_invD(6) [OF inv] assms(2-4)
    by (auto simp: completion_ok_def marker_for_def Let_def list_all_iff)
  then show ?thesis
    by (rule inv_event [OF inv, where e = "MarkerDone tid ks", rotated -2]) (simp_all add: consumer_invD(7) [OF inv])
qed

lemma inv_unmark:
  assumes inv: "consumer_inv rend ck oid cfg w"
    and "\<And>b. jn_active (disk_journal (cw_log w)) = Some b \<Longrightarrow> bt_task_id b \<noteq> tid"
  shows "consumer_inv rend ck oid cfg (w\<lparr>cw_markers := remove tid (cw_markers w)\<rparr>)"
proof -
  have "completion_ok (w\<lparr>cw_markers := remove tid (cw_markers w)\<rparr>)"
    using consumer_invD(6) [OF inv] assms(2) unfolding completion_ok_def marker_for_def Let_def by simp blast
  then show ?thesis using inv unfolding consumer_inv_def receipts_ok_def index_ok_def by simp
qed

lemma inv_save:
  assumes inv: "consumer_inv rend ck oid cfg w" and ok: "journal_ok j" "no_completed j"
    and receipts: "\<And>o' r. map_of (jn_receipts j) o' = Some r \<Longrightarrow>
      (\<exists>r'. map_of (jn_receipts (disk_journal (cw_log w))) o' = Some r' \<and> revises oid o' w r' r)
      \<or> receipt_ok ck cfg r (cw_log w) \<and> (\<exists>key ob. o' = oid key \<and> spool_key cfg key
          \<and> map_of (cw_bucket w) key = Some ob \<and> spooled_ok ck r ob)"
    and tasks: "\<And>k. rend \<Longrightarrow> published ck k (cw_log w) \<Longrightarrow> map_of (jn_tasks (disk_journal (cw_log w))) k \<noteq> None
      \<Longrightarrow> map_of (jn_tasks j) k \<noteq> None \<or> concluded k (cw_log w)"
    and reopened: "\<And>k t. completed_since k (cw_log w) \<Longrightarrow> map_of (jn_tasks j) k = Some t \<Longrightarrow>
      tk_status t \<noteq> TaskPreparing \<Longrightarrow> \<exists>b. jn_active j = Some b \<and> k \<in> set (bt_content_keys b) \<and> marker_for w b"
    and active: "\<And>b k. jn_active j = Some b \<Longrightarrow> marker_for w b \<Longrightarrow> k \<in> set (bt_content_keys b) \<Longrightarrow> completed_since k (cw_log w)"
  shows "consumer_inv rend ck oid cfg (write_journal j w)"
proof -
  let ?d = "disk_journal (cw_log w)"
  have "receipts_ok ck oid cfg (write_journal j w)"
    unfolding receipts_ok_def
  proof (intro allI impI)
    fix o' r
    assume "map_of (jn_receipts (disk_journal (cw_log (write_journal j w)))) o' = Some r"
    then have "map_of (jn_receipts j) o' = Some r" by (simp add: write_journal_def)
    from receipts [OF this] show "receipt_ok ck cfg r (cw_log (write_journal j w)) \<and> (\<exists>key. o' = oid key
        \<and> spool_key cfg key \<and> (\<forall>ob. map_of (cw_bucket (write_journal j w)) key = Some ob \<longrightarrow> spooled_ok ck r ob))"
    proof
      assume "\<exists>r'. map_of (jn_receipts ?d) o' = Some r' \<and> revises oid o' w r' r"
      then obtain r' where r': "map_of (jn_receipts ?d) o' = Some r'"
        and same: "revises oid o' w r' r" by blast
      from receipts_okD [OF consumer_invD(4) [OF inv] r'] same show ?thesis
        by (auto simp: write_journal_def receipt_ok_def stored_cons revises_def spooled_ok_def gone_def)
    qed (auto simp: write_journal_def receipt_ok_cons)
  qed
  moreover have "published_ok ck (cw_log (write_journal j w))" if "rend"
    using consumer_invD(5) [OF inv that] tasks [OF that] unfolding published_ok_def
    by (simp add: write_journal_def) (meson concluded_cons)
  moreover have "completion_ok (write_journal j w)"
    unfolding completion_ok_def Let_def
  proof (intro conjI allI impI)
    fix k
    assume "completed_since k (cw_log (write_journal j w))"
    then have c: "completed_since k (cw_log w)" "map_option tk_status (map_of (jn_tasks j) k) \<noteq> Some TaskPreparing"
      by (simp_all add: write_journal_def)
    show "map_of (jn_tasks (disk_journal (cw_log (write_journal j w)))) k = None \<or>
        (\<exists>b. jn_active (disk_journal (cw_log (write_journal j w))) = Some b \<and> k \<in> set (bt_content_keys b)
          \<and> marker_for (write_journal j w) b)"
      using reopened [OF c(1)] c(2) by (cases "map_of (jn_tasks j) k") (auto simp: write_journal_def marker_for_def)
  next
    fix b
    assume "jn_active (disk_journal (cw_log (write_journal j w))) = Some b" "marker_for (write_journal j w) b"
    then have b: "jn_active j = Some b" "marker_for w b" by (simp_all add: write_journal_def marker_for_def)
    show "list_all (\<lambda>k. completed_since k (cw_log (write_journal j w))) (bt_content_keys b)"
      using active [OF b] journal_okD(4) [OF ok(1) b(1)] by (fastforce simp: list_all_iff write_journal_def)
  qed
  moreover have "index_ok ck (write_journal j w)"
    using consumer_invD(8) [OF inv] by (auto simp: index_ok_def write_journal_def intro: stored_cons)
  ultimately show ?thesis
    using consumer_invD(7) [OF inv] ok unfolding consumer_inv_def by (simp add: write_journal_def)
qed

end
