(* ===== verification/Consumer_Import.thy ===== *)
theory Consumer_Import
  imports Consumer_Safety
begin

text \<open>
  The invariant of the consumer through loading, saving, importing and pulling: every operation of
  a pull keeps it wherever it fails or is killed, and a pull removes an object from the spool only
  when its mail is stored and its receipt is on disk.
\<close>

section \<open>Rules\<close>

interpretation inv: core_pred "consumer_inv rend ck oid cfg" for rend ck oid cfg
  by (rule consumer_inv_core)

interpretation held: core_pred "held j" for j
  by (rule held_core)

lemma keeps_to:
  "keeps J m \<Longrightarrow> (\<And>s. P s \<Longrightarrow> J s) \<Longrightarrow> (\<And>e s. J s \<Longrightarrow> E e s) \<Longrightarrow> (\<And>s. J s \<Longrightarrow> C s) \<Longrightarrow> hoare P m (\<lambda>_. J) E C"
  by (erule hoare_weaken)

lemma hoare_bind_gets:
  "(\<And>x. hoare (\<lambda>s. P s \<and> f s = x) (g x) Q E C) \<Longrightarrow> hoare P (bind_io (gets f) g) Q E C"
  by (auto simp: hoare_def bind_io_def gets_def)

lemma hoare_ret': "(\<And>s. P s \<Longrightarrow> Q a s) \<Longrightarrow> hoare P (ret a) Q E C"
  by (simp add: hoare_def ret_def)

lemma hoare_fail': "(\<And>s. P s \<Longrightarrow> E e s) \<Longrightarrow> hoare P (fail e) Q E C"
  by (simp add: hoare_def fail_def)

lemma hoare_modify': "(\<And>s. P s \<Longrightarrow> Q () (f s)) \<Longrightarrow> hoare P (modify f) Q E C"
  by (simp add: hoare_def modify_def)

lemma hoare_ex:
  assumes "\<And>x. hoare (P x) m Q E C"
  shows "hoare (\<lambda>s. \<exists>x. P x s) m Q E C"
  using assms unfolding hoare_def by metis

lemma hoare_save:
  assumes "\<And>w t. P w \<Longrightarrow> Q (prune t j) (write_journal (prune t j) (ctick w))"
    and "\<And>w t e. P w \<Longrightarrow> E e (ctick w) \<and> E e (write_journal (prune t j) (ctick w))"
    and "\<And>w t. P w \<Longrightarrow> C (ctick w) \<and> C (write_journal (prune t j) (ctick w))"
  shows "hoare P (save_journal env j) Q E C"
  unfolding save_journal_def epoch_def then_io_def
proof (rule hoare_bind_gets)
  fix t
  show "hoare (\<lambda>s. P s \<and> c_epoch env (cw_tick s) = t)
      (bind_io (cdisk env ''write json'' (write_journal (prune t j))) (\<lambda>_. ret (prune t j))) Q E C"
    by (rule hoare_bind [where R = "\<lambda>_. Q (prune t j)"], rule hoare_cdisk) (use assms in \<open>auto intro: hoare_ret\<close>)
qed

lemma load_held:
  assumes P: "core_pred P" "\<And>w. P w \<Longrightarrow> cw_journal w = file_of (cw_log w)"
  shows "hoare P (load_journal env) (\<lambda>j w. P w \<and> held j w) (\<lambda>_. P) P"
  unfolding load_journal_def
proof (rule hoare_then [where R = P])
  show "keeps P (cread env ''read consumer journal'')" by (rule core_pred.keeps_read [OF P(1)])
  show "hoare P (bind_io (gets cw_journal) (\<lambda>f. case f of
     NoJournal \<Rightarrow> ret default_journal
   | BadJournal \<Rightarrow> fail (err_journal_invalid ''Cloudflare consumer journal is invalid; restore it from a trusted backup'')
   | JournalDoc name version j \<Rightarrow>
       if name \<noteq> ''cloudflare_consumer'' \<or> version \<noteq> JOURNAL_SCHEMA_VERSION
       then fail (err_journal_invalid ''unsupported Cloudflare consumer journal schema'')
       else then_io (of_res (validate_active j)) (ret j))) (\<lambda>j w. P w \<and> held j w) (\<lambda>_. P) P"
    using P(2) by (auto simp: hoare_def bind_io_def then_io_def gets_def ret_def fail_def of_res_def held_def
        disk_journal_def file_of_def split: journal_file.splits option.splits sum.splits)
qed

section \<open>Saving during a pull\<close>

definition pulling :: "bool \<Rightarrow> (string \<Rightarrow> string) \<Rightarrow> (string \<Rightarrow> string) \<Rightarrow> cf_settings \<Rightarrow> journal \<Rightarrow> cworld \<Rightarrow> bool" where
  "pulling rend ck oid cfg j w \<longleftrightarrow> consumer_inv rend ck oid cfg w \<and> held j w"

definition at_key :: "string \<Rightarrow> r2_object \<Rightarrow> cworld \<Rightarrow> bool" where
  "at_key key ob w \<longleftrightarrow> map_of (cw_bucket w) key = Some ob"

text \<open>A removal may be undone only when nothing depends on the task.\<close>

definition settled :: "bool \<Rightarrow> (string \<Rightarrow> string) \<Rightarrow> string \<Rightarrow> cworld \<Rightarrow> bool" where
  "settled rend ck k w \<longleftrightarrow> (rend \<longrightarrow> published ck k (cw_log w) \<longrightarrow> concluded k (cw_log w))"

lemma pulling_core: "core_pred (pulling rend ck oid cfg j)"
  unfolding pulling_def by (intro core_pred_conj consumer_inv_core held_core)

lemma at_key_core: "core_pred (at_key key ob)" "core_pred (settled rend ck k)"
  by (simp_all add: core_pred_def at_key_def settled_def core_def)

lemma pullingD: "pulling rend ck oid cfg j w \<Longrightarrow> consumer_inv rend ck oid cfg w"
  by (simp add: pulling_def)

lemma pulling_journal:
  assumes "pulling rend ck oid cfg j w"
  shows "disk_journal (cw_log w) = j" "journal_ok j" "no_completed j"
  using assms consumer_invD(2,3) [of rend ck oid cfg w] by (auto simp: pulling_def held_def)

lemma inv_ctick [simp]: "consumer_inv rend ck oid cfg (ctick w) = consumer_inv rend ck oid cfg w"
  using inv.same_core [of rend ck oid cfg w "ctick w"] inv.same_core [of rend ck oid cfg "ctick w" w] by auto

lemma write_journal_simps [simp]:
  "cw_log (write_journal j w) = Saved j # cw_log w" "cw_index (write_journal j w) = cw_index w"
  "cw_bucket (write_journal j w) = cw_bucket w" "cw_markers (write_journal j w) = cw_markers w"
  by (simp_all add: write_journal_def)

lemma pulling_save:
  assumes "pulling rend ck oid cfg j w" "consumer_inv rend ck oid cfg (write_journal j' w)"
  shows "pulling rend ck oid cfg j' (write_journal j' w)"
  using assms by (simp add: pulling_def held_def)

lemma settled_save: "settled rend ck k w \<Longrightarrow> settled rend ck k (write_journal j' w)"
  by (auto simp: settled_def intro: concluded_cons)

text \<open>A save that changes one task which is not pending, or none, and leaves the active batch.\<close>

lemma inv_save_task:
  assumes inv: "consumer_inv rend ck oid cfg w" and d: "disk_journal (cw_log w) = d"
    and ok: "journal_ok j" "no_completed j" and act: "jn_active j = jn_active d"
    and other: "\<And>x. x \<noteq> k \<Longrightarrow> map_of (jn_tasks j) x = map_of (jn_tasks d) x"
    and k: "\<not> pending_task d k"
    and pub: "rend \<Longrightarrow> published ck k (cw_log w) \<Longrightarrow> map_of (jn_tasks d) k \<noteq> None \<Longrightarrow>
      map_of (jn_tasks j) k \<noteq> None \<or> concluded k (cw_log w)"
    and fresh: "\<And>t. map_of (jn_tasks d) k = None \<Longrightarrow> map_of (jn_tasks j) k = Some t \<Longrightarrow> tk_status t = TaskPreparing"
    and receipts: "\<And>o' r. map_of (jn_receipts j) o' = Some r \<Longrightarrow>
      (\<exists>r'. map_of (jn_receipts d) o' = Some r' \<and> revises oid o' w r' r)
      \<or> receipt_ok ck cfg r (cw_log w) \<and> (\<exists>key ob. o' = oid key \<and> spool_key cfg key
          \<and> map_of (cw_bucket w) key = Some ob \<and> spooled_ok ck r ob)"
  shows "consumer_inv rend ck oid cfg (write_journal j w)"
proof (rule inv_save [OF inv ok], goal_cases)
  case (1 o' r)
  then show ?case unfolding d by (rule receipts)
next
  case (2 x)
  then show ?case using pub other by (cases "x = k") (auto simp: d)
next
  case (3 x t)
  have "map_of (jn_tasks d) x = None \<or> (\<exists>b. jn_active d = Some b \<and> x \<in> set (bt_content_keys b) \<and> marker_for w b)"
    using consumer_invD(6) [OF inv] 3(1) by (simp add: completion_ok_def Let_def d)
  moreover have "map_of (jn_tasks d) x \<noteq> None" using 3(2,3) other fresh by (cases "x = k") auto
  ultimately show ?case using act by auto
next
  case (4 b x)
  then show ?case using consumer_invD(6) [OF inv] act by (auto simp: completion_ok_def Let_def d list_all_iff)
qed

text \<open>The saves of a pull, each as a rule that yields the journal it leaves.\<close>

lemma pulling_save_task:
  assumes p: "pulling rend ck oid cfg j w" and ok: "journal_ok j'" "no_completed j'" and act: "jn_active j' = jn_active j"
    and other: "\<And>x. x \<noteq> k \<Longrightarrow> map_of (jn_tasks j') x = map_of (jn_tasks j) x" and k: "\<not> pending_task j k"
    and pub: "map_of (jn_tasks j) k \<noteq> None \<Longrightarrow> map_of (jn_tasks j') k \<noteq> None \<or> settled rend ck k w"
    and fresh: "\<And>t. map_of (jn_tasks j) k = None \<Longrightarrow> map_of (jn_tasks j') k = Some t \<Longrightarrow> tk_status t = TaskPreparing"
    and receipts: "\<And>o' r. map_of (jn_receipts j') o' = Some r \<Longrightarrow>
      (\<exists>r'. map_of (jn_receipts j) o' = Some r' \<and> revises oid o' w r' r)
      \<or> receipt_ok ck cfg r (cw_log w) \<and> (\<exists>key ob. o' = oid key \<and> spool_key cfg key
          \<and> map_of (cw_bucket w) key = Some ob \<and> spooled_ok ck r ob)"
  shows "pulling rend ck oid cfg (prune t j') (write_journal (prune t j') (ctick w))"
proof -
  have p': "pulling rend ck oid cfg j (ctick w)" by (rule core_pred.same_core [OF pulling_core p]) simp
  note d = pulling_journal [OF p']
  have same: "jn_tasks (prune t j') = jn_tasks j'" by (rule prune_tasks_same [OF ok(2)])
  have "consumer_inv rend ck oid cfg (write_journal (prune t j') (ctick w))"
  proof (rule inv_save_task [OF pullingD [OF p'] d(1) journal_ok_prune [OF ok(1)] _ _ _ k], goal_cases)
    case 4
    then show ?case using pub by (auto simp: same settled_def)
  next
    case (6 o' r)
    from prune_receipts [OF _ 6] show ?case
      using receipts [of o' r] journal_ok_distinct [OF ok(1)] by (simp add: revises_def gone_def)
  qed (use act other fresh in \<open>simp_all add: same\<close>)
  then show ?thesis by (rule pulling_save [OF p'])
qed

lemma prepare_rule:
  fixes env raw j
  defines "k \<equiv> c_content_key env raw"
  shows "hoare (\<lambda>w. pulling rend ck oid cfg j w \<and> at_key key ob w) (prepare env raw j)
    (\<lambda>(p, j') w. pulling rend ck oid cfg j' w \<and> at_key key ob w
      \<and> (map_of (jn_tasks j') k \<noteq> None \<or> map_of (ix_content (cw_index w)) k \<noteq> None) \<and> (p \<longrightarrow> settled rend ck k w))
    (\<lambda>_. consumer_inv rend ck oid cfg) (consumer_inv rend ck oid cfg)"
  unfolding prepare_def k_def [symmetric] Let_def
proof (rule hoare_bind_gets, rule hoare_if, goal_cases)
  case (1 ix)
  let ?j = "j\<lparr>jn_tasks := put k \<lparr>tk_message_id = c_message_id env raw, tk_status = TaskPreparing\<rparr> (jn_tasks j)\<rparr>"
  let ?P = "\<lambda>w. (pulling rend ck oid cfg j w \<and> at_key key ob w) \<and> cw_index w = ix"
  have step: "pulling rend ck oid cfg (prune t ?j) (write_journal (prune t ?j) (ctick w))
      \<and> at_key key ob (write_journal (prune t ?j) (ctick w)) \<and> settled rend ck k (write_journal (prune t ?j) (ctick w))
      \<and> map_of (jn_tasks (prune t ?j)) k \<noteq> None \<and> consumer_inv rend ck oid cfg w" if P: "?P w" for w t
  proof -
    have p: "pulling rend ck oid cfg j w" using P by blast
    note d = pulling_journal [OF p]
    have ok: "journal_ok ?j"
      using 1 journal_ok_distinct [OF d(2)] by (intro journal_ok_task [OF d(2)]) (auto simp: pending_task_def intro: distinct_put)
    have nc: "no_completed ?j"
      using d(3) journal_ok_distinct [OF d(2)] by (auto simp: no_completed_iff distinct_put)
    have set: "settled rend ck k w"
      using consumer_invD(5) [OF pullingD [OF p]] 1 unfolding settled_def published_ok_def d(1) by blast
    have "pulling rend ck oid cfg (prune t ?j) (write_journal (prune t ?j) (ctick w))"
      by (rule pulling_save_task [OF p ok nc, where k = k]) (use 1 in \<open>auto simp: pending_task_def\<close>)
    moreover have "settled rend ck k (ctick w)" using set by (simp add: settled_def)
    ultimately show ?thesis
      using P settled_save pullingD [OF p] prune_tasks_same [OF nc] by (simp add: at_key_def)
  qed
  show ?case
    by (rule hoare_bind [where R = "\<lambda>j' w. pulling rend ck oid cfg j' w \<and> at_key key ob w \<and> settled rend ck k w
        \<and> map_of (jn_tasks j') k \<noteq> None"], rule hoare_save)
      (use step in \<open>auto intro!: hoare_ret' dest: pullingD\<close>)
next
  case (2 ix)
  then show ?case by (auto intro!: hoare_ret')
qed

lemma withdraw_rule:
  "hoare (\<lambda>w. pulling rend ck oid cfg j w \<and> settled rend ck k w) (withdraw env k j)
    (pulling rend ck oid cfg) (\<lambda>_. consumer_inv rend ck oid cfg) (consumer_inv rend ck oid cfg)"
  unfolding withdraw_def
proof (rule hoare_case_option, goal_cases)
  case (2 t)
  let ?j = "j\<lparr>jn_tasks := remove k (jn_tasks j)\<rparr>"
  have step: "pulling rend ck oid cfg (prune u ?j) (write_journal (prune u ?j) (ctick w))"
    if "tk_status t = TaskPreparing" "pulling rend ck oid cfg j w" "settled rend ck k w" for w u
  proof -
    note d = pulling_journal [OF that(2)]
    have k: "\<not> pending_task j k" using 2 that(1) by (simp add: pending_task_def)
    have ok: "journal_ok ?j"
      using journal_ok_distinct [OF d(2)] by (intro journal_ok_task [OF d(2) k]) (auto intro: distinct_remove)
    have nc: "no_completed ?j"
      using d(3) by (auto simp: no_completed_def list_all_iff set_remove)
    show ?thesis
      by (rule pulling_save_task [OF that(2) ok nc _ _ k]) (use that(3) in auto)
  qed
  show ?case
    by (rule hoare_if, rule hoare_save) (use step in \<open>auto dest: pullingD intro!: hoare_ret'\<close>)
qed (auto intro!: hoare_ret')

lemma some_key_not_pending: "\<exists>k. \<not> pending_task j k"
proof -
  have "finite {k. pending_task j k}"
    by (rule finite_subset [OF _ finite_dom_map_of [of "jn_tasks j"]]) (auto simp: pending_task_def split: option.splits)
  then have "{k. pending_task j k} \<noteq> UNIV" using infinite_UNIV_listI by metis
  then show ?thesis by blast
qed

lemma mark_imported_tasks:
  "jn_active (mark_imported r j) = jn_active j" "jn_receipts (mark_imported r j) = jn_receipts j"
  "x \<noteq> rc_content_key r \<Longrightarrow> map_of (jn_tasks (mark_imported r j)) x = map_of (jn_tasks j) x"
  "map_of (jn_tasks j) (rc_content_key r) = None \<Longrightarrow> mark_imported r j = j"
  "map_of (jn_tasks j) x \<noteq> None \<Longrightarrow> map_of (jn_tasks (mark_imported r j)) x \<noteq> None"
  by (auto simp: mark_imported_def split: option.splits)

lemma mark_imported_ok:
  assumes "journal_ok j" "no_completed j"
  shows "journal_ok (mark_imported r j)" "no_completed (mark_imported r j)"
proof -
  have d: "distinct (map fst (jn_tasks j))" using journal_ok_distinct [OF assms(1)] by blast
  show "journal_ok (mark_imported r j)"
    using assms(1) unfolding mark_imported_def
    by (auto split: option.split intro!: journal_ok_task [where k = "rc_content_key r"] distinct_put d simp: pending_task_def)
  show "no_completed (mark_imported r j)"
    using assms(2) d by (auto simp: mark_imported_def no_completed_iff distinct_put split: option.splits)
qed

lemma imported_rule:
  assumes r: "\<not> rc_cleanup_complete r" "rc_content_key r = ck (ob_raw ob)"
      "\<And>t. rc_archive_key r = Some t \<Longrightarrow> \<not> spool_key cfg t" and key: "spool_key cfg key"
  shows "hoare (\<lambda>w. pulling rend ck oid cfg j w \<and> at_key key ob w \<and> stored ck (ck (ob_raw ob)) (cw_log w))
    (imported env (oid key) r j)
    (\<lambda>j' w. pulling rend ck oid cfg j' w \<and> map_of (jn_receipts j') (oid key) \<noteq> None)
    (\<lambda>_. consumer_inv rend ck oid cfg) (consumer_inv rend ck oid cfg)"
proof -
  let ?m = "mark_imported r j"
  let ?j = "?m\<lparr>jn_receipts := put (oid key) r (jn_receipts ?m)\<rparr>"
  have step: "pulling rend ck oid cfg (prune t ?j) (write_journal (prune t ?j) (ctick w))
      \<and> map_of (jn_receipts (prune t ?j)) (oid key) \<noteq> None"
    if p: "pulling rend ck oid cfg j w" and at: "at_key key ob w" and st: "stored ck (ck (ob_raw ob)) (cw_log w)" for w t
  proof -
    note d = pulling_journal [OF p]
    note m = mark_imported_ok [OF d(2,3), of r]
    have dr: "distinct (map fst (put (oid key) r (jn_receipts ?m)))"
      using journal_ok_distinct [OF m(1)] by (simp add: distinct_put)
    have ok: "journal_ok ?j" by (rule journal_ok_receipts [OF m(1) dr])
    have nc: "no_completed ?j" using m(2) by (simp add: no_completed_def)
    have "pulling rend ck oid cfg (prune t ?j) (write_journal (prune t ?j) (ctick w))"
    proof (cases "pending_task j (rc_content_key r)")
      case True
      then have "?m = j" by (auto simp: mark_imported_def pending_task_def split: option.splits)
      moreover obtain k where "\<not> pending_task j k" using some_key_not_pending by blast
      ultimately show ?thesis
        using at st r key by (intro pulling_save_task [OF p ok nc, where k = k]) (auto simp: at_key_def receipt_ok_def spooled_ok_def split: if_splits)
    next
      case False
      show ?thesis
        by (rule pulling_save_task [OF p ok nc, where k = "rc_content_key r"])
          (use at st r key False mark_imported_tasks in \<open>auto simp: at_key_def receipt_ok_def spooled_ok_def split: if_splits\<close>)
    qed
    moreover have "map_of (jn_receipts (prune t ?j)) (oid key) = Some r"
      by (rule prune_keeps_unclean) (use dr r in simp_all)
    ultimately show ?thesis by simp
  qed
  show ?thesis
    unfolding imported_def Let_def by (rule hoare_save) (use step in \<open>auto dest: pullingD\<close>)
qed

lemma cleaned_rule:
  assumes inj: "inj oid"
  shows "hoare (\<lambda>w. pulling rend ck oid cfg j w \<and> gone key w) (cleaned env (oid key) j)
    (pulling rend ck oid cfg) (\<lambda>_. consumer_inv rend ck oid cfg) (consumer_inv rend ck oid cfg)"
  unfolding cleaned_def
proof (rule hoare_case_option, goal_cases)
  case (2 r)
  let ?j = "j\<lparr>jn_receipts := put (oid key) (r\<lparr>rc_cleanup_complete := True\<rparr>) (jn_receipts j)\<rparr>"
  have step: "pulling rend ck oid cfg (prune t ?j) (write_journal (prune t ?j) (ctick w))"
    if p: "pulling rend ck oid cfg j w" and away: "gone key w" for w t
  proof -
    note d = pulling_journal [OF p]
    have ok: "journal_ok ?j"
      using journal_ok_distinct [OF d(2)] by (intro journal_ok_receipts [OF d(2)]) (simp add: distinct_put)
    have nc: "no_completed ?j" using d(3) by (simp add: no_completed_def)
    obtain k where "\<not> pending_task j k" using some_key_not_pending by blast
    then show ?thesis
      using 2 away by (intro pulling_save_task [OF p ok nc, where k = k])
        (auto simp: revises_def dest: injD [OF inj] split: if_splits)
  qed
  show ?case by (rule hoare_save) (use step in \<open>auto dest: pullingD\<close>)
qed (auto intro!: hoare_ret')

section \<open>Importing a mail\<close>

text \<open>An object that was fetched: its pull runs, and it is still in the spool.\<close>

definition fetched :: "bool \<Rightarrow> (string \<Rightarrow> string) \<Rightarrow> (string \<Rightarrow> string) \<Rightarrow> cf_settings \<Rightarrow> journal \<Rightarrow> string \<Rightarrow> r2_object
    \<Rightarrow> cworld \<Rightarrow> bool" where
  "fetched rend ck oid cfg j key ob w \<longleftrightarrow> pulling rend ck oid cfg j w \<and> at_key key ob w"

lemma fetched_core: "core_pred (fetched rend ck oid cfg j key ob)"
  unfolding fetched_def by (intro core_pred_conj pulling_core at_key_core)

lemma fetchedD: "fetched rend ck oid cfg j key ob w \<Longrightarrow> consumer_inv rend ck oid cfg w"
  by (auto simp: fetched_def dest: pullingD)

definition render_ok :: "cenv \<Rightarrow> bool" where
  "render_ok env \<longleftrightarrow> (\<forall>n mid e. c_render env n mid = Inl e \<longrightarrow> error_code e = ''store_error'')"

lemma inv_index:
  assumes "consumer_inv rend ck oid cfg w" "\<And>k. map_of (ix_content ix) k \<noteq> None \<Longrightarrow> stored ck k (cw_log w)"
  shows "consumer_inv rend ck oid cfg (w\<lparr>cw_index := ix\<rparr>)"
  using assms by (simp add: consumer_inv_def receipts_ok_def completion_ok_def marker_for_def index_ok_def)

lemma pulling_index:
  assumes "pulling rend ck oid cfg j w" "\<And>k. map_of (ix_content ix) k \<noteq> None \<Longrightarrow>
    map_of (ix_content (cw_index w)) k \<noteq> None \<or> stored ck k (cw_log w)"
  shows "pulling rend ck oid cfg j (w\<lparr>cw_index := ix\<rparr>)"
proof -
  have "consumer_inv rend ck oid cfg (w\<lparr>cw_index := ix\<rparr>)"
  proof (rule inv_index [OF pullingD [OF assms(1)]])
    fix k
    assume "map_of (ix_content ix) k \<noteq> None"
    from assms(2) [OF this] show "stored ck k (cw_log w)"
      using consumer_invD(8) [OF pullingD [OF assms(1)]] unfolding index_ok_def by blast
  qed
  then show ?thesis using assms(1) by (simp add: pulling_def held_def)
qed

lemma index_location_content [simp]: "ix_content (index_location l mid ix) = ix_content ix"
  by (simp add: index_location_def split: option.split)

lemma add_rfc822_content [simp]: "ix_content (add_rfc822 k mid ix) = ix_content ix"
  by (simp add: add_rfc822_def)

text \<open>Merging into a stored message keeps what does not depend on the places in the index.\<close>

lemma merge_ingest_rule:
  assumes J: "core_pred J" and ix: "\<And>w l. J w \<Longrightarrow> J (w\<lparr>cw_index := index_location l mid (cw_index w)\<rparr>)"
  shows "keeps J (merge_ingest env input mid)"
proof -
  have "keeps J (in_index (index_location l mid))" for l
    unfolding in_index_def by (rule hoare_modify') (rule ix)
  note rules = core_pred.keeps_read_mail [OF J] core_pred.keeps_persist [OF J]
    core_pred.keeps_merge_delivery [OF J] core_pred.keeps_write_cache [OF J] this
  show ?thesis
    unfolding merge_ingest_def Let_def
    by (intro keeps_bind rules, cases "in_location input")
      (auto split: prod.split intro!: hoare_rules rules)
qed

lemma store_errors_only:
  "hoare (\<lambda>_. True) (cdisk env ctxt f) (\<lambda>_ _. True) (\<lambda>e _. error_code e = ''store_error'') (\<lambda>_. True)"
  "hoare (\<lambda>_. True) (write_cache env m) (\<lambda>_ _. True) (\<lambda>e _. error_code e = ''store_error'') (\<lambda>_. True)"
  "render_ok env \<Longrightarrow>
    hoare (\<lambda>_. True) (write_triage_view env mid) (\<lambda>_ _. True) (\<lambda>e _. error_code e = ''store_error'') (\<lambda>_. True)"
proof -
  show d: "hoare (\<lambda>_. True) (cdisk env ctxt f) (\<lambda>_ _. True) (\<lambda>e _. error_code e = ''store_error'') (\<lambda>_. True)" for ctxt f
    by (rule hoare_cdisk) simp_all
  show "hoare (\<lambda>_. True) (write_cache env m) (\<lambda>_ _. True) (\<lambda>e _. error_code e = ''store_error'') (\<lambda>_. True)"
    unfolding write_cache_def by (intro hoare_then [where R = "\<lambda>_. True"] d)
  assume ok: "render_ok env"
  have "hoare (\<lambda>_. True) (cask_res (\<lambda>n. c_render env n mid)) (\<lambda>_ _. True) (\<lambda>e _. error_code e = ''store_error'') (\<lambda>_. True)"
    using ok by (auto simp: hoare_def cask_res_def cask_def render_ok_def split: sum.splits reply.splits)
  then show "hoare (\<lambda>_. True) (write_triage_view env mid) (\<lambda>_ _. True) (\<lambda>e _. error_code e = ''store_error'') (\<lambda>_. True)"
    unfolding write_triage_view_def by (intro hoare_then [where R = "\<lambda>_. True"] d)
qed

lemma keeps_with_errors:
  assumes "keeps J m" "b \<Longrightarrow> hoare (\<lambda>_. True) m (\<lambda>_ _. True) (\<lambda>e _. error_code e = ''store_error'') (\<lambda>_. True)"
  shows "hoare J m (\<lambda>_. J) (\<lambda>e w. J w \<and> (b \<longrightarrow> error_code e = ''store_error'')) J"
  using assms by (fastforce simp: hoare_def split: prod.splits outcome.splits)

lemma fetched_publish:
  assumes "fetched rend ck oid cfg j key ob w" "map_of (jn_tasks j) (ck raw) \<noteq> None"
  shows "fetched rend ck oid cfg j key ob (clog (Published mid raw) (w\<lparr>cw_eml := m\<rparr>))"
proof -
  have p: "pulling rend ck oid cfg j w" using assms(1) by (simp add: fetched_def)
  have "consumer_inv rend ck oid cfg (clog (Published mid raw) (w\<lparr>cw_eml := m\<rparr>))"
    by (rule inv_publish [OF pullingD [OF p]]) (simp add: pulling_journal [OF p] assms(2) [simplified])
  then show ?thesis
    using assms(1) by (simp add: fetched_def pulling_def held_def at_key_def)
qed

lemma keeps_triage_view: "core_pred I \<Longrightarrow> keeps I (write_triage_view env mid)"
  unfolding write_triage_view_def
  by (intro hoare_rules core_pred.keeps_read core_pred.keeps_ask_res core_pred.keeps_disk) simp_all

lemma index_stored_content: "map_of (ix_content (index_stored k l r mid ix)) x
    = (if x = k then Some mid else map_of (ix_content ix) x)"
  by (simp add: index_stored_def Let_def split: option.split)

lemma stored_core: "core_pred (\<lambda>w. stored ck k (cw_log w))"
  by (simp add: core_pred_def core_def)

text \<open>After the raw bytes are published only storage errors are left, where views render.\<close>

lemma after_publish_rule:
  fixes rend ck oid cfg j key ob k
  assumes ren: "rend \<Longrightarrow> render_ok env"
  defines "J \<equiv> \<lambda>w. fetched rend ck oid cfg j key ob w \<and> stored ck k (cw_log w)"
  shows "hoare J (then_io (write_cache env m) (then_io (when_io t (write_triage_view env mid))
      (then_io (in_index (index_stored k l r mid)) (ret out))))
    (\<lambda>_. J) (\<lambda>e w. fetched rend ck oid cfg j key ob w \<and> (rend \<longrightarrow> error_code e = ''store_error''))
    (consumer_inv rend ck oid cfg)" (is "hoare J _ _ ?E ?C")
proof -
  have J: "core_pred J" unfolding J_def by (intro core_pred_conj fetched_core stored_core)
  have to: "hoare J n (\<lambda>_. J) ?E ?C"
    if "keeps J n" "rend \<Longrightarrow> hoare (\<lambda>_. True) n (\<lambda>_ _. True) (\<lambda>e _. error_code e = ''store_error'') (\<lambda>_. True)"
    for n :: "unit ccmd"
    by (rule hoare_weaken [OF keeps_with_errors [OF that]]) (auto simp: J_def dest: fetchedD)
  have ix: "hoare J (in_index (index_stored k l r mid)) (\<lambda>_. J) ?E ?C"
    unfolding in_index_def
    by (rule hoare_modify') (auto simp: J_def fetched_def at_key_def index_stored_content intro!: pulling_index split: if_splits)
  have view: "hoare J (when_io t (write_triage_view env mid)) (\<lambda>_. J) ?E ?C"
    by (rule hoare_when, rule to [OF keeps_triage_view [OF J] store_errors_only(3) [OF ren]])
  show ?thesis
    by (intro hoare_then [where R = J] to core_pred.keeps_write_cache [OF J] store_errors_only(2) view ix)
      (rule hoare_ret')
qed

text \<open>Before it, any error leaves the mail unpublished.\<close>

lemma store_ingest_rule:
  fixes rend ck oid cfg j key ob p env input
  assumes ck: "c_content_key env = ck" and ren: "rend \<Longrightarrow> render_ok env"
  defines "k \<equiv> ck (in_raw input)"
  assumes k: "map_of (jn_tasks j) k \<noteq> None"
  shows "hoare (\<lambda>w. fetched rend ck oid cfg j key ob w \<and> (p \<longrightarrow> settled rend ck k w)) (store_ingest env input)
    (\<lambda>_ w. fetched rend ck oid cfg j key ob w \<and> stored ck k (cw_log w))
    (\<lambda>e w. fetched rend ck oid cfg j key ob w \<and> (p \<longrightarrow> error_code e \<noteq> ''store_error'' \<longrightarrow> settled rend ck k w))
    (consumer_inv rend ck oid cfg)" (is "hoare ?P _ ?Q ?E ?C")
proof -
  have P: "core_pred ?P" by (intro core_pred_conj fetched_core core_pred_imp at_key_core)
  have to: "hoare ?P n (\<lambda>_. ?P) ?E ?C" if "keeps ?P n" for n :: "'x ccmd"
    by (rule keeps_to [OF that]) (auto dest: fetchedD)
  have res: "hoare ?P (of_res x) (\<lambda>_. ?P) ?E ?C" for x :: "'y res"
    by (rule to) (rule keeps_of_res)
  have pub: "hoare ?P (publish_raw env mid (in_raw input)) (\<lambda>_ w. fetched rend ck oid cfg j key ob w \<and> stored ck k (cw_log w)) ?E ?C"
    for mid
    unfolding publish_raw_def
  proof (rule hoare_cdisk)
    fix w assume P: "?P w"
    have f: "fetched rend ck oid cfg j key ob (ctick w)" by (rule core_pred.same_core [OF fetched_core]) (use P in auto)
    note f' = fetched_publish [where raw = "in_raw input", OF f k [unfolded k_def], of mid "put mid (in_raw input) (cw_eml (ctick w))"]
    show "fetched rend ck oid cfg j key ob (clog (Published mid (in_raw input)) (ctick w\<lparr>cw_eml := put mid (in_raw input) (cw_eml (ctick w))\<rparr>))
      \<and> stored ck k (cw_log (clog (Published mid (in_raw input)) (ctick w\<lparr>cw_eml := put mid (in_raw input) (cw_eml (ctick w))\<rparr>)))"
      using f' by (auto simp: stored_def k_def)
    show "?E (app_error_io ''write eml'' m) (ctick w)
      \<and> ?E (app_error_io ''write eml'' m) (clog (Published mid (in_raw input)) (ctick w\<lparr>cw_eml := put mid (in_raw input) (cw_eml (ctick w))\<rparr>))" for m
      using f f' by simp
    show "?C (ctick w) \<and> ?C (clog (Published mid (in_raw input)) (ctick w\<lparr>cw_eml := put mid (in_raw input) (cw_eml (ctick w))\<rparr>))"
      using fetchedD [OF f] fetchedD [OF f'] by blast
  qed
  have tail: "hoare ?P (then_io (persist_message_metadata env m)
       (then_io (case in_delivery input of None \<Rightarrow> ret () | Some d \<Rightarrow> merge_message_delivery env mid d)
       (then_io (when_io b (set_message_disposition env st mid))
       (then_io (publish_raw env mid (in_raw input)) (then_io (write_cache env m)
       (then_io (when_io t (write_triage_view env mid))
       (then_io (in_index (index_stored k l r mid)) (ret out)))))))) ?Q ?E ?C" for m mid b st t l r out
  proof (rule hoare_then [where R = ?P, OF _ hoare_then [where R = ?P, OF _ hoare_then [where R = ?P, OF _ hoare_then [OF pub]]]])
    show "hoare ?P (case in_delivery input of None \<Rightarrow> ret () | Some d \<Rightarrow> merge_message_delivery env mid d) (\<lambda>_. ?P) ?E ?C"
      by (rule to, intro keeps_case_option keeps_ret core_pred.keeps_merge_delivery [OF P])
    show "hoare (\<lambda>w. fetched rend ck oid cfg j key ob w \<and> stored ck k (cw_log w)) (then_io (write_cache env m)
        (then_io (when_io t (write_triage_view env mid)) (then_io (in_index (index_stored k l r mid)) (ret out)))) ?Q ?E ?C"
      by (rule hoare_weaken [OF after_publish_rule [OF ren]]) (auto simp: settled_def)
  qed (intro to hoare_rules core_pred.keeps_persist [OF P] core_pred.keeps_disposition [OF P])+
  show ?thesis
    unfolding store_ingest_def Let_def ck k_def [symmetric]
    by (rule hoare_bind [OF res], rule hoare_bind [OF to [OF keeps_gets]], rule hoare_then [OF to [OF core_pred.keeps_read [OF P]]],
        rule hoare_bind [OF to [OF keeps_gets]], rule hoare_if) (rule hoare_fail', auto intro!: tail)
qed

lemma ingest_rule:
  fixes rend ck oid cfg j key ob p env input
  assumes ck: "c_content_key env = ck" and ren: "rend \<Longrightarrow> render_ok env"
  defines "k \<equiv> ck (in_raw input)"
  shows "hoare (\<lambda>w. fetched rend ck oid cfg j key ob w \<and> (p \<longrightarrow> settled rend ck k w)
      \<and> (map_of (jn_tasks j) k \<noteq> None \<or> map_of (ix_content (cw_index w)) k \<noteq> None)) (ingest_message env input)
    (\<lambda>_ w. fetched rend ck oid cfg j key ob w \<and> stored ck k (cw_log w))
    (\<lambda>e w. fetched rend ck oid cfg j key ob w \<and> (p \<longrightarrow> error_code e \<noteq> ''store_error'' \<longrightarrow> settled rend ck k w))
    (consumer_inv rend ck oid cfg)" (is "hoare ?P _ ?Q ?E ?C")
  unfolding ingest_message_def
proof (rule hoare_if)
  show "hoare ?P (fail (app_error_new ''message_too_large'' ''message exceeds the 100 MiB limit'')) ?Q ?E ?C"
    by (rule hoare_fail') auto
  show "hoare ?P (bind_io (gets cw_index) (\<lambda>ix. case map_of (ix_content ix) (c_content_key env (in_raw input)) of
      Some mid \<Rightarrow> merge_ingest env input mid | None \<Rightarrow> store_ingest env input)) ?Q ?E ?C"
    unfolding ck k_def [symmetric]
  proof (rule hoare_bind_gets, rule hoare_case_option, goal_cases)
    case (1 ix)
    then have "hoare (\<lambda>w. map_of (jn_tasks j) k \<noteq> None \<and> (fetched rend ck oid cfg j key ob w \<and> (p \<longrightarrow> settled rend ck k w)))
        (store_ingest env input) ?Q ?E ?C"
      unfolding k_def by (intro hoare_pure_pre store_ingest_rule [OF ck ren])
    then show ?case by (rule hoare_pre) (use 1 in auto)
  next
    case (2 ix mid)
    let ?J = "\<lambda>w. (fetched rend ck oid cfg j key ob w \<and> (p \<longrightarrow> settled rend ck k w)) \<and> stored ck k (cw_log w)"
    have "keeps ?J (merge_ingest env input mid)"
      by (intro merge_ingest_rule core_pred_conj fetched_core core_pred_imp at_key_core stored_core)
        (auto simp: fetched_def at_key_def settled_def intro!: pulling_index)
    then show ?case
      by (rule hoare_weaken) (use 2 in \<open>auto simp: fetched_def index_ok_def dest!: pullingD dest: consumer_invD(8)\<close>)
  qed
qed

section \<open>The spool\<close>

text \<open>What the environment and the settings must provide: one and the same hash functions, of which
  the object ids do not collide; a journal; an archive outside the spool prefix, as the settings are
  validated; ids of batches in the form the hash gives them.\<close>

definition fits :: "bool \<Rightarrow> (string \<Rightarrow> string) \<Rightarrow> (string \<Rightarrow> string) \<Rightarrow> cf_settings \<Rightarrow> cenv \<Rightarrow> bool" where
  "fits rend ck oid cfg env \<longleftrightarrow> c_content_key env = ck \<and> object_id env cfg = oid \<and> inj oid
     \<and> journal_enabled cfg \<and> (\<forall>p rest. cf_imported_prefix cfg = Some p \<longrightarrow> \<not> spool_key cfg (p @ rest))
     \<and> (\<forall>keys. length (c_keys_hash env keys) = 64 \<and> list_all safe_id_char (c_keys_hash env keys))
     \<and> (rend \<longrightarrow> render_ok env)"

lemma fitsD:
  assumes "fits rend ck oid cfg env"
  shows "c_content_key env = ck" "object_id env cfg = oid" "inj oid" "journal_enabled cfg"
    "cf_imported_prefix cfg = Some p \<Longrightarrow> \<not> spool_key cfg (p @ rest)" "rend \<Longrightarrow> render_ok env"
  using assms unfolding fits_def by blast+

lemma pulling_remove:
  assumes p: "pulling rend ck oid cfg j w" and "inj oid" "map_of (jn_receipts j) (oid key) \<noteq> None"
  shows "pulling rend ck oid cfg j (remove_object key w)"
proof -
  have "consumer_inv rend ck oid cfg (remove_object key w)"
    by (rule inv_remove [OF pullingD [OF p] assms(2)]) (use assms(3) pulling_journal [OF p] in simp)
  then show ?thesis
    using p by (auto simp: pulling_def held_def remove_object_def split: option.splits)
qed

lemma pulling_copy:
  assumes p: "pulling rend ck oid cfg j w" and "\<not> spool_key cfg target"
  shows "pulling rend ck oid cfg j (copy_object key target w)"
  using inv_copy [OF pullingD [OF p] assms(2), of key] p
  by (auto simp: pulling_def held_def copy_object_def split: option.splits)

lemma pulling_ctick: "pulling rend ck oid cfg j w \<Longrightarrow> pulling rend ck oid cfg j (ctick w)"
  by (erule core_pred.same_core [OF pulling_core]) simp

lemma net_rule:
  assumes "\<And>w. pulling rend ck oid cfg j w \<Longrightarrow> pulling rend ck oid cfg j (f w)"
  shows "hoare (pulling rend ck oid cfg j) (cnet env f) (\<lambda>_. pulling rend ck oid cfg j)
    (\<lambda>_. pulling rend ck oid cfg j) (consumer_inv rend ck oid cfg)"
  by (rule hoare_cnet) (use assms pulling_ctick pullingD in blast)+

lemma gone_removed: "gone key (remove_object key w)"
  by (auto simp: gone_def remove_object_def split: option.splits)

text \<open>A request that was answered removed the object.\<close>

lemma net_remove_rule:
  assumes "inj oid" "map_of (jn_receipts j) (oid key) \<noteq> None"
    and "\<And>w. pulling rend ck oid cfg j w \<Longrightarrow> pulling rend ck oid cfg j (f w)"
  shows "hoare (pulling rend ck oid cfg j) (cnet env (\<lambda>w. remove_object key (f w)))
    (\<lambda>_ w. pulling rend ck oid cfg j w \<and> gone key w)
    (\<lambda>_. pulling rend ck oid cfg j) (consumer_inv rend ck oid cfg)"
proof -
  have p: "pulling rend ck oid cfg j (remove_object key (f (ctick w)))" if "pulling rend ck oid cfg j w" for w
    by (rule pulling_remove [OF assms(3) [OF pulling_ctick [OF that]] assms(1,2)])
  show ?thesis by (rule hoare_cnet) (use p pulling_ctick pullingD gone_removed in blast)+
qed

lemma delete_rule:
  assumes "inj oid" "map_of (jn_receipts j) (oid key) \<noteq> None"
  shows "hoare (pulling rend ck oid cfg j) (r2_delete env key) (\<lambda>_ w. pulling rend ck oid cfg j w \<and> gone key w)
    (\<lambda>_. pulling rend ck oid cfg j) (consumer_inv rend ck oid cfg)"
  unfolding r2_delete_def by (rule net_remove_rule [OF assms, where f = "\<lambda>w. w"])

lemma copy_rule:
  assumes "\<not> spool_key cfg target"
  shows "hoare (pulling rend ck oid cfg j) (r2_copy env key target) (\<lambda>_. pulling rend ck oid cfg j)
    (\<lambda>_. pulling rend ck oid cfg j) (consumer_inv rend ck oid cfg)" (is "hoare ?P _ ?Q ?E ?C")
  unfolding r2_copy_def
proof (rule hoare_bind_gets, rule hoare_pre [where P' = ?P], rule hoare_case_option)
  show "hoare ?P (then_io (cnet env id) (fail (r2_failed ''copy'' (Some key) 404))) ?Q ?E ?C"
    by (rule hoare_then [OF net_rule]) (auto intro: hoare_fail)
  show "hoare ?P (cnet env (copy_object key target)) ?Q ?E ?C"
    by (rule net_rule) (rule pulling_copy [OF _ assms])
qed simp

lemma acknowledge_rule:
  assumes inj: "inj oid" and r: "map_of (jn_receipts j) (oid key) \<noteq> None"
    and t: "\<And>t. archive = Some t \<Longrightarrow> \<not> spool_key cfg t"
  shows "hoare (pulling rend ck oid cfg j) (r2_acknowledge env settings key archive quota)
    (\<lambda>_ w. pulling rend ck oid cfg j w \<and> gone key w)
    (\<lambda>_. pulling rend ck oid cfg j) (consumer_inv rend ck oid cfg)" (is "hoare ?P _ ?Q ?E ?C")
  unfolding r2_acknowledge_def
proof (intro hoare_if)
  show "hoare ?P (cnet env (\<lambda>w. remove_object key (case archive of None \<Rightarrow> w | Some t \<Rightarrow> copy_object key t w))) ?Q ?E ?C"
    by (rule net_remove_rule [OF inj r]) (auto dest: t intro: pulling_copy split: option.split)
  show "hoare ?P (then_io (case archive of None \<Rightarrow> ret () | Some t \<Rightarrow> r2_copy env key t) (r2_delete env key)) ?Q ?E ?C"
    by (rule hoare_then [where R = ?P], cases archive) (auto intro: hoare_ret copy_rule [OF t] delete_rule [OF inj r])
qed (rule hoare_fail)

lemma get_rule:
  "hoare (pulling rend ck oid cfg j) (r2_get env key) (\<lambda>ob w. pulling rend ck oid cfg j w \<and> at_key key ob w)
    (\<lambda>_. pulling rend ck oid cfg j) (consumer_inv rend ck oid cfg)"
  unfolding r2_get_def
proof (rule hoare_then [OF net_rule])
  show "hoare (pulling rend ck oid cfg j) (bind_io (gets (\<lambda>w. map_of (cw_bucket w) key)) (\<lambda>ob. case ob of
     None \<Rightarrow> fail (r2_failed ''get'' (Some key) 404)
   | Some ob \<Rightarrow> if MAX_MESSAGE_BYTES < byte_count (ob_raw ob)
       then fail (app_error_new ''message_too_large'' ''R2 message exceeds the 100 MiB limit'') else ret ob))
    (\<lambda>ob w. pulling rend ck oid cfg j w \<and> at_key key ob w) (\<lambda>_. pulling rend ck oid cfg j) (consumer_inv rend ck oid cfg)"
    by (rule hoare_bind_gets, rule hoare_case_option) (auto intro!: hoare_fail' hoare_ret' simp: at_key_def)
qed simp

section \<open>A pull\<close>

text \<open>The state of the loop holds the journal that is on disk.\<close>

definition loop_ok :: "bool \<Rightarrow> (string \<Rightarrow> string) \<Rightarrow> (string \<Rightarrow> string) \<Rightarrow> cf_settings \<Rightarrow> pull_state \<Rightarrow> cworld \<Rightarrow> bool" where
  "loop_ok rend ck oid cfg st w \<longleftrightarrow> (\<exists>j. pl_journal st = Some j \<and> pulling rend ck oid cfg j w)"

lemma loop_okD: "loop_ok rend ck oid cfg st w \<Longrightarrow> consumer_inv rend ck oid cfg w"
  by (auto simp: loop_ok_def dest: pullingD)

lemma with_journal_rule:
  assumes "pl_journal st = Some j" "hoare P (f j) (pulling rend ck oid cfg) (\<lambda>_. consumer_inv rend ck oid cfg) (consumer_inv rend ck oid cfg)"
  shows "hoare P (with_journal f st) (loop_ok rend ck oid cfg)
    (\<lambda>_. consumer_inv rend ck oid cfg) (consumer_inv rend ck oid cfg)"
  unfolding with_journal_def
  by (simp add: assms(1), rule hoare_bind [OF assms(2)]) (auto intro!: hoare_ret' simp: loop_ok_def)

lemma starts_with_strip: "starts_with s p \<longleftrightarrow> (\<exists>rest. strip_prefix p s = Some rest)"
  by (auto simp: starts_with_def strip_prefix_def)

lemma cleanup_rule:
  assumes f: "fits rend ck oid cfg env" and st: "pl_journal st = Some j" and r: "map_of (jn_receipts j) (oid key) \<noteq> None"
  shows "hoare (pulling rend ck oid cfg j) (cleanup_object env cfg key quota st) (loop_ok rend ck oid cfg)
    (\<lambda>_. consumer_inv rend ck oid cfg) (consumer_inv rend ck oid cfg)"
proof -
  let ?P = "pulling rend ck oid cfg j"
  let ?R = "\<lambda>st' w. pl_journal st' = Some j \<and> ?P w \<and> gone key w"
  have ack: "hoare ?P (then_io (r2_acknowledge env cfg key a quota) (ret st')) ?R (\<lambda>_. ?P) (consumer_inv rend ck oid cfg)"
    if "pl_journal st' = Some j" "\<And>t. a = Some t \<Longrightarrow> \<not> spool_key cfg t" for a st'
    by (rule hoare_then [OF acknowledge_rule [OF fitsD(3) [OF f] r that(2)]]) (auto intro!: hoare_ret' simp: that(1))
  have body: "hoare ?P (case cf_imported_prefix cfg of
        Some p \<Rightarrow> (case strip_prefix (cf_prefix cfg) key of
            None \<Rightarrow> fail (app_error_new ''cloudflare_r2_failed'' ''object key is outside the configured prefix'')
          | Some rest \<Rightarrow> then_io (r2_acknowledge env cfg key (Some (p @ rest)) quota)
              (ret (st\<lparr>pl_moved := pl_moved st + 1\<rparr>)))
      | None \<Rightarrow> then_io (r2_acknowledge env cfg key None quota) (ret (st\<lparr>pl_deleted := pl_deleted st + 1\<rparr>)))
      ?R (\<lambda>_. ?P) (consumer_inv rend ck oid cfg)"
    using fitsD(5) [OF f] st by (intro hoare_case_option) (auto intro!: ack hoare_fail)
  have clean: "hoare (?R st') (with_journal (cleaned env (object_id env cfg key)) st') (loop_ok rend ck oid cfg)
      (\<lambda>_. consumer_inv rend ck oid cfg) (consumer_inv rend ck oid cfg)" for st'
    unfolding fitsD(2) [OF f]
    by (rule hoare_pure_pre, erule with_journal_rule) (rule cleaned_rule [OF fitsD(3) [OF f]])
  show ?thesis
    unfolding cleanup_object_def
    by (rule hoare_match [OF body clean]) (auto intro!: hoare_ret' simp: loop_ok_def warned_def st)
qed

lemma archive_outside: "fits rend ck oid cfg env \<Longrightarrow> archive_key_of cfg key = Some t \<Longrightarrow> \<not> spool_key cfg t"
  using fitsD(5) [of rend ck oid cfg env] by (auto simp: archive_key_of_def)

lemma record_import_rule:
  assumes f: "fits rend ck oid cfg env" and st: "pl_journal st = Some j" and key: "spool_key cfg key"
  shows "hoare (\<lambda>w. fetched rend ck oid cfg j key ob w \<and> stored ck (ck (ob_raw ob)) (cw_log w))
    (record_import env cfg key ob out st) (loop_ok rend ck oid cfg)
    (\<lambda>_. consumer_inv rend ck oid cfg) (consumer_inv rend ck oid cfg)" (is "hoare ?P _ ?Q ?E ?C")
  unfolding record_import_def epoch_def Let_def
proof (rule hoare_bind_gets, rule hoare_pre [where P' = ?P])
  fix t
  let ?r = "\<lparr>rc_message_id = outcome_message_id out, rc_imported_epoch = t, rc_content_key = c_content_key env (ob_raw ob),
      rc_quota_managed = ob_quota ob, rc_archive_key = archive_key_of cfg key, rc_cleanup_complete = False\<rparr>"
  let ?R = "\<lambda>st' w. \<exists>j. pl_journal st' = Some j \<and> map_of (jn_receipts j) (oid key) \<noteq> None \<and> pulling rend ck oid cfg j w"
  have "hoare ?P (with_journal (imported env (object_id env cfg key) ?r) st) ?R ?E ?C"
    unfolding with_journal_def st option.case fitsD(1,2) [OF f] fetched_def conj_assoc
    by (rule hoare_bind [OF imported_rule [where ob = ob]]) (auto intro!: hoare_ret' simp: key archive_outside [OF f])
  then show "hoare ?P (bind_io (with_journal (imported env (object_id env cfg key) ?r) st) (\<lambda>st1.
     cleanup_object env cfg key (ob_quota ob) (count_outcome out (byte_count (ob_raw ob))
       (if has_duplicate_candidates out then warned ''duplicate_candidate'' st1 else st1)))) ?Q ?E ?C"
  proof (rule hoare_bind)
    fix st1
    let ?st = "count_outcome out (byte_count (ob_raw ob)) (if has_duplicate_candidates out then warned ''duplicate_candidate'' st1 else st1)"
    have j: "pl_journal ?st = pl_journal st1" by (cases out) (auto simp: count_outcome_def warned_def)
    show "hoare (?R st1) (cleanup_object env cfg key (ob_quota ob) ?st) ?Q ?E ?C"
      by (intro hoare_ex hoare_pure_pre cleanup_rule [OF f]) (simp_all add: j)
  qed
qed simp

lemma import_downloaded_rule:
  assumes f: "fits rend ck oid cfg env" and st: "pl_journal st = Some j" and key: "spool_key cfg key"
  shows "hoare (fetched rend ck oid cfg j key ob) (import_downloaded env cfg key ob st) (loop_ok rend ck oid cfg)
    (\<lambda>_. consumer_inv rend ck oid cfg) (consumer_inv rend ck oid cfg)" (is "hoare ?P _ ?Q ?E ?C")
  unfolding import_downloaded_def
proof (rule hoare_if)
  let ?k = "ck (ob_raw ob)"
  note ck = fitsD(1) [OF f] and ren = fitsD(6) [OF f]
  show "hoare ?P (ret (skipped key ''total_bytes_budget_exceeded'' st)) ?Q ?E ?C"
    by (rule hoare_ret') (simp add: loop_ok_def skipped_def st fetched_def)
  let ?R = "\<lambda>p st1 w. \<exists>j. pl_journal st1 = Some j \<and> fetched rend ck oid cfg j key ob w \<and> (p \<longrightarrow> settled rend ck ?k w)
      \<and> (map_of (jn_tasks j) ?k \<noteq> None \<or> map_of (ix_content (cw_index w)) ?k \<noteq> None)"
  have prep: "hoare ?P (prepare_object env (ob_raw ob) st) (\<lambda>(p, st1). ?R p st1) ?E ?C"
    unfolding prepare_object_def st option.case fetched_def
    by (rule hoare_bind [OF prepare_rule]) (auto intro!: hoare_ret' simp: ck fetched_def)
  have ingest: "hoare (?R p st1) (match_io (ingest_message env \<lparr>in_raw = ob_raw ob, in_location = None,
          in_delivery = Some (ob_delivery ob), in_import_as = cf_import_as cfg, in_direction = cf_direction cfg\<rparr>)
        (\<lambda>out. record_import env cfg key ob out st1)
        (\<lambda>e. if error_code e = ''store_error'' then fail e
           else bind_io (if p then with_journal (withdraw env (c_content_key env (ob_raw ob))) st1 else ret st1)
             (\<lambda>st2. ret (warned (error_code e) st2)))) ?Q ?E ?C" for p st1
  proof (rule hoare_ex, rule hoare_pure_pre, rule hoare_match,
      rule ingest_rule [OF ck ren, where p = p and input = "\<lparr>in_raw = ob_raw ob, in_location = None,
        in_delivery = Some (ob_delivery ob), in_import_as = cf_import_as cfg, in_direction = cf_direction cfg\<rparr>",
        unfolded ingest_input.select_convs], goal_cases)
    case (2 j out)
    then show ?case by (rule record_import_rule [OF f _ key])
  next
    case (3 j e)
    have undo: "hoare (\<lambda>w. fetched rend ck oid cfg j key ob w \<and> (p \<longrightarrow> settled rend ck ?k w))
        (if p then with_journal (withdraw env ?k) st1 else ret st1) (loop_ok rend ck oid cfg) ?E ?C"
    proof (rule hoare_if)
      assume "p"
      show "hoare (\<lambda>w. fetched rend ck oid cfg j key ob w \<and> (p \<longrightarrow> settled rend ck ?k w))
          (with_journal (withdraw env ?k) st1) (loop_ok rend ck oid cfg) ?E ?C"
        by (rule hoare_pre [OF with_journal_rule [OF 3 withdraw_rule]]) (simp add: fetched_def \<open>p\<close>)
    qed (rule hoare_ret', use 3 in \<open>auto simp: loop_ok_def fetched_def\<close>)
    show ?case
      unfolding ck
    proof (rule hoare_if)
      show "hoare (\<lambda>w. fetched rend ck oid cfg j key ob w \<and> (p \<longrightarrow> error_code e \<noteq> ''store_error'' \<longrightarrow> settled rend ck ?k w))
          (fail e) ?Q ?E ?C"
        by (rule hoare_fail') (auto dest: fetchedD)
    qed (rule hoare_bind [OF hoare_pre [OF undo]], simp, rule hoare_ret', simp add: loop_ok_def warned_def)
  qed simp
  show "hoare ?P (bind_io (prepare_object env (ob_raw ob) st) (\<lambda>(prepared, st1).
        match_io (ingest_message env \<lparr>in_raw = ob_raw ob, in_location = None, in_delivery = Some (ob_delivery ob),
            in_import_as = cf_import_as cfg, in_direction = cf_direction cfg\<rparr>)
          (\<lambda>outcome. record_import env cfg key ob outcome st1)
          (\<lambda>e. if error_code e = ''store_error'' then fail e
             else bind_io (if prepared then with_journal (withdraw env (c_content_key env (ob_raw ob))) st1 else ret st1)
               (\<lambda>st2. ret (warned (error_code e) st2))))) ?Q ?E ?C"
    unfolding case_prod_unfold
    by (rule hoare_bind [OF prep [unfolded case_prod_unfold]]) (rule ingest)
qed

lemma pull_object_rule:
  assumes f: "fits rend ck oid cfg env" and live: "\<not> po_dry_run opts"
  shows "hoare (loop_ok rend ck oid cfg st) (pull_object env cfg opts ob st) (loop_ok rend ck oid cfg)
    (\<lambda>_. consumer_inv rend ck oid cfg) (consumer_inv rend ck oid cfg)" (is "hoare ?P _ ?Q ?E ?C")
proof (cases "skip_reason cfg ob st")
  case (Some reason)
  then show ?thesis by (auto simp: pull_object_def loop_ok_def skipped_def intro!: hoare_ret')
next
  case None
  let ?st = "st\<lparr>pl_candidates := pl_candidates st + 1\<rparr>"
  have key: "spool_key cfg (ls_key ob)" using None by (auto simp: skip_reason_def spool_key_def split: if_splits)
  have "hoare (pulling rend ck oid cfg j) (match_io (r2_get env (ls_key ob))
         (\<lambda>got. import_downloaded env cfg (ls_key ob) got ?st)
         (\<lambda>e. if error_code e = ''message_too_large'' then ret (skipped (ls_key ob) ''message_too_large'' ?st)
            else if is_not_found e then ret (warned (error_code e) ?st) else fail e)) ?Q ?E ?C"
    if j: "pl_journal st = Some j" for j
  proof (rule hoare_match [OF get_rule])
    show "hoare (\<lambda>w. pulling rend ck oid cfg j w \<and> at_key (ls_key ob) got w)
        (import_downloaded env cfg (ls_key ob) got ?st) ?Q ?E ?C" for got
      unfolding fetched_def [symmetric] by (rule import_downloaded_rule [OF f _ key]) (simp add: j)
  qed (auto intro!: hoare_ret' hoare_fail' simp: j loop_ok_def skipped_def warned_def dest: pullingD)
  then show ?thesis
    unfolding pull_object_def None option.case Let_def if_not_P [OF live] loop_ok_def [of _ _ _ _ st]
    by (intro hoare_ex hoare_pure_pre)
qed

lemma index_mail_content [simp]: "ix_content (index_mail m ix) = ix_content ix"
proof -
  have "ix_content (fold (\<lambda>l acc. if rl_missing l \<noteq> None then acc else (case location_key l of
      None \<Rightarrow> acc | Some k \<Rightarrow> acc\<lparr>ix_imap := or_insert k mid (ix_imap acc)\<rparr>)) ls ix') = ix_content ix'" for ls ix' mid
    by (induction ls arbitrary: ix') (auto split: option.split)
  then show ?thesis by (auto simp: index_mail_def Let_def split: option.split)
qed

lemma or_insert_map [simp]: "map_of (or_insert k v m) x = (if x = k then (case map_of m k of None \<Rightarrow> Some v | Some u \<Rightarrow> Some u) else map_of m x)"
  by (auto simp: or_insert_def split: option.split)

text \<open>Every content the index knows was found in the store.\<close>

lemma load_index_rule:
  fixes rend ck oid cfg env
  assumes ck: "c_content_key env = ck"
  defines "J \<equiv> \<lambda>ix w. consumer_inv rend ck oid cfg w \<and> (\<forall>k. map_of (ix_content ix) k \<noteq> None \<longrightarrow> stored ck k (cw_log w))"
  shows "hoare (consumer_inv rend ck oid cfg) (load_index env) J
    (\<lambda>_. consumer_inv rend ck oid cfg) (consumer_inv rend ck oid cfg)" (is "hoare ?I _ _ ?E ?I")
proof -
  have J: "core_pred (J ix)" for ix
    unfolding J_def by (intro core_pred_conj consumer_inv_core) (simp add: core_pred_def core_def)
  have step: "hoare (J ix) (then_io (cread env ''read message eml'') (then_io (modify (clog (Found mid raw)))
        (bind_io (read_mail env mid) (\<lambda>m. ret (index_mail (m\<lparr>ml_id := mid\<rparr>)
            (ix\<lparr>ix_content := or_insert (c_content_key env raw) mid (ix_content ix)\<rparr>)))))) J ?E ?I" for mid raw ix
  proof -
    let ?ix = "ix\<lparr>ix_content := or_insert (ck raw) mid (ix_content ix)\<rparr>"
    have to: "hoare (J a) n (\<lambda>_. J a) ?E ?I" if "keeps (J a) n" for a and n :: "'x ccmd"
      by (rule keeps_to [OF that]) (auto simp: J_def)
    have found: "hoare (J ix) (modify (clog (Found mid raw))) (\<lambda>_. J ?ix) ?E ?I"
      by (rule hoare_modify') (auto simp: J_def stored_cons intro: inv_note, auto simp: stored_def)
    show ?thesis
      unfolding ck
      by (rule hoare_then [OF to [OF core_pred.keeps_read [OF J]] hoare_then [OF found hoare_bind [OF to [OF core_pred.keeps_read_mail [OF J]]]]])
        (rule hoare_ret', simp add: J_def)
  qed
  show ?thesis
    unfolding load_index_def
  proof (rule hoare_then [OF inv.keeps_ask_res hoare_then [OF inv.keeps_read hoare_bind [OF keeps_gets]]])
    show "hoare ?I (fold_io (\<lambda>(mid, raw) ix. then_io (cread env ''read message eml'') (then_io (modify (clog (Found mid raw)))
        (bind_io (read_mail env mid) (\<lambda>m. ret (index_mail (m\<lparr>ml_id := mid\<rparr>)
            (ix\<lparr>ix_content := or_insert (c_content_key env raw) mid (ix_content ix)\<rparr>)))))) emls empty_index) J ?E ?I" for emls
      by (rule hoare_pre [OF hoare_fold [where I = J]], unfold case_prod_unfold)
        (rule step, simp add: J_def empty_index_def)
  qed
qed

lemma list_pages_rule: "core_pred I \<Longrightarrow> keeps I (list_pages fuel env cont tokens acc)"
proof (induction fuel env cont tokens acc rule: list_pages.induct)
  case (2 fuel env cont tokens acc)
  show ?case
    unfolding list_pages.simps
  proof (rule keeps_bind [OF core_pred.keeps_ask [OF 2(2)]])
    show "keeps I (case pg_continuation pg of None \<Rightarrow> ret (acc @ pg_objects pg)
      | Some token \<Rightarrow> if token \<in> set tokens
         then fail (app_error_new ''cloudflare_r2_failed'' ''R2 list returned a repeated continuation token'')
         else list_pages fuel env (Some token) (token # tokens) (acc @ pg_objects pg))" for pg :: r2_page
    proof (cases "pg_continuation pg")
      case (Some token)
      then show ?thesis using 2(1) [OF Some _ 2(2)] by (simp add: keeps_fail)
    qed (simp add: keeps_ret)
  qed
qed (simp add: hoare_def)

lemma load_pulling:
  "hoare (consumer_inv rend ck oid cfg) (load_journal env) (pulling rend ck oid cfg)
    (\<lambda>_. consumer_inv rend ck oid cfg) (consumer_inv rend ck oid cfg)"
  unfolding pulling_def by (rule load_held [OF consumer_inv_core]) (rule consumer_invD(1))

text \<open>A pull keeps the invariant however it ends.\<close>

lemma pull_objects_rule:
  assumes f: "fits rend ck oid cfg env"
  shows "keeps (consumer_inv rend ck oid cfg) (pull_objects env fuel cfg opts selected)" (is "keeps ?I _")
proof -
  let ?J = "\<lambda>ix w. ?I w \<and> (\<forall>k. map_of (ix_content ix) k \<noteq> None \<longrightarrow> stored ck k (cw_log w))"
  have listed: "keeps ?I (case selected of Some obs \<Rightarrow> ret obs | None \<Rightarrow> list_pages fuel env None [] [])"
    by (cases selected) (auto intro: keeps_ret list_pages_rule consumer_inv_core)
  have index: "hoare ?I (if po_dry_run opts then ret empty_index else load_index env) ?J (\<lambda>_. ?I) ?I"
    by (rule hoare_if, rule hoare_ret', simp add: empty_index_def, rule load_index_rule [OF fitsD(1) [OF f]])
  have set: "hoare (?J ix) (in_index (\<lambda>_. ix)) (\<lambda>_. ?I) (\<lambda>_. ?I) ?I" for ix
    unfolding in_index_def by (rule hoare_modify') (auto intro: inv_index)
  let ?L = "\<lambda>j w. if po_dry_run opts then ?I w else \<exists>j'. j = Some j' \<and> pulling rend ck oid cfg j' w"
  have load: "hoare ?I
      (if \<not> po_dry_run opts \<and> journal_enabled cfg then bind_io (load_journal env) (\<lambda>j. ret (Some j)) else ret None) ?L (\<lambda>_. ?I) ?I"
  proof (rule hoare_if)
    show "hoare ?I (bind_io (load_journal env) (\<lambda>j. ret (Some j))) ?L (\<lambda>_. ?I) ?I"
      by (rule hoare_bind [OF load_pulling]) (rule hoare_ret', auto dest: pullingD)
  qed (rule hoare_ret', use fitsD(4) [OF f] in simp)
  have loop: "hoare (?L j) (fold_io (pull_object env cfg opts) obs (start_state opts j)) (\<lambda>_. ?I) (\<lambda>_. ?I) ?I" for j obs
  proof (cases "po_dry_run opts")
    case True
    have "keeps ?I (pull_object env cfg opts ob st)" for ob st
      using True by (auto simp: pull_object_def Let_def intro: keeps_ret split: option.split)
    then show ?thesis using True by (simp add: keeps_fold)
  next
    case False
    have "hoare (loop_ok rend ck oid cfg (start_state opts j)) (fold_io (pull_object env cfg opts) obs (start_state opts j))
        (loop_ok rend ck oid cfg) (\<lambda>_. ?I) ?I"
      by (rule hoare_fold [where I = "loop_ok rend ck oid cfg"]) (rule pull_object_rule [OF f False])
    then show ?thesis
      by (rule hoare_weaken) (use False in \<open>auto simp: loop_ok_def start_state_def dest: loop_okD pullingD\<close>)
  qed
  have rest: "keeps ?I (then_io (when_io (\<not> po_dry_run opts) (cask_res (c_refresh env))) (ret st))" for st
    by (intro hoare_rules inv.keeps_ask_res)
  show ?thesis
    unfolding pull_objects_def Let_def
    by (rule hoare_then [OF inv.keeps_ask_res hoare_bind [OF listed hoare_bind [OF index hoare_then [OF set
        hoare_bind [OF load hoare_bind [OF loop rest]]]]]])
qed

end
