(* ===== verification/Consumer_Dispatch.thy ===== *)
theory Consumer_Dispatch
  imports Consumer_Import
begin

text \<open>
  The invariant of the consumer through the handling of queue events and the dispatch of batches:
  an event is acknowledged only when its object is gone, a batch is handed to the handler only with
  its attempt on disk, and a completed batch is folded into the journal before the next one.
\<close>

section \<open>Rules\<close>

lemma hoare_for_rest:
  assumes "\<And>x ys. hoare (I (x # ys)) (f x) (\<lambda>_. I ys) E C"
  shows "hoare (I xs) (for_io xs f) (\<lambda>_. I []) E C"
proof (induction xs)
  case Nil
  show ?case by (simp add: hoare_def ret_def)
next
  case (Cons x xs)
  with assms show ?case by (auto intro: hoare_then)
qed

lemma hoare_fold_rest:
  assumes "\<And>x ys b. hoare (I (x # ys) b) (f x b) (I ys) E C"
  shows "hoare (I xs b) (fold_io f xs b) (I []) E C"
proof (induction xs arbitrary: b)
  case Nil
  show ?case by (simp add: hoare_def ret_def)
next
  case (Cons x xs)
  show ?case unfolding fold_io.simps by (rule hoare_bind [OF assms Cons.IH])
qed

lemma keeps_weaken:
  "hoare P m Q E C \<Longrightarrow> (\<And>s. I s \<Longrightarrow> P s) \<Longrightarrow> (\<And>a s. Q a s \<Longrightarrow> I s) \<Longrightarrow> (\<And>e s. E e s \<Longrightarrow> I s)
    \<Longrightarrow> (\<And>s. C s \<Longrightarrow> I s) \<Longrightarrow> keeps I m"
  by (rule hoare_weaken)

section \<open>Recovering a receipt\<close>

lemma receipt_gone:
  assumes "consumer_inv rend ck oid cfg w" "inj oid" "map_of (jn_receipts (disk_journal (cw_log w))) (oid key) = Some r"
    and "rc_cleanup_complete r"
  shows "gone key w"
proof -
  obtain key' where same: "oid key = oid key'" and ob: "\<forall>ob. map_of (cw_bucket w) key' = Some ob \<longrightarrow> spooled_ok ck r ob"
    using receipts_okD(2) [OF consumer_invD(4) [OF assms(1)] assms(3)] by blast
  have "key = key'" by (rule injD [OF assms(2) same])
  then show ?thesis using ob assms(4) by (cases "map_of (cw_bucket w) key") (auto simp: gone_def spooled_ok_def)
qed

lemma get_pulling:
  "hoare (pulling rend ck oid cfg j) (r2_get env key) (\<lambda>_. pulling rend ck oid cfg j)
    (\<lambda>_. pulling rend ck oid cfg j) (consumer_inv rend ck oid cfg)"
  unfolding r2_get_def
  by (rule hoare_then [OF net_rule], simp, rule hoare_bind_gets, rule hoare_case_option)
    (auto intro!: hoare_fail' hoare_ret')

lemma recover_cleanup_rule:
  assumes f: "fits rend ck oid cfg env" and r: "map_of (jn_receipts j) (oid key) = Some r"
  shows "hoare (pulling rend ck oid cfg j) (recover_cleanup env cfg key r)
    (\<lambda>_ w. pulling rend ck oid cfg j w \<and> gone key w)
    (\<lambda>_. pulling rend ck oid cfg j) (consumer_inv rend ck oid cfg)" (is "hoare ?P _ ?Q ?E ?C")
proof (rule hoare_assume)
  fix w assume w: "?P w"
  have "receipt_ok ck cfg r (cw_log w)"
    using receipts_okD(1) [OF consumer_invD(4) [OF pullingD [OF w]]] r pulling_journal(1) [OF w] by simp
  then have outside: "\<not> spool_key cfg t" if "rc_archive_key r = Some t" for t using that by (simp add: receipt_ok_def)
  have some: "map_of (jn_receipts j) (oid key) \<noteq> None" by (simp add: r)
  have archive: "hoare ?P (case rc_archive_key r of None \<Rightarrow> ret () | Some target \<Rightarrow> match_io (r2_get env target)
      (\<lambda>got. if c_content_key env (ob_raw got) = rc_content_key r then ret ()
         else fail (app_error_new ''cloudflare_archive_conflict''
           ''archive destination does not match the imported mail receipt''))
      (\<lambda>e. if is_not_found e then r2_copy env key target else fail e)) (\<lambda>_. ?P) ?E ?C"
    by (rule hoare_case_option, rule hoare_ret, rule hoare_match [OF get_pulling])
      (auto intro!: hoare_if hoare_ret hoare_fail copy_rule outside)
  have "hoare ?P (recover_cleanup env cfg key r) ?Q ?E ?C"
    unfolding recover_cleanup_def
    by (rule hoare_if, rule acknowledge_rule [OF fitsD(3) [OF f] some outside], assumption, rule hoare_if, rule hoare_fail)
      (rule hoare_then [OF archive delete_rule [OF fitsD(3) [OF f] some]])
  then show "hoare ((=) w) (recover_cleanup env cfg key r) ?Q ?E ?C"
    by (rule hoare_pre) (use w in simp)
qed

lemma keeps_gone_cleaned: "keeps (gone key) (cleaned env oi j)"
  unfolding cleaned_def
  by (rule hoare_case_option, rule hoare_ret, rule hoare_save) (simp_all add: gone_def)

text \<open>An object that is known to be imported is gone from the spool afterwards.\<close>

lemma recover_receipt_rule:
  assumes f: "fits rend ck oid cfg env"
  shows "hoare (consumer_inv rend ck oid cfg) (recover_receipt env cfg key)
    (\<lambda>known w. consumer_inv rend ck oid cfg w \<and> (known \<longrightarrow> gone key w))
    (\<lambda>_. consumer_inv rend ck oid cfg) (consumer_inv rend ck oid cfg)" (is "hoare ?I _ ?Q ?E ?I")
  unfolding recover_receipt_def fitsD(2) [OF f]
proof (rule hoare_bind [OF load_pulling], rule hoare_case_option, rule hoare_ret', simp add: pullingD, rule hoare_if, goal_cases)
  case (1 j r)
  show ?case
  proof (rule hoare_ret')
    fix w assume w: "pulling rend ck oid cfg j w"
    then show "?I w \<and> (True \<longrightarrow> gone key w)"
      using receipt_gone [OF pullingD [OF w] fitsD(3) [OF f]] 1 pulling_journal(1) [OF w] by (simp add: pullingD)
  qed
next
  case (2 j r)
  let ?P = "pulling rend ck oid cfg j"
  have to: "hoare ?P m (\<lambda>_. ?P) ?E ?I" if "keeps ?P m" for m :: "'a ccmd"
    by (rule hoare_weaken [OF that]) (auto dest: pullingD)
  have acknowledged: "hoare (\<lambda>w. ?P w \<and> gone key w) (bind_io (cleaned env (oid key) j) (\<lambda>_. ret True)) ?Q ?E ?I"
  proof (rule hoare_bind)
    show "hoare (\<lambda>w. ?P w \<and> gone key w) (cleaned env (oid key) j) (\<lambda>_ w. ?I w \<and> gone key w) ?E ?I"
      by (rule hoare_weaken [OF hoare_conj [OF cleaned_rule [OF fitsD(3) [OF f]] keeps_gone_cleaned]])
        (auto dest: pullingD)
  qed (rule hoare_ret', simp)
  have cleanup: "hoare ?P (recover_cleanup env cfg key r) (\<lambda>_ w. ?P w \<and> gone key w) ?E ?I"
    by (rule hoare_weaken [OF recover_cleanup_rule [OF f 2(1)]]) (auto dest: pullingD)
  show ?case
    by (rule hoare_bind [OF to [OF core_pred.keeps_read_mail [OF pulling_core]]], rule hoare_if, rule hoare_fail', simp add: pullingD)
      (rule hoare_then [OF to [OF core_pred.keeps_ask_res [OF pulling_core]] hoare_then [OF cleanup acknowledged]])
qed

section \<open>Folding a completion\<close>

definition folded :: "journal \<Rightarrow> bool \<Rightarrow> journal \<Rightarrow> cworld \<Rightarrow> bool" where
  "folded j applied j1 w \<longleftrightarrow> (if applied
     then \<exists>b. jn_active j = Some b \<and> marker_for w b \<and> j1 = complete_tasks (bt_content_keys b) j
     else j1 = j \<and> (\<forall>b. jn_active j = Some b \<longrightarrow> \<not> marker_for w b))"

lemma apply_completed_rule:
  "hoare (pulling rend ck oid cfg j) (apply_completed env j)
    (\<lambda>r w. pulling rend ck oid cfg j w \<and> folded j (fst r) (snd r) w)
    (\<lambda>_. consumer_inv rend ck oid cfg) (consumer_inv rend ck oid cfg)" (is "hoare ?P _ ?Q ?E ?C")
proof -
  have to: "hoare K n (\<lambda>_. K) ?E ?C" if "keeps K n" "\<And>w. K w \<Longrightarrow> ?P w" for n :: "'a ccmd" and K
    by (rule hoare_weaken [OF that(1)]) (auto dest: that(2) pullingD)
  have read: "hoare K (cread env ctxt) (\<lambda>_. K) ?E ?C" if "core_pred K" "\<And>w. K w \<Longrightarrow> ?P w" for ctxt K
    by (rule to [OF core_pred.keeps_read [OF that(1)] that(2)])
  let ?M = "\<lambda>b m w. ?P w \<and> map_of (cw_markers w) (bt_task_id b) = m"
  have M: "core_pred (?M b m)" for b m
    by (intro core_pred_conj pulling_core) (simp add: core_pred_def core_def)
  show ?thesis
    unfolding apply_completed_def
  proof (rule hoare_then [OF to [OF keeps_of_res]], assumption, rule hoare_case_option, goal_cases)
    case 1
    then show ?case by (auto intro!: hoare_ret' simp: folded_def)
  next
    case (2 b)
    show ?case
    proof (rule hoare_then [OF read [OF pulling_core]], assumption, rule hoare_bind_gets)
      fix m
      show "hoare (?M b m) (case m of None \<Rightarrow> ret (False, j)
        | Some BadMarker \<Rightarrow> fail err_completion_invalid
        | Some (MarkerDoc name version tid) \<Rightarrow> then_io (cread env ''read consumer completion marker'')
            (if name \<noteq> ''mail_received_task_completed'' \<or> version \<noteq> 1 \<or> tid \<noteq> bt_task_id b
             then fail err_completion_invalid
             else ret (True, complete_tasks (bt_content_keys b) j))) ?Q ?E ?C"
      proof (cases m)
        case None
        then show ?thesis using 2 by (auto intro!: hoare_ret' simp: folded_def marker_for_def)
      next
        case (Some mk)
        show ?thesis
        proof (cases mk)
          case (MarkerDoc name version tid)
          have last: "hoare (?M b m) (if name \<noteq> ''mail_received_task_completed'' \<or> version \<noteq> 1 \<or> tid \<noteq> bt_task_id b
             then fail err_completion_invalid else ret (True, complete_tasks (bt_content_keys b) j)) ?Q ?E ?C"
            by (rule hoare_if, rule hoare_fail', blast dest: pullingD, rule hoare_ret')
              (use 2 Some in \<open>simp add: folded_def marker_for_def\<close>)
          show ?thesis
            unfolding Some MarkerDoc option.case marker_file.case
            by (rule hoare_then [OF read [OF M] last [unfolded Some MarkerDoc]]) simp
        qed (auto simp: Some intro!: hoare_fail' dest: pullingD)
      qed
    qed
  qed
qed

lemma complete_save:
  assumes p: "pulling rend ck oid cfg j w" and b: "jn_active j = Some b" "marker_for w b"
  defines "j1 \<equiv> complete_tasks (bt_content_keys b) j"
  shows "pulling rend ck oid cfg (prune t j1) (write_journal (prune t j1) (ctick w))"
proof -
  let ?w = "ctick w"
  have p': "pulling rend ck oid cfg j ?w" by (rule pulling_ctick [OF p])
  note d = pulling_journal [OF p] and inv = pullingD [OF p']
  have ok: "journal_ok (prune t j1)" unfolding j1_def by (intro journal_ok_prune journal_ok_complete d(2))
  have finished: "\<forall>k\<in>set (bt_content_keys b). completed_since k (cw_log w)"
    using consumer_invD(6) [OF pullingD [OF p]] b d(1) by (simp add: completion_ok_def Let_def list_all_iff)
  have kept: "map_of (jn_tasks (prune t j1)) k = (if k \<in> set (bt_content_keys b) then None else map_of (jn_tasks j) k)" for k
  proof -
    have "map_of (jn_tasks j) k = Some x \<Longrightarrow> tk_status x \<noteq> TaskCompleted" for x
      using d(3) journal_ok_distinct [OF d(2)] by (auto simp: no_completed_iff)
    then show ?thesis
      using journal_ok_distinct [OF journal_ok_complete [OF d(2)], of "bt_content_keys b"]
      by (auto simp: j1_def prune_tasks complete_tasks_map split: option.splits)
  qed
  have "consumer_inv rend ck oid cfg (write_journal (prune t j1) ?w)"
  proof (rule inv_save [OF inv ok prune_simps(2)], goal_cases)
    case (1 o' r)
    then have "map_of (jn_receipts j) o' = Some r"
      using prune_receipts [of j1 t o' r] journal_ok_distinct [OF d(2)] by (simp add: j1_def)
    then show ?case using d(1) by auto
  next
    case (2 k)
    then show ?case using finished d(1) by (cases "k \<in> set (bt_content_keys b)") (auto simp: kept completed_concluded)
  next
    case (3 k x)
    have "map_of (jn_tasks j) k = None \<or> k \<in> set (bt_content_keys b)"
      using consumer_invD(6) [OF pullingD [OF p]] 3(1) b d(1) by (auto simp: completion_ok_def Let_def)
    then show ?case using 3(2) by (auto simp: kept split: if_splits)
  next
    case (4 b' k)
    then show ?case by (simp add: j1_def)
  qed
  then show ?thesis by (rule pulling_save [OF p'])
qed

text \<open>What holds between the batches: the journal is known, and no marker is left.\<close>

definition unmarked :: "bool \<Rightarrow> (string \<Rightarrow> string) \<Rightarrow> (string \<Rightarrow> string) \<Rightarrow> cf_settings \<Rightarrow> journal \<Rightarrow> cworld \<Rightarrow> bool" where
  "unmarked rend ck oid cfg j w \<longleftrightarrow> pulling rend ck oid cfg j w \<and> cw_markers w = []"

lemma remove_markers_rule:
  assumes "\<And>b. jn_active j = Some b \<Longrightarrow> tid = Some (bt_task_id b)"
  shows "hoare (\<lambda>w. pulling rend ck oid cfg j w \<and> set (map fst (cw_markers w)) \<subseteq> set ids
      \<and> (\<forall>b. jn_active j = Some b \<longrightarrow> bt_task_id b \<notin> set ids))
    (for_io ids (\<lambda>t. when_io (\<not> (jn_active j \<noteq> None \<and> tid = Some t)) (remove_marker env t)))
    (\<lambda>_. unmarked rend ck oid cfg j) (\<lambda>_. consumer_inv rend ck oid cfg) (consumer_inv rend ck oid cfg)"
    (is "hoare (?I ids) _ _ ?E ?C")
proof -
  have step: "hoare (?I (t # ts)) (when_io (\<not> (jn_active j \<noteq> None \<and> tid = Some t)) (remove_marker env t)) (\<lambda>_. ?I ts) ?E ?C"
    for t ts
  proof (rule hoare_when)
    let ?f = "\<lambda>w. w\<lparr>cw_markers := remove t (cw_markers w)\<rparr>"
    have inv: "?I ts (?f (ctick w)) \<and> consumer_inv rend ck oid cfg (ctick w)" if "?I (t # ts) w" for w
    proof -
      have p: "pulling rend ck oid cfg j (ctick w)" using that pulling_ctick by blast
      have "consumer_inv rend ck oid cfg (?f (ctick w))"
        by (rule inv_unmark [OF pullingD [OF p]]) (use that pulling_journal(1) [OF p] in auto)
      moreover have "set (map fst (remove t (cw_markers w))) \<subseteq> set ts" using that unfolding keys_remove by auto
      ultimately show ?thesis using that p by (auto simp: pulling_def held_def)
    qed
    show "hoare (?I (t # ts)) (remove_marker env t) (\<lambda>_. ?I ts) ?E ?C"
      unfolding remove_marker_def by (rule hoare_cdisk) (use inv in \<open>blast dest: pullingD\<close>)+
  next
    fix w
    assume "\<not> \<not> (jn_active j \<noteq> None \<and> tid = Some t)" "?I (t # ts) w"
    then show "?I ts w" using assms by auto
  qed
  show ?thesis
    by (rule hoare_weaken [OF hoare_for_rest [where I = ?I, OF step]]) (auto simp: unmarked_def)
qed

lemma record_completed_rule:
  "hoare (pulling rend ck oid cfg j) (record_completed env j) (unmarked rend ck oid cfg)
    (\<lambda>_. consumer_inv rend ck oid cfg) (consumer_inv rend ck oid cfg)" (is "hoare ?P _ ?Q ?E ?C")
proof -
  let ?tid = "map_option bt_task_id (jn_active j)"
  let ?R = "\<lambda>j2 w. pulling rend ck oid cfg j2 w \<and> (\<forall>b. jn_active j2 = Some b \<longrightarrow> jn_active j = Some b \<and> \<not> marker_for w b)"
  have R: "core_pred (?R j2)" for j2
    by (intro core_pred_conj pulling_core) (auto simp: core_pred_def core_def marker_for_def)
  have save: "hoare (\<lambda>w. pulling rend ck oid cfg j w \<and> folded j a j1 w) (if a then save_journal env j1 else ret j1) ?R ?E ?C" for a j1
  proof (rule hoare_if)
    assume a: "a"
    have s: "pulling rend ck oid cfg (prune t j1) (write_journal (prune t j1) (ctick w)) \<and> jn_active (prune t j1) = None"
      if "pulling rend ck oid cfg j w \<and> folded j a j1 w" for w t
      using that a by (auto simp: folded_def intro!: complete_save)
    show "hoare (\<lambda>w. pulling rend ck oid cfg j w \<and> folded j a j1 w) (save_journal env j1) ?R ?E ?C"
      by (rule hoare_save) (use s in \<open>auto dest: pullingD\<close>)
  qed (rule hoare_ret', auto simp: folded_def)
  have markers: "hoare (\<lambda>w. ?R j2 w \<and> map fst (cw_markers w) = ids)
      (then_io (for_io ids (\<lambda>t. when_io (\<not> (jn_active j2 \<noteq> None \<and> ?tid = Some t)) (remove_marker env t))) (ret j2)) ?Q ?E ?C"
    for j2 ids
  proof (rule hoare_assume)
    fix w assume w: "?R j2 w \<and> map fst (cw_markers w) = ids"
    then have absent: "bt_task_id b \<notin> set ids" if "jn_active j2 = Some b" for b
      using that by (auto simp: marker_for_def map_of_eq_None_iff)
    have "hoare (\<lambda>w. pulling rend ck oid cfg j2 w \<and> set (map fst (cw_markers w)) \<subseteq> set ids
        \<and> (\<forall>b. jn_active j2 = Some b \<longrightarrow> bt_task_id b \<notin> set ids))
      (then_io (for_io ids (\<lambda>t. when_io (\<not> (jn_active j2 \<noteq> None \<and> ?tid = Some t)) (remove_marker env t))) (ret j2)) ?Q ?E ?C"
      by (rule hoare_then [OF remove_markers_rule]) (use w in \<open>auto intro: hoare_ret\<close>)
    then show "hoare ((=) w) (then_io (for_io ids (\<lambda>t. when_io (\<not> (jn_active j2 \<noteq> None \<and> ?tid = Some t))
        (remove_marker env t))) (ret j2)) ?Q ?E ?C"
      by (rule hoare_pre) (use w absent in auto)
  qed
  have list: "hoare (?R j2) (cread env ''list consumer batches'') (\<lambda>_. ?R j2) ?E ?C" for j2
    by (rule hoare_weaken [OF core_pred.keeps_read [OF R]]) (auto dest: pullingD)
  show ?thesis
    unfolding record_completed_def Let_def case_prod_unfold
    by (rule hoare_bind [OF apply_completed_rule hoare_bind [OF save hoare_then [OF list hoare_bind_gets]]]) (rule markers)
qed

section \<open>Gathering a batch\<close>

text \<open>A journal in memory from which tasks were dropped, each with its entry in the history.\<close>

definition trimmed :: "journal \<Rightarrow> journal \<Rightarrow> cworld \<Rightarrow> bool" where
  "trimmed j j' w \<longleftrightarrow> jn_receipts j' = jn_receipts j \<and> distinct (map fst (jn_tasks j'))
     \<and> (\<forall>k. map_of (jn_tasks j') k = map_of (jn_tasks j) k
        \<or> map_of (jn_tasks j') k = None \<and> Dropped k \<in> set (cw_log w))"

definition task_message :: "journal \<Rightarrow> string \<Rightarrow> string" where
  "task_message j k = (case map_of (jn_tasks j) k of None \<Rightarrow> [] | Some t \<Rightarrow> tk_message_id t)"

fun gathering :: "bool \<Rightarrow> (string \<Rightarrow> string) \<Rightarrow> (string \<Rightarrow> string) \<Rightarrow> cf_settings \<Rightarrow> journal \<Rightarrow> batch option \<Rightarrow> nat option
    \<Rightarrow> string list \<Rightarrow> gathered \<Rightarrow> cworld \<Rightarrow> bool" where
  "gathering rend ck oid cfg j a limit xs (keys, items, j') w \<longleftrightarrow> unmarked rend ck oid cfg j w \<and> trimmed j j' w
     \<and> jn_active j' = a \<and> distinct (keys @ xs) \<and> (\<forall>k\<in>set (keys @ xs). pending_task j' k)
     \<and> items = map (task_message j') keys \<and> (\<forall>n. limit = Some n \<longrightarrow> length keys \<le> n)"

lemma unmarked_core: "core_pred (unmarked rend ck oid cfg j)"
  unfolding unmarked_def by (intro core_pred_conj pulling_core) (simp add: core_pred_def core_def)

lemma unmarkedD: "unmarked rend ck oid cfg j w \<Longrightarrow> pulling rend ck oid cfg j w"
  "unmarked rend ck oid cfg j w \<Longrightarrow> consumer_inv rend ck oid cfg w"
  by (auto simp: unmarked_def dest: pullingD)

lemma trimmed_core: "core_pred (trimmed j j')"
  by (simp add: core_pred_def core_def trimmed_def)

lemma gathering_core: "core_pred (gathering rend ck oid cfg j a limit xs acc)"
  using unmarked_core [of rend ck oid cfg j] trimmed_core [of j]
  by (cases acc) (simp add: core_pred_def, blast)

lemma gathering_inv: "gathering rend ck oid cfg j a limit xs acc w \<Longrightarrow> consumer_inv rend ck oid cfg w"
  by (cases acc) (auto dest: unmarkedD)

lemma unmarked_dropped: "unmarked rend ck oid cfg j w \<Longrightarrow> unmarked rend ck oid cfg j (clog (Dropped key) w)"
  by (auto simp: unmarked_def pulling_def held_def intro: inv_note)

text \<open>One task is dropped: the others stay as they are.\<close>

lemma gathering_drop:
  assumes "gathering rend ck oid cfg j a limit (x # xs) (keys, items, j') w"
  shows "gathering rend ck oid cfg j a limit xs (keys, items, j'\<lparr>jn_tasks := remove x (jn_tasks j')\<rparr>) (clog (Dropped x) w)"
proof -
  have "trimmed j (j'\<lparr>jn_tasks := remove x (jn_tasks j')\<rparr>) (clog (Dropped x) w)"
    using assms by (auto simp: trimmed_def distinct_remove)
  moreover have "pending_task (j'\<lparr>jn_tasks := remove x (jn_tasks j')\<rparr>) k" if "k \<in> set (keys @ xs)" for k
    using assms that by (auto simp: pending_task_def)
  moreover have "map (task_message j') keys = map (task_message (j'\<lparr>jn_tasks := remove x (jn_tasks j')\<rparr>)) keys"
    using assms by (auto simp: task_message_def)
  ultimately show ?thesis using assms unmarked_dropped by simp
qed

lemma gathering_keep:
  assumes "gathering rend ck oid cfg j a limit (x # xs) (keys, items, j') w" "map_of (jn_tasks j') x = Some t"
    and "\<And>n. limit = Some n \<Longrightarrow> length keys < n"
  shows "gathering rend ck oid cfg j a limit xs (keys @ [x], items @ [tk_message_id t], j') w"
proof -
  have "length (keys @ [x]) \<le> n" if "limit = Some n" for n using assms(3) [OF that] by simp
  then show ?thesis using assms(1,2) by (simp add: task_message_def)
qed

lemma gather_rule:
  "hoare (gathering rend ck oid cfg j a limit (x # xs) acc) (gather env limit x acc) (gathering rend ck oid cfg j a limit xs)
    (\<lambda>_. consumer_inv rend ck oid cfg) (consumer_inv rend ck oid cfg)" (is "hoare (?I acc) _ ?Q ?E ?C")
proof (cases acc)
  case (fields keys items j')
  have to: "hoare (?I acc) n (\<lambda>_. ?I acc) ?E ?C" if "keeps (?I acc) n" for n :: "'a ccmd"
    by (rule hoare_weaken [OF that]) (auto dest: gathering_inv)
  let ?R = "\<lambda>(mid, j'') w. (case mid of
       None \<Rightarrow> gathering rend ck oid cfg j a limit xs (keys, items, j'') w
     | Some m \<Rightarrow> gathering rend ck oid cfg j a limit xs (keys @ [x], items @ [m], j'') w)"
  have drop: "hoare (?I acc) (drop_task code j' x) ?R ?E ?C" for code
    unfolding drop_task_def
  proof (rule hoare_then [OF to [OF core_pred.keeps_warn(1) [OF gathering_core]]], rule hoare_then [OF hoare_modify'])
    show "gathering rend ck oid cfg j a limit xs (keys, items, j'\<lparr>jn_tasks := remove x (jn_tasks j')\<rparr>) (clog (Dropped x) s)"
      if "?I acc s" for s using gathering_drop that unfolding fields by blast
  qed (rule hoare_ret', simp)
  have read: "hoare (?I acc) (read_mail env mid) (\<lambda>_. ?I acc) (\<lambda>_. ?I acc) ?C" for mid
    by (rule hoare_weaken [OF core_pred.keeps_read_mail [OF gathering_core]]) (auto dest: gathering_inv)
  have body: "hoare (?I acc) (drop_unavailable env x j') ?R ?E ?C" if limit: "\<And>n. limit = Some n \<Longrightarrow> length keys < n"
  proof (rule hoare_assume)
    fix w assume w: "?I acc w"
    then obtain t where t: "map_of (jn_tasks j') x = Some t" by (auto simp: fields pending_task_def split: option.splits)
    have "hoare (?I acc) (drop_unavailable env x j') ?R ?E ?C"
      unfolding drop_unavailable_def t option.case
    proof (rule hoare_bind_gets, rule hoare_pre [where P' = "?I acc"], rule hoare_if, rule drop,
        rule hoare_match [OF read])
      show "hoare (?I acc) (ret (Some (tk_message_id t), j')) ?R ?E ?C"
        unfolding fields by (rule hoare_ret') (simp only: prod.case option.case, rule gathering_keep [OF _ t limit])
    qed (rule drop, blast)
    then show "hoare ((=) w) (drop_unavailable env x j') ?R ?E ?C" by (rule hoare_pre) (use w in simp)
  qed
  show ?thesis
    unfolding gather_def fields prod.case
  proof (rule hoare_if)
    show "hoare (?I (keys, items, j')) (ret (keys, items, j')) ?Q ?E ?C" by (rule hoare_ret') simp
  next
    assume "\<not> (case limit of None \<Rightarrow> False | Some n \<Rightarrow> n \<le> length keys)"
    then have "length keys < n" if "limit = Some n" for n using that by simp
    then show "hoare (?I (keys, items, j')) (bind_io (drop_unavailable env x j') (\<lambda>(mid, j').
        ret (case mid of None \<Rightarrow> (keys, items, j') | Some m \<Rightarrow> (keys @ [x], items @ [m], j')))) ?Q ?E ?C"
      unfolding case_prod_unfold
      by (intro hoare_bind [OF body [unfolded fields case_prod_unfold]] hoare_ret') (auto split: option.splits)
  qed
qed

lemma gather_all_rule:
  "hoare (gathering rend ck oid cfg j a limit xs acc) (fold_io (gather env limit) xs acc) (gathering rend ck oid cfg j a limit [])
    (\<lambda>_. consumer_inv rend ck oid cfg) (consumer_inv rend ck oid cfg)"
  by (rule hoare_fold_rest) (rule gather_rule)

section \<open>The batch to run\<close>

definition batch_ready :: "bool \<Rightarrow> (string \<Rightarrow> string) \<Rightarrow> (string \<Rightarrow> string) \<Rightarrow> cf_settings \<Rightarrow> journal \<Rightarrow> string list \<times> journal
    \<Rightarrow> cworld \<Rightarrow> bool" where
  "batch_ready rend ck oid cfg j r w \<longleftrightarrow> unmarked rend ck oid cfg j w \<and> trimmed j (snd r) w \<and> validate_active (snd r) = Inr ()
     \<and> (\<forall>b. jn_active (snd r) = Some b \<longrightarrow> fst r = map (task_message (snd r)) (bt_content_keys b))"

lemma resume_batch_rule:
  "hoare (unmarked rend ck oid cfg j) (resume_batch env j) (batch_ready rend ck oid cfg j)
    (\<lambda>_. consumer_inv rend ck oid cfg) (consumer_inv rend ck oid cfg)" (is "hoare ?P _ ?Q ?E ?C")
proof (rule hoare_assume)
  fix w assume w: "?P w"
  note ok = pulling_journal(2) [OF unmarkedD(1) [OF w]]
  have base: "trimmed j j s" for s using journal_ok_distinct [OF ok] by (simp add: trimmed_def)
  have "hoare ?P (resume_batch env j) ?Q ?E ?C"
    unfolding resume_batch_def
  proof (rule hoare_case_option, goal_cases)
    case 1
    then show ?case by (intro hoare_ret') (simp add: batch_ready_def base validate_active_def)
  next
    case (2 b)
    note b = journal_okD [OF ok 2]
    have start: "gathering rend ck oid cfg j (Some b) None (bt_content_keys b) ([], [], j) s" if "?P s" for s
      using that base b 2 by (simp add: pending_task_iff)
    have "hoare (gathering rend ck oid cfg j (Some b) None [] acc)
        (ret ((\<lambda>(keys, items, j'). (items, j'\<lparr>jn_active := if keys = [] then None else Some (b\<lparr>bt_content_keys := keys\<rparr>)\<rparr>)) acc))
        ?Q ?E ?C" for acc
    proof (cases acc)
      case (fields keys items j')
      show ?thesis
        unfolding fields
        by (rule hoare_ret')
          (use b(1) in \<open>auto simp: batch_ready_def trimmed_def validate_active_iff batch_shape_def pending_task_def task_message_def list_all_iff\<close>)
    qed
    then show ?case
      by (intro hoare_bind [OF hoare_pre [OF gather_all_rule start]]) (auto simp: case_prod_unfold)
  qed
  then show "hoare ((=) w) (resume_batch env j) ?Q ?E ?C" by (rule hoare_pre) (use w in simp)
qed

lemma batch_ready_fields: "batch_ready rend ck oid cfg j r w \<Longrightarrow> unmarked rend ck oid cfg j w"
  by (simp add: batch_ready_def)

lemma pending_keys_facts:
  assumes "distinct (map fst (jn_tasks j))"
  shows "distinct (pending_keys j)" "k \<in> set (pending_keys j) \<Longrightarrow> pending_task j k"
proof -
  show "distinct (pending_keys j)" using distinct_filter_keys [OF assms] by (simp add: pending_keys_def)
  assume "k \<in> set (pending_keys j)"
  then obtain t where "(k, t) \<in> set (jn_tasks j)" "tk_status t = TaskPending" by (auto simp: pending_keys_def)
  then show "pending_task j k" using assms by (simp add: pending_task_def map_of_is_SomeI)
qed

text \<open>The id of a new batch has the form the journal asks for.\<close>

lemma new_batch_shape:
  assumes "fits rend ck oid cfg env"
  shows "batch_shape (b\<lparr>bt_task_id := new_task_id env keys\<rparr>)"
proof -
  have "length (c_keys_hash env keys) = 64" "list_all safe_id_char (c_keys_hash env keys)"
    using assms by (auto simp: fits_def)
  then show ?thesis
    by (simp add: batch_shape_def new_task_id_def strip_prefix_def safe_id_char_def is_ascii_lower_def)
qed

lemma new_batch_rule:
  assumes f: "fits rend ck oid cfg env"
  shows "hoare (\<lambda>w. batch_ready rend ck oid cfg j (items, j2) w \<and> jn_active j2 = None) (new_batch env cfg j2)
    (\<lambda>r w. batch_ready rend ck oid cfg j r w
       \<and> (\<forall>b. jn_active (snd r) = Some b \<longrightarrow> length (bt_content_keys b) \<le> cf_batch_size cfg))
    (\<lambda>_. consumer_inv rend ck oid cfg) (consumer_inv rend ck oid cfg)" (is "hoare ?P _ ?Q ?E ?C")
proof -
  let ?n = "Some (cf_batch_size cfg)"
  have start: "gathering rend ck oid cfg j None ?n (pending_keys j2) ([], [], j2) s" if "?P s" for s
    using that pending_keys_facts [of j2] by (auto simp: batch_ready_def trimmed_def)
  let ?new = "\<lambda>keys. \<lparr>bt_task_id = new_task_id env keys, bt_content_keys = keys, bt_retry_after = 0, bt_attempt_count = 0,
         bt_last_attempt = None, bt_last_error_code = None, bt_last_exit_code = None\<rparr>"
  have shape: "batch_shape (?new keys)" for keys
    using new_batch_shape [OF f, where b = "?new keys" and keys = keys] by simp
  have "hoare (gathering rend ck oid cfg j None ?n [] acc)
      (ret ((\<lambda>(keys, items, j'). (items, if keys = [] then j' else j'\<lparr>jn_active := Some (?new keys)\<rparr>)) acc)) ?Q ?E ?C" for acc
  proof (cases acc)
    case (fields keys items j')
    show ?thesis
      unfolding fields
      by (rule hoare_ret')
        (use shape in \<open>auto simp: batch_ready_def trimmed_def validate_active_iff pending_task_def task_message_def list_all_iff\<close>)
  qed
  then show ?thesis
    unfolding new_batch_def
    by (intro hoare_bind [OF hoare_pre [OF gather_all_rule start]]) (auto simp: case_prod_unfold)
qed

text \<open>A journal from which tasks were dropped may be saved.\<close>

lemma trimmed_save:
  assumes u: "unmarked rend ck oid cfg j w" and t: "trimmed j j' w" and v: "validate_active j' = Inr ()"
  shows "unmarked rend ck oid cfg (prune u j') (write_journal (prune u j') (ctick w))"
proof -
  have p: "pulling rend ck oid cfg j (ctick w)" by (rule pulling_ctick [OF unmarkedD(1) [OF u]])
  note d = pulling_journal [OF p]
  have dist: "distinct (map fst (jn_tasks j'))" "jn_receipts j' = jn_receipts j" using t by (simp_all add: trimmed_def)
  have tasks: "map_of (jn_tasks j') k = map_of (jn_tasks j) k \<or> map_of (jn_tasks j') k = None \<and> Dropped k \<in> set (cw_log w)" for k
    using t by (simp add: trimmed_def)
  have "map_of (jn_tasks j) k = Some x \<Longrightarrow> tk_status x \<noteq> TaskCompleted" for k x
    using d(3) journal_ok_distinct [OF d(2)] by (auto simp: no_completed_iff)
  then have nc: "no_completed j'" using tasks dist(1) by (metis no_completed_iff option.distinct(1))
  have ok: "journal_ok (prune u j')"
    using v dist journal_ok_distinct [OF d(2)] by (intro journal_ok_prune) (simp add: journal_ok_def)
  have unmarked: "\<not> marker_for (ctick w) b" for b using u by (simp add: marker_for_def unmarked_def)
  have same: "jn_tasks (prune u j') = jn_tasks j'" by (rule prune_tasks_same [OF nc])
  have "consumer_inv rend ck oid cfg (write_journal (prune u j') (ctick w))"
  proof (rule inv_save [OF pullingD [OF p] ok prune_simps(2)], goal_cases)
    case (1 o' r)
    then have "map_of (jn_receipts j) o' = Some r"
      using prune_receipts [of j' u o' r] journal_ok_distinct [OF d(2)] by (simp add: dist(2))
    then show ?case using d(1) by auto
  next
    case (2 k)
    then show ?case using tasks [of k] d(1) by (auto simp: same concluded_def)
  next
    case (3 k x)
    then have "map_of (jn_tasks j) k = None"
      using consumer_invD(6) [OF pullingD [OF p]] d(1) unmarked by (auto simp: completion_ok_def Let_def)
    then show ?case using 3(2) tasks [of k] by (simp add: same)
  next
    case (4 b k)
    then show ?case using unmarked by simp
  qed
  then show ?thesis using pulling_save [OF p] u by (simp add: unmarked_def)
qed

text \<open>What is known of a batch when it is handed to the handler.\<close>

definition attempting :: "bool \<Rightarrow> (string \<Rightarrow> string) \<Rightarrow> (string \<Rightarrow> string) \<Rightarrow> cf_settings \<Rightarrow> batch \<Rightarrow> cworld \<Rightarrow> bool" where
  "attempting rend ck oid cfg b w \<longleftrightarrow> consumer_inv rend ck oid cfg w
     \<and> (\<exists>a. jn_active (disk_journal (cw_log w)) = Some a \<and> bt_task_id a = bt_task_id b
          \<and> bt_content_keys a = bt_content_keys b \<and> 0 < bt_attempt_count a)
     \<and> (\<forall>k\<in>set (bt_content_keys b). \<not> completed_since k (cw_log w))"

lemma attempting_core: "core_pred (attempting rend ck oid cfg b)"
proof -
  have "attempting rend ck oid cfg b w'" if "attempting rend ck oid cfg b w" "core w' = core w" for w w'
    using that core_pred.same_core [OF consumer_inv_core, of rend ck oid cfg w w'] by (simp add: attempting_def core_def)
  then show ?thesis by (simp add: core_pred_def)
qed

lemma attemptingD: "attempting rend ck oid cfg b w \<Longrightarrow> consumer_inv rend ck oid cfg w"
  by (simp add: attempting_def)

lemma saturating_inc_pos: "0 < saturating_inc n"
proof (cases "n = - 1")
  case False
  then have "n + 1 \<noteq> 0" by (metis eq_neg_iff_add_eq_0)
  then show ?thesis using False by (simp add: saturating_inc_def word_gt_0)
qed (simp add: saturating_inc_def word_gt_0)

lemma begin_attempt_rule:
  assumes b: "jn_active j3 = Some b"
  shows "hoare (batch_ready rend ck oid cfg j (items, j3)) (begin_attempt env cfg b items j3)
    (\<lambda>b' w. b' = b \<and> attempting rend ck oid cfg b w) (\<lambda>_. consumer_inv rend ck oid cfg) (consumer_inv rend ck oid cfg)"
    (is "hoare ?P _ ?Q ?E ?C")
proof -
  have P: "core_pred ?P"
    unfolding batch_ready_def by (intro core_pred_conj unmarked_core trimmed_core) (simp_all add: core_pred_def)
  have to: "hoare ?P n (\<lambda>_. ?P) ?E ?C" if "keeps ?P n" for n :: "'a ccmd"
    by (rule hoare_weaken [OF that]) (auto dest: batch_ready_fields unmarkedD)
  have save: "hoare ?P (save_journal env (j3\<lparr>jn_active := Some (note_attempt t stamp cfg b)\<rparr>))
      (\<lambda>_. attempting rend ck oid cfg b) ?E ?C" for t stamp
  proof -
    let ?a = "note_attempt t stamp cfg b"
    let ?j = "j3\<lparr>jn_active := Some ?a\<rparr>"
    have s: "attempting rend ck oid cfg b (write_journal (prune u ?j) (ctick w)) \<and> consumer_inv rend ck oid cfg w"
      if w: "?P w" for w u
    proof -
      have v: "validate_active ?j = Inr ()"
        using w b by (auto simp: batch_ready_def validate_active_iff note_attempt_def batch_shape_def list_all_iff pending_task_def)
      have u: "unmarked rend ck oid cfg (prune u ?j) (write_journal (prune u ?j) (ctick w))"
        using w v by (intro trimmed_save [where j = j]) (auto simp: batch_ready_def trimmed_def)
      have "\<not> completed_since k (cw_log (write_journal (prune u ?j) (ctick w)))" if k: "k \<in> set (bt_content_keys b)" for k
      proof
        assume c: "completed_since k (cw_log (write_journal (prune u ?j) (ctick w)))"
        have "pending_task (prune u ?j) k"
          using journal_okD(4) [OF pulling_journal(2) [OF unmarkedD(1) [OF u]], of ?a k] k
          by (simp add: pending_task_iff note_attempt_def)
        moreover have "map_of (jn_tasks (prune u ?j)) k = None"
          using consumer_invD(6) [OF unmarkedD(2) [OF u]] c u
          by (auto simp: completion_ok_def Let_def marker_for_def unmarked_def)
        ultimately show False by (simp add: pending_task_def)
      qed
      then show ?thesis
        using unmarkedD(2) [OF u] w
        by (auto simp: attempting_def note_attempt_def saturating_inc_pos dest: batch_ready_fields unmarkedD)
    qed
    show ?thesis by (rule hoare_save) (use s in \<open>auto dest: attemptingD\<close>)
  qed
  show ?thesis
    unfolding begin_attempt_def epoch_def
    by (rule hoare_then [OF to [OF core_pred.keeps_disk [OF P]] hoare_bind [OF to [OF keeps_gets]
        hoare_bind [OF to [OF keeps_gets] hoare_bind [OF save]]]]) (simp_all add: hoare_ret')
qed

end
