(* ===== verification/Consumer_Frame.thy ===== *)
theory Consumer_Frame
  imports Consumer_Dispatch
begin

text \<open>
  A pull leaves the active batch of the journal alone: other processes that pull while the handler
  runs do not take its batch away.
\<close>

section \<open>The active batch on disk\<close>

definition active_is :: "batch option \<Rightarrow> cworld \<Rightarrow> bool" where
  "active_is a w \<longleftrightarrow> cw_journal w = file_of (cw_log w) \<and> jn_active (disk_journal (cw_log w)) = a"

lemma active_core: "core_pred (active_is a)"
  by (simp add: core_pred_def core_def active_is_def)

interpretation active: core_pred "active_is a" for a
  by (rule active_core)

text \<open>An operation on a journal in memory keeps the active batch of it.\<close>

definition keeps_active :: "batch option \<Rightarrow> (journal \<Rightarrow> journal ccmd) \<Rightarrow> bool" where
  "keeps_active a f \<longleftrightarrow> (\<forall>j. jn_active j = a \<longrightarrow>
     hoare (active_is a) (f j) (\<lambda>j' w. active_is a w \<and> jn_active j' = a) (\<lambda>_. active_is a) (active_is a))"

definition journal_active :: "batch option \<Rightarrow> pull_state \<Rightarrow> bool" where
  "journal_active a st \<longleftrightarrow> (\<forall>j. pl_journal st = Some j \<longrightarrow> jn_active j = a)"

definition active_loop :: "batch option \<Rightarrow> pull_state \<Rightarrow> cworld \<Rightarrow> bool" where
  "active_loop a st w \<longleftrightarrow> journal_active a st \<and> active_is a w"

lemma keeps_activeI:
  "(\<And>j. jn_active j = a \<Longrightarrow>
     hoare (active_is a) (f j) (\<lambda>j' w. active_is a w \<and> jn_active j' = a) (\<lambda>_. active_is a) (active_is a)) \<Longrightarrow> keeps_active a f"
  by (simp add: keeps_active_def)

lemma active_save:
  "jn_active j = a \<Longrightarrow> hoare (active_is a) (save_journal env j) (\<lambda>j' w. active_is a w \<and> jn_active j' = a)
    (\<lambda>_. active_is a) (active_is a)"
  by (rule hoare_save) (auto simp: active_is_def write_journal_def)

lemma active_ops:
  "keeps_active a (withdraw env k)" "keeps_active a (imported env oi r)" "keeps_active a (cleaned env oi)"
  "jn_active j = a \<Longrightarrow> hoare (active_is a) (prepare env raw j) (\<lambda>r w. active_is a w \<and> jn_active (snd r) = a)
     (\<lambda>_. active_is a) (active_is a)"
proof -
  show "keeps_active a (withdraw env k)"
    unfolding withdraw_def by (rule keeps_activeI) (auto intro!: hoare_ret' active_save split: option.split)
  show "keeps_active a (imported env oi r)"
    unfolding imported_def Let_def by (rule keeps_activeI, rule active_save) (simp add: mark_imported_tasks)
  show "keeps_active a (cleaned env oi)"
    unfolding cleaned_def by (rule keeps_activeI) (auto intro!: hoare_ret' active_save split: option.split)
  assume j: "jn_active j = a"
  show "hoare (active_is a) (prepare env raw j) (\<lambda>r w. active_is a w \<and> jn_active (snd r) = a) (\<lambda>_. active_is a) (active_is a)"
    unfolding prepare_def Let_def
    by (rule hoare_bind [OF keeps_gets], rule hoare_if, rule hoare_bind [OF active_save]) (auto simp: j intro!: hoare_ret')
qed

lemma active_with_journal:
  assumes "journal_active a st" "keeps_active a f"
  shows "hoare (active_is a) (with_journal f st) (active_loop a) (\<lambda>_. active_is a) (active_is a)"
  unfolding with_journal_def
proof (rule hoare_case_option)
  show "hoare (active_is a) (ret st) (active_loop a) (\<lambda>_. active_is a) (active_is a)"
    by (rule hoare_ret') (simp add: active_loop_def assms(1))
  fix j
  assume "pl_journal st = Some j"
  then have "hoare (active_is a) (f j) (\<lambda>j' w. active_is a w \<and> jn_active j' = a) (\<lambda>_. active_is a) (active_is a)"
    using assms by (simp add: journal_active_def keeps_active_def)
  then show "hoare (active_is a) (bind_io (f j) (\<lambda>j'. ret (st\<lparr>pl_journal := Some j'\<rparr>))) (active_loop a) (\<lambda>_. active_is a) (active_is a)"
    by (rule hoare_bind) (auto intro!: hoare_ret' simp: active_loop_def journal_active_def)
qed

section \<open>Importing\<close>

lemma active_index: "keeps (active_is a) (in_index f)"
  unfolding in_index_def by (rule hoare_modify') (simp add: active_is_def)

lemma active_merge: "keeps (active_is a) (merge_ingest env input mid)"
  by (rule merge_ingest_rule [OF active_core]) (simp add: active_is_def)

lemma active_publish: "keeps (active_is a) (publish_raw env mid raw)"
  unfolding publish_raw_def by (rule hoare_cdisk) (auto simp: active_is_def)

lemma active_ingest: "keeps (active_is a) (ingest_message env input)"
proof -
  have "keeps (active_is a) (store_ingest env input)"
    unfolding store_ingest_def Let_def
    by (intro active.core_rules active.keeps_persist active.keeps_disposition active.keeps_write_cache active_publish
        keeps_triage_view active_core active_index active.keeps_merge_delivery)
  then show ?thesis
    unfolding ingest_message_def by (intro active.core_rules active_merge)
qed

section \<open>The spool\<close>

lemma active_remove [simp]: "active_is a (remove_object key w) = active_is a w"
  by (simp add: remove_object_def active_is_def split: option.split)

lemma active_copied [simp]: "active_is a (copy_object key t w) = active_is a w"
  by (simp add: copy_object_def active_is_def split: option.split)

lemma active_net: "(\<And>w. active_is a (f w) = active_is a w) \<Longrightarrow> keeps (active_is a) (cnet env f)"
  by (rule hoare_cnet) (auto simp: active_is_def)

lemma active_acknowledge: "keeps (active_is a) (r2_acknowledge env cfg key archive quota)"
proof -
  have "keeps (active_is a) (r2_copy env key t)" for t
    unfolding r2_copy_def by (intro active.core_rules active_net) simp_all
  moreover have "keeps (active_is a) (r2_delete env key)" unfolding r2_delete_def by (rule active_net) simp
  moreover have "keeps (active_is a) (cnet env (\<lambda>w. remove_object key (case archive of None \<Rightarrow> w | Some t \<Rightarrow> copy_object key t w)))"
    by (rule active_net) (simp split: option.split)
  ultimately show ?thesis unfolding r2_acknowledge_def by (intro active.core_rules)
qed

lemma active_get: "keeps (active_is a) (r2_get env key)"
  unfolding r2_get_def by (intro active.core_rules active_net) simp

lemma active_loop_ret: "journal_active a st \<Longrightarrow> hoare (active_is a) (ret st) (active_loop a) E C"
  by (rule hoare_ret') (simp add: active_loop_def)

lemma active_cleanup:
  assumes "journal_active a st"
  shows "hoare (active_is a) (cleanup_object env cfg key quota st) (active_loop a) (\<lambda>_. active_is a) (active_is a)"
proof -
  have ack: "hoare (active_is a) (then_io (r2_acknowledge env cfg key t quota) (ret st')) (active_loop a) (\<lambda>_. active_is a) (active_is a)"
    if "pl_journal st' = pl_journal st" for t st'
    by (rule hoare_then [OF active_acknowledge], rule active_loop_ret) (use assms that in \<open>simp add: journal_active_def\<close>)
  have clean: "hoare (active_loop a st') (with_journal (cleaned env oi) st') (active_loop a) (\<lambda>_. active_is a) (active_is a)" for st' oi
    unfolding active_loop_def [of _ st'] by (rule hoare_pure_pre, rule active_with_journal [OF _ active_ops(3)])
  have warn: "hoare (active_is a) (ret (warned c st)) (active_loop a) (\<lambda>_. active_is a) (active_is a)" for c
    by (rule active_loop_ret) (use assms in \<open>simp add: journal_active_def warned_def\<close>)
  show ?thesis
    unfolding cleanup_object_def
    by (rule hoare_match [where R = "active_loop a" and H = "\<lambda>_. active_is a"])
      (auto intro!: ack clean warn hoare_fail split: option.split)
qed

lemma active_record:
  assumes "journal_active a st"
  shows "hoare (active_is a) (record_import env cfg key ob out st) (active_loop a) (\<lambda>_. active_is a) (active_is a)"
  unfolding record_import_def epoch_def Let_def
proof (rule hoare_bind [OF keeps_gets hoare_bind [OF active_with_journal [OF assms active_ops(2)]]])
  fix st1
  let ?st = "count_outcome out (byte_count (ob_raw ob)) (if has_duplicate_candidates out then warned ''duplicate_candidate'' st1 else st1)"
  have j: "pl_journal ?st = pl_journal st1" by (cases out) (auto simp: count_outcome_def warned_def)
  show "hoare (active_loop a st1) (cleanup_object env cfg key (ob_quota ob) ?st) (active_loop a) (\<lambda>_. active_is a) (active_is a)"
    unfolding active_loop_def [of _ st1] by (intro hoare_pure_pre active_cleanup) (simp add: journal_active_def j)
qed

lemma active_import:
  assumes "journal_active a st"
  shows "hoare (active_is a) (import_downloaded env cfg key ob st) (active_loop a) (\<lambda>_. active_is a) (active_is a)" (is "hoare ?A _ ?Q ?E ?C")
proof -
  let ?R = "\<lambda>r w. journal_active a (snd r) \<and> ?A w"
  have prep: "hoare ?A (prepare_object env raw st) ?R ?E ?C" for raw
    unfolding prepare_object_def
  proof (rule hoare_case_option)
    show "hoare ?A (ret (False, st)) ?R ?E ?C" by (rule hoare_ret') (simp add: assms)
    fix j assume "pl_journal st = Some j"
    then have "jn_active j = a" using assms by (simp add: journal_active_def)
    then show "hoare ?A (bind_io (prepare env raw j) (\<lambda>(prepared, j'). ret (prepared, st\<lparr>pl_journal := Some j'\<rparr>))) ?R ?E ?C"
      by (intro hoare_bind [OF active_ops(4)]) (auto intro!: hoare_ret' simp: case_prod_unfold journal_active_def)
  qed
  have err: "hoare ?A (if c then fail e else bind_io (if p then with_journal (withdraw env k) st1 else ret st1)
      (\<lambda>st2. ret (warned x st2))) ?Q ?E ?C" if st1: "journal_active a st1" for c e p k st1 x
    by (rule hoare_if, rule hoare_fail, rule hoare_bind [where R = "active_loop a"], rule hoare_if,
        rule active_with_journal [OF st1 active_ops(1)], rule active_loop_ret [OF st1], rule hoare_ret')
      (simp add: active_loop_def journal_active_def warned_def)
  have body: "hoare (?R r) (match_io (ingest_message env input) (\<lambda>outcome. record_import env cfg key ob outcome (snd r))
      (\<lambda>e. if error_code e = ''store_error'' then fail e
         else bind_io (if fst r then with_journal (withdraw env k) (snd r) else ret (snd r))
           (\<lambda>st2. ret (warned (error_code e) st2)))) ?Q ?E ?C" for r input k
    by (intro hoare_pure_pre hoare_match [OF active_ingest] active_record err)
  show ?thesis
    unfolding import_downloaded_def case_prod_unfold
    by (rule hoare_if, rule active_loop_ret) (use assms in \<open>auto simp: journal_active_def skipped_def intro!: hoare_bind [OF prep] body\<close>)
qed

lemma active_pull_object: "hoare (active_loop a st) (pull_object env cfg opts ob st) (active_loop a) (\<lambda>_. active_is a) (active_is a)"
  (is "hoare _ _ ?Q ?E ?C")
proof -
  have "hoare (active_is a) (pull_object env cfg opts ob st) ?Q ?E ?C" if st: "journal_active a st"
  proof -
    have same: "journal_active a (st\<lparr>pl_candidates := n\<rparr>)" for n using st by (simp add: journal_active_def)
    have r: "hoare (active_is a) (ret st') ?Q ?E ?C" if "pl_journal st' = pl_journal st" for st'
      by (rule active_loop_ret) (use st that in \<open>simp add: journal_active_def\<close>)
    show ?thesis
      unfolding pull_object_def Let_def
      by (intro hoare_case_option hoare_if hoare_match [OF active_get] active_import [OF same] r hoare_fail)
        (simp_all add: skipped_def warned_def)
  qed
  then show ?thesis unfolding active_loop_def [of _ st] by (rule hoare_pure_pre)
qed

text \<open>Whoever pulls, the active batch stays.\<close>

lemma active_pull: "keeps (active_is a) (pull_objects env fuel cfg opts selected)" (is "keeps ?A _")
proof -
  have listed: "keeps ?A (case selected of Some obs \<Rightarrow> ret obs | None \<Rightarrow> list_pages fuel env None [] [])"
    by (cases selected) (auto intro: keeps_ret list_pages_rule active_core)
  have index: "keeps ?A (if po_dry_run opts then ret empty_index else load_index env)"
  proof -
    have "keeps ?A (modify (clog (Found mid raw)))" for mid raw by (rule hoare_modify') (simp add: active_is_def)
    then show ?thesis
      unfolding load_index_def case_prod_unfold by (intro active.core_rules keeps_fold active.keeps_read_mail)
  qed
  let ?L = "\<lambda>j w. ?A w \<and> (\<forall>j'. j = Some j' \<longrightarrow> jn_active j' = a)"
  have load: "hoare ?A (if \<not> po_dry_run opts \<and> journal_enabled cfg then bind_io (load_journal env) (\<lambda>j. ret (Some j)) else ret None)
      ?L (\<lambda>_. ?A) ?A"
    by (rule hoare_if, rule hoare_bind [OF load_held [OF active_core]]) (auto intro!: hoare_ret' simp: active_is_def held_def)
  have loop: "hoare (?L j) (fold_io (pull_object env cfg opts) obs (start_state opts j)) (\<lambda>_. ?A) (\<lambda>_. ?A) ?A" for j obs
    by (rule hoare_weaken [OF hoare_fold [where I = "active_loop a"]], rule active_pull_object)
      (auto simp: active_loop_def journal_active_def start_state_def)
  have rest: "keeps ?A (then_io (when_io (\<not> po_dry_run opts) (cask_res (c_refresh env))) (ret st))" for st
    by (intro active.core_rules)
  show ?thesis
    unfolding pull_objects_def Let_def
    by (rule hoare_then [OF active.keeps_ask_res hoare_bind [OF listed hoare_bind [OF index hoare_then [OF active_index
        hoare_bind [OF load hoare_bind [OF loop rest]]]]]])
qed

end
