(* ===== verification/Consumer_History.thy ===== *)
theory Consumer_History
  imports Consumer_Frame
begin

text \<open>
  The consumer among other processes: what may happen while its handler runs, the dispatch of a
  batch and a whole tick under that interference, and the histories of a workspace.
\<close>

section \<open>Other processes\<close>

text \<open>What other programs do without the consumer: mail is changed and spooled, but a key the journal
  knows is not written again.\<close>

definition others :: "(string \<Rightarrow> string) \<Rightarrow> cf_settings \<Rightarrow> cworld \<Rightarrow> cworld \<Rightarrow> bool" where
  "others oid cfg w w' \<longleftrightarrow> cw_journal w' = cw_journal w \<and> cw_markers w' = cw_markers w \<and> cw_log w' = cw_log w
     \<and> (cw_index w' = cw_index w \<or> cw_index w' = empty_index)
     \<and> (\<forall>key ob. spool_key cfg key \<longrightarrow> map_of (cw_bucket w') key = Some ob \<longrightarrow> map_of (cw_bucket w) key = Some ob
          \<or> map_of (jn_receipts (disk_journal (cw_log w))) (oid key) = None)"

inductive meanwhile :: "bool \<Rightarrow> (string \<Rightarrow> string) \<Rightarrow> (string \<Rightarrow> string) \<Rightarrow> cf_settings \<Rightarrow> cworld \<Rightarrow> cworld \<Rightarrow> bool"
  for rend ck oid cfg where
  meanwhile_refl: "meanwhile rend ck oid cfg w w"
| meanwhile_others: "meanwhile rend ck oid cfg w w' \<Longrightarrow> others oid cfg w' w'' \<Longrightarrow> meanwhile rend ck oid cfg w w''"
| meanwhile_pull: "meanwhile rend ck oid cfg w w' \<Longrightarrow> fits rend ck oid cfg env \<Longrightarrow>
    pull_objects env fuel cfg opts selected w' = (r, w'') \<Longrightarrow> meanwhile rend ck oid cfg w w''"

lemma keeps_result: "keeps I m \<Longrightarrow> m w = (r, w') \<Longrightarrow> I w \<Longrightarrow> I w'"
  by (cases r) (auto simp: hoare_def split: prod.splits)

lemma others_inv:
  assumes inv: "consumer_inv rend ck oid cfg w" and o: "others oid cfg w w'"
  shows "consumer_inv rend ck oid cfg w'"
proof -
  have log: "cw_log w' = cw_log w" "cw_journal w' = cw_journal w" "cw_markers w' = cw_markers w"
    using o by (simp_all add: others_def)
  have "receipts_ok ck oid cfg w'"
    unfolding receipts_ok_def
  proof (intro allI impI)
    fix o' r
    assume "map_of (jn_receipts (disk_journal (cw_log w'))) o' = Some r"
    then have r: "map_of (jn_receipts (disk_journal (cw_log w))) o' = Some r" by (simp add: log)
    note k = receipts_okD [OF consumer_invD(4) [OF inv] r]
    show "receipt_ok ck cfg r (cw_log w') \<and> (\<exists>key. o' = oid key \<and> spool_key cfg key
        \<and> (\<forall>ob. map_of (cw_bucket w') key = Some ob \<longrightarrow> spooled_ok ck r ob))"
      using k r o unfolding others_def log(1) by (metis option.distinct(1))
  qed
  moreover have "completion_ok w'"
    using consumer_invD(6) [OF inv] by (simp add: completion_ok_def marker_for_def log)
  moreover have "index_ok ck w'"
    using consumer_invD(8) [OF inv] o by (auto simp: index_ok_def others_def empty_index_def)
  ultimately show ?thesis using inv by (simp add: consumer_inv_def log)
qed

lemma meanwhile_inv:
  "meanwhile rend ck oid cfg w w' \<Longrightarrow> consumer_inv rend ck oid cfg w \<Longrightarrow> consumer_inv rend ck oid cfg w'"
proof (induction rule: meanwhile.induct)
  case (meanwhile_pull w w' env fuel opts selected r w'')
  then show ?case using keeps_result [OF pull_objects_rule] by blast
qed (auto intro: others_inv)

lemma meanwhile_active: "meanwhile rend ck oid cfg w w' \<Longrightarrow> active_is a w \<Longrightarrow> active_is a w'"
proof (induction rule: meanwhile.induct)
  case (meanwhile_pull w w' env fuel opts selected r w'')
  then show ?case using keeps_result [OF active_pull] by blast
qed (auto simp: active_is_def others_def)

definition interferes :: "bool \<Rightarrow> (string \<Rightarrow> string) \<Rightarrow> (string \<Rightarrow> string) \<Rightarrow> cf_settings \<Rightarrow> cenv \<Rightarrow> bool" where
  "interferes rend ck oid cfg env \<longleftrightarrow> (\<forall>n w. meanwhile rend ck oid cfg w (c_during env n w))"

section \<open>Running the handler\<close>

text \<open>A batch whose handler was started: it is still the active one on disk.\<close>

definition running :: "bool \<Rightarrow> (string \<Rightarrow> string) \<Rightarrow> (string \<Rightarrow> string) \<Rightarrow> cf_settings \<Rightarrow> batch \<Rightarrow> cworld \<Rightarrow> bool" where
  "running rend ck oid cfg b w \<longleftrightarrow> consumer_inv rend ck oid cfg w
     \<and> (\<exists>a. jn_active (disk_journal (cw_log w)) = Some a \<and> bt_task_id a = bt_task_id b \<and> bt_content_keys a = bt_content_keys b)"

lemma running_core: "core_pred (running rend ck oid cfg b)"
proof -
  have "running rend ck oid cfg b w'" if "running rend ck oid cfg b w" "core w' = core w" for w w'
    using that core_pred.same_core [OF consumer_inv_core, of rend ck oid cfg w w'] by (simp add: running_def core_def)
  then show ?thesis by (simp add: core_pred_def)
qed

lemma runningD: "running rend ck oid cfg b w \<Longrightarrow> consumer_inv rend ck oid cfg w"
  by (simp add: running_def)

lemma attempting_running: "attempting rend ck oid cfg b w \<Longrightarrow> running rend ck oid cfg b w"
  by (auto simp: attempting_def running_def)

lemma attempting_started:
  assumes "attempting rend ck oid cfg b w"
  shows "started_ok (bt_task_id b) (bt_content_keys b) (cw_log w)"
proof -
  obtain a where a: "jn_active (disk_journal (cw_log w)) = Some a" "bt_task_id a = bt_task_id b"
      "bt_content_keys a = bt_content_keys b" "0 < bt_attempt_count a"
    using assms by (auto simp: attempting_def)
  have "list_all (pending_task (disk_journal (cw_log w))) (bt_content_keys b)"
    using journal_okD(4) [OF consumer_invD(2) [OF attemptingD [OF assms]] a(1)] a(3) by (simp add: list_all_iff pending_task_iff)
  then show ?thesis using assms a by (simp add: started_ok_def attempting_def list_all_iff)
qed

lemma run_handler_rule:
  assumes "interferes rend ck oid cfg env"
  shows "hoare (attempting rend ck oid cfg b) (run_handler env cfg b) (\<lambda>_. running rend ck oid cfg b)
    (\<lambda>_. running rend ck oid cfg b) (consumer_inv rend ck oid cfg)" (is "hoare ?P _ ?Q ?E ?C")
proof -
  let ?w = "\<lambda>w. c_during env (cw_tick w) (clog (Started (bt_task_id b) (bt_content_keys b)) (ctick w))"
  have run: "running rend ck oid cfg b (?w w)" and stay: "running rend ck oid cfg b (ctick w)" if w: "?P w" for w
  proof -
    have t: "?P (ctick w)" by (rule core_pred.same_core [OF attempting_core w]) simp
    let ?s = "clog (Started (bt_task_id b) (bt_content_keys b)) (ctick w)"
    have inv: "consumer_inv rend ck oid cfg ?s" by (rule inv_start [OF attemptingD [OF t] attempting_started [OF t]])
    obtain a where a: "jn_active (disk_journal (cw_log ?s)) = Some a" "bt_task_id a = bt_task_id b"
        "bt_content_keys a = bt_content_keys b" using t by (auto simp: attempting_def)
    then have "active_is (Some a) ?s" using consumer_invD(1) [OF inv] by (simp add: active_is_def)
    moreover have m: "meanwhile rend ck oid cfg ?s (?w w)" using assms by (simp add: interferes_def)
    ultimately have "active_is (Some a) (?w w)" by (rule meanwhile_active [rotated])
    then show "running rend ck oid cfg b (?w w)"
      using meanwhile_inv [OF m inv] a by (simp add: running_def active_is_def)
    show "running rend ck oid cfg b (ctick w)" by (rule attempting_running [OF t])
  qed
  have "case run_handler env cfg b w of (Done a, s') \<Rightarrow> ?Q a s' | (Fail e, s') \<Rightarrow> ?E e s' | (Killed, s') \<Rightarrow> ?C s'" if "?P w" for w
    using run [OF that] stay [OF that] attempting_running [OF that] runningD [OF run [OF that]]
    by (auto simp: run_handler_def Let_def fail_def split: handler_result.split)
  then show ?thesis unfolding hoare_def by blast
qed

lemma running_save:
  assumes r: "running rend ck oid cfg b w" and p: "pulling rend ck oid cfg j w" and a: "jn_active j = Some a"
    and same: "bt_task_id a' = bt_task_id a" "bt_content_keys a' = bt_content_keys a"
  shows "running rend ck oid cfg b (write_journal (prune t (j\<lparr>jn_active := Some a'\<rparr>)) (ctick w))"
proof -
  let ?j = "j\<lparr>jn_active := Some a'\<rparr>"
  have p': "pulling rend ck oid cfg j (ctick w)" by (rule pulling_ctick [OF p])
  note d = pulling_journal [OF p']
  have ok: "journal_ok ?j"
    using d(2) a same by (auto simp: journal_ok_def validate_active_iff batch_shape_def pending_task_def list_all_iff)
  have nc: "no_completed ?j" using d(3) by (simp add: no_completed_def)
  have tasks: "jn_tasks (prune t ?j) = jn_tasks j" by (simp add: prune_tasks_same [OF nc])
  have marker: "marker_for w a' = marker_for w a" for w by (simp add: marker_for_def same)
  note c = consumer_invD(6) [OF pullingD [OF p'], unfolded completion_ok_def Let_def d(1)]
  have "consumer_inv rend ck oid cfg (write_journal (prune t ?j) (ctick w))"
  proof (rule inv_save [OF pullingD [OF p'] journal_ok_prune [OF ok] prune_simps(2)], goal_cases)
    case (1 o' r)
    then have "map_of (jn_receipts j) o' = Some r"
      using prune_receipts [of ?j t o' r] journal_ok_distinct [OF d(2)] by simp
    then show ?case using d(1) by auto
  next
    case (2 k)
    then show ?case using d(1) by (auto simp: tasks)
  next
    case (3 k x)
    then show ?case using c a same marker by (auto simp: tasks)
  next
    case (4 b' k)
    then show ?case using c a same marker by (auto simp: list_all_iff)
  qed
  then show ?thesis using r a same d(1) by (auto simp: running_def)
qed

text \<open>Recording the failure leaves the batch as it is, to be run again.\<close>

lemma record_handler_failure_rule:
  "hoare (running rend ck oid cfg b) (record_handler_failure env cfg b e) (\<lambda>_. running rend ck oid cfg b)
    (\<lambda>_. running rend ck oid cfg b) (consumer_inv rend ck oid cfg)" (is "hoare ?P _ ?Q ?E ?C")
proof -
  have to: "hoare K n (\<lambda>_. K) (\<lambda>_. ?P) ?C" if "keeps K n" "\<And>w. K w \<Longrightarrow> ?P w" for n :: "'a ccmd" and K
    by (rule hoare_weaken [OF that(1)]) (auto dest: that(2) runningD)
  have load: "hoare ?P (load_journal env) (\<lambda>j w. ?P w \<and> pulling rend ck oid cfg j w) ?E ?C"
    by (rule hoare_weaken [OF load_held [OF running_core]]) (auto simp: pulling_def dest: runningD consumer_invD(1))
  have save: "hoare (\<lambda>w. ?P w \<and> pulling rend ck oid cfg j w)
      (bind_io (save_journal env (j\<lparr>jn_active := Some (record_failure t e cfg a)\<rparr>)) (\<lambda>_. ret ())) ?Q ?E ?C"
    if a: "jn_active j = Some a" for j a t
  proof -
    have s: "?P (write_journal (prune u (j\<lparr>jn_active := Some (record_failure t e cfg a)\<rparr>)) (ctick w)) \<and> ?P (ctick w)"
      if "?P w \<and> pulling rend ck oid cfg j w" for w u
      using that a by (auto intro!: running_save intro: core_pred.same_core [OF running_core] simp: record_failure_def)
    show ?thesis
      by (rule hoare_bind [where R = "\<lambda>_. ?P"], rule hoare_save) (use s in \<open>auto intro: hoare_ret dest: runningD\<close>)
  qed
  have body: "hoare (\<lambda>w. ?P w \<and> pulling rend ck oid cfg j w) (case jn_active j of
        Some a \<Rightarrow> if bt_task_id a = bt_task_id b
          then bind_io (epoch env) (\<lambda>t. bind_io (save_journal env (j\<lparr>jn_active := Some (record_failure t e cfg a)\<rparr>)) (\<lambda>_. ret ()))
          else ret ()
      | None \<Rightarrow> ret ()) ?Q ?E ?C" for j
    unfolding epoch_def
    by (rule hoare_case_option, rule hoare_ret', blast, rule hoare_if, rule hoare_bind [OF to [OF keeps_gets]], blast, erule save)
      (rule hoare_ret', blast)
  have lock: "keeps ?P (cask_res (c_lock env))" "keeps ?P (warn c)" for c
    by (rule core_pred.keeps_ask_res [OF running_core], rule core_pred.keeps_warn(1) [OF running_core])
  show ?thesis
    unfolding record_handler_failure_def
    by (rule hoare_match [OF hoare_then [OF to [OF lock(1)] hoare_bind [OF load body]]]) (auto intro: hoare_ret to [OF lock(2)])
qed

text \<open>An event of the history stays in it.\<close>

definition logged :: "cevent \<Rightarrow> cworld \<Rightarrow> bool" where
  "logged e w \<longleftrightarrow> e \<in> set (cw_log w)"

lemma logged_core: "core_pred (logged e)"
  by (simp add: core_pred_def core_def logged_def)

interpretation logged: core_pred "logged e" for e
  by (rule logged_core)

lemma logged_save: "keeps (logged e) (save_journal env j)"
  by (rule hoare_save) (simp_all add: logged_def)

lemma logged_load: "keeps (logged e) (load_journal env)"
  unfolding load_journal_def
proof (rule keeps_then [OF logged.keeps_read keeps_bind [OF keeps_gets]])
  show "keeps (logged e) (case f of
     NoJournal \<Rightarrow> ret default_journal
   | BadJournal \<Rightarrow> fail (err_journal_invalid ''Cloudflare consumer journal is invalid; restore it from a trusted backup'')
   | JournalDoc name version j \<Rightarrow>
       if name \<noteq> ''cloudflare_consumer'' \<or> version \<noteq> JOURNAL_SCHEMA_VERSION
       then fail (err_journal_invalid ''unsupported Cloudflare consumer journal schema'')
       else then_io (of_res (validate_active j)) (ret j))" for f
    by (cases f) (simp_all add: hoare_rules)
qed

lemma logged_completed: "keeps (logged e) (record_completed env j)"
proof -
  have marker: "keeps (logged e) (case m of None \<Rightarrow> ret (False, j) | Some BadMarker \<Rightarrow> fail err_completion_invalid
      | Some (MarkerDoc name version tid) \<Rightarrow> then_io (cread env ''read consumer completion marker'')
          (if name \<noteq> ''mail_received_task_completed'' \<or> version \<noteq> 1 \<or> tid \<noteq> bt_task_id b
           then fail err_completion_invalid
           else ret (True, complete_tasks (bt_content_keys b) j)))" for m b
    by (cases m) (auto intro!: keeps_ret keeps_fail keeps_then logged.keeps_read split: marker_file.split)
  have "keeps (logged e) (apply_completed env j)"
    unfolding apply_completed_def by (intro logged.core_rules marker)
  moreover have "keeps (logged e) (remove_marker env t)" for t
    unfolding remove_marker_def by (rule hoare_cdisk) (simp_all add: logged_def)
  ultimately show ?thesis
    unfolding record_completed_def Let_def case_prod_unfold by (intro logged.core_rules logged_save)
qed

definition batch_done :: "batch \<Rightarrow> cworld \<Rightarrow> bool" where
  "batch_done b = logged (MarkerDone (bt_task_id b) (bt_content_keys b))"

text \<open>A batch whose handler succeeded is marked before anything else, and folded if the lock is free.\<close>

lemma finish_batch_rule:
  "hoare (running rend ck oid cfg b) (finish_batch env b)
    (\<lambda>_ w. consumer_inv rend ck oid cfg w \<and> batch_done b w)
    (\<lambda>_. consumer_inv rend ck oid cfg) (consumer_inv rend ck oid cfg)" (is "hoare _ _ ?Q ?E ?C")
proof -
  let ?I = "\<lambda>w. consumer_inv rend ck oid cfg w \<and> batch_done b w"
  have I: "core_pred ?I" unfolding batch_done_def by (intro core_pred_conj consumer_inv_core logged_core)
  have mark: "hoare (running rend ck oid cfg b) (write_marker env b) (\<lambda>_. ?I) ?E ?C"
  proof -
    let ?f = "\<lambda>w. clog (MarkerDone (bt_task_id b) (bt_content_keys b))
      (w\<lparr>cw_markers := put (bt_task_id b) (MarkerDoc ''mail_received_task_completed'' 1 (bt_task_id b)) (cw_markers w)\<rparr>)"
    have m: "?I (?f (ctick w)) \<and> ?C (ctick w)" if r: "running rend ck oid cfg b w" for w
      using r inv_marker [of rend ck oid cfg "ctick w"] by (auto simp: running_def batch_done_def logged_def)
    show ?thesis unfolding write_marker_def by (rule hoare_cdisk) (use m in blast)+
  qed
  have fold: "hoare ?I (bind_io (load_journal env) (\<lambda>j. bind_io (record_completed env j) (\<lambda>_. ret True))) ?Q ?E ?C"
  proof (rule hoare_bind [where R = "\<lambda>j w. pulling rend ck oid cfg j w \<and> batch_done b w"])
    show "hoare ?I (load_journal env) (\<lambda>j w. pulling rend ck oid cfg j w \<and> batch_done b w) ?E ?C"
      by (rule hoare_weaken [OF hoare_conj [OF load_pulling logged_load]]) (auto simp: batch_done_def)
    show "hoare (\<lambda>w. pulling rend ck oid cfg j w \<and> batch_done b w) (bind_io (record_completed env j) (\<lambda>_. ret True)) ?Q ?E ?C" for j
      by (rule hoare_bind [where R = "\<lambda>_. ?I"], rule hoare_weaken [OF hoare_conj [OF record_completed_rule logged_completed]])
        (auto intro: hoare_ret' simp: batch_done_def dest: unmarkedD)
  qed
  have lock: "hoare ?I (cask_res (c_lock env)) (\<lambda>_. ?I) (\<lambda>_. ?I) ?C"
    by (rule hoare_weaken [OF core_pred.keeps_ask_res [OF I]]) auto
  show ?thesis
    unfolding finish_batch_def
    by (rule hoare_then [OF mark], rule hoare_match [OF lock fold], rule hoare_ret', simp)
qed

section \<open>Dispatch\<close>

lemma prepare_batch_rule:
  assumes f: "fits rend ck oid cfg env"
  shows "hoare (consumer_inv rend ck oid cfg) (prepare_batch env cfg)
    (\<lambda>r w. consumer_inv rend ck oid cfg w \<and> (\<forall>b. r = Some b \<longrightarrow> attempting rend ck oid cfg b w))
    (\<lambda>_. consumer_inv rend ck oid cfg) (consumer_inv rend ck oid cfg)" (is "hoare ?I _ ?Q ?E ?I")
proof -
  let ?R = "batch_ready rend ck oid cfg"
  have R: "core_pred (?R j r)" for j r
    unfolding batch_ready_def by (intro core_pred_conj unmarked_core trimmed_core) (simp_all add: core_pred_def)
  have new: "hoare (?R j r) (if jn_active (snd r) = None then new_batch env cfg (snd r) else ret (fst r, snd r)) (?R j) ?E ?I" for j r
  proof (rule hoare_if)
    assume "jn_active (snd r) = None"
    then show "hoare (?R j r) (new_batch env cfg (snd r)) (?R j) ?E ?I"
      by (intro hoare_weaken [OF new_batch_rule [OF f, where j = j and items = "fst r"]]) auto
  qed (simp add: hoare_ret)
  have wait: "hoare (?R j r) (then_io (when_io c (bind_io (save_journal env (snd r)) (\<lambda>_. ret ()))) (ret None)) ?Q ?E ?I" for j r c
  proof -
    have s: "?I (write_journal (prune t (snd r)) (ctick w)) \<and> ?I w" if "?R j r w" for w t
      using that trimmed_save [of rend ck oid cfg j w "snd r" t] by (auto simp: batch_ready_def dest: unmarkedD)
    have "hoare (?R j r) (bind_io (save_journal env (snd r)) (\<lambda>_. ret ())) (\<lambda>_. ?I) ?E ?I"
      by (rule hoare_bind [where R = "\<lambda>_. ?I"], rule hoare_save) (use s in \<open>auto intro: hoare_ret\<close>)
    then have "hoare (?R j r) (when_io c (bind_io (save_journal env (snd r)) (\<lambda>_. ret ()))) (\<lambda>_. ?I) ?E ?I"
      by (rule hoare_when) (auto simp: batch_ready_def dest: unmarkedD)
    then show ?thesis by (rule hoare_then) (simp add: hoare_ret')
  qed
  have run: "hoare (?R j (items, j3)) (bind_io (begin_attempt env cfg b items j3) (\<lambda>b. ret (Some b))) ?Q ?E ?I"
    if "jn_active j3 = Some b" for j items j3 b
    by (rule hoare_bind [OF begin_attempt_rule [OF that]]) (auto intro!: hoare_ret' dest: attemptingD)
  have choice: "hoare (?R j r) (case jn_active (snd r) of
       None \<Rightarrow> then_io (when_io c (bind_io (save_journal env (snd r)) (\<lambda>_. ret ()))) (ret None)
     | Some b \<Rightarrow> if t < bt_retry_after b then then_io (when_io c (bind_io (save_journal env (snd r)) (\<lambda>_. ret ()))) (ret None)
         else bind_io (begin_attempt env cfg b (fst r) (snd r)) (\<lambda>b. ret (Some b))) ?Q ?E ?I" for j r c t
    using run [of "snd r" _ j "fst r"] by (intro hoare_case_option hoare_if wait) auto
  have time: "hoare (?R j r) (epoch env) (\<lambda>_. ?R j r) ?E ?I" for j r
    by (rule hoare_weaken [OF core_pred.keeps_epoch [OF R]]) (auto dest: batch_ready_fields unmarkedD)
  show ?thesis
    unfolding prepare_batch_def Let_def case_prod_unfold
    by (rule hoare_then [OF inv.keeps_ask_res hoare_bind [OF load_pulling hoare_bind [OF record_completed_rule
        hoare_bind [OF resume_batch_rule hoare_bind [OF new hoare_bind [OF time choice]]]]]])
qed

text \<open>A dispatch that reports success has a completed batch; one that fails leaves the journal as it was.\<close>

lemma dispatch_rule:
  assumes f: "fits rend ck oid cfg env" and i: "interferes rend ck oid cfg env"
  shows "hoare (consumer_inv rend ck oid cfg) (dispatch env cfg)
    (\<lambda>d w. consumer_inv rend ck oid cfg w \<and> (d \<longrightarrow> (\<exists>b. batch_done b w)))
    (\<lambda>_. consumer_inv rend ck oid cfg) (consumer_inv rend ck oid cfg)" (is "hoare ?I _ ?Q ?E ?I")
proof -
  have handler: "hoare (\<lambda>w. ?I w \<and> (\<forall>b'. Some b = Some b' \<longrightarrow> attempting rend ck oid cfg b' w)) (match_io (run_handler env cfg b)
      (\<lambda>_. finish_batch env b) (\<lambda>e. then_io (record_handler_failure env cfg b e) (fail e))) ?Q ?E ?I" for b
  proof (rule hoare_pre)
    show "hoare (attempting rend ck oid cfg b) (match_io (run_handler env cfg b)
      (\<lambda>_. finish_batch env b) (\<lambda>e. then_io (record_handler_failure env cfg b e) (fail e))) ?Q ?E ?I"
    proof (rule hoare_match [OF run_handler_rule [OF i]])
      show "hoare (running rend ck oid cfg b) (finish_batch env b) ?Q ?E ?I" for u :: unit
        by (rule hoare_weaken [OF finish_batch_rule]) auto
      show "hoare (running rend ck oid cfg b) (then_io (record_handler_failure env cfg b e) (fail e)) ?Q ?E ?I" for e
        by (rule hoare_then [where R = "running rend ck oid cfg b"], rule hoare_weaken [OF record_handler_failure_rule])
          (auto intro!: hoare_fail' dest: runningD)
    qed
  qed simp
  have all: "hoare (\<lambda>w. ?I w \<and> (\<forall>b. batch = Some b \<longrightarrow> attempting rend ck oid cfg b w)) (case batch of
       None \<Rightarrow> ret False
     | Some b \<Rightarrow> match_io (run_handler env cfg b)
         (\<lambda>_. finish_batch env b)
         (\<lambda>e. then_io (record_handler_failure env cfg b e) (fail e))) ?Q ?E ?I" for batch
    by (cases batch) (auto intro!: hoare_ret' handler [simplified])
  show ?thesis
    unfolding dispatch_def
    by (rule hoare_if, rule hoare_ret', simp, rule hoare_bind [OF prepare_batch_rule [OF f] all])
qed

section \<open>Queue events\<close>

text \<open>A lease is acknowledged only when the object of its event is gone from the spool.\<close>

definition acknowledged_ok :: "queue_message \<Rightarrow> event_state \<Rightarrow> event_state \<Rightarrow> cworld \<Rightarrow> bool" where
  "acknowledged_ok msg st st' w \<longleftrightarrow> es_acks st' = es_acks st \<and> es_retries st' = es_retries st @ [qm_lease msg]
     \<or> es_acks st' = es_acks st @ [qm_lease msg] \<and> es_retries st' = es_retries st
       \<and> (\<exists>ev. qm_event msg = Inr ev \<and> gone (ev_key ev) w)"

lemma import_event_rule:
  assumes f: "fits rend ck oid cfg env"
  shows "hoare (consumer_inv rend ck oid cfg) (import_event env fuel cfg ev st)
    (\<lambda>r w. consumer_inv rend ck oid cfg w \<and> es_acks (fst r) = es_acks st \<and> es_retries (fst r) = es_retries st
       \<and> (snd r = None \<longrightarrow> gone (ev_key ev) w))
    (\<lambda>_. consumer_inv rend ck oid cfg) (consumer_inv rend ck oid cfg)" (is "hoare ?I _ ?Q ?E ?I")
proof -
  have recorded: "gone (ev_key ev) w" if "pulling rend ck oid cfg j w" "cleanup_recorded env cfg (ev_key ev) j" for j w
    using that receipt_gone [OF pullingD [OF that(1)] fitsD(3) [OF f]] pulling_journal(1) [OF that(1)]
    by (auto simp: cleanup_recorded_def fitsD(2) [OF f] split: option.splits)
  have after: "hoare ?I (then_io (warn_all ws) (match_io (load_journal env)
           (\<lambda>j. ret (after_pull rep st, if cleanup_recorded env cfg (ev_key ev) j then None
              else Some (app_error_retryable ''cloudflare_import_pending'' ''mail import or spool cleanup remains pending'')))
           (\<lambda>e. ret (after_pull rep st, Some e)))) ?Q ?E ?I" for ws rep
    by (rule hoare_then [OF inv.keeps_warn(2)], rule hoare_match [OF load_pulling])
      (auto intro!: hoare_ret' recorded dest: pullingD simp: after_pull_def)
  have known: "hoare (\<lambda>w. ?I w \<and> (known \<longrightarrow> gone (ev_key ev) w)) (if known then ret (st, None)
       else bind_io (pull_objects env fuel cfg (es_budget st) (Some [\<lparr>ls_key = ev_key ev, ls_size = ev_size ev\<rparr>])) (\<lambda>rep.
         then_io (warn_all (pl_warnings rep)) (match_io (load_journal env)
           (\<lambda>j. ret (after_pull rep st, if cleanup_recorded env cfg (ev_key ev) j then None
              else Some (app_error_retryable ''cloudflare_import_pending'' ''mail import or spool cleanup remains pending'')))
           (\<lambda>e. ret (after_pull rep st, Some e))))) ?Q ?E ?I" for known
    by (rule hoare_if, rule hoare_ret', simp, rule hoare_pre [OF hoare_bind [OF pull_objects_rule [OF f] after]]) simp
  show ?thesis
    unfolding import_event_def
    by (rule hoare_if, rule hoare_fail, rule hoare_bind [OF recover_receipt_rule [OF f] known])
qed

lemma handle_message_rule:
  assumes f: "fits rend ck oid cfg env"
  shows "hoare (consumer_inv rend ck oid cfg) (handle_message env fuel cfg msg st)
    (\<lambda>st' w. consumer_inv rend ck oid cfg w \<and> acknowledged_ok msg st st' w)
    (\<lambda>_. consumer_inv rend ck oid cfg) (consumer_inv rend ck oid cfg)" (is "hoare ?I _ ?Q ?E ?I")
proof -
  have retry: "hoare ?I (then_io (warn c) (ret (st'\<lparr>es_retries := es_retries st' @ [qm_lease msg]\<rparr>))) ?Q ?E ?I"
    if "es_acks st' = es_acks st" "es_retries st' = es_retries st" for st' c
    by (rule hoare_then [OF inv.keeps_warn(1)], rule hoare_ret') (simp add: acknowledged_ok_def that)
  let ?R = "\<lambda>r w. ?I w \<and> es_acks (fst r) = es_acks st \<and> es_retries (fst r) = es_retries st
       \<and> (snd r = None \<longrightarrow> (\<exists>ev. qm_event msg = Inr ev \<and> gone (ev_key ev) w))"
  have body: "hoare ?I (bind_io (of_res (qm_event msg)) (\<lambda>ev. import_event env fuel cfg ev st)) ?R ?E ?I"
  proof (rule hoare_bind [where R = "\<lambda>ev w. ?I w \<and> qm_event msg = Inr ev"])
    show "hoare ?I (of_res (qm_event msg)) (\<lambda>ev w. ?I w \<and> qm_event msg = Inr ev) ?E ?I" by (rule hoare_of_res) auto
    show "hoare (\<lambda>w. ?I w \<and> qm_event msg = Inr ev) (import_event env fuel cfg ev st) ?R ?E ?I" for ev
    proof (rule hoare_assume)
      fix w assume w: "?I w \<and> qm_event msg = Inr ev"
      show "hoare ((=) w) (import_event env fuel cfg ev st) ?R ?E ?I"
        by (rule hoare_weaken [OF import_event_rule [OF f]]) (use w in auto)
    qed
  qed
  have done': "hoare (?R r) (case snd r of None \<Rightarrow> ret ((fst r)\<lparr>es_acks := es_acks (fst r) @ [qm_lease msg]\<rparr>)
      | Some e \<Rightarrow> then_io (warn (error_code e)) (ret ((fst r)\<lparr>es_retries := es_retries (fst r) @ [qm_lease msg]\<rparr>))) ?Q ?E ?I" for r
  proof (cases "snd r")
    case None
    then show ?thesis by (simp, intro hoare_ret') (auto simp: acknowledged_ok_def)
  next
    case (Some e)
    have "hoare ((\<lambda>w. (es_acks (fst r) = es_acks st \<and> es_retries (fst r) = es_retries st) \<and> ?I w))
        (then_io (warn (error_code e)) (ret ((fst r)\<lparr>es_retries := es_retries (fst r) @ [qm_lease msg]\<rparr>))) ?Q ?E ?I"
      by (rule hoare_pure_pre, rule retry) auto
    then show ?thesis unfolding Some by (simp, elim hoare_pre) auto
  qed
  show ?thesis
    unfolding handle_message_def Let_def case_prod_unfold
    by (rule hoare_match [OF body done']) (rule retry, simp_all)
qed

section \<open>A tick\<close>

lemma import_phase_rule:
  assumes f: "fits rend ck oid cfg env"
  shows "keeps (consumer_inv rend ck oid cfg) (import_phase env fuel cfg reconcile)" (is "keeps ?I _")
proof -
  have handle: "keeps ?I (handle_message env fuel cfg msg st)" for msg st
    by (rule hoare_weaken [OF handle_message_rule [OF f]]) auto
  have scan: "keeps ?I (reconcile_spool env fuel cfg st)" for st
    unfolding reconcile_spool_def
    by (rule keeps_match [OF pull_objects_rule [OF f]]) (intro inv.core_rules inv.keeps_warn)+
  have leased: "keeps ?I (queue_pull env)"
    unfolding queue_pull_def by (intro inv.core_rules)
  show ?thesis
    unfolding import_phase_def case_prod_unfold
    by (intro keeps_then keeps_bind keeps_match keeps_fold keeps_if handle scan leased
        inv.keeps_ask_res inv.keeps_warn keeps_ret)
qed

lemma inv_started_over [simp]: "consumer_inv rend ck oid cfg (w\<lparr>cw_warnings := ws\<rparr>) = consumer_inv rend ck oid cfg w"
  using inv.same_core [of rend ck oid cfg w "w\<lparr>cw_warnings := ws\<rparr>"] inv.same_core [of rend ck oid cfg "w\<lparr>cw_warnings := ws\<rparr>" w] by auto

lemma consume_rule:
  assumes f: "fits rend ck oid cfg env" and i: "interferes rend ck oid cfg env"
  shows "keeps (consumer_inv rend ck oid cfg) (consume env fuel cfg reconcile)" (is "keeps ?I _")
proof -
  have noted: "keeps ?I (modify (clog (Settled xs ys)))" for xs ys
    by (rule hoare_modify') (rule inv_note, auto)
  have settle: "keeps ?I (settle_events env st)" for st
    unfolding settle_events_def
    by (intro keeps_if keeps_match keeps_then noted inv.keeps_ask inv.keeps_warn keeps_ret)
  have stop: "keeps ?I (check_shutdown env)"
    unfolding check_shutdown_def by (intro inv.core_rules)
  have dispatched: "keeps ?I (dispatch env cfg)"
    by (rule hoare_weaken [OF dispatch_rule [OF f i]]) auto
  have phase: "keeps ?I (dispatch_phase env cfg)"
    unfolding dispatch_phase_def by (intro inv.core_rules dispatched inv.keeps_warn)
  have report: "keeps ?I (bind_io (load_journal env) (\<lambda>j. bind_io (apply_completed env j) (\<lambda>r. bind_io (gets cw_warnings) (g r))))"
    if "\<And>r ws. keeps ?I (g r ws)" for g :: "bool \<times> journal \<Rightarrow> string list \<Rightarrow> consume_result ccmd"
  proof (rule hoare_bind [OF load_pulling])
    show "hoare (pulling rend ck oid cfg j) (bind_io (apply_completed env j) (\<lambda>r. bind_io (gets cw_warnings) (g r)))
        (\<lambda>_. ?I) (\<lambda>_. ?I) ?I" for j
      by (rule hoare_bind [where R = "\<lambda>_. ?I"], rule hoare_weaken [OF apply_completed_rule])
        (auto intro: keeps_bind keeps_gets that dest: pullingD)
  qed
  show ?thesis
    unfolding consume_def case_prod_unfold
    by (intro keeps_then keeps_if keeps_bind [OF import_phase_rule [OF f]] keeps_bind [OF settle] keeps_bind [OF phase] report
        stop keeps_fail keeps_ret inv.keeps_ask_res hoare_modify') simp_all
qed

section \<open>Histories\<close>

lemma consumer_inv_prefix:
  "cf_prefix cfg' = cf_prefix cfg \<Longrightarrow> consumer_inv rend ck oid cfg' w = consumer_inv rend ck oid cfg w"
  by (simp add: consumer_inv_def receipts_ok_def receipt_ok_def spool_key_def)

text \<open>The histories of a workspace: it starts without a journal, then the consumer runs, with settings
  that may change as long as they name the same spool, and other processes in between.\<close>

inductive chistory :: "bool \<Rightarrow> (string \<Rightarrow> string) \<Rightarrow> (string \<Rightarrow> string) \<Rightarrow> string \<Rightarrow> cworld \<Rightarrow> bool"
  for rend ck oid spool where
  chistory_start: "cw_journal w = NoJournal \<Longrightarrow> cw_markers w = [] \<Longrightarrow> cw_log w = [] \<Longrightarrow> cw_index w = empty_index
    \<Longrightarrow> chistory rend ck oid spool w"
| chistory_consume: "chistory rend ck oid spool w \<Longrightarrow> fits rend ck oid cfg env \<Longrightarrow> cf_prefix cfg = spool
    \<Longrightarrow> interferes rend ck oid cfg env \<Longrightarrow> consume env fuel cfg reconcile w = (r, w') \<Longrightarrow> chistory rend ck oid spool w'"
| chistory_meanwhile: "chistory rend ck oid spool w \<Longrightarrow> cf_prefix cfg = spool \<Longrightarrow> meanwhile rend ck oid cfg w w'
    \<Longrightarrow> chistory rend ck oid spool w'"

lemma start_inv:
  assumes "cw_journal w = NoJournal" "cw_markers w = []" "cw_log w = []" "cw_index w = empty_index"
  shows "consumer_inv rend ck oid cfg w"
  using assms journal_ok_default
  by (simp add: consumer_inv_def file_of_def disk_journal_def receipts_ok_def published_ok_def published_def
      completion_ok_def marker_for_def index_ok_def empty_index_def default_journal_def)

lemma history_inv:
  "chistory rend ck oid spool w \<Longrightarrow> cf_prefix cfg = spool \<Longrightarrow> consumer_inv rend ck oid cfg w"
proof (induction rule: chistory.induct)
  case (chistory_start w)
  then show ?case by (simp add: start_inv)
next
  case (chistory_consume w cfg' env fuel reconcile r w')
  have "consumer_inv rend ck oid cfg' w'"
    using keeps_result [OF consume_rule [OF chistory_consume(2,4)] chistory_consume(5)] chistory_consume(3,6,7)
      consumer_inv_prefix [of cfg' cfg] by simp
  then show ?case using chistory_consume(3,7) consumer_inv_prefix [of cfg' cfg] by simp
next
  case (chistory_meanwhile w cfg' w')
  have "consumer_inv rend ck oid cfg' w'"
    using meanwhile_inv [OF chistory_meanwhile(3)] chistory_meanwhile(2,4,5) consumer_inv_prefix [of cfg' cfg] by simp
  then show ?case using chistory_meanwhile(2,5) consumer_inv_prefix [of cfg' cfg] by simp
qed

end
