(* ===== verification/Consumer_Scenario.thy ===== *)
theory Consumer_Scenario
  imports Consumer_History
begin

text \<open>
  Concrete runs of the consumer: one object in the spool that is imported, notified and completed in
  one tick; a tick without a handler, then a handler that fails; and views that cannot be rendered.
\<close>

section \<open>The environment\<close>

definition tick_object :: r2_object where
  "tick_object = \<lparr>ob_raw = ''raw'', ob_delivery = default_delivery, ob_quota = False\<rparr>"

definition tick_page :: r2_page where
  "tick_page = \<lparr>pg_objects = [\<lparr>ls_key = ''inbox/a'', ls_size = 3\<rparr>], pg_continuation = None\<rparr>"

definition tick_mail :: "string \<Rightarrow> mail" where
  "tick_mail mid = \<lparr>ml_id = mid, ml_rfc822 = None, ml_status = ''triage'', ml_remote = None,
     ml_envelope_to = [], ml_received = None, ml_sent = None, ml_direction = None\<rparr>"

definition tick_env :: cenv where
  "tick_env = \<lparr>c_disk = \<lambda>_. DiskOk, c_epoch = \<lambda>_. 1000, c_clock = \<lambda>_. ''t'', c_net = \<lambda>_. NetOk,
     c_list = \<lambda>_ _. Reply tick_page, c_events = \<lambda>_. Reply [], c_settle = \<lambda>_. Reply (), c_control = \<lambda>_. True,
     c_lock = \<lambda>_. Inr (), c_clients = \<lambda>_. Inr (), c_transactions = \<lambda>_. Inr (), c_shutdown = \<lambda>_. False,
     c_content_key = \<lambda>raw. raw, c_message_id = \<lambda>raw. ''m_'' @ raw, c_object_id = \<lambda>_ _ _ key. key,
     c_keys_hash = \<lambda>_. replicate 64 CHR ''a'', c_parse = \<lambda>mid raw. Inr (tick_mail mid),
     c_header_date = \<lambda>_. Some ''date'', c_header_id = \<lambda>_. None, c_valid_segment = \<lambda>_. True, c_spool_direction = ''inbound'', c_pull_direction = \<lambda>_. None, c_filed = \<lambda>_ _. ''triage'', c_referenced = \<lambda>_ _. Inr [],
     c_date = \<lambda>_. None, c_refs = \<lambda>_. Inr (), c_render = \<lambda>_ _. Inr (), c_refresh = \<lambda>_. Inr (),
     c_handler = \<lambda>_. HandlerExited (Some 0), c_during = \<lambda>_ w. w\<rparr>"

definition tick_cfg :: cf_settings where
  "tick_cfg = default_settings\<lparr>cf_account := Some ''acc'', cf_bucket := Some ''mail'', cf_queue_id := Some ''q'',
     cf_command := [''agent'']\<rparr>"

definition archiving_cfg :: cf_settings where
  "archiving_cfg = tick_cfg\<lparr>cf_imported_prefix := Some ''imported/''\<rparr>"

definition tick_world :: cworld where
  "tick_world = \<lparr>cw_tick = 0, cw_journal = NoJournal, cw_markers = [], cw_inputs = [], cw_eml = [], cw_meta = [], cw_cache = [],
     cw_triage = [], cw_disposed = [], cw_bucket = [(''inbox/a'', tick_object)], cw_index = empty_index, cw_warnings = [],
     cw_cursors = NoCursors, cw_quarantine = [], cw_log = []\<rparr>"

abbreviation tick_history :: "bool \<Rightarrow> cworld \<Rightarrow> bool" where
  "tick_history rend \<equiv> chistory rend (\<lambda>raw. raw) (\<lambda>key. key) ''inbox/''"

lemma tick_start: "tick_history rend tick_world"
  by (rule chistory_start) (simp_all add: tick_world_def)

text \<open>Variants of settings and environment that differ in the command, the handler or the views.\<close>

lemma tick_fits:
  assumes "c_content_key env = c_content_key tick_env" "c_object_id env = c_object_id tick_env"
    "c_keys_hash env = c_keys_hash tick_env" "rend \<Longrightarrow> c_render env = c_render tick_env"
    "cf_queue_id cfg \<noteq> None" "cf_imported_prefix cfg = None"
  shows "fits rend (\<lambda>raw. raw) (\<lambda>key. key) cfg env"
proof -
  have "list_all safe_id_char (replicate 64 CHR ''a'')" by (simp add: list_all_iff safe_id_char_def is_ascii_lower_def)
  then show ?thesis
    using assms by (auto simp: fits_def object_id_def tick_env_def journal_enabled_def render_ok_def inj_on_def)
qed

lemma tick_interferes: "c_during env = (\<lambda>_ w. w) \<Longrightarrow> interferes rend ck oid cfg env"
  by (simp add: interferes_def meanwhile_refl)

lemma tick_consume:
  assumes "tick_history rend w" "fits rend (\<lambda>raw. raw) (\<lambda>key. key) cfg env" "cf_prefix cfg = ''inbox/''"
    "c_during env = (\<lambda>_ w. w)" "snd (consume env fuel cfg reconcile w) = w'"
  shows "tick_history rend w'"
  using chistory_consume [OF assms(1-3) tick_interferes [OF assms(4)], of fuel reconcile] assms(5)
  by (cases "consume env fuel cfg reconcile w") auto

section \<open>One tick\<close>

definition tick_intent :: journal where
  "tick_intent = \<lparr>jn_receipts = [], jn_tasks = [(''raw'', \<lparr>tk_message_id = ''m_raw'', tk_status = TaskPreparing\<rparr>)], jn_active = None\<rparr>"

definition tick_receipt :: "bool \<Rightarrow> receipt" where
  "tick_receipt clean = \<lparr>rc_message_id = ''m_raw'', rc_imported_epoch = 1000, rc_content_key = ''raw'', rc_quota_managed = False,
     rc_archive_key = None, rc_cleanup_complete = clean\<rparr>"

definition tick_task_id :: string where
  "tick_task_id = ''mail_'' @ replicate 64 CHR ''a''"

definition tick_batch :: batch where
  "tick_batch = \<lparr>bt_task_id = tick_task_id, bt_content_keys = [''raw''], bt_retry_after = 1360, bt_attempt_count = 1,
     bt_last_attempt = Some ''t'', bt_last_error_code = None, bt_last_exit_code = None\<rparr>"

definition tick_journal :: "bool \<Rightarrow> batch option \<Rightarrow> journal" where
  "tick_journal clean b = \<lparr>jn_receipts = [(''inbox/a'', tick_receipt clean)],
     jn_tasks = [(''raw'', \<lparr>tk_message_id = ''m_raw'', tk_status = TaskPending\<rparr>)], jn_active = b\<rparr>"

definition tick_done :: cworld where
  "tick_done = snd (consume tick_env 3 tick_cfg True tick_world)"

text \<open>The whole history of the tick, newest first.\<close>

definition tick_imported :: "cevent list" where
  "tick_imported = [Saved (tick_journal False None), Published ''m_raw'' ''raw'', Saved tick_intent]"

definition tick_notified :: "cevent list" where
  "tick_notified = [Saved (tick_journal True (Some tick_batch)), Saved (tick_journal True None), Removed ''inbox/a'' ''raw''] @ tick_imported"

lemma tick_log: "cw_log tick_done = [Saved ((tick_journal True None)\<lparr>jn_tasks := []\<rparr>),
    MarkerDone tick_task_id [''raw''], Started tick_task_id [''raw'']] @ tick_notified"
  by code_simp

lemma tick_chistory: "tick_history rend tick_done"
  unfolding tick_done_def
  by (rule tick_consume [OF tick_start tick_fits]) (simp_all add: tick_cfg_def default_settings_def tick_env_def)

section \<open>A handler that fails\<close>

definition idle_cfg :: cf_settings where
  "idle_cfg = tick_cfg\<lparr>cf_command := []\<rparr>"

definition failing_env :: cenv where
  "failing_env = tick_env\<lparr>c_handler := \<lambda>_. HandlerExited (Some 1)\<rparr>"

definition waiting_world :: cworld where
  "waiting_world = snd (consume tick_env 3 idle_cfg True tick_world)"

lemma waiting_chistory: "tick_history rend waiting_world"
  unfolding waiting_world_def
  by (rule tick_consume [OF tick_start tick_fits])
    (simp_all add: idle_cfg_def tick_cfg_def default_settings_def tick_env_def)

definition fresh_batch :: batch where
  "fresh_batch = tick_batch\<lparr>bt_retry_after := 0, bt_attempt_count := 0, bt_last_attempt := None\<rparr>"

definition failing_prepared :: cworld where
  "failing_prepared = snd (prepare_batch failing_env tick_cfg waiting_world)"

definition failing_error :: app_error where
  "failing_error = with_details (err_command_failed
     ''Cloudflare consumer command exited unsuccessfully; its durable task remains pending'') (exit_details (Some 1))"

definition failing_run :: cworld where
  "failing_run = snd (run_handler failing_env tick_cfg fresh_batch failing_prepared)"

lemma failing_results: "(fst (prepare_batch failing_env tick_cfg waiting_world),
    fst (run_handler failing_env tick_cfg fresh_batch failing_prepared),
    fst (record_handler_failure failing_env tick_cfg fresh_batch failing_error failing_run))
  = (Done (Some fresh_batch), Fail failing_error, Done ())"
  by code_simp

lemma failing_fits: "fits rend (\<lambda>raw. raw) (\<lambda>key. key) tick_cfg failing_env"
  by (rule tick_fits) (simp_all add: failing_env_def tick_cfg_def default_settings_def tick_env_def)

lemma failing_interferes: "interferes rend ck oid cfg failing_env"
  by (rule tick_interferes) (simp add: failing_env_def tick_env_def)

section \<open>A leased event and a pull\<close>

definition tick_message :: queue_message where
  "tick_message = \<lparr>qm_lease = ''lease'', qm_event = Inr \<lparr>ev_account = ''acc'', ev_action = ''PutObject'', ev_bucket = ''mail'',
     ev_key = ''inbox/a'', ev_size = 3\<rparr>\<rparr>"

definition tick_leased :: event_state where
  "tick_leased = \<lparr>es_acks = [], es_retries = [], es_imported = 0, es_budget = default_pull_options\<rparr>"

lemma tick_handled: "case fst (handle_message tick_env 3 tick_cfg tick_message tick_leased tick_world) of
    Done st \<Rightarrow> es_acks st = [''lease''] | _ \<Rightarrow> False"
  by code_simp

lemma tick_pulled: "case fst (pull_objects tick_env 3 tick_cfg default_pull_options None tick_world) of
    Done st \<Rightarrow> pl_imported st = 1 \<and> pl_stored_bytes st = 3 | _ \<Rightarrow> False"
  by code_simp

lemma tick_cfg_fits: "fits rend (\<lambda>raw. raw) (\<lambda>key. key) tick_cfg tick_env"
  by (rule tick_fits) (simp_all add: tick_cfg_def default_settings_def tick_env_def)

lemma tick_cfg_prefix: "cf_prefix tick_cfg = ''inbox/''"
  by (simp add: tick_cfg_def default_settings_def)

section \<open>Views that cannot be rendered\<close>

definition unrendered_env :: cenv where
  "unrendered_env = tick_env\<lparr>c_render := \<lambda>_ _. Inl (app_error_new ''template_render_failed'' ''template'')\<rparr>"

definition unrendered :: "cworld \<Rightarrow> cworld" where
  "unrendered w = snd (consume unrendered_env 3 tick_cfg True w)"

lemma unrendered_chistory: "tick_history False w \<Longrightarrow> tick_history False (unrendered w)"
  unfolding unrendered_def
  by (erule tick_consume [OF _ tick_fits])
    (simp_all add: unrendered_env_def tick_cfg_def default_settings_def tick_env_def)

text \<open>The first pull withdraws its intent after the mail was published, the second one finds the mail.\<close>

lemma unrendered_log: "cw_log (unrendered (unrendered tick_world)) = [Saved ((tick_journal True None)\<lparr>jn_tasks := []\<rparr>),
    Removed ''inbox/a'' ''raw'', Saved ((tick_journal False None)\<lparr>jn_tasks := []\<rparr>), Found ''m_raw'' ''raw'',
    Saved default_journal, Published ''m_raw'' ''raw'', Saved tick_intent]"
  by code_simp

lemma unrendered_bucket: "cw_bucket (unrendered (unrendered tick_world)) = []"
  by code_simp

end
