(* ===== verification/Consumer_Laws.thy ===== *)
theory Consumer_Laws
  imports Consumer_Scenario
begin

text \<open>
  What the consumer promises, over all histories of a workspace, and the laws of its parts: budgets
  of a pull, the end of a listing, the settings, metadata before mail, and repeated delivery.
\<close>

section \<open>Histories\<close>

lemma history_ok_append: "history_ok ck oid (es @ fs) \<Longrightarrow> history_ok ck oid fs"
proof (induction es)
  case (Cons e es)
  then show ?case by (cases e) auto
qed simp

lemma chistory_events:
  assumes "chistory rend ck oid spool w" "cw_log w = later @ e # earlier"
  shows "history_ok ck oid (e # earlier)"
proof -
  have "history_ok ck oid (cw_log w)"
    by (rule consumer_invD(7) [OF history_inv [OF assms(1), where cfg = "default_settings\<lparr>cf_prefix := spool\<rparr>"]]) simp
  then show ?thesis unfolding assms(2) by (rule history_ok_append)
qed

text \<open>Claim C4: Mail leaves the spool only after it was stored.  Whenever an object is removed from
  the spool, a mail with the same content was published or found in the workspace before, and the
  journal on disk had a receipt for that object with that content, whatever failed, was killed or
  ran in between.\<close>

theorem spooled_mail_removed_only_when_stored:
  assumes "chistory rend ck oid spool w" "cw_log w = later @ Removed key raw # earlier"
  shows "(\<exists>mid raw'. (Published mid raw' \<in> set earlier \<or> Found mid raw' \<in> set earlier) \<and> ck raw' = ck raw)
    \<and> (\<exists>r. map_of (jn_receipts (disk_journal earlier)) (oid key) = Some r \<and> rc_content_key r = ck raw)"
  using chistory_events [OF assms] by (auto simp: removed_ok_def stored_def)

theorem spooled_mail_removed_only_when_stored_witness:
  "(\<exists>mid raw'. (Published mid raw' \<in> set tick_imported \<or> Found mid raw' \<in> set tick_imported) \<and> raw' = ''raw'')
    \<and> (\<exists>r. map_of (jn_receipts (disk_journal tick_imported)) ''inbox/a'' = Some r \<and> rc_content_key r = ''raw'')"
  by (rule spooled_mail_removed_only_when_stored [OF tick_chistory [of True], where later = "[Saved ((tick_journal True None)\<lparr>jn_tasks := []\<rparr>),
      MarkerDone tick_task_id [''raw''], Started tick_task_id [''raw''], Saved (tick_journal True (Some tick_batch)), Saved (tick_journal True None)]"])
    (simp add: tick_log tick_notified_def)

text \<open>Claim C5: No imported mail is forgotten.  Where views fail with storage errors only, every mail
  an import published has a task in the journal on disk, or a batch with it was completed, or its
  task was given up because its message is missing or unreadable.\<close>

theorem imported_mail_is_notified:
  assumes "chistory True ck oid spool w" "Published mid raw \<in> set (cw_log w)"
  shows "map_of (jn_tasks (disk_journal (cw_log w))) (ck raw) \<noteq> None
    \<or> (\<exists>tid ks. MarkerDone tid ks \<in> set (cw_log w) \<and> ck raw \<in> set ks) \<or> Dropped (ck raw) \<in> set (cw_log w)"
proof -
  have "published_ok ck (cw_log w)"
    by (rule consumer_invD(5) [OF history_inv [OF assms(1), where cfg = "default_settings\<lparr>cf_prefix := spool\<rparr>"]]) simp_all
  moreover have "published ck (ck raw) (cw_log w)" using assms(2) by (auto simp: published_def)
  ultimately show ?thesis by (auto simp: published_ok_def concluded_def handled_def)
qed

theorem imported_mail_is_notified_witness:
  "\<exists>tid ks. MarkerDone tid ks \<in> set (cw_log tick_done) \<and> ''raw'' \<in> set ks"
proof -
  have "map_of (jn_tasks (disk_journal (cw_log tick_done))) ''raw'' = None" "Dropped ''raw'' \<notin> set (cw_log tick_done)"
    by (simp_all add: tick_log tick_notified_def tick_imported_def)
  then show ?thesis
    using imported_mail_is_notified [OF tick_chistory, where mid = "''m_raw''" and raw = "''raw''"]
    by (simp add: tick_log tick_notified_def tick_imported_def)
qed

text \<open>Claim C6: The handler is started only on a recorded attempt, and never again on a completed batch.
  Whenever it is started, the journal on disk has that batch as its active one with at least one
  attempt counted, every mail of it has a pending task, and none of them was completed since it
  was last prepared.\<close>

theorem handler_started_on_recorded_attempt:
  assumes "chistory rend ck oid spool w" "cw_log w = later @ Started tid ks # earlier"
  shows "(\<exists>b. jn_active (disk_journal earlier) = Some b \<and> bt_task_id b = tid \<and> bt_content_keys b = ks \<and> 0 < bt_attempt_count b)
    \<and> list_all (pending_task (disk_journal earlier)) ks \<and> list_all (\<lambda>k. \<not> completed_since k earlier) ks"
  using chistory_events [OF assms] by (auto simp: started_ok_def split: option.splits)

theorem handler_started_on_recorded_attempt_witness:
  "(\<exists>b. jn_active (disk_journal tick_notified) = Some b \<and> bt_task_id b = tick_task_id \<and> bt_content_keys b = [''raw'']
      \<and> 0 < bt_attempt_count b)
    \<and> list_all (pending_task (disk_journal tick_notified)) [''raw''] \<and> list_all (\<lambda>k. \<not> completed_since k tick_notified) [''raw'']"
  by (rule handler_started_on_recorded_attempt [OF tick_chistory [of True],
      where later = "[Saved ((tick_journal True None)\<lparr>jn_tasks := []\<rparr>), MarkerDone tick_task_id [''raw'']]"]) (simp add: tick_log)

text \<open>Claim C21: The journal on disk can always be loaded.  After every history, reading it gives the
  journal that was saved last (the empty one before the first save), and it passes the validation
  of its active batch.\<close>

theorem journal_always_loads:
  assumes "chistory rend ck oid spool w" "c_disk env (cw_tick w) = DiskOk"
  shows "load_journal env w = (Done (disk_journal (cw_log w)), ctick w) \<and> validate_active (disk_journal (cw_log w)) = Inr ()"
proof -
  note inv = history_inv [OF assms(1), where cfg = "default_settings\<lparr>cf_prefix := spool\<rparr>", simplified]
  have v: "validate_active (disk_journal (cw_log w)) = Inr ()"
    using consumer_invD(2) [OF inv] by (simp add: journal_ok_def)
  have "cw_journal (ctick w) = file_of (cw_log w)" using consumer_invD(1) [OF inv] by simp
  then show ?thesis
    using v assms(2)
    by (auto simp: load_journal_def cdisk_def then_io_def bind_io_def gets_def ret_def of_res_def file_of_def disk_journal_def
        split: option.splits)
qed

theorem journal_always_loads_witness:
  "load_journal tick_env tick_done = (Done (disk_journal (cw_log tick_done)), ctick tick_done)
    \<and> validate_active (disk_journal (cw_log tick_done)) = Inr ()"
  by (rule journal_always_loads [OF tick_chistory [of True]]) (simp add: tick_env_def)

text \<open>Claim C22: A queue event is acknowledged only when its mail is off the spool.  In every history,
  handling a leased message adds its lease to exactly one of the two lists, and to the list of
  acknowledgements only if the event decodes and its object is gone from the bucket.\<close>

theorem acknowledged_event_is_off_the_spool:
  assumes "chistory rend ck oid spool w" "fits rend ck oid cfg env" "cf_prefix cfg = spool"
    and "handle_message env fuel cfg msg st w = (Done st', w')"
  shows "es_acks st' = es_acks st \<and> es_retries st' = es_retries st @ [qm_lease msg]
    \<or> es_acks st' = es_acks st @ [qm_lease msg] \<and> es_retries st' = es_retries st
      \<and> (\<exists>ev. qm_event msg = Inr ev \<and> map_of (cw_bucket w') (ev_key ev) = None)"
  using handle_message_rule [OF assms(2), of fuel msg st] history_inv [OF assms(1,3)] assms(4)
  by (auto simp: hoare_def acknowledged_ok_def gone_def dest!: spec [of _ w])

theorem acknowledged_event_is_off_the_spool_witness:
  "\<exists>st' w'. handle_message tick_env 3 tick_cfg tick_message tick_leased tick_world = (Done st', w') \<and> es_acks st' = [''lease'']
    \<and> (es_acks st' = [] \<and> es_retries st' = [''lease''] \<or> es_acks st' = [''lease''] \<and> es_retries st' = []
      \<and> (\<exists>ev. qm_event tick_message = Inr ev \<and> map_of (cw_bucket w') (ev_key ev) = None))"
proof -
  obtain st' w' where h: "handle_message tick_env 3 tick_cfg tick_message tick_leased tick_world = (Done st', w')"
    and a: "es_acks st' = [''lease'']"
    using tick_handled by (cases "handle_message tick_env 3 tick_cfg tick_message tick_leased tick_world") (auto split: outcome.splits)
  show ?thesis
    using acknowledged_event_is_off_the_spool [OF tick_start [of True] tick_cfg_fits tick_cfg_prefix h] h a
    by (simp add: tick_leased_def tick_message_def)
qed

text \<open>Claim C23: A failed handler keeps its batch.  If the handler of a prepared batch fails in any way
  and the failure was noted, or could not be, the same batch is still the active one on disk and
  its mail is still pending, whatever other processes did while the handler ran.\<close>

theorem failed_handler_keeps_batch:
  assumes "chistory rend ck oid spool w" "cf_prefix cfg = spool" "fits rend ck oid cfg env" "interferes rend ck oid cfg env"
    and "prepare_batch env cfg w = (Done (Some b), w1)" "run_handler env cfg b w1 = (Fail e, w2)"
    and "record_handler_failure env cfg b e w2 = (Done (), w3)"
  shows "\<exists>a. jn_active (disk_journal (cw_log w3)) = Some a \<and> bt_task_id a = bt_task_id b \<and> bt_content_keys a = bt_content_keys b
    \<and> list_all (pending_task (disk_journal (cw_log w3))) (bt_content_keys b)"
proof -
  have "attempting rend ck oid cfg b w1"
    using prepare_batch_rule [OF assms(3)] history_inv [OF assms(1,2)] assms(5) by (auto simp: hoare_def dest!: spec [of _ w])
  then have "running rend ck oid cfg b w2"
    using run_handler_rule [OF assms(4), of b] assms(6) by (auto simp: hoare_def dest!: spec [of _ w1])
  then have r: "running rend ck oid cfg b w3"
    using record_handler_failure_rule [of rend ck oid cfg b env e] assms(7) by (auto simp: hoare_def dest!: spec [of _ w2])
  then obtain a where a: "jn_active (disk_journal (cw_log w3)) = Some a" "bt_task_id a = bt_task_id b"
      "bt_content_keys a = bt_content_keys b" by (auto simp: running_def)
  have "list_all (pending_task (disk_journal (cw_log w3))) (bt_content_keys b)"
    using journal_okD(4) [OF consumer_invD(2) [OF runningD [OF r]] a(1)] a(3) by (simp add: list_all_iff pending_task_iff)
  then show ?thesis using a by blast
qed

theorem failed_handler_keeps_batch_witness:
  "\<exists>w3 a. record_handler_failure failing_env tick_cfg fresh_batch failing_error failing_run = (Done (), w3)
    \<and> jn_active (disk_journal (cw_log w3)) = Some a \<and> bt_task_id a = bt_task_id fresh_batch
    \<and> bt_content_keys a = bt_content_keys fresh_batch
    \<and> list_all (pending_task (disk_journal (cw_log w3))) (bt_content_keys fresh_batch)"
proof -
  have p: "prepare_batch failing_env tick_cfg waiting_world = (Done (Some fresh_batch), failing_prepared)"
    using failing_results by (simp add: failing_prepared_def prod_eq_iff)
  have h: "run_handler failing_env tick_cfg fresh_batch failing_prepared = (Fail failing_error, failing_run)"
    using failing_results by (simp add: failing_run_def prod_eq_iff)
  obtain w3 where r: "record_handler_failure failing_env tick_cfg fresh_batch failing_error failing_run = (Done (), w3)"
    using failing_results by (cases "record_handler_failure failing_env tick_cfg fresh_batch failing_error failing_run") simp
  show ?thesis
    using failed_handler_keeps_batch [OF waiting_chistory [of True] tick_cfg_prefix failing_fits failing_interferes p h r] r by blast
qed

section \<open>Budgets of a pull\<close>

text \<open>What is imported and what is left of the budget never exceed what was given, as numbers.\<close>

definition within_budget :: "pull_options \<Rightarrow> pull_state \<Rightarrow> bool" where
  "within_budget opts st \<longleftrightarrow> pl_imported st + unat (pl_remaining_count st) \<le> unat (po_max_new opts)
     \<and> unat (pl_stored_bytes st) + unat (pl_remaining_bytes st) \<le> unat (po_max_bytes opts)"

abbreviation budget_kept :: "pull_options \<Rightarrow> pull_state ccmd \<Rightarrow> bool" where
  "budget_kept opts m \<equiv> hoare (\<lambda>_. True) m (\<lambda>st _. within_budget opts st) (\<lambda>_ _. True) (\<lambda>_. True)"

lemma hoare_True: "hoare (\<lambda>_. True) m (\<lambda>_ _. True) (\<lambda>_ _. True) (\<lambda>_. True)"
  by (simp add: hoare_def split: prod.split outcome.split)

lemma budget_ret: "within_budget opts st \<Longrightarrow> budget_kept opts (ret st)"
  by (rule hoare_ret') simp

lemma budget_fail: "budget_kept opts (fail e)"
  by (rule hoare_fail') simp

lemma budget_bind: "(\<And>a. budget_kept opts (f a)) \<Longrightarrow> budget_kept opts (bind_io m f)"
  by (rule hoare_bind [OF hoare_True])

lemma within_budget_simps [simp]:
  "within_budget opts (st\<lparr>pl_journal := j\<rparr>) = within_budget opts st"
  "within_budget opts (st\<lparr>pl_moved := n\<rparr>) = within_budget opts st"
  "within_budget opts (st\<lparr>pl_deleted := n\<rparr>) = within_budget opts st"
  "within_budget opts (st\<lparr>pl_candidates := n\<rparr>) = within_budget opts st"
  "within_budget opts (warned c st) = within_budget opts st"
  "within_budget opts (skipped k r st) = within_budget opts st"
  by (simp_all add: within_budget_def warned_def skipped_def)

lemma budget_journal: "within_budget opts st \<Longrightarrow> budget_kept opts (with_journal f st)"
  unfolding with_journal_def
  by (rule hoare_case_option) (auto intro!: budget_ret budget_bind)

lemma word_pred_unat:
  fixes x :: u64
  assumes "x \<noteq> 0"
  shows "unat (x - 1) = unat x - 1"
  using assms by (simp add: unat_minus_one)

lemma budget_count_outcome:
  assumes "within_budget opts st" "pl_remaining_count st \<noteq> 0" "actual \<le> pl_remaining_bytes st"
  shows "within_budget opts (count_outcome out actual st)"
proof (cases out)
  case (Stored mid ids)
  have count: "unat (pl_remaining_count st - 1) = unat (pl_remaining_count st) - 1" "0 < unat (pl_remaining_count st)"
    using assms(2) by (auto simp: word_pred_unat unat_gt_0)
  have left: "unat (pl_remaining_bytes st - actual) = unat (pl_remaining_bytes st) - unat actual"
    using assms(3) by (rule unat_sub)
  have le: "unat actual \<le> unat (pl_remaining_bytes st)" using assms(3) by (simp add: word_le_nat_alt)
  have "unat (pl_stored_bytes st + actual) \<le> unat (pl_stored_bytes st) + unat actual"
    by (simp add: unat_word_ariths)
  then show ?thesis using assms(1) count left le by (auto simp: Stored count_outcome_def within_budget_def)
qed (use assms(1) in \<open>simp add: count_outcome_def within_budget_def\<close>)

lemma budget_cleanup:
  assumes "within_budget opts st"
  shows "budget_kept opts (cleanup_object env cfg key quota st)"
proof -
  let ?R = "\<lambda>st' _. within_budget opts st'"
  have ack: "hoare (\<lambda>_. True) (then_io m (ret st')) ?R (\<lambda>_ _. True) (\<lambda>_. True)"
    if "within_budget opts st'" for m :: "unit ccmd" and st'
    by (rule hoare_then [OF hoare_True]) (rule budget_ret [OF that])
  show ?thesis
    unfolding cleanup_object_def
  proof (rule hoare_match [where R = ?R and H = "\<lambda>_ _. True"])
    show "hoare (?R st') (with_journal f st') ?R (\<lambda>_ _. True) (\<lambda>_. True)" for f st'
      using budget_journal [of opts st' f] by (auto simp: hoare_def)
  qed (auto intro!: ack budget_fail budget_ret simp: assms split: option.split)
qed

lemma budget_import:
  assumes b: "within_budget opts st" and count: "pl_remaining_count st \<noteq> 0"
  shows "budget_kept opts (import_downloaded env cfg key ob st)"
  unfolding import_downloaded_def case_prod_unfold
proof (rule hoare_if)
  show "budget_kept opts (ret (skipped key ''total_bytes_budget_exceeded'' st))"
    by (rule budget_ret) (use b in simp)
  assume fits_in: "\<not> pl_remaining_bytes st < byte_count (ob_raw ob)"
  let ?S = "\<lambda>st'. within_budget opts st' \<and> pl_remaining_count st' = pl_remaining_count st \<and> pl_remaining_bytes st' = pl_remaining_bytes st"
  have prep: "hoare (\<lambda>_. True) (prepare_object env raw st) (\<lambda>r _. ?S (snd r)) (\<lambda>_ _. True) (\<lambda>_. True)" for raw
    unfolding prepare_object_def
    by (rule hoare_case_option, rule hoare_ret', simp add: b, rule hoare_bind [OF hoare_True])
      (auto intro!: hoare_ret' simp: b case_prod_unfold)
  have journal: "hoare (\<lambda>_. True) (with_journal f st') (\<lambda>st2 _. ?S st2) (\<lambda>_ _. True) (\<lambda>_. True)" if "?S st'" for f st'
    unfolding with_journal_def
    by (rule hoare_case_option, rule hoare_ret', use that in blast, rule hoare_bind [OF hoare_True], rule hoare_ret')
      (use that in simp)
  have recorded: "budget_kept opts (record_import env cfg key ob out st')" if st': "?S st'" for out st'
    unfolding record_import_def Let_def
  proof (rule budget_bind, rule hoare_bind [OF journal [OF st']])
    fix st1
    let ?st = "if has_duplicate_candidates out then warned ''duplicate_candidate'' st1 else st1"
    show "hoare (\<lambda>_. ?S st1) (cleanup_object env cfg key (ob_quota ob) (count_outcome out (byte_count (ob_raw ob)) ?st))
        (\<lambda>st _. within_budget opts st) (\<lambda>_ _. True) (\<lambda>_. True)"
    proof (cases "?S st1")
      case True
      then have "within_budget opts (count_outcome out (byte_count (ob_raw ob)) ?st)"
        using fits_in count by (intro budget_count_outcome) (auto simp: within_budget_def warned_def)
      then show ?thesis using True by (simp add: budget_cleanup)
    qed (auto simp: hoare_def)
  qed
  show "budget_kept opts (bind_io (prepare_object env (ob_raw ob) st) (\<lambda>r.
        match_io (ingest_message env \<lparr>in_raw = ob_raw ob, in_location = None,
            in_delivery = Some (ob_delivery ob), in_import_as = cf_import_as cfg, in_direction = cf_direction cfg\<rparr>)
          (\<lambda>outcome. record_import env cfg key ob outcome (snd r))
          (\<lambda>e. if error_code e = ''store_error'' then fail e
             else bind_io (if fst r then with_journal (withdraw env (c_content_key env (ob_raw ob))) (snd r) else ret (snd r))
               (\<lambda>st2. ret (warned (error_code e) st2)))))"
  proof (rule hoare_bind [OF prep])
    fix r :: "bool \<times> pull_state"
    have drop: "budget_kept opts (if c then fail e else bind_io (if fst r then with_journal f (snd r) else ret (snd r))
        (\<lambda>st2. ret (warned x st2)))" if "?S (snd r)" for c e f x
    proof (rule hoare_if, rule budget_fail, rule hoare_bind [where R = "\<lambda>st2 _. ?S st2"])
      show "hoare (\<lambda>_. True) (if fst r then with_journal f (snd r) else ret (snd r)) (\<lambda>st2 _. ?S st2) (\<lambda>_ _. True) (\<lambda>_. True)"
        by (rule hoare_if, rule journal [OF that], rule hoare_ret', use that in blast)
      show "hoare (\<lambda>_. ?S st2) (ret (warned x st2)) (\<lambda>st _. within_budget opts st) (\<lambda>_ _. True) (\<lambda>_. True)" for st2
        by (rule hoare_ret') simp
    qed
    show "hoare (\<lambda>_. ?S (snd r)) (match_io (ingest_message env input)
          (\<lambda>outcome. record_import env cfg key ob outcome (snd r))
          (\<lambda>e. if error_code e = ''store_error'' then fail e
             else bind_io (if fst r then with_journal f (snd r) else ret (snd r)) (\<lambda>st2. ret (warned (error_code e) st2))))
        (\<lambda>st _. within_budget opts st) (\<lambda>_ _. True) (\<lambda>_. True)" for input f
    proof (cases "?S (snd r)")
      case True
      then show ?thesis
        using hoare_match [OF hoare_True recorded [OF True] drop [OF True], of "ingest_message env input"] by simp
    qed (auto simp: hoare_def)
  qed
qed

lemma budget_pull_object:
  assumes "within_budget opts st"
  shows "budget_kept opts (pull_object env cfg opts' ob st)"
proof (cases "skip_reason cfg ob st")
  case (Some reason)
  then show ?thesis using assms by (simp add: pull_object_def) (rule budget_ret, simp)
next
  case None
  then have room: "pl_remaining_count st \<noteq> 0" "ls_size ob \<le> pl_remaining_bytes st"
    by (auto simp: skip_reason_def split: if_splits)
  let ?st = "st\<lparr>pl_candidates := pl_candidates st + 1\<rparr>"
  have b: "within_budget opts ?st" using assms by simp
  have dry: "within_budget opts (?st\<lparr>pl_remaining_count := pl_remaining_count st - 1,
      pl_remaining_bytes := pl_remaining_bytes st - ls_size ob\<rparr>)"
    using assms room by (auto simp: within_budget_def unat_sub word_pred_unat word_le_nat_alt)
  have other: "within_budget opts (skipped k r ?st)" "within_budget opts (warned c ?st)" for k r c
    using b by simp_all
  show ?thesis
    unfolding pull_object_def None option.case Let_def
  proof (rule hoare_if)
    show "budget_kept opts (ret (?st\<lparr>pl_remaining_count := pl_remaining_count ?st - 1,
        pl_remaining_bytes := pl_remaining_bytes ?st - ls_size ob\<rparr>))"
      by (rule budget_ret) (use dry in simp)
    show "budget_kept opts (match_io (r2_get env (ls_key ob)) (\<lambda>got. import_downloaded env cfg (ls_key ob) got ?st)
        (\<lambda>e. if error_code e = ''message_too_large'' then ret (skipped (ls_key ob) ''message_too_large'' ?st)
           else if is_not_found e then ret (warned (error_code e) ?st) else fail e))"
      using room by (intro hoare_match [OF hoare_True] budget_import [OF b] hoare_if budget_fail budget_ret other) simp
  qed
qed

text \<open>Claim C24: A pull stays within its budgets.  What it imported and the number of messages left add
  up to at most the budget of messages, the bytes it stored and the bytes left to at most the
  budget of bytes, for every spool, every size that is announced, and every failure of single
  objects; no subtraction of the machine words wraps.\<close>

theorem pull_within_budget:
  assumes "pull_objects env fuel cfg opts selected w = (Done rep, w')"
  shows "pl_imported rep + unat (pl_remaining_count rep) \<le> unat (po_max_new opts)
    \<and> unat (pl_stored_bytes rep) + unat (pl_remaining_bytes rep) \<le> unat (po_max_bytes opts)"
proof -
  have "hoare (\<lambda>_. within_budget opts st) (fold_io (pull_object env cfg opts) obs st) (\<lambda>st _. within_budget opts st) (\<lambda>_ _. True) (\<lambda>_. True)"
    for obs st
  proof (rule hoare_fold)
    show "hoare (\<lambda>_. within_budget opts b) (pull_object env cfg opts x b) (\<lambda>st _. within_budget opts st) (\<lambda>_ _. True) (\<lambda>_. True)" for x b
      using budget_pull_object [of opts b env cfg opts x] by (auto simp: hoare_def)
  qed
  then have loop: "budget_kept opts (fold_io (pull_object env cfg opts) obs (start_state opts j))" for obs j
    by (rule hoare_pre) (simp add: within_budget_def start_state_def)
  have last: "hoare (\<lambda>_. within_budget opts st) (then_io m (ret st)) (\<lambda>st _. within_budget opts st) (\<lambda>_ _. True) (\<lambda>_. True)"
    for st and m :: "unit ccmd"
    by (rule hoare_then [where R = "\<lambda>_. within_budget opts st"]) (auto simp: hoare_def ret_def split: prod.split outcome.split)
  have "budget_kept opts (pull_objects env fuel cfg opts selected)"
    unfolding pull_objects_def then_io_def [of "cask_res _"] then_io_def [of "in_index _"] Let_def
    by (intro budget_bind hoare_bind [OF loop last])
  then show ?thesis using assms by (auto simp: hoare_def within_budget_def dest!: spec [of _ w])
qed

theorem pull_within_budget_witness:
  "\<exists>rep w'. pull_objects tick_env 3 tick_cfg default_pull_options None tick_world = (Done rep, w') \<and> pl_imported rep = 1
    \<and> pl_imported rep + unat (pl_remaining_count rep) \<le> unat (po_max_new default_pull_options)
    \<and> unat (pl_stored_bytes rep) + unat (pl_remaining_bytes rep) \<le> unat (po_max_bytes default_pull_options)"
proof -
  obtain rep w' where p: "pull_objects tick_env 3 tick_cfg default_pull_options None tick_world = (Done rep, w')" "pl_imported rep = 1"
    using tick_pulled by (cases "pull_objects tick_env 3 tick_cfg default_pull_options None tick_world") (auto split: outcome.splits)
  show ?thesis using pull_within_budget [OF p(1)] p by blast
qed

section \<open>A finding\<close>

text \<open>Claim C39: An import that fails after the mail was published can lose its notification.  When the triage
  view of a new mail cannot be rendered, the intent recorded for the mail is withdrawn although the
  mail is stored; the next pull finds it, removes its object from the spool, and no task for it is
  left, nor was one ever handed to the handler or given up.\<close>

theorem unrendered_mail_is_never_notified:
  "\<exists>w. tick_history False w \<and> Published ''m_raw'' ''raw'' \<in> set (cw_log w) \<and> map_of (cw_bucket w) ''inbox/a'' = None
    \<and> map_of (jn_tasks (disk_journal (cw_log w))) ''raw'' = None \<and> \<not> concluded ''raw'' (cw_log w)"
proof -
  let ?w = "unrendered (unrendered tick_world)"
  have "\<not> concluded ''raw'' (cw_log ?w)" by (auto simp: unrendered_log concluded_def handled_def)
  moreover have "Published ''m_raw'' ''raw'' \<in> set (cw_log ?w)" by (simp add: unrendered_log)
  moreover have "map_of (jn_tasks (disk_journal (cw_log ?w))) ''raw'' = None" by (simp add: unrendered_log)
  moreover have "map_of (cw_bucket ?w) ''inbox/a'' = None" by (simp add: unrendered_bucket)
  ultimately show ?thesis using unrendered_chistory [OF unrendered_chistory [OF tick_start]] by blast
qed

end
