(* ===== verification/Delivery_Laws.thy ===== *)
theory Delivery_Laws
  imports Consumer_Scenario
begin

text \<open>
  Laws of the parts of the consumer: listings end, settings keep the archive out of the spool, mail
  never lacks its metadata, and repeated delivery changes nothing.
\<close>

section \<open>Listings\<close>

text \<open>The answers of the bucket: it is not killed, and its tokens are from a finite set.\<close>

definition answers_from :: "cenv \<Rightarrow> string set \<Rightarrow> bool" where
  "answers_from env T \<longleftrightarrow> (\<forall>n cont. case c_list env n cont of ReplyKilled \<Rightarrow> False | ReplyErr e \<Rightarrow> True
     | Reply pg \<Rightarrow> (case pg_continuation pg of None \<Rightarrow> True | Some token \<Rightarrow> token \<in> T))"

lemma list_pages_fuel:
  assumes "finite T" "answers_from env T"
  shows "set tokens \<subseteq> T \<Longrightarrow> distinct tokens \<Longrightarrow> card T - length tokens < fuel
    \<Longrightarrow> fst (list_pages fuel env cont tokens acc w) \<noteq> Killed"
proof (induction fuel arbitrary: cont tokens acc w)
  case (Suc fuel)
  have answer: "case c_list env (cw_tick w) cont of ReplyKilled \<Rightarrow> False | ReplyErr e \<Rightarrow> True
     | Reply pg \<Rightarrow> (case pg_continuation pg of None \<Rightarrow> True | Some token \<Rightarrow> token \<in> T)"
    using assms(2) unfolding answers_from_def by blast
  show ?case
  proof (cases "c_list env (cw_tick w) cont")
    case (Reply pg)
    show ?thesis
    proof (cases "pg_continuation pg")
      case (Some token)
      then have token: "token \<in> T" using answer Reply by simp
      show ?thesis
      proof (cases "token \<in> set tokens")
        case False
        have "card (set (token # tokens)) \<le> card T"
          using Suc.prems(1) token assms(1) by (intro card_mono) auto
        then have "length tokens < card T" using False Suc.prems(2) by (simp add: distinct_card)
        then have "card T - length (token # tokens) < fuel" using Suc.prems(3) by simp
        then have "fst (list_pages fuel env (Some token) (token # tokens) (acc @ pg_objects pg) (ctick w)) \<noteq> Killed"
          using Suc.IH [of "token # tokens"] Suc.prems(1,2) token False by simp
        then show ?thesis using Reply Some False by (simp add: bind_io_def cask_def)
      qed (use Reply Some in \<open>simp add: bind_io_def cask_def fail_def\<close>)
    qed (use Reply in \<open>simp add: bind_io_def cask_def ret_def\<close>)
  qed (use answer in \<open>simp_all add: bind_io_def cask_def\<close>)
qed simp

text \<open>Claim C29: Listing the spool ends.  If the continuation tokens of the bucket come from a finite
  set, the listing returns, with pages or an error, after at most one page more than there are
  tokens: a token that was seen before is refused.\<close>

theorem listing_ends:
  assumes "finite T" "answers_from env T" "card T < fuel"
  shows "fst (list_pages fuel env None [] [] w) \<noteq> Killed"
  by (rule list_pages_fuel [OF assms(1,2)]) (use assms(3) in simp_all)

theorem listing_ends_witness:
  "fst (list_pages 2 (tick_env\<lparr>c_list := \<lambda>_ _. Reply \<lparr>pg_objects = [], pg_continuation = Some ''next''\<rparr>\<rparr>) None [] [] tick_world) \<noteq> Killed"
  by (rule listing_ends [where T = "{''next''}"]) (simp_all add: answers_from_def tick_env_def)

section \<open>Settings\<close>

lemma bind_res_Inr: "bind_res m f = Inr b \<longleftrightarrow> (\<exists>a. m = Inr a \<and> f a = Inr b)"
  by (cases m) auto

lemma require_Inr: "require b e = Inr u \<longleftrightarrow> b"
  by (simp add: require_def)

text \<open>Valid settings keep the archive out of the spool.  If the settings pass validation, the
  archive key of an object is never under the spool prefix, so an archived mail is not pulled
  again; the prefix is a directory, and batches are bounded.\<close>

theorem validated_archive_outside_spool:
  assumes "validate_settings parse cfg = Inr ()"
  shows "(\<forall>t. archive_key_of cfg key = Some t \<longrightarrow> \<not> starts_with t (cf_prefix cfg)) \<and> ends_with_slash (cf_prefix cfg)
    \<and> cf_batch_size cfg \<in> {1..100}"
proof -
  have v: "ends_with_slash (cf_prefix cfg)" "in_range 1 100 (int (cf_batch_size cfg))"
    "case cf_imported_prefix cfg of None \<Rightarrow> True
        | Some p \<Rightarrow> ends_with_slash p \<and> \<not> starts_with p (cf_prefix cfg) \<and> \<not> starts_with (cf_prefix cfg) p"
    using assms by (auto simp: validate_settings_def bind_res_Inr require_Inr)
  have "\<not> prefix (cf_prefix cfg) (p @ rest)" if "cf_imported_prefix cfg = Some p" for p rest
  proof
    assume "prefix (cf_prefix cfg) (p @ rest)"
    moreover have "prefix p (p @ rest)" by simp
    ultimately have "prefix (cf_prefix cfg) p \<or> prefix p (cf_prefix cfg)" by (rule prefix_same_cases)
    then show False using v(3) that by (simp add: starts_with_def)
  qed
  then show ?thesis using v(1,2) by (auto simp: archive_key_of_def starts_with_def in_range_def)
qed

theorem validated_archive_outside_spool_witness:
  "archive_key_of archiving_cfg ''inbox/a'' = Some ''imported/a'' \<and> \<not> starts_with ''imported/a'' (cf_prefix archiving_cfg)
    \<and> ends_with_slash (cf_prefix archiving_cfg) \<and> cf_batch_size archiving_cfg \<in> {1..100}"
proof -
  have "validate_settings (\<lambda>_. Inr OtherSource) archiving_cfg = Inr ()" by code_simp
  moreover have "archive_key_of archiving_cfg ''inbox/a'' = Some ''imported/a''" by code_simp
  ultimately show ?thesis using validated_archive_outside_spool [where cfg = archiving_cfg and key = "''inbox/a''"] by blast
qed

section \<open>Repeated delivery\<close>

lemma add_recipients_known:
  "(\<And>r. r \<in> set rs \<Longrightarrow> list_ex (\<lambda>x. eq_ignore_ascii_case x r) known) \<Longrightarrow> add_recipients known rs = known"
  unfolding add_recipients_def by (induction rs) auto

lemma add_recipients_has:
  "list_ex (\<lambda>x. eq_ignore_ascii_case x r) known \<or> r \<in> set rs \<Longrightarrow>
    list_ex (\<lambda>x. eq_ignore_ascii_case x r) (add_recipients known rs)"
  unfolding add_recipients_def
proof (induction rs arbitrary: known)
  case (Cons a rs)
  let ?k = "if list_ex (\<lambda>x. eq_ignore_ascii_case x a) known then known else known @ [a]"
  have "list_ex (\<lambda>x. eq_ignore_ascii_case x r) ?k \<or> r \<in> set rs" using Cons.prems by auto
  then show ?case using Cons.IH [of ?k] by simp
qed simp

lemma add_recipients_idem: "add_recipients (add_recipients known rs) rs = add_recipients known rs"
  by (rule add_recipients_known) (rule add_recipients_has, simp)

lemma add_sources_set: "set (add_sources known ss) = set known \<union> set ss"
  unfolding add_sources_def by (induction ss arbitrary: known) auto

lemma add_sources_known: "set ss \<subseteq> set known \<Longrightarrow> add_sources known ss = known"
  unfolding add_sources_def by (induction ss) auto

lemma merge_received_idem:
  "merge_received date prior incoming = Inr r \<Longrightarrow> merge_received date r incoming = Inr r"
  by (auto simp: merge_received_def bind_res_Inr ok_or_def split: option.splits if_splits)

text \<open>Merging the same delivery twice is the same as merging it once.  An object that is
  delivered again, or whose import is repeated after a failure, adds no recipient and no source and
  keeps the sender and the earliest time of receipt.\<close>

theorem merge_delivery_idempotent:
  assumes "merge_delivery date prior incoming = Inr d"
  shows "merge_delivery date (Some d) incoming = Inr d"
proof -
  let ?p = "case prior of None \<Rightarrow> default_delivery | Some d \<Rightarrow> d"
  obtain received where r: "merge_received date (de_received ?p) (de_received incoming) = Inr received"
    and d: "d = \<lparr>de_from = (if de_from ?p = None then de_from incoming else de_from ?p),
        de_to = add_recipients (de_to ?p) (de_to incoming), de_received = received,
        de_sources = add_sources (de_sources ?p) (de_sources incoming)\<rparr>"
    using assms by (auto simp: merge_delivery_def Let_def bind_res_Inr)
  have "add_sources (de_sources d) (de_sources incoming) = de_sources d"
    by (rule add_sources_known) (simp add: d add_sources_set)
  then show ?thesis
    using merge_received_idem [OF r] by (simp add: merge_delivery_def d add_recipients_idem)
qed

theorem merge_delivery_idempotent_witness:
  "\<exists>d. merge_delivery (\<lambda>_. Some 0) None (default_delivery\<lparr>de_to := [''a'', ''A'']\<rparr>) = Inr d \<and> de_to d = [''a'']
    \<and> merge_delivery (\<lambda>_. Some 0) (Some d) (default_delivery\<lparr>de_to := [''a'', ''A'']\<rparr>) = Inr d"
proof -
  have m: "merge_delivery (\<lambda>_. Some 0) None (default_delivery\<lparr>de_to := [''a'', ''A'']\<rparr>) = Inr (default_delivery\<lparr>de_to := [''a'']\<rparr>)"
    by code_simp
  show ?thesis using merge_delivery_idempotent [OF m] m by (simp add: default_delivery_def)
qed

section \<open>Metadata before mail\<close>

text \<open>Every stored mail has its metadata.\<close>

definition described :: "cworld \<Rightarrow> bool" where
  "described w \<longleftrightarrow> (\<forall>mid. map_of (cw_eml w) mid \<noteq> None \<longrightarrow> map_of (cw_meta w) mid \<noteq> None)"

text \<open>Operations that keep the mail and lose no metadata.\<close>

definition grows :: "cworld \<Rightarrow> cworld \<Rightarrow> bool" where
  "grows w w' \<longleftrightarrow> cw_eml w' = cw_eml w \<and> (\<forall>mid. map_of (cw_meta w) mid \<noteq> None \<longrightarrow> map_of (cw_meta w') mid \<noteq> None)"

definition up_closed :: "(cworld \<Rightarrow> bool) \<Rightarrow> bool" where
  "up_closed P \<longleftrightarrow> (\<forall>w w'. P w \<longrightarrow> grows w w' \<longrightarrow> P w')"

lemma up_closedD: "up_closed P \<Longrightarrow> P w \<Longrightarrow> grows w w' \<Longrightarrow> P w'"
  by (auto simp: up_closed_def)

lemma up_closed_described: "up_closed described"
  by (auto simp: up_closed_def described_def grows_def)

lemma up_closed_has: "up_closed (\<lambda>w. described w \<and> map_of (cw_meta w) mid \<noteq> None)"
  using up_closed_described by (auto simp: up_closed_def grows_def)

lemma up_disk: "up_closed P \<Longrightarrow> (\<And>w. grows w (f w)) \<Longrightarrow> keeps P (cdisk env ctxt f)"
proof (rule hoare_cdisk, goal_cases)
  case (1 w)
  have "grows w (f (ctick w))" using 1(2) [of "ctick w"] by (simp add: grows_def ctick_def)
  then show ?case using 1 up_closedD by blast
next
  case (2 w m)
  have "grows w (f (ctick w))" "grows w (ctick w)" using 2(2) [of "ctick w"] by (simp_all add: grows_def ctick_def)
  then show ?case using 2 up_closedD by blast
next
  case (3 w)
  have "grows w (f (ctick w))" "grows w (ctick w)" using 3(2) [of "ctick w"] by (simp_all add: grows_def ctick_def)
  then show ?case using 3 up_closedD by blast
qed

lemma grows_ctick: "grows w (ctick w)"
  by (simp add: grows_def ctick_def)

lemma up_read: "up_closed P \<Longrightarrow> keeps P (cread env ctxt)"
  by (rule up_disk) (simp_all add: grows_def)

lemma up_ask: "up_closed P \<Longrightarrow> keeps P (cask_res f)"
  using up_closedD grows_ctick by (auto simp: hoare_def cask_res_def cask_def split: sum.splits reply.splits)

lemma up_modify: "up_closed P \<Longrightarrow> (\<And>w. grows w (f w)) \<Longrightarrow> keeps P (modify f)"
  using up_closedD by (auto intro!: hoare_modify')

lemma up_index: "up_closed P \<Longrightarrow> keeps P (in_index f)"
  unfolding in_index_def by (rule up_modify) (simp_all add: grows_def)

lemmas up_rules = hoare_rules up_read up_ask up_index

lemma up_read_mail: "up_closed P \<Longrightarrow> keeps P (read_mail env mid)"
  unfolding read_mail_def read_from_eml_def read_message_def with_status_def by (intro up_rules)

lemma up_write_metadata: "up_closed P \<Longrightarrow> keeps P (write_metadata env mid md)"
  unfolding write_metadata_def by (intro up_rules up_disk) (auto simp: grows_def)

lemma up_write_cache: "up_closed P \<Longrightarrow> keeps P (write_cache env m)"
  unfolding write_cache_def by (intro up_rules up_disk) (auto simp: grows_def)

lemma up_disposition: "up_closed P \<Longrightarrow> keeps P (set_message_disposition env status mid)"
  unfolding set_message_disposition_def by (intro up_rules up_disk) (auto simp: grows_def)

lemma up_triage_view: "up_closed P \<Longrightarrow> keeps P (write_triage_view env mid)"
  unfolding write_triage_view_def by (intro up_rules up_disk) (auto simp: grows_def)

lemma up_persist: "up_closed P \<Longrightarrow> keeps P (persist_message_metadata env m)"
  unfolding persist_message_metadata_def by (intro up_rules up_write_metadata)

lemma up_merge_delivery: "up_closed P \<Longrightarrow> keeps P (merge_message_delivery env mid d)"
  unfolding merge_message_delivery_def by (intro up_rules up_write_metadata)

lemma persisted_has:
  "hoare described (persist_message_metadata env m)
    (\<lambda>_ w. described w \<and> map_of (cw_meta w) (ml_id m) \<noteq> None) (\<lambda>_. described) described"
proof -
  have md: "hoare described (write_metadata env (ml_id m) md)
      (\<lambda>_ w. described w \<and> map_of (cw_meta w) (ml_id m) \<noteq> None) (\<lambda>_. described) described" for md
    unfolding write_metadata_def
    by (rule hoare_then [OF up_read [OF up_closed_described]], rule hoare_cdisk) (auto simp: described_def ctick_def)
  show ?thesis
    unfolding persist_message_metadata_def
    by (rule hoare_then [OF up_read [OF up_closed_described] hoare_bind [OF keeps_gets md]])
qed

lemma new_mail_id [simp]: "ml_id (new_mail input parsed) = ml_id parsed"
  by (simp add: new_mail_def with_envelope_def merge_envelope_to_def split: option.split)

lemma parsed_id: "parse_message env mid raw opt = Inr m \<Longrightarrow> ml_id m = mid"
  by (auto simp: parse_message_def bind_res_def Let_def case_prod_unfold split: sum.splits)

text \<open>Claim C30: A mail is never stored without its metadata.  Wherever an import is cut off, failed or
  killed, every raw mail in the workspace has a metadata file, without which it could not be read.\<close>

theorem ingest_keeps_described:
  assumes "described w" "ingest_message env input w = (r, w')"
  shows "described w'"
proof -
  let ?D = described
  note D = up_closed_described
  have merge: "keeps ?D (merge_ingest env input mid)" for mid
    unfolding merge_ingest_def Let_def case_prod_unfold
    by (intro up_rules up_read_mail up_persist up_merge_delivery up_write_cache D)
  let ?H = "\<lambda>mid w. ?D w \<and> map_of (cw_meta w) mid \<noteq> None"
  have to: "hoare (?H mid) n (\<lambda>_. ?H mid) (\<lambda>_. ?D) ?D" if "keeps (?H mid) n" for mid and n :: "unit ccmd"
    by (rule hoare_weaken [OF that]) auto
  have publish: "hoare (?H mid) (publish_raw env mid raw) (\<lambda>_. ?D) (\<lambda>_. ?D) ?D" for mid raw
    unfolding publish_raw_def
    by (rule hoare_cdisk) (auto simp: described_def ctick_def clog_def split: if_splits)
  have rest: "keeps ?D (then_io (write_cache env m) (then_io (when_io t (write_triage_view env mid))
      (then_io (in_index f) (ret out))))" for m t mid f out
    by (intro up_rules up_write_cache up_triage_view D)
  have tail: "hoare ?D (then_io (persist_message_metadata env m)
       (then_io (case in_delivery input of None \<Rightarrow> ret () | Some d \<Rightarrow> merge_message_delivery env mid d)
       (then_io (when_io b (set_message_disposition env st mid))
       (then_io (publish_raw env mid raw) (then_io (write_cache env m) (then_io (when_io t (write_triage_view env mid))
       (then_io (in_index f) (ret out)))))))) (\<lambda>_. ?D) (\<lambda>_. ?D) ?D" if "ml_id m = mid" for m mid b st raw t f out
    by (rule hoare_then [OF persisted_has [of env m, unfolded that]], rule hoare_then [OF to], intro keeps_case_option keeps_ret
        up_merge_delivery up_closed_has, rule hoare_then [OF to], intro keeps_when up_disposition up_closed_has,
        rule hoare_then [OF publish rest])
  have "keeps ?D (store_ingest env input)"
    unfolding store_ingest_def Let_def
  proof (rule hoare_bind)
    let ?r = "parse_message env (c_message_id env (in_raw input)) (in_raw input) (ingest_options input)"
    show "hoare ?D (of_res ?r) (\<lambda>m w. ml_id m = c_message_id env (in_raw input) \<and> ?D w) (\<lambda>_. ?D) ?D"
      by (rule hoare_of_res) (auto dest: parsed_id)
  qed (rule hoare_pure_pre, rule hoare_bind [OF keeps_gets], rule hoare_then [OF up_read [OF D]],
      rule hoare_bind [OF keeps_gets], rule hoare_if, rule hoare_fail, rule tail, simp)
  then have "keeps ?D (ingest_message env input)"
    unfolding ingest_message_def by (intro up_rules merge)
  then show ?thesis using assms by (cases r) (auto simp: hoare_def dest!: spec [of _ w])
qed

theorem ingest_keeps_described_witness:
  "described (snd (ingest_message tick_env \<lparr>in_raw = ''raw'', in_location = None, in_delivery = None, in_import_as = ''triage'',
     in_direction = ''inbound''\<rparr> tick_world))"
  by (rule ingest_keeps_described [where w = tick_world and env = tick_env, OF _ surjective_pairing]) (simp add: described_def tick_world_def)

section \<open>The time of outbound mail\<close>

definition timeless :: "string \<Rightarrow> cworld \<Rightarrow> bool" where
  "timeless mid w = (case map_of (cw_cache w) mid of None \<Rightarrow> False
     | Some m \<Rightarrow> ml_sent m = None \<and> ml_received m = None)"

lemma outbound_parsed: "in_direction input = ''outbound'' \<Longrightarrow> parse_message env mid raw (ingest_options input) = Inr m
    \<Longrightarrow> ml_received m = None"
  by (auto simp: parse_message_def ingest_options_def bind_res_def Let_def parses_as_outbound_def
      eq_ignore_ascii_case_def split: sum.splits)

lemma outbound_new_mail: "in_direction input = ''outbound'' \<Longrightarrow> ml_received m = None \<Longrightarrow>
    ml_sent (new_mail input m) = None \<and> ml_received (new_mail input m) = None"
  by (simp add: new_mail_def with_envelope_def merge_envelope_to_def split: option.split)

lemma keeps_timeless_cache:
  assumes "\<And>w. cw_cache (f w) = cw_cache w"
  shows "keeps (timeless mid) (cdisk env c f)" "keeps (timeless mid) (modify f)"
  using assms by (auto simp: timeless_def ctick_def hoare_def modify_def cdisk_def split: disk_event.splits)

lemma timeless_written: "ml_sent m = None \<Longrightarrow> ml_received m = None \<Longrightarrow> ml_id m = mid \<Longrightarrow>
    hoare (\<lambda>_. True) (write_cache env m) (\<lambda>_. timeless mid) (\<lambda>_ _. True) (\<lambda>_. True)"
  unfolding write_cache_def
  by (rule hoare_then [where R = "\<lambda>_. True"], rule hoare_cdisk, simp_all,
      rule hoare_then [where R = "\<lambda>_. True"], rule hoare_cdisk, simp_all, rule hoare_cdisk)
    (simp_all add: timeless_def)

lemma timeless_ask: "keeps (timeless mid) (cask_res f)"
  by (auto simp: hoare_def cask_res_def cask_def timeless_def ctick_def split: sum.splits reply.splits)

lemma any_fail: "hoare P (fail e) Q (\<lambda>_ _. True) (\<lambda>_. True)"
  by (simp add: hoare_def fail_def)

text \<open>Claim C40: Mail that is imported as outbound is stored without any time, although the date of its
  header was parsed and a time of receipt may have come with it: the import moves the time of receipt
  to the time of sending, but for outbound mail the parser has set the latter and left the former
  empty, so that the cached document has neither.\<close>

theorem outbound_import_loses_time:
  assumes "ingest_message env input w = (Done (Stored mid duplicates), w')" "in_direction input = ''outbound''"
  shows "\<exists>m. map_of (cw_cache w') mid = Some m \<and> ml_sent m = None \<and> ml_received m = None"
proof -
  let ?T = "\<lambda>_::cworld. True"
  let ?Q = "\<lambda>out w. case out of Stored mid _ \<Rightarrow> timeless mid w | Merged _ _ \<Rightarrow> True"
  let ?mid = "c_message_id env (in_raw input)"
  have any: "hoare ?T m (\<lambda>_. ?T) (\<lambda>_. ?T) ?T" for m :: "'a ccmd"
    by (auto simp: hoare_def split: prod.split outcome.split)
  have to: "keeps (timeless ?mid) m \<Longrightarrow> hoare (timeless ?mid) m (\<lambda>_. timeless ?mid) (\<lambda>_. ?T) ?T" for m :: "'a ccmd"
    by (erule hoare_weaken) auto
  have view: "keeps (timeless ?mid) (when_io b (write_triage_view env ?mid))" for b
    unfolding write_triage_view_def by (intro hoare_rules keeps_timeless_cache timeless_ask) simp_all
  have tail: "hoare (timeless ?mid) (then_io (when_io b (write_triage_view env ?mid))
      (then_io (in_index f) (ret (Stored ?mid ds)))) ?Q (\<lambda>_. ?T) ?T" for b f ds
    unfolding in_index_def
    by (rule hoare_then [OF to [OF view]], rule hoare_then [OF to [OF keeps_timeless_cache(2)]], simp, rule hoare_ret')
      simp
  have merged: "hoare ?T (merge_ingest env input mid) ?Q (\<lambda>_. ?T) ?T" for mid
    unfolding merge_ingest_def Let_def case_prod_unfold
    by (rule hoare_bind [OF any], rule hoare_then [OF any], rule hoare_then [OF any], rule hoare_then [OF any],
        rule hoare_bind [OF any], rule hoare_then [OF any], rule hoare_ret') simp
  have rest: "hoare ?T (then_io (persist_message_metadata env m)
       (then_io d (then_io v (then_io e (then_io (write_cache env m) (then_io (when_io b (write_triage_view env ?mid))
       (then_io (in_index f) (ret (Stored ?mid ds))))))))) ?Q (\<lambda>_. ?T) ?T"
    if "ml_sent m = None" "ml_received m = None" "ml_id m = ?mid" for m b d v e f ds
    by (rule hoare_then [OF any], rule hoare_then [OF any], rule hoare_then [OF any], rule hoare_then [OF any],
        rule hoare_then [OF timeless_written [OF that] tail])
  have stored: "hoare ?T (store_ingest env input) ?Q (\<lambda>_. ?T) ?T"
    unfolding store_ingest_def Let_def
  proof (rule hoare_bind)
    let ?r = "parse_message env ?mid (in_raw input) (ingest_options input)"
    show "hoare ?T (of_res ?r) (\<lambda>m w. (ml_id m = ?mid \<and> ml_received m = None) \<and> ?T w) (\<lambda>_. ?T) ?T"
      by (rule hoare_of_res) (use assms(2) in \<open>auto dest: parsed_id outbound_parsed\<close>)
  qed (rule hoare_pure_pre, rule hoare_bind [OF any], rule hoare_then [OF any], rule hoare_bind [OF any], rule hoare_if,
      rule any_fail, rule rest, insert outbound_new_mail [OF assms(2)], simp_all)
  have "hoare ?T (ingest_message env input) ?Q (\<lambda>_. ?T) ?T"
    unfolding ingest_message_def
    by (rule hoare_if, rule any_fail, rule hoare_bind [OF any], rule hoare_case_option, rule stored, rule merged)
  then have "timeless mid w'" using assms(1) by (auto simp: hoare_def dest!: spec [of _ w])
  then show ?thesis by (simp add: timeless_def split: option.splits)
qed

theorem outbound_import_loses_time_witness:
  "c_header_date tick_env ''raw'' = Some ''date'' \<and>
   (\<exists>m. map_of (cw_cache (snd (ingest_message tick_env \<lparr>in_raw = ''raw'', in_location = None, in_delivery = None,
      in_import_as = ''triage'', in_direction = ''outbound''\<rparr> tick_world))) ''m_raw'' = Some m
    \<and> ml_sent m = None \<and> ml_received m = None)"
proof
  let ?i = "\<lparr>in_raw = ''raw'', in_location = None, in_delivery = None, in_import_as = ''triage'', in_direction = ''outbound''\<rparr>"
  have "fst (ingest_message tick_env ?i tick_world) = Done (Stored ''m_raw'' [])" by code_simp
  then have "ingest_message tick_env ?i tick_world = (Done (Stored ''m_raw'' []), snd (ingest_message tick_env ?i tick_world))"
    by (metis prod.collapse)
  from outbound_import_loses_time [OF this]
  show "\<exists>m. map_of (cw_cache (snd (ingest_message tick_env ?i tick_world))) ''m_raw'' = Some m
      \<and> ml_sent m = None \<and> ml_received m = None" by simp
qed (simp add: tick_env_def)

end
