(* ===== verification/Mailbox_Pull.thy ===== *)
theory Mailbox_Pull
  imports Consumer_Run Push_Plan
begin

text \<open>
  The pull from mailboxes of an IMAP server (src/src/sources/imap/mod.rs, session.rs, identity.rs,
  src/src/store/remote_sync.rs).  A cursor per mailbox remembers the highest UID that was dealt with,
  so that the next pull asks for later ones only; it must never pass a message that was not stored.

  The server is a record of answers, indexed like the other environment by the counter of I/O
  operations.  Progress reports and the test variable for the size limit are left out.
\<close>

section \<open>The server\<close>

datatype search_query = UidAfter u64 | SinceDays nat | AllMail

record header_answer =
  ha_uid :: "u64 option"
  ha_header :: bool
  ha_flags :: "string list"
  ha_size :: "u64 option"

record body_answer =
  ba_uid :: "u64 option"
  ba_flags :: "string list"
  ba_body :: "string option"

record mailbox_info =
  mi_name :: string
  mi_attributes :: "string list"

record imap_server =
  srv_login :: "nat \<Rightarrow> unit reply"
  srv_list :: "nat \<Rightarrow> mailbox_info list reply"
  srv_examine :: "nat \<Rightarrow> string \<Rightarrow> u64 option reply"
  srv_search :: "nat \<Rightarrow> string \<Rightarrow> search_query \<Rightarrow> u64 list reply"
  srv_headers :: "nat \<Rightarrow> string \<Rightarrow> u64 list \<Rightarrow> header_answer list reply"
  srv_sizes :: "nat \<Rightarrow> string \<Rightarrow> u64 list \<Rightarrow> (u64 option \<times> u64 option) list reply"
  srv_full :: "nat \<Rightarrow> string \<Rightarrow> u64 \<Rightarrow> body_answer list reply"
  srv_partial :: "nat \<Rightarrow> string \<Rightarrow> u64 \<Rightarrow> int \<Rightarrow> int \<Rightarrow> body_answer list reply"
  srv_uids :: "nat \<Rightarrow> string \<Rightarrow> u64 option list reply"
  srv_random :: "nat \<Rightarrow> string res"
  srv_unbounded :: bool

section \<open>Which mailboxes\<close>

record pull_target =
  pt_id :: string
  pt_mailbox :: string
  pt_import_as :: string
  pt_direction :: string

definition dedup_ids :: "string list \<Rightarrow> string list" where
  "dedup_ids ids = fold (\<lambda>i out. if i \<in> set out then out else out @ [i]) ids []"

definition default_pull_ids :: "mail_config \<Rightarrow> string list" where
  "default_pull_ids cfg = dedup_ids
     (filter (\<lambda>i. map_of (mc_mailboxes cfg) i \<noteq> None) (pa_default_mailbox_ids (ac_pull (mc_actions cfg))))"

definition err_unknown_mailbox_id :: "string \<Rightarrow> app_error" where
  "err_unknown_mailbox_id i = app_error_new ''unknown_mailbox_id'' (''unknown IMAP mailbox id: '' @ i)"

definition selected_pull_ids :: "mail_config \<Rightarrow> string list \<Rightarrow> string list res" where
  "selected_pull_ids cfg ids = bind_res
     (if ids = [] then Inr (default_pull_ids cfg)
      else (case List.find (\<lambda>i. map_of (mc_mailboxes cfg) i = None) ids of
          Some i \<Rightarrow> Inl (err_unknown_mailbox_id i) | None \<Rightarrow> Inr (dedup_ids ids)))
     (\<lambda>selected. if selected = []
        then Inl (config_invalid ''actions.pull.default_mailbox_ids is empty; pass configured ids explicitly'')
        else Inr selected)"

definition err_mailbox_ambiguous :: "string \<Rightarrow> app_error" where
  "err_mailbox_ambiguous m = app_error_new ''imap_mailbox_ambiguous'' m"

text \<open>One rule matches by name, then by attribute; more than one match is an error, none goes on.\<close>

definition unique_match :: "string \<Rightarrow> (mailbox_info \<Rightarrow> bool) \<Rightarrow> mailbox_info list \<Rightarrow> string option res" where
  "unique_match label P ms = (case filter P ms of
     [] \<Rightarrow> Inr None | [m] \<Rightarrow> Inr (Some (mi_name m)) | _ \<Rightarrow> Inl (err_mailbox_ambiguous label))"

definition match_rule :: "string \<Rightarrow> mailbox_resolve_rule \<Rightarrow> mailbox_info list \<Rightarrow> string option res" where
  "match_rule label r ms = bind_res
     (case mr_mailbox_name r of None \<Rightarrow> Inr None
      | Some n \<Rightarrow> unique_match label (\<lambda>m. eq_ignore_ascii_case (mi_name m) n) ms)
     (\<lambda>found. case found of Some n \<Rightarrow> Inr (Some n)
      | None \<Rightarrow> (case mr_special_use r of None \<Rightarrow> Inr None
         | Some a \<Rightarrow> unique_match label (\<lambda>m. list_ex (\<lambda>x. eq_ignore_ascii_case x a) (mi_attributes m)) ms))"

fun resolve_configured_mailbox :: "string \<Rightarrow> mailbox_resolve_rule list \<Rightarrow> mailbox_info list \<Rightarrow> string res" where
  "resolve_configured_mailbox i [] ms = Inl (app_error_new ''imap_mailbox_unresolved''
     (''mailboxes.'' @ i @ ''.resolve matched no remote mailbox''))"
| "resolve_configured_mailbox i (r # rs) ms = bind_res (match_rule (''mailboxes.'' @ i @ ''.resolve'') r ms) (\<lambda>found.
     case found of Some n \<Rightarrow> Inr n | None \<Rightarrow> resolve_configured_mailbox i rs ms)"

definition needs_list :: "mail_config \<Rightarrow> string \<Rightarrow> bool" where
  "needs_list cfg i = (case map_of (mc_mailboxes cfg) i of None \<Rightarrow> False
     | Some rules \<Rightarrow> length rules \<noteq> 1 \<or> list_ex (\<lambda>r. mr_special_use r \<noteq> None) rules)"

definition pull_action :: "mail_config \<Rightarrow> string \<Rightarrow> pull_mailbox_action res" where
  "pull_action cfg i = ok_or (config_invalid (''actions.pull.by_mailbox_id.'' @ i @ '' is missing''))
     (map_of (pa_by_mailbox_id (ac_pull (mc_actions cfg))) i)"

definition resolve_target :: "mail_config \<Rightarrow> mailbox_info list option \<Rightarrow> string \<Rightarrow> pull_target res" where
  "resolve_target cfg listed i = bind_res (config_mailbox cfg i) (\<lambda>rules. bind_res (pull_action cfg i) (\<lambda>act.
     bind_res (case listed of
         Some ms \<Rightarrow> resolve_configured_mailbox i rules ms
       | None \<Rightarrow> ok_or (config_invalid (''mailboxes.'' @ i @ '' does not resolve to a mailbox name offline''))
           (offline_mailbox_name rules)) (\<lambda>name.
       Inr \<lparr>pt_id = i, pt_mailbox = name, pt_import_as = pm_import_as act, pt_direction = pm_direction act\<rparr>)))"

fun resolve_targets :: "mail_config \<Rightarrow> mailbox_info list option \<Rightarrow> string list \<Rightarrow> pull_target list \<Rightarrow> pull_target list res" where
  "resolve_targets cfg listed [] acc = Inr acc"
| "resolve_targets cfg listed (i # is) acc = bind_res (resolve_target cfg listed i) (\<lambda>t.
     if pt_mailbox t \<in> set (map pt_mailbox acc)
     then Inl (err_mailbox_ambiguous (''multiple selected mailbox ids resolve to remote mailbox '' @ pt_mailbox t))
     else resolve_targets cfg listed is (acc @ [t]))"

definition resolve_pull_targets :: "mail_config \<Rightarrow> imap_server \<Rightarrow> string list \<Rightarrow> pull_target list ccmd" where
  "resolve_pull_targets cfg srv ids = bind_io (of_res (selected_pull_ids cfg ids)) (\<lambda>selected.
     bind_io (if list_ex (needs_list cfg) selected then bind_io (cask (srv_list srv)) (\<lambda>ms. ret (Some ms)) else ret None)
       (\<lambda>listed. of_res (resolve_targets cfg listed selected [])))"

section \<open>Cursors\<close>

definition FULL_RECONCILE_INTERVAL :: u64 where
  "FULL_RECONCILE_INTERVAL = 10"

definition DEFAULT_INITIAL_SINCE_DAYS :: nat where
  "DEFAULT_INITIAL_SINCE_DAYS = 90"

definition effective_since_days :: "pull_options \<Rightarrow> nat option" where
  "effective_since_days opts = (if po_all_history opts then None else (case po_since_days opts of
     None \<Rightarrow> Some DEFAULT_INITIAL_SINCE_DAYS | Some d \<Rightarrow> Some d))"

definition err_quarantine_failed :: "string \<Rightarrow> app_error" where
  "err_quarantine_failed m = app_error_new ''pull_cursor_quarantine_failed'' m"

text \<open>The file as it is read: its cursors if it is a document of this build, else why it is not.\<close>

definition read_cursors :: "cursor_file \<Rightarrow> string + (string \<times> mailbox_cursor) list" where
  "read_cursors f = (case f of
     NoCursors \<Rightarrow> Inr []
   | CursorDocument name version cs \<Rightarrow>
       if name = ''pull_cursors'' \<and> version = 1 then Inr cs else Inl ''schema_mismatch''
   | CursorGarbage _ \<Rightarrow> Inl ''invalid_json'')"

text \<open>A file that cannot be used is moved aside under a fresh name, never overwritten.\<close>

definition quarantine_cursors :: "cenv \<Rightarrow> imap_server \<Rightarrow> string \<Rightarrow> ((string \<times> mailbox_cursor) list \<times> string option) ccmd" where
  "quarantine_cursors env srv reason =
     bind_io (cask_res (srv_random srv)) (\<lambda>suffix.
     then_io (match_io (cread env ''inspect'') ret
       (\<lambda>_. fail (err_quarantine_failed ''could not inspect the cursor quarantine path'')))
     (bind_io (gets (\<lambda>w. (map_of (cw_quarantine w) suffix \<noteq> None, cw_cursors w = NoCursors))) (\<lambda>(taken, missing).
      if taken then fail (err_quarantine_failed ''cursor quarantine path already exists'')
      else if missing then fail (err_quarantine_failed ''could not preserve the unreadable pull cursor'')
      else then_io (match_io (cdisk env ''rename'' (\<lambda>w. w\<lparr>cw_quarantine := put suffix (cw_cursors w) (cw_quarantine w),
             cw_cursors := NoCursors\<rparr>)) ret
           (\<lambda>_. fail (err_quarantine_failed ''could not preserve the unreadable pull cursor'')))
        (ret ([], Some reason)))))"

definition load_pull_cursors :: "cenv \<Rightarrow> imap_server \<Rightarrow> ((string \<times> mailbox_cursor) list \<times> string option) ccmd" where
  "load_pull_cursors env srv = match_io (then_io (cread env ''read cursors'') (gets cw_cursors))
     (\<lambda>f. case read_cursors f of Inr cs \<Rightarrow> ret (cs, None) | Inl reason \<Rightarrow> quarantine_cursors env srv reason)
     (\<lambda>_. quarantine_cursors env srv ''read_failed'')"

definition pull_cursor_for_target :: "(string \<times> mailbox_cursor) list \<Rightarrow> pull_target \<Rightarrow> (u64 \<times> u64) option" where
  "pull_cursor_for_target cs t = (case map_of cs (pt_id t) of
     None \<Rightarrow> None
   | Some c \<Rightarrow> if cu_mailbox_id c \<noteq> pt_id t \<or> cu_mailbox_name c \<noteq> pt_mailbox t
         \<or> FULL_RECONCILE_INTERVAL \<le> cu_pull_count c then None
       else Some (cu_uid_validity c, cu_highest_uid c))"

record cursor_update =
  up_mailbox_id :: string
  up_mailbox_name :: string
  up_uid_validity :: u64
  up_highest_uid :: u64

definition apply_update :: "string \<Rightarrow> bool \<Rightarrow> cursor_update \<Rightarrow> (string \<times> mailbox_cursor) list \<Rightarrow> (string \<times> mailbox_cursor) list" where
  "apply_update stamp full u cs = (let previous = (case map_of cs (up_mailbox_id u) of None \<Rightarrow> 0 | Some c \<Rightarrow> cu_pull_count c)
     in put (up_mailbox_id u) \<lparr>cu_mailbox_id = up_mailbox_id u, cu_mailbox_name = up_mailbox_name u,
        cu_uid_validity = up_uid_validity u, cu_highest_uid = up_highest_uid u,
        cu_pull_count = (if full then 0 else saturating_inc previous), cu_updated = stamp\<rparr> cs)"

definition commit_pull_cursors :: "cenv \<Rightarrow> imap_server \<Rightarrow> cursor_update list \<Rightarrow> bool \<Rightarrow> unit ccmd" where
  "commit_pull_cursors env srv updates full = (if updates = [] then ret ()
     else bind_io (load_pull_cursors env srv) (\<lambda>(cs, warning).
       if warning \<noteq> None then fail (app_error_new ''pull_cursor_changed''
         ''pull cursor became unreadable before commit; retry the pull'')
       else bind_io (gets (\<lambda>w. c_clock env (cw_tick w))) (\<lambda>stamp.
         cdisk env ''write json'' (\<lambda>w. w\<lparr>cw_cursors := CursorDocument ''pull_cursors'' 1
           (fold (apply_update stamp full) updates cs)\<rparr>))))"

section \<open>Listing a mailbox\<close>

record header_selection =
  hs_uid_validity :: u64
  hs_uids :: "u64 list"
  hs_cursor_used :: bool
  hs_validity_reset :: bool
  hs_previous :: "u64 option"

definition MAX_UID :: u64 where
  "MAX_UID = - 1"

definition search_for :: "u64 option \<Rightarrow> nat option \<Rightarrow> search_query option" where
  "search_for previous since = (case previous of
     Some uid \<Rightarrow> if uid = MAX_UID then None else Some (UidAfter (uid + 1))
   | None \<Rightarrow> Some (case since of Some d \<Rightarrow> SinceDays d | None \<Rightarrow> AllMail))"

text \<open>A range that starts past the last UID answers with the last one, which is dropped here.\<close>

definition select_uids :: "imap_server \<Rightarrow> string \<Rightarrow> nat option \<Rightarrow> (u64 \<times> u64) option \<Rightarrow> header_selection ccmd" where
  "select_uids srv mailbox since cursor = bind_io (cask (\<lambda>n. srv_examine srv n mailbox)) (\<lambda>status.
     let validity = (case status of None \<Rightarrow> 0 | Some v \<Rightarrow> v);
         reset = (case cursor of None \<Rightarrow> False | Some (v, _) \<Rightarrow> v \<noteq> validity);
         previous = (case cursor of None \<Rightarrow> None | Some (v, h) \<Rightarrow> if v = validity then Some h else None)
     in bind_io (case search_for previous (if reset then None else since) of
          None \<Rightarrow> ret []
        | Some q \<Rightarrow> cask (\<lambda>n. srv_search srv n mailbox q)) (\<lambda>found.
          ret \<lparr>hs_uid_validity = validity,
            hs_uids = remdups_adj (sort (filter (\<lambda>u. case previous of None \<Rightarrow> True | Some h \<Rightarrow> h < u) found)),
            hs_cursor_used = previous \<noteq> None, hs_validity_reset = reset, hs_previous = previous\<rparr>))"

record remote_envelope =
  re_mailbox :: string
  re_uid_validity :: u64
  re_uid :: u64
  re_flags :: "string list"
  re_size :: "u64 option"

definition usable_header :: "string \<Rightarrow> u64 \<Rightarrow> u64 list \<Rightarrow> header_answer \<Rightarrow> remote_envelope option" where
  "usable_header mailbox validity uids h = (case ha_uid h of
     None \<Rightarrow> None
   | Some u \<Rightarrow> if u \<in> set uids \<and> ha_header h
       then Some \<lparr>re_mailbox = mailbox, re_uid_validity = validity, re_uid = u, re_flags = canonical_flags (ha_flags h),
          re_size = ha_size h\<rparr>
       else None)"

fun dedup_by_uid :: "remote_envelope list \<Rightarrow> remote_envelope list" where
  "dedup_by_uid (a # b # xs) = (if re_uid a = re_uid b then dedup_by_uid (a # xs) else a # dedup_by_uid (b # xs))"
| "dedup_by_uid xs = xs"

definition fetch_header_batch :: "imap_server \<Rightarrow> string \<Rightarrow> u64 \<Rightarrow> u64 list \<Rightarrow> (remote_envelope list \<times> u64 list) ccmd" where
  "fetch_header_batch srv mailbox validity uids = bind_io (cask (\<lambda>n. srv_headers srv n mailbox uids)) (\<lambda>answers.
     let envelopes = dedup_by_uid (sort_key re_uid (List.map_filter (usable_header mailbox validity uids) answers))
     in ret (envelopes, filter (\<lambda>u. u \<notin> re_uid ` set envelopes) (remdups_adj (sort uids))))"

section \<open>Fetching bodies\<close>

record remote_message =
  rm_mailbox :: string
  rm_uid_validity :: u64
  rm_uid :: u64
  rm_flags :: "string list"
  rm_raw :: string

text \<open>Lengths of bodies are integers here, so that the limits can be computed with.\<close>

definition max_message_bytes :: int where
  "max_message_bytes = 104857600"

definition CHUNK_BYTES :: int where
  "CHUNK_BYTES = 1048576"

definition size_of :: "string \<Rightarrow> int" where
  "size_of raw = int (length raw)"

definition answer_for :: "u64 \<Rightarrow> body_answer list \<Rightarrow> (string list \<times> string) option" where
  "answer_for uid answers = (case List.find (\<lambda>a. ba_uid a = Some uid) answers of
     None \<Rightarrow> None
   | Some a \<Rightarrow> map_option (\<lambda>body. (canonical_flags (ba_flags a), body)) (ba_body a))"

definition fetch_full_body :: "imap_server \<Rightarrow> string \<Rightarrow> u64 \<Rightarrow> (string list \<times> string) option ccmd" where
  "fetch_full_body srv mailbox uid = bind_io (cask (\<lambda>n. srv_full srv n mailbox uid)) (\<lambda>answers. ret (answer_for uid answers))"

text \<open>The body in chunks, until one is shorter than requested or the limit of \<open>limit\<close> bytes is reached.\<close>

fun fetch_chunks :: "nat \<Rightarrow> imap_server \<Rightarrow> string \<Rightarrow> u64 \<Rightarrow> int \<Rightarrow> string list \<Rightarrow> string \<Rightarrow> (string list \<times> string) option ccmd" where
  "fetch_chunks 0 srv mailbox uid limit flags raw = (\<lambda>w. (Killed, w))"
| "fetch_chunks (Suc fuel) srv mailbox uid limit flags raw = (if limit \<le> size_of raw then ret (Some (flags, raw))
     else let request = min CHUNK_BYTES (limit - size_of raw) in
       bind_io (cask (\<lambda>n. srv_partial srv n mailbox uid (size_of raw) request)) (\<lambda>answers.
         case answer_for uid answers of
           None \<Rightarrow> ret None
         | Some (flags', body) \<Rightarrow> if size_of body < request then ret (Some (flags', raw @ body))
             else fetch_chunks fuel srv mailbox uid limit flags' (raw @ body)))"

definition chunk_fuel :: nat where
  "chunk_fuel = 102"

definition fetch_body :: "imap_server \<Rightarrow> string \<Rightarrow> u64 \<Rightarrow> (string list \<times> string) option ccmd" where
  "fetch_body srv mailbox uid = (if srv_unbounded srv then fetch_full_body srv mailbox uid
     else fetch_chunks chunk_fuel srv mailbox uid (max_message_bytes + 1) [] [])"

record body_batch =
  bb_messages :: "remote_message list"
  bb_skipped :: "(string \<times> u64) list"
  bb_answered :: "u64 list"

definition skip_body :: "string \<Rightarrow> u64 \<Rightarrow> body_batch \<Rightarrow> body_batch" where
  "skip_body reason uid b = b\<lparr>bb_skipped := bb_skipped b @ [(reason, uid)]\<rparr>"

definition fetch_answered :: "imap_server \<Rightarrow> string \<Rightarrow> u64 \<Rightarrow> u64 list \<Rightarrow> u64 option \<times> u64 option \<Rightarrow> body_batch \<Rightarrow> body_batch ccmd" where
  "fetch_answered srv mailbox validity uids = (\<lambda>(u, size) b. case u of
     None \<Rightarrow> ret b
   | Some uid \<Rightarrow> if uid \<notin> set uids \<or> uid \<in> set (bb_answered b) then ret b
     else let b = b\<lparr>bb_answered := uid # bb_answered b\<rparr> in
       if (case size of None \<Rightarrow> False | Some s \<Rightarrow> max_message_bytes < uint s)
       then ret (skip_body ''declared_size_exceeded'' uid b)
       else bind_io (fetch_body srv mailbox uid) (\<lambda>body. ret (case body of
           None \<Rightarrow> skip_body ''body_missing'' uid b
         | Some (flags, raw) \<Rightarrow> if max_message_bytes < size_of raw then skip_body ''actual_size_exceeded'' uid b
             else b\<lparr>bb_messages := bb_messages b @ [\<lparr>rm_mailbox = mailbox, rm_uid_validity = validity, rm_uid = uid,
                 rm_flags = flags, rm_raw = raw\<rparr>]\<rparr>)))"

definition fetch_body_batch :: "imap_server \<Rightarrow> string \<Rightarrow> u64 \<Rightarrow> u64 list \<Rightarrow> body_batch ccmd" where
  "fetch_body_batch srv mailbox validity uids = (if uids = [] then ret \<lparr>bb_messages = [], bb_skipped = [], bb_answered = []\<rparr>
     else bind_io (cask (\<lambda>n. srv_sizes srv n mailbox uids)) (\<lambda>sizes.
       bind_io (fold_io (fetch_answered srv mailbox validity uids) sizes \<lparr>bb_messages = [], bb_skipped = [], bb_answered = []\<rparr>)
         (\<lambda>b. ret (fold (skip_body ''body_missing'') (filter (\<lambda>u. u \<notin> set (bb_answered b)) (remdups_adj (sort uids))) b))))"

section \<open>Locations of known messages\<close>

definition at_place :: "string \<Rightarrow> u64 \<Rightarrow> u64 \<Rightarrow> remote_location \<Rightarrow> bool" where
  "at_place mailbox validity uid l \<longleftrightarrow> rl_mailbox_name l = mailbox \<and> rl_uid_validity l = Some validity \<and> rl_uid l = Some uid"

definition set_location_flags :: "string list \<Rightarrow> remote_location \<Rightarrow> remote_location \<times> bool" where
  "set_location_flags flags l = (let f = canonical_flags flags in
     if rl_flags l = f then (l, False) else (l\<lparr>rl_flags := f\<rparr>, True))"

text \<open>The first location at the place with its flags, found again if it was missing; else a new one.
  Whether flags changed, and whether anything did.\<close>

fun update_locations :: "string \<Rightarrow> string \<Rightarrow> u64 \<Rightarrow> u64 \<Rightarrow> string list \<Rightarrow> remote_location list \<Rightarrow> remote_location list \<times> bool \<times> bool" where
  "update_locations stamp mailbox validity uid flags [] = ([\<lparr>rl_mailbox_name = mailbox, rl_mailbox_id = None,
      rl_uid_validity = Some validity, rl_uid = Some uid, rl_flags = flags, rl_observed = stamp, rl_missing = None\<rparr>],
      flags \<noteq> [], True)"
| "update_locations stamp mailbox validity uid flags (l # ls) = (if at_place mailbox validity uid l
     then (let (l', changed) = set_location_flags flags (l\<lparr>rl_missing := None\<rparr>)
           in (l' # ls, changed, changed \<or> rl_missing l \<noteq> None))
     else (let (ls', f, c) = update_locations stamp mailbox validity uid flags ls in (l # ls', f, c)))"

definition update_location_flags :: "cenv \<Rightarrow> string \<Rightarrow> remote_envelope \<Rightarrow> bool ccmd" where
  "update_location_flags env mid e = bind_io (read_mail env mid) (\<lambda>m.
     bind_io (gets (\<lambda>w. c_clock env (cw_tick w))) (\<lambda>stamp.
     let (ls, flags, changed) = update_locations stamp (re_mailbox e) (re_uid_validity e) (re_uid e) (re_flags e)
           (case ml_remote m of None \<Rightarrow> [] | Some ls \<Rightarrow> ls);
         m' = m\<lparr>ml_id := mid, ml_remote := Some ls\<rparr>
     in then_io (when_io changed (then_io (persist_message_metadata env m') (write_cache env m'))) (ret flags)))"

text \<open>A message that was deleted remotely and is seen again gets its status back.\<close>

definition clear_message_disposition :: "cenv \<Rightarrow> string \<Rightarrow> string \<Rightarrow> unit ccmd" where
  "clear_message_disposition env status mid = then_io (cread env ''read disposition messages'')
     (bind_io (gets (\<lambda>w. (status, mid) \<in> set (cw_disposed w))) (\<lambda>listed.
      when_io listed (cdisk env ''write json'' (\<lambda>w. w\<lparr>cw_disposed := filter (\<lambda>x. x \<noteq> (status, mid)) (cw_disposed w)\<rparr>))))"

definition restore_remote_deleted :: "cenv \<Rightarrow> string \<Rightarrow> string \<Rightarrow> bool ccmd" where
  "restore_remote_deleted env mid status = bind_io (read_mail env mid) (\<lambda>m.
     if ml_status m \<noteq> ''deleted_remote'' then ret False
     else let m' = m\<lparr>ml_id := mid, ml_status := status\<rparr> in
       then_io (clear_message_disposition env ''deleted_remote'' mid)
       (then_io (when_io (is_disposition status) (set_message_disposition env status mid))
       (then_io (persist_message_metadata env m') (then_io (write_cache env m') (ret True)))))"

section \<open>The state of a pull\<close>

record mailbox_pull =
  mp_new :: nat
  mp_triage :: nat
  mp_spam :: nat
  mp_trashed :: nat
  mp_updated :: nat
  mp_reclassified :: nat
  mp_flags :: nat
  mp_ids :: "string list"
  mp_remaining_count :: u64
  mp_remaining_bytes :: u64
  mp_limited :: bool
  mp_budget_skipped :: nat
  mp_skipped :: "(string \<times> string \<times> u64) list"
  mp_stored_bytes :: u64
  mp_warnings :: "string list"
  mp_updates :: "cursor_update list"
  mp_reset :: "string list"
  mp_incremental :: bool

definition start_mailbox_pull :: "pull_options \<Rightarrow> pull_target list \<Rightarrow> string option \<Rightarrow> mailbox_pull" where
  "start_mailbox_pull opts targets warning = \<lparr>mp_new = 0, mp_triage = 0, mp_spam = 0, mp_trashed = 0, mp_updated = 0,
     mp_reclassified = 0, mp_flags = 0, mp_ids = [], mp_remaining_count = po_max_new opts,
     mp_remaining_bytes = po_max_bytes opts, mp_limited = False, mp_budget_skipped = 0, mp_skipped = [], mp_stored_bytes = 0,
     mp_warnings = (case warning of None \<Rightarrow> [] | Some r \<Rightarrow> [''pull_cursor_recovered'']), mp_updates = [], mp_reset = [],
     mp_incremental = (targets \<noteq> [])\<rparr>"

text \<open>What the pull of one mailbox keeps: the lowest UID that blocks the cursor, the highest observed, and the
  new messages that fit the budgets, by UID.\<close>

record mailbox_scan =
  sc_blocked :: "u64 option"
  sc_highest :: u64
  sc_new :: "(u64 \<times> remote_envelope) list"

definition block_cursor :: "u64 \<Rightarrow> mailbox_scan \<Rightarrow> mailbox_scan" where
  "block_cursor uid sc = sc\<lparr>sc_blocked := Some (case sc_blocked sc of None \<Rightarrow> uid | Some b \<Rightarrow> min b uid)\<rparr>"

definition skip_mail :: "string \<Rightarrow> string \<Rightarrow> u64 \<Rightarrow> mailbox_pull \<Rightarrow> mailbox_pull" where
  "skip_mail reason mailbox uid mp = mp\<lparr>mp_skipped := mp_skipped mp @ [(reason, mailbox, uid)]\<rparr>"

definition over_budget :: "mailbox_pull \<Rightarrow> mailbox_pull" where
  "over_budget mp = mp\<lparr>mp_limited := True, mp_budget_skipped := mp_budget_skipped mp + 1\<rparr>"

definition budget_size :: "remote_envelope \<Rightarrow> u64" where
  "budget_size e = (case re_size e of None \<Rightarrow> MAX_MESSAGE_BYTES | Some s \<Rightarrow> s)"

section \<open>Headers\<close>

definition handle_envelope :: "cenv \<Rightarrow> remote_envelope \<Rightarrow> mailbox_pull \<times> mailbox_scan \<Rightarrow> (mailbox_pull \<times> mailbox_scan) ccmd" where
  "handle_envelope env e = (\<lambda>(mp, sc0). let sc = sc0\<lparr>sc_highest := max (sc_highest sc0) (re_uid e)\<rparr> in
     bind_io (gets (\<lambda>w. map_of (ix_imap (cw_index w)) (re_mailbox e, re_uid_validity e, re_uid e))) (\<lambda>known. case known of
       Some mid \<Rightarrow> bind_io (update_location_flags env mid e) (\<lambda>flags.
           ret (if flags then mp\<lparr>mp_flags := mp_flags mp + 1\<rparr> else mp, sc))
     | None \<Rightarrow> if mp_remaining_count mp = 0 \<or> mp_remaining_bytes mp < budget_size e
         then ret (over_budget mp, block_cursor (re_uid e) sc)
         else ret (mp\<lparr>mp_remaining_count := mp_remaining_count mp - 1,
                 mp_remaining_bytes := mp_remaining_bytes mp - budget_size e\<rparr>,
               sc\<lparr>sc_new := put (re_uid e) e (sc_new sc)\<rparr>)))"

definition skip_header :: "string \<Rightarrow> u64 \<Rightarrow> mailbox_pull \<times> mailbox_scan \<Rightarrow> mailbox_pull \<times> mailbox_scan" where
  "skip_header mailbox uid = (\<lambda>(mp, sc). (skip_mail ''header_missing'' mailbox uid mp, block_cursor uid sc))"

definition scan_batch :: "cenv \<Rightarrow> imap_server \<Rightarrow> string \<Rightarrow> u64 \<Rightarrow> u64 list \<Rightarrow> mailbox_pull \<times> mailbox_scan \<Rightarrow> (mailbox_pull \<times> mailbox_scan) ccmd" where
  "scan_batch env srv mailbox validity batch st = bind_io (fetch_header_batch srv mailbox validity batch) (\<lambda>(envelopes, missing).
     fold_io (handle_envelope env) envelopes (fold (skip_header mailbox) missing st))"

function chunks :: "nat \<Rightarrow> 'a list \<Rightarrow> 'a list list" where
  "chunks n xs = (if n = 0 \<or> xs = [] then [] else take n xs # chunks n (drop n xs))"
  by pat_completeness auto
termination by (relation "measure (length \<circ> snd)") auto

declare chunks.simps [simp del]

definition BODY_FETCH_BATCH_SIZE :: nat where
  "BODY_FETCH_BATCH_SIZE = 25"

section \<open>Bodies\<close>

definition count_import :: "pull_target \<Rightarrow> string \<Rightarrow> u64 \<Rightarrow> mailbox_pull \<Rightarrow> mailbox_pull" where
  "count_import t mid actual mp0 = (let mp = mp0\<lparr>mp_ids := mp_ids mp0 @ [mid], mp_new := mp_new mp0 + 1,
       mp_stored_bytes := mp_stored_bytes mp0 + actual\<rparr>
     in if pt_import_as t = ''spam'' then mp\<lparr>mp_spam := mp_spam mp + 1\<rparr>
        else if pt_import_as t = ''trashed'' then mp\<lparr>mp_trashed := mp_trashed mp + 1\<rparr>
        else mp\<lparr>mp_triage := mp_triage mp + 1\<rparr>)"

definition pulled_input :: "pull_target \<Rightarrow> string \<Rightarrow> remote_message \<Rightarrow> ingest_input" where
  "pulled_input t stamp m = \<lparr>in_raw = rm_raw m, in_location = Some \<lparr>rl_mailbox_name = rm_mailbox m, rl_mailbox_id = Some (pt_id t),
       rl_uid_validity = Some (rm_uid_validity m), rl_uid = Some (rm_uid m), rl_flags = rm_flags m, rl_observed = stamp,
       rl_missing = None\<rparr>, in_delivery = None, in_import_as = pt_import_as t, in_direction = pt_direction t\<rparr>"

definition import_remote :: "cenv \<Rightarrow> pull_target \<Rightarrow> remote_message \<Rightarrow> u64 \<Rightarrow> mailbox_pull \<Rightarrow> mailbox_pull ccmd" where
  "import_remote env t m actual mp = bind_io (gets (\<lambda>w. c_clock env (cw_tick w))) (\<lambda>stamp.
     bind_io (ingest_message env (pulled_input t stamp m)) (\<lambda>outcome.
     let mid = outcome_message_id outcome;
         mp1 = (if has_duplicate_candidates outcome then mp\<lparr>mp_warnings := mp_warnings mp @ [''duplicate_candidate'']\<rparr> else mp)
     in case outcome of
       Merged _ flags \<Rightarrow>
         let mp2 = mp1\<lparr>mp_remaining_count := mp_remaining_count mp1 + 1, mp_remaining_bytes := mp_remaining_bytes mp1 + actual\<rparr>
         in then_io (of_res (bind_res (message_status_parse (pt_import_as t)) (\<lambda>_. Inr ())))
           (bind_io (restore_remote_deleted env mid (pt_import_as t)) (\<lambda>restored.
             ret (mp2\<lparr>mp_reclassified := mp_reclassified mp2 + (if restored then 1 else 0), mp_updated := mp_updated mp2 + 1,
                mp_flags := mp_flags mp2 + (if flags then 1 else 0)\<rparr>)))
     | Stored _ _ \<Rightarrow> ret (count_import t mid actual mp1)))"

definition handle_remote :: "cenv \<Rightarrow> pull_target \<Rightarrow> remote_message \<Rightarrow> mailbox_pull \<times> mailbox_scan \<Rightarrow> (mailbox_pull \<times> mailbox_scan) ccmd" where
  "handle_remote env t m = (\<lambda>(mp, sc). case map_of (sc_new sc) (rm_uid m) of
     None \<Rightarrow> ret (mp, sc)
   | Some e \<Rightarrow> let actual = byte_count (rm_raw m); reserved = budget_size e in
       if reserved < actual \<and> mp_remaining_bytes mp < actual - reserved
       then ret (over_budget (skip_mail ''total_bytes_budget_exceeded'' (rm_mailbox m) (rm_uid m) mp), block_cursor (rm_uid m) sc)
       else bind_io (import_remote env t m actual (mp\<lparr>mp_remaining_bytes :=
             (if reserved < actual then mp_remaining_bytes mp - (actual - reserved)
              else mp_remaining_bytes mp + (reserved - actual))\<rparr>)) (\<lambda>mp'. ret (mp', sc)))"

definition skip_bodies :: "string \<Rightarrow> string \<times> u64 \<Rightarrow> mailbox_pull \<times> mailbox_scan \<Rightarrow> mailbox_pull \<times> mailbox_scan" where
  "skip_bodies mailbox = (\<lambda>(reason, uid) (mp, sc). (skip_mail reason mailbox uid mp, block_cursor uid sc))"

definition import_batch :: "cenv \<Rightarrow> imap_server \<Rightarrow> pull_target \<Rightarrow> u64 \<Rightarrow> u64 list \<Rightarrow> mailbox_pull \<times> mailbox_scan \<Rightarrow> (mailbox_pull \<times> mailbox_scan) ccmd" where
  "import_batch env srv t validity batch st = bind_io (fetch_body_batch srv (pt_mailbox t) validity batch) (\<lambda>b.
     fold_io (handle_remote env t) (bb_messages b) (fold (skip_bodies (pt_mailbox t)) (bb_skipped b) st))"

section \<open>Pulling mailboxes\<close>

definition next_highest :: "mailbox_scan \<Rightarrow> u64 \<Rightarrow> u64" where
  "next_highest sc previous = max (case sc_blocked sc of
     None \<Rightarrow> sc_highest sc | Some b \<Rightarrow> if b = 0 then sc_highest sc else b - 1) previous"

definition pull_mailbox :: "cenv \<Rightarrow> imap_server \<Rightarrow> pull_options \<Rightarrow> (string \<times> mailbox_cursor) list \<Rightarrow> pull_target \<Rightarrow> mailbox_pull \<Rightarrow> mailbox_pull ccmd" where
  "pull_mailbox env srv opts cursors t mp0 =
     bind_io (select_uids srv (pt_mailbox t) (effective_since_days opts) (pull_cursor_for_target cursors t)) (\<lambda>hs.
     let previous = (case hs_previous hs of None \<Rightarrow> 0 | Some h \<Rightarrow> h);
         mp = mp0\<lparr>mp_reset := (if hs_validity_reset hs then mp_reset mp0 @ [pt_id t] else mp_reset mp0),
           mp_incremental := (mp_incremental mp0 \<and> hs_cursor_used hs)\<rparr>
     in bind_io (fold_io (scan_batch env srv (pt_mailbox t) (hs_uid_validity hs)) (chunks BODY_FETCH_BATCH_SIZE (hs_uids hs))
          (mp, \<lparr>sc_blocked = None, sc_highest = previous, sc_new = []\<rparr>)) (\<lambda>(mp1, sc1).
        bind_io (fold_io (import_batch env srv t (hs_uid_validity hs)) (chunks BODY_FETCH_BATCH_SIZE (sort (map fst (sc_new sc1))))
          (mp1, sc1)) (\<lambda>(mp2, sc2).
          ret (mp2\<lparr>mp_updates := mp_updates mp2 @ [\<lparr>up_mailbox_id = pt_id t, up_mailbox_name = pt_mailbox t,
            up_uid_validity = hs_uid_validity hs, up_highest_uid = next_highest sc2 previous\<rparr>]\<rparr>))))"

definition pull_session :: "cenv \<Rightarrow> imap_server \<Rightarrow> pull_options \<Rightarrow> pull_target list \<Rightarrow> mailbox_pull ccmd" where
  "pull_session env srv opts targets = bind_io (load_index env) (\<lambda>ix. then_io (in_index (\<lambda>_. ix))
     (bind_io (load_pull_cursors env srv) (\<lambda>(cursors, warning).
        fold_io (pull_mailbox env srv opts cursors) targets (start_mailbox_pull opts targets warning))))"

text \<open>The first connection only tests whether the server can send a part of a body.\<close>

definition probe_partial_body :: "imap_server \<Rightarrow> string \<Rightarrow> pull_options \<Rightarrow> unit ccmd" where
  "probe_partial_body srv mailbox opts = bind_io (cask (\<lambda>n. srv_examine srv n mailbox)) (\<lambda>_.
     bind_io (case effective_since_days opts of
         None \<Rightarrow> ret False
       | Some d \<Rightarrow> bind_io (cask (\<lambda>n. srv_search srv n mailbox (SinceDays d))) (\<lambda>uids. ret (uids = []))) (\<lambda>empty.
     if empty then ret ()
     else bind_io (cask (\<lambda>n. srv_search srv n mailbox AllMail)) (\<lambda>uids. case uids of
         [] \<Rightarrow> ret ()
       | _ \<Rightarrow> bind_io (cask (\<lambda>n. srv_partial srv n mailbox (Min (set uids)) 0 1)) (\<lambda>_. ret ()))))"

definition body_fetch_mode :: "imap_server \<Rightarrow> pull_target list \<Rightarrow> pull_options \<Rightarrow> unit ccmd" where
  "body_fetch_mode srv targets opts = (if srv_unbounded srv then ret ()
     else (case targets of [] \<Rightarrow> ret ()
       | t # _ \<Rightarrow> then_io (cask (srv_login srv)) (match_io (probe_partial_body srv (pt_mailbox t) opts) ret
           (\<lambda>e. fail (app_error_new ''imap_partial_fetch_unsupported''
             (''IMAP server does not support bounded partial BODY fetch: '' @ message e))))))"

section \<open>What is gone from the server\<close>

definition fetch_uid_snapshot :: "imap_server \<Rightarrow> string \<Rightarrow> (string \<times> u64 \<times> u64 list) ccmd" where
  "fetch_uid_snapshot srv mailbox = bind_io (cask (\<lambda>n. srv_examine srv n mailbox)) (\<lambda>status.
     bind_io (cask (\<lambda>n. srv_uids srv n mailbox)) (\<lambda>uids.
     ret (mailbox, (case status of None \<Rightarrow> 0 | Some v \<Rightarrow> v), List.map_filter (\<lambda>u. u) uids)))"

definition push_unique :: "'a \<Rightarrow> 'a list \<Rightarrow> 'a list" where
  "push_unique x xs = (if x \<in> set xs then xs else xs @ [x])"

definition locations_of :: "mail \<Rightarrow> remote_location list" where
  "locations_of m = (case ml_remote m of None \<Rightarrow> [] | Some ls \<Rightarrow> ls)"

definition active_remote_locations :: "mail \<Rightarrow> string list \<Rightarrow> (string \<times> u64 \<times> u64) list" where
  "active_remote_locations m selected = fold (\<lambda>l out. if rl_missing l \<noteq> None \<or> rl_mailbox_name l \<notin> set selected then out
     else (case location_key l of None \<Rightarrow> out | Some k \<Rightarrow> push_unique k out)) (locations_of m) []"

definition remote_location_missing :: "(string \<times> u64 \<times> u64 list) list \<Rightarrow> string \<times> u64 \<times> u64 \<Rightarrow> bool" where
  "remote_location_missing snaps = (\<lambda>(mailbox, validity, uid). case map_of (rev snaps) mailbox of
     None \<Rightarrow> False | Some (v, uids) \<Rightarrow> v \<noteq> validity \<or> uid \<notin> set uids)"

fun mark_missing :: "string \<Rightarrow> string \<times> u64 \<times> u64 \<Rightarrow> remote_location list \<Rightarrow> remote_location list" where
  "mark_missing stamp (mailbox, validity, uid) [] = [\<lparr>rl_mailbox_name = mailbox, rl_mailbox_id = None,
     rl_uid_validity = Some validity, rl_uid = Some uid, rl_flags = [], rl_observed = stamp, rl_missing = Some stamp\<rparr>]"
| "mark_missing stamp (mailbox, validity, uid) (l # ls) = (if at_place mailbox validity uid l
     then (if rl_missing l = None then l\<lparr>rl_missing := Some stamp\<rparr> else l) # ls
     else l # mark_missing stamp (mailbox, validity, uid) ls)"

definition mark_remote_locations_missing :: "string \<Rightarrow> (string \<times> u64 \<times> u64) list \<Rightarrow> mail \<Rightarrow> mail" where
  "mark_remote_locations_missing stamp missing m = m\<lparr>ml_remote := Some (fold (mark_missing stamp) missing (locations_of m))\<rparr>"

definition has_any_active_remote_location :: "mail \<Rightarrow> bool" where
  "has_any_active_remote_location m = list_ex (\<lambda>l. rl_missing l = None \<and> location_key l \<noteq> None) (locations_of m)"

record reconciliation =
  rn_checked :: nat
  rn_missing :: nat
  rn_kept :: "string list"
  rn_gone :: "mail list"
  rn_tombstoned :: "string list"
  rn_deleted :: "string list"

definition reconcile_message :: "cenv \<Rightarrow> (string \<times> u64 \<times> u64 list) list \<Rightarrow> string list \<Rightarrow> string \<Rightarrow> reconciliation \<Rightarrow> reconciliation ccmd" where
  "reconcile_message env snaps selected mid rn = bind_io (read_message env mid) (\<lambda>m.
     let active = active_remote_locations m selected;
         rn1 = rn\<lparr>rn_checked := rn_checked rn + length active\<rparr>;
         missing = filter (remote_location_missing snaps) active;
         rn2 = rn1\<lparr>rn_missing := rn_missing rn1 + length missing\<rparr>
     in if active = [] then ret rn else if missing = [] then ret rn1
        else bind_io (gets (\<lambda>w. c_clock env (cw_tick w))) (\<lambda>stamp.
          let m' = mark_remote_locations_missing stamp missing m in
          if has_any_active_remote_location m'
          then then_io (persist_message_metadata env m') (then_io (write_cache env m')
              (ret (rn2\<lparr>rn_kept := rn_kept rn2 @ [ml_id m']\<rparr>)))
          else ret (rn2\<lparr>rn_gone := rn_gone rn2 @ [m']\<rparr>)))"

definition settle_gone :: "cenv \<Rightarrow> string list \<Rightarrow> mail \<Rightarrow> reconciliation \<Rightarrow> reconciliation ccmd" where
  "settle_gone env referenced m rn = (if ml_id m \<in> set referenced
     then then_io (persist_message_metadata env m) (then_io (write_cache env m)
       (ret (rn\<lparr>rn_tombstoned := rn_tombstoned rn @ [ml_id m]\<rparr>)))
     else let m' = m\<lparr>ml_status := ''deleted_remote''\<rparr> in
       then_io (set_message_disposition env ''deleted_remote'' (ml_id m))
       (then_io (persist_message_metadata env m') (then_io (write_cache env m')
         (ret (rn\<lparr>rn_deleted := rn_deleted rn @ [ml_id m]\<rparr>)))))"

definition reconcile_remote_missing :: "cenv \<Rightarrow> imap_server \<Rightarrow> string list \<Rightarrow> reconciliation ccmd" where
  "reconcile_remote_missing env srv mailboxes = then_io (cask (srv_login srv))
     (bind_io (map_io (fetch_uid_snapshot srv) mailboxes) (\<lambda>snaps.
      then_io (cread env ''read messages'') (bind_io (gets (\<lambda>w. sort (map fst (cw_cache w)))) (\<lambda>mids.
      bind_io (fold_io (reconcile_message env snaps mailboxes) mids \<lparr>rn_checked = 0, rn_missing = 0, rn_kept = [],
          rn_gone = [], rn_tombstoned = [], rn_deleted = []\<rparr>) (\<lambda>rn.
      bind_io (cask_res (\<lambda>n. c_referenced env n (map ml_id (rn_gone rn)))) (\<lambda>referenced.
      fold_io (settle_gone env referenced) (rn_gone rn) rn))))))"

section \<open>The command\<close>

definition estimate_envelope :: "remote_envelope \<Rightarrow> mailbox_pull \<Rightarrow> mailbox_pull ccmd" where
  "estimate_envelope e mp = bind_io (gets (\<lambda>w. map_of (ix_imap (cw_index w)) (re_mailbox e, re_uid_validity e, re_uid e)))
     (\<lambda>known. ret (if known \<noteq> None then mp
       else if mp_remaining_count mp = 0 \<or> mp_remaining_bytes mp < budget_size e then over_budget mp
       else mp\<lparr>mp_remaining_count := mp_remaining_count mp - 1, mp_remaining_bytes := mp_remaining_bytes mp - budget_size e\<rparr>))"

definition estimate_target :: "imap_server \<Rightarrow> pull_options \<Rightarrow> pull_target \<Rightarrow> mailbox_pull \<Rightarrow> mailbox_pull ccmd" where
  "estimate_target srv opts t mp = bind_io (select_uids srv (pt_mailbox t) (effective_since_days opts) None) (\<lambda>hs.
     fold_io (\<lambda>batch mp. bind_io (fetch_header_batch srv (pt_mailbox t) (hs_uid_validity hs) batch)
       (\<lambda>(envelopes, _). fold_io estimate_envelope envelopes mp)) (chunks BODY_FETCH_BATCH_SIZE (hs_uids hs)) mp)"

definition estimate_session :: "cenv \<Rightarrow> imap_server \<Rightarrow> pull_options \<Rightarrow> pull_target list \<Rightarrow> mailbox_pull ccmd" where
  "estimate_session env srv opts targets = bind_io (load_index env) (\<lambda>ix. then_io (in_index (\<lambda>_. ix))
     (fold_io (estimate_target srv opts) targets (start_mailbox_pull opts targets None)))"

definition pull_mailboxes :: "cenv \<Rightarrow> imap_server \<Rightarrow> mail_config \<Rightarrow> string list \<Rightarrow> pull_options \<Rightarrow> mailbox_pull ccmd" where
  "pull_mailboxes env srv cfg ids opts = bind_io (resolve_pull_targets cfg srv ids) (\<lambda>targets.
     if po_dry_run opts then then_io (cask (srv_login srv)) (estimate_session env srv opts targets)
     else then_io (body_fetch_mode srv targets opts) (then_io (cask (srv_login srv))
       (bind_io (pull_session env srv opts targets) (\<lambda>mp.
        bind_io (reconcile_remote_missing env srv (map pt_mailbox targets)) (\<lambda>_.
        then_io (commit_pull_cursors env srv (mp_updates mp) (\<not> mp_incremental mp))
        (then_io (cask_res (c_refresh env)) (ret mp)))))))"

end
