(* ===== verification/Mailbox_Index.thy ===== *)
theory Mailbox_Index
  imports Mailbox_Pull Consumer_Import
begin

text \<open>
  Known locations are on disk.  The index of a pull maps a place of the server to a stored mail whose
  metadata names that place; every operation of the pull keeps it so.  A triple here speaks of a
  return only: a pull that fails or is killed commits no cursor.
\<close>

section \<open>Triples about returns\<close>

abbreviation ends :: "(cworld \<Rightarrow> bool) \<Rightarrow> 'a ccmd \<Rightarrow> ('a \<Rightarrow> cworld \<Rightarrow> bool) \<Rightarrow> bool" where
  "ends P m Q \<equiv> hoare P m Q (\<lambda>_ _. True) (\<lambda>_. True)"

lemma ends_keeps: "keeps I m \<Longrightarrow> ends I m (\<lambda>_. I)"
  by (erule hoare_weaken) auto

lemma ends_any: "ends P m (\<lambda>_ _. True)"
  by (auto simp: hoare_def split: prod.split outcome.split)

lemma ends_pure: "(\<And>w a w'. P w \<Longrightarrow> m w = (Done a, w') \<Longrightarrow> Q a w') \<Longrightarrow> ends P m Q"
  by (auto simp: hoare_def split: prod.split outcome.split)

lemma ends_both: "ends P m Q \<Longrightarrow> ends P m R \<Longrightarrow> ends P m (\<lambda>a w. Q a w \<and> R a w)"
  by (fastforce simp: hoare_def split: prod.splits outcome.splits)

lemma ends_fail: "ends P (fail e) Q"
  by (simp add: hoare_def fail_def)

lemma ends_disk: "(\<And>w. P w \<Longrightarrow> Q () (f (ctick w))) \<Longrightarrow> ends P (cdisk env ctxt f) Q"
  by (rule hoare_cdisk) auto

lemma ends_ask: "(\<And>w a. P w \<Longrightarrow> Q a (ctick w)) \<Longrightarrow> ends P (cask rep) Q"
  by (auto simp: hoare_def cask_def split: reply.splits)

lemma ends_of_res: "(\<And>a w. r = Inr a \<Longrightarrow> P w \<Longrightarrow> Q a w) \<Longrightarrow> ends P (of_res r) Q"
  by (rule hoare_of_res) auto

section \<open>What does not touch the stored mail\<close>

definition mail_view :: "cworld \<Rightarrow> (string \<times> string) list \<times> (string \<times> mail_metadata) list \<times> existing_index" where
  "mail_view w = (cw_eml w, cw_meta w, cw_index w)"

lemma mail_view_simps [simp]:
  "mail_view (ctick w) = mail_view w" "mail_view (w\<lparr>cw_cache := c\<rparr>) = mail_view w"
  "mail_view (w\<lparr>cw_triage := d\<rparr>) = mail_view w" "mail_view (w\<lparr>cw_disposed := g\<rparr>) = mail_view w"
  "mail_view (w\<lparr>cw_cursors := h\<rparr>) = mail_view w" "mail_view (w\<lparr>cw_quarantine := q\<rparr>) = mail_view w"
  "mail_view (clog e w) = mail_view w"
  by (simp_all add: mail_view_def ctick_def clog_def)

lemma ctick_meta [simp]: "cw_meta (ctick w) = cw_meta w"
  by (simp add: ctick_def)

locale mail_pred =
  fixes I :: "cworld \<Rightarrow> bool"
  assumes same_mail: "I w \<Longrightarrow> mail_view w' = mail_view w \<Longrightarrow> I w'"
begin

lemma keeps_disk: "(\<And>w. mail_view (f w) = mail_view w) \<Longrightarrow> keeps I (cdisk env ctxt f)"
  by (rule hoare_cdisk) (auto intro: same_mail)

lemma keeps_read: "keeps I (cread env ctxt)"
  by (rule keeps_disk) simp

lemma keeps_ask: "keeps I (cask rep)"
  unfolding hoare_def cask_def by (auto split: reply.splits intro: same_mail)

lemma keeps_ask_res: "keeps I (cask_res rep)"
  unfolding cask_res_def by (rule keeps_ask)

lemmas mail_rules = hoare_rules keeps_read keeps_ask keeps_ask_res

lemma keeps_read_message: "keeps I (read_message env mid)"
  unfolding read_message_def by (intro mail_rules)

lemma keeps_read_mail: "keeps I (read_mail env mid)"
  unfolding read_mail_def read_from_eml_def with_status_def by (intro mail_rules keeps_read_message)

lemma keeps_write_cache: "keeps I (write_cache env m)"
  unfolding write_cache_def by (intro mail_rules keeps_disk) simp

lemma keeps_disposition: "keeps I (set_message_disposition env status mid)"
  unfolding set_message_disposition_def by (intro mail_rules keeps_disk) simp_all

lemma keeps_clear: "keeps I (clear_message_disposition env status mid)"
  unfolding clear_message_disposition_def by (intro mail_rules keeps_disk) simp_all

lemma keeps_triage_entry: "keeps I (write_triage_view env mid)"
  unfolding write_triage_view_def by (intro mail_rules keeps_disk) simp

text \<open>A mail with raw bytes is read with the locations of its metadata.\<close>

lemma read_mail_rule:
  "ends I (read_mail env mid) (\<lambda>m w. I w \<and> (map_of (cw_eml w) mid \<noteq> None \<longrightarrow> ml_id m = mid
     \<and> (\<exists>md. map_of (cw_meta w) mid = Some md \<and> md_remote md = ml_remote m)))"
proof (rule ends_both)
  show "ends I (read_mail env mid) (\<lambda>_. I)" by (rule ends_keeps [OF keeps_read_mail])
next
  have views: "cw_eml w' = cw_eml w \<and> cw_meta w' = cw_meta w" if "cread env c w = (r, w')" for c r w w'
    using that by (auto simp: cdisk_def ctick_def split: disk_event.splits)
  have parsed: "ml_id m = mid \<and> ml_remote m = po_remote opt" if "parse_message env mid raw opt = Inr m" for raw opt m
    using that by (auto simp: parse_message_def bind_res_def Let_def case_prod_unfold split: sum.splits)
  show "ends I (read_mail env mid) (\<lambda>m w. map_of (cw_eml w) mid \<noteq> None \<longrightarrow> ml_id m = mid
     \<and> (\<exists>md. map_of (cw_meta w) mid = Some md \<and> md_remote md = ml_remote m))"
  proof (rule ends_pure, rule impI)
    fix w m w'
    assume r: "read_mail env mid w = (Done m, w')" and e: "map_of (cw_eml w') mid \<noteq> None"
    show "ml_id m = mid \<and> (\<exists>md. map_of (cw_meta w') mid = Some md \<and> md_remote md = ml_remote m)"
      using r e
      by (auto simp: read_mail_def read_from_eml_def read_message_def with_status_def bind_io_def then_io_def gets_def
          ret_def fail_def of_res_def when_io_def with_envelope_def merge_envelope_to_def read_options_def
          split: outcome.splits prod.splits option.splits sum.splits if_splits dest!: parsed views)
  qed
qed

text \<open>Metadata is replaced as a whole, with the locations of the mail.\<close>

lemma persist_rule:
  assumes "\<And>w md. I w \<Longrightarrow> md_remote md = ml_remote m \<Longrightarrow> Q (w\<lparr>cw_meta := put (ml_id m) md (cw_meta w)\<rparr>)"
  shows "ends I (persist_message_metadata env m) (\<lambda>_. Q)"
proof -
  have "ends I (write_metadata env (ml_id m) md) (\<lambda>_. Q)" if md: "md_remote md = ml_remote m" for md
    unfolding write_metadata_def
  proof (rule hoare_then [OF ends_keeps [OF keeps_read] ends_disk])
    fix w assume "I w"
    then have "I (ctick w)" by (rule same_mail) simp
    then show "Q (ctick w\<lparr>cw_meta := put (ml_id m) md (cw_meta (ctick w))\<rparr>)" by (rule assms) (rule md)
  qed
  then show ?thesis
    unfolding persist_message_metadata_def
    by (intro hoare_then [OF ends_keeps [OF keeps_read]] hoare_bind [OF ends_keeps [OF keeps_gets]]) simp
qed

end

section \<open>Located\<close>

definition places :: "remote_location list option \<Rightarrow> (string \<times> u64 \<times> u64) set" where
  "places r = (case r of None \<Rightarrow> {} | Some ls \<Rightarrow> {k. \<exists>l \<in> set ls. location_key l = Some k})"

definition has_eml :: "string \<Rightarrow> cworld \<Rightarrow> bool" where
  "has_eml mid w \<longleftrightarrow> map_of (cw_eml w) mid \<noteq> None"

definition held_at :: "cworld \<Rightarrow> string \<Rightarrow> string \<times> u64 \<times> u64 \<Rightarrow> bool" where
  "held_at w mid k \<longleftrightarrow> has_eml mid w
     \<and> (\<exists>md. map_of (cw_meta w) mid = Some md \<and> k \<in> places (md_remote md))"

definition located_in :: "existing_index \<Rightarrow> cworld \<Rightarrow> bool" where
  "located_in ix w \<longleftrightarrow> (\<forall>k mid. map_of (ix_imap ix) k = Some mid \<longrightarrow> held_at w mid k)
     \<and> (\<forall>c mid. map_of (ix_content ix) c = Some mid \<longrightarrow> has_eml mid w)"

text \<open>\<open>known K w\<close>: the index in memory is located and knows the places \<open>K\<close>.\<close>

definition known :: "(string \<times> u64 \<times> u64) set \<Rightarrow> cworld \<Rightarrow> bool" where
  "known K w \<longleftrightarrow> located_in (cw_index w) w \<and> K \<subseteq> dom (map_of (ix_imap (cw_index w)))"

lemma located_view: "located_in ix w \<Longrightarrow> mail_view w' = mail_view w \<Longrightarrow> located_in ix w'"
  by (simp add: located_in_def held_at_def has_eml_def mail_view_def)

lemma known_view: "known K w \<Longrightarrow> mail_view w' = mail_view w \<Longrightarrow> known K w'"
  by (auto simp: known_def mail_view_def located_in_def held_at_def has_eml_def)

lemma has_eml_meta [simp]: "has_eml i (w\<lparr>cw_meta := ms\<rparr>) = has_eml i w" "has_eml i (w\<lparr>cw_index := ix\<rparr>) = has_eml i w"
  by (simp_all add: has_eml_def)

text \<open>New metadata of one mail, and new raw bytes.\<close>

lemma held_at_put:
  assumes "held_at w i k" "i = mid \<Longrightarrow> k \<in> places (md_remote md)"
  shows "held_at (w\<lparr>cw_meta := put mid md (cw_meta w)\<rparr>) i k"
  using assms by (cases "i = mid") (auto simp: held_at_def)

lemma held_at_eml: "held_at w i k \<Longrightarrow> held_at (clog ev (w\<lparr>cw_eml := put mid raw (cw_eml w)\<rparr>)) i k"
  by (cases "i = mid") (auto simp: held_at_def has_eml_def clog_def)

text \<open>A world that holds more mail knows the same places.\<close>

lemma known_more:
  assumes "known K w" "cw_index w' = cw_index w" "\<And>i k. held_at w i k \<Longrightarrow> held_at w' i k"
    and "\<And>i. has_eml i w \<Longrightarrow> has_eml i w'"
  shows "known K w'"
  using assms unfolding known_def located_in_def by metis

interpretation located: mail_pred "located_in ix" for ix
  by unfold_locales (rule located_view)

interpretation known: mail_pred "known K" for K
  by unfold_locales (rule known_view)

lemma known_held: "known K w \<Longrightarrow> k \<in> K \<Longrightarrow> \<exists>mid. held_at w mid k"
  unfolding known_def located_in_def by blast

lemma known_mono: "known K w \<Longrightarrow> J \<subseteq> K \<Longrightarrow> known J w"
  by (auto simp: known_def)

lemma known_eml:
  "known K w \<Longrightarrow> map_of (ix_imap (cw_index w)) k = Some mid \<Longrightarrow> has_eml mid w"
  "known K w \<Longrightarrow> map_of (ix_content (cw_index w)) c = Some mid \<Longrightarrow> has_eml mid w"
  unfolding known_def located_in_def held_at_def has_eml_def by blast+

text \<open>Before the locations \<open>r\<close> of a stored mail are written: they cover its old places, and the index
  may already name their places.\<close>

definition covered :: "(string \<times> u64 \<times> u64) set \<Rightarrow> string \<Rightarrow> remote_location list option \<Rightarrow> cworld \<Rightarrow> bool" where
  "covered K mid r w \<longleftrightarrow> has_eml mid w \<and> K \<subseteq> dom (map_of (ix_imap (cw_index w)))
     \<and> (\<forall>md. map_of (cw_meta w) mid = Some md \<longrightarrow> places (md_remote md) \<subseteq> places r)
     \<and> (\<forall>k i. map_of (ix_imap (cw_index w)) k = Some i \<longrightarrow> held_at w i k \<or> i = mid \<and> k \<in> places r)
     \<and> (\<forall>c i. map_of (ix_content (cw_index w)) c = Some i \<longrightarrow> has_eml i w)"

lemma covered_view: "covered K mid r w \<Longrightarrow> mail_view w' = mail_view w \<Longrightarrow> covered K mid r w'"
  by (auto simp: covered_def mail_view_def held_at_def has_eml_def)

interpretation covered: mail_pred "covered K mid r" for K mid r
  by unfold_locales (rule covered_view)

lemma covered_written:
  assumes "covered K mid r w" "md_remote md = r"
  shows "known K (w\<lparr>cw_meta := put mid md (cw_meta w)\<rparr>) \<and> has_eml mid (w\<lparr>cw_meta := put mid md (cw_meta w)\<rparr>)"
proof -
  let ?w = "w\<lparr>cw_meta := put mid md (cw_meta w)\<rparr>"
  have kept: "held_at w i k \<Longrightarrow> held_at ?w i k" for i k
    using assms by (intro held_at_put) (auto simp: covered_def held_at_def)
  have new: "k \<in> places r \<Longrightarrow> held_at ?w mid k" for k
    using assms by (simp add: covered_def held_at_def)
  have "held_at ?w i k" if "map_of (ix_imap (cw_index w)) k = Some i" for i k
    using assms(1) that kept new unfolding covered_def by blast
  then show ?thesis using assms(1) by (simp add: covered_def known_def located_in_def)
qed

lemma known_covered:
  assumes "known K w" "has_eml mid w" "\<And>md. map_of (cw_meta w) mid = Some md \<Longrightarrow> places (md_remote md) \<subseteq> places r"
  shows "covered K mid r w"
  using assms unfolding known_def covered_def located_in_def has_eml_def by blast

definition stored_mail :: "(string \<times> u64 \<times> u64) set \<Rightarrow> string \<Rightarrow> cworld \<Rightarrow> bool" where
  "stored_mail K mid w \<longleftrightarrow> known K w \<and> has_eml mid w"

interpretation stored_mail: mail_pred "stored_mail K mid" for K mid
  by unfold_locales (auto simp: stored_mail_def intro: known_view simp: has_eml_def mail_view_def)

lemma persist_covered:
  "ml_id m = mid \<Longrightarrow> ends (covered K mid (ml_remote m)) (persist_message_metadata env m) (\<lambda>_. stored_mail K mid)"
  by (rule covered.persist_rule) (auto simp: stored_mail_def dest: covered_written)

section \<open>The operations\<close>

text \<open>A stored mail is read with locations that cover its places, and so do any that extend them.\<close>

lemma read_stored_rule:
  "ends (stored_mail K mid) (read_mail env mid) (\<lambda>m w. stored_mail K mid w \<and> covered K mid (ml_remote m) w \<and> ml_id m = mid)"
  by (rule hoare_weaken [OF stored_mail.read_mail_rule])
    (auto simp: stored_mail_def has_eml_def intro!: known_covered)

lemma covered_widen: "covered K mid r w \<Longrightarrow> places r \<subseteq> places r' \<Longrightarrow> covered K mid r' w"
  unfolding covered_def by blast

lemma places_simps [simp]:
  "places None = {}" "places (Some []) = {}"
  "places (Some (l # ls)) = set_option (location_key l) \<union> places (Some ls)"
  by (auto simp: places_def)

lemma set_location_flags_key [simp]: "location_key (fst (set_location_flags f l)) = location_key l"
  by (auto simp: set_location_flags_def location_key_def Let_def split: option.split)

lemma location_key_missing [simp]: "location_key (l\<lparr>rl_missing := x\<rparr>) = location_key l"
  by (auto simp: location_key_def split: option.split)

lemma update_locations_places:
  "places (Some ls) \<subseteq> places (Some (fst (update_locations stamp mailbox v u flags ls)))"
proof (induction stamp mailbox v u flags ls rule: update_locations.induct)
  case (2 stamp mailbox v u flags l ls)
  then show ?case by (cases "at_place mailbox v u l") (auto simp: case_prod_unfold Let_def)
qed simp

lemma merge_location_places:
  "places (Some (fst (merge_location l ls))) = places (Some ls) \<union> places (Some [l])"
proof (induction l ls rule: merge_location.induct)
  case (2 l e es)
  have "same_place e l \<Longrightarrow> location_key e = location_key l"
    by (auto simp: same_place_def location_key_def split: option.split)
  with 2 show ?case by (cases "same_place e l") (auto simp: case_prod_unfold Let_def)
qed simp

lemma update_flags_rule: "ends (stored_mail K mid) (update_location_flags env mid e) (\<lambda>_. known K)"
  unfolding update_location_flags_def Let_def case_prod_unfold
proof (rule hoare_bind [OF read_stored_rule], rule hoare_bind [OF ends_keeps [OF keeps_gets]])
  fix m :: mail and stamp
  let ?ls = "update_locations stamp (re_mailbox e) (re_uid_validity e) (re_uid e) (re_flags e)
    (case ml_remote m of None \<Rightarrow> [] | Some ls \<Rightarrow> ls)"
  let ?m = "m\<lparr>ml_id := mid, ml_remote := Some (fst ?ls)\<rparr>"
  have ps: "places (ml_remote m) \<subseteq> places (Some (fst ?ls))"
    by (cases "ml_remote m") (simp_all add: update_locations_places)
  have wide: "covered K mid (ml_remote m) w \<Longrightarrow> covered K mid (Some (fst ?ls)) w" for w
    by (erule covered_widen) (rule ps)
  let ?P = "\<lambda>w. stored_mail K mid w \<and> covered K mid (ml_remote m) w \<and> ml_id m = mid"
  show "ends ?P (then_io (when_io (snd (snd ?ls))
      (then_io (persist_message_metadata env ?m) (write_cache env ?m))) (ret (fst (snd ?ls)))) (\<lambda>_. known K)"
  proof (rule hoare_then [where R = "stored_mail K mid"], rule hoare_when)
    show "ends ?P (then_io (persist_message_metadata env ?m) (write_cache env ?m)) (\<lambda>_. stored_mail K mid)"
      by (rule hoare_pre [OF hoare_then [OF persist_covered [where mid = mid] ends_keeps [OF stored_mail.keeps_write_cache]]])
        (simp_all add: wide)
  qed (auto simp: stored_mail_def intro!: hoare_ret')
qed

lemma restore_rule: "ends (stored_mail K mid) (restore_remote_deleted env mid status) (\<lambda>_. known K)"
  unfolding restore_remote_deleted_def Let_def
proof (rule hoare_bind [OF read_stored_rule])
  fix m :: mail
  let ?m = "m\<lparr>ml_id := mid, ml_status := status\<rparr>"
  let ?C = "\<lambda>w. covered K mid (ml_remote m) w"
  have clear: "ends ?C (clear_message_disposition env s mid) (\<lambda>_. ?C)" for s
    by (rule ends_keeps [OF covered.keeps_clear])
  have dispose: "ends ?C (when_io b (set_message_disposition env status mid)) (\<lambda>_. ?C)" for b
    by (rule ends_keeps [OF keeps_when [OF covered.keeps_disposition]])
  have save: "ends ?C (then_io (persist_message_metadata env ?m) (then_io (write_cache env ?m) (ret True))) (\<lambda>_. known K)"
    using hoare_then [OF persist_covered [of ?m mid K env] hoare_then [OF ends_keeps [OF stored_mail.keeps_write_cache]
        hoare_ret' [where Q = "\<lambda>_. known K"]]] by (simp add: stored_mail_def)
  show "ends (\<lambda>w. stored_mail K mid w \<and> ?C w \<and> ml_id m = mid) (if ml_status m \<noteq> ''deleted_remote'' then ret False
     else then_io (clear_message_disposition env ''deleted_remote'' mid)
       (then_io (when_io (is_disposition status) (set_message_disposition env status mid))
       (then_io (persist_message_metadata env ?m) (then_io (write_cache env ?m) (ret True))))) (\<lambda>_. known K)"
    by (rule hoare_if, rule hoare_ret', simp add: stored_mail_def,
        rule hoare_pre [OF hoare_then [OF clear hoare_then [OF dispose save]]], simp)
qed

section \<open>Importing\<close>

lemma index_location_covered:
  assumes "covered K mid r w" "location_key l = Some k" "k \<in> places r"
  shows "covered (insert k K) mid r (w\<lparr>cw_index := index_location l mid (cw_index w)\<rparr>)"
  using assms by (simp add: covered_def held_at_def has_eml_def index_location_def subset_insertI2)

lemma merge_located_rule:
  assumes l: "in_location input = Some l" "location_key l = Some k" and d: "in_delivery input = None"
  shows "ends (stored_mail K mid) (merge_ingest env input mid)
    (\<lambda>out. stored_mail (insert k K) (outcome_message_id out))"
  unfolding merge_ingest_def l d option.case Let_def case_prod_unfold fst_conv snd_conv
proof (rule hoare_bind [OF read_stored_rule])
  fix m :: mail
  let ?ls = "merge_location l (case ml_remote m of None \<Rightarrow> [] | Some ls \<Rightarrow> ls)"
  let ?m = "m\<lparr>ml_id := mid, ml_remote := Some (fst ?ls)\<rparr>" and ?K = "insert k K"
  have all: "places (Some (fst ?ls)) = places (ml_remote m) \<union> {k}"
    unfolding merge_location_places by (cases "ml_remote m") (simp_all add: l(2))
  then have ps: "places (ml_remote m) \<subseteq> places (Some (fst ?ls))" "k \<in> places (Some (fst ?ls))"
    by blast+
  have index: "ends (\<lambda>w. stored_mail K mid w \<and> covered K mid (ml_remote m) w \<and> ml_id m = mid)
      (in_index (index_location l mid)) (\<lambda>_. covered ?K mid (ml_remote ?m))"
    unfolding in_index_def
    by (rule hoare_modify') (simp add: index_location_covered [OF covered_widen [OF _ ps(1)] l(2) ps(2)])
  have rest: "ends (stored_mail ?K mid) (bind_io (read_mail env mid) (\<lambda>m'. then_io (write_cache env (m'\<lparr>ml_id := mid\<rparr>))
      (ret (Merged mid f)))) (\<lambda>out. stored_mail ?K (outcome_message_id out))" for f
    by (rule hoare_bind [OF ends_keeps [OF stored_mail.keeps_read_mail]])
      (rule hoare_then [OF ends_keeps [OF stored_mail.keeps_write_cache]], rule hoare_ret', simp)
  show "ends (\<lambda>w. stored_mail K mid w \<and> covered K mid (ml_remote m) w \<and> ml_id m = mid)
      (then_io (in_index (index_location l mid)) (then_io (persist_message_metadata env ?m) (then_io (ret ())
       (bind_io (read_mail env mid) (\<lambda>m'. then_io (write_cache env (m'\<lparr>ml_id := mid\<rparr>)) (ret (Merged mid (snd ?ls))))))))
      (\<lambda>out. stored_mail ?K (outcome_message_id out))"
    by (rule hoare_then [OF index hoare_then [OF persist_covered hoare_then [OF ends_keeps [OF keeps_ret] rest]]]) simp
qed

text \<open>A mail that is being stored: its metadata is written, and names the place.\<close>

definition described_at :: "(string \<times> u64 \<times> u64) set \<Rightarrow> string \<Rightarrow> string \<times> u64 \<times> u64 \<Rightarrow> cworld \<Rightarrow> bool" where
  "described_at K mid k w \<longleftrightarrow> known K w \<and> (\<exists>md. map_of (cw_meta w) mid = Some md \<and> k \<in> places (md_remote md))"

interpretation described_at: mail_pred "described_at K mid k" for K mid k
  by unfold_locales (auto simp: described_at_def mail_view_def intro: known_view)

definition unstored :: "(string \<times> u64 \<times> u64) set \<Rightarrow> string \<Rightarrow> cworld \<Rightarrow> bool" where
  "unstored K mid w \<longleftrightarrow> known K w \<and> \<not> has_eml mid w"

interpretation unstored: mail_pred "unstored K mid" for K mid
  by unfold_locales (auto simp: unstored_def has_eml_def mail_view_def intro: known_view)

lemma unstored_described:
  assumes "unstored K mid w" "md_remote md = r" "k \<in> places r"
  shows "described_at K mid k (w\<lparr>cw_meta := put mid md (cw_meta w)\<rparr>)" (is "described_at _ _ _ ?w")
proof -
  have "held_at w i k \<Longrightarrow> held_at ?w i k" for i k
    using assms(1) by (intro held_at_put) (auto simp: unstored_def held_at_def)
  then have "known K ?w" by (rule known_more [of K w, rotated 2]) (use assms(1) in \<open>auto simp: unstored_def\<close>)
  then show ?thesis using assms(2,3) by (simp add: described_at_def)
qed

lemma described_published:
  assumes "described_at K mid k w"
  shows "described_at K mid k (clog ev (w\<lparr>cw_eml := put mid raw (cw_eml w)\<rparr>))" (is "described_at _ _ _ ?w")
    and "has_eml mid (clog ev (w\<lparr>cw_eml := put mid raw (cw_eml w)\<rparr>))"
proof -
  have "known K w" using assms by (simp add: described_at_def)
  then have "known K ?w"
  proof (rule known_more)
    show "cw_index ?w = cw_index w" by (simp add: clog_def)
    show "held_at w i k \<Longrightarrow> held_at ?w i k" for i k by (rule held_at_eml)
    show "has_eml i w \<Longrightarrow> has_eml i ?w" for i by (simp add: has_eml_def clog_def)
  qed
  then show "described_at K mid k ?w" using assms by (simp add: described_at_def clog_def)
qed (simp add: has_eml_def clog_def)

definition published_at :: "(string \<times> u64 \<times> u64) set \<Rightarrow> string \<Rightarrow> string \<times> u64 \<times> u64 \<Rightarrow> cworld \<Rightarrow> bool" where
  "published_at K mid k w \<longleftrightarrow> described_at K mid k w \<and> has_eml mid w"

interpretation published_at: mail_pred "published_at K mid k" for K mid k
  by unfold_locales (auto simp: published_at_def has_eml_def mail_view_def intro: described_at.same_mail)

lemma add_rfc822_views [simp]:
  "ix_imap (add_rfc822 r mid ix) = ix_imap ix" "ix_content (add_rfc822 r mid ix) = ix_content ix"
  by (simp_all add: add_rfc822_def)

lemma located_indexed:
  "located_in ix w \<Longrightarrow> held_at w mid k \<Longrightarrow> location_key l = Some k \<Longrightarrow> located_in (index_stored c (Some l) rfc mid ix) w"
  by (auto simp: located_in_def index_stored_def index_location_def held_at_def Let_def split: option.split)

lemma published_indexed:
  assumes p: "published_at K mid k w" and l: "location_key l = Some k"
  shows "stored_mail (insert k K) mid (w\<lparr>cw_index := index_stored c (Some l) rfc mid (cw_index w)\<rparr>)" (is "stored_mail _ _ ?w")
proof -
  have "held_at w mid k" using p by (simp add: published_at_def described_at_def held_at_def)
  then have "located_in (index_stored c (Some l) rfc mid (cw_index w)) w"
    using p l by (intro located_indexed) (auto simp: published_at_def described_at_def known_def)
  then have "located_in (cw_index ?w) ?w" by (simp add: located_in_def held_at_def has_eml_def)
  moreover have "insert k K \<subseteq> dom (map_of (ix_imap (cw_index ?w)))"
    using p l by (auto simp: published_at_def described_at_def known_def index_stored_def index_location_def Let_def split: option.split)
  ultimately show ?thesis using p by (simp add: stored_mail_def known_def published_at_def has_eml_def)
qed

lemma store_located_rule:
  assumes l: "in_location input = Some l" "location_key l = Some k" and d: "in_delivery input = None"
  shows "ends (known K) (store_ingest env input) (\<lambda>out. stored_mail (insert k K) (outcome_message_id out))"
  unfolding store_ingest_def Let_def l(1) d option.case
proof (rule hoare_bind [OF ends_of_res [where Q = "\<lambda>m w. known K w \<and> ml_id m = c_message_id env (in_raw input)
    \<and> ml_remote m = Some [l]"]], goal_cases)
  case (1 a w)
  then show ?case by (auto simp: parse_message_def ingest_options_def l bind_res_def Let_def case_prod_unfold split: sum.splits)
next
  case (2 parsed)
  let ?mid = "c_message_id env (in_raw input)" and ?m = "new_mail input parsed"
  have m: "ml_id parsed = ?mid \<Longrightarrow> ml_id ?m = ?mid" "ml_remote parsed = Some [l] \<Longrightarrow> ml_remote ?m = Some [l]"
    by (simp_all add: new_mail_def with_envelope_def d)
  have dispose: "ends (described_at K ?mid k) (when_io b (set_message_disposition env s ?mid)) (\<lambda>_. described_at K ?mid k)" for b s
    by (rule ends_keeps [OF keeps_when [OF described_at.keeps_disposition]])
  have publish: "ends (described_at K ?mid k) (publish_raw env ?mid (in_raw input)) (\<lambda>_. published_at K ?mid k)"
    unfolding publish_raw_def published_at_def
  proof (rule ends_disk)
    fix w assume "described_at K ?mid k w"
    then have "described_at K ?mid k (ctick w)" by (rule described_at.same_mail) simp
    then show "described_at K ?mid k (clog (Published ?mid (in_raw input)) (ctick w\<lparr>cw_eml := put ?mid (in_raw input) (cw_eml (ctick w))\<rparr>))
        \<and> has_eml ?mid (clog (Published ?mid (in_raw input)) (ctick w\<lparr>cw_eml := put ?mid (in_raw input) (cw_eml (ctick w))\<rparr>))"
      using described_published by blast
  qed
  have triage: "ends (published_at K ?mid k) (when_io b (write_triage_view env ?mid)) (\<lambda>_. published_at K ?mid k)" for b
    by (rule ends_keeps [OF keeps_when [OF published_at.keeps_triage_entry]])
  have last: "ends (published_at K ?mid k) (then_io (in_index (index_stored c (Some l) rfc ?mid)) (ret (Stored ?mid ds)))
      (\<lambda>out. stored_mail (insert k K) (outcome_message_id out))" for c rfc ds
    unfolding in_index_def
    by (rule hoare_then [OF hoare_modify' hoare_ret']) (auto intro: published_indexed l(2))
  have rest: "ends (described_at K ?mid k) (then_io (ret ()) (then_io (when_io b (set_message_disposition env s ?mid))
       (then_io (publish_raw env ?mid (in_raw input)) (then_io (write_cache env ?m) (then_io (when_io b' (write_triage_view env ?mid))
       (then_io (in_index (index_stored c (Some l) rfc ?mid)) (ret (Stored ?mid ds))))))))
      (\<lambda>out. stored_mail (insert k K) (outcome_message_id out))" for b s b' c rfc ds
    by (rule hoare_then [OF ends_keeps [OF keeps_ret] hoare_then [OF dispose hoare_then [OF publish
        hoare_then [OF ends_keeps [OF published_at.keeps_write_cache] hoare_then [OF triage last]]]]])
  have save: "ends (unstored K ?mid) (persist_message_metadata env ?m) (\<lambda>_. described_at K ?mid k)"
    if "ml_id parsed = ?mid" "ml_remote parsed = Some [l]"
    by (rule unstored.persist_rule) (simp add: m that, erule unstored_described, assumption, simp add: m that l(2))
  have decide: "ends (known K) (bind_io (gets (\<lambda>w. map_of (cw_eml w) ?mid \<noteq> None)) (\<lambda>exists. if exists then fail e else n))
      (\<lambda>out. stored_mail (insert k K) (outcome_message_id out))"
    if "ends (unstored K ?mid) n (\<lambda>out. stored_mail (insert k K) (outcome_message_id out))" for e n
    by (rule hoare_bind_gets, rule hoare_if, rule ends_fail, rule hoare_pre [OF that])
      (simp add: unstored_def has_eml_def)
  note finish = hoare_bind [OF ends_keeps [OF keeps_gets] hoare_then [OF ends_keeps [OF known.keeps_read] decide
    [OF hoare_then [OF save rest]]]]
  show ?case
  proof (rule hoare_pre [where P' = "\<lambda>w. (ml_id parsed = ?mid \<and> ml_remote parsed = Some [l]) \<and> known K w"], rule hoare_pure_pre)
    assume "ml_id parsed = ?mid \<and> ml_remote parsed = Some [l]"
    then show "ends (known K) (bind_io (gets cw_index) (\<lambda>ix. then_io (cread env ''create directory'')
     (bind_io (gets (\<lambda>w. map_of (cw_eml w) ?mid \<noteq> None)) (\<lambda>exists.
      if exists then fail (app_error_new ''message_id_conflict'' (''message id '' @ ?mid @ '' already exists''))
      else then_io (persist_message_metadata env ?m) (then_io (ret ())
       (then_io (when_io (is_disposition (in_import_as input)) (set_message_disposition env (in_import_as input) ?mid))
       (then_io (publish_raw env ?mid (in_raw input)) (then_io (write_cache env ?m)
       (then_io (when_io (in_import_as input = ''triage'') (write_triage_view env ?mid))
       (then_io (in_index (index_stored (c_content_key env (in_raw input)) (Some l) (rfc822_key ?m) ?mid))
        (ret (Stored ?mid (case rfc822_key ?m of None \<Rightarrow> []
           | Some k \<Rightarrow> (case map_of (ix_rfc822 ix) k of None \<Rightarrow> [] | Some ids \<Rightarrow> ids))))))))))))))
      (\<lambda>out. stored_mail (insert k K) (outcome_message_id out))"
      by (intro finish) simp_all
  qed simp
qed

lemma ingest_located_rule:
  assumes l: "in_location input = Some l" "location_key l = Some k" and d: "in_delivery input = None"
  shows "ends (known K) (ingest_message env input) (\<lambda>out. stored_mail (insert k K) (outcome_message_id out))"
  unfolding ingest_message_def
proof (rule hoare_if, rule ends_fail, rule hoare_bind_gets)
  fix ix
  show "ends (\<lambda>w. known K w \<and> cw_index w = ix)
      (case map_of (ix_content ix) (c_content_key env (in_raw input)) of
          Some mid \<Rightarrow> merge_ingest env input mid | None \<Rightarrow> store_ingest env input)
      (\<lambda>out. stored_mail (insert k K) (outcome_message_id out))"
  proof (cases "map_of (ix_content ix) (c_content_key env (in_raw input))")
    case None
    show ?thesis
      unfolding None option.case by (rule hoare_pre [OF store_located_rule [OF assms]]) simp
  next
    case (Some mid)
    show ?thesis
      unfolding Some option.case
    proof (rule hoare_pre [OF merge_located_rule [OF assms]])
      fix w assume "known K w \<and> cw_index w = ix"
      then show "stored_mail K mid w" using Some known_eml(2) unfolding stored_mail_def by blast
    qed
  qed
qed

section \<open>Loading the index\<close>

lemma index_mail_located:
  assumes "located_in ix w" "has_eml (ml_id m) w" "map_of (cw_meta w) (ml_id m) = Some md" "md_remote md = ml_remote m"
  shows "located_in (index_mail m ix) w"
proof -
  let ?step = "\<lambda>l acc. if rl_missing l \<noteq> None then acc else (case location_key l of
         None \<Rightarrow> acc | Some k \<Rightarrow> acc\<lparr>ix_imap := or_insert k (ml_id m) (ix_imap acc)\<rparr>)"
  have step: "located_in (?step l acc) w" if "located_in acc w" "set_option (location_key l) \<subseteq> places (ml_remote m)" for l acc
    using that assms(2-4) by (auto simp: located_in_def held_at_def has_eml_def split: option.split if_splits)
  have fold: "located_in (fold ?step ls acc) w"
    if "located_in acc w" "places (Some ls) \<subseteq> places (ml_remote m)" for ls acc
    using that
  proof (induction ls arbitrary: acc)
    case (Cons l ls)
    show ?case unfolding fold.simps comp_def by (rule Cons.IH [OF step]) (use Cons.prems in simp_all)
  qed simp
  have start: "located_in (case rfc822_key m of None \<Rightarrow> ix | Some k \<Rightarrow> add_rfc822 k (ml_id m) ix) w"
    using assms(1) by (auto simp: located_in_def split: option.split)
  show ?thesis
    unfolding index_mail_def Let_def
    by (rule fold [OF start]) (cases "ml_remote m", simp_all)
qed

end
