(* ===== verification/Mailbox_Safety.thy ===== *)
theory Mailbox_Safety
  imports Mailbox_Index
begin

text \<open>
  What a pull has dealt with.  Every message of the listing is stored, is reserved for the second pass
  over the mailbox, or blocks the cursor; the second pass leaves no reservation open.
\<close>

section \<open>Loading the index\<close>

definition loading :: "(string \<times> string) list \<Rightarrow> existing_index \<Rightarrow> cworld \<Rightarrow> bool" where
  "loading emls ix w \<longleftrightarrow> located_in ix w \<and> (\<forall>mid \<in> fst ` set emls. has_eml mid w)"

interpretation loading: mail_pred "loading emls ix" for emls ix
  by unfold_locales (auto simp: loading_def has_eml_def mail_view_def intro: located_view)

lemma load_index_located: "ends (\<lambda>_. True) (load_index env) located_in"
  unfolding load_index_def
proof (intro hoare_then [OF ends_any] hoare_bind_gets)
  fix emls
  let ?f = "\<lambda>(mid, raw) ix. then_io (cread env ''read message eml'') (then_io (modify (clog (Found mid raw)))
        (bind_io (read_mail env mid) (\<lambda>m. ret (index_mail (m\<lparr>ml_id := mid\<rparr>)
            (ix\<lparr>ix_content := or_insert (c_content_key env raw) mid (ix_content ix)\<rparr>)))))"
  have step: "ends (loading emls ix) (?f x ix) (loading emls)" if x: "x \<in> set emls" for x ix
  proof (cases x)
    case (Pair mid raw)
    let ?ix = "ix\<lparr>ix_content := or_insert (c_content_key env raw) mid (ix_content ix)\<rparr>"
    have note_it: "ends (loading emls ix) (modify (clog (Found mid raw))) (\<lambda>_. loading emls ix)"
      by (rule hoare_modify') (auto intro: loading.same_mail)
    have content: "loading emls ix w \<Longrightarrow> located_in ?ix w" for w
      using x Pair by (force simp: loading_def located_in_def split: option.split)
    have "loading emls (index_mail (m\<lparr>ml_id := mid\<rparr>) ?ix) w"
      if "loading emls ix w" "map_of (cw_eml w) mid \<noteq> None \<Longrightarrow> \<exists>md. map_of (cw_meta w) mid = Some md \<and> md_remote md = ml_remote m" for m w
      using that content [of w] x Pair index_mail_located [of ?ix w "m\<lparr>ml_id := mid\<rparr>"]
      by (force simp: loading_def has_eml_def)
    then show ?thesis
      unfolding Pair case_prod_conv
      by (intro hoare_then [OF ends_keeps [OF loading.keeps_read]] hoare_then [OF note_it]
          hoare_bind [OF loading.read_mail_rule] hoare_ret') blast
  qed
  show "ends (\<lambda>w. True \<and> sort_key fst (cw_eml w) = emls) (fold_io ?f emls empty_index) located_in"
    by (rule hoare_weaken [OF hoare_fold [where I = "loading emls", OF step]])
      (auto simp: loading_def located_in_def empty_index_def has_eml_def map_of_eq_None_iff)
qed

section \<open>Lists of work\<close>

lemma hoare_fold_grow:
  assumes "\<And>x b D. x \<in> set xs \<Longrightarrow> hoare (I D b) (f x b) (I (g x \<union> D)) E C"
  shows "hoare (I D b) (fold_io f xs b) (I (\<Union>(g ` set xs) \<union> D)) E C"
  using assms
proof (induction xs arbitrary: D b)
  case (Cons x xs)
  have "\<Union>(g ` set xs) \<union> (g x \<union> D) = \<Union>(g ` set (x # xs)) \<union> D" by auto
  then show ?case
    unfolding fold_io.simps
    using hoare_bind [OF Cons.prems(1) [of x D b] Cons.IH [OF Cons.prems, of "g x \<union> D"]] by simp
qed (simp add: hoare_ret)

lemma chunks_concat: "0 < n \<Longrightarrow> concat (chunks n xs) = xs"
  by (induction n xs rule: chunks.induct) (subst chunks.simps, auto)

lemma chunks_set: "0 < n \<Longrightarrow> \<Union>(set ` set (chunks n xs)) = set xs"
  using arg_cong [OF chunks_concat, of n set xs] by simp

section \<open>The headers\<close>

text \<open>A listed message is known, waits among the new ones, or blocks the cursor.\<close>

definition dealt :: "string \<Rightarrow> u64 \<Rightarrow> (string \<times> u64 \<times> u64) set \<Rightarrow> mailbox_scan \<Rightarrow> u64 \<Rightarrow> bool" where
  "dealt mb v K sc u \<longleftrightarrow> (mb, v, u) \<in> K \<or> map_of (sc_new sc) u \<noteq> None \<or> (\<exists>b. sc_blocked sc = Some b \<and> b \<le> u)"

definition scanned :: "string \<Rightarrow> u64 \<Rightarrow> u64 set \<Rightarrow> mailbox_pull \<times> mailbox_scan \<Rightarrow> cworld \<Rightarrow> bool" where
  "scanned mb v D st w \<longleftrightarrow> sc_blocked (snd st) \<noteq> Some 0 \<and> map_of (sc_new (snd st)) 0 = None \<and> (\<exists>K. known K w \<and> (\<forall>u \<in> D. dealt mb v K (snd st) u))"

interpretation scanned: mail_pred "scanned mb v D st" for mb v D st
  unfolding scanned_def by unfold_locales (blast intro: known_view)

lemma block_new [simp]: "sc_new (block_cursor u sc) = sc_new sc"
  by (simp add: block_cursor_def)

lemma blocked_less [simp]: "\<exists>b. sc_blocked (block_cursor u sc) = Some b \<and> b \<le> u"
  by (simp add: block_cursor_def split: option.split)

lemma block_dealt:
  "dealt mb v K sc x \<Longrightarrow> dealt mb v K (block_cursor u sc) x" "dealt mb v K (block_cursor u sc) u"
  by (auto simp: dealt_def block_cursor_def split: option.split intro: min.coboundedI1)

lemma block_nonzero: "sc_blocked sc \<noteq> Some 0 \<Longrightarrow> u \<noteq> 0 \<Longrightarrow> sc_blocked (block_cursor u sc) \<noteq> Some 0"
  by (auto simp: block_cursor_def min_def split: option.split)

lemma scanned_block:
  "scanned mb v D (mp, sc) w \<Longrightarrow> u \<noteq> 0 \<Longrightarrow> scanned mb v (insert u D) (mp', block_cursor u sc) w"
  unfolding scanned_def by (auto simp: block_dealt block_nonzero)

lemma scanned_same:
  "scanned mb v D (mp, sc) w \<Longrightarrow> sc_blocked sc' = sc_blocked sc \<Longrightarrow> sc_new sc' = sc_new sc \<Longrightarrow> scanned mb v D (mp', sc') w"
  unfolding scanned_def dealt_def by simp

lemma known_found:
  assumes "known K w" "map_of (ix_imap (cw_index w)) k = Some mid"
  shows "stored_mail (insert k K) mid w"
  using assms known_eml(1) [OF assms] by (auto simp: stored_mail_def known_def)

lemma scanned_mono: "scanned mb v D st w \<Longrightarrow> D' \<subseteq> D \<Longrightarrow> scanned mb v D' st w"
  unfolding scanned_def by blast

lemma handle_envelope_rule:
  assumes e: "re_mailbox e = mb" "re_uid_validity e = v" "re_uid e \<noteq> 0"
  shows "ends (scanned mb v D st) (handle_envelope env e st) (scanned mb v ({re_uid e} \<union> D))"
proof (cases st)
  case (Pair mp sc0)
  let ?sc = "sc0\<lparr>sc_highest := max (sc_highest sc0) (re_uid e)\<rparr>" and ?u = "re_uid e"
  have sc: "scanned mb v D st w \<Longrightarrow> scanned mb v D (mp, ?sc) w" for w
    unfolding Pair by (erule scanned_same) simp_all
  have known: "ends (\<lambda>w. scanned mb v D (mp, ?sc) w \<and> map_of (ix_imap (cw_index w)) (mb, v, ?u) = Some mid)
      (bind_io (update_location_flags env mid e) (\<lambda>f. ret (if f then mp\<lparr>mp_flags := mp_flags mp + 1\<rparr> else mp, ?sc)))
      (scanned mb v ({?u} \<union> D))" for mid
  proof (rule hoare_pre [OF hoare_ex])
    fix K
    show "ends (\<lambda>w. (sc_blocked ?sc \<noteq> Some 0 \<and> map_of (sc_new ?sc) 0 = None \<and> (\<forall>u \<in> D. dealt mb v K ?sc u)) \<and> stored_mail (insert (mb, v, ?u) K) mid w)
       (bind_io (update_location_flags env mid e) (\<lambda>f. ret (if f then mp\<lparr>mp_flags := mp_flags mp + 1\<rparr> else mp, ?sc)))
       (scanned mb v ({?u} \<union> D))"
      by (rule hoare_pure_pre, rule hoare_bind [OF update_flags_rule], rule hoare_ret')
        (auto simp: scanned_def dealt_def)
  next
    fix w assume "scanned mb v D (mp, ?sc) w \<and> map_of (ix_imap (cw_index w)) (mb, v, ?u) = Some mid"
    then show "\<exists>K. (sc_blocked ?sc \<noteq> Some 0 \<and> map_of (sc_new ?sc) 0 = None \<and> (\<forall>u \<in> D. dealt mb v K ?sc u)) \<and> stored_mail (insert (mb, v, ?u) K) mid w"
      unfolding scanned_def snd_conv using known_found by blast
  qed
  have fresh: "scanned mb v ({?u} \<union> D) (mp', ?sc\<lparr>sc_new := put ?u e (sc_new ?sc)\<rparr>) w" if "scanned mb v D (mp, ?sc) w" for mp' w
    using that e(3) unfolding scanned_def dealt_def by auto
  have over: "scanned mb v ({?u} \<union> D) (mp', block_cursor ?u ?sc) w" if "scanned mb v D (mp, ?sc) w" for mp' w
    using scanned_block [OF that e(3)] by simp
  show ?thesis
    unfolding handle_envelope_def Pair case_prod_conv Let_def e
  proof (rule hoare_bind_gets)
    fix found
    show "ends (\<lambda>w. scanned mb v D (mp, sc0) w \<and> map_of (ix_imap (cw_index w)) (mb, v, ?u) = found)
      (case found of Some mid \<Rightarrow> bind_io (update_location_flags env mid e)
          (\<lambda>flags. ret (if flags then mp\<lparr>mp_flags := mp_flags mp + 1\<rparr> else mp, ?sc))
       | None \<Rightarrow> if mp_remaining_count mp = 0 \<or> mp_remaining_bytes mp < budget_size e
         then ret (over_budget mp, block_cursor ?u ?sc)
         else ret (mp\<lparr>mp_remaining_count := mp_remaining_count mp - 1,
              mp_remaining_bytes := mp_remaining_bytes mp - budget_size e\<rparr>, ?sc\<lparr>sc_new := put ?u e (sc_new ?sc)\<rparr>))
      (scanned mb v ({?u} \<union> D))"
    proof (cases found)
      case None
      show ?thesis
        unfolding None option.case
      proof (rule hoare_pre [where P' = "scanned mb v D (mp, ?sc)"], rule hoare_if)
        show "ends (scanned mb v D (mp, ?sc)) (ret (over_budget mp, block_cursor ?u ?sc)) (scanned mb v ({?u} \<union> D))"
          by (rule hoare_ret') (rule over)
        show "ends (scanned mb v D (mp, ?sc)) (ret (mp\<lparr>mp_remaining_count := mp_remaining_count mp - 1,
              mp_remaining_bytes := mp_remaining_bytes mp - budget_size e\<rparr>, ?sc\<lparr>sc_new := put ?u e (sc_new ?sc)\<rparr>))
            (scanned mb v ({?u} \<union> D))"
          by (rule hoare_ret') (rule fresh)
      qed (use sc Pair in simp)
    next
      case (Some mid)
      show ?thesis
        unfolding Some option.case by (rule hoare_pre [OF known]) (use sc Pair in simp)
    qed
  qed
qed

lemma usable_headerD:
  "usable_header mailbox v uids h = Some e \<Longrightarrow> re_mailbox e = mailbox \<and> re_uid_validity e = v \<and> re_uid e \<in> set uids"
  by (auto simp: usable_header_def split: option.splits if_splits)

lemma dedup_by_uid_subset: "set (dedup_by_uid es) \<subseteq> set es"
  by (induction es rule: dedup_by_uid.induct) (auto split: if_splits)

lemma map_filter_some: "y \<in> set (List.map_filter f xs) \<Longrightarrow> \<exists>x. f x = Some y"
  by (auto simp: map_filter_def)

lemma fetch_header_batch_rule:
  "ends (scanned mb v D st) (fetch_header_batch srv mb v uids)
     (\<lambda>(es, missing) w. scanned mb v D st w \<and> set uids \<subseteq> re_uid ` set es \<union> set missing \<and> set missing \<subseteq> set uids
        \<and> (\<forall>e \<in> set es. re_mailbox e = mb \<and> re_uid_validity e = v \<and> re_uid e \<in> set uids))"
  unfolding fetch_header_batch_def Let_def
  by (rule hoare_bind [OF ends_keeps [OF scanned.keeps_ask]], rule hoare_ret')
    (auto dest!: subsetD [OF dedup_by_uid_subset] map_filter_some usable_headerD)

lemma scan_missing:
  "scanned mb v D st w \<Longrightarrow> 0 \<notin> set us \<Longrightarrow> scanned mb v (set us \<union> D) (fold (skip_header mb) us st) w"
proof (induction us arbitrary: st D)
  case (Cons u us)
  obtain mp sc where st: "st = (mp, sc)" by (cases st)
  have "scanned mb v (insert u D) (skip_header mb u st) w"
    unfolding st skip_header_def case_prod_conv by (rule scanned_block) (use Cons.prems st in auto)
  from Cons.IH [OF this] Cons.prems(2) show ?case by simp
qed simp

lemma scan_batch_rule:
  assumes "0 \<notin> set batch"
  shows "ends (scanned mb v D st) (scan_batch env srv mb v batch st) (scanned mb v (set batch \<union> D))"
  unfolding scan_batch_def case_prod_unfold
proof (rule hoare_bind [OF fetch_header_batch_rule [unfolded case_prod_unfold]])
  fix r :: "remote_envelope list \<times> u64 list"
  let ?es = "fst r" and ?missing = "snd r"
  let ?b = "set batch \<subseteq> re_uid ` set ?es \<union> set ?missing \<and> set ?missing \<subseteq> set batch
        \<and> (\<forall>e \<in> set ?es. re_mailbox e = mb \<and> re_uid_validity e = v \<and> re_uid e \<in> set batch)"
  let ?st = "fold (skip_header mb) ?missing st"
  have "ends (scanned mb v (set ?missing \<union> D) ?st) (fold_io (handle_envelope env) ?es ?st)
      (scanned mb v (\<Union>((\<lambda>e. {re_uid e}) ` set ?es) \<union> (set ?missing \<union> D)))" if ?b
    by (rule hoare_fold_grow [where I = "scanned mb v"], rule handle_envelope_rule) (use that assms in auto)
  then have go: "ends (scanned mb v (set ?missing \<union> D) ?st) (fold_io (handle_envelope env) ?es ?st) (scanned mb v (set batch \<union> D))"
    if b: ?b
  proof (rule hoare_weaken)
    show "scanned mb v (set batch \<union> D) st' w"
      if "scanned mb v (\<Union>((\<lambda>e. {re_uid e}) ` set ?es) \<union> (set ?missing \<union> D)) st' w" for st' w
      by (rule scanned_mono [OF that]) (use b in auto)
  qed (rule b, simp_all)
  show "ends (\<lambda>w. scanned mb v D st w \<and> ?b) (fold_io (handle_envelope env) ?es ?st) (scanned mb v (set batch \<union> D))"
    by (rule hoare_pre [OF hoare_pure_pre [OF go]]) (use assms in \<open>auto intro!: scan_missing\<close>)
qed

lemma scan_rule:
  assumes "0 \<notin> set uids"
  shows "ends (scanned mb v {} st) (fold_io (scan_batch env srv mb v) (chunks BODY_FETCH_BATCH_SIZE uids) st) (scanned mb v (set uids))"
proof -
  have n: "0 < BODY_FETCH_BATCH_SIZE" by (simp add: BODY_FETCH_BATCH_SIZE_def)
  have "ends (scanned mb v {} st) (fold_io (scan_batch env srv mb v) (chunks BODY_FETCH_BATCH_SIZE uids) st)
      (scanned mb v (\<Union>(set ` set (chunks BODY_FETCH_BATCH_SIZE uids)) \<union> {}))"
    by (rule hoare_fold_grow [where I = "scanned mb v"], rule scan_batch_rule) (use assms chunks_set [OF n, of uids] in blast)
  then show ?thesis by (simp add: chunks_set [OF n])
qed

section \<open>The bodies\<close>

definition settled_uid :: "string \<Rightarrow> u64 \<Rightarrow> u64 set \<Rightarrow> mailbox_scan \<Rightarrow> (string \<times> u64 \<times> u64) set \<Rightarrow> u64 \<Rightarrow> bool" where
  "settled_uid mb v D sc K u \<longleftrightarrow> u \<notin> D \<and> map_of (sc_new sc) u \<noteq> None \<or> (mb, v, u) \<in> K
     \<or> (\<exists>b. sc_blocked sc = Some b \<and> b \<le> u)"

definition imported_bodies :: "string \<Rightarrow> u64 \<Rightarrow> u64 set \<Rightarrow> u64 set \<Rightarrow> u64 set \<Rightarrow> mailbox_pull \<times> mailbox_scan \<Rightarrow> cworld \<Rightarrow> bool" where
  "imported_bodies mb v N H D st w \<longleftrightarrow> sc_blocked (snd st) \<noteq> Some 0 \<and> dom (map_of (sc_new (snd st))) \<subseteq> N
     \<and> (\<exists>K. known K w \<and> (\<forall>u \<in> H. settled_uid mb v D (snd st) K u))"

lemma imported_weaken:
  assumes "imported_bodies mb v N H D st w" "sc_blocked (snd st') \<noteq> Some 0" "sc_new (snd st') = sc_new (snd st)"
    and "\<And>K u. u \<in> H \<Longrightarrow> settled_uid mb v D (snd st) K u \<Longrightarrow> settled_uid mb v D' (snd st') K u"
  shows "imported_bodies mb v N H D' st' w"
  using assms unfolding imported_bodies_def by metis

lemma imported_blocked: "imported_bodies mb v N H D st w \<Longrightarrow> sc_blocked (snd st) \<noteq> Some 0"
  by (simp add: imported_bodies_def)

interpretation imported_bodies: mail_pred "imported_bodies mb v N H D st" for mb v N H D st
  unfolding imported_bodies_def by unfold_locales (blast intro: known_view)

context mail_pred
begin

lemma keeps_chunks: "keeps I (fetch_chunks fuel srv mb u limit flags raw)"
proof (induction fuel arbitrary: flags raw)
  case (Suc fuel)
  show ?case
    unfolding fetch_chunks.simps Let_def case_prod_unfold by (intro mail_rules Suc.IH)
qed (simp add: hoare_def)

lemma keeps_body: "keeps I (fetch_body srv mb u)"
  unfolding fetch_body_def fetch_full_body_def by (intro mail_rules keeps_chunks)

lemma keeps_answered: "keeps I (fetch_answered srv mb v uids x b)"
  unfolding fetch_answered_def Let_def case_prod_unfold by (intro mail_rules keeps_body)

lemma keeps_body_batch: "keeps I (fetch_body_batch srv mb v uids)"
  unfolding fetch_body_batch_def by (intro mail_rules keeps_answered)

end

text \<open>Every UID of a batch that was answered has a message or a reason why not, and the batch holds no other.\<close>

definition batch_of :: "string \<Rightarrow> u64 \<Rightarrow> u64 list \<Rightarrow> body_batch \<Rightarrow> bool" where
  "batch_of mb v uids b \<longleftrightarrow> set (bb_answered b) \<subseteq> rm_uid ` set (bb_messages b) \<union> snd ` set (bb_skipped b)
     \<and> snd ` set (bb_skipped b) \<subseteq> set uids
     \<and> (\<forall>m \<in> set (bb_messages b). rm_mailbox m = mb \<and> rm_uid_validity m = v \<and> rm_uid m \<in> set uids)"

lemma fetch_answered_batch:
  "ends (\<lambda>_. batch_of mb v uids b) (fetch_answered srv mb v uids x b) (\<lambda>b _. batch_of mb v uids b)"
proof (rule ends_pure)
  fix w b' w'
  assume "batch_of mb v uids b" "fetch_answered srv mb v uids x b w = (Done b', w')"
  then show "batch_of mb v uids b'"
    by (cases x) (auto simp: fetch_answered_def batch_of_def skip_body_def bind_io_def ret_def Let_def
        image_subset_iff split: option.splits if_splits prod.splits outcome.splits)
qed

lemma skip_rest: "bb_messages (fold (skip_body r) us b) = bb_messages b"
  "bb_skipped (fold (skip_body r) us b) = bb_skipped b @ map (Pair r) us"
  by (induction us arbitrary: b) (simp_all add: skip_body_def)

lemma fetch_body_batch_covers:
  "ends (\<lambda>_. True) (fetch_body_batch srv mb v uids) (\<lambda>b _. set uids \<subseteq> rm_uid ` set (bb_messages b) \<union> snd ` set (bb_skipped b)
     \<and> snd ` set (bb_skipped b) \<subseteq> set uids
     \<and> (\<forall>m \<in> set (bb_messages b). rm_mailbox m = mb \<and> rm_uid_validity m = v \<and> rm_uid m \<in> set uids))"
  unfolding fetch_body_batch_def
proof (rule hoare_if)
  fix s
  assume "uids = []"
  then show "ends (\<lambda>_. True) (ret \<lparr>bb_messages = [], bb_skipped = [], bb_answered = []\<rparr>) (\<lambda>b _. set uids \<subseteq> rm_uid ` set (bb_messages b) \<union> snd ` set (bb_skipped b)
     \<and> snd ` set (bb_skipped b) \<subseteq> set uids
     \<and> (\<forall>m \<in> set (bb_messages b). rm_mailbox m = mb \<and> rm_uid_validity m = v \<and> rm_uid m \<in> set uids))"
    by (intro hoare_ret') simp
next
  have batch: "ends (\<lambda>_. batch_of mb v uids b) (fold_io (fetch_answered srv mb v uids) sizes b) (\<lambda>b _. batch_of mb v uids b)" for sizes b
    by (rule hoare_fold [where I = "\<lambda>b _. batch_of mb v uids b"]) (rule fetch_answered_batch)
  show "ends (\<lambda>_. True) (bind_io (cask (\<lambda>n. srv_sizes srv n mb uids)) (\<lambda>sizes.
       bind_io (fold_io (fetch_answered srv mb v uids) sizes \<lparr>bb_messages = [], bb_skipped = [], bb_answered = []\<rparr>)
         (\<lambda>b. ret (fold (skip_body ''body_missing'') (filter (\<lambda>u. u \<notin> set (bb_answered b)) (remdups_adj (sort uids))) b))))
      (\<lambda>b _. set uids \<subseteq> rm_uid ` set (bb_messages b) \<union> snd ` set (bb_skipped b)
     \<and> snd ` set (bb_skipped b) \<subseteq> set uids
     \<and> (\<forall>m \<in> set (bb_messages b). rm_mailbox m = mb \<and> rm_uid_validity m = v \<and> rm_uid m \<in> set uids))"
    by (rule hoare_bind [OF ends_any], rule hoare_bind [OF hoare_pre [OF batch]], simp add: batch_of_def, rule hoare_ret')
      (auto simp: skip_rest batch_of_def image_subset_iff image_Un image_image)
qed

lemma import_remote_rule:
  "ends (known K) (import_remote env t m actual mp) (\<lambda>_. known (insert (rm_mailbox m, rm_uid_validity m, rm_uid m) K))"
proof -
  let ?k = "(rm_mailbox m, rm_uid_validity m, rm_uid m)"
  have ingest: "ends (known K) (ingest_message env (pulled_input t stamp m)) (\<lambda>out. stored_mail (insert ?k K) (outcome_message_id out))" for stamp
    by (rule ingest_located_rule [where l = "\<lparr>rl_mailbox_name = rm_mailbox m, rl_mailbox_id = Some (pt_id t),
      rl_uid_validity = Some (rm_uid_validity m), rl_uid = Some (rm_uid m), rl_flags = rm_flags m, rl_observed = stamp,
      rl_missing = None\<rparr>"]) (auto simp: pulled_input_def location_key_def)
  show ?thesis
    unfolding import_remote_def
  proof (rule hoare_bind [OF ends_keeps [OF keeps_gets] hoare_bind [OF ingest]])
    fix out :: ingest_outcome
    have restore: "ends (stored_mail (insert ?k K) mid) (bind_io (restore_remote_deleted env mid s) (\<lambda>r. ret (f r))) (\<lambda>_. known (insert ?k K))"
      for mid s and f :: "bool \<Rightarrow> mailbox_pull"
      by (rule hoare_bind [OF restore_rule]) (rule hoare_ret)
    show "ends (stored_mail (insert ?k K) (outcome_message_id out)) (let mid = outcome_message_id out;
         mp1 = (if has_duplicate_candidates out then mp\<lparr>mp_warnings := mp_warnings mp @ [''duplicate_candidate'']\<rparr> else mp)
     in case out of
       Merged _ flags \<Rightarrow>
         let mp2 = mp1\<lparr>mp_remaining_count := mp_remaining_count mp1 + 1, mp_remaining_bytes := mp_remaining_bytes mp1 + actual\<rparr>
         in then_io (of_res (bind_res (message_status_parse (pt_import_as t)) (\<lambda>_. Inr ())))
           (bind_io (restore_remote_deleted env mid (pt_import_as t)) (\<lambda>restored.
             ret (mp2\<lparr>mp_reclassified := mp_reclassified mp2 + (if restored then 1 else 0), mp_updated := mp_updated mp2 + 1,
                mp_flags := mp_flags mp2 + (if flags then 1 else 0)\<rparr>)))
     | Stored _ _ \<Rightarrow> ret (count_import t mid actual mp1)) (\<lambda>_. known (insert ?k K))"
      by (cases out) (auto simp: Let_def stored_mail_def [of "insert ?k K"] intro!: hoare_ret' hoare_then [OF ends_keeps [OF keeps_of_res]] restore
          simp del: outcome_message_id.simps)
  qed
qed

lemma settled_block: "settled_uid mb v D sc K x \<Longrightarrow> settled_uid mb v (insert u D) (block_cursor u sc) K x"
  by (auto simp: settled_uid_def block_cursor_def split: option.split intro: min.coboundedI1)

lemma imported_block:
  assumes "imported_bodies mb v N H D (mp, sc) w" "u \<noteq> 0"
  shows "imported_bodies mb v N H (insert u D) (mp', block_cursor u sc) w"
  by (rule imported_weaken [OF assms(1)]) (use imported_blocked [OF assms(1)] assms(2) in \<open>auto simp: block_nonzero settled_block\<close>)

lemma imported_known:
  assumes "\<forall>u \<in> H. settled_uid mb v D sc K u" "sc_blocked sc \<noteq> Some 0" "dom (map_of (sc_new sc)) \<subseteq> N"
    "known (insert (mb, v, u) K) w"
  shows "imported_bodies mb v N H (insert u D) (mp, sc) w"
  using assms unfolding imported_bodies_def settled_uid_def by (intro conjI exI [of _ "insert (mb, v, u) K"]) auto

lemma handle_remote_rule:
  assumes m: "rm_mailbox m = mb" "rm_uid_validity m = v" "rm_uid m \<noteq> 0"
  shows "ends (imported_bodies mb v N H D st) (handle_remote env t m st) (imported_bodies mb v N H ({rm_uid m} \<union> D))"
proof (cases st)
  case (Pair mp sc)
  let ?P = "imported_bodies mb v N H D (mp, sc)" and ?Q = "imported_bodies mb v N H (insert (rm_uid m) D)"
  let ?b = "\<lambda>K. sc_blocked sc \<noteq> Some 0 \<and> dom (map_of (sc_new sc)) \<subseteq> N \<and> (\<forall>u \<in> H. settled_uid mb v D sc K u)"
  have skip: "map_of (sc_new sc) (rm_uid m) = None \<Longrightarrow> ?P w \<Longrightarrow> ?Q (mp, sc) w" for w
    by (rule imported_weaken [of mb v N H D "(mp, sc)"]) (auto simp: settled_uid_def dest: imported_blocked)
  have imp: "ends ?P (bind_io (import_remote env t m actual mp1) (\<lambda>mp'. ret (mp', sc))) ?Q" for actual mp1
  proof (rule hoare_pre [where P' = "\<lambda>w. \<exists>K. ?b K \<and> known K w"], rule hoare_ex, rule hoare_pure_pre)
    fix K assume "?b K"
    then show "ends (known K) (bind_io (import_remote env t m actual mp1) (\<lambda>mp'. ret (mp', sc))) ?Q"
      by (intro hoare_bind [OF import_remote_rule [of K env t m, unfolded m]] hoare_ret' imported_known) auto
  qed (auto simp: imported_bodies_def)
  show ?thesis
  proof (cases "map_of (sc_new sc) (rm_uid m)")
    case None
    then show ?thesis using skip unfolding Pair handle_remote_def by (auto intro!: hoare_ret')
  next
    case (Some e)
    show ?thesis
      unfolding Pair handle_remote_def case_prod_conv Some option.case Let_def
    proof (simp only: insert_is_Un [symmetric], rule hoare_if)
      show "ends ?P (ret (over_budget (skip_mail ''total_bytes_budget_exceeded'' (rm_mailbox m) (rm_uid m) mp), block_cursor (rm_uid m) sc)) ?Q"
        by (rule hoare_ret') (rule imported_block [OF _ m(3)])
    qed (rule imp)
  qed
qed

lemma skip_bodies_rule:
  "imported_bodies mb v N H D st w \<Longrightarrow> 0 \<notin> snd ` set xs \<Longrightarrow> imported_bodies mb v N H (snd ` set xs \<union> D) (fold (skip_bodies mb) xs st) w"
proof (induction xs arbitrary: st D)
  case (Cons x xs)
  obtain mp sc r u where st: "st = (mp, sc)" "x = (r, u)" by (cases st, cases x) auto
  have "imported_bodies mb v N H (insert u D) (skip_bodies mb x st) w"
    unfolding st skip_bodies_def case_prod_conv by (rule imported_block) (use Cons.prems st in auto)
  from Cons.IH [OF this] Cons.prems(2) st show ?case by simp
qed simp

lemma import_batch_rule:
  assumes "0 \<notin> set batch"  and mb: "pt_mailbox t = mb"
  shows "ends (imported_bodies mb v N H D st) (import_batch env srv t v batch st) (imported_bodies mb v N H (set batch \<union> D))"
  unfolding import_batch_def mb
proof (rule hoare_bind [OF ends_both [OF ends_keeps [OF imported_bodies.keeps_body_batch] hoare_pre [OF fetch_body_batch_covers]]], simp)
  fix b
  let ?b = "set batch \<subseteq> rm_uid ` set (bb_messages b) \<union> snd ` set (bb_skipped b) \<and> snd ` set (bb_skipped b) \<subseteq> set batch
     \<and> (\<forall>m \<in> set (bb_messages b). rm_mailbox m = mb \<and> rm_uid_validity m = v \<and> rm_uid m \<in> set batch)"
  let ?S = "snd ` set (bb_skipped b)" and ?st = "fold (skip_bodies mb) (bb_skipped b) st"
  have go: "ends (imported_bodies mb v N H (?S \<union> D) ?st) (fold_io (handle_remote env t) (bb_messages b) ?st)
      (imported_bodies mb v N H (set batch \<union> D))" if b: ?b
  proof (rule hoare_weaken [OF hoare_fold_grow [where I = "imported_bodies mb v N H", OF handle_remote_rule]])
    fix st' w
    assume i: "imported_bodies mb v N H (\<Union>((\<lambda>m. {rm_uid m}) ` set (bb_messages b)) \<union> (?S \<union> D)) st' w"
    show "imported_bodies mb v N H (set batch \<union> D) st' w"
      by (rule imported_weaken [OF i imported_blocked [OF i] refl]) (use b in \<open>auto simp: settled_uid_def\<close>)
  qed (use b assms in auto)
  show "ends (\<lambda>w. imported_bodies mb v N H D st w \<and> ?b) (fold_io (handle_remote env t) (bb_messages b) ?st)
      (imported_bodies mb v N H (set batch \<union> D))"
    by (rule hoare_pre [OF hoare_pure_pre [OF go]]) (use assms in \<open>auto intro!: skip_bodies_rule\<close>)
qed

lemma import_rule:
  assumes "0 \<notin> set uids" "pt_mailbox t = mb"
  shows "ends (imported_bodies mb v N H {} st) (fold_io (import_batch env srv t v) (chunks BODY_FETCH_BATCH_SIZE uids) st)
    (imported_bodies mb v N H (set uids))"
proof -
  have n: "0 < BODY_FETCH_BATCH_SIZE" by (simp add: BODY_FETCH_BATCH_SIZE_def)
  have "ends (imported_bodies mb v N H {} st) (fold_io (import_batch env srv t v) (chunks BODY_FETCH_BATCH_SIZE uids) st)
      (imported_bodies mb v N H (\<Union>(set ` set (chunks BODY_FETCH_BATCH_SIZE uids)) \<union> {}))"
    by (rule hoare_fold_grow [where I = "imported_bodies mb v N H"], rule import_batch_rule)
      (use assms chunks_set [OF n, of uids] in blast)+
  then show ?thesis by (simp add: chunks_set [OF n])
qed

section \<open>A mailbox\<close>

text \<open>Only later messages than the cursor's are listed.\<close>

lemma select_uids_above:
  assumes "select_uids srv mailbox since cursor w = (Done hs, w')" "u \<in> set (hs_uids hs)" "hs_previous hs = Some h"
  shows "h < u"
  using assms
  by (auto simp: select_uids_def bind_io_def ret_def Let_def cask_def split: option.splits outcome.splits prod.splits reply.splits if_splits)

text \<open>The new UIDs of the first pass are all that the second has to import.\<close>

definition passed :: "string \<Rightarrow> header_selection \<Rightarrow> u64 \<Rightarrow> cworld \<Rightarrow> bool" where
  "passed mb hs highest w \<longleftrightarrow> (\<forall>u \<in> set (hs_uids hs). u \<le> highest \<longrightarrow> (\<exists>mid. held_at w mid (mb, hs_uid_validity hs, u)))"

lemma imported_passed:
  assumes i: "imported_bodies mb (hs_uid_validity hs) N (set (hs_uids hs)) N (mp, sc) w" and zero: "0 \<notin> set (hs_uids hs)"
    and above: "\<And>u h. u \<in> set (hs_uids hs) \<Longrightarrow> hs_previous hs = Some h \<Longrightarrow> h < u"
  shows "passed mb hs (next_highest sc (case hs_previous hs of None \<Rightarrow> 0 | Some h \<Rightarrow> h)) w"
  unfolding passed_def
proof (intro ballI impI)
  fix u assume u: "u \<in> set (hs_uids hs)" and le: "u \<le> next_highest sc (case hs_previous hs of None \<Rightarrow> 0 | Some h \<Rightarrow> h)"
  from i obtain K where K: "known K w" "settled_uid mb (hs_uid_validity hs) N sc K u" "sc_blocked sc \<noteq> Some 0"
    and new: "dom (map_of (sc_new sc)) \<subseteq> N"
    using u by (auto simp: imported_bodies_def)
  have "\<not> u \<le> (case hs_previous hs of None \<Rightarrow> 0 | Some h \<Rightarrow> h)"
    using above [OF u] zero u by (cases "hs_previous hs") (auto simp: not_le)
  moreover have "\<not> u \<le> b - 1" if "sc_blocked sc = Some b" "b \<le> u" for b
  proof -
    have "unat b \<noteq> 0" "unat (b - 1) = unat b - 1" using that K(3) by (auto simp: unat_eq_0 unat_minus_one)
    then show ?thesis using that(2) by (simp add: word_le_nat_alt)
  qed
  ultimately have "\<not> (\<exists>b. sc_blocked sc = Some b \<and> b \<le> u)"
    using le K(3) by (auto simp: next_highest_def le_max_iff_disj)
  then have "(mb, hs_uid_validity hs, u) \<in> K" using K(2) new by (auto simp: settled_uid_def)
  then show "\<exists>mid. held_at w mid (mb, hs_uid_validity hs, u)" by (rule known_held [OF K(1)])
qed

end
