(* ===== verification/Mailbox_Budget.thy ===== *)
theory Mailbox_Budget
  imports Mailbox_Safety Consumer_Dispatch
begin

text \<open>
  The budgets of a pull.  A new message is counted against them when its header is seen, by its declared
  size, and again by its actual size when its body has arrived; what is reserved in between, counted and
  left over never exceeds what the pull was given.
\<close>

section \<open>Reservations\<close>

definition open_uids :: "u64 set \<Rightarrow> mailbox_scan \<Rightarrow> u64 set" where
  "open_uids P sc = P \<inter> dom (map_of (sc_new sc))"

definition reserved :: "mailbox_scan \<Rightarrow> u64 \<Rightarrow> nat" where
  "reserved sc u = (case map_of (sc_new sc) u of None \<Rightarrow> 0 | Some e \<Rightarrow> unat (budget_size e))"

definition in_budget :: "pull_options \<Rightarrow> u64 set \<Rightarrow> mailbox_pull \<times> mailbox_scan \<Rightarrow> bool" where
  "in_budget opts P = (\<lambda>(mp, sc).
     mp_new mp + unat (mp_remaining_count mp) + card (open_uids P sc) \<le> unat (po_max_new opts)
     \<and> unat (mp_stored_bytes mp) + unat (mp_remaining_bytes mp) + sum (reserved sc) (open_uids P sc) \<le> unat (po_max_bytes opts))"

lemma finite_open [simp]: "finite (open_uids P sc)"
  by (simp add: open_uids_def finite_dom_map_of)

lemma in_budget_mono: "in_budget opts P st \<Longrightarrow> Q \<subseteq> P \<Longrightarrow> in_budget opts Q st"
proof (cases st)
  case (Pair mp sc)
  assume b: "in_budget opts P st" and "Q \<subseteq> P"
  then have "open_uids Q sc \<subseteq> open_uids P sc" by (auto simp: open_uids_def)
  then have "card (open_uids Q sc) \<le> card (open_uids P sc)" "sum (reserved sc) (open_uids Q sc) \<le> sum (reserved sc) (open_uids P sc)"
    by (simp_all add: card_mono sum_mono2)
  then show ?thesis using b by (simp add: in_budget_def Pair)
qed

lemma in_budget_marks [simp]:
  "in_budget opts P (over_budget mp, sc) = in_budget opts P (mp, sc)"
  "in_budget opts P (skip_mail r mb u mp, sc) = in_budget opts P (mp, sc)"
  "in_budget opts P (mp\<lparr>mp_flags := f\<rparr>, sc) = in_budget opts P (mp, sc)"
  "in_budget opts P (mp, block_cursor u sc) = in_budget opts P (mp, sc)"
  "in_budget opts P (mp, sc\<lparr>sc_highest := h\<rparr>) = in_budget opts P (mp, sc)"
  by (simp_all add: in_budget_def over_budget_def skip_mail_def block_cursor_def open_uids_def reserved_def [abs_def])

lemma in_budget_reserve:
  assumes b: "in_budget opts UNIV (mp, sc)" and room: "mp_remaining_count mp \<noteq> 0" "budget_size e \<le> mp_remaining_bytes mp"
  shows "in_budget opts UNIV (mp\<lparr>mp_remaining_count := mp_remaining_count mp - 1,
      mp_remaining_bytes := mp_remaining_bytes mp - budget_size e\<rparr>, sc\<lparr>sc_new := put (re_uid e) e (sc_new sc)\<rparr>)"
proof -
  let ?u = "re_uid e" and ?sc = "sc\<lparr>sc_new := put (re_uid e) e (sc_new sc)\<rparr>"
  let ?P = "open_uids UNIV sc"
  have P: "open_uids UNIV ?sc = insert ?u ?P" by (auto simp: open_uids_def)
  have count: "unat (mp_remaining_count mp - 1) = unat (mp_remaining_count mp) - 1" "unat (mp_remaining_count mp) \<noteq> 0"
    using room(1) by (auto simp: unat_minus_one unat_eq_0)
  have bytes: "unat (mp_remaining_bytes mp - budget_size e) = unat (mp_remaining_bytes mp) - unat (budget_size e)"
    "unat (budget_size e) \<le> unat (mp_remaining_bytes mp)"
    using room(2) by (simp_all add: unat_sub word_le_nat_alt)
  have "card (insert ?u ?P) \<le> Suc (card ?P)" by (rule card_insert_le_m1) simp_all
  moreover have "sum (reserved ?sc) (insert ?u ?P) \<le> unat (budget_size e) + sum (reserved sc) ?P"
  proof -
    have "sum (reserved ?sc) (insert ?u ?P) = reserved ?sc ?u + sum (reserved ?sc) (?P - {?u})"
      by (simp add: sum.insert_remove)
    also have "sum (reserved ?sc) (?P - {?u}) = sum (reserved sc) (?P - {?u})"
      by (rule sum.cong) (auto simp: reserved_def)
    also have "sum (reserved sc) (?P - {?u}) \<le> sum (reserved sc) ?P" by (rule sum_mono2) auto
    finally show ?thesis by (simp add: reserved_def)
  qed
  ultimately show ?thesis using b count bytes by (auto simp: in_budget_def P)
qed

abbreviation budgeted :: "pull_options \<Rightarrow> u64 set \<Rightarrow> mailbox_pull \<times> mailbox_scan \<Rightarrow> cworld \<Rightarrow> bool" where
  "budgeted opts P st \<equiv> \<lambda>_. in_budget opts P st \<and> distinct (map fst (sc_new (snd st)))"

lemma handle_envelope_budget: "ends (budgeted opts UNIV st) (handle_envelope env e st) (budgeted opts UNIV)"
proof (rule ends_pure)
  fix w st' w'
  assume b: "in_budget opts UNIV st \<and> distinct (map fst (sc_new (snd st)))" and r: "handle_envelope env e st w = (Done st', w')"
  obtain mp sc where st: "st = (mp, sc)" by (cases st)
  let ?sc = "sc\<lparr>sc_highest := max (sc_highest sc) (re_uid e)\<rparr>"
  have b': "in_budget opts UNIV (mp, ?sc)" "distinct (map fst (sc_new ?sc))" using b st by simp_all
  show "in_budget opts UNIV st' \<and> distinct (map fst (sc_new (snd st')))"
    using r b' in_budget_reserve [OF b'(1), of e] distinct_put [OF b'(2), of "re_uid e" e]
    by (auto simp: handle_envelope_def st bind_io_def gets_def ret_def Let_def not_less
        split: option.splits outcome.splits prod.splits if_splits)
qed


lemma skip_headers_budget:
  "in_budget opts P (fold (skip_header mb) us st) = in_budget opts P st"
  "sc_new (snd (fold (skip_header mb) us st)) = sc_new (snd st)"
  by (induction us arbitrary: st) (auto simp: skip_header_def case_prod_unfold in_budget_marks [of opts P "fst x" "snd x" for x, simplified])

lemma scan_budget:
  "ends (budgeted opts UNIV st) (fold_io (scan_batch env srv mb v) batches st) (budgeted opts UNIV)"
proof (rule hoare_fold)
  show "ends (budgeted opts UNIV st) (scan_batch env srv mb v batch st) (budgeted opts UNIV)" for batch st
    unfolding scan_batch_def case_prod_unfold
  proof (rule hoare_bind [OF ends_keeps])
    show "keeps (budgeted opts UNIV st) (fetch_header_batch srv mb v batch)"
      by (auto simp: hoare_def split: prod.split outcome.split)
    show "ends (budgeted opts UNIV st) (fold_io (handle_envelope env) (fst r) (fold (skip_header mb) (snd r) st)) (budgeted opts UNIV)" for r
      by (rule hoare_pre [OF hoare_fold [where I = "budgeted opts UNIV"]], rule handle_envelope_budget)
        (simp add: skip_headers_budget)
  qed
qed

section \<open>Bodies\<close>

lemma word_sum_le: "unat (x + y :: u64) \<le> unat x + unat y"
  by (simp add: unat_word_ariths)

text \<open>An import takes one from the count and the actual size from the bytes, or gives them back.\<close>

lemma import_remote_budget:
  "ends (\<lambda>_. True) (import_remote env t m actual mp) (\<lambda>mp' _.
     mp_new mp' + unat (mp_remaining_count mp') \<le> mp_new mp + unat (mp_remaining_count mp) + 1
     \<and> unat (mp_stored_bytes mp') + unat (mp_remaining_bytes mp') \<le> unat (mp_stored_bytes mp) + unat (mp_remaining_bytes mp) + unat actual)"
proof (rule ends_pure)
  fix w mp' w'
  assume r: "import_remote env t m actual mp w = (Done mp', w')"
  have one: "unat (mp_remaining_count mp + 1) \<le> unat (mp_remaining_count mp) + 1"
    using word_sum_le [of "mp_remaining_count mp" 1] by simp
  note sums = one word_sum_le [of "mp_remaining_bytes mp" actual] word_sum_le [of "mp_stored_bytes mp" actual]
  show "mp_new mp' + unat (mp_remaining_count mp') \<le> mp_new mp + unat (mp_remaining_count mp) + 1
     \<and> unat (mp_stored_bytes mp') + unat (mp_remaining_bytes mp') \<le> unat (mp_stored_bytes mp) + unat (mp_remaining_bytes mp) + unat actual"
    using r sums
    by (auto simp: import_remote_def bind_io_def then_io_def gets_def ret_def count_import_def Let_def
        split: outcome.splits prod.splits ingest_outcome.splits if_splits)
qed

lemma open_remove:
  assumes "u \<in> P" "map_of (sc_new sc) u = Some e"
  shows "card (open_uids P sc) = Suc (card (open_uids (P - {u}) sc))"
    "sum (reserved sc) (open_uids P sc) = unat (budget_size e) + sum (reserved sc) (open_uids (P - {u}) sc)"
proof -
  have "u \<in> open_uids P sc" "open_uids P sc - {u} = open_uids (P - {u}) sc" using assms by (auto simp: open_uids_def)
  then show "card (open_uids P sc) = Suc (card (open_uids (P - {u}) sc))"
    "sum (reserved sc) (open_uids P sc) = unat (budget_size e) + sum (reserved sc) (open_uids (P - {u}) sc)"
    using card.remove [of "open_uids P sc" u] sum.remove [of "open_uids P sc" u "reserved sc"] assms(2)
    by (simp_all add: reserved_def)
qed

lemma handle_remote_budget:
  assumes "rm_uid m \<in> P"
  shows "ends (\<lambda>_. in_budget opts P st) (handle_remote env t m st) (\<lambda>st' _. in_budget opts (P - {rm_uid m}) st')"
proof (rule ends_pure)
  fix w st' w'
  let ?u = "rm_uid m"
  assume b: "in_budget opts P st" and r: "handle_remote env t m st w = (Done st', w')"
  obtain mp sc where st: "st = (mp, sc)" by (cases st)
  show "in_budget opts (P - {?u}) st'"
  proof (cases "map_of (sc_new sc) ?u")
    case None
    then show ?thesis using r in_budget_mono [OF b] by (auto simp: handle_remote_def st ret_def)
  next
    case (Some e)
    let ?a = "byte_count (rm_raw m)" and ?r = "budget_size e"
    let ?rb = "if ?r < ?a then mp_remaining_bytes mp - (?a - ?r) else mp_remaining_bytes mp + (?r - ?a)"
    note o = open_remove [OF assms Some]
    show ?thesis
    proof (cases "?r < ?a \<and> mp_remaining_bytes mp < ?a - ?r")
      case True
      have "in_budget opts (P - {?u}) (mp, sc)" by (rule in_budget_mono [OF b [unfolded st]]) blast
      then show ?thesis using r True Some by (auto simp: handle_remote_def st ret_def Let_def)
    next
      case False
      from r False Some obtain mp' where imp: "import_remote env t m ?a (mp\<lparr>mp_remaining_bytes := ?rb\<rparr>) w = (Done mp', w')"
        and st': "st' = (mp', sc)"
        by (auto simp: handle_remote_def st ret_def Let_def bind_io_def split: outcome.splits prod.splits if_splits)
      have bytes: "unat ?rb + unat ?a \<le> unat (mp_remaining_bytes mp) + unat ?r"
      proof (cases "?r < ?a")
        case True
        have "unat (?a - ?r) = unat ?a - unat ?r" "unat ?r \<le> unat ?a"
          using True by (simp_all add: unat_sub word_le_nat_alt word_less_nat_alt)
        moreover have enough: "?a - ?r \<le> mp_remaining_bytes mp" using True False by (simp add: not_less)
        note unat_sub [OF enough] enough [unfolded word_le_nat_alt]
        ultimately show ?thesis using True by simp
      next
        case le: False
        have "unat (?r - ?a) = unat ?r - unat ?a" "unat ?a \<le> unat ?r"
          using le by (simp_all add: unat_sub word_le_nat_alt not_less)
        then show ?thesis using le word_sum_le [of "mp_remaining_bytes mp" "?r - ?a"] by simp
      qed
      have "mp_new mp' + unat (mp_remaining_count mp') \<le> mp_new mp + unat (mp_remaining_count mp) + 1"
        "unat (mp_stored_bytes mp') + unat (mp_remaining_bytes mp') \<le> unat (mp_stored_bytes mp) + unat ?rb + unat ?a"
        using hoareD_Done [OF import_remote_budget _ imp] by simp_all
      then show ?thesis using b bytes o by (simp add: in_budget_def st st')
    qed
  qed
qed


lemma skip_bodies_budget:
  "in_budget opts P (fold (skip_bodies mb) xs st) = in_budget opts P st"
  "sc_new (snd (fold (skip_bodies mb) xs st)) = sc_new (snd st)"
  by (induction xs arbitrary: st) (auto simp: skip_bodies_def case_prod_unfold in_budget_marks [of opts P "fst x" "snd x" for x, simplified])

text \<open>The messages of a batch have different UIDs.\<close>

definition answers_once :: "body_batch \<Rightarrow> bool" where
  "answers_once b \<longleftrightarrow> distinct (map rm_uid (bb_messages b)) \<and> rm_uid ` set (bb_messages b) \<subseteq> set (bb_answered b)"

lemma fetch_body_batch_once:
  "ends (\<lambda>_. True) (fetch_body_batch srv mb v uids) (\<lambda>b _. distinct (map rm_uid (bb_messages b)))"
proof -
  have one: "ends (\<lambda>_. answers_once b) (fetch_answered srv mb v uids x b) (\<lambda>b _. answers_once b)" for x b
  proof (rule ends_pure)
    fix w b' w'
    assume "answers_once b" "fetch_answered srv mb v uids x b w = (Done b', w')"
    then show "answers_once b'"
      by (cases x) (auto simp: fetch_answered_def answers_once_def skip_body_def bind_io_def ret_def Let_def
          image_subset_iff split: option.splits if_splits prod.splits outcome.splits)
  qed
  have all: "ends (\<lambda>_. answers_once b) (fold_io (fetch_answered srv mb v uids) sizes b) (\<lambda>b _. answers_once b)" for sizes b
    by (rule hoare_fold [where I = "\<lambda>b _. answers_once b"]) (rule one)
  show ?thesis
    unfolding fetch_body_batch_def
  proof (rule hoare_if, rule hoare_ret', simp, rule hoare_bind [OF ends_any hoare_bind [OF hoare_pre [OF all]]])
    show "ends (\<lambda>_. answers_once b) (ret (fold (skip_body ''body_missing'') us b)) (\<lambda>b _. distinct (map rm_uid (bb_messages b)))" for us b
      by (rule hoare_ret') (simp add: skip_rest answers_once_def)
  qed (simp add: answers_once_def)
qed

lemma import_batch_budget:
  assumes "set batch \<inter> L = {}"
  shows "ends (\<lambda>_. in_budget opts (set batch \<union> L) st) (import_batch env srv t v batch st) (\<lambda>st' _. in_budget opts L st')"
  unfolding import_batch_def
proof (rule hoare_bind [OF ends_both [OF ends_keeps ends_both [OF hoare_pre [OF fetch_body_batch_covers] hoare_pre [OF fetch_body_batch_once]]]])
  show "keeps (\<lambda>_. in_budget opts (set batch \<union> L) st) (fetch_body_batch srv (pt_mailbox t) v batch)"
    by (auto simp: hoare_def split: prod.split outcome.split)
  fix b
  let ?I = "\<lambda>(ms :: remote_message list) st (_ :: cworld). distinct (map rm_uid ms) \<and> rm_uid ` set ms \<inter> L = {} \<and> in_budget opts (rm_uid ` set ms \<union> L) st"
  have step: "ends (?I (m # ms) st) (handle_remote env t m st) (?I ms)" for m ms st
  proof (rule hoare_pre [where P' = "\<lambda>w. (distinct (map rm_uid (m # ms)) \<and> rm_uid ` set (m # ms) \<inter> L = {})
      \<and> in_budget opts (rm_uid ` set (m # ms) \<union> L) st"], rule hoare_pure_pre)
    assume pure: "distinct (map rm_uid (m # ms)) \<and> rm_uid ` set (m # ms) \<inter> L = {}"
    show "ends (\<lambda>_. in_budget opts (rm_uid ` set (m # ms) \<union> L) st) (handle_remote env t m st) (?I ms)"
    proof (rule hoare_weaken [OF handle_remote_budget])
      fix st' :: "mailbox_pull \<times> mailbox_scan"
      assume "in_budget opts ((rm_uid ` set (m # ms) \<union> L) - {rm_uid m}) st'"
      then have "in_budget opts (rm_uid ` set ms \<union> L) st'" by (rule in_budget_mono) (use pure in auto)
      then show "?I ms st' w" for w using pure by auto
    qed simp_all
  qed auto
  have fold: "ends (?I (bb_messages b) st) (fold_io (handle_remote env t) (bb_messages b) st) (?I [])" for st
    by (rule hoare_fold_rest [where I = ?I]) (rule step)
  show "ends (\<lambda>w. in_budget opts (set batch \<union> L) st \<and> (set batch \<subseteq> rm_uid ` set (bb_messages b) \<union> snd ` set (bb_skipped b)
     \<and> snd ` set (bb_skipped b) \<subseteq> set batch
     \<and> (\<forall>m \<in> set (bb_messages b). rm_mailbox m = pt_mailbox t \<and> rm_uid_validity m = v \<and> rm_uid m \<in> set batch)) \<and> distinct (map rm_uid (bb_messages b)))
     (fold_io (handle_remote env t) (bb_messages b) (fold (skip_bodies (pt_mailbox t)) (bb_skipped b) st)) (\<lambda>st' _. in_budget opts L st')"
    by (rule hoare_weaken [OF fold]) (use assms in \<open>auto simp: skip_bodies_budget elim!: in_budget_mono\<close>)
qed simp_all

lemma import_budget:
  assumes "distinct (concat batches)"
  shows "ends (\<lambda>_. in_budget opts (set (concat batches)) st) (fold_io (import_batch env srv t v) batches st) (\<lambda>st' _. in_budget opts {} st')"
proof -
  let ?I = "\<lambda>bs st (_ :: cworld). distinct (concat bs) \<and> in_budget opts (set (concat bs)) st"
  have step: "ends (?I (b # bs) st) (import_batch env srv t v b st) (?I bs)" for b bs st
  proof (rule hoare_pure_pre)
    assume d: "distinct (concat (b # bs))"
    show "ends (\<lambda>_. in_budget opts (set (concat (b # bs))) st) (import_batch env srv t v b st) (?I bs)"
      by (rule hoare_weaken [OF import_batch_budget [of b "set (concat bs)"]]) (use d in auto)
  qed
  have "ends (?I batches st) (fold_io (import_batch env srv t v) batches st) (?I [])"
    by (rule hoare_fold_rest [where I = ?I]) (rule step)
  then show ?thesis by (rule hoare_weaken) (use assms in auto)
qed

section \<open>A pull\<close>

definition left_over :: "pull_options \<Rightarrow> mailbox_pull \<Rightarrow> bool" where
  "left_over opts mp \<longleftrightarrow> mp_new mp + unat (mp_remaining_count mp) \<le> unat (po_max_new opts)
     \<and> unat (mp_stored_bytes mp) + unat (mp_remaining_bytes mp) \<le> unat (po_max_bytes opts)"

lemma left_over_scan: "in_budget opts {} (mp, sc) = left_over opts mp"
  by (simp add: in_budget_def left_over_def open_uids_def)

lemma pull_target_budget:
  "ends (\<lambda>_. left_over opts mp) (pull_mailbox env srv opts cursors t mp) (\<lambda>mp' _. left_over opts mp')"
  unfolding pull_mailbox_def Let_def case_prod_unfold
proof (rule hoare_bind [OF ends_keeps])
  show "keeps (\<lambda>_. left_over opts mp) (select_uids srv (pt_mailbox t) (effective_since_days opts) (pull_cursor_for_target cursors t))"
    by (auto simp: hoare_def split: prod.split outcome.split)
  fix hs
  let ?start = "(mp\<lparr>mp_reset := if hs_validity_reset hs then mp_reset mp @ [pt_id t] else mp_reset mp,
      mp_incremental := mp_incremental mp \<and> hs_cursor_used hs\<rparr>,
      \<lparr>sc_blocked = None, sc_highest = case hs_previous hs of None \<Rightarrow> 0 | Some h \<Rightarrow> h, sc_new = []\<rparr>)"
  have first: "ends (\<lambda>_. left_over opts mp) (fold_io (scan_batch env srv (pt_mailbox t) (hs_uid_validity hs))
      (chunks BODY_FETCH_BATCH_SIZE (hs_uids hs)) ?start) (budgeted opts UNIV)"
    by (rule hoare_pre [OF scan_budget]) (simp add: left_over_def in_budget_def open_uids_def)
  have n: "0 < BODY_FETCH_BATCH_SIZE" by (simp add: BODY_FETCH_BATCH_SIZE_def)
  have last: "ends (\<lambda>_. in_budget opts {} st2) (ret ((fst st2)\<lparr>mp_updates := us\<rparr>)) (\<lambda>mp' _. left_over opts mp')" for st2 us
    by (rule hoare_ret') (cases st2, simp add: left_over_scan, simp add: left_over_def)
  have second: "ends (budgeted opts UNIV st) (bind_io (fold_io (import_batch env srv t (hs_uid_validity hs))
      (chunks BODY_FETCH_BATCH_SIZE (sort (map fst (sc_new (snd st))))) st) (\<lambda>st2. ret ((fst st2)\<lparr>mp_updates := us st2\<rparr>)))
      (\<lambda>mp' _. left_over opts mp')" for st us
  proof (rule hoare_pre [where P' = "\<lambda>_. distinct (map fst (sc_new (snd st))) \<and> in_budget opts (set (map fst (sc_new (snd st)))) st"],
      rule hoare_pure_pre, rule hoare_bind [OF _ last])
    assume "distinct (map fst (sc_new (snd st)))"
    then show "ends (\<lambda>_. in_budget opts (set (map fst (sc_new (snd st)))) st) (fold_io (import_batch env srv t (hs_uid_validity hs))
      (chunks BODY_FETCH_BATCH_SIZE (sort (map fst (sc_new (snd st))))) st) (\<lambda>st' _. in_budget opts {} st')"
      using import_budget [of "chunks BODY_FETCH_BATCH_SIZE (sort (map fst (sc_new (snd st))))"] by (simp add: chunks_concat [OF n])
  qed (auto elim: in_budget_mono)
  show "ends (\<lambda>_. left_over opts mp) (bind_io (fold_io (scan_batch env srv (pt_mailbox t) (hs_uid_validity hs))
      (chunks BODY_FETCH_BATCH_SIZE (hs_uids hs)) ?start) (\<lambda>st.
     bind_io (fold_io (import_batch env srv t (hs_uid_validity hs)) (chunks BODY_FETCH_BATCH_SIZE (sort (map fst (sc_new (snd st))))) (fst st, snd st))
      (\<lambda>st2. ret ((fst st2)\<lparr>mp_updates := mp_updates (fst st2) @ [\<lparr>up_mailbox_id = pt_id t, up_mailbox_name = pt_mailbox t,
            up_uid_validity = hs_uid_validity hs, up_highest_uid = next_highest (snd st2) (case hs_previous hs of None \<Rightarrow> 0 | Some h \<Rightarrow> h)\<rparr>]\<rparr>))))
      (\<lambda>mp' _. left_over opts mp')"
    unfolding prod.collapse by (rule hoare_bind [OF first second])
qed

lemma pull_session_budget: "ends (\<lambda>_. True) (pull_session env srv opts targets) (\<lambda>mp _. left_over opts mp)"
  unfolding pull_session_def case_prod_unfold
proof (intro hoare_bind [OF ends_any] hoare_then [OF ends_any])
  show "ends (\<lambda>_. True) (fold_io (pull_mailbox env srv opts cursors) targets (start_mailbox_pull opts targets warning)) (\<lambda>mp _. left_over opts mp)"
    for cursors warning
    by (rule hoare_pre [OF hoare_fold [where I = "\<lambda>mp _. left_over opts mp"]], rule pull_target_budget)
      (simp add: left_over_def start_mailbox_pull_def)
qed

end
