(* ===== verification/Mailbox_Scenario.thy ===== *)
theory Mailbox_Scenario
  imports Mailbox_Pull Consumer_Scenario
begin

text \<open>
  Concrete pulls from a server with one mailbox: an old mail outside the default window, and a
  recent one.
\<close>

definition inbox_config :: mail_config where
  "inbox_config = \<lparr>mc_mailboxes = [(''inbox'', mailbox_config_name ''INBOX'')], mc_actions = default_actions\<rparr>"

text \<open>The mailbox holds the mail with UID 5, older than ninety days, and those of \<open>recent\<close>.\<close>

definition box_search :: "u64 list \<Rightarrow> search_query \<Rightarrow> u64 list" where
  "box_search recent q = (case q of
     UidAfter u \<Rightarrow> filter (\<lambda>x. u \<le> x) (5 # recent) | SinceDays _ \<Rightarrow> recent | AllMail \<Rightarrow> 5 # recent)"

definition box_raw :: "u64 \<Rightarrow> string" where
  "box_raw u = (if u = 5 then ''old'' else ''new'')"

text \<open>The bytes of a partial fetch: all that is left, when that is no more than requested.\<close>

definition section_of :: "int \<Rightarrow> int \<Rightarrow> string \<Rightarrow> string" where
  "section_of off n raw = (let rest = drop (nat off) raw in if size_of rest \<le> n then rest else take (nat n) rest)"

definition box_server :: "u64 list \<Rightarrow> imap_server" where
  "box_server recent = \<lparr>srv_login = \<lambda>_. Reply (), srv_list = \<lambda>_. Reply [], srv_examine = \<lambda>_ _. Reply (Some 7),
     srv_search = \<lambda>_ _ q. Reply (box_search recent q),
     srv_headers = \<lambda>_ _ us. Reply (map (\<lambda>u. \<lparr>ha_uid = Some u, ha_header = True, ha_flags = [], ha_size = Some 3\<rparr>) us),
     srv_sizes = \<lambda>_ _ us. Reply (map (\<lambda>u. (Some u, Some 3)) us),
     srv_full = \<lambda>_ _ _. Reply [],
     srv_partial = \<lambda>_ _ u off n. Reply [\<lparr>ba_uid = Some u, ba_flags = [], ba_body = Some (section_of off n (box_raw u))\<rparr>],
     srv_uids = \<lambda>_ _. Reply (map Some (5 # recent)), srv_random = \<lambda>_. Inr ''0'', srv_unbounded = False\<rparr>"

definition box_world :: cworld where
  "box_world = tick_world\<lparr>cw_bucket := []\<rparr>"

definition box_pull :: "u64 list \<Rightarrow> pull_options \<Rightarrow> cworld \<Rightarrow> cworld" where
  "box_pull recent opts w = snd (pull_mailboxes tick_env (box_server recent) inbox_config [] opts w)"

definition box_target :: pull_target where
  "box_target = \<lparr>pt_id = ''inbox'', pt_mailbox = ''INBOX'', pt_import_as = ''triage'', pt_direction = ''inbound''\<rparr>"

definition old_world :: cworld where
  "old_world = box_world\<lparr>cw_eml := [(''m_old'', ''old'')], cw_meta := [(''m_old'', \<lparr>md_remote = None, md_delivery = None\<rparr>)]\<rparr>"

end
