(* ===== verification/Mailbox_Laws.thy ===== *)
theory Mailbox_Laws
  imports Mailbox_Budget Mailbox_Scenario
begin

text \<open>
  The pull from mailboxes: the cursor passes no message that is not stored, the budgets hold for a
  whole pull, bodies come to an end, and a cursor file that cannot be read is kept.
\<close>

section \<open>The cursor\<close>

lemma pull_target_passed:
  assumes zero: "0 \<notin> set (hs_uids hs)" and above: "\<And>u h. u \<in> set (hs_uids hs) \<Longrightarrow> hs_previous hs = Some h \<Longrightarrow> h < u"
  shows "ends (known {}) (let previous = (case hs_previous hs of None \<Rightarrow> 0 | Some h \<Rightarrow> h);
         mp = mp0\<lparr>mp_reset := r, mp_incremental := i\<rparr>
     in bind_io (fold_io (scan_batch env srv (pt_mailbox t) (hs_uid_validity hs)) (chunks BODY_FETCH_BATCH_SIZE (hs_uids hs))
          (mp, \<lparr>sc_blocked = None, sc_highest = previous, sc_new = []\<rparr>)) (\<lambda>(mp1, sc1).
        bind_io (fold_io (import_batch env srv t (hs_uid_validity hs)) (chunks BODY_FETCH_BATCH_SIZE (sort (map fst (sc_new sc1))))
          (mp1, sc1)) (\<lambda>(mp2, sc2).
          ret (mp2\<lparr>mp_updates := mp_updates mp2 @ [\<lparr>up_mailbox_id = pt_id t, up_mailbox_name = pt_mailbox t,
            up_uid_validity = hs_uid_validity hs, up_highest_uid = next_highest sc2 previous\<rparr>]\<rparr>))))
     (\<lambda>mp w. up_uid_validity (last (mp_updates mp)) = hs_uid_validity hs
        \<and> passed (pt_mailbox t) hs (up_highest_uid (last (mp_updates mp))) w)"
  (is "ends _ _ ?Q")
proof -
  let ?mb = "pt_mailbox t" and ?v = "hs_uid_validity hs" and ?H = "set (hs_uids hs)"
  let ?previous = "case hs_previous hs of None \<Rightarrow> 0 | Some h \<Rightarrow> h"
  have second: "ends (scanned ?mb ?v ?H st)
     (bind_io (fold_io (import_batch env srv t ?v) (chunks BODY_FETCH_BATCH_SIZE (sort (map fst (sc_new (snd st))))) st) (\<lambda>st2.
          ret ((fst st2)\<lparr>mp_updates := mp_updates (fst st2) @ [\<lparr>up_mailbox_id = pt_id t, up_mailbox_name = ?mb,
            up_uid_validity = ?v, up_highest_uid = next_highest (snd st2) ?previous\<rparr>]\<rparr>))) ?Q" for st
  proof (cases "map_of (sc_new (snd st)) 0")
    case None
    let ?us = "sort (map fst (sc_new (snd st)))"
    have us: "0 \<notin> set ?us" "set ?us = dom (map_of (sc_new (snd st)))"
      using None by (auto simp: map_of_eq_None_iff dom_map_of_conv_image_fst)
    have start: "scanned ?mb ?v ?H st w \<Longrightarrow> imported_bodies ?mb ?v (set ?us) ?H {} st w" for w
      unfolding scanned_def imported_bodies_def us(2) settled_uid_def dealt_def by auto
    show ?thesis
    proof (rule hoare_bind [OF hoare_pre [OF import_rule [OF us(1) refl]]])
      fix st2
      show "ends (imported_bodies ?mb ?v (set ?us) ?H (set ?us) st2)
        (ret ((fst st2)\<lparr>mp_updates := mp_updates (fst st2) @ [\<lparr>up_mailbox_id = pt_id t, up_mailbox_name = ?mb,
            up_uid_validity = ?v, up_highest_uid = next_highest (snd st2) ?previous\<rparr>]\<rparr>)) ?Q"
        by (rule hoare_ret') (use imported_passed [of ?mb hs "set ?us" "fst st2" "snd st2", OF _ zero above] in simp)
    qed (rule start)
  qed (auto simp: scanned_def hoare_def)
  have first: "ends (known {}) (fold_io (scan_batch env srv ?mb ?v) (chunks BODY_FETCH_BATCH_SIZE (hs_uids hs))
      (mp0\<lparr>mp_reset := r, mp_incremental := i\<rparr>, \<lparr>sc_blocked = None, sc_highest = ?previous, sc_new = []\<rparr>)) (scanned ?mb ?v ?H)"
    by (rule hoare_pre [OF scan_rule [OF zero]]) (auto simp: scanned_def)
  show ?thesis
    unfolding Let_def case_prod_unfold prod.collapse by (rule hoare_bind [OF first second])
qed

lemma select_uids_view: "keeps (known K) (select_uids srv mailbox since cursor)"
  unfolding select_uids_def Let_def by (intro known.mail_rules)

lemma bind_done: "m w = (Done a, w1) \<Longrightarrow> bind_io m f w = f a w1"
  by (simp add: bind_io_def)

text \<open>Claim C11: The cursor of a mailbox never passes a message that is not stored.  When the pull of a
  mailbox returns, every message of the server's listing whose UID is not above the cursor it commits
  is in the workspace, with raw bytes and with metadata that names its place on the server: a message
  that was over a budget, too large, without header or without body keeps the cursor below it.\<close>

theorem cursor_never_passes_unstored_mail:
  assumes "located_in (cw_index w) w"
    and "select_uids srv (pt_mailbox t) (effective_since_days opts) (pull_cursor_for_target cursors t) w = (Done hs, w1)"
    and "0 \<notin> set (hs_uids hs)"
    and "pull_mailbox env srv opts cursors t mp w = (Done mp', w')"
  defines "u \<equiv> last (mp_updates mp')"
  shows "up_uid_validity u = hs_uid_validity hs \<and> passed (pt_mailbox t) hs (up_highest_uid u) w'"
proof -
  have "known {} w1"
    using hoareD_Done [OF select_uids_view [where K = "{}"] _ assms(2)] assms(1) by (simp add: known_def)
  moreover note assms(4) [unfolded pull_mailbox_def
    bind_done [where m = "select_uids srv (pt_mailbox t) (effective_since_days opts) (pull_cursor_for_target cursors t)", OF assms(2)]]
  ultimately show ?thesis
    unfolding u_def
    by (rule hoareD_Done [OF pull_target_passed, rotated 2])
      (use assms(3) select_uids_above [OF assms(2)] in blast)+
qed

theorem cursor_never_passes_unstored_mail_witness:
  "\<exists>hs w1 mp' w'. select_uids (box_server [9]) ''INBOX'' (Some 90) None box_world = (Done hs, w1)
    \<and> pull_mailbox tick_env (box_server [9]) default_pull_options [] box_target
        (start_mailbox_pull default_pull_options [box_target] None) box_world = (Done mp', w')
    \<and> hs_uids hs = [9] \<and> up_highest_uid (last (mp_updates mp')) = 9 \<and> passed ''INBOX'' hs 9 w'
    \<and> map_of (cw_eml w') ''m_new'' = Some ''new''"
proof -
  let ?mp = "start_mailbox_pull default_pull_options [box_target] None"
  have "case select_uids (box_server [9]) (pt_mailbox box_target) (effective_since_days default_pull_options)
      (pull_cursor_for_target [] box_target) box_world of (Done hs, w) \<Rightarrow> hs_uids hs = [9] | _ \<Rightarrow> False" by code_simp
  then obtain hs w1 where s: "select_uids (box_server [9]) (pt_mailbox box_target) (effective_since_days default_pull_options)
      (pull_cursor_for_target [] box_target) box_world = (Done hs, w1)" and hs: "hs_uids hs = [9]"
    by (auto split: prod.splits outcome.splits)
  have "case pull_mailbox tick_env (box_server [9]) default_pull_options [] box_target ?mp box_world of
      (Done mp', w') \<Rightarrow> up_highest_uid (last (mp_updates mp')) = 9 \<and> map_of (cw_eml w') ''m_new'' = Some ''new'' | _ \<Rightarrow> False" by code_simp
  then obtain mp' w' where p: "pull_mailbox tick_env (box_server [9]) default_pull_options [] box_target ?mp box_world = (Done mp', w')"
    and r: "up_highest_uid (last (mp_updates mp')) = 9" "map_of (cw_eml w') ''m_new'' = Some ''new''"
    by (auto split: prod.splits outcome.splits)
  have "located_in (cw_index box_world) box_world" by (simp add: box_world_def tick_world_def located_in_def empty_index_def)
  from cursor_never_passes_unstored_mail [OF this s _ p] hs r(1)
  have "passed ''INBOX'' hs 9 w'" by (simp add: box_target_def)
  moreover have "effective_since_days default_pull_options = Some 90" "pull_cursor_for_target [] box_target = None"
    "pt_mailbox box_target = ''INBOX''"
    by (simp_all add: effective_since_days_def default_pull_options_def DEFAULT_INITIAL_SINCE_DAYS_def pull_cursor_for_target_def box_target_def)
  ultimately show ?thesis using s p hs r by metis
qed

section \<open>Bodies\<close>

definition answers_bodies :: "imap_server \<Rightarrow> bool" where
  "answers_bodies srv \<longleftrightarrow> (\<forall>n mb u off len. srv_partial srv n mb u off len \<noteq> ReplyKilled) \<and> (\<forall>n mb u. srv_full srv n mb u \<noteq> ReplyKilled)"

text \<open>Every chunk but the last is as long as requested, so that a hundred and one reach the limit.\<close>

lemma fetch_chunks_ends:
  assumes "answers_bodies srv"
  shows "limit - size_of raw \<le> int n * CHUNK_BYTES \<Longrightarrow> n < fuel \<Longrightarrow>
    fst (fetch_chunks fuel srv mb u limit flags raw w) \<noteq> Killed"
proof (induction fuel arbitrary: n flags raw w)
  case (Suc fuel)
  let ?req = "min CHUNK_BYTES (limit - size_of raw)"
  have pos: "0 < CHUNK_BYTES" by (simp add: CHUNK_BYTES_def)
  have again: "fst (fetch_chunks fuel srv mb u limit flags' (raw @ body) w') \<noteq> Killed"
    if big: "\<not> limit \<le> size_of raw" "\<not> size_of body < ?req" for flags' body w'
  proof (cases n)
    case 0
    then show ?thesis using Suc.prems(1) big(1) by simp
  next
    case (Suc m)
    have room: "0 \<le> int m * CHUNK_BYTES" using pos by (intro mult_nonneg_nonneg) simp_all
    have "int n * CHUNK_BYTES = int m * CHUNK_BYTES + CHUNK_BYTES" by (simp add: Suc algebra_simps)
    moreover have "size_of (raw @ body) = size_of raw + size_of body" by (simp add: size_of_def)
    ultimately have "limit - size_of (raw @ body) \<le> int m * CHUNK_BYTES"
      using Suc.prems(1) big room by linarith
    then show ?thesis using Suc.IH Suc.prems(2) Suc by simp
  qed
  show ?case
    using assms again
    by (auto simp: answers_bodies_def bind_io_def cask_def ret_def Let_def split: reply.splits option.splits)
qed simp

text \<open>Claim C28: Fetching a body ends.  From a server that answers every request the fetch of a body in
  chunks returns, whatever the lengths of the answers: the chunks allowed for reach the size limit.\<close>

theorem body_fetch_ends:
  assumes "answers_bodies srv"
  shows "fst (fetch_body srv mailbox uid w) \<noteq> Killed"
proof (cases "srv_unbounded srv")
  case True
  then show ?thesis
    using assms by (auto simp: fetch_body_def fetch_full_body_def answers_bodies_def bind_io_def cask_def ret_def split: reply.split)
next
  case False
  then show ?thesis
    using fetch_chunks_ends [OF assms, of "max_message_bytes + 1" "[]" 101 chunk_fuel]
    by (simp add: fetch_body_def chunk_fuel_def max_message_bytes_def CHUNK_BYTES_def size_of_def)
qed

theorem body_fetch_ends_witness:
  "fst (fetch_body (box_server [9]) ''INBOX'' 9 box_world) \<noteq> Killed"
  by (rule body_fetch_ends) (simp add: answers_bodies_def box_server_def)

text \<open>The chunks of a server that sends what is asked for make up the body, up to one byte over the limit.\<close>

definition sends_body :: "imap_server \<Rightarrow> string \<Rightarrow> u64 \<Rightarrow> string list \<Rightarrow> string \<Rightarrow> bool" where
  "sends_body srv mailbox uid flags raw \<longleftrightarrow> (\<forall>n off len. srv_partial srv n mailbox uid off len =
     Reply [\<lparr>ba_uid = Some uid, ba_flags = flags, ba_body = Some (take (nat len) (drop (nat off) raw))\<rparr>])"

lemma fetch_chunks_sent:
  assumes s: "sends_body srv mb u flags body"
  shows "limit - int got \<le> int n * CHUNK_BYTES \<Longrightarrow> n < fuel \<Longrightarrow> got \<le> length body \<Longrightarrow> int got < limit \<Longrightarrow>
    \<exists>w'. fetch_chunks fuel srv mb u limit f (take got body) w = (Done (Some (canonical_flags flags, take (nat limit) body)), w')"
proof (induction fuel arbitrary: n got f w)
  case (Suc fuel)
  let ?req = "min CHUNK_BYTES (limit - int got)"
  let ?chunk = "take (nat ?req) (drop got body)"
  have pos: "0 < CHUNK_BYTES" by (simp add: CHUNK_BYTES_def)
  have len: "size_of (take got body) = int got" using Suc.prems(3) by (simp add: size_of_def)
  have req: "0 < ?req" using pos Suc.prems(4) by simp
  have all: "take got body @ ?chunk = take (got + nat ?req) body" by (simp add: take_add)
  have ans: "answer_for u [\<lparr>ba_uid = Some u, ba_flags = flags, ba_body = Some ?chunk\<rparr>] = Some (canonical_flags flags, ?chunk)"
    by (simp add: answer_for_def)
  have step: "fetch_chunks (Suc fuel) srv mb u limit f (take got body) w =
      (if size_of ?chunk < ?req then ret (Some (canonical_flags flags, take (got + nat ?req) body))
       else fetch_chunks fuel srv mb u limit (canonical_flags flags) (take (got + nat ?req) body)) (ctick w)"
    using s Suc.prems(4) by (simp add: len Let_def bind_io_def cask_def sends_body_def ans all)
  show ?case
  proof (cases "size_of ?chunk < ?req")
    case True
    then have "length body < got + nat ?req" using req by (auto simp: size_of_def min_def split: if_splits)
    moreover have "int got + ?req \<le> limit" by simp
    then have "got + nat ?req \<le> nat limit" using req by linarith
    ultimately have "take (got + nat ?req) body = take (nat limit) body" by simp
    then show ?thesis using True by (simp only: step if_True ret_def) blast
  next
    case False
    then have enough: "got + nat ?req \<le> length body" using req Suc.prems(3) by (auto simp: size_of_def min_def split: if_splits)
    show ?thesis
    proof (cases "?req = CHUNK_BYTES \<and> got + nat ?req < nat limit")
      case True
      obtain m where m: "n = Suc m" using Suc.prems(1,4) by (cases n) auto
      have "\<exists>w'. fetch_chunks fuel srv mb u limit (canonical_flags flags) (take (got + nat ?req) body) (ctick w)
          = (Done (Some (canonical_flags flags, take (nat limit) body)), w')"
        by (rule Suc.IH [of _ m]) (use Suc.prems(1,2) True pos enough in \<open>auto simp: m algebra_simps\<close>)
      then show ?thesis using False by (simp only: step if_False)
    next
      case whole: False
      then have full: "got + nat ?req = nat limit" using Suc.prems(4) by (auto simp: min_def split: if_splits)
      then have "limit \<le> size_of (take (got + nat ?req) body)" using enough by (simp add: size_of_def)
      moreover obtain g where "fuel = Suc g"
        using Suc.prems(1,2,4) by (cases fuel; cases n) auto
      ultimately have "fetch_chunks fuel srv mb u limit (canonical_flags flags) (take (got + nat ?req) body) (ctick w)
          = (Done (Some (canonical_flags flags, take (nat limit) body)), ctick w)"
        by (simp add: ret_def full)
      then show ?thesis using False by (simp only: step if_False) blast
    qed
  qed
qed simp

text \<open>Claim C27: The chunks of a body are the body.  If the server answers each partial fetch with the bytes
  asked for, as far as the body goes, the fetch in chunks returns the whole body, or its first bytes up
  to one over the size limit, by which the caller knows that it is too large.\<close>

theorem body_fetch_is_the_body:
  assumes "sends_body srv mailbox uid flags raw" "\<not> srv_unbounded srv"
  shows "\<exists>w'. fetch_body srv mailbox uid w = (Done (Some (canonical_flags flags, take (nat (max_message_bytes + 1)) raw)), w')"
  using fetch_chunks_sent [OF assms(1), of "max_message_bytes + 1" 0 101 chunk_fuel "[]" w] assms(2)
  by (simp add: fetch_body_def chunk_fuel_def max_message_bytes_def CHUNK_BYTES_def)

theorem body_fetch_is_the_body_witness:
  "\<exists>w'. fetch_body (box_server [9]\<lparr>srv_partial := \<lambda>_ _ u off len. Reply [\<lparr>ba_uid = Some u, ba_flags = [''seen''],
      ba_body = Some (take (nat len) (drop (nat off) ''a mail''))\<rparr>]\<rparr>) ''INBOX'' 9 box_world
    = (Done (Some (canonical_flags [''seen''], take (nat (max_message_bytes + 1)) ''a mail'')), w')"
  by (rule body_fetch_is_the_body) (simp_all add: sends_body_def box_server_def)

section \<open>Budgets\<close>

text \<open>Claim C12: A pull stays within its budgets.  However many mailboxes it reads, whatever sizes the server
  declares and whatever it sends, a pull that returns has stored no more messages and no more bytes than
  it was allowed, and what it reports as left is left.\<close>

theorem mailbox_pull_within_budget:
  assumes "pull_session env srv opts targets w = (Done mp, w')"
  shows "mp_new mp + unat (mp_remaining_count mp) \<le> unat (po_max_new opts)
    \<and> unat (mp_stored_bytes mp) + unat (mp_remaining_bytes mp) \<le> unat (po_max_bytes opts)"
  using hoareD_Done [OF pull_session_budget _ assms] by (simp add: left_over_def)

theorem mailbox_pull_within_budget_witness:
  "\<exists>mp w'. pull_session tick_env (box_server [9]) (default_pull_options\<lparr>po_max_new := 0\<rparr>) [box_target] box_world = (Done mp, w')
    \<and> mp_budget_skipped mp = 1 \<and> mp_new mp + unat (mp_remaining_count mp) \<le> unat (0 :: u64)"
proof -
  have "case pull_session tick_env (box_server [9]) (default_pull_options\<lparr>po_max_new := 0\<rparr>) [box_target] box_world of
      (Done mp, w') \<Rightarrow> mp_budget_skipped mp = 1 | _ \<Rightarrow> False" by code_simp
  then obtain mp w' where r: "pull_session tick_env (box_server [9]) (default_pull_options\<lparr>po_max_new := 0\<rparr>) [box_target] box_world = (Done mp, w')"
    and "mp_budget_skipped mp = 1" by (auto split: prod.splits outcome.splits)
  then show ?thesis using mailbox_pull_within_budget [OF r] by auto
qed

section \<open>The index and the cursor file\<close>

text \<open>Claim C26: The index names stored messages only.  Every place the index maps to a message is a place in
  the metadata of that message, whose raw bytes are in the workspace, and so is every content key's.\<close>

theorem index_names_stored_messages:
  assumes "load_index env w = (Done ix, w')"
  shows "located_in ix w'"
  using hoareD_Done [OF load_index_located _ assms] by simp

lemma hoare_snd:
  assumes "hoare P m (\<lambda>_. Q) (\<lambda>_. Q) Q" "P w"
  shows "Q (snd (m w))"
  using hoareD_Done [OF assms] hoareD_Fail [OF assms] hoareD_Killed [OF assms]
  by (cases "m w"; cases "fst (m w)") auto

theorem index_names_stored_messages_witness:
  "\<exists>ix w'. load_index tick_env old_world = (Done ix, w') \<and> map_of (ix_content ix) ''old'' = Some ''m_old'' \<and> located_in ix w'"
proof -
  let ?w = old_world
  have "case load_index tick_env ?w of (Done ix, w) \<Rightarrow> map_of (ix_content ix) ''old'' = Some ''m_old'' | _ \<Rightarrow> False" by code_simp
  then obtain ix w' where r: "load_index tick_env ?w = (Done ix, w')" and "map_of (ix_content ix) ''old'' = Some ''m_old''"
    by (auto split: prod.splits outcome.splits)
  then show ?thesis using index_names_stored_messages [OF r] r by blast
qed

abbreviation cursors_same :: "cworld \<Rightarrow> cworld \<Rightarrow> bool" where
  "cursors_same w v \<equiv> cw_cursors v = cw_cursors w \<and> cw_quarantine v = cw_quarantine w"

definition cursors_safe :: "cworld \<Rightarrow> cworld \<Rightarrow> bool" where
  "cursors_safe w v \<longleftrightarrow> cursors_same w v
     \<or> (\<exists>suffix. map_of (cw_quarantine w) suffix = None \<and> cw_cursors v = NoCursors
          \<and> cw_quarantine v = put suffix (cw_cursors w) (cw_quarantine w))"

lemma cursors_safe_same: "cursors_same w v \<Longrightarrow> cursors_safe w v"
  by (simp add: cursors_safe_def)

lemma cursors_read: "hoare (cursors_same w) (cread env c) (\<lambda>_. cursors_same w) (\<lambda>_. cursors_same w) (cursors_safe w)"
  by (auto simp: hoare_def cdisk_def ctick_def cursors_safe_def split: disk_event.splits)

lemma cursors_moved:
  "hoare (\<lambda>v. cursors_same w v \<and> (map_of (cw_quarantine v) nm \<noteq> None, cw_cursors v = NoCursors) = (taken, missing))
     (if taken then fail (err_quarantine_failed ''cursor quarantine path already exists'')
      else if missing then fail (err_quarantine_failed ''could not preserve the unreadable pull cursor'')
      else then_io (match_io (cdisk env ''rename'' (\<lambda>w. w\<lparr>cw_quarantine := put nm (cw_cursors w) (cw_quarantine w),
             cw_cursors := NoCursors\<rparr>)) ret
           (\<lambda>_. fail (err_quarantine_failed ''could not preserve the unreadable pull cursor'')))
        (ret ([], Some reason))) (\<lambda>_. cursors_safe w) (\<lambda>_. cursors_safe w) (cursors_safe w)"
proof (cases taken)
  case False
  have move: "hoare (\<lambda>v. cursors_same w v \<and> (map_of (cw_quarantine v) nm \<noteq> None, cw_cursors v = NoCursors) = (False, missing))
      (cdisk env ''rename'' (\<lambda>w. w\<lparr>cw_quarantine := put nm (cw_cursors w) (cw_quarantine w), cw_cursors := NoCursors\<rparr>))
      (\<lambda>_. cursors_safe w) (\<lambda>_. cursors_safe w) (cursors_safe w)"
    by (auto simp: hoare_def cdisk_def ctick_def cursors_safe_def split: disk_event.splits)
  show ?thesis
    by (simp only: False if_False)
      (rule hoare_if, rule hoare_fail', blast intro: cursors_safe_same, rule hoare_then [OF hoare_match [OF move]],
        rule hoare_ret, rule hoare_fail, rule hoare_ret)
qed (auto intro!: hoare_fail' cursors_safe_same)

lemma cursors_quarantined:
  "hoare (cursors_same w) (quarantine_cursors env srv reason) (\<lambda>_. cursors_safe w) (\<lambda>_. cursors_safe w) (cursors_safe w)"
proof -
  have ask: "hoare (cursors_same w) (cask_res rep) (\<lambda>_. cursors_same w) (\<lambda>_. cursors_safe w) (cursors_safe w)" for rep :: "nat \<Rightarrow> string res"
    by (auto simp: hoare_def cask_res_def cask_def ctick_def cursors_safe_def split: reply.splits)
  have inspect: "hoare (cursors_same w) (match_io (cread env ''inspect'') ret (\<lambda>_. fail e)) (\<lambda>_. cursors_same w) (\<lambda>_. cursors_safe w) (cursors_safe w)" for e
    by (rule hoare_match [OF cursors_read]) (auto intro!: hoare_ret' hoare_fail' cursors_safe_same)
  show ?thesis
    unfolding quarantine_cursors_def
    by (rule hoare_bind [OF ask hoare_then [OF inspect hoare_bind_gets]]) (unfold split_paired_all prod.case, rule cursors_moved)
qed

text \<open>Claim C25: A cursor file that cannot be used is never lost.  However loading the cursors ends, failed or
  killed, the file is where it was, or it has moved to a quarantine name that was free; no quarantined file
  is replaced.\<close>

theorem unreadable_cursors_kept:
  "let w' = snd (load_pull_cursors env srv w) in
     cw_cursors w' = cw_cursors w \<and> cw_quarantine w' = cw_quarantine w
     \<or> (\<exists>suffix. map_of (cw_quarantine w) suffix = None \<and> cw_cursors w' = NoCursors
          \<and> cw_quarantine w' = put suffix (cw_cursors w) (cw_quarantine w))"
proof -
  have "hoare (cursors_same w) (load_pull_cursors env srv) (\<lambda>_. cursors_safe w) (\<lambda>_. cursors_safe w) (cursors_safe w)"
    unfolding load_pull_cursors_def
  proof (rule hoare_match)
    show "hoare (cursors_same w) (then_io (cread env ''read cursors'') (gets cw_cursors)) (\<lambda>_. cursors_same w) (\<lambda>_. cursors_same w) (cursors_safe w)"
      by (rule hoare_then [OF cursors_read]) (auto simp: hoare_def gets_def)
    show "hoare (cursors_same w) (case read_cursors f of Inr cs \<Rightarrow> ret (cs, None) | Inl reason \<Rightarrow> quarantine_cursors env srv reason)
        (\<lambda>_. cursors_safe w) (\<lambda>_. cursors_safe w) (cursors_safe w)" for f
      by (cases "read_cursors f") (auto intro: hoare_ret' cursors_safe_same cursors_quarantined)
  qed (rule cursors_quarantined)
  from hoare_snd [OF this] show ?thesis by (simp add: cursors_safe_def Let_def)
qed

lemma chunks_Nil [simp]: "chunks n [] = []"
  by (simp add: chunks.simps)

text \<open>A first pull that finds no message in its window commits the cursor 0.  The next pull then asks for
  every message from UID 1 on, whatever its own window: the mail the window had left out is imported.\<close>

lemma empty_window_opens_history:
  assumes "select_uids srv (pt_mailbox t) (effective_since_days opts) (pull_cursor_for_target cursors t) w = (Done hs, w1)"
    and "hs_uids hs = []" "hs_previous hs = None"
    and "pull_mailbox env srv opts cursors t mp w = (Done mp', w')"
  shows "up_highest_uid (last (mp_updates mp')) = 0" "search_for (Some 0) since = Some (UidAfter 1)"
proof -
  show "up_highest_uid (last (mp_updates mp')) = 0"
    using assms(4) unfolding pull_mailbox_def
      bind_done [where m = "select_uids srv (pt_mailbox t) (effective_since_days opts) (pull_cursor_for_target cursors t)", OF assms(1)]
    by (auto simp: Let_def assms(2,3) bind_io_def ret_def next_highest_def)
qed (simp add: search_for_def MAX_UID_def)

text \<open>With a cursor the window does not matter, so that a pull of all history asks for later messages only.\<close>

lemma all_history_ignored_with_cursor:
  "select_uids srv mailbox since (Some c) w = select_uids srv mailbox since' (Some c) w"
proof -
  have "search_for (if v = x then Some h else None) (if v \<noteq> x then None else since)
      = search_for (if v = x then Some h else None) (if v \<noteq> x then None else since')" for v x h :: u64
    by (simp add: search_for_def)
  then show ?thesis by (cases c) (simp add: select_uids_def Let_def cong: if_cong)
qed

text \<open>The dry run lists inside the window, the pull from the cursor on: the count of the one is no bound for
  the other.\<close>

lemma dry_run_misses_candidates:
  "case estimate_session tick_env (box_server []) default_pull_options [box_target] box_world of
      (Done mp, _) \<Rightarrow> mp_remaining_count mp = po_max_new default_pull_options \<and> \<not> mp_limited mp | _ \<Rightarrow> False"
  "case select_uids (box_server []) ''INBOX'' (effective_since_days default_pull_options) (Some (7, 0)) box_world of
      (Done hs, _) \<Rightarrow> hs_uids hs = [5] | _ \<Rightarrow> False"
  by code_simp+

end
