(* ===== verification/Case_Types.thy ===== *)
theory Case_Types
  imports Push_Enqueue
begin

text \<open>
  The file of a case and its identity: the collection of messages (src/src/types/case_archive.rs),
  the checks every read and write of it makes and the uids of cases (src/src/store/util.rs).
  The slug of a name, the RFC 3339 check and the validity of a pair of suggestions are parameters.
\<close>

section \<open>Collections\<close>

record collection_item =
  ci_message_id :: string
  ci_summary :: "string option"
  ci_added :: string

record message_collection =
  co_schema_name :: string
  co_schema_version :: u64
  co_uid :: string
  co_name :: string
  co_status :: string
  co_tags :: "string list"
  co_created :: "string option"
  co_updated :: "string option"
  co_archived :: "string option"
  co_items :: "collection_item list"
  co_agent_suggestion :: "json option"
  co_human_suggestion :: "json option"

definition MESSAGE_COLLECTION_SCHEMA_VERSION :: u64 where
  "MESSAGE_COLLECTION_SCHEMA_VERSION = 2"

definition SUGGESTIBLE_COLLECTION_SCHEMA_VERSION :: u64 where
  "SUGGESTIBLE_COLLECTION_SCHEMA_VERSION = 3"

definition new_collection :: "string \<Rightarrow> string \<Rightarrow> string \<Rightarrow> message_collection" where
  "new_collection schema_name uid name =
     \<lparr>co_schema_name = schema_name, co_schema_version = MESSAGE_COLLECTION_SCHEMA_VERSION,
      co_uid = uid, co_name = name, co_status = [], co_tags = [], co_created = None,
      co_updated = None, co_archived = None, co_items = [],
      co_agent_suggestion = None, co_human_suggestion = None\<rparr>"

definition new_case :: "string \<Rightarrow> string \<Rightarrow> string \<Rightarrow> message_collection" where
  "new_case case_uid name t = (new_collection ''case'' case_uid name)
     \<lparr>co_schema_version := SUGGESTIBLE_COLLECTION_SCHEMA_VERSION, co_created := Some t, co_updated := Some t\<rparr>"

definition new_case_file :: "string \<Rightarrow> string \<Rightarrow> string \<Rightarrow> collection_item list \<Rightarrow> message_collection" where
  "new_case_file case_uid name t items = (new_case case_uid name t)\<lparr>co_items := items\<rparr>"

definition co_message_ids :: "message_collection \<Rightarrow> string list" where
  "co_message_ids co = map ci_message_id (co_items co)"

definition contains_message :: "message_collection \<Rightarrow> string \<Rightarrow> bool" where
  "contains_message co mid = list_ex (\<lambda>it. ci_message_id it = mid) (co_items co)"

text \<open>The first id that an earlier item already has.\<close>

fun duplicate_from :: "string list \<Rightarrow> string list \<Rightarrow> string option" where
  "duplicate_from seen [] = None"
| "duplicate_from seen (m # ms) = (if m \<in> set seen then Some m else duplicate_from (m # seen) ms)"

definition duplicate_message_id :: "message_collection \<Rightarrow> string option" where
  "duplicate_message_id co = duplicate_from [] (co_message_ids co)"

definition clean_summary :: "string option \<Rightarrow> string option" where
  "clean_summary s = (case s of None \<Rightarrow> None | Some v \<Rightarrow> if trim v = [] then None else Some (trim v))"

definition upsert_item :: "string \<Rightarrow> string option \<Rightarrow> string \<Rightarrow> message_collection \<Rightarrow> message_collection" where
  "upsert_item mid summary added co = (let s = clean_summary summary in
     if contains_message co mid
     then (if s = None then co else co\<lparr>co_items := update_first (\<lambda>it. ci_message_id it = mid) (\<lambda>it. it\<lparr>ci_summary := s\<rparr>) (co_items co)\<rparr>)
     else co\<lparr>co_items := co_items co @ [\<lparr>ci_message_id = mid, ci_summary = s, ci_added = added\<rparr>]\<rparr>)"

definition merge_items :: "collection_item list \<Rightarrow> message_collection \<Rightarrow> message_collection" where
  "merge_items items co = fold (\<lambda>it c. if contains_message c (ci_message_id it) then c
     else c\<lparr>co_items := co_items c @ [it]\<rparr>) items co"

text \<open>\<open>items.remove(position)\<close> of the first item with the id, and that item.\<close>

fun remove_first :: "string \<Rightarrow> collection_item list \<Rightarrow> (collection_item \<times> collection_item list) option" where
  "remove_first mid [] = None"
| "remove_first mid (it # its) = (if ci_message_id it = mid then Some (it, its)
     else map_option (\<lambda>(x, rest). (x, it # rest)) (remove_first mid its))"

definition remove_case_item :: "string \<Rightarrow> string \<Rightarrow> message_collection \<Rightarrow> (collection_item \<times> message_collection) option" where
  "remove_case_item t mid co = map_option (\<lambda>(it, rest). (it, co\<lparr>co_items := rest, co_updated := Some t\<rparr>))
     (remove_first mid (co_items co))"

definition merge_string :: "string \<Rightarrow> string list \<Rightarrow> string list" where
  "merge_string v vs = (if v \<in> set vs then vs else sort (vs @ [v]))"

section \<open>Identities\<close>

text \<open>What the case code asks of the libraries it uses, besides \<open>env\<close>.\<close>

record naming =
  na_slug :: "string \<Rightarrow> string"
  na_rfc3339 :: "string \<Rightarrow> bool"
  na_suggestions :: "json option \<Rightarrow> json option \<Rightarrow> unit res"

definition uid_shape :: "char \<Rightarrow> string \<Rightarrow> bool" where
  "uid_shape letter v = (12 \<le> length v \<and> v ! 0 = letter \<and> list_all is_ascii_digit (drop 1 v))"

definition validate_uid :: "string \<Rightarrow> string \<Rightarrow> char \<Rightarrow> unit res" where
  "validate_uid label v letter = require (uid_shape letter v)
     (app_error_new ''invalid_request'' (''invalid '' @ label @ '': expected '' @ [letter] @ ''YYYYMMDDNNN''))"

definition validate_case_uid :: "string \<Rightarrow> unit res" where
  "validate_case_uid v = validate_uid ''case_uid'' v (CHR ''c'')"

definition before_dash :: "string \<Rightarrow> string" where
  "before_dash v = takeWhile (\<lambda>c. c \<noteq> CHR ''-'') v"

definition parse_uid_ref :: "env \<Rightarrow> string \<Rightarrow> char \<Rightarrow> string \<Rightarrow> string res" where
  "parse_uid_ref env v letter label = bind_res (validate_id env label v) (\<lambda>_.
     if CHR ''-'' \<in> set v \<and> drop (Suc (length (before_dash v))) v = []
     then Inl (app_error_new ''invalid_request'' (''invalid '' @ label @ '': suffix must not be empty''))
     else if take 1 (before_dash v) \<noteq> [letter]
     then Inl (app_error_new ''invalid_request'' (''invalid '' @ label @ '': expected '' @ [letter] @ ''YYYYMMDDNNN''))
     else Inr (before_dash v))"

definition parse_case_ref :: "env \<Rightarrow> string \<Rightarrow> string res" where
  "parse_case_ref env v = bind_res (parse_uid_ref env v (CHR ''c'') ''case_ref'') (\<lambda>uid.
     bind_res (validate_case_uid uid) (\<lambda>_. Inr uid))"

definition case_dir_name :: "naming \<Rightarrow> string \<Rightarrow> string \<Rightarrow> string" where
  "case_dir_name na case_uid name = case_uid @ ''-'' @ na_slug na name"

definition validate_name :: "env \<Rightarrow> naming \<Rightarrow> string \<Rightarrow> string \<Rightarrow> unit res" where
  "validate_name env na label v = (if trim v = []
     then Inl (app_error_new ''invalid_request'' (''invalid '' @ label @ '': must not be empty''))
     else validate_id env label (na_slug na v))"

section \<open>The next uid of a day\<close>

definition digit_value :: "char \<Rightarrow> nat" where
  "digit_value c = of_char c - 48"

definition digits_value :: "string \<Rightarrow> nat" where
  "digits_value s = foldl (\<lambda>n c. 10 * n + digit_value c) 0 s"

text \<open>\<open>str::parse::<u64>\<close> of digits: an empty text and a number above the last \<open>u64\<close> are errors.\<close>

definition parse_u64 :: "string \<Rightarrow> u64 option" where
  "parse_u64 s = (if s \<noteq> [] \<and> list_all is_ascii_digit s \<and> digits_value s < 2 ^ 64
     then Some (of_nat (digits_value s)) else None)"

text \<open>\<open>{:03}\<close>: at least three digits.\<close>

definition pad3 :: "u64 \<Rightarrow> string" where
  "pad3 n = (let s = show_nat (unat n) in replicate (3 - length s) (CHR ''0'') @ s)"

definition uid_sequence :: "char \<Rightarrow> string \<Rightarrow> string \<Rightarrow> u64 option" where
  "uid_sequence letter date uid = (if uid_shape letter uid \<and> take 8 (drop 1 uid) = date
     then Some (case parse_u64 (drop 9 uid) of None \<Rightarrow> 0 | Some n \<Rightarrow> n) else None)"

definition next_uid_for_date :: "char \<Rightarrow> string \<Rightarrow> string list \<Rightarrow> string res" where
  "next_uid_for_date letter date existing =
     (if length date \<noteq> 8 \<or> \<not> list_all is_ascii_digit date
      then Inl (app_error_new ''invalid_request'' (''invalid UID date: '' @ date))
      else Inr (letter # date @ pad3 (fold max (List.map_filter (uid_sequence letter date) existing) 0 + 1)))"

section \<open>Checks of a case file\<close>

definition err_case_metadata :: "string \<Rightarrow> app_error" where
  "err_case_metadata what = app_error_new ''case_metadata_invalid'' what"

definition duplicate_tag :: "string list \<Rightarrow> bool" where
  "duplicate_tag tags = (duplicate_from [] tags \<noteq> None)"

definition item_content_ok :: "env \<Rightarrow> naming \<Rightarrow> collection_item \<Rightarrow> bool" where
  "item_content_ok env na it = (e_valid_segment env (ci_message_id it) \<and> na_rfc3339 na (ci_added it)
     \<and> (case ci_summary it of None \<Rightarrow> True | Some s \<Rightarrow> s \<noteq> [] \<and> trim s = s))"

definition time_ok :: "naming \<Rightarrow> string option \<Rightarrow> bool" where
  "time_ok na t = (case t of None \<Rightarrow> True | Some v \<Rightarrow> na_rfc3339 na v)"

text \<open>\<open>message_collection_content_issues(collection).is_empty()\<close>.\<close>

definition message_collection_content_ok :: "env \<Rightarrow> naming \<Rightarrow> message_collection \<Rightarrow> bool" where
  "message_collection_content_ok env na co = (validate_name env na ''collection_name'' (co_name co) = Inr ()
     \<and> time_ok na (co_created co) \<and> time_ok na (co_updated co) \<and> time_ok na (co_archived co)
     \<and> list_all (e_valid_segment env) (co_tags co) \<and> \<not> duplicate_tag (co_tags co)
     \<and> list_all (item_content_ok env na) (co_items co))"

definition validate_case_collection :: "env \<Rightarrow> naming \<Rightarrow> string \<Rightarrow> message_collection \<Rightarrow> unit res" where
  "validate_case_collection env na dir_name co =
     require (validate_case_uid (co_uid co) = Inr () \<and> parse_case_ref env dir_name = Inr (co_uid co)
         \<and> message_collection_content_ok env na co)
       (err_case_metadata (''invalid canonical case collection: '' @ dir_name))"

definition validate_case_membership :: "message_collection \<Rightarrow> unit res" where
  "validate_case_membership co = (case duplicate_message_id co of None \<Rightarrow> Inr ()
     | Some mid \<Rightarrow> Inl (err_case_metadata (''case '' @ co_uid co
         @ '' contains duplicate canonical membership for '' @ mid)))"

definition validate_case_status :: "message_collection \<Rightarrow> unit res" where
  "validate_case_status co = require
     (if co_status co = [] \<or> co_status co = ''archiving'' then co_archived co = None
      else if co_status co = ''archived'' then co_archived co \<noteq> None else False)
     (err_case_metadata (''case '' @ co_uid co @ '' has inconsistent canonical status''))"

text \<open>What \<open>read_case_file\<close> and \<open>write_case_file\<close> both check, in their order.\<close>

definition check_case_file :: "env \<Rightarrow> naming \<Rightarrow> string \<Rightarrow> message_collection \<Rightarrow> unit res" where
  "check_case_file env na dir_name co =
     bind_res (require (co_schema_name co = ''case'' \<and> co_schema_version co = SUGGESTIBLE_COLLECTION_SCHEMA_VERSION)
       (err_case_metadata ''invalid case metadata schema'')) (\<lambda>_.
     bind_res (validate_case_collection env na dir_name co) (\<lambda>_.
     bind_res (validate_case_membership co) (\<lambda>_.
     bind_res (validate_case_status co) (\<lambda>_.
     na_suggestions na (co_agent_suggestion co) (co_human_suggestion co)))))"

section \<open>Lemmas\<close>

lemma check_case_file_uid:
  "check_case_file env na d co = Inr () \<Longrightarrow> parse_case_ref env d = Inr (co_uid co)"
  by (auto simp: check_case_file_def bind_res_Inr_iff validate_case_collection_def)

lemma check_case_file_status:
  "check_case_file env na d co = Inr () \<Longrightarrow> co_status co \<in> {[], ''archiving'', ''archived''}"
  by (auto simp: check_case_file_def bind_res_Inr_iff validate_case_status_def split: if_splits)

lemma update_first_ids [simp]:
  "map ci_message_id (update_first P (\<lambda>it. it\<lparr>ci_summary := s\<rparr>) its) = map ci_message_id its"
  by (induction its) auto

lemma contains_ids: "contains_message co mid \<longleftrightarrow> mid \<in> set (co_message_ids co)"
  by (auto simp: contains_message_def co_message_ids_def list_ex_iff)

lemma upsert_ids: "set (co_message_ids (upsert_item mid s t co)) = insert mid (set (co_message_ids co))"
proof (cases "contains_message co mid")
  case True
  then have "mid \<in> set (co_message_ids co)" by (simp add: contains_ids)
  then show ?thesis using True by (simp add: upsert_item_def Let_def co_message_ids_def insert_absorb del: set_map flip: set_map)
qed (simp add: upsert_item_def Let_def co_message_ids_def)

lemma upsert_fields [simp]:
  "co_uid (upsert_item mid s t co) = co_uid co" "co_status (upsert_item mid s t co) = co_status co"
  by (simp_all add: upsert_item_def Let_def)

lemma merge_items_frame [simp]:
  "co_uid (merge_items items co) = co_uid co" "co_status (merge_items items co) = co_status co"
proof -
  have "co_uid (merge_items items co) = co_uid co \<and> co_status (merge_items items co) = co_status co"
    unfolding merge_items_def by (induction items arbitrary: co) auto
  then show "co_uid (merge_items items co) = co_uid co" "co_status (merge_items items co) = co_status co" by auto
qed

lemma merge_items_ids:
  "set (co_message_ids (merge_items items co)) = set (co_message_ids co) \<union> set (map ci_message_id items)"
  unfolding merge_items_def
proof (induction items arbitrary: co)
  case (Cons it items)
  then show ?case by (auto simp: contains_ids) (auto simp: co_message_ids_def)
qed simp

lemma digits_value_snoc: "digits_value (s @ [c]) = 10 * digits_value s + digit_value c"
  by (simp add: digits_value_def)

lemma digit_char: "n < 10 \<Longrightarrow> digit_value (char_of (48 + n)) = n \<and> is_ascii_digit (char_of (48 + n))"
  for n :: nat
proof -
  assume n: "n < 10"
  then have "\<forall>k \<in> set [0..<10]. digit_value (char_of (48 + k)) = k \<and> is_ascii_digit (char_of (48 + k))" by code_simp
  with n show ?thesis by simp
qed

lemma show_nat_digits: "show_nat n \<noteq> [] \<and> list_all is_ascii_digit (show_nat n) \<and> digits_value (show_nat n) = n"
proof (induction n rule: show_nat.induct)
  case (1 n)
  show ?case
  proof (cases "n < 10")
    case True
    then show ?thesis using digit_char [OF True] by (simp add: show_nat.simps [of n] digits_value_def)
  next
    case False
    have d: "digit_value (char_of (48 + n mod 10)) = n mod 10 \<and> is_ascii_digit (char_of (48 + n mod 10))"
      by (rule digit_char) simp
    show ?thesis using 1 [OF False] False d
      by (simp add: show_nat.simps [of n] digits_value_snoc)
  qed
qed

lemma digits_value_zeros: "digits_value (replicate k (CHR ''0'') @ s) = digits_value s"
proof (induction k)
  case (Suc k)
  have "digit_value (CHR ''0'') = 0" by code_simp
  then show ?case using Suc by (simp add: digits_value_def)
qed simp

lemma pad3_digits: "3 \<le> length (pad3 n) \<and> list_all is_ascii_digit (pad3 n) \<and> digits_value (pad3 n) = unat n"
proof -
  have z: "is_ascii_digit (CHR ''0'')" by code_simp
  then have "list_all is_ascii_digit (replicate k (CHR ''0''))" for k by (induction k) auto
  then show ?thesis using show_nat_digits [of "unat n"]
    by (auto simp: pad3_def Let_def digits_value_zeros)
qed

lemma parse_pad3: "parse_u64 (pad3 n) = Some n"
proof -
  have "unat n < 2 ^ 64" using unsigned_less [of n] by simp
  moreover have "pad3 n \<noteq> []" using pad3_digits [of n] by auto
  ultimately show ?thesis using pad3_digits [of n] by (auto simp: parse_u64_def)
qed

text \<open>A new uid has the shape of one and a sequence number one above the highest of its day.\<close>

lemma next_uid_shape:
  assumes "next_uid_for_date letter date existing = Inr uid"
  shows "uid_shape letter uid"
    and "uid_sequence letter date uid = Some (fold max (List.map_filter (uid_sequence letter date) existing) 0 + 1)"
proof -
  let ?n = "fold max (List.map_filter (uid_sequence letter date) existing) 0 + 1"
  have d: "length date = 8" "list_all is_ascii_digit date" and u: "uid = letter # date @ pad3 ?n"
    using assms by (auto simp: next_uid_for_date_def split: if_splits)
  show s: "uid_shape letter uid" using pad3_digits [of ?n] d by (auto simp: uid_shape_def u)
  have "drop 9 uid = pad3 ?n" using d by (simp add: u)
  moreover have "take 8 (drop 1 uid) = date" using d by (simp add: u)
  ultimately show "uid_sequence letter date uid = Some ?n" using s by (simp add: uid_sequence_def parse_pad3)
qed

lemma next_uid_fresh:
  assumes r: "next_uid_for_date letter date existing = Inr uid"
    and room: "\<And>u. u \<in> set existing \<Longrightarrow> uid_sequence letter date u \<noteq> Some (- 1)"
  shows "uid \<notin> set existing"
proof
  assume "uid \<in> set existing"
  let ?seqs = "List.map_filter (uid_sequence letter date) existing"
  let ?m = "fold max ?seqs 0"
  have seq: "uid_sequence letter date uid = Some (?m + 1)" using next_uid_shape(2) [OF r] .
  then have seen: "?m + 1 \<in> set ?seqs" using \<open>uid \<in> set existing\<close> by (force simp: map_filter_def image_iff)
  have mx: "?m = Max (insert 0 (set ?seqs))" using Max.set_eq_fold [of 0 ?seqs] by simp
  have le: "?m + 1 \<le> ?m" by (subst (2) mx, rule Max_ge) (use seen in auto)
  have "?m \<in> insert 0 (set ?seqs)" unfolding mx by (rule Max_in) auto
  moreover have "- 1 \<notin> set ?seqs" using room by (force simp: map_filter_def)
  ultimately have "?m \<noteq> - 1" by auto
  then have "1 + ?m \<noteq> 0" by (metis add.commute add_eq_0_iff)
  then have "?m < ?m + 1" by (simp add: word_less_nat_alt unatSuc add.commute [of ?m])
  then show False using le by simp
qed

end
