(* ===== verification/Case_Store.thy ===== *)
theory Case_Store
  imports Case_Types
begin

text \<open>
  The cases of a workspace on disk and what reads them: the directories under cases and
  archived-cases, their files, the entries, lookups and checks of src/src/store/cases.rs, the index of
  src/src/store/refs.rs and the overlay that decides the status of a message
  (src/src/store/messages.rs).  The queue, the messages and the audit log are those of \<open>world\<close>.
\<close>

section \<open>The state\<close>

datatype case_root = ActiveCases | ArchivedCases

text \<open>A case directory.\<close>

datatype case_key = CaseKey (key_root: case_root) (key_group: string) (key_name: string)

datatype case_text = CaseJson message_collection | NotJson

text \<open>\<open>data/case.json\<close>, \<open>notes.md\<close>, the names under \<open>files\<close> and the drafts; the views are generated.\<close>

record case_dir =
  cd_json :: "case_text option"
  cd_notes :: "string option"
  cd_files :: "string list"
  cd_drafts :: "(string \<times> draft_fields res) list"

definition empty_dir :: case_dir where
  "empty_dir = \<lparr>cd_json = None, cd_notes = None, cd_files = [], cd_drafts = []\<rparr>"

text \<open>A path relative to the workspace, as its components.\<close>

type_synonym rel = "string list"

record transaction_file =
  tx_kind :: string
  tx_created :: string
  tx_paths :: "rel list"

record request_record =
  rq_command :: string
  rq_input_hash :: string
  rq_status :: string
  rq_result :: "json option"

text \<open>\<open>kw_started\<close> lists the request ids whose operation was started, newest first.\<close>

record kworld =
  kw_mail :: world
  kw_dirs :: "(case_key \<times> case_dir) list"
  kw_tx :: "(string \<times> transaction_file) list"
  kw_requests :: "(string \<times> request_record) list"
  kw_started :: "string list"

text \<open>
  The environment: \<open>ke_overlays\<close> answers with the canonical dispositions (message, status) and
  notifications (message, uid); \<open>ke_other_references\<close> with the references to messages in push items
  and notifications; \<open>ke_json_first\<close> with the order in which the file system removes a directory.
\<close>

record kenv =
  ke_env :: env
  ke_naming :: naming
  ke_config :: "nat \<Rightarrow> mail_config res"
  ke_reason_required :: "nat \<Rightarrow> bool res"
  ke_overlays :: "nat \<Rightarrow> ((string \<times> string) list \<times> (string \<times> string) list) res"
  ke_origin :: "string \<Rightarrow> bool"
  ke_clear_disposition :: "nat \<Rightarrow> string \<Rightarrow> unit res"
  ke_set_disposition :: "nat \<Rightarrow> string \<Rightarrow> string \<Rightarrow> unit res"
  ke_related :: "nat \<Rightarrow> string \<Rightarrow> string list res"
  ke_message_date :: "nat \<Rightarrow> string \<Rightarrow> string res"
  ke_local_date :: "nat \<Rightarrow> string"
  ke_other_references :: "nat \<Rightarrow> string list \<Rightarrow> string list res"
  ke_json_first :: "nat \<Rightarrow> bool"
  ke_new_notes :: "string res"
  ke_merged_notes :: "string \<Rightarrow> string \<Rightarrow> string \<Rightarrow> string res"
  ke_hash :: "json \<Rightarrow> string res"

type_synonym 'a kcmd = "(kworld, 'a) io"

section \<open>Effects\<close>

definition ktick :: "kworld \<Rightarrow> kworld" where
  "ktick w = w\<lparr>kw_mail := tick (kw_mail w)\<rparr>"

definition kdisk :: "kenv \<Rightarrow> string \<Rightarrow> (kworld \<Rightarrow> kworld) \<Rightarrow> unit kcmd" where
  "kdisk env ctxt f = (\<lambda>w. case e_disk (ke_env env) (w_tick (kw_mail w)) of
     DiskOk \<Rightarrow> (Done (), f (ktick w))
   | DiskFail m \<Rightarrow> (Fail (app_error_io ctxt m), ktick w)
   | DiskFailAfter m \<Rightarrow> (Fail (app_error_io ctxt m), f (ktick w))
   | CrashBefore \<Rightarrow> (Killed, ktick w)
   | CrashAfter \<Rightarrow> (Killed, f (ktick w)))"

text \<open>A disk operation that changes none of the modelled files.\<close>

definition ktouch :: "kenv \<Rightarrow> string \<Rightarrow> unit kcmd" where
  "ktouch env ctxt = kdisk env ctxt id"

text \<open>A command of the mail part of the workspace.\<close>

definition in_mail :: "'a cmd \<Rightarrow> 'a kcmd" where
  "in_mail m = (\<lambda>w. case m (kw_mail w) of (r, v) \<Rightarrow> (r, w\<lparr>kw_mail := v\<rparr>))"

definition kask :: "(nat \<Rightarrow> 'a res) \<Rightarrow> 'a kcmd" where
  "kask rep = in_mail (ask_res rep)"

definition know :: "kenv \<Rightarrow> string kcmd" where
  "know env = in_mail (now (ke_env env))"

section \<open>Directories\<close>

definition root_name :: "case_root \<Rightarrow> string" where
  "root_name r = (case r of ActiveCases \<Rightarrow> ''cases'' | ArchivedCases \<Rightarrow> ''archived-cases'')"

definition key_path :: "case_key \<Rightarrow> rel" where
  "key_path k = [root_name (key_root k), key_group k, key_name k]"

definition show_rel :: "rel \<Rightarrow> string" where
  "show_rel p = (case p of [] \<Rightarrow> [] | x # xs \<Rightarrow> x @ concat (map (\<lambda>s. CHR ''/'' # s) xs))"

definition dir_at :: "case_key \<Rightarrow> kworld \<Rightarrow> case_dir" where
  "dir_at k w = (case map_of (kw_dirs w) k of None \<Rightarrow> empty_dir | Some d \<Rightarrow> d)"

definition dir_exists :: "case_key \<Rightarrow> kworld \<Rightarrow> bool" where
  "dir_exists k w = (map_of (kw_dirs w) k \<noteq> None)"

definition put_dir :: "case_key \<Rightarrow> (case_dir \<Rightarrow> case_dir) \<Rightarrow> kworld \<Rightarrow> kworld" where
  "put_dir k f w = w\<lparr>kw_dirs := put k (f (dir_at k w)) (kw_dirs w)\<rparr>"

definition drop_dir :: "case_key \<Rightarrow> kworld \<Rightarrow> kworld" where
  "drop_dir k w = w\<lparr>kw_dirs := remove k (kw_dirs w)\<rparr>"

definition move_dir :: "case_key \<Rightarrow> case_key \<Rightarrow> kworld \<Rightarrow> kworld" where
  "move_dir k k' w = put_dir k' (\<lambda>_. dir_at k w) (drop_dir k w)"

text \<open>\<open>remove_dir_all\<close>: the children in some order, then the directory.\<close>

definition remove_case_dir :: "kenv \<Rightarrow> case_key \<Rightarrow> unit kcmd" where
  "remove_case_dir env k = bind_io (gets (\<lambda>w. ke_json_first env (w_tick (kw_mail w)))) (\<lambda>json_first.
     then_io (if json_first then kdisk env ''remove directory'' (put_dir k (\<lambda>d. d\<lparr>cd_json := None\<rparr>))
       else kdisk env ''remove directory'' (put_dir k (\<lambda>d. d\<lparr>cd_notes := None, cd_files := [], cd_drafts := []\<rparr>)))
     (kdisk env ''remove directory'' (drop_dir k)))"

section \<open>The case file\<close>

definition err_no_such_file :: "string \<Rightarrow> app_error" where
  "err_no_such_file ctxt = app_error_io ctxt ''No such file or directory (os error 2)''"

definition read_case_file :: "kenv \<Rightarrow> case_key \<Rightarrow> message_collection kcmd" where
  "read_case_file env k = then_io (ktouch env ''read case metadata'')
     (bind_io (gets (\<lambda>w. cd_json (dir_at k w))) (\<lambda>text. case text of
        None \<Rightarrow> fail (err_no_such_file ''read case metadata'')
      | Some t \<Rightarrow> (case t of NotJson \<Rightarrow> fail (app_error_io ''parse case metadata'' ''invalid JSON'')
         | CaseJson co \<Rightarrow> then_io (of_res (check_case_file (ke_env env) (ke_naming env) (key_name k) co)) (ret co))))"

definition write_case_file :: "kenv \<Rightarrow> case_key \<Rightarrow> message_collection \<Rightarrow> unit kcmd" where
  "write_case_file env k co =
     then_io (of_res (check_case_file (ke_env env) (ke_naming env) (key_name k) co))
       (kdisk env ''write json'' (put_dir k (\<lambda>d. d\<lparr>cd_json := Some (CaseJson co)\<rparr>)))"

definition read_case_messages :: "kenv \<Rightarrow> case_key \<Rightarrow> string \<Rightarrow> message_collection kcmd" where
  "read_case_messages env k case_uid = bind_io (read_case_file env k) (\<lambda>co.
     if co_uid co = case_uid then ret co
     else fail (app_error_new ''case_messages_invalid'' (''invalid case uid in metadata: '' @ show_rel (key_path k))))"

definition case_name :: "kenv \<Rightarrow> case_key \<Rightarrow> string kcmd" where
  "case_name env k = bind_io (read_case_file env k) (\<lambda>co. ret (co_name co))"

definition update_case_name :: "kenv \<Rightarrow> case_key \<Rightarrow> string \<Rightarrow> unit kcmd" where
  "update_case_name env k name = bind_io (read_case_file env k) (\<lambda>co. bind_io (know env) (\<lambda>t.
     write_case_file env k (co\<lparr>co_name := name, co_updated := Some t\<rparr>)))"

definition archive_state :: "bool \<Rightarrow> string \<Rightarrow> message_collection \<Rightarrow> message_collection" where
  "archive_state archived t co = (if archived
     then co\<lparr>co_updated := Some t, co_status := ''archived'',
       co_archived := (case co_archived co of None \<Rightarrow> Some t | Some a \<Rightarrow> Some a)\<rparr>
     else co\<lparr>co_updated := Some t, co_status := [], co_archived := None\<rparr>)"

definition update_case_archive_state :: "kenv \<Rightarrow> case_key \<Rightarrow> bool \<Rightarrow> unit kcmd" where
  "update_case_archive_state env k archived = bind_io (read_case_file env k) (\<lambda>co. bind_io (know env) (\<lambda>t.
     write_case_file env k (archive_state archived t co)))"

definition update_case_archiving_state :: "kenv \<Rightarrow> case_key \<Rightarrow> unit kcmd" where
  "update_case_archiving_state env k = bind_io (read_case_file env k) (\<lambda>co. bind_io (know env) (\<lambda>t.
     write_case_file env k (co\<lparr>co_status := ''archiving'', co_archived := None, co_updated := Some t\<rparr>)))"

definition update_case_tags :: "kenv \<Rightarrow> case_key \<Rightarrow> string option \<Rightarrow> string option \<Rightarrow> string list kcmd" where
  "update_case_tags env k add rem = bind_io (read_case_file env k) (\<lambda>co.
     let tags = (case add of None \<Rightarrow> co_tags co | Some t \<Rightarrow> merge_string t (co_tags co));
         tags' = (case rem of None \<Rightarrow> tags | Some t \<Rightarrow> filter (\<lambda>x. x \<noteq> t) tags) in
     bind_io (know env) (\<lambda>t. then_io (write_case_file env k (co\<lparr>co_tags := tags', co_updated := Some t\<rparr>))
       (ret tags')))"

section \<open>Entries and lookups\<close>

definition keys_under :: "case_root \<Rightarrow> kworld \<Rightarrow> case_key list" where
  "keys_under r w = map fst (filter (\<lambda>(k, d). key_root k = r \<and> cd_json d \<noteq> None) (kw_dirs w))"

definition entries_under :: "kenv \<Rightarrow> case_root \<Rightarrow> string \<Rightarrow> (string \<times> case_key) list kcmd" where
  "entries_under env r ctxt = then_io (ktouch env ctxt) (bind_io (gets (keys_under r))
     (map_io (\<lambda>k. bind_io (read_case_file env k) (\<lambda>co. ret (co_uid co, k)))))"

definition case_entries :: "kenv \<Rightarrow> (string \<times> case_key) list kcmd" where
  "case_entries env = entries_under env ActiveCases ''read cases directory''"

text \<open>Sorted by group, then by uid.\<close>

definition archived_case_entries :: "kenv \<Rightarrow> (string \<times> case_key) list kcmd" where
  "archived_case_entries env = bind_io (entries_under env ArchivedCases ''read archived cases'') (\<lambda>es.
     ret (sort_key (\<lambda>e. key_group (snd e)) (sort_key fst es)))"

definition all_case_entries :: "kenv \<Rightarrow> (string \<times> case_key) list kcmd" where
  "all_case_entries env = bind_io (case_entries env) (\<lambda>es. bind_io (archived_case_entries env) (\<lambda>es'. ret (es @ es')))"

definition unique_entry :: "string \<Rightarrow> string \<Rightarrow> (string \<times> case_key) list \<Rightarrow> case_key option res" where
  "unique_entry what uid es = (case filter (\<lambda>e. fst e = uid) es of
     [] \<Rightarrow> Inr None | [e] \<Rightarrow> Inr (Some (snd e))
   | _ \<Rightarrow> Inl (app_error_new ''duplicate_case_uid'' (what @ uid)))"

definition find_case_by_uid :: "kenv \<Rightarrow> string \<Rightarrow> case_key option kcmd" where
  "find_case_by_uid env uid = then_io (of_res (validate_case_uid uid)) (bind_io (case_entries env) (\<lambda>es.
     of_res (unique_entry ''duplicate case uid found: '' uid es)))"

definition find_archived_case_by_uid :: "kenv \<Rightarrow> string \<Rightarrow> case_key option kcmd" where
  "find_archived_case_by_uid env uid = then_io (of_res (validate_case_uid uid)) (bind_io (archived_case_entries env) (\<lambda>es.
     of_res (unique_entry ''duplicate archived case uid found: '' uid es)))"

definition err_case_not_found :: "string \<Rightarrow> app_error" where
  "err_case_not_found uid = app_error_new ''case_not_found'' (''case not found: '' @ uid)"

definition err_case_archived :: "string \<Rightarrow> app_error" where
  "err_case_archived uid = app_error_new ''case_archived'' (''case '' @ uid @ '' is archived'')"

definition resolve_active_case :: "kenv \<Rightarrow> string \<Rightarrow> (string \<times> case_key) kcmd" where
  "resolve_active_case env case_ref = bind_io (of_res (parse_case_ref (ke_env env) case_ref)) (\<lambda>uid.
     bind_io (find_case_by_uid env uid) (\<lambda>a. case a of Some k \<Rightarrow> ret (uid, k)
     | None \<Rightarrow> bind_io (find_archived_case_by_uid env uid) (\<lambda>b. case b of
         Some _ \<Rightarrow> fail (err_case_archived uid) | None \<Rightarrow> fail (err_case_not_found uid))))"

text \<open>What the status of a case must be where it is stored.\<close>

definition status_fits :: "case_root \<Rightarrow> string \<Rightarrow> bool" where
  "status_fits r s = (case r of ActiveCases \<Rightarrow> s = [] | ArchivedCases \<Rightarrow> s = ''archiving'' \<or> s = ''archived'')"

definition check_status :: "case_key \<Rightarrow> message_collection \<Rightarrow> unit res" where
  "check_status k co = require (status_fits (key_root k) (co_status co))
     (err_case_metadata (''case '' @ co_uid co @ '' under '' @ root_name (key_root k) @ '' has invalid canonical status''))"

definition resolve_case_any :: "kenv \<Rightarrow> string \<Rightarrow> (string \<times> case_key \<times> string) kcmd" where
  "resolve_case_any env case_ref = bind_io (of_res (parse_case_ref (ke_env env) case_ref)) (\<lambda>uid.
     bind_io (find_case_by_uid env uid) (\<lambda>a. case a of
       Some k \<Rightarrow> bind_io (read_case_file env k) (\<lambda>co.
         then_io (of_res (check_status k co)) (ret (uid, k, co_status co)))
     | None \<Rightarrow> bind_io (find_archived_case_by_uid env uid) (\<lambda>b. case b of
         Some k \<Rightarrow> bind_io (read_case_file env k) (\<lambda>co.
           then_io (of_res (check_status k co)) (ret (uid, k, co_status co)))
       | None \<Rightarrow> fail (err_case_not_found uid))))"

definition resolve_unarchive_case :: "kenv \<Rightarrow> string \<Rightarrow> (string \<times> case_key \<times> string) kcmd" where
  "resolve_unarchive_case env case_ref = bind_io (of_res (parse_case_ref (ke_env env) case_ref)) (\<lambda>uid.
     bind_io (find_archived_case_by_uid env uid) (\<lambda>b. case b of
       Some k \<Rightarrow> bind_io (read_case_file env k) (\<lambda>co.
         then_io (of_res (check_status k co)) (ret (uid, k, co_status co)))
     | None \<Rightarrow> fail (app_error_new ''case_not_found'' (''archived case not found: '' @ uid))))"

definition next_case_uid :: "kenv \<Rightarrow> string \<Rightarrow> string kcmd" where
  "next_case_uid env date = bind_io (all_case_entries env) (\<lambda>es.
     of_res (next_uid_for_date (CHR ''c'') date (map fst es)))"

section \<open>The index of cases\<close>

record case_index_entry =
  ie_uid :: string
  ie_key :: case_key
  ie_status :: string
  ie_message_ids :: "string list"

definition index_entry :: "kenv \<Rightarrow> string \<times> case_key \<Rightarrow> case_index_entry kcmd" where
  "index_entry env e = (case e of (uid, k) \<Rightarrow> bind_io (read_case_messages env k uid) (\<lambda>co.
     then_io (of_res (check_status k co))
       (ret \<lparr>ie_uid = uid, ie_key = k, ie_status = co_status co, ie_message_ids = co_message_ids co\<rparr>)))"

definition build_case_index :: "kenv \<Rightarrow> case_index_entry list kcmd" where
  "build_case_index env = bind_io (case_entries env) (\<lambda>es. bind_io (map_io (index_entry env) es) (\<lambda>ix.
     bind_io (archived_case_entries env) (\<lambda>es'. bind_io (map_io (index_entry env) es') (\<lambda>ix'. ret (ix @ ix')))))"

definition has_any_reference :: "case_index_entry list \<Rightarrow> string \<Rightarrow> bool" where
  "has_any_reference ix mid = list_ex (\<lambda>e. mid \<in> set (ie_message_ids e)) ix"

definition has_active_reference :: "case_index_entry list \<Rightarrow> string \<Rightarrow> bool" where
  "has_active_reference ix mid = list_ex (\<lambda>e. mid \<in> set (ie_message_ids e) \<and> ie_status e = []) ix"

definition has_archived_reference :: "case_index_entry list \<Rightarrow> string \<Rightarrow> bool" where
  "has_archived_reference ix mid =
     list_ex (\<lambda>e. mid \<in> set (ie_message_ids e) \<and> status_fits ArchivedCases (ie_status e)) ix"

section \<open>Messages under the overlay\<close>

record overlay_index =
  ov_cases :: "case_index_entry list"
  ov_dispositions :: "(string \<times> string) list"
  ov_notifications :: "(string \<times> string) list"
  ov_items :: "push_item list"

definition materialized_overlay_index :: "kenv \<Rightarrow> overlay_index kcmd" where
  "materialized_overlay_index env = bind_io (in_mail (sorted_items (ke_env env))) (\<lambda>items.
     bind_io (kask (ke_overlays env)) (\<lambda>(dispositions, notifications).
     case List.find (\<lambda>d. map_of notifications (fst d) \<noteq> None) dispositions of
       Some d \<Rightarrow> fail (app_error_new ''message_state_invalid''
         (''message '' @ fst d @ '' is present in both a disposition and a notification''))
     | None \<Rightarrow> bind_io (build_case_index env) (\<lambda>ix.
         ret \<lparr>ov_cases = ix, ov_dispositions = dispositions, ov_notifications = notifications,
           ov_items = filter (\<lambda>it. case pi_local_stage it of None \<Rightarrow> True | Some s \<Rightarrow> s < PendingCleared) items\<rparr>)))"

definition overlay_status :: "kenv \<Rightarrow> overlay_index \<Rightarrow> string \<Rightarrow> string" where
  "overlay_status env ov mid = (case map_of (ov_dispositions ov) mid of Some s \<Rightarrow> s
     | None \<Rightarrow> if map_of (ov_notifications ov) mid \<noteq> None then ''notification''
       else if has_active_reference (ov_cases ov) mid then ''case''
       else if has_archived_reference (ov_cases ov) mid \<or> ke_origin env mid then ''archived''
       else ''triage'')"

definition overlay_pending :: "overlay_index \<Rightarrow> string \<Rightarrow> pending_push list" where
  "overlay_pending ov mid = sort_key pp_push_id (map (\<lambda>it. \<lparr>pp_push_id = pi_push_id it, pp_kind = display_kind it,
     pp_queued = pi_created it, pp_last_error = pi_last_error it\<rparr>)
     (filter (\<lambda>it. mid \<in> set (message_ids it)) (ov_items ov)))"

definition apply_overlays :: "kenv \<Rightarrow> overlay_index \<Rightarrow> string \<Rightarrow> message_file \<Rightarrow> message_file" where
  "apply_overlays env ov mid m = (let last = Option.bind (mf_push m) ps_last_completed; pending = overlay_pending ov mid in
     m\<lparr>mf_notification_uid := (if map_of (ov_dispositions ov) mid = None then map_of (ov_notifications ov) mid else None),
       mf_status := overlay_status env ov mid,
       mf_push := (if pending = [] \<and> last = None then None
         else Some \<lparr>ps_pending = pending, ps_last_completed = last\<rparr>)\<rparr>)"

definition read_message_overlaid :: "kenv \<Rightarrow> string \<Rightarrow> message_file kcmd" where
  "read_message_overlaid env mid = bind_io (materialized_overlay_index env) (\<lambda>ov.
     then_io (of_res (validate_id (ke_env env) ''message_id'' mid))
     (bind_io (in_mail (read_message_by_id (ke_env env) mid)) (\<lambda>m. ret (apply_overlays env ov mid m))))"

definition is_terminal_local :: "message_status \<Rightarrow> bool" where
  "is_terminal_local s = (s = StSpam \<or> s = StTrashed \<or> s = StDeletedRemote \<or> s = StPushQueued)"

definition triage_candidate :: "kenv \<Rightarrow> case_index_entry list \<Rightarrow> string \<Rightarrow> message_file \<Rightarrow> bool res" where
  "triage_candidate env ix mid m = bind_res (message_status_parse (mf_status m)) (\<lambda>s.
     Inr (\<not> is_terminal_local s \<and> mf_notification_uid m = None \<and> s \<noteq> StArchived \<and> \<not> ke_origin env mid
       \<and> \<not> has_any_reference ix mid))"

definition refresh_message_after_ref_change :: "kenv \<Rightarrow> string \<Rightarrow> unit kcmd" where
  "refresh_message_after_ref_change env mid =
     then_io (of_res (validate_id (ke_env env) ''message_id'' mid))
     (bind_io (read_message_overlaid env mid) (\<lambda>m.
      bind_io (build_case_index env) (\<lambda>ix. bind_io (materialized_overlay_index env) (\<lambda>ov.
      let m' = (apply_overlays env ov mid m)\<lparr>mf_remote_sync := None\<rparr> in
      then_io (in_mail (put_message (ke_env env) mid m'))
      (bind_io (of_res (triage_candidate env ix mid m')) (\<lambda>shown.
       ktouch env (if shown then ''write triage view'' else ''remove triage view'')))))))"

definition refresh_messages_after_ref_change :: "kenv \<Rightarrow> string list \<Rightarrow> unit kcmd" where
  "refresh_messages_after_ref_change env mids = for_io mids (refresh_message_after_ref_change env)"

definition refresh_case_message_views :: "kenv \<Rightarrow> case_key \<Rightarrow> unit kcmd" where
  "refresh_case_message_views env k = bind_io (gets (\<lambda>w. cd_json (dir_at k w) \<noteq> None)) (\<lambda>ex.
     when_io ex (bind_io (read_case_file env k) (\<lambda>co.
       then_io (ktouch env ''create directory'')
       (then_io (for_io (co_message_ids co) (\<lambda>mid. then_io (bind_io (read_message_overlaid env mid) (\<lambda>_. ret ()))
           (ktouch env ''write case message view'')))
        (ktouch env ''write case view'')))))"

definition require_workspace :: "kenv \<Rightarrow> unit kcmd" where
  "require_workspace env = ktouch env ''read workspace identity''"

definition checked_reason :: "kenv \<Rightarrow> string option \<Rightarrow> string option kcmd" where
  "checked_reason env reason = (let r = clean_summary reason in
     bind_io (kask (ke_reason_required env)) (\<lambda>required.
     if required \<and> r = None then fail (app_error_new ''reason_required'' ''add --reason to record why this mutation is needed'')
     else ret r))"

definition remove_empty_case_container_dir :: "kenv \<Rightarrow> unit kcmd" where
  "remove_empty_case_container_dir env = ktouch env ''remove empty case container directory''"

definition kaudit :: "kenv \<Rightarrow> string \<Rightarrow> (string \<times> string) list \<Rightarrow> unit kcmd" where
  "kaudit env kind targets = in_mail (append_audit_event (ke_env env) kind targets)"

end
