(* ===== verification/Case_Archive.thy ===== *)
theory Case_Archive
  imports Case_Store
begin

text \<open>
  Local transactions (src/src/store/transactions.rs), the references that keep a message from being
  archived remotely (src/src/store/remote_sync.rs), and archiving a case: the command, its completion
  after a push, its repair after an interruption, and its reversal (src/src/store/cases.rs).
\<close>

section \<open>Transactions\<close>

definition afmail_push_path :: rel where
  "afmail_push_path = [''.afmail'', ''push'']"

definition message_json_path :: "string \<Rightarrow> rel" where
  "message_json_path mid = [''messages'', mid @ ''.json'']"

text \<open>The clock has seconds only: two transactions of one kind in one second share the id.\<close>

definition unique_transaction_id :: "string \<Rightarrow> string \<Rightarrow> string" where
  "unique_transaction_id kind t = ''transaction_'' @ filter (\<lambda>c. c \<noteq> CHR '':'' \<and> c \<noteq> CHR ''-'') t
     @ ''_'' @ map (\<lambda>c. if c = CHR ''.'' then CHR ''_'' else c) kind"

definition begin_transaction :: "kenv \<Rightarrow> string \<Rightarrow> rel list \<Rightarrow> string kcmd" where
  "begin_transaction env kind paths =
     then_io (of_res (validate_id (ke_env env) ''transaction kind'' kind))
     (then_io (ktouch env ''create directory'')
     (bind_io (know env) (\<lambda>t. let tid = unique_transaction_id kind t in
      then_io (kdisk env ''write json'' (\<lambda>w. w\<lparr>kw_tx :=
        put tid \<lparr>tx_kind = kind, tx_created = t, tx_paths = paths\<rparr> (kw_tx w)\<rparr>)) (ret tid))))"

definition remove_transaction :: "kenv \<Rightarrow> string \<Rightarrow> unit kcmd" where
  "remove_transaction env tid = bind_io (gets (\<lambda>w. map_of (kw_tx w) tid \<noteq> None)) (\<lambda>ex.
     when_io ex (kdisk env ''remove file'' (\<lambda>w. w\<lparr>kw_tx := remove tid (kw_tx w)\<rparr>)))"

definition commit_transaction :: "kenv \<Rightarrow> string \<Rightarrow> unit kcmd" where
  "commit_transaction env tid = remove_transaction env tid"

definition ensure_no_incomplete_transactions :: "kenv \<Rightarrow> unit kcmd" where
  "ensure_no_incomplete_transactions env = then_io (ktouch env ''read transactions'')
     (bind_io (gets kw_tx) (\<lambda>txs. if txs = [] then ret ()
      else fail (app_error_new ''transaction_incomplete'' ''incomplete afmail transaction(s) detected'')))"

text \<open>The case that a path names two levels below a root.\<close>

definition case_uid_under :: "env \<Rightarrow> case_root \<Rightarrow> rel list \<Rightarrow> string option" where
  "case_uid_under env r paths = (case List.map_filter (\<lambda>p. case p of
       [a, g, name] \<Rightarrow> if a = root_name r
         then (case parse_case_ref env name of Inr uid \<Rightarrow> Some uid | Inl _ \<Rightarrow> None) else None
     | _ \<Rightarrow> None) paths of [] \<Rightarrow> None | uid # _ \<Rightarrow> Some uid)"

definition repairable_case_archive_uid :: "env \<Rightarrow> transaction_file \<Rightarrow> string option" where
  "repairable_case_archive_uid env tx = (if tx_kind tx \<noteq> ''case_archive'' then None
     else case case_uid_under env ActiveCases (tx_paths tx) of None \<Rightarrow> None
     | Some uid \<Rightarrow> if case_uid_under env ArchivedCases (tx_paths tx) = Some uid
         \<and> afmail_push_path \<in> set (tx_paths tx) then Some uid else None)"

section \<open>References to a message\<close>

fun json_strings :: "json \<Rightarrow> string list" where
  "json_strings (JStr s) = [s]"
| "json_strings (JArr vs) = concat (map json_strings vs)"
| "json_strings (JObj ms) = concat (map (\<lambda>m. json_strings (snd m)) ms)"
| "json_strings JNull = []"
| "json_strings (JBool _) = []"
| "json_strings (JNum _) = []"

definition opt_list :: "'a option \<Rightarrow> 'a list" where
  "opt_list x = (case x of None \<Rightarrow> [] | Some a \<Rightarrow> [a])"

text \<open>The string values of a case file as \<open>json_matching_ids\<close> walks them.\<close>

definition collection_strings :: "message_collection \<Rightarrow> string list" where
  "collection_strings co = [co_schema_name co, co_uid co, co_name co] @ (if co_status co = [] then [] else [co_status co])
     @ co_tags co @ opt_list (co_created co) @ opt_list (co_updated co) @ opt_list (co_archived co)
     @ concat (map (\<lambda>it. ci_message_id it # opt_list (ci_summary it) @ [ci_added it]) (co_items co))
     @ concat (map json_strings (opt_list (co_agent_suggestion co)))
     @ concat (map json_strings (opt_list (co_human_suggestion co)))"

definition case_json_rel :: "case_key \<Rightarrow> rel" where
  "case_json_rel k = key_path k @ [''data'', ''case.json'']"

definition read_case_value :: "kenv \<Rightarrow> case_key \<Rightarrow> message_collection kcmd" where
  "read_case_value env k = then_io (ktouch env ''read case metadata'')
     (bind_io (gets (\<lambda>w. cd_json (dir_at k w))) (\<lambda>text. case text of
        Some (CaseJson co) \<Rightarrow> ret co
      | Some NotJson \<Rightarrow> fail (app_error_io ''parse case metadata'' ''invalid JSON'')
      | None \<Rightarrow> fail (err_no_such_file ''read case metadata'')))"

definition case_json_reference :: "kenv \<Rightarrow> string list \<Rightarrow> case_key \<Rightarrow> string list kcmd" where
  "case_json_reference env mids k = bind_io (read_case_value env k) (\<lambda>co.
     ret (if list_ex (\<lambda>s. s \<in> set mids) (collection_strings co) then [show_rel (case_json_rel k)] else []))"

definition collect_active_case_references :: "kenv \<Rightarrow> string list \<Rightarrow> string list kcmd" where
  "collect_active_case_references env mids = bind_io (case_entries env) (\<lambda>es.
     bind_io (map_io (\<lambda>e. case_json_reference env mids (snd e)) es) (\<lambda>rs. ret (concat rs)))"

definition draft_references :: "string list \<Rightarrow> case_key \<Rightarrow> (string \<times> draft_fields res) list \<Rightarrow> string list res" where
  "draft_references mids k drafts = bind_res (map_res (\<lambda>(name, d). bind_res d (\<lambda>fm.
     Inr (case df_reply_to_message_id fm of Some mid \<Rightarrow> if mid \<in> set mids
         then [show_rel (key_path k @ [''drafts'', name])] else [] | None \<Rightarrow> []))) drafts) (\<lambda>rs. Inr (concat rs))"

definition collect_draft_references_except_case :: "kenv \<Rightarrow> string list \<Rightarrow> string option \<Rightarrow> string list kcmd" where
  "collect_draft_references_except_case env mids ignored = bind_io (all_case_entries env) (\<lambda>es.
     bind_io (map_io (\<lambda>(uid, k). if ignored = Some uid then ret []
       else then_io (ktouch env ''read drafts directory'')
         (bind_io (gets (\<lambda>w. cd_drafts (dir_at k w))) (\<lambda>ds. of_res (draft_references mids k ds)))) es)
     (\<lambda>rs. ret (concat rs)))"

definition push_references_except_case :: "string list \<Rightarrow> string option \<Rightarrow> push_item list \<Rightarrow> string list" where
  "push_references_except_case mids ignored items = concat (map (\<lambda>it.
     if (case item_message it of Some m \<Rightarrow> mp_action m = CaseAdd | None \<Rightarrow> False) then []
     else if ignored \<noteq> None \<and> map_option dp_case_uid (item_draft it) = ignored then []
     else if list_ex (\<lambda>mid. mid \<in> set mids) (message_ids it)
     then [show_rel (afmail_push_path @ [pi_push_id it @ ''.json''])] else []) items)"

text \<open>The blockers of a remote archive of a message; none means that it is eligible.\<close>

definition archive_eligibility_inner :: "kenv \<Rightarrow> string \<Rightarrow> string option \<Rightarrow> string list kcmd" where
  "archive_eligibility_inner env mid archiving =
     then_io (of_res (validate_id (ke_env env) ''message_id'' mid))
     (bind_io (read_message_overlaid env mid) (\<lambda>m. bind_io (build_case_index env) (\<lambda>ix.
      let own = (if mf_notification_uid m \<noteq> None \<or> mf_status m = ''archived'' \<or> has_archived_reference ix mid
          then [] else [''messages/'' @ mid @ ''.json:notification_uid'']) in
      bind_io (collect_active_case_references env [mid]) (\<lambda>active.
      bind_io (collect_draft_references_except_case env [mid] archiving) (\<lambda>drafts.
      bind_io (in_mail (read_items (ke_env env))) (\<lambda>items.
      ret (own @ active @ drafts @ push_references_except_case [mid] archiving items)))))))"

fun eligible_ids :: "kenv \<Rightarrow> string option \<Rightarrow> bool \<Rightarrow> string list \<Rightarrow> string list kcmd" where
  "eligible_ids env archiving record_state [] = ret []"
| "eligible_ids env archiving record_state (mid # mids) =
     bind_io (archive_eligibility_inner env mid archiving) (\<lambda>blockers.
     then_io (when_io record_state (in_mail (write_archive_sync_state (ke_env env) mid (blockers = []))))
     (bind_io (eligible_ids env archiving record_state mids) (\<lambda>rest.
      ret (if blockers = [] then mid # rest else rest))))"

definition message_locations_with_ids :: "kenv \<Rightarrow> string list \<Rightarrow> mailbox_id_location list kcmd" where
  "message_locations_with_ids env mids = bind_io (map_io (\<lambda>mid.
     then_io (of_res (validate_id (ke_env env) ''message_id'' mid))
     (bind_io (read_message_overlaid env mid) (\<lambda>m. ret (locations_with_mailbox_ids mid m)))) mids) (\<lambda>ls. ret (concat ls))"

definition preflight_archive_actions :: "kenv \<Rightarrow> string list \<Rightarrow> unit kcmd" where
  "preflight_archive_actions env mids = bind_io (kask (ke_config env)) (\<lambda>cfg.
     for_io mids (\<lambda>mid. bind_io (message_locations_with_ids env [mid]) (\<lambda>ls.
       then_io (of_res (resolve_archive_action cfg ls mid)) (ret ()))))"

definition preflight_archive_eligibility :: "kenv \<Rightarrow> string list \<Rightarrow> string option \<Rightarrow> unit kcmd" where
  "preflight_archive_eligibility env mids archiving =
     bind_io (eligible_ids env archiving False mids) (preflight_archive_actions env)"

definition remove_case_add_push :: "kenv \<Rightarrow> string \<Rightarrow> unit kcmd" where
  "remove_case_add_push env mid =
     bind_io (in_mail (remove_pending_message_pushes (ke_env env) mid (action_kind CaseAdd))) (\<lambda>ids.
     in_mail (clear_message_pending_pushes (ke_env env) mid ids False))"

definition queue_archive_plan :: "kenv \<Rightarrow> string \<times> push_location list \<times> action_step list \<Rightarrow> push_item list kcmd" where
  "queue_archive_plan env pl = (case pl of (mid, ls, steps) \<Rightarrow>
     bind_io (in_mail (queue_action_steps (ke_env env) ''message.notification'' [mid] ls steps None)) (\<lambda>it.
     case it of None \<Rightarrow> ret []
     | Some item \<Rightarrow> then_io (in_mail (record_pending_push_item (ke_env env) item)) (ret [item])))"

record archive_queue =
  aq_eligible_message_ids :: "string list"
  aq_location_count :: nat
  aq_queued_location_count :: nat
  aq_items :: "push_item list"

definition queue_archive_for_archived_messages :: "kenv \<Rightarrow> string list \<Rightarrow> string option \<Rightarrow> archive_queue kcmd" where
  "queue_archive_for_archived_messages env mids archiving =
     bind_io (eligible_ids env archiving True mids) (\<lambda>eligible.
     if eligible = [] then ret \<lparr>aq_eligible_message_ids = [], aq_location_count = 0, aq_queued_location_count = 0, aq_items = []\<rparr>
     else bind_io (kask (ke_config env)) (\<lambda>cfg. bind_io (message_locations_with_ids env eligible) (\<lambda>ls.
       bind_io (map_io (\<lambda>mid. bind_io (of_res (resolve_archive_action cfg
           (filter (\<lambda>l. loc_message_id (snd l) = mid) ls) mid)) (\<lambda>(sel, steps).
           ret (if sel \<noteq> [] \<and> steps \<noteq> [] then [(mid, sel, steps)] else []))) eligible) (\<lambda>plans.
       then_io (for_io eligible (remove_case_add_push env))
       (bind_io (map_io (queue_archive_plan env) (concat plans)) (\<lambda>items.
        ret \<lparr>aq_eligible_message_ids = eligible, aq_location_count = length ls,
          aq_queued_location_count = sum_list (map (\<lambda>pl. length (fst (snd pl))) (concat plans)),
          aq_items = concat items\<rparr>))))))"

section \<open>Drafts and pushes of a case\<close>

definition local_draft_names :: "kenv \<Rightarrow> case_key \<Rightarrow> string list kcmd" where
  "local_draft_names env k = then_io (ktouch env ''read drafts'')
     (gets (\<lambda>w. sort (map fst (cd_drafts (dir_at k w)))))"

definition outbound_pushes_for_case :: "kenv \<Rightarrow> string \<Rightarrow> push_item list kcmd" where
  "outbound_pushes_for_case env case_uid = bind_io (in_mail (read_items (ke_env env))) (\<lambda>items.
     ret (sort_key pi_push_id (filter (\<lambda>it. map_option dp_case_uid (item_draft it) = Some case_uid) items)))"

definition err_case_has_local_drafts :: "string \<Rightarrow> app_error" where
  "err_case_has_local_drafts uid = app_error_new ''case_has_local_drafts'' (''case '' @ uid @ '' has local drafts'')"

definition ensure_case_has_no_local_drafts :: "kenv \<Rightarrow> string \<Rightarrow> case_key \<Rightarrow> unit kcmd" where
  "ensure_case_has_no_local_drafts env uid k = bind_io (local_draft_names env k) (\<lambda>ds.
     if ds = [] then ret () else fail (err_case_has_local_drafts uid))"

definition ensure_case_has_no_outbound_push :: "kenv \<Rightarrow> string \<Rightarrow> unit kcmd" where
  "ensure_case_has_no_outbound_push env uid = bind_io (outbound_pushes_for_case env uid) (\<lambda>its.
     if its = [] then ret () else fail (app_error_new ''case_has_outbound_push''
       (''case '' @ uid @ '' has queued outbound push items'')))"

definition draft_blocks_archive :: "string list \<Rightarrow> string \<times> draft_fields res \<Rightarrow> bool" where
  "draft_blocks_archive queued d = (fst d \<notin> set queued
     \<or> (case snd d of Inl _ \<Rightarrow> True | Inr fm \<Rightarrow> df_sync_intent fm \<noteq> Some (intent_of_action Send)))"

definition ensure_case_drafts_can_archive :: "kenv \<Rightarrow> string \<Rightarrow> case_key \<Rightarrow> unit kcmd" where
  "ensure_case_drafts_can_archive env uid k = bind_io (local_draft_names env k) (\<lambda>names.
     if names = [] then ret ()
     else bind_io (outbound_pushes_for_case env uid) (\<lambda>pushes.
       let queued = map dp_draft_name (List.map_filter item_draft pushes) in
       then_io (ktouch env ''read archive draft'')
       (bind_io (gets (\<lambda>w. cd_drafts (dir_at k w))) (\<lambda>ds.
        if list_ex (draft_blocks_archive queued) ds then fail (err_case_has_local_drafts uid) else ret ()))))"

fun any_io :: "'a list \<Rightarrow> ('a \<Rightarrow> ('s, bool) io) \<Rightarrow> ('s, bool) io" where
  "any_io [] f = ret False"
| "any_io (x # xs) f = bind_io (f x) (\<lambda>b. if b then ret True else any_io xs f)"

definition case_has_pending_archive_work :: "kenv \<Rightarrow> string \<Rightarrow> string list \<Rightarrow> bool kcmd" where
  "case_has_pending_archive_work env uid mids =
     bind_io (in_mail (read_items (ke_env env))) (\<lambda>items.
     if list_ex (\<lambda>it. map_option dp_case_uid (item_draft it) = Some uid) items then ret True
     else any_io mids (\<lambda>mid. bind_io (read_message_overlaid env mid) (\<lambda>m.
       ret (case mf_push m of None \<Rightarrow> False
         | Some s \<Rightarrow> list_ex (\<lambda>p. pp_kind p = ''message.notification'') (ps_pending s)))))"

section \<open>Archiving\<close>

definition move_active_case_workspace :: "kenv \<Rightarrow> string \<Rightarrow> case_key \<Rightarrow> case_key kcmd" where
  "move_active_case_workspace env uid k = then_io (of_res (validate_case_uid uid))
     (then_io (of_res (validate_id (ke_env env) ''group'' (key_group k)))
     (let target = CaseKey ArchivedCases (key_group k) (key_name k) in
      bind_io (gets (dir_exists target)) (\<lambda>ex.
      if ex then fail (app_error_new ''case_exists'' (''target case already exists: '' @ show_rel (key_path target)))
      else then_io (ktouch env ''create directory'')
        (then_io (kdisk env ''archive case'' (move_dir k target))
        (then_io (update_case_archive_state env target True)
        (then_io (remove_empty_case_container_dir env) (ret target)))))))"

definition complete_case_archive_workspace ::
  "kenv \<Rightarrow> string \<Rightarrow> case_key \<Rightarrow> string list \<Rightarrow> (archive_queue \<times> string) kcmd" where
  "complete_case_archive_workspace env uid target mids =
     then_io (refresh_messages_after_ref_change env mids)
     (then_io (refresh_case_message_views env target)
     (bind_io (queue_archive_for_archived_messages env mids (Some uid)) (\<lambda>queue.
      bind_io (case_has_pending_archive_work env uid mids) (\<lambda>pending.
      if pending then then_io (update_case_archiving_state env target) (ret (queue, ''archiving''))
      else then_io (update_case_archive_state env target True) (ret (queue, ''archived''))))))"

definition archive_paths :: "string \<Rightarrow> case_key \<Rightarrow> rel list" where
  "archive_paths uid k = [key_path k, [root_name ArchivedCases, ''*'', uid], afmail_push_path]"

definition archive_case :: "kenv \<Rightarrow> string \<Rightarrow> string option \<Rightarrow> json kcmd" where
  "archive_case env case_ref reason = then_io (require_workspace env)
     (bind_io (checked_reason env reason) (\<lambda>_.
      bind_io (resolve_active_case env case_ref) (\<lambda>(uid, k).
      bind_io (read_case_messages env k uid) (\<lambda>co.
      let mids = co_message_ids co in
      then_io (ensure_case_drafts_can_archive env uid k)
      (then_io (preflight_archive_eligibility env mids (Some uid))
      (bind_io (begin_transaction env ''case_archive'' (archive_paths uid k)) (\<lambda>tid.
       bind_io (move_active_case_workspace env uid k) (\<lambda>target.
       bind_io (complete_case_archive_workspace env uid target mids) (\<lambda>(queue, status).
       then_io (commit_transaction env tid)
       (then_io (kaudit env (if status = ''archived'' then ''case_archived'' else ''case_archiving'') [(''case'', uid)])
       (ret (JObj [(''status'', JStr status), (''case_uid'', JStr uid),
          (''message_count'', JNum (int (length (co_items co)))),
          (''eligible_message_ids'', JArr (map JStr (aq_eligible_message_ids queue))),
          (''location_count'', JNum (int (aq_location_count queue))),
          (''queued_location_count'', JNum (int (aq_queued_location_count queue))),
          (''queued'', JBool (aq_items queue \<noteq> [])),
          (''push_ids'', JArr (map (\<lambda>it. JStr (pi_push_id it)) (aq_items queue))),
          (''push_id'', case aq_items queue of [] \<Rightarrow> JNull | it # _ \<Rightarrow> JStr (pi_push_id it)),
          (''from_path'', JStr (show_rel (key_path k))), (''case_path'', JStr (show_rel (key_path target)))]))))))))))))"

definition recover_case_archive_transaction :: "kenv \<Rightarrow> string \<Rightarrow> unit kcmd" where
  "recover_case_archive_transaction env uid = bind_io (find_case_by_uid env uid) (\<lambda>active. case active of
     Some _ \<Rightarrow> ret ()
   | None \<Rightarrow> bind_io (find_archived_case_by_uid env uid) (\<lambda>archived. case archived of
       None \<Rightarrow> fail (app_error_new ''transaction_incomplete''
         (''cannot repair case archive transaction: case '' @ uid @ '' is neither active nor archived''))
     | Some k \<Rightarrow> bind_io (read_case_messages env k uid) (\<lambda>co.
         then_io (update_case_archive_state env k True)
         (then_io (complete_case_archive_workspace env uid k (co_message_ids co)) (ret ())))))"

definition finalize_archiving_case :: "kenv \<Rightarrow> string \<times> case_key \<Rightarrow> unit kcmd" where
  "finalize_archiving_case env e = (case e of (uid, k) \<Rightarrow> bind_io (read_case_file env k) (\<lambda>co.
     if co_status co \<noteq> ''archiving'' then ret ()
     else bind_io (case_has_pending_archive_work env uid (co_message_ids co)) (\<lambda>pending.
       if pending then ret ()
       else then_io (update_case_archive_state env k True) (kaudit env ''case_archived'' [(''case'', uid)]))))"

definition finalize_archiving_cases :: "kenv \<Rightarrow> unit kcmd" where
  "finalize_archiving_cases env = bind_io (archived_case_entries env) (\<lambda>es. for_io es (finalize_archiving_case env))"

section \<open>Unarchiving\<close>

definition remove_pending_message_pushes_for_messages :: "kenv \<Rightarrow> string list \<Rightarrow> string \<Rightarrow> string list kcmd" where
  "remove_pending_message_pushes_for_messages env mids kind =
     bind_io (map_io (\<lambda>mid. bind_io (in_mail (remove_pending_message_pushes (ke_env env) mid kind)) (\<lambda>ids.
       then_io (in_mail (clear_message_pending_pushes (ke_env env) mid ids False)) (ret ids))) mids) (\<lambda>idss.
     then_io (when_io (concat idss \<noteq> []) (ktouch env ''refresh disposition views''))
       (ret (remdups_adj (sort (concat idss)))))"

definition unarchive_case :: "kenv \<Rightarrow> string \<Rightarrow> string \<Rightarrow> string option \<Rightarrow> json kcmd" where
  "unarchive_case env case_ref grp reason = then_io (require_workspace env)
     (bind_io (checked_reason env reason) (\<lambda>_.
      then_io (of_res (validate_id (ke_env env) ''group'' grp))
      (bind_io (resolve_unarchive_case env case_ref) (\<lambda>(uid, k, source_status).
       let target = CaseKey ActiveCases grp (key_name k) in
       bind_io (gets (dir_exists target)) (\<lambda>ex.
       if ex then fail (app_error_new ''case_exists'' (''active case path already exists: '' @ show_rel (key_path target)))
       else bind_io (read_case_messages env k uid) (\<lambda>co.
       then_io (update_case_archive_state env k False)
       (then_io (ktouch env ''create directory'')
       (then_io (kdisk env ''unarchive case'' (move_dir k target))
       (then_io (remove_empty_case_container_dir env)
       (bind_io (remove_pending_message_pushes_for_messages env (co_message_ids co) ''message.notification'') (\<lambda>removed.
        then_io (refresh_messages_after_ref_change env (co_message_ids co))
        (then_io (refresh_case_message_views env target)
        (then_io (kaudit env ''case_unarchived'' [(''case'', uid)])
        (ret (JObj [(''case_uid'', JStr uid), (''group'', JStr grp), (''source_status'', JStr source_status),
           (''case_path'', JStr (show_rel (key_path target))),
           (''removed_push_count'', JNum (int (length removed))), (''push_ids'', JArr (map JStr removed))])))))))))))))))"

end
