(* ===== verification/Case_Commands.thy ===== *)
theory Case_Commands
  imports Case_Archive
begin

unbundle bit_operations_syntax

text \<open>
  The commands that change cases (src/src/store/cases.rs), each whole: its guards, its transaction and
  every change of the case directory, the queue, the messages and the audit log in the code's order.
\<close>

section \<open>Results\<close>

definition jstrs :: "string list \<Rightarrow> json" where
  "jstrs xs = JArr (map JStr xs)"

definition queue_fields :: "push_location list \<Rightarrow> push_item option \<Rightarrow> (string \<times> json) list" where
  "queue_fields ls item = [(''location_count'', JNum (int (length ls))),
     (''queued_location_count'', JNum (if item \<noteq> None then int (length ls) else 0)),
     (''queued'', JBool (item \<noteq> None)),
     (''push_id'', case item of None \<Rightarrow> JNull | Some it \<Rightarrow> JStr (pi_push_id it))]"

text \<open>Queue the steps of an action for messages and note the push in their files.\<close>

definition queue_for_messages ::
  "kenv \<Rightarrow> string \<Rightarrow> string list \<Rightarrow> action_step list \<Rightarrow> (push_location list \<times> push_item option) kcmd" where
  "queue_for_messages env kind mids steps =
     bind_io (in_mail (message_remote_locations_any (ke_env env) mids)) (\<lambda>ls.
     bind_io (in_mail (queue_action_steps (ke_env env) kind mids ls steps None)) (\<lambda>item.
     then_io (case item of None \<Rightarrow> ret () | Some it \<Rightarrow> in_mail (record_pending_push_item (ke_env env) it))
       (ret (ls, item))))"

definition clear_message_from_all_dispositions :: "kenv \<Rightarrow> string \<Rightarrow> unit kcmd" where
  "clear_message_from_all_dispositions env mid = kask (\<lambda>n. ke_clear_disposition env n mid)"

section \<open>Creating a case\<close>

record prepared_case =
  pc_name :: string
  pc_message_id :: "string option"
  pc_summary :: "string option"
  pc_reason :: "string option"
  pc_config :: mail_config
  pc_uid :: string
  pc_key :: case_key

definition prepare_case_create ::
  "kenv \<Rightarrow> string \<Rightarrow> string option \<Rightarrow> string option \<Rightarrow> string option \<Rightarrow> string option \<Rightarrow> prepared_case kcmd" where
  "prepare_case_create env name grp mid summary reason = then_io (require_workspace env)
     (bind_io (if mid \<noteq> None then checked_reason env reason else ret (clean_summary reason)) (\<lambda>reason'.
      then_io (of_res (validate_name (ke_env env) (ke_naming env) ''case_name'' name))
      (then_io (case mid of None \<Rightarrow> ret () | Some m \<Rightarrow> of_res (validate_id (ke_env env) ''message_id'' m))
      (bind_io (of_res (ok_or (app_error_new ''invalid_request'' ''case create requires --group CATEGORY'') grp)) (\<lambda>g.
       bind_io (kask (ke_config env)) (\<lambda>cfg.
       then_io (of_res (validate_id (ke_env env) ''group'' g))
       (then_io (case mid of None \<Rightarrow> ret () | Some m \<Rightarrow>
           in_mail (ensure_message_action_can_queue (ke_env env) ''case.add'' [m] (ac_case_add (mc_actions cfg))))
       (bind_io (case mid of Some m \<Rightarrow> kask (\<lambda>n. ke_message_date env n m)
           | None \<Rightarrow> kask (\<lambda>n. Inr (ke_local_date env n))) (\<lambda>date.
        bind_io (next_case_uid env date) (\<lambda>uid.
        let k = CaseKey ActiveCases g (case_dir_name (ke_naming env) uid name) in
        bind_io (gets (dir_exists k)) (\<lambda>ex.
        if ex then fail (app_error_new ''case_exists'' (''case path already exists: '' @ show_rel (key_path k)))
        else ret \<lparr>pc_name = name, pc_message_id = mid, pc_summary = summary, pc_reason = reason',
          pc_config = cfg, pc_uid = uid, pc_key = k\<rparr>)))))))))))"

definition first_item :: "prepared_case \<Rightarrow> string \<Rightarrow> collection_item list" where
  "first_item pc t = (case pc_message_id pc of None \<Rightarrow> []
     | Some m \<Rightarrow> [\<lparr>ci_message_id = m,
         ci_summary = clean_summary (case pc_summary pc of None \<Rightarrow> pc_reason pc | Some s \<Rightarrow> Some s), ci_added = t\<rparr>])"

definition create_paths :: "prepared_case \<Rightarrow> rel list" where
  "create_paths pc = key_path (pc_key pc) # (case pc_message_id pc of None \<Rightarrow> []
     | Some m \<Rightarrow> [message_json_path m, afmail_push_path])"

definition write_string_new :: "kenv \<Rightarrow> case_key \<Rightarrow> string \<Rightarrow> unit kcmd" where
  "write_string_new env k text = bind_io (gets (\<lambda>w. cd_notes (dir_at k w) \<noteq> None)) (\<lambda>ex.
     if ex then fail (app_error_new ''store_error'' ''file already exists: notes.md'')
     else kdisk env ''write file'' (put_dir k (\<lambda>d. d\<lparr>cd_notes := Some text\<rparr>)))"

text \<open>What happens while the guard of the new directory is armed.\<close>

definition fill_new_case :: "kenv \<Rightarrow> prepared_case \<Rightarrow> string \<Rightarrow> json kcmd" where
  "fill_new_case env pc tid = (let k = pc_key pc in bind_io (know env) (\<lambda>t.
     let co = new_case_file (pc_uid pc) (pc_name pc) t (first_item pc t); mids = co_message_ids co in
     then_io (write_case_file env k co)
     (bind_io (of_res (ke_new_notes env)) (\<lambda>notes. then_io (write_string_new env k notes)
     (then_io (when_io (mids \<noteq> []) (then_io (for_io mids (clear_message_from_all_dispositions env))
         (refresh_messages_after_ref_change env mids)))
     (then_io (refresh_case_message_views env k)
     (bind_io (if mids = [] then ret [] else
         bind_io (queue_for_messages env ''case.add'' mids (ac_case_add (mc_actions (pc_config pc)))) (\<lambda>(ls, item).
         ret (queue_fields ls item))) (\<lambda>queued.
      then_io (commit_transaction env tid)
      (ret (JObj ([(''case_uid'', JStr (pc_uid pc)), (''case_name'', JStr (pc_name pc)),
         (''group'', JStr (key_group k)), (''message_ids'', jstrs mids),
         (''message_count'', JNum (int (length (co_items co)))), (''case_path'', JStr (show_rel (key_path k)))] @ queued)))))))))))"

text \<open>\<open>DirGuard\<close>: an error on the way removes the new directory, a kill does not.\<close>

definition drop_dir_guard :: "kenv \<Rightarrow> case_key \<Rightarrow> unit kcmd" where
  "drop_dir_guard env k = bind_io (gets (dir_exists k)) (\<lambda>ex.
     match_io (when_io ex (remove_case_dir env k)) ret (\<lambda>_. ret ()))"

definition guarded_dir :: "kenv \<Rightarrow> case_key \<Rightarrow> 'a kcmd \<Rightarrow> 'a kcmd" where
  "guarded_dir env k m = match_io m ret (\<lambda>e. then_io (drop_dir_guard env k) (fail e))"

definition create_prepared_case :: "kenv \<Rightarrow> prepared_case \<Rightarrow> json kcmd" where
  "create_prepared_case env pc = (let k = pc_key pc in
     bind_io (begin_transaction env ''case_create'' (create_paths pc)) (\<lambda>tid.
     then_io (kdisk env ''create directory'' (put_dir k id))
     (then_io (ktouch env ''create directory'') (then_io (ktouch env ''create directory'')
     (then_io (ktouch env ''create directory'')
     (bind_io (guarded_dir env k (fill_new_case env pc tid)) (\<lambda>result.
      then_io (kaudit env ''case_created'' [(''case'', pc_uid pc)]) (ret result))))))))"

definition create_case ::
  "kenv \<Rightarrow> string \<Rightarrow> string option \<Rightarrow> string option \<Rightarrow> string option \<Rightarrow> string option \<Rightarrow> json kcmd" where
  "create_case env name grp mid summary reason =
     bind_io (prepare_case_create env name grp mid summary reason) (create_prepared_case env)"

section \<open>Messages of a case\<close>

definition add_message_to_existing_case ::
  "kenv \<Rightarrow> string \<Rightarrow> string \<Rightarrow> string option \<Rightarrow> case_key \<Rightarrow> (string \<times> json) list kcmd" where
  "add_message_to_existing_case env uid mid summary k =
     bind_io (kask (\<lambda>n. ke_related env n mid)) (\<lambda>related.
     bind_io (read_case_file env k) (\<lambda>co.
     let already = contains_message co mid in
     then_io (when_io (\<not> already \<or> clean_summary summary \<noteq> None) (bind_io (know env) (\<lambda>t.
        write_case_file env k ((upsert_item mid summary t co)\<lparr>co_updated := Some t\<rparr>))))
     (then_io (clear_message_from_all_dispositions env mid)
     (then_io (refresh_messages_after_ref_change env [mid])
     (then_io (refresh_case_message_views env k)
     (ret [(''case_uid'', JStr uid), (''message_id'', JStr mid), (''group'', JStr (key_group k)),
        (''created_case'', JBool False), (''message_count'', JNum 1), (''already_present'', JBool already),
        (''related_message_ids'', jstrs related), (''case_path'', JStr (show_rel (key_path k)))]))))))"

definition add_message_to_case ::
  "kenv \<Rightarrow> string \<Rightarrow> string \<Rightarrow> string option \<Rightarrow> string option \<Rightarrow> json kcmd" where
  "add_message_to_case env case_ref mid summary reason = then_io (require_workspace env)
     (bind_io (checked_reason env reason) (\<lambda>reason'.
      bind_io (of_res (parse_case_ref (ke_env env) case_ref)) (\<lambda>uid.
      then_io (of_res (validate_id (ke_env env) ''message_id'' mid))
      (bind_io (resolve_active_case env case_ref) (\<lambda>(_, k).
       bind_io (kask (ke_config env)) (\<lambda>cfg.
       let steps = ac_case_add (mc_actions cfg) in
       then_io (in_mail (ensure_message_action_can_queue (ke_env env) ''case.add'' [mid] steps))
       (bind_io (add_message_to_existing_case env uid mid (case summary of None \<Rightarrow> reason' | Some s \<Rightarrow> Some s) k) (\<lambda>result.
        bind_io (queue_for_messages env ''case.add'' [mid] steps) (\<lambda>(ls, item).
        then_io (kaudit env ''case_message_added'' [(''case'', uid), (''message'', mid)])
        (ret (JObj (result @ queue_fields ls item))))))))))))"

definition append_sent_message_to_case ::
  "kenv \<Rightarrow> case_key \<Rightarrow> string \<Rightarrow> string \<Rightarrow> string option \<Rightarrow> string \<Rightarrow> unit kcmd" where
  "append_sent_message_to_case env k uid mid summary added = then_io (require_workspace env)
     (bind_io (read_case_messages env k uid) (\<lambda>co. bind_io (know env) (\<lambda>t.
      write_case_file env k ((upsert_item mid summary added co)\<lparr>co_updated := Some t\<rparr>))))"

definition err_case_message_not_found :: "string \<Rightarrow> string \<Rightarrow> app_error" where
  "err_case_message_not_found mid uid =
     app_error_new ''case_message_not_found'' (''message '' @ mid @ '' is not in case '' @ uid)"

definition case_set_summary :: "kenv \<Rightarrow> string \<Rightarrow> string \<Rightarrow> string \<Rightarrow> string option \<Rightarrow> json kcmd" where
  "case_set_summary env case_ref mid summary reason = then_io (require_workspace env)
     (bind_io (checked_reason env reason) (\<lambda>_.
      bind_io (resolve_case_any env case_ref) (\<lambda>(uid, k, _).
      then_io (of_res (validate_id (ke_env env) ''message_id'' mid))
      (bind_io (read_case_file env k) (\<lambda>co.
       if \<not> contains_message co mid then fail (err_case_message_not_found mid uid)
       else bind_io (know env) (\<lambda>t.
       then_io (write_case_file env k (co\<lparr>co_items := update_first (\<lambda>it. ci_message_id it = mid)
           (\<lambda>it. it\<lparr>ci_summary := Some (trim summary)\<rparr>) (co_items co), co_updated := Some t\<rparr>))
       (then_io (refresh_case_message_views env k)
       (then_io (kaudit env ''case_summary_set'' [(''case'', uid), (''message'', mid)])
       (ret (JObj [(''case_uid'', JStr uid), (''message_id'', JStr mid), (''summary'', JStr summary)])))))))))) "

definition unfiled_message :: "message_file \<Rightarrow> message_file" where
  "unfiled_message m = m\<lparr>mf_status := ''triage'', mf_remote_sync := None\<rparr>"

definition remove_message_from_case_workspace ::
  "kenv \<Rightarrow> string \<Rightarrow> case_key \<Rightarrow> string \<Rightarrow> string \<Rightarrow> string \<Rightarrow> json kcmd" where
  "remove_message_from_case_workspace env uid k mid undo_kind status =
     then_io (of_res (validate_case_uid uid))
     (then_io (of_res (validate_id (ke_env env) ''message_id'' mid))
     (bind_io (read_case_messages env k uid) (\<lambda>co. bind_io (know env) (\<lambda>t.
      bind_io (of_res (ok_or (err_case_message_not_found mid uid) (remove_case_item t mid co))) (\<lambda>(_, co').
      bind_io (begin_transaction env ''case_message_removed''
          [key_path k, message_json_path mid, afmail_push_path]) (\<lambda>tid.
      then_io (write_case_file env k co')
      (then_io (ktouch env ''remove file'')
      (bind_io (in_mail (remove_pending_message_pushes (ke_env env) mid undo_kind)) (\<lambda>push_ids.
       bind_io (read_message_overlaid env mid) (\<lambda>m.
       then_io (in_mail (put_message (ke_env env) mid (unfiled_message m)))
       (then_io (refresh_message_after_ref_change env mid)
       (then_io (in_mail (clear_message_pending_pushes (ke_env env) mid push_ids False))
       (then_io (refresh_case_message_views env k)
       (then_io (commit_transaction env tid)
       (then_io (kaudit env ''case_message_removed'' [(''case'', uid), (''message'', mid)])
       (ret (JObj [(''case_uid'', JStr uid), (''message_id'', JStr mid),
          (''message_count'', JNum (int (length (co_items co')))), (''status'', JStr status),
          (''triage_path'', JStr (''triage/'' @ mid @ ''.md'')),
          (''removed_push_count'', JNum (int (length push_ids))), (''push_ids'', jstrs push_ids)])))))))))))))))))"

definition remove_message_from_case :: "kenv \<Rightarrow> string \<Rightarrow> string \<Rightarrow> string option \<Rightarrow> json kcmd" where
  "remove_message_from_case env case_ref mid reason = then_io (require_workspace env)
     (bind_io (checked_reason env reason) (\<lambda>_.
      bind_io (resolve_case_any env case_ref) (\<lambda>(uid, k, status).
      remove_message_from_case_workspace env uid k mid
        (if status = [] then ''case.add'' else ''message.notification'') status)))"

section \<open>Names, groups and tags\<close>

definition move_case :: "kenv \<Rightarrow> string \<Rightarrow> string \<Rightarrow> string option \<Rightarrow> json kcmd" where
  "move_case env case_ref grp reason = then_io (require_workspace env)
     (bind_io (checked_reason env reason) (\<lambda>_.
      then_io (of_res (validate_id (ke_env env) ''group'' grp))
      (bind_io (resolve_case_any env case_ref) (\<lambda>(uid, k, status).
       let target = CaseKey (if status = [] then ActiveCases else ArchivedCases) grp (key_name k);
           result = (\<lambda>changed. JObj [(''case_uid'', JStr uid), (''from_group'', JStr (key_group k)),
             (''to_group'', JStr grp), (''status'', JStr status), (''changed'', JBool changed),
             (''from_path'', JStr (show_rel (key_path k))), (''to_path'', JStr (show_rel (key_path target))),
             (''case_path'', JStr (show_rel (key_path target)))]) in
       if target = k then then_io (kaudit env ''case_moved'' [(''case'', uid)]) (ret (result False))
       else bind_io (gets (dir_exists target)) (\<lambda>ex.
         if ex then fail (app_error_new ''duplicate_case_uid'' (''target case path already exists: '' @ show_rel (key_path target)))
         else then_io (ktouch env ''create directory'')
           (then_io (kdisk env ''move case'' (move_dir k target))
           (then_io (remove_empty_case_container_dir env)
           (then_io (refresh_case_message_views env target)
           (then_io (kaudit env ''case_moved'' [(''case'', uid)]) (ret (result True)))))))))))"

definition rename_case :: "kenv \<Rightarrow> string \<Rightarrow> string \<Rightarrow> string option \<Rightarrow> json kcmd" where
  "rename_case env case_ref name reason = then_io (require_workspace env)
     (bind_io (checked_reason env reason) (\<lambda>_.
      then_io (of_res (validate_name (ke_env env) (ke_naming env) ''case_name'' name))
      (bind_io (resolve_case_any env case_ref) (\<lambda>(uid, k, status).
       bind_io (case_name env k) (\<lambda>old_name.
       let target = CaseKey (key_root k) (key_group k) (case_dir_name (ke_naming env) uid name) in
       bind_io (gets (dir_exists target)) (\<lambda>ex.
       if target \<noteq> k \<and> ex then fail (app_error_new ''duplicate_case_uid'' (''target case path already exists: '' @ show_rel (key_path target)))
       else then_io (when_io (target \<noteq> k) (kdisk env ''rename case'' (move_dir k target)))
         (then_io (update_case_name env target name)
         (then_io (refresh_case_message_views env target)
         (then_io (kaudit env ''case_renamed'' [(''case'', uid)])
         (ret (JObj [(''case_uid'', JStr uid), (''old_case_name'', JStr old_name), (''case_name'', JStr name),
            (''group'', JStr (key_group k)), (''status'', JStr status),
            (''case_path'', JStr (show_rel (key_path target))),
            (''changed'', JBool (old_name \<noteq> name \<or> target \<noteq> k))])))))))))))"

definition tag_or_untag :: "kenv \<Rightarrow> string \<Rightarrow> string \<Rightarrow> string option \<Rightarrow> bool \<Rightarrow> json kcmd" where
  "tag_or_untag env case_ref tag reason adds = then_io (require_workspace env)
     (bind_io (checked_reason env reason) (\<lambda>_.
      then_io (of_res (validate_id (ke_env env) ''tag'' tag))
      (bind_io (resolve_active_case env case_ref) (\<lambda>(uid, k).
       bind_io (update_case_tags env k (if adds then Some tag else None) (if adds then None else Some tag)) (\<lambda>tags.
       then_io (kaudit env (if adds then ''case_tagged'' else ''case_untagged'') [(''case'', uid)])
       (ret (JObj [(''case_uid'', JStr uid), (''tag'', JStr tag), (''tags'', jstrs tags),
          (''case_path'', JStr (show_rel (key_path k)))])))))))"

definition tag_case :: "kenv \<Rightarrow> string \<Rightarrow> string \<Rightarrow> string option \<Rightarrow> json kcmd" where
  "tag_case env case_ref tag reason = tag_or_untag env case_ref tag reason True"

definition untag_case :: "kenv \<Rightarrow> string \<Rightarrow> string \<Rightarrow> string option \<Rightarrow> json kcmd" where
  "untag_case env case_ref tag reason = tag_or_untag env case_ref tag reason False"

section \<open>Merging\<close>

definition ensure_no_name_conflicts :: "kenv \<Rightarrow> string list \<Rightarrow> string list \<Rightarrow> string \<Rightarrow> unit kcmd" where
  "ensure_no_name_conflicts env dest source label = then_io (ktouch env ''read merge source'')
     (case List.find (\<lambda>n. n \<in> set dest) source of None \<Rightarrow> ret ()
      | Some n \<Rightarrow> fail (app_error_new ''merge_conflict'' (label @ '' name conflict: '' @ n)))"

definition move_file :: "case_key \<Rightarrow> case_key \<Rightarrow> string \<Rightarrow> kworld \<Rightarrow> kworld" where
  "move_file from to n w = put_dir to (\<lambda>d. d\<lparr>cd_files := cd_files d @ [n]\<rparr>)
     (put_dir from (\<lambda>d. d\<lparr>cd_files := filter (\<lambda>x. x \<noteq> n) (cd_files d)\<rparr>) w)"

definition move_draft :: "case_key \<Rightarrow> case_key \<Rightarrow> string \<times> draft_fields res \<Rightarrow> kworld \<Rightarrow> kworld" where
  "move_draft from to d w = put_dir to (\<lambda>c. c\<lparr>cd_drafts := put (fst d) (snd d) (cd_drafts c)\<rparr>)
     (put_dir from (\<lambda>c. c\<lparr>cd_drafts := remove (fst d) (cd_drafts c)\<rparr>) w)"

definition move_children :: "kenv \<Rightarrow> case_key \<Rightarrow> case_key \<Rightarrow> unit kcmd" where
  "move_children env from to = then_io (ktouch env ''create directory'')
     (bind_io (gets (\<lambda>w. cd_files (dir_at from w))) (\<lambda>ns.
      then_io (for_io ns (\<lambda>n. kdisk env ''move child'' (move_file from to n)))
      (then_io (ktouch env ''create directory'')
      (bind_io (gets (\<lambda>w. cd_drafts (dir_at from w))) (\<lambda>ds.
       for_io ds (\<lambda>d. kdisk env ''move child'' (move_draft from to d)))))))"

definition notes_missing_error :: "case_key \<Rightarrow> app_error" where
  "notes_missing_error k = app_error_new ''notes_missing''
     (''notes.md is missing at '' @ show_rel (key_path k @ [''notes.md'']))"

definition merge_case_notes :: "kenv \<Rightarrow> case_key \<Rightarrow> case_key \<Rightarrow> string \<Rightarrow> unit kcmd" where
  "merge_case_notes env k other other_uid = then_io (ktouch env ''read merged notes.md'')
     (bind_io (gets (\<lambda>w. (cd_notes (dir_at k w), cd_notes (dir_at other w)))) (\<lambda>(mine, theirs). case theirs of
        None \<Rightarrow> ret ()
      | Some t \<Rightarrow> if trim t = [] then ret ()
          else (case mine of None \<Rightarrow> fail (notes_missing_error k)
            | Some p \<Rightarrow> bind_io (of_res (ke_merged_notes env p other_uid t)) (\<lambda>merged.
                kdisk env ''write file'' (put_dir k (\<lambda>d. d\<lparr>cd_notes := Some merged\<rparr>))))))"

definition merge_case :: "kenv \<Rightarrow> string \<Rightarrow> string \<Rightarrow> string option \<Rightarrow> json kcmd" where
  "merge_case env case_ref other_case_ref reason = then_io (require_workspace env)
     (bind_io (checked_reason env reason) (\<lambda>_.
      bind_io (resolve_active_case env case_ref) (\<lambda>(uid, k).
      bind_io (resolve_active_case env other_case_ref) (\<lambda>(other_uid, other).
      if uid = other_uid then fail (app_error_new ''invalid_request'' ''cannot merge a case into itself'')
      else then_io (ensure_case_has_no_local_drafts env uid k)
      (then_io (ensure_case_has_no_local_drafts env other_uid other)
      (then_io (ensure_case_has_no_outbound_push env uid)
      (then_io (ensure_case_has_no_outbound_push env other_uid)
      (bind_io (gets (\<lambda>w. (dir_at k w, dir_at other w))) (\<lambda>(d, d').
       then_io (ensure_no_name_conflicts env (cd_files d) (cd_files d') ''files'')
       (then_io (ensure_no_name_conflicts env (map fst (cd_drafts d)) (map fst (cd_drafts d')) ''drafts'')
       (bind_io (read_case_messages env k uid) (\<lambda>co.
        bind_io (read_case_messages env other other_uid) (\<lambda>co'.
        bind_io (know env) (\<lambda>t.
        then_io (write_case_file env k ((merge_items (co_items co') co)\<lparr>co_updated := Some t\<rparr>))
        (then_io (merge_case_notes env k other other_uid)
        (then_io (move_children env other k)
        (then_io (remove_case_dir env other)
        (then_io (remove_empty_case_container_dir env)
        (then_io (refresh_messages_after_ref_change env (co_message_ids co'))
        (then_io (refresh_case_message_views env k)
        (then_io (kaudit env ''case_merged'' [(''case'', uid), (''case'', other_uid)])
        (ret (JObj [(''case_uid'', JStr uid), (''merged_case_uid'', JStr other_uid),
           (''message_count'', JNum (int (length (co_items co'))))])))))))))))))))))))))))"

section \<open>Deleting and trashing\<close>

definition delete_case_workspace :: "kenv \<Rightarrow> string \<Rightarrow> case_key \<Rightarrow> string \<Rightarrow> bool \<Rightarrow> json kcmd" where
  "delete_case_workspace env uid k status allow_notes = then_io (of_res (validate_case_uid uid))
     (bind_io (read_case_messages env k uid) (\<lambda>co.
      if co_items co \<noteq> [] then fail (app_error_new ''case_not_empty'' (''case '' @ uid @ '' still contains messages''))
      else then_io (ensure_case_has_no_local_drafts env uid k)
      (then_io (ensure_case_has_no_outbound_push env uid)
      (bind_io (gets (dir_at k)) (\<lambda>d.
       if cd_files d \<noteq> [] then fail (app_error_new ''case_files_present'' (''case '' @ uid @ '' still has files''))
       else let text = (case cd_notes d of None \<Rightarrow> [] | Some t \<Rightarrow> t); notes_present = trim text \<noteq> [] in
       then_io (when_io (cd_notes d \<noteq> None) (ktouch env ''read case notes''))
       (if notes_present \<and> \<not> allow_notes
        then fail (app_error_new ''case_notes_present'' (''case '' @ uid @ '' has notes.md content''))
        else bind_io (begin_transaction env ''case_deleted'' [key_path k]) (\<lambda>tid.
          then_io (remove_case_dir env k)
          (then_io (remove_empty_case_container_dir env)
          (then_io (commit_transaction env tid)
          (then_io (kaudit env ''case_deleted'' [(''case'', uid)])
          (ret (JObj [(''case_uid'', JStr uid), (''case_name'', JStr (co_name co)),
             (''from_path'', JStr (show_rel (key_path k))), (''deleted'', JBool True), (''status'', JStr status),
             (''notes_deleted'', JBool (cd_notes d \<noteq> None)), (''notes_present'', JBool notes_present)]))))))))))))"

definition delete_case :: "kenv \<Rightarrow> string \<Rightarrow> bool \<Rightarrow> string option \<Rightarrow> json kcmd" where
  "delete_case env case_ref allow_notes reason = then_io (require_workspace env)
     (bind_io (checked_reason env reason) (\<lambda>_.
      bind_io (resolve_case_any env case_ref) (\<lambda>(uid, k, status).
      delete_case_workspace env uid k status allow_notes)))"

definition ensure_case_messages_unreferenced_except :: "kenv \<Rightarrow> string \<Rightarrow> case_key \<Rightarrow> string list \<Rightarrow> unit kcmd" where
  "ensure_case_messages_unreferenced_except env uid k mids = (if mids = [] then ret ()
     else bind_io (all_case_entries env) (\<lambda>es.
       bind_io (map_io (\<lambda>e. if snd e = k then ret [] else case_json_reference env mids (snd e)) es) (\<lambda>cases.
       bind_io (collect_draft_references_except_case env mids None) (\<lambda>drafts.
       bind_io (kask (\<lambda>n. ke_other_references env n mids)) (\<lambda>others.
       if concat cases @ drafts @ others = [] then ret ()
       else fail (app_error_new ''case_messages_referenced''
         (''case '' @ uid @ '' messages cannot be trashed while referenced'')))))))"

definition trashed_message :: "message_file \<Rightarrow> message_file" where
  "trashed_message m = m\<lparr>mf_status := ''trashed'', mf_notification_uid := None, mf_remote_sync := None\<rparr>"

text \<open>\<open>update_messages_workspace\<close> for the status of a trashed message.\<close>

definition trash_messages_workspace :: "kenv \<Rightarrow> string list \<Rightarrow> unit kcmd" where
  "trash_messages_workspace env mids = for_io mids (\<lambda>mid.
     then_io (of_res (validate_id (ke_env env) ''message_id'' mid))
     (then_io (kask (\<lambda>n. ke_set_disposition env n ''trashed'' mid))
     (bind_io (read_message_overlaid env mid) (\<lambda>m.
      then_io (in_mail (put_message (ke_env env) mid (trashed_message m))) (ktouch env ''remove triage view'')))))"

definition trash_paths :: "case_key \<Rightarrow> string list \<Rightarrow> rel list" where
  "trash_paths k mids = [key_path k, [''trash'', ''data'', ''trash.json''], afmail_push_path] @ map message_json_path mids"

definition trash_case_workspace :: "kenv \<Rightarrow> string \<Rightarrow> case_key \<Rightarrow> string \<Rightarrow> json kcmd" where
  "trash_case_workspace env uid k source_status =
     then_io (ensure_case_has_no_local_drafts env uid k)
     (then_io (ensure_case_has_no_outbound_push env uid)
     (bind_io (read_case_messages env k uid) (\<lambda>co.
      let mids = co_message_ids co in
      then_io (ensure_case_messages_unreferenced_except env uid k mids)
      (bind_io (kask (ke_config env)) (\<lambda>cfg.
       bind_io (in_mail (message_remote_locations_any (ke_env env) mids)) (\<lambda>ls.
       let eligible = fold merge_string (map loc_message_id ls) [] in
       bind_io (begin_transaction env ''case_trash'' (trash_paths k mids)) (\<lambda>tid.
       bind_io (in_mail (queue_action_steps (ke_env env) ''message.trash'' eligible ls
           (ma_trash (ac_message (mc_actions cfg))) None)) (\<lambda>item.
       then_io (trash_messages_workspace env mids)
       (then_io (case item of None \<Rightarrow> ret () | Some it \<Rightarrow> in_mail (record_pending_push_item (ke_env env) it))
       (then_io (remove_case_dir env k)
       (then_io (remove_empty_case_container_dir env)
       (then_io (refresh_messages_after_ref_change env mids)
       (then_io (ktouch env ''refresh disposition views'')
       (then_io (commit_transaction env tid)
       (then_io (kaudit env ''case_trashed'' [(''case'', uid)])
       (ret (JObj ([(''case_uid'', JStr uid), (''source_status'', JStr source_status),
          (''from_path'', JStr (show_rel (key_path k))), (''message_ids'', jstrs mids),
          (''trashed_message_count'', JNum (int (length (co_items co)))),
          (''eligible_message_ids'', jstrs eligible)] @ queue_fields ls item
          @ [(''push_ids'', jstrs (case item of None \<Rightarrow> [] | Some it \<Rightarrow> [pi_push_id it]))]))))))))))))))))))"

definition trash_case :: "kenv \<Rightarrow> string \<Rightarrow> string option \<Rightarrow> json kcmd" where
  "trash_case env case_ref reason = then_io (require_workspace env)
     (bind_io (checked_reason env reason) (\<lambda>_.
      bind_io (resolve_case_any env case_ref) (\<lambda>(uid, k, _).
      bind_io (read_case_file env k) (\<lambda>co. trash_case_workspace env uid k (co_status co)))))"

section \<open>Notes\<close>

definition newline :: char where
  "newline = CHR 0x0A"

definition ends_line :: "string \<Rightarrow> string" where
  "ends_line t = (if t \<noteq> [] \<and> last t = newline then t else t @ [newline])"

text \<open>FNV-1a of 64 bits over the bytes of the text.\<close>

definition fnv1a64 :: "string \<Rightarrow> 64 word" where
  "fnv1a64 text = foldl (\<lambda>h c. (h XOR of_nat (of_char c)) * 0x100000001b3) 0xcbf29ce484222325 text"

definition hex_digit :: "nat \<Rightarrow> char" where
  "hex_digit n = ''0123456789abcdef'' ! n"

definition stable_text_hash :: "string \<Rightarrow> string" where
  "stable_text_hash text = ''fnv1a64:''
     @ map (\<lambda>i. hex_digit (nat (uint (drop_bit (4 * i) (fnv1a64 text)) mod 16))) (rev [0..<16])"

definition audit_target :: "string \<Rightarrow> string \<Rightarrow> json" where
  "audit_target kind i = JObj [(''kind'', JStr kind), (''id'', JStr i)]"

definition notes_result :: "string \<Rightarrow> case_key \<Rightarrow> string \<Rightarrow> json" where
  "notes_result uid k text = JObj [(''targets'', JArr [audit_target ''case'' uid]),
     (''notes_path'', JStr (show_rel (key_path k @ [''notes.md'']))), (''text_len_bytes'', JNum (int (length text))),
     (''text_hash'', JStr (stable_text_hash text))]"

definition case_notes_append :: "kenv \<Rightarrow> string \<Rightarrow> string \<Rightarrow> json kcmd" where
  "case_notes_append env case_ref text = bind_io (resolve_case_any env case_ref) (\<lambda>(uid, k, _).
     then_io (ktouch env ''read notes'') (bind_io (gets (\<lambda>w. cd_notes (dir_at k w))) (\<lambda>old. case old of
       None \<Rightarrow> fail (notes_missing_error k)
     | Some t \<Rightarrow> then_io (kdisk env ''write file''
           (put_dir k (\<lambda>d. d\<lparr>cd_notes := Some (ends_line (ends_line t @ text))\<rparr>)))
         (then_io (kaudit env ''case_notes_appended'' [(''case'', uid)]) (ret (notes_result uid k text))))))"

definition case_notes_replace :: "kenv \<Rightarrow> string \<Rightarrow> string \<Rightarrow> json kcmd" where
  "case_notes_replace env case_ref text = bind_io (resolve_case_any env case_ref) (\<lambda>(uid, k, _).
     then_io (kdisk env ''write file'' (put_dir k (\<lambda>d. d\<lparr>cd_notes := Some (ends_line text)\<rparr>)))
       (then_io (kaudit env ''case_notes_replaced'' [(''case'', uid)]) (ret (notes_result uid k text))))"

end
