(* ===== verification/Case_Requests.thy ===== *)
theory Case_Requests
  imports Case_Commands
begin

text \<open>
  How commands reach the cases: requests with an identity (src/src/store/idempotency.rs), the dispatch of
  the case commands and its refusal while a transaction is incomplete (src/src/runner/dispatch.rs), and the
  repair of transactions and the check of cases by doctor (src/src/store/transactions.rs, doctor.rs).
\<close>

section \<open>Idempotent requests\<close>

definition put_request :: "kenv \<Rightarrow> string \<Rightarrow> request_record \<Rightarrow> unit kcmd" where
  "put_request env rid r = kdisk env ''write json'' (\<lambda>w. w\<lparr>kw_requests := put rid r (kw_requests w)\<rparr>)"

definition request_fingerprint :: "kenv \<Rightarrow> string \<Rightarrow> json \<Rightarrow> string res" where
  "request_fingerprint env command input = ke_hash env (JObj [(''command'', JStr command), (''input'', input)])"

definition replay_request :: "string \<Rightarrow> string \<Rightarrow> string \<Rightarrow> request_record \<Rightarrow> json res" where
  "replay_request rid command h r =
     (if rq_command r \<noteq> command \<or> rq_input_hash r \<noteq> h
      then Inl (app_error_new ''idempotency_conflict'' (''request id '' @ rid @ '' was already used with different input''))
      else if rq_status r = ''completed''
      then ok_or (app_error_new ''idempotency_record_invalid'' (''completed idempotency record has no result: '' @ rid)) (rq_result r)
      else Inl (app_error_new ''idempotency_incomplete'' (''request id '' @ rid @ '' has an incomplete prior attempt'')))"

definition note_start :: "string \<Rightarrow> unit kcmd" where
  "note_start rid = modify (\<lambda>w. w\<lparr>kw_started := rid # kw_started w\<rparr>)"

definition run_idempotent_request_with_precheck ::
  "kenv \<Rightarrow> string \<Rightarrow> string \<Rightarrow> json \<Rightarrow> 'a kcmd \<Rightarrow> ('a \<Rightarrow> json kcmd) \<Rightarrow> json kcmd" where
  "run_idempotent_request_with_precheck env rid command input precheck oper = then_io (require_workspace env)
     (then_io (of_res (validate_id (ke_env env) ''request_id'' rid))
     (then_io (of_res (validate_id (ke_env env) ''idempotency command'' command))
     (bind_io (of_res (request_fingerprint env command input)) (\<lambda>h.
      bind_io (gets (\<lambda>w. map_of (kw_requests w) rid)) (\<lambda>known. case known of
        Some r \<Rightarrow> then_io (ktouch env ''read idempotency record'') (of_res (replay_request rid command h r))
      | None \<Rightarrow> bind_io precheck (\<lambda>prepared.
          then_io (put_request env rid \<lparr>rq_command = command, rq_input_hash = h, rq_status = ''pending'', rq_result = None\<rparr>)
          (then_io (note_start rid)
          (bind_io (oper prepared) (\<lambda>v.
           then_io (put_request env rid \<lparr>rq_command = command, rq_input_hash = h, rq_status = ''completed'', rq_result = Some v\<rparr>)
             (ret v))))))))))"

definition run_idempotent_request :: "kenv \<Rightarrow> string \<Rightarrow> string \<Rightarrow> json \<Rightarrow> json kcmd \<Rightarrow> json kcmd" where
  "run_idempotent_request env rid command input oper =
     run_idempotent_request_with_precheck env rid command input (ret ()) (\<lambda>_. oper)"

definition idempotent_value :: "kenv \<Rightarrow> string option \<Rightarrow> string \<Rightarrow> json \<Rightarrow> json kcmd \<Rightarrow> json kcmd" where
  "idempotent_value env rid command input oper = (case rid of
     Some r \<Rightarrow> run_idempotent_request env r command input oper | None \<Rightarrow> oper)"

definition idempotent_value_with_precheck ::
  "kenv \<Rightarrow> string option \<Rightarrow> string \<Rightarrow> json \<Rightarrow> 'a kcmd \<Rightarrow> ('a \<Rightarrow> json kcmd) \<Rightarrow> json kcmd" where
  "idempotent_value_with_precheck env rid command input precheck oper = (case rid of
     Some r \<Rightarrow> run_idempotent_request_with_precheck env r command input precheck oper
   | None \<Rightarrow> bind_io precheck oper)"

section \<open>The case commands\<close>

datatype case_command =
    CaseCreate string "string option" "string option" "string option" "string option"
  | CaseAddMessage string string "string option" "string option"
  | CaseSetSummary string string string "string option"
  | CaseRemove string string "string option"
  | CaseMove string string "string option"
  | CaseRename string string "string option"
  | CaseNotesAppend string string
  | CaseNotesReplace string string
  | CaseArchive string "string option"
  | CaseUnarchive string string "string option"
  | CaseTrash string "string option"
  | CaseDelete string bool "string option"
  | CaseTag string string "string option"
  | CaseUntag string string "string option"
  | CaseMerge string string "string option"

definition jopt :: "string option \<Rightarrow> json" where
  "jopt s = (case s of None \<Rightarrow> JNull | Some v \<Rightarrow> JStr v)"

definition err_request_id_not_supported :: app_error where
  "err_request_id_not_supported = app_error_new ''request_id_not_supported''
     ''--request-id is only supported for selected non-idempotent local mutations''"

text \<open>The commands of \<open>CaseCommand\<close> but those on suggestions and drafts.  Adding takes one message here; the
  code runs a list of them one by one and collects the results.\<close>

fun execute_case_command :: "kenv \<Rightarrow> string option \<Rightarrow> case_command \<Rightarrow> json kcmd" where
  "execute_case_command env rid (CaseCreate name grp mid summary reason) =
     idempotent_value_with_precheck env rid ''case_create''
       (JObj [(''name'', JStr name), (''group'', jopt grp), (''message'', jopt mid), (''summary'', jopt summary),
         (''reason'', jopt reason)])
       (prepare_case_create env name grp mid summary reason) (create_prepared_case env)"
| "execute_case_command env rid (CaseAddMessage c mid summary reason) = idempotent_value env rid ''case_add''
     (JObj [(''case_ref'', JStr c), (''message_id'', JStr mid), (''summary'', jopt summary), (''reason'', jopt reason)])
     (add_message_to_case env c mid summary reason)"
| "execute_case_command env rid (CaseSetSummary c mid summary reason) = idempotent_value env rid ''case_set_summary''
     (JObj [(''case_ref'', JStr c), (''message_id'', JStr mid), (''summary'', JStr summary), (''reason'', jopt reason)])
     (case_set_summary env c mid summary reason)"
| "execute_case_command env rid (CaseRemove c mid reason) = idempotent_value env rid ''case_remove''
     (JObj [(''case_ref'', JStr c), (''message_id'', JStr mid), (''reason'', jopt reason)])
     (remove_message_from_case env c mid reason)"
| "execute_case_command env rid (CaseMove c grp reason) = idempotent_value env rid ''case_move''
     (JObj [(''case_ref'', JStr c), (''group'', JStr grp), (''reason'', jopt reason)]) (move_case env c grp reason)"
| "execute_case_command env rid (CaseRename c name reason) = idempotent_value env rid ''case_rename''
     (JObj [(''case_ref'', JStr c), (''name'', JStr name), (''reason'', jopt reason)]) (rename_case env c name reason)"
| "execute_case_command env rid (CaseNotesAppend c t) = idempotent_value env rid ''case_notes_append''
     (JObj [(''case_ref'', JStr c), (''text'', JStr t)]) (case_notes_append env c t)"
| "execute_case_command env rid (CaseNotesReplace c t) = idempotent_value env rid ''case_notes_replace''
     (JObj [(''case_ref'', JStr c), (''text'', JStr t)]) (case_notes_replace env c t)"
| "execute_case_command env rid (CaseArchive c reason) = idempotent_value env rid ''case_archive''
     (JObj [(''case_ref'', JStr c), (''reason'', jopt reason)]) (archive_case env c reason)"
| "execute_case_command env rid (CaseUnarchive c grp reason) = idempotent_value env rid ''case_unarchive''
     (JObj [(''case_ref'', JStr c), (''group'', JStr grp), (''reason'', jopt reason)]) (unarchive_case env c grp reason)"
| "execute_case_command env rid (CaseTrash c reason) = idempotent_value env rid ''case_trash''
     (JObj [(''case_ref'', JStr c), (''reason'', jopt reason)]) (trash_case env c reason)"
| "execute_case_command env rid (CaseDelete c allow reason) = idempotent_value env rid ''case_delete''
     (JObj [(''case_ref'', JStr c), (''allow_notes'', JBool allow), (''reason'', jopt reason)]) (delete_case env c allow reason)"
| "execute_case_command env rid (CaseTag c tag reason) = idempotent_value env rid ''case_tag''
     (JObj [(''case_ref'', JStr c), (''tag'', JStr tag), (''reason'', jopt reason)]) (tag_case env c tag reason)"
| "execute_case_command env rid (CaseUntag c tag reason) = idempotent_value env rid ''case_untag''
     (JObj [(''case_ref'', JStr c), (''tag'', JStr tag), (''reason'', jopt reason)]) (untag_case env c tag reason)"
| "execute_case_command env rid (CaseMerge c other reason) =
     (if rid \<noteq> None then fail err_request_id_not_supported else merge_case env c other reason)"

text \<open>Under the exclusive lock, and only while no transaction is incomplete.\<close>

definition run_case_command :: "kenv \<Rightarrow> string option \<Rightarrow> case_command \<Rightarrow> json kcmd" where
  "run_case_command env rid c = then_io (ensure_no_incomplete_transactions env) (execute_case_command env rid c)"

section \<open>Repair\<close>

datatype transaction_repair = RepairCaseArchive string | AbortedDiscardUndo

definition undo_kind :: "string \<Rightarrow> (message_status \<times> message_push_action) option" where
  "undo_kind kind = (if kind = ''message_unspammed'' then Some (StSpam, MarkSpam)
     else if kind = ''message_untrashed'' then Some (StTrashed, MarkTrash) else None)"

definition json_stem :: "string \<Rightarrow> string option" where
  "json_stem s = (let n = length s - 5 in if 5 \<le> length s \<and> drop n s = ''.json'' then Some (take n s) else None)"

definition transaction_message_id :: "rel list \<Rightarrow> string option" where
  "transaction_message_id paths = (case List.map_filter (\<lambda>p. case p of
       [d, f] \<Rightarrow> if d = ''messages'' then json_stem f else None | _ \<Rightarrow> None) paths of
     [] \<Rightarrow> None | m # _ \<Rightarrow> Some m)"

definition repair_action :: "kenv \<Rightarrow> transaction_file \<Rightarrow> transaction_repair option kcmd" where
  "repair_action env tx = (case repairable_case_archive_uid (ke_env env) tx of Some uid \<Rightarrow> ret (Some (RepairCaseArchive uid))
   | None \<Rightarrow> (case undo_kind (tx_kind tx) of None \<Rightarrow> ret None
     | Some (status, a) \<Rightarrow>
         if length (tx_paths tx) \<noteq> 2 \<or> afmail_push_path \<notin> set (tx_paths tx) then ret None
         else (case transaction_message_id (tx_paths tx) of None \<Rightarrow> ret None
           | Some mid \<Rightarrow> if \<not> e_valid_segment (ke_env env) mid then ret None
               else bind_io (read_message_overlaid env mid) (\<lambda>m.
                 if mf_status m \<noteq> message_status_as_str status then ret None
                 else bind_io (in_mail (message_push_items (ke_env env) mid)) (\<lambda>items.
                   ret (case items of [it] \<Rightarrow>
                     if has_started_effects it \<and> map_option mp_action (item_message it) = Some a
                     then Some AbortedDiscardUndo else None
                   | _ \<Rightarrow> None))))))"

definition planned_repair :: "kenv \<Rightarrow> string \<times> transaction_file \<Rightarrow> (string \<times> transaction_repair) kcmd" where
  "planned_repair env t = bind_io (repair_action env (snd t)) (\<lambda>r. case r of
     None \<Rightarrow> fail (app_error_new ''transaction_incomplete'' (''transaction '' @ fst t @ '' cannot be repaired automatically''))
   | Some a \<Rightarrow> ret (fst t, a))"

definition run_repair :: "kenv \<Rightarrow> string \<times> transaction_repair \<Rightarrow> unit kcmd" where
  "run_repair env r = then_io (case snd r of RepairCaseArchive uid \<Rightarrow> recover_case_archive_transaction env uid
     | AbortedDiscardUndo \<Rightarrow> ret ()) (remove_transaction env (fst r))"

definition repair_incomplete_transactions :: "kenv \<Rightarrow> unit kcmd" where
  "repair_incomplete_transactions env = then_io (ktouch env ''read transactions'')
     (bind_io (gets (\<lambda>w. sort_key fst (kw_tx w))) (\<lambda>txs.
      bind_io (map_io (planned_repair env) txs) (\<lambda>repairs. for_io repairs (run_repair env))))"

text \<open>The messages that cases name and the store does not have, as doctor reports them.\<close>

definition check_case_refs :: "kenv \<Rightarrow> (string \<times> string) list kcmd" where
  "check_case_refs env = bind_io (all_case_entries env) (\<lambda>es. bind_io (map_io (\<lambda>(uid, k).
     bind_io (read_case_messages env k uid) (\<lambda>co.
     bind_io (gets (\<lambda>w. filter (\<lambda>mid. map_of (w_messages (kw_mail w)) mid = None) (co_message_ids co))) (\<lambda>missing.
     ret (map (Pair uid) missing)))) es) (\<lambda>iss. ret (concat iss)))"

end
