(* ===== verification/Case_Frame.thy ===== *)
theory Case_Frame
  imports Case_Requests
begin

text \<open>
  What reading and refreshing leave alone.  A predicate that the mail part of the workspace cannot change
  survives every operation that writes no case directory, no transaction and no request: the locale
  states that contract once.  On top of it stands symbolic execution over the directories and the
  transactions: \<open>sees\<close> for what a read tells about them, \<open>leads\<close> for what holds however a command ends.
\<close>

section \<open>Rules for the primitives\<close>

lemma hoare_kdisk:
  assumes "\<And>w. P w \<Longrightarrow> Q () (f (ktick w)) \<and> C (f (ktick w)) \<and> (\<forall>m. E (app_error_io ctxt m) (f (ktick w)))"
    and "\<And>w. P w \<Longrightarrow> C (ktick w) \<and> (\<forall>m. E (app_error_io ctxt m) (ktick w))"
  shows "hoare P (kdisk env ctxt f) Q E C"
  using assms by (simp add: hoare_def kdisk_def split: disk_event.splits)

lemma hoare_in_mail:
  assumes "\<And>w v. P w \<Longrightarrow> C (w\<lparr>kw_mail := v\<rparr>) \<and> (\<forall>e. E e (w\<lparr>kw_mail := v\<rparr>)) \<and> (\<forall>a. Q a (w\<lparr>kw_mail := v\<rparr>))"
  shows "hoare P (in_mail m) Q E C"
  using assms by (auto simp: hoare_def in_mail_def split: prod.split outcome.split)

lemma keeps_split_prod: "(\<And>a b. keeps I (f a b)) \<Longrightarrow> keeps I (case x of (a, b) \<Rightarrow> f a b)"
  by (cases x) simp

lemma keeps_any_io: "(\<And>x. keeps I (f x)) \<Longrightarrow> keeps I (any_io xs f)"
  by (induction xs) (auto intro!: keeps_bind keeps_ret keeps_if)

lemma keeps_case_text:
  "keeps I m \<Longrightarrow> (\<And>co. keeps I (f co)) \<Longrightarrow> keeps I (case t of CaseJson co \<Rightarrow> f co | NotJson \<Rightarrow> m)"
  by (cases t) auto

lemma ktick_sel [simp]:
  "kw_dirs (ktick w) = kw_dirs w" "kw_tx (ktick w) = kw_tx w" "kw_requests (ktick w) = kw_requests w"
  "kw_started (ktick w) = kw_started w" "dir_at k (ktick w) = dir_at k w"
  by (simp_all add: ktick_def dir_at_def)

section \<open>The frame\<close>

locale kframe =
  fixes I :: "kworld \<Rightarrow> bool"
  assumes mail_free: "I w \<Longrightarrow> I (w\<lparr>kw_mail := v\<rparr>)"
begin

lemma keeps_in_mail: "keeps I (in_mail m)"
  by (rule hoare_in_mail) (simp add: mail_free)

lemma keeps_touch: "keeps I (ktouch env ctxt)"
  unfolding ktouch_def by (rule hoare_kdisk) (simp_all add: ktick_def mail_free)

lemma keeps_kask: "keeps I (kask rep)"
  unfolding kask_def by (rule keeps_in_mail)

lemma keeps_know: "keeps I (know env)"
  unfolding know_def by (rule keeps_in_mail)

lemmas k_rules = hoare_rules keeps_in_mail keeps_touch keeps_kask keeps_know keeps_split_prod keeps_any_io keeps_case_text

lemma keeps_require_workspace: "keeps I (require_workspace env)"
  unfolding require_workspace_def by (rule keeps_touch)

lemma keeps_container: "keeps I (remove_empty_case_container_dir env)"
  unfolding remove_empty_case_container_dir_def by (rule keeps_touch)

lemma keeps_checked_reason: "keeps I (checked_reason env reason)"
  unfolding checked_reason_def Let_def by (intro k_rules)

lemma keeps_kaudit: "keeps I (kaudit env kind ts)"
  unfolding kaudit_def by (rule keeps_in_mail)

lemma keeps_read_case_file: "keeps I (read_case_file env k)"
  unfolding read_case_file_def by (intro k_rules)

lemma keeps_read_case_messages: "keeps I (read_case_messages env k uid)"
  unfolding read_case_messages_def by (intro k_rules keeps_read_case_file)

lemma keeps_case_name: "keeps I (case_name env k)"
  unfolding case_name_def by (intro k_rules keeps_read_case_file)

lemma keeps_entries_under: "keeps I (entries_under env r ctxt)"
  unfolding entries_under_def by (intro k_rules keeps_read_case_file)

lemma keeps_entries: "keeps I (case_entries env)" "keeps I (archived_case_entries env)" "keeps I (all_case_entries env)"
  unfolding case_entries_def archived_case_entries_def all_case_entries_def
  by (intro k_rules keeps_entries_under)+

lemma keeps_find: "keeps I (find_case_by_uid env uid)" "keeps I (find_archived_case_by_uid env uid)"
  unfolding find_case_by_uid_def find_archived_case_by_uid_def by (intro k_rules keeps_entries)+

lemma keeps_resolve_active: "keeps I (resolve_active_case env c)"
  unfolding resolve_active_case_def by (intro k_rules keeps_find)

lemma keeps_resolve_any: "keeps I (resolve_case_any env c)"
  unfolding resolve_case_any_def by (intro k_rules keeps_find keeps_read_case_file)

lemma keeps_resolve_unarchive: "keeps I (resolve_unarchive_case env c)"
  unfolding resolve_unarchive_case_def by (intro k_rules keeps_find keeps_read_case_file)

lemma keeps_next_uid: "keeps I (next_case_uid env d)"
  unfolding next_case_uid_def by (intro k_rules keeps_entries)

lemma keeps_index: "keeps I (build_case_index env)"
  unfolding build_case_index_def index_entry_def by (intro k_rules keeps_entries keeps_read_case_messages)

lemma keeps_overlay_index: "keeps I (materialized_overlay_index env)"
  unfolding materialized_overlay_index_def by (intro k_rules keeps_index)

lemma keeps_read_overlaid: "keeps I (read_message_overlaid env mid)"
  unfolding read_message_overlaid_def by (intro k_rules keeps_overlay_index)

lemma keeps_refresh_message: "keeps I (refresh_message_after_ref_change env mid)"
  unfolding refresh_message_after_ref_change_def Let_def
  by (intro k_rules keeps_overlay_index keeps_read_overlaid keeps_index)

lemma keeps_refresh_messages: "keeps I (refresh_messages_after_ref_change env mids)"
  unfolding refresh_messages_after_ref_change_def by (intro k_rules keeps_refresh_message)

lemma keeps_refresh_views: "keeps I (refresh_case_message_views env k)"
  unfolding refresh_case_message_views_def by (intro k_rules keeps_read_case_file keeps_read_overlaid)

lemma keeps_no_incomplete: "keeps I (ensure_no_incomplete_transactions env)"
  unfolding ensure_no_incomplete_transactions_def by (intro k_rules)

lemma keeps_json_reference: "keeps I (case_json_reference env mids k)"
  unfolding case_json_reference_def read_case_value_def by (intro k_rules)

lemma keeps_collect_active: "keeps I (collect_active_case_references env mids)"
  unfolding collect_active_case_references_def by (intro k_rules keeps_entries keeps_json_reference)

lemma keeps_collect_drafts: "keeps I (collect_draft_references_except_case env mids ignored)"
  unfolding collect_draft_references_except_case_def by (intro k_rules keeps_entries)

lemma keeps_eligibility: "keeps I (archive_eligibility_inner env mid arch)"
  unfolding archive_eligibility_inner_def Let_def
  by (intro k_rules keeps_read_overlaid keeps_index keeps_collect_active keeps_collect_drafts)

lemma keeps_eligible_ids: "keeps I (eligible_ids env arch b mids)"
proof (induction mids)
  case (Cons mid mids)
  show ?case unfolding eligible_ids.simps by (intro k_rules keeps_eligibility Cons)
qed (simp add: keeps_ret)

lemma keeps_locations_with_ids: "keeps I (message_locations_with_ids env mids)"
  unfolding message_locations_with_ids_def by (intro k_rules keeps_read_overlaid)

lemma keeps_preflight: "keeps I (preflight_archive_eligibility env mids arch)"
  unfolding preflight_archive_eligibility_def preflight_archive_actions_def
  by (intro k_rules keeps_eligible_ids keeps_locations_with_ids)

lemma keeps_queue_archive: "keeps I (queue_archive_for_archived_messages env mids arch)"
  unfolding queue_archive_for_archived_messages_def remove_case_add_push_def queue_archive_plan_def
  by (intro k_rules keeps_eligible_ids keeps_locations_with_ids)

lemma keeps_local_drafts: "keeps I (local_draft_names env k)"
  unfolding local_draft_names_def by (intro k_rules)

lemma keeps_outbound: "keeps I (outbound_pushes_for_case env uid)"
  unfolding outbound_pushes_for_case_def by (intro k_rules)

lemma keeps_guards:
  "keeps I (ensure_case_has_no_local_drafts env uid k)" "keeps I (ensure_case_has_no_outbound_push env uid)"
  "keeps I (ensure_case_drafts_can_archive env uid k)" "keeps I (ensure_no_name_conflicts env ns ns' label)"
  unfolding ensure_case_has_no_local_drafts_def ensure_case_has_no_outbound_push_def ensure_no_name_conflicts_def
    ensure_case_drafts_can_archive_def Let_def by (intro k_rules keeps_local_drafts keeps_outbound)+

lemma keeps_pending_work: "keeps I (case_has_pending_archive_work env uid mids)"
  unfolding case_has_pending_archive_work_def by (intro k_rules keeps_read_overlaid)

lemma keeps_remove_pushes: "keeps I (remove_pending_message_pushes_for_messages env mids kind)"
  unfolding remove_pending_message_pushes_for_messages_def by (intro k_rules)

lemma keeps_queue_for: "keeps I (queue_for_messages env kind mids steps)"
  unfolding queue_for_messages_def by (intro k_rules)

lemma keeps_clear: "keeps I (clear_message_from_all_dispositions env mid)"
  unfolding clear_message_from_all_dispositions_def by (rule keeps_kask)

lemma keeps_prepare: "keeps I (prepare_case_create env name grp mid summary reason)"
  unfolding prepare_case_create_def Let_def
  by (intro k_rules keeps_require_workspace keeps_checked_reason keeps_next_uid)

lemma keeps_unreferenced: "keeps I (ensure_case_messages_unreferenced_except env uid k mids)"
  unfolding ensure_case_messages_unreferenced_except_def
  by (intro k_rules keeps_entries keeps_json_reference keeps_collect_drafts)

lemma keeps_trash_messages: "keeps I (trash_messages_workspace env mids)"
  unfolding trash_messages_workspace_def by (intro k_rules keeps_read_overlaid)

lemmas frame_rules = k_rules keeps_require_workspace keeps_container keeps_checked_reason keeps_kaudit
  keeps_read_case_file keeps_read_case_messages keeps_case_name keeps_entries keeps_find keeps_resolve_active
  keeps_resolve_any keeps_resolve_unarchive keeps_refresh_messages keeps_refresh_message keeps_refresh_views keeps_no_incomplete
  keeps_preflight keeps_queue_archive keeps_guards keeps_pending_work keeps_remove_pushes keeps_queue_for
  keeps_clear keeps_prepare keeps_unreferenced keeps_trash_messages keeps_read_overlaid

end

end
