(* ===== verification/Case_Registry.thy ===== *)
theory Case_Registry
  imports Case_Frame
begin

text \<open>
  Symbolic execution of the case commands over what they share: the case file of every directory and
  the transactions.  \<open>sees\<close> states what a read tells about that view, \<open>leads\<close> what a command may leave
  of it when it returns, fails or is killed; the registry is the contract every command keeps.
\<close>

section \<open>Views\<close>

datatype case_view = View (v_files: "case_key \<Rightarrow> case_text option") (v_tx: "(string \<times> transaction_file) list")

definition at_view :: "case_view \<Rightarrow> kworld \<Rightarrow> bool" where
  "at_view V w \<longleftrightarrow> distinct (map fst (kw_dirs w)) \<and> (\<forall>k. cd_json (dir_at k w) = v_files V k) \<and> kw_tx w = v_tx V"

interpretation viewed: kframe "at_view V" for V
  by unfold_locales (simp add: at_view_def dir_at_def)

definition sees :: "case_view \<Rightarrow> 'a kcmd \<Rightarrow> ('a \<Rightarrow> bool) \<Rightarrow> bool" where
  "sees V m Q \<longleftrightarrow> hoare (at_view V) m (\<lambda>a w. at_view V w \<and> Q a) (\<lambda>_. at_view V) (at_view V)"

definition somewhere :: "(case_view \<Rightarrow> bool) \<Rightarrow> kworld \<Rightarrow> bool" where
  "somewhere J w \<longleftrightarrow> (\<exists>V. at_view V w \<and> J V)"

lemma somewhereI [intro]: "at_view V w \<Longrightarrow> J V \<Longrightarrow> somewhere J w"
  unfolding somewhere_def by blast

lemma somewhereE: "somewhere J w \<Longrightarrow> (\<And>V. at_view V w \<Longrightarrow> J V \<Longrightarrow> thesis) \<Longrightarrow> thesis"
  unfolding somewhere_def by blast

lemma somewhere_mono: "somewhere J w \<Longrightarrow> (\<And>V. J V \<Longrightarrow> J' V) \<Longrightarrow> somewhere J' w"
  unfolding somewhere_def by blast

definition leads :: "case_view \<Rightarrow> 'a kcmd \<Rightarrow> ('a \<Rightarrow> case_view \<Rightarrow> bool) \<Rightarrow> (case_view \<Rightarrow> bool) \<Rightarrow> bool" where
  "leads V m R J \<longleftrightarrow> hoare (at_view V) m (\<lambda>a. somewhere (R a)) (\<lambda>_. somewhere J) (somewhere J)"

subsection \<open>Reading\<close>

lemma sees_frame: "keeps (at_view V) m \<Longrightarrow> sees V m (\<lambda>_. True)"
  by (simp add: sees_def)

lemma sees_weaken: "sees V m Q \<Longrightarrow> (\<And>a. Q a \<Longrightarrow> R a) \<Longrightarrow> sees V m R"
  unfolding sees_def by (erule hoare_weaken) auto

lemma sees_pre: "sees V m Q \<Longrightarrow> hoare (at_view V) m (\<lambda>a w. at_view V w \<and> Q a) (\<lambda>_. at_view V) (at_view V)"
  by (simp add: sees_def)

lemma sees_bind: "sees V m Q \<Longrightarrow> (\<And>a. Q a \<Longrightarrow> sees V (f a) R) \<Longrightarrow> sees V (bind_io m f) R"
  unfolding sees_def
  by (rule hoare_bind, assumption) (auto simp: hoare_def)

lemma sees_then: "keeps (at_view V) m \<Longrightarrow> sees V n R \<Longrightarrow> sees V (then_io m n) R"
  unfolding then_io_def by (rule sees_bind [OF sees_frame])

lemma sees_ret: "Q a \<Longrightarrow> sees V (ret a) Q"
  by (simp add: sees_def hoare_def ret_def)

lemma sees_fail: "sees V (fail e) Q"
  by (simp add: sees_def hoare_def fail_def)

lemma sees_gets: "(\<And>w. at_view V w \<Longrightarrow> Q (f w)) \<Longrightarrow> sees V (gets f) Q"
  by (simp add: sees_def hoare_def gets_def)

lemma sees_of_res: "(\<And>a. r = Inr a \<Longrightarrow> Q a) \<Longrightarrow> sees V (of_res r) Q"
  by (cases r) (auto simp: sees_def hoare_def of_res_def ret_def fail_def)

lemma sees_if: "(b \<Longrightarrow> sees V m Q) \<Longrightarrow> (\<not> b \<Longrightarrow> sees V n Q) \<Longrightarrow> sees V (if b then m else n) Q"
  by simp

lemma sees_map:
  assumes "\<And>x. x \<in> set xs \<Longrightarrow> sees V (f x) (Q x)"
  shows "sees V (map_io f xs) (\<lambda>ys. list_all2 Q xs ys)"
  using assms
proof (induction xs)
  case (Cons x xs)
  show ?case unfolding map_io.simps
    by (rule sees_bind [OF Cons.prems], simp, rule sees_bind [OF Cons.IH])
      (auto intro: Cons.prems sees_ret)
qed (simp add: sees_ret)

subsection \<open>Commands\<close>

lemma leads_weaken: "leads V m R J \<Longrightarrow> (\<And>a V'. R a V' \<Longrightarrow> R' a V') \<Longrightarrow> (\<And>V'. J V' \<Longrightarrow> J' V') \<Longrightarrow> leads V m R' J'"
  unfolding leads_def by (erule hoare_weaken) (auto elim: somewhere_mono)

lemma leads_ret: "R a V \<Longrightarrow> leads V (ret a) R J"
  by (auto simp: leads_def hoare_def ret_def)

lemma leads_fail: "J V \<Longrightarrow> leads V (fail e) R J"
  by (auto simp: leads_def hoare_def fail_def)

lemma hoare_somewhere: "(\<And>V. J V \<Longrightarrow> hoare (at_view V) m Q E C) \<Longrightarrow> hoare (somewhere J) m Q E C"
proof (rule hoare_assume)
  fix s
  assume h: "\<And>V. J V \<Longrightarrow> hoare (at_view V) m Q E C" and s: "somewhere J s"
  obtain V where V: "at_view V s" "J V" using s by (rule somewhereE)
  show "hoare ((=) s) m Q E C" by (rule hoare_pre [OF h [OF V(2)]]) (use V(1) in simp)
qed

lemma leads_seq:
  assumes "leads V m R' J" "\<And>a V'. R' a V' \<Longrightarrow> leads V' (f a) R J"
  shows "leads V (bind_io m f) R J"
  unfolding leads_def
  by (rule hoare_bind [OF assms(1) [unfolded leads_def]], rule hoare_somewhere) (rule assms(2) [unfolded leads_def])

lemma leads_bind:
  assumes "sees V m Q" "J V" "\<And>a. Q a \<Longrightarrow> leads V (f a) R J"
  shows "leads V (bind_io m f) R J"
proof (rule leads_seq)
  show "leads V m (\<lambda>a V'. V' = V \<and> Q a) J"
    using assms(1) unfolding leads_def sees_def
    by (rule hoare_weaken) (use assms(2) in \<open>auto simp: somewhere_def\<close>)
qed (use assms(3) in blast)

lemma leads_then: "keeps (at_view V) m \<Longrightarrow> J V \<Longrightarrow> leads V n R J \<Longrightarrow> leads V (then_io m n) R J"
  unfolding then_io_def by (rule leads_bind [OF sees_frame])

lemma leads_frame: "keeps (at_view V) m \<Longrightarrow> J V \<Longrightarrow> (\<And>a. R a V) \<Longrightarrow> leads V m R J"
  unfolding leads_def by (erule hoare_weaken) auto

lemma leads_disk:
  assumes "\<And>w. at_view V w \<Longrightarrow> at_view V' (f w)" "J V" "J V'" "R () V'"
  shows "leads V (kdisk env ctxt f) R J"
  unfolding leads_def
proof (rule hoare_kdisk)
  fix w assume "at_view V w"
  then have t: "at_view V (ktick w)" by (simp add: at_view_def)
  then have "at_view V' (f (ktick w))" by (rule assms(1))
  then show "somewhere (R ()) (f (ktick w)) \<and> somewhere J (f (ktick w)) \<and> (\<forall>m. somewhere J (f (ktick w)))"
    using assms by blast
  show "somewhere J (ktick w) \<and> (\<forall>m. somewhere J (ktick w))" using t assms by blast
qed

lemma leads_step:
  "(\<And>w. at_view V w \<Longrightarrow> at_view V' (f w)) \<Longrightarrow> J V \<Longrightarrow> J V' \<Longrightarrow> leads V' n R J
    \<Longrightarrow> leads V (then_io (kdisk env ctxt f) n) R J"
  unfolding then_io_def by (rule leads_seq [where R' = "\<lambda>_ V''. V'' = V'"], rule leads_disk) auto

lemma leads_then_seq: "leads V m (\<lambda>_. R') J \<Longrightarrow> (\<And>V'. R' V' \<Longrightarrow> leads V' n R J) \<Longrightarrow> leads V (then_io m n) R J"
  unfolding then_io_def by (rule leads_seq)

lemma leads_if: "(b \<Longrightarrow> leads V m R J) \<Longrightarrow> (\<not> b \<Longrightarrow> leads V n R J) \<Longrightarrow> leads V (if b then m else n) R J"
  by simp

lemma leads_when:
  "(b \<Longrightarrow> leads V m (\<lambda>_. R) J) \<Longrightarrow> (\<not> b \<Longrightarrow> R V) \<Longrightarrow> leads V (when_io b m) (\<lambda>_. R) J"
  by (cases b) (auto simp: when_io_def intro: leads_ret)

text \<open>A loop whose passes keep a property of the view.\<close>

lemma leads_for:
  assumes "\<And>x V. J V \<Longrightarrow> x \<in> set xs \<Longrightarrow> leads V (f x) (\<lambda>_. J) J" "J V"
  shows "leads V (for_io xs f) (\<lambda>_. J) J"
  using assms
proof (induction xs arbitrary: V)
  case (Cons x xs)
  show ?case unfolding for_io.simps
    by (rule leads_then_seq [OF Cons.prems(1)]) (use Cons in auto)
qed (simp add: leads_ret)

lemma leads_match:
  assumes "leads V m R' J'" "\<And>a V'. R' a V' \<Longrightarrow> leads V' (f a) R J" "\<And>e V'. J' V' \<Longrightarrow> leads V' (h e) R J"
    "\<And>V'. J' V' \<Longrightarrow> J V'"
  shows "leads V (match_io m f h) R J"
  unfolding leads_def
proof (rule hoare_match)
  show "hoare (at_view V) m (\<lambda>a. somewhere (R' a)) (\<lambda>_. somewhere J') (somewhere J)"
    using assms(1) unfolding leads_def by (rule hoare_weaken) (use assms(4) in \<open>auto elim: somewhere_mono\<close>)
qed (use assms(2,3) in \<open>auto simp: leads_def intro: hoare_somewhere\<close>)

text \<open>A disk that never fails: two writes have no state between them.\<close>

lemma kdisk_healthy: "\<forall>n. e_disk (ke_env env) n = DiskOk \<Longrightarrow> kdisk env ctxt f w = (Done (), f (ktick w))"
  by (simp add: kdisk_def)

lemma leads_healthy:
  assumes "\<forall>n. e_disk (ke_env env) n = DiskOk" "\<And>w. at_view V w \<Longrightarrow> at_view V' (f w)" "R () V'"
  shows "leads V (kdisk env ctxt f) R J"
proof -
  have "at_view V (ktick w)" if "at_view V w" for w using that by (simp add: at_view_def)
  then show ?thesis unfolding leads_def hoare_def
    using assms by (auto simp: kdisk_healthy)
qed

section \<open>How writes change the view\<close>

lemma at_put_json: "at_view V w \<Longrightarrow> at_view (View ((v_files V)(k := Some (CaseJson co))) (v_tx V)) (put_dir k (\<lambda>d. d\<lparr>cd_json := Some (CaseJson co)\<rparr>) w)"
  by (auto simp: at_view_def put_dir_def dir_at_def distinct_put)

lemma at_put_same:
  assumes "\<And>d. cd_json (f d) = cd_json d"
  shows "at_view V w \<Longrightarrow> at_view V (put_dir k f w)"
  using assms by (auto simp: at_view_def put_dir_def dir_at_def distinct_put)

lemma at_put_none: "at_view V w \<Longrightarrow> at_view (View ((v_files V)(k := None)) (v_tx V)) (put_dir k (\<lambda>d. d\<lparr>cd_json := None\<rparr>) w)"
  by (auto simp: at_view_def put_dir_def dir_at_def distinct_put)

lemma at_drop: "at_view V w \<Longrightarrow> at_view (View ((v_files V)(k := None)) (v_tx V)) (drop_dir k w)"
  by (auto simp: at_view_def drop_dir_def dir_at_def distinct_remove empty_dir_def)

lemma at_move: "at_view V w \<Longrightarrow> at_view (View ((v_files V)(k := None, k' := v_files V k)) (v_tx V)) (move_dir k k' w)"
  by (auto simp: at_view_def move_dir_def put_dir_def drop_dir_def dir_at_def distinct_put distinct_remove empty_dir_def
      split: option.split)

lemma at_tx: "at_view V w \<Longrightarrow> at_view (View (v_files V) T) (w\<lparr>kw_tx := T\<rparr>)"
  by (simp add: at_view_def dir_at_def)

section \<open>What reads tell\<close>

definition case_at :: "kenv \<Rightarrow> case_view \<Rightarrow> case_key \<Rightarrow> message_collection \<Rightarrow> bool" where
  "case_at env V k co \<longleftrightarrow> v_files V k = Some (CaseJson co)
     \<and> check_case_file (ke_env env) (ke_naming env) (key_name k) co = Inr ()"

lemma case_at_fun: "case_at env V k co \<Longrightarrow> case_at env V k co' \<Longrightarrow> co' = co"
  by (simp add: case_at_def)

lemma sees_case_file: "sees V (read_case_file env k) (case_at env V k)"
  unfolding read_case_file_def
proof (rule sees_then [OF viewed.keeps_touch], rule sees_bind [OF sees_gets [where Q = "\<lambda>t. t = v_files V k"]])
  fix t assume "t = v_files V k"
  then show "sees V (case t of None \<Rightarrow> fail (err_no_such_file ''read case metadata'')
      | Some NotJson \<Rightarrow> fail (app_error_io ''parse case metadata'' ''invalid JSON'')
      | Some (CaseJson co) \<Rightarrow> then_io (of_res (check_case_file (ke_env env) (ke_naming env) (key_name k) co)) (ret co))
      (case_at env V k)"
    by (auto split: option.split case_text.split intro!: sees_fail sees_ret simp: then_io_def case_at_def
        intro!: sees_bind [OF sees_of_res [where Q = "\<lambda>u. check_case_file (ke_env env) (ke_naming env) (key_name k) co = Inr ()" for co]])
qed (simp add: at_view_def)

lemma sees_case_messages: "sees V (read_case_messages env k uid) (\<lambda>co. case_at env V k co \<and> co_uid co = uid)"
  unfolding read_case_messages_def
  by (rule sees_bind [OF sees_case_file]) (auto intro: sees_ret sees_fail)

text \<open>The entries of a root are its readable cases, each with its uid.\<close>

definition lists_cases :: "kenv \<Rightarrow> case_view \<Rightarrow> (case_key \<Rightarrow> bool) \<Rightarrow> (string \<times> case_key) list \<Rightarrow> bool" where
  "lists_cases env V P es \<longleftrightarrow> (\<forall>(uid, k) \<in> set es. P k \<and> (\<exists>co. case_at env V k co \<and> co_uid co = uid))
     \<and> (\<forall>k co. P k \<longrightarrow> case_at env V k co \<longrightarrow> (co_uid co, k) \<in> set es)"

lemma sees_entries_under: "sees V (entries_under env r ctxt) (lists_cases env V (\<lambda>k. key_root k = r))"
  unfolding entries_under_def
proof (rule sees_then [OF viewed.keeps_touch], rule sees_bind [OF sees_gets
    [where Q = "\<lambda>ks. set ks = {k. key_root k = r \<and> v_files V k \<noteq> None}"]])
  fix w assume w: "at_view V w"
  have mem: "map_of (kw_dirs w) k = Some d \<longleftrightarrow> (k, d) \<in> set (kw_dirs w)" for k d
    using w by (simp add: at_view_def)
  show "set (keys_under r w) = {k. key_root k = r \<and> v_files V k \<noteq> None}"
  proof (intro set_eqI)
    fix k
    have "k \<in> set (keys_under r w) \<longleftrightarrow> key_root k = r \<and> (\<exists>d. (k, d) \<in> set (kw_dirs w) \<and> cd_json d \<noteq> None)"
      by (force simp: keys_under_def)
    also have "\<dots> \<longleftrightarrow> key_root k = r \<and> cd_json (dir_at k w) \<noteq> None"
      unfolding mem [symmetric] by (auto simp: dir_at_def empty_dir_def split: option.splits)
    finally show "k \<in> set (keys_under r w) \<longleftrightarrow> k \<in> {k. key_root k = r \<and> v_files V k \<noteq> None}"
      using w by (simp add: at_view_def)
  qed
next
  fix ks assume ks: "set ks = {k. key_root k = r \<and> v_files V k \<noteq> None}"
  have "sees V (map_io (\<lambda>k. bind_io (read_case_file env k) (\<lambda>co. ret (co_uid co, k))) ks)
      (\<lambda>es. list_all2 (\<lambda>k e. snd e = k \<and> (\<exists>co. case_at env V k co \<and> co_uid co = fst e)) ks es)"
    by (rule sees_map, rule sees_bind [OF sees_case_file], rule sees_ret) auto
  then show "sees V (map_io (\<lambda>k. bind_io (read_case_file env k) (\<lambda>co. ret (co_uid co, k))) ks)
      (lists_cases env V (\<lambda>k. key_root k = r))"
  proof (rule sees_weaken)
    fix es assume l: "list_all2 (\<lambda>k e. snd e = k \<and> (\<exists>co. case_at env V k co \<and> co_uid co = fst e)) ks es"
    have fwd: "k \<in> set ks \<and> (\<exists>co. case_at env V k co \<and> co_uid co = uid)" if "(uid, k) \<in> set es" for uid k
    proof -
      obtain i where i: "i < length es" "es ! i = (uid, k)" using \<open>(uid, k) \<in> set es\<close> by (auto simp: in_set_conv_nth)
      have "i < length ks" using l i by (simp add: list_all2_conv_all_nth)
      moreover have "snd (es ! i) = ks ! i \<and> (\<exists>co. case_at env V (ks ! i) co \<and> co_uid co = fst (es ! i))"
        using list_all2_nthD2 [OF l] i by blast
      ultimately show ?thesis using i by (metis fst_conv nth_mem snd_conv)
    qed
    have bwd: "\<exists>uid. (uid, k) \<in> set es" if "k \<in> set ks" for k
      using that l unfolding list_all2_conv_all_nth in_set_conv_nth by (metis prod.collapse)
    show "lists_cases env V (\<lambda>k. key_root k = r) es"
      unfolding lists_cases_def
    proof (intro conjI ballI allI impI)
      fix e assume "e \<in> set es"
      then show "case e of (uid, k) \<Rightarrow> key_root k = r \<and> (\<exists>co. case_at env V k co \<and> co_uid co = uid)"
        using fwd ks by (cases e) auto
    next
      fix k co assume k: "key_root k = r" "case_at env V k co"
      then have "k \<in> set ks" using ks by (simp add: case_at_def)
      then obtain uid where "(uid, k) \<in> set es" using bwd by blast
      then show "(co_uid co, k) \<in> set es" using fwd case_at_fun k(2) by metis
    qed
  qed
qed

lemma sees_case_entries: "sees V (case_entries env) (lists_cases env V (\<lambda>k. key_root k = ActiveCases))"
  unfolding case_entries_def by (rule sees_entries_under)

lemma sees_archived_entries: "sees V (archived_case_entries env) (lists_cases env V (\<lambda>k. key_root k = ArchivedCases))"
  unfolding archived_case_entries_def
  by (rule sees_bind [OF sees_entries_under], rule sees_ret) (simp add: lists_cases_def)

lemma root_cases: "key_root k = ActiveCases \<or> key_root k = ArchivedCases"
  by (cases "key_root k") auto

lemma sees_all_entries: "sees V (all_case_entries env) (lists_cases env V (\<lambda>_. True))"
  unfolding all_case_entries_def
  by (rule sees_bind [OF sees_case_entries], rule sees_bind [OF sees_archived_entries], rule sees_ret)
    (use root_cases in \<open>fastforce simp: lists_cases_def\<close>)

text \<open>A lookup by uid finds the case, or there is none under that root.\<close>

definition finds :: "kenv \<Rightarrow> case_view \<Rightarrow> case_root \<Rightarrow> string \<Rightarrow> case_key option \<Rightarrow> bool" where
  "finds env V r uid x \<longleftrightarrow> (case x of
     Some k \<Rightarrow> key_root k = r \<and> (\<exists>co. case_at env V k co \<and> co_uid co = uid)
   | None \<Rightarrow> \<forall>k co. key_root k = r \<longrightarrow> case_at env V k co \<longrightarrow> co_uid co \<noteq> uid)"

lemma finds_unique:
  assumes "lists_cases env V (\<lambda>k. key_root k = r) es" "unique_entry what uid es = Inr x"
  shows "finds env V r uid x"
proof -
  consider "filter (\<lambda>e. fst e = uid) es = []" "x = None" | e where "filter (\<lambda>e. fst e = uid) es = [e]" "x = Some (snd e)"
    using assms(2) by (auto simp: unique_entry_def split: list.splits)
  then show ?thesis
  proof cases
    case 1
    then show ?thesis using assms(1) by (fastforce simp: finds_def lists_cases_def filter_empty_conv)
  next
    case 2
      then have "e \<in> set (filter (\<lambda>e. fst e = uid) es)" by simp
    then have "e \<in> set es" "fst e = uid" by auto
    moreover have "\<forall>e \<in> set es. key_root (snd e) = r \<and> (\<exists>co. case_at env V (snd e) co \<and> co_uid co = fst e)"
      using assms(1) by (simp add: lists_cases_def case_prod_unfold)
    ultimately show ?thesis using 2(2) by (auto simp: finds_def)
  qed
qed

lemma sees_find: "sees V (find_case_by_uid env uid) (finds env V ActiveCases uid)"
  unfolding find_case_by_uid_def
  by (rule sees_then [OF keeps_of_res], rule sees_bind [OF sees_case_entries], rule sees_of_res, erule finds_unique)

lemma sees_find_archived: "sees V (find_archived_case_by_uid env uid) (finds env V ArchivedCases uid)"
  unfolding find_archived_case_by_uid_def
  by (rule sees_then [OF keeps_of_res], rule sees_bind [OF sees_archived_entries], rule sees_of_res, erule finds_unique)

lemma sees_resolve_active:
  "sees V (resolve_active_case env c) (\<lambda>(uid, k). key_root k = ActiveCases \<and> (\<exists>co. case_at env V k co \<and> co_uid co = uid))"
  unfolding resolve_active_case_def
proof (rule sees_bind [OF sees_of_res [where Q = "\<lambda>_. True"]], simp, rule sees_bind [OF sees_find])
  fix uid x assume "finds env V ActiveCases uid x"
  then show "sees V (case x of Some k \<Rightarrow> ret (uid, k) | None \<Rightarrow> bind_io (find_archived_case_by_uid env uid) (\<lambda>b.
      case b of Some _ \<Rightarrow> fail (err_case_archived uid) | None \<Rightarrow> fail (err_case_not_found uid)))
      (\<lambda>(uid, k). key_root k = ActiveCases \<and> (\<exists>co. case_at env V k co \<and> co_uid co = uid))"
    by (cases x) (auto simp: finds_def intro!: sees_ret sees_bind [OF sees_find_archived] sees_fail split: option.split)
qed

definition resolved :: "kenv \<Rightarrow> case_view \<Rightarrow> (case_root \<Rightarrow> bool) \<Rightarrow> string \<times> case_key \<times> string \<Rightarrow> bool" where
  "resolved env V P x \<longleftrightarrow> (case x of (uid, k, status) \<Rightarrow> P (key_root k) \<and> status_fits (key_root k) status
     \<and> (\<exists>co. case_at env V k co \<and> co_uid co = uid \<and> co_status co = status))"

lemma sees_resolved:
  assumes "P (key_root k)" "\<exists>co. case_at env V k co \<and> co_uid co = uid"
  shows "sees V (bind_io (read_case_file env k) (\<lambda>co. then_io (of_res (check_status k co)) (ret (uid, k, co_status co))))
    (resolved env V P)"
proof (rule sees_bind [OF sees_case_file])
  fix co assume co: "case_at env V k co"
  then have "co_uid co = uid" using assms(2) case_at_fun by blast
  then show "sees V (then_io (of_res (check_status k co)) (ret (uid, k, co_status co))) (resolved env V P)"
    unfolding then_io_def
    by (intro sees_bind [OF sees_of_res [where Q = "\<lambda>_. status_fits (key_root k) (co_status co)"]] sees_ret)
      (use assms(1) co in \<open>auto simp: check_status_def resolved_def\<close>)
qed

lemma sees_resolve_any: "sees V (resolve_case_any env c) (resolved env V (\<lambda>_. True))"
  unfolding resolve_case_any_def
proof (rule sees_bind [OF sees_of_res [where Q = "\<lambda>_. True"]], simp, rule sees_bind [OF sees_find])
  fix uid x assume "finds env V ActiveCases uid x"
  then show "sees V (case x of Some k \<Rightarrow> bind_io (read_case_file env k) (\<lambda>co.
         then_io (of_res (check_status k co)) (ret (uid, k, co_status co)))
     | None \<Rightarrow> bind_io (find_archived_case_by_uid env uid) (\<lambda>b. case b of
         Some k \<Rightarrow> bind_io (read_case_file env k) (\<lambda>co.
           then_io (of_res (check_status k co)) (ret (uid, k, co_status co)))
       | None \<Rightarrow> fail (err_case_not_found uid))) (resolved env V (\<lambda>_. True))"
    by (cases x) (auto simp: finds_def intro!: sees_resolved sees_bind [OF sees_find_archived] sees_fail split: option.split)
qed

lemma sees_resolve_unarchive: "sees V (resolve_unarchive_case env c) (resolved env V (\<lambda>r. r = ArchivedCases))"
  unfolding resolve_unarchive_case_def
proof (rule sees_bind [OF sees_of_res [where Q = "\<lambda>_. True"]], simp, rule sees_bind [OF sees_find_archived])
  fix uid x assume "finds env V ArchivedCases uid x"
  then show "sees V (case x of Some k \<Rightarrow> bind_io (read_case_file env k) (\<lambda>co.
         then_io (of_res (check_status k co)) (ret (uid, k, co_status co)))
     | None \<Rightarrow> fail (app_error_new ''case_not_found'' (''archived case not found: '' @ uid))) (resolved env V (\<lambda>r. r = ArchivedCases))"
    by (cases x) (auto simp: finds_def intro!: sees_resolved sees_fail split: option.split)
qed

lemma sees_absent: "sees V (gets (dir_exists k)) (\<lambda>ex. \<not> ex \<longrightarrow> v_files V k = None)"
  by (rule sees_gets) (auto simp: at_view_def dir_exists_def dir_at_def empty_dir_def split: option.splits)

end
