(* ===== verification/Case_Safety.thy ===== *)
theory Case_Safety
  imports Case_Registry
begin

text \<open>
  What every case command keeps of the registry, however it ends.  A command rewrites a case file it has
  read, moves or creates a directory, or drops one whose messages are filed elsewhere; the locale
  \<open>case_inv\<close> states what an invariant owes these four changes, and each command is run through it once.
\<close>

section \<open>Changes of the view\<close>

definition put_case :: "case_key \<Rightarrow> message_collection \<Rightarrow> case_view \<Rightarrow> case_view" where
  "put_case k co V = View ((v_files V)(k := Some (CaseJson co))) (v_tx V)"

definition drop_case :: "case_key \<Rightarrow> case_view \<Rightarrow> case_view" where
  "drop_case k V = View ((v_files V)(k := None)) (v_tx V)"

lemma put_case_sel [simp]: "v_tx (put_case k co V) = v_tx V" "v_files (put_case k co V) = (v_files V)(k := Some (CaseJson co))"
  "v_tx (drop_case k V) = v_tx V" "v_files (drop_case k V) = (v_files V)(k := None)"
  by (simp_all add: put_case_def drop_case_def)

definition check_key :: "kenv \<Rightarrow> case_key \<Rightarrow> message_collection \<Rightarrow> bool" where
  "check_key env k co \<longleftrightarrow> check_case_file (ke_env env) (ke_naming env) (key_name k) co = Inr ()"

lemma case_at_check: "case_at env V k co \<longleftrightarrow> v_files V k = Some (CaseJson co) \<and> check_key env k co"
  by (simp add: case_at_def check_key_def)

lemma case_at_same: "v_files V' = v_files V \<Longrightarrow> case_at env V' k co = case_at env V k co"
  by (simp add: case_at_def)

lemma leads_any: "keeps (at_view V) m \<Longrightarrow> J V \<Longrightarrow> (\<And>a. leads V (f a) R J) \<Longrightarrow> leads V (bind_io m f) R J"
  by (rule leads_bind [OF sees_frame])

lemma leads_tail: "keeps (at_view V) m \<Longrightarrow> J V \<Longrightarrow> leads V m (\<lambda>_. J) J"
  by (rule leads_frame)

lemma leads_write:
  assumes "J V" "check_key env k co \<Longrightarrow> J (put_case k co V)"
  shows "leads V (write_case_file env k co) (\<lambda>_ V'. V' = put_case k co V \<and> check_key env k co \<and> J V') J"
  unfolding write_case_file_def then_io_def
proof (rule leads_bind [OF sees_of_res [where Q = "\<lambda>_. check_key env k co"]])
  show "leads V (kdisk env ''write json'' (put_dir k (\<lambda>d. d\<lparr>cd_json := Some (CaseJson co)\<rparr>)))
      (\<lambda>_ V'. V' = put_case k co V \<and> check_key env k co \<and> J V') J" if "check_key env k co"
    by (rule leads_disk [where V' = "put_case k co V"])
      (use assms that in \<open>auto simp: put_case_def intro: at_put_json\<close>)
qed (use assms in \<open>auto simp: check_key_def\<close>)

lemma leads_move_dir:
  "J V \<Longrightarrow> J (put_case k' co (drop_case k V)) \<Longrightarrow> v_files V k = Some (CaseJson co)
    \<Longrightarrow> leads V (kdisk env ctxt (move_dir k k')) (\<lambda>_ V'. V' = put_case k' co (drop_case k V) \<and> J V') J"
  by (rule leads_disk [where V' = "put_case k' co (drop_case k V)"])
    (auto simp: put_case_def drop_case_def dest: at_move [where k = k and k' = k'])

lemma leads_remove_dir:
  assumes "J V" "J (drop_case k V)"
  shows "leads V (remove_case_dir env k) (\<lambda>_ V'. V' = drop_case k V \<and> J V') J"
  unfolding remove_case_dir_def
proof (rule leads_any, rule keeps_gets, rule assms(1))
  fix b
  have dropped: "at_view (drop_case k V) w \<Longrightarrow> at_view (drop_case k V) (drop_dir k w)" for w
    using at_drop [of "drop_case k V" w k] by (simp add: drop_case_def)
  have "leads V (if b then kdisk env ''remove directory'' (put_dir k (\<lambda>d. d\<lparr>cd_json := None\<rparr>))
       else kdisk env ''remove directory'' (put_dir k (\<lambda>d. d\<lparr>cd_notes := None, cd_files := [], cd_drafts := []\<rparr>)))
      (\<lambda>_ V'. V' = V \<or> V' = drop_case k V) J"
  proof (rule leads_if)
    show "leads V (kdisk env ''remove directory'' (put_dir k (\<lambda>d. d\<lparr>cd_json := None\<rparr>))) (\<lambda>_ V'. V' = V \<or> V' = drop_case k V) J"
      by (rule leads_disk [where V' = "drop_case k V"]) (use assms in \<open>auto simp: drop_case_def intro: at_put_none\<close>)
    show "leads V (kdisk env ''remove directory'' (put_dir k (\<lambda>d. d\<lparr>cd_notes := None, cd_files := [], cd_drafts := []\<rparr>)))
        (\<lambda>_ V'. V' = V \<or> V' = drop_case k V) J"
      by (rule leads_disk [where V' = V]) (use assms in \<open>auto intro: at_put_same\<close>)
  qed
  then show "leads V (then_io (if b then kdisk env ''remove directory'' (put_dir k (\<lambda>d. d\<lparr>cd_json := None\<rparr>))
       else kdisk env ''remove directory'' (put_dir k (\<lambda>d. d\<lparr>cd_notes := None, cd_files := [], cd_drafts := []\<rparr>)))
      (kdisk env ''remove directory'' (drop_dir k))) (\<lambda>_ V'. V' = drop_case k V \<and> J V') J"
  proof (rule leads_then_seq)
    fix V' assume V': "V' = V \<or> V' = drop_case k V"
    show "leads V' (kdisk env ''remove directory'' (drop_dir k)) (\<lambda>_ V'. V' = drop_case k V \<and> J V') J"
      by (rule leads_disk [where V' = "drop_case k V"])
        (use V' assms in \<open>auto simp: drop_case_def intro: at_drop dropped [unfolded drop_case_def]\<close>)
  qed
qed

lemma leads_notes: "J V \<Longrightarrow> (\<And>d. cd_json (f d) = cd_json d) \<Longrightarrow> leads V (kdisk env ctxt (put_dir k f)) (\<lambda>_ V'. V' = V) J"
  by (rule leads_disk [where V' = V]) (auto intro: at_put_same)

section \<open>Transactions\<close>

definition pending_of :: "string \<Rightarrow> rel list \<Rightarrow> case_view \<Rightarrow> string \<Rightarrow> case_view \<Rightarrow> bool" where
  "pending_of kind paths V tid V' \<longleftrightarrow> v_files V' = v_files V
     \<and> (\<exists>tx. v_tx V' = [(tid, tx)] \<and> tx_kind tx = kind \<and> tx_paths tx = paths)"

lemma leads_begin:
  assumes "J V" "v_tx V = []" "\<And>tid V'. pending_of kind paths V tid V' \<Longrightarrow> J V'"
  shows "leads V (begin_transaction env kind paths) (\<lambda>tid V'. pending_of kind paths V tid V' \<and> J V') J"
  unfolding begin_transaction_def Let_def
proof (rule leads_then, rule keeps_of_res, rule assms(1), rule leads_then, rule viewed.keeps_touch, rule assms(1),
    rule leads_any, rule viewed.keeps_know, rule assms(1))
  fix t
  let ?V = "View (v_files V) [(unique_transaction_id kind t, \<lparr>tx_kind = kind, tx_created = t, tx_paths = paths\<rparr>)]"
  have p: "pending_of kind paths V (unique_transaction_id kind t) ?V" by (auto simp: pending_of_def)
  show "leads V (then_io (kdisk env ''write json'' (\<lambda>w. w\<lparr>kw_tx := put (unique_transaction_id kind t)
      \<lparr>tx_kind = kind, tx_created = t, tx_paths = paths\<rparr> (kw_tx w)\<rparr>)) (ret (unique_transaction_id kind t)))
      (\<lambda>tid V'. pending_of kind paths V tid V' \<and> J V') J"
  proof (rule leads_step [where V' = ?V])
    fix w assume "at_view V w"
    then show "at_view ?V (w\<lparr>kw_tx := put (unique_transaction_id kind t)
        \<lparr>tx_kind = kind, tx_created = t, tx_paths = paths\<rparr> (kw_tx w)\<rparr>)"
      using assms(2) by (simp add: at_view_def dir_at_def)
  qed (use assms p in \<open>auto intro: leads_ret\<close>)
qed

lemma leads_remove_transaction:
  assumes "J V" "J (View (v_files V) (remove tid (v_tx V)))"
  shows "leads V (remove_transaction env tid) (\<lambda>_ V'. V' = (View (v_files V) (remove tid (v_tx V))) \<and> J V') J"
  unfolding remove_transaction_def
proof (rule leads_bind [OF sees_gets [where Q = "\<lambda>ex. ex = (map_of (v_tx V) tid \<noteq> None)"]])
  fix ex assume ex: "ex = (map_of (v_tx V) tid \<noteq> None)"
  have none: "remove tid (v_tx V) = v_tx V" if "\<not> ex"
  proof -
    have "tid \<notin> fst ` set (v_tx V)" using that ex by (simp add: map_of_eq_None_iff)
    then show ?thesis by (force simp: remove_def filter_id_conv)
  qed
  show "leads V (when_io ex (kdisk env ''remove file'' (\<lambda>w. w\<lparr>kw_tx := remove tid (kw_tx w)\<rparr>)))
      (\<lambda>_ V'. V' = (View (v_files V) (remove tid (v_tx V))) \<and> J V') J"
  proof (rule leads_when)
    show "leads V (kdisk env ''remove file'' (\<lambda>w. w\<lparr>kw_tx := remove tid (kw_tx w)\<rparr>))
        (\<lambda>_ V'. V' = (View (v_files V) (remove tid (v_tx V))) \<and> J V') J"
      by (rule leads_disk [where V' = "(View (v_files V) (remove tid (v_tx V)))"])
        (use assms in \<open>auto simp: at_view_def dir_at_def\<close>)
    show "V = (View (v_files V) (remove tid (v_tx V))) \<and> J V" if "\<not> ex" using none [OF that] assms(1) by simp
  qed
qed (use assms in \<open>auto simp: at_view_def\<close>)

section \<open>The registry\<close>

text \<open>
  Every case file is readable where it lies, its status fits the root, and a uid names one case;
  \<open>X\<close> is an exception to the status.
\<close>

definition registry_but :: "kenv \<Rightarrow> (case_key \<Rightarrow> message_collection \<Rightarrow> bool) \<Rightarrow> case_view \<Rightarrow> bool" where
  "registry_but env X V \<longleftrightarrow>
     (\<forall>k t. v_files V k = Some t \<longrightarrow> (\<exists>co. t = CaseJson co \<and> check_key env k co
        \<and> (status_fits (key_root k) (co_status co) \<or> X k co)))
     \<and> (\<forall>k k' co co'. v_files V k = Some (CaseJson co) \<longrightarrow> v_files V k' = Some (CaseJson co') \<longrightarrow> co_uid co = co_uid co' \<longrightarrow> k = k')"

definition registry_ok :: "kenv \<Rightarrow> case_view \<Rightarrow> bool" where
  "registry_ok env V \<longleftrightarrow> registry_but env (\<lambda>_ _. False) V"

definition half_archived :: "string \<Rightarrow> case_key \<Rightarrow> message_collection \<Rightarrow> bool" where
  "half_archived uid k co \<longleftrightarrow> key_root k = ArchivedCases \<and> co_status co = [] \<and> co_uid co = uid"

definition registry_inv :: "kenv \<Rightarrow> case_view \<Rightarrow> bool" where
  "registry_inv env V \<longleftrightarrow> length (v_tx V) \<le> 1 \<and> (registry_ok env V
     \<or> (\<exists>tid tx uid. v_tx V = [(tid, tx)] \<and> repairable_case_archive_uid (ke_env env) tx = Some uid
          \<and> registry_but env (half_archived uid) V))"

lemma registry_butD:
  "registry_but env X V \<Longrightarrow> v_files V k = Some (CaseJson co) \<Longrightarrow> check_key env k co \<and> (status_fits (key_root k) (co_status co) \<or> X k co)"
  unfolding registry_but_def by blast

lemma registry_but_unique:
  "registry_but env X V \<Longrightarrow> v_files V k = Some (CaseJson co) \<Longrightarrow> v_files V k' = Some (CaseJson co') \<Longrightarrow> co_uid co = co_uid co' \<Longrightarrow> k = k'"
  unfolding registry_but_def by blast

lemma registry_but_put:
  assumes "registry_but env X V" "check_key env k co" "status_fits (key_root k) (co_status co) \<or> X k co"
    and "\<And>k' co'. k' \<noteq> k \<Longrightarrow> v_files V k' = Some (CaseJson co') \<Longrightarrow> co_uid co' \<noteq> co_uid co"
  shows "registry_but env X (put_case k co V)"
  unfolding registry_but_def put_case_sel
proof (intro conjI allI impI)
  fix k' t assume "((v_files V)(k := Some (CaseJson co))) k' = Some t"
  then show "\<exists>co. t = CaseJson co \<and> check_key env k' co \<and> (status_fits (key_root k') (co_status co) \<or> X k' co)"
    using assms unfolding registry_but_def by (cases "k' = k") auto
next
  fix k1 k2 c1 c2
  assume "((v_files V)(k := Some (CaseJson co))) k1 = Some (CaseJson c1)"
    "((v_files V)(k := Some (CaseJson co))) k2 = Some (CaseJson c2)" "co_uid c1 = co_uid c2"
  then show "k1 = k2"
    using assms(4) registry_but_unique [OF assms(1)] by (cases "k1 = k"; cases "k2 = k") auto
qed

lemma registry_but_drop: "registry_but env X V \<Longrightarrow> registry_but env X (drop_case k V)"
  by (auto simp: registry_but_def split: if_splits)

lemma registry_but_T: "registry_but env X V \<Longrightarrow> v_files V' = v_files V \<Longrightarrow> registry_but env X V'"
  by (simp add: registry_but_def)

lemma registry_but_mono: "registry_but env X V \<Longrightarrow> (\<And>k co. X k co \<Longrightarrow> Y k co) \<Longrightarrow> registry_but env Y V"
  unfolding registry_but_def by blast

lemma check_key_uid: "check_key env k co \<Longrightarrow> parse_case_ref (ke_env env) (key_name k) = Inr (co_uid co)"
  unfolding check_key_def by (rule check_case_file_uid)

lemma check_key_name:
  "check_key env k co \<Longrightarrow> parse_case_ref (ke_env env) (key_name k') = Inr (co_uid co) \<Longrightarrow> check_key env k' co"
  by (auto simp: check_key_def check_case_file_def bind_res_Inr_iff validate_case_collection_def)

section \<open>The contract of an invariant\<close>

text \<open>
  \<open>rewrite\<close>: a file read is written back with its uid, no message less, and a status it had or that fits;
  \<open>relocate\<close>: it moves to a free key; \<open>create\<close>: a file with a fresh uid; \<open>discard\<close>: a case goes whose
  messages another one has.
\<close>

definition no_less :: "case_key \<Rightarrow> message_collection \<Rightarrow> case_key \<Rightarrow> message_collection \<Rightarrow> bool" where
  "no_less k co k' co' \<longleftrightarrow> co_uid co' = co_uid co \<and> set (co_message_ids co) \<subseteq> set (co_message_ids co')
     \<and> (key_root k' = key_root k \<and> co_status co' = co_status co \<or> status_fits (key_root k') (co_status co'))"

locale case_inv =
  fixes env :: kenv and J :: "case_view \<Rightarrow> bool"
  assumes transacted: "J V \<Longrightarrow> v_files V' = v_files V \<Longrightarrow> length (v_tx V') \<le> 1 \<Longrightarrow> J V'"
    and one_transaction: "J V \<Longrightarrow> length (v_tx V) \<le> 1"
    and rewrite: "J V \<Longrightarrow> case_at env V k co \<Longrightarrow> check_key env k co' \<Longrightarrow> no_less k co k co' \<Longrightarrow> J (put_case k co' V)"
    and relocate: "J V \<Longrightarrow> case_at env V k co \<Longrightarrow> check_key env k' co' \<Longrightarrow> no_less k co k' co' \<Longrightarrow> v_files V k' = None
      \<Longrightarrow> J (put_case k' co' (drop_case k V))"
    and create: "J V \<Longrightarrow> v_files V k = None \<Longrightarrow> check_key env k co \<Longrightarrow> status_fits (key_root k) (co_status co)
      \<Longrightarrow> (\<And>k' co'. case_at env V k' co' \<Longrightarrow> co_uid co' \<noteq> co_uid co) \<Longrightarrow> J (put_case k co V)"
    and discard: "J V \<Longrightarrow> case_at env V k co \<Longrightarrow> (\<And>mid. mid \<in> set (co_message_ids co) \<Longrightarrow>
        \<exists>k' co'. k' \<noteq> k \<and> case_at env V k' co' \<and> mid \<in> set (co_message_ids co')) \<Longrightarrow> J (drop_case k V)"
begin

lemma leads_rewrite:
  assumes "J V" "case_at env V k co" "no_less k co k co'"
  shows "leads V (write_case_file env k co') (\<lambda>_ V'. V' = put_case k co' V \<and> case_at env V' k co' \<and> J V') J"
  by (rule leads_weaken [OF leads_write [where J = J]])
    (use assms in \<open>auto intro: rewrite simp: case_at_check\<close>)

lemma leads_begin_one:
  "J V \<Longrightarrow> v_tx V = [] \<Longrightarrow> leads V (begin_transaction env kind paths) (\<lambda>tid V'. pending_of kind paths V tid V' \<and> J V') J"
  by (rule leads_begin) (auto simp: pending_of_def intro: transacted)

lemma leads_commit:
  assumes "J V"
  shows "leads V (commit_transaction env tid) (\<lambda>_ V'. v_files V' = v_files V \<and> J V') J"
proof -
  have "length (remove tid (v_tx V)) \<le> 1"
    using order_trans [OF length_filter_le one_transaction [OF assms]] by (simp add: remove_def)
  then have "J (View (v_files V) (remove tid (v_tx V)))" using transacted [OF assms] by simp
  then show ?thesis unfolding commit_transaction_def
    by (intro leads_weaken [OF leads_remove_transaction [where J = J]]) (use assms in auto)
qed

text \<open>Read, change, write back.\<close>

lemma leads_update:
  assumes "J V" "\<And>co t. case_at env V k co \<Longrightarrow> no_less k co k (f co t)"
  shows "leads V (bind_io (read_case_file env k) (\<lambda>co. bind_io (know env) (\<lambda>t. write_case_file env k (f co t)))) (\<lambda>_. J) J"
proof (rule leads_bind, rule sees_case_file, rule assms(1))
  fix co assume co: "case_at env V k co"
  show "leads V (bind_io (know env) (\<lambda>t. write_case_file env k (f co t))) (\<lambda>_. J) J"
  proof (rule leads_any, rule viewed.keeps_know, rule assms(1))
    fix t
    show "leads V (write_case_file env k (f co t)) (\<lambda>_. J) J"
      by (rule leads_weaken, rule leads_rewrite [OF assms(1) co assms(2) [OF co]]) auto
  qed
qed

lemma leads_update_name: "J V \<Longrightarrow> leads V (update_case_name env k name) (\<lambda>_. J) J"
  unfolding update_case_name_def by (rule leads_update) (simp_all add: no_less_def co_message_ids_def)

lemma leads_archived:
  "J V \<Longrightarrow> key_root k = ArchivedCases \<Longrightarrow> leads V (update_case_archive_state env k True) (\<lambda>_. J) J"
  unfolding update_case_archive_state_def
  by (rule leads_update) (simp_all add: no_less_def archive_state_def status_fits_def co_message_ids_def)

lemma leads_archiving:
  "J V \<Longrightarrow> key_root k = ArchivedCases \<Longrightarrow> leads V (update_case_archiving_state env k) (\<lambda>_. J) J"
  unfolding update_case_archiving_state_def
  by (rule leads_update) (simp_all add: no_less_def status_fits_def co_message_ids_def)

lemma leads_update_tags: "J V \<Longrightarrow> leads V (update_case_tags env k add rem) (\<lambda>_. J) J"
  unfolding update_case_tags_def Let_def
proof (rule leads_bind, rule sees_case_file, assumption, rule leads_any, rule viewed.keeps_know, assumption, rule leads_then_seq)
  fix co t tags assume J: "J V" and co: "case_at env V k co"
  show "leads V (write_case_file env k (co\<lparr>co_tags := tags, co_updated := Some t\<rparr>)) (\<lambda>_. J) J"
    by (rule leads_weaken, rule leads_rewrite [OF J co]) (simp_all add: no_less_def co_message_ids_def)
qed (rule leads_ret)

end

end
