(* ===== verification/Case_Keeps.thy ===== *)
theory Case_Keeps
  imports Case_Safety
begin

text \<open>
  Every case command under the contract \<open>case_inv\<close>: from a view with the invariant and no pending
  transaction, the invariant holds when the command returns, fails or is killed.
\<close>

section \<open>What the guards establish\<close>

text \<open>The slugs of the library, for the names the commands accept: no slug is empty, and a uid in front of a
  valid segment is one.\<close>

definition slugs_ok :: "kenv \<Rightarrow> bool" where
  "slugs_ok env \<longleftrightarrow> (\<forall>uid name. uid_shape (CHR ''c'') uid \<longrightarrow> e_valid_segment (ke_env env) (na_slug (ke_naming env) name)
     \<longrightarrow> na_slug (ke_naming env) name \<noteq> [] \<and> e_valid_segment (ke_env env) (case_dir_name (ke_naming env) uid name))"

text \<open>No case has the last sequence number of a \<open>u64\<close>.\<close>

definition roomy :: "case_view \<Rightarrow> bool" where
  "roomy V \<longleftrightarrow> (\<forall>k co. v_files V k = Some (CaseJson co) \<longrightarrow> parse_u64 (drop 9 (co_uid co)) \<noteq> Some (- 1))"

lemma before_dash_uid:
  assumes "uid_shape (CHR ''c'') uid"
  shows "before_dash (uid @ CHR ''-'' # s) = uid"
proof -
  obtain u where u: "uid = CHR ''c'' # u" "list_all is_ascii_digit u"
    using assms by (cases uid) (auto simp: uid_shape_def)
  have "CHR ''-'' \<notin> set u"
  proof
    assume "CHR ''-'' \<in> set u"
    then have "is_ascii_digit (CHR ''-'')" using u(2) by (auto simp: list_all_iff)
    then show False by (simp add: is_ascii_digit_def)
  qed
  then have d: "\<forall>x \<in> set uid. x \<noteq> CHR ''-''" using u(1) by auto
  then have "takeWhile (\<lambda>c. c \<noteq> CHR ''-'') (uid @ CHR ''-'' # s) = uid" by (simp add: takeWhile_append2)
  then show ?thesis by (simp add: before_dash_def)
qed

lemma parse_dir_name:
  assumes "slugs_ok env" "uid_shape (CHR ''c'') uid" "validate_name (ke_env env) (ke_naming env) label name = Inr ()"
  shows "parse_case_ref (ke_env env) (case_dir_name (ke_naming env) uid name) = Inr uid"
proof -
  have "e_valid_segment (ke_env env) (na_slug (ke_naming env) name)"
    using assms(3) by (auto simp: validate_name_def validate_id_def split: if_splits)
  then have v: "na_slug (ke_naming env) name \<noteq> []" "e_valid_segment (ke_env env) (case_dir_name (ke_naming env) uid name)"
    using assms(1,2) by (auto simp: slugs_ok_def)
  have b: "before_dash (case_dir_name (ke_naming env) uid name) = uid"
    using before_dash_uid [OF assms(2)] by (simp add: case_dir_name_def)
  have c: "take 1 uid = [CHR ''c'']" using assms(2) by (cases uid) (auto simp: uid_shape_def)
  show ?thesis
    using v b c assms(2) unfolding parse_case_ref_def parse_uid_ref_def
    by (auto simp: validate_id_def require_def validate_case_uid_def validate_uid_def case_dir_name_def)
qed

lemma parsed_uid_shape: "parse_case_ref env d = Inr uid \<Longrightarrow> uid_shape (CHR ''c'') uid"
  by (auto simp: parse_case_ref_def bind_res_Inr_iff validate_case_uid_def validate_uid_def)

lemma case_at_uid_shape: "case_at env V k co \<Longrightarrow> uid_shape (CHR ''c'') (co_uid co)"
  using check_key_uid parsed_uid_shape by (fastforce simp: case_at_check)

lemma sees_next_uid:
  assumes "roomy V"
  shows "sees V (next_case_uid env date) (\<lambda>uid. \<forall>k co. case_at env V k co \<longrightarrow> co_uid co \<noteq> uid)"
  unfolding next_case_uid_def
proof (rule sees_bind [OF sees_all_entries], rule sees_of_res, intro allI impI)
  fix es uid k co
  assume l: "lists_cases env V (\<lambda>_. True) es" and n: "next_uid_for_date (CHR ''c'') date (map fst es) = Inr uid"
    and c: "case_at env V k co"
  have "uid \<notin> set (map fst es)"
  proof (rule next_uid_fresh [OF n])
    fix u assume "u \<in> set (map fst es)"
    then obtain k' co' where "case_at env V k' co'" "co_uid co' = u" using l by (auto simp: lists_cases_def)
    then have "parse_u64 (drop 9 u) \<noteq> Some (- 1)" using assms by (auto simp: roomy_def case_at_def)
    then show "uid_sequence (CHR ''c'') date u \<noteq> Some (- 1)" by (auto simp: uid_sequence_def split: option.splits)
  qed
  moreover have "co_uid co \<in> set (map fst es)" using l c by (force simp: lists_cases_def)
  ultimately show "co_uid co \<noteq> uid" by blast
qed

definition prepared_for :: "kenv \<Rightarrow> case_view \<Rightarrow> prepared_case \<Rightarrow> bool" where
  "prepared_for env V pc \<longleftrightarrow> key_root (pc_key pc) = ActiveCases \<and> v_files V (pc_key pc) = None
     \<and> (\<forall>k co. case_at env V k co \<longrightarrow> co_uid co \<noteq> pc_uid pc)"

lemma sees_any: "keeps (at_view V) m \<Longrightarrow> (\<And>a. sees V (f a) R) \<Longrightarrow> sees V (bind_io m f) R"
  by (rule sees_bind [OF sees_frame])

lemma sees_prepare:
  assumes "roomy V"
  shows "sees V (prepare_case_create env name grp mid summary reason) (prepared_for env V)"
  unfolding prepare_case_create_def Let_def
  by (rule sees_then, rule viewed.keeps_require_workspace,
      rule sees_any, intro viewed.frame_rules,
      rule sees_then, rule keeps_of_res, rule sees_then, intro viewed.frame_rules,
      rule sees_any, rule keeps_of_res, rule sees_any, rule viewed.keeps_kask,
      rule sees_then, rule keeps_of_res, rule sees_then, intro viewed.frame_rules,
      rule sees_any, intro viewed.frame_rules,
      rule sees_bind [OF sees_next_uid [OF assms]], rule sees_bind [OF sees_absent], rule sees_if,
      rule sees_fail, rule sees_ret)
    (simp add: prepared_for_def)

lemma new_case_file_sel [simp]:
  "co_uid (new_case_file uid name t its) = uid" "co_status (new_case_file uid name t its) = []"
  "co_items (new_case_file uid name t its) = its"
  by (simp_all add: new_case_file_def new_case_def new_collection_def)

section \<open>Commands\<close>

lemma leads_check: "J V \<Longrightarrow> (r = Inr () \<Longrightarrow> leads V n R J) \<Longrightarrow> leads V (then_io (of_res r) n) R J"
  unfolding then_io_def by (rule leads_bind [OF sees_of_res [where Q = "\<lambda>_. r = Inr ()"]]) simp_all

lemma leads_entry:
  "J V \<Longrightarrow> (\<And>r. leads V (f r) R J) \<Longrightarrow> leads V (then_io (require_workspace env) (bind_io (checked_reason env reason) f)) R J"
  by (rule leads_then, rule viewed.keeps_require_workspace, assumption, rule leads_any, rule viewed.keeps_checked_reason)

context case_inv
begin

lemma leads_guard:
  assumes "J V0" "v_files V0 k = None" "v_files (drop_case k V) = v_files V0" "J V"
  shows "leads V (drop_dir_guard env k) (\<lambda>_. J) J"
proof -
  have d: "J (drop_case k V)" using transacted [OF assms(1,3)] one_transaction [OF assms(4)] by simp
  show ?thesis unfolding drop_dir_guard_def
  proof (rule leads_any, rule keeps_gets, rule assms(4))
    fix ex
    have w: "leads V (when_io ex (remove_case_dir env k)) (\<lambda>_. J) J"
      by (rule leads_when, rule leads_weaken, rule leads_remove_dir [OF assms(4) d]) (use assms(4) in auto)
    show "leads V (match_io (when_io ex (remove_case_dir env k)) ret (\<lambda>_. ret ())) (\<lambda>_. J) J"
      by (rule leads_match [OF w]) (auto intro: leads_ret)
  qed
qed

text \<open>While the guard is armed the directories are the old ones, but for the new one.\<close>

definition only_new :: "case_view \<Rightarrow> case_key \<Rightarrow> case_view \<Rightarrow> bool" where
  "only_new V0 k V \<longleftrightarrow> J V \<and> v_files (drop_case k V) = v_files V0"

lemma leads_fill:
  assumes new: "only_new V0 (pc_key pc) V" "v_files V = v_files V0" and p: "prepared_for env V0 pc"
  shows "leads V (fill_new_case env pc tid) (\<lambda>_. J) (only_new V0 (pc_key pc))"
  unfolding fill_new_case_def Let_def
proof (rule leads_any, rule viewed.keeps_know, rule new(1))
  fix t
  let ?k = "pc_key pc" and ?co = "new_case_file (pc_uid pc) (pc_name pc) t (first_item pc t)"
  let ?N = "only_new V0 ?k"
  let ?mids = "co_message_ids ?co"
  have files: "v_files (drop_case ?k V) = v_files V0" using new(1) by (simp add: only_new_def)
  have made: "?N (put_case ?k ?co V)" if "check_key env ?k ?co"
  proof -
    have "J (put_case ?k ?co V)"
    proof (rule create)
      show "co_uid co' \<noteq> co_uid ?co" if "case_at env V k' co'" for k' co'
        using that p case_at_same [OF new(2)] by (simp add: prepared_for_def)
    qed (use new p that in \<open>simp_all add: only_new_def prepared_for_def status_fits_def\<close>)
    then show ?thesis using files by (simp add: only_new_def)
  qed
  have rest: "leads W (then_io (when_io (?mids \<noteq> []) (then_io (for_io ?mids (clear_message_from_all_dispositions env))
         (refresh_messages_after_ref_change env ?mids)))
     (then_io (refresh_case_message_views env ?k)
     (bind_io (if ?mids = [] then ret [] else
         bind_io (queue_for_messages env ''case.add'' ?mids (ac_case_add (mc_actions (pc_config pc)))) (\<lambda>(ls, item).
         ret (queue_fields ls item))) (\<lambda>queued. then_io (commit_transaction env tid) (ret (r queued))))))
     (\<lambda>_. J) ?N" if W: "?N W" for W r
  proof (rule leads_then, intro viewed.frame_rules, rule W, rule leads_then, rule viewed.keeps_refresh_views, rule W,
      rule leads_any, intro viewed.frame_rules, rule W)
    fix queued
    have "leads W (commit_transaction env tid) (\<lambda>_ V'. J V') ?N"
      unfolding commit_transaction_def
    proof (rule leads_weaken [OF leads_remove_transaction [where J = ?N]])
      have j: "J W" using W by (simp add: only_new_def)
      have "length (remove tid (v_tx W)) \<le> 1"
        using order_trans [OF length_filter_le one_transaction [OF j]] by (simp add: remove_def)
      then have "J (View (v_files W) (remove tid (v_tx W)))" using transacted [OF j] by simp
      then show "?N (View (v_files W) (remove tid (v_tx W)))" using W by (simp add: only_new_def)
    qed (use W in \<open>auto simp: only_new_def\<close>)
    then show "leads W (then_io (commit_transaction env tid) (ret (r queued))) (\<lambda>_. J) ?N"
      by (rule leads_then_seq) (rule leads_ret)
  qed
  show "leads V (then_io (write_case_file env ?k ?co) (bind_io (of_res (ke_new_notes env)) (\<lambda>notes.
      then_io (write_string_new env ?k notes)
     (then_io (when_io (?mids \<noteq> []) (then_io (for_io ?mids (clear_message_from_all_dispositions env))
         (refresh_messages_after_ref_change env ?mids)))
     (then_io (refresh_case_message_views env ?k)
     (bind_io (if ?mids = [] then ret [] else
         bind_io (queue_for_messages env ''case.add'' ?mids (ac_case_add (mc_actions (pc_config pc)))) (\<lambda>(ls, item).
         ret (queue_fields ls item))) (\<lambda>queued. then_io (commit_transaction env tid)
      (ret (JObj ([(''case_uid'', JStr (pc_uid pc)), (''case_name'', JStr (pc_name pc)),
         (''group'', JStr (key_group ?k)), (''message_ids'', jstrs ?mids),
         (''message_count'', JNum (int (length (co_items ?co)))), (''case_path'', JStr (show_rel (key_path ?k)))] @ queued)))))))))) (\<lambda>_. J) ?N"
  proof (rule leads_then_seq, rule leads_write, rule new(1), erule made)
    fix W assume "W = put_case ?k ?co V \<and> check_key env ?k ?co \<and> ?N W"
    then have W: "?N W" by (rule conjunct2 [OF conjunct2])
    show "leads W (bind_io (of_res (ke_new_notes env)) (\<lambda>notes. then_io (write_string_new env ?k notes)
     (then_io (when_io (?mids \<noteq> []) (then_io (for_io ?mids (clear_message_from_all_dispositions env))
         (refresh_messages_after_ref_change env ?mids)))
     (then_io (refresh_case_message_views env ?k)
     (bind_io (if ?mids = [] then ret [] else
         bind_io (queue_for_messages env ''case.add'' ?mids (ac_case_add (mc_actions (pc_config pc)))) (\<lambda>(ls, item).
         ret (queue_fields ls item))) (\<lambda>queued. then_io (commit_transaction env tid)
      (ret (JObj ([(''case_uid'', JStr (pc_uid pc)), (''case_name'', JStr (pc_name pc)),
         (''group'', JStr (key_group ?k)), (''message_ids'', jstrs ?mids),
         (''message_count'', JNum (int (length (co_items ?co)))), (''case_path'', JStr (show_rel (key_path ?k)))] @ queued))))))))) (\<lambda>_. J) ?N"
    proof (rule leads_any, rule keeps_of_res, rule W, rule leads_then_seq)
      fix body
      show "leads W (write_string_new env ?k body) (\<lambda>_ V'. V' = W) ?N"
        unfolding write_string_new_def
        by (rule leads_any, rule keeps_gets, rule W, rule leads_if, rule leads_fail, rule W, rule leads_notes, rule W) simp
    qed (use rest [OF W] in auto)
  qed
qed

lemma leads_prepared:
  assumes "J V" "v_tx V = []" and p: "prepared_for env V pc"
  shows "leads V (create_prepared_case env pc) (\<lambda>_. J) J"
  unfolding create_prepared_case_def Let_def
proof (rule leads_seq, rule leads_begin_one [OF assms(1,2)])
  fix tid V1 assume "pending_of ''case_create'' (create_paths pc) V tid V1 \<and> J V1"
  then have V1: "J V1" "v_files V1 = v_files V" by (auto simp: pending_of_def)
  let ?k = "pc_key pc"
  have none: "v_files V ?k = None" using p by (simp add: prepared_for_def)
  then have new: "only_new V ?k V1" using V1 by (auto simp: only_new_def)
  have g: "leads V1 (guarded_dir env ?k (fill_new_case env pc tid)) (\<lambda>_. J) J"
    unfolding guarded_dir_def
  proof (rule leads_match [OF leads_fill [OF new V1(2) p]])
    fix e V2 assume V2: "only_new V ?k V2"
    then show "leads V2 (then_io (drop_dir_guard env ?k) (fail e)) (\<lambda>_. J) J"
      by (intro leads_then_seq [OF leads_guard [OF assms(1) none]] leads_fail) (auto simp: only_new_def)
    show "J V2" using V2 by (simp add: only_new_def)
  qed (rule leads_ret)
  show "leads V1 (then_io (kdisk env ''create directory'' (put_dir ?k id)) (then_io (ktouch env ''create directory'')
     (then_io (ktouch env ''create directory'') (then_io (ktouch env ''create directory'')
     (bind_io (guarded_dir env ?k (fill_new_case env pc tid)) (\<lambda>result.
      then_io (kaudit env ''case_created'' [(''case'', pc_uid pc)]) (ret result))))))) (\<lambda>_. J) J"
  proof (rule leads_step [where V' = V1])
    show "leads V1 (then_io (ktouch env ''create directory'') (then_io (ktouch env ''create directory'')
      (then_io (ktouch env ''create directory'') (bind_io (guarded_dir env ?k (fill_new_case env pc tid)) (\<lambda>result.
      then_io (kaudit env ''case_created'' [(''case'', pc_uid pc)]) (ret result)))))) (\<lambda>_. J) J"
    proof ((rule leads_then, rule viewed.keeps_touch, rule V1(1))+, rule leads_seq [OF g])
      fix result V2 assume "J V2"
      then show "leads V2 (then_io (kaudit env ''case_created'' [(''case'', pc_uid pc)]) (ret result)) (\<lambda>_. J) J"
        by (intro leads_tail viewed.frame_rules)
    qed
  qed (use V1 in \<open>auto intro: at_put_same\<close>)
qed

lemma leads_create:
  assumes "J V" "v_tx V = []" "roomy V"
  shows "leads V (create_case env name grp mid summary reason) (\<lambda>_. J) J"
  unfolding create_case_def
proof (rule leads_bind, rule sees_prepare [OF assms(3)], rule assms(1))
  fix pc assume p: "prepared_for env V pc"
  show "leads V (create_prepared_case env pc) (\<lambda>_. J) J"
    by (rule leads_prepared [OF assms(1,2) p])
qed

lemma leads_add:
  assumes "J V"
  shows "leads V (add_message_to_case env c mid summary reason) (\<lambda>_. J) J"
proof -
  have inner: "leads V (add_message_to_existing_case env uid mid s k) (\<lambda>_. J) J" for uid s k
    unfolding add_message_to_existing_case_def Let_def
  proof (rule leads_any, rule viewed.keeps_kask, rule assms, rule leads_bind, rule sees_case_file, rule assms, rule leads_then_seq)
    fix co assume co: "case_at env V k co"
    show "leads V (when_io (\<not> contains_message co mid \<or> clean_summary s \<noteq> None) (bind_io (know env) (\<lambda>t.
        write_case_file env k ((upsert_item mid s t co)\<lparr>co_updated := Some t\<rparr>)))) (\<lambda>_. J) J"
    proof (rule leads_when, rule leads_any, rule viewed.keeps_know, rule assms)
      fix t
      have "no_less k co k ((upsert_item mid s t co)\<lparr>co_updated := Some t\<rparr>)"
        using upsert_ids [of mid s t co] by (auto simp: no_less_def co_message_ids_def)
      then show "leads V (write_case_file env k ((upsert_item mid s t co)\<lparr>co_updated := Some t\<rparr>)) (\<lambda>_. J) J"
        by (intro leads_weaken [OF leads_rewrite [OF assms co]]) auto
    qed (rule assms)
  qed (rule leads_tail, intro viewed.frame_rules)
  show ?thesis unfolding add_message_to_case_def Let_def
    by (rule leads_entry, rule assms, rule leads_any, rule keeps_of_res, rule assms, rule leads_then, rule keeps_of_res, rule assms,
        rule leads_any, rule viewed.keeps_resolve_active, rule assms, rule prod.induct, simp only: prod.case,
        rule leads_any, rule viewed.keeps_kask, rule assms, rule leads_then, rule viewed.keeps_in_mail, rule assms,
        rule leads_seq [OF inner], rule leads_tail, intro viewed.frame_rules)
qed

lemma leads_append_sent: "J V \<Longrightarrow> leads V (append_sent_message_to_case env k uid mid summary added) (\<lambda>_. J) J"
  unfolding append_sent_message_to_case_def
proof (rule leads_then, rule viewed.keeps_require_workspace, assumption, rule leads_bind, rule sees_case_messages,
    assumption, rule leads_any, rule viewed.keeps_know, assumption)
  fix co t assume J: "J V" and co: "case_at env V k co \<and> co_uid co = uid"
  have "no_less k co k ((upsert_item mid summary added co)\<lparr>co_updated := Some t\<rparr>)"
    using upsert_ids [of mid summary added co] by (auto simp: no_less_def co_message_ids_def)
  then show "leads V (write_case_file env k ((upsert_item mid summary added co)\<lparr>co_updated := Some t\<rparr>)) (\<lambda>_. J) J"
    by (intro leads_weaken [OF leads_rewrite [OF J conjunct1 [OF co]]]) auto
qed

lemma leads_set_summary:
  assumes J: "J V"
  shows "leads V (case_set_summary env c mid summary reason) (\<lambda>_. J) J"
  unfolding case_set_summary_def
proof (rule leads_entry, rule J,
    rule leads_any, rule viewed.keeps_resolve_any, rule J)
  fix x :: "string \<times> case_key \<times> string"
  obtain uid k s where x: "x = (uid, k, s)" by (cases x)
  show "leads V (case x of (uid, k, _) \<Rightarrow> then_io (of_res (validate_id (ke_env env) ''message_id'' mid))
      (bind_io (read_case_file env k) (\<lambda>co.
       if \<not> contains_message co mid then fail (err_case_message_not_found mid uid)
       else bind_io (know env) (\<lambda>t.
       then_io (write_case_file env k (co\<lparr>co_items := update_first (\<lambda>it. ci_message_id it = mid)
           (\<lambda>it. it\<lparr>ci_summary := Some (trim summary)\<rparr>) (co_items co), co_updated := Some t\<rparr>))
       (then_io (refresh_case_message_views env k)
       (then_io (kaudit env ''case_summary_set'' [(''case'', uid), (''message'', mid)])
       (ret (JObj [(''case_uid'', JStr uid), (''message_id'', JStr mid), (''summary'', JStr summary)])))))))) (\<lambda>_. J) J"
    unfolding x prod.case
  proof (rule leads_then, rule keeps_of_res, rule J, rule leads_bind, rule sees_case_file, rule J, rule leads_if, rule leads_fail,
      rule J, rule leads_any, rule viewed.keeps_know, rule J, rule leads_then_seq)
    fix co t assume co: "case_at env V k co"
    show "leads V (write_case_file env k (co\<lparr>co_items := update_first (\<lambda>it. ci_message_id it = mid)
           (\<lambda>it. it\<lparr>ci_summary := Some (trim summary)\<rparr>) (co_items co), co_updated := Some t\<rparr>)) (\<lambda>_. J) J"
      by (rule leads_weaken, rule leads_rewrite [OF J co]) (simp_all add: no_less_def co_message_ids_def del: set_map)
  qed (rule leads_tail, intro viewed.frame_rules)
qed

text \<open>A read case moves to a free key that fits its uid.\<close>

lemma leads_relocate:
  assumes "J V" "case_at env V k co" "check_key env k' co" "key_root k' = key_root k" "v_files V k' = None"
  shows "leads V (kdisk env ctxt (move_dir k k')) (\<lambda>_. J) J"
proof -
  have "J (put_case k' co (drop_case k V))"
    by (rule relocate [OF assms(1,2,3) _ assms(5)]) (use assms(4) in \<open>simp add: no_less_def\<close>)
  then show ?thesis
    by (intro leads_weaken [OF leads_move_dir [where J = J]]) (use assms(1,2) in \<open>auto simp: case_at_def\<close>)
qed

lemma leads_move:
  assumes J: "J V"
  shows "leads V (move_case env c grp reason) (\<lambda>_. J) J"
  unfolding move_case_def Let_def
proof (rule leads_entry, rule J,
    rule leads_then, rule keeps_of_res, rule J, rule leads_bind, rule sees_resolve_any, rule J, unfold split_beta,
    rule leads_if, rule leads_tail, intro viewed.frame_rules, rule J, rule leads_bind, rule sees_absent, rule J, rule leads_if,
    rule leads_fail, rule J, rule leads_then, rule viewed.keeps_touch, rule J, rule leads_then_seq)
  fix x :: "string \<times> case_key \<times> string" and ex
  let ?k = "fst (snd x)" and ?s = "snd (snd x) :: string"
  let ?t = "CaseKey (if ?s = [] then ActiveCases else ArchivedCases) grp (key_name ?k)"
  assume r: "resolved env V (\<lambda>_. True) x" and e: "\<not> ex \<longrightarrow> v_files V ?t = None" "\<not> ex"
  obtain co where co: "case_at env V ?k co" and s: "status_fits (key_root ?k) ?s"
    using r by (auto simp: resolved_def split_beta)
  have "key_root ?t = key_root ?k" using s by (cases "key_root ?k") (auto simp: status_fits_def)
  moreover have "check_key env ?t co" using co by (simp add: case_at_check check_key_def)
  ultimately show "leads V (kdisk env ''move case'' (move_dir ?k ?t)) (\<lambda>_. J) J"
    using leads_relocate [OF J co] e by blast
qed (rule leads_tail, intro viewed.frame_rules)

lemma leads_rename:
  assumes J: "J V" and slugs: "slugs_ok env"
  shows "leads V (rename_case env c name reason) (\<lambda>_. J) J"
  unfolding rename_case_def Let_def
proof (rule leads_entry, rule J, rule leads_check, rule J, rule leads_bind, rule sees_resolve_any, rule J, unfold split_beta,
    rule leads_any, rule viewed.keeps_case_name, rule J, rule leads_bind, rule sees_absent, rule J, rule leads_if,
    rule leads_fail, rule J, rule leads_then_seq)
  fix x :: "string \<times> case_key \<times> string" and ex
  let ?k = "fst (snd x)"
  let ?t = "CaseKey (key_root ?k) (key_group ?k) (case_dir_name (ke_naming env) (fst x) name)"
  assume n: "validate_name (ke_env env) (ke_naming env) ''case_name'' name = Inr ()"
    and r: "resolved env V (\<lambda>_. True) x" and e: "\<not> ex \<longrightarrow> v_files V ?t = None" "\<not> (?t \<noteq> ?k \<and> ex)"
  obtain co where co: "case_at env V ?k co" "co_uid co = fst x" using r by (auto simp: resolved_def split_beta)
  have "parse_case_ref (ke_env env) (key_name ?t) = Inr (co_uid co)"
    using parse_dir_name [OF slugs _ n] case_at_uid_shape [OF co(1)] co(2) by simp
  then have "check_key env ?t co" using co(1) by (auto simp: case_at_check intro: check_key_name)
  then show "leads V (when_io (?t \<noteq> ?k) (kdisk env ''rename case'' (move_dir ?k ?t))) (\<lambda>_. J) J"
    using leads_relocate [OF J co(1)] e J by (intro leads_when) auto
qed (rule leads_then_seq, erule leads_update_name, rule leads_tail, intro viewed.frame_rules)

lemma leads_tag:
  assumes J: "J V"
  shows "leads V (tag_or_untag env c tag reason b) (\<lambda>_. J) J"
  unfolding tag_or_untag_def
  by (rule leads_entry, rule J, rule leads_check, rule J, rule leads_any, rule viewed.keeps_resolve_active, rule J, unfold split_beta,
      rule leads_seq [OF leads_update_tags], rule J, rule leads_tail, intro viewed.frame_rules)

lemma leads_notes_append: "J V \<Longrightarrow> leads V (case_notes_append env c t) (\<lambda>_. J) J"
  unfolding case_notes_append_def
proof (rule leads_any, rule viewed.keeps_resolve_any, assumption, unfold split_beta, rule leads_then, rule viewed.keeps_touch,
    assumption, rule leads_any, rule keeps_gets, assumption)
  fix x :: "string \<times> case_key \<times> string" and old
  assume J: "J V"
  have w: "leads V (then_io (kdisk env ''write file'' (put_dir (fst (snd x)) (\<lambda>d. d\<lparr>cd_notes := Some n\<rparr>)))
      (then_io (kaudit env ''case_notes_appended'' [(''case'', fst x)]) (ret r))) (\<lambda>_. J) J" for n and r :: json
    by (rule leads_then_seq, rule leads_notes, rule J, simp, rule leads_tail, intro viewed.frame_rules) (use J in simp)
  show "leads V (case old of None \<Rightarrow> fail (notes_missing_error (fst (snd x)))
     | Some o' \<Rightarrow> then_io (kdisk env ''write file'' (put_dir (fst (snd x)) (\<lambda>d. d\<lparr>cd_notes := Some (ends_line (ends_line o' @ t))\<rparr>)))
         (then_io (kaudit env ''case_notes_appended'' [(''case'', fst x)]) (ret (notes_result (fst x) (fst (snd x)) t)))) (\<lambda>_. J) J"
    using w J by (auto intro: leads_fail split: option.split)
qed

lemma leads_notes_replace: "J V \<Longrightarrow> leads V (case_notes_replace env c t) (\<lambda>_. J) J"
  unfolding case_notes_replace_def
  by (rule leads_any, rule viewed.keeps_resolve_any, assumption, unfold split_beta, rule leads_then_seq, rule leads_notes,
      assumption, simp, rule leads_tail, intro viewed.frame_rules, simp)

lemma leads_finalize:
  assumes J: "J V"
  shows "leads V (finalize_archiving_cases env) (\<lambda>_. J) J"
  unfolding finalize_archiving_cases_def
proof (rule leads_bind, rule sees_archived_entries, rule J, rule leads_for)
  fix es e W
  assume l: "lists_cases env V (\<lambda>k. key_root k = ArchivedCases) es" and e: "e \<in> set es" and W: "J W"
  obtain uid k where x: "e = (uid, k)" by (cases e)
  have k: "key_root k = ArchivedCases" using l e x by (auto simp: lists_cases_def)
  show "leads W (finalize_archiving_case env e) (\<lambda>_. J) J"
    unfolding finalize_archiving_case_def x prod.case
    by (rule leads_any, rule viewed.keeps_read_case_file, rule W, rule leads_if, rule leads_ret, rule W,
        rule leads_any, rule viewed.keeps_pending_work, rule W, rule leads_if, rule leads_ret, rule W,
        rule leads_then_seq, rule leads_archived [OF W k], rule leads_tail, rule viewed.keeps_kaudit)
qed (rule J)

lemma leads_delete:
  assumes J: "J V" and T: "v_tx V = []"
  shows "leads V (delete_case env c allow reason) (\<lambda>_. J) J"
  unfolding delete_case_def delete_case_workspace_def Let_def
proof (rule leads_entry, rule J, rule leads_any, rule viewed.keeps_resolve_any, rule J, unfold split_beta,
    rule leads_check, rule J, rule leads_bind, rule sees_case_messages, rule J, rule leads_if, rule leads_fail, rule J,
    rule leads_then, rule viewed.keeps_guards, rule J, rule leads_then, rule viewed.keeps_guards, rule J,
    rule leads_any, rule keeps_gets, rule J, rule leads_if, rule leads_fail, rule J, rule leads_then, intro viewed.frame_rules, rule J,
    rule leads_if, rule leads_fail, rule J, rule leads_seq, rule leads_begin_one [OF J T], rule leads_then_seq)
  fix x :: "string \<times> case_key \<times> string" and co tid W
  let ?k = "fst (snd x)"
  assume co: "case_at env V ?k co \<and> co_uid co = fst x" "\<not> co_items co \<noteq> []"
    and W: "pending_of ''case_deleted'' [key_path ?k] V tid W \<and> J W"
  have files: "v_files W = v_files V" using W by (auto simp: pending_of_def)
  have "J (drop_case ?k W)"
    by (rule discard [OF conjunct2 [OF W]]) (use co case_at_same [OF files] in \<open>auto simp: co_message_ids_def\<close>)
  then show "leads W (remove_case_dir env ?k) (\<lambda>_. J) J"
    using W by (intro leads_weaken [OF leads_remove_dir [where J = J]]) auto
qed (rule leads_then, rule viewed.keeps_container, assumption, rule leads_then_seq, rule leads_weaken, erule leads_commit,
    erule conjunct2, assumption, rule leads_tail, intro viewed.frame_rules)

end

end
