(* ===== verification/Case_Unfiling.thy ===== *)
theory Case_Unfiling
  imports Case_Keeps
begin

text \<open>The commands that take messages out of a case or remove one case for another: merge, remove and
trash. An invariant that minds neither a message leaving its case nor a case going is a
\<open>case_inv_free\<close>.\<close>

lemma leads_res: "J V \<Longrightarrow> (\<And>a. r = Inr a \<Longrightarrow> leads V (f a) R J) \<Longrightarrow> leads V (bind_io (of_res r) f) R J"
  by (rule leads_bind [OF sees_of_res [where Q = "\<lambda>a. r = Inr a"]])

section \<open>Merging\<close>

context case_inv
begin

text \<open>The union is written before the other case goes, so its messages stay filed.\<close>

lemma leads_merge_rest:
  assumes W: "J W \<and> (\<exists>u. case_at env W k u \<and> set (co_message_ids co') \<subseteq> set (co_message_ids u)) \<and> case_at env W ko co' \<and> k \<noteq> ko"
    and r: "\<And>W. keeps (at_view W) r"
  shows "leads W (then_io (merge_case_notes env k ko uo) (then_io (move_children env ko k)
      (then_io (remove_case_dir env ko) (then_io (remove_empty_case_container_dir env)
      (then_io (refresh_messages_after_ref_change env (co_message_ids co')) (then_io (refresh_case_message_views env k)
      (then_io (kaudit env ''case_merged'' [(''case'', u), (''case'', uo)]) r))))))) (\<lambda>_. J) J"
proof -
  have J: "J W" using W by blast
  have "J (drop_case ko W)" by (rule discard [OF J]) (use W in blast)+
  then have rm: "leads W (remove_case_dir env ko) (\<lambda>_. J) J"
    by (intro leads_weaken [OF leads_remove_dir [where J = J]]) (use J in auto)
  have same: "leads W (kdisk env ctxt (put_dir k f)) (\<lambda>_ V'. V' = W) J" if "\<And>d. cd_json (f d) = cd_json d" for ctxt k f
    by (rule leads_notes [where J = J]) (rule J, rule that)
  have moved: "leads W (kdisk env ctxt g) (\<lambda>_ V'. V' = W) J" if "\<And>w. at_view W w \<Longrightarrow> at_view W (g w)" for ctxt g
    by (rule leads_disk [where V' = W]) (use J in \<open>auto intro: that\<close>)
  have loop: "leads W (for_io xs f) (\<lambda>_ V'. V' = W) J" if "\<And>a. leads W (f a) (\<lambda>_ V'. V' = W) J" for xs and f :: "'b \<Rightarrow> unit kcmd"
    by (induction xs) (auto intro!: leads_ret leads_then_seq [OF that])
  have notes_kept: "leads W (merge_case_notes env k ko uo) (\<lambda>_ V'. V' = W) J"
    unfolding merge_case_notes_def
  proof (rule leads_then, rule viewed.keeps_touch, rule J, rule leads_any, rule keeps_gets, rule J)
    fix p :: "string option \<times> string option"
    show "leads W (case p of (mine, theirs) \<Rightarrow> (case theirs of None \<Rightarrow> ret ()
      | Some t \<Rightarrow> if trim t = [] then ret ()
          else (case mine of None \<Rightarrow> fail (notes_missing_error k)
            | Some p \<Rightarrow> bind_io (of_res (ke_merged_notes env p uo t)) (\<lambda>merged.
                kdisk env ''write file'' (put_dir k (\<lambda>d. d\<lparr>cd_notes := Some merged\<rparr>)))))) (\<lambda>_ V'. V' = W) J"
      by (auto split: prod.split option.split intro!: leads_ret leads_fail J leads_any [OF keeps_of_res, where J = J] same)
  qed
  have children: "leads W (move_children env ko k) (\<lambda>_ V'. V' = W) J"
    unfolding move_children_def
  proof (rule leads_then, rule viewed.keeps_touch, rule J, rule leads_any, rule keeps_gets, rule J, rule leads_then_seq)
    show "leads W (for_io ns (\<lambda>n. kdisk env ''move child'' (move_file ko k n))) (\<lambda>_ V'. V' = W) J" for ns
      by (rule loop, rule moved) (auto simp: move_file_def intro!: at_put_same)
    fix V' assume "V' = W"
    then show "leads V' (then_io (ktouch env ''create directory'') (bind_io (gets (\<lambda>w. cd_drafts (dir_at ko w))) (\<lambda>ds.
       for_io ds (\<lambda>d. kdisk env ''move child'' (move_draft ko k d))))) (\<lambda>_ V'. V' = W) J"
      using J by (auto simp: move_draft_def intro!: leads_then [OF viewed.keeps_touch, where J = J]
          leads_any [OF keeps_gets, where J = J] loop moved at_put_same)
  qed
  show ?thesis
    by (rule leads_then_seq [OF notes_kept], simp, rule leads_then_seq [OF children], simp, rule leads_then_seq [OF rm],
        rule leads_tail, intro viewed.frame_rules r)
qed

lemma leads_merge:
  assumes J: "J V"
  shows "leads V (merge_case env c c' reason) (\<lambda>_. J) J"
  unfolding merge_case_def
proof (rule leads_entry, rule J, rule leads_bind, rule sees_resolve_active, rule J, unfold split_beta,
    rule leads_bind, rule sees_resolve_active, rule J, unfold split_beta, rule leads_if, rule leads_fail, rule J,
    (rule leads_then, rule viewed.keeps_guards, rule J)+, rule leads_any, rule keeps_gets, rule J,
    (rule leads_then, rule viewed.keeps_guards, rule J)+, rule leads_bind, rule sees_case_messages, rule J,
    rule leads_bind, rule sees_case_messages, rule J, rule leads_any, rule viewed.keeps_know, rule J, rule leads_then_seq)
  fix x y :: "string \<times> case_key" and co co' :: message_collection and t
  let ?k = "snd x" and ?o = "snd y"
  let ?u = "(merge_items (co_items co') co)\<lparr>co_updated := Some t\<rparr>"
  assume ne: "fst x \<noteq> fst y" and co: "case_at env V ?k co \<and> co_uid co = fst x"
    and co': "case_at env V ?o co' \<and> co_uid co' = fst y"
  have ids: "set (co_message_ids ?u) = set (co_message_ids co) \<union> set (co_message_ids co')"
    using merge_items_ids [of "co_items co'" co] by (simp add: co_message_ids_def)
  have "no_less ?k co ?k ?u" using ids by (simp add: no_less_def)
  then show "leads V (write_case_file env ?k ?u)
      (\<lambda>_ W. J W \<and> (\<exists>u. case_at env W ?k u \<and> set (co_message_ids co') \<subseteq> set (co_message_ids u)) \<and> case_at env W ?o co' \<and> ?k \<noteq> ?o) J"
  proof (rule leads_weaken [OF leads_rewrite [OF J conjunct1 [OF co]]])
    fix W assume W: "W = put_case ?k ?u V \<and> case_at env W ?k ?u \<and> J W"
    have "?k \<noteq> ?o"
    proof
      assume "?k = ?o"
      then have "co' = co" using co co' case_at_fun by metis
      then show False using ne co co' by simp
    qed
    then show "J W \<and> (\<exists>u. case_at env W ?k u \<and> set (co_message_ids co') \<subseteq> set (co_message_ids u)) \<and> case_at env W ?o co' \<and> ?k \<noteq> ?o"
      using W co' ids by (auto simp: case_at_def)
  qed
qed (rule leads_merge_rest, assumption, intro viewed.frame_rules)

end

section \<open>Commands that unfile messages\<close>

text \<open>An invariant that minds neither messages leaving a case nor a case going.\<close>

locale case_inv_free = case_inv +
  assumes rewrite_free: "J V \<Longrightarrow> case_at env V k co \<Longrightarrow> check_key env k co' \<Longrightarrow> co_uid co' = co_uid co
      \<Longrightarrow> co_status co' = co_status co \<Longrightarrow> J (put_case k co' V)"
    and discard_free: "J V \<Longrightarrow> J (drop_case k V)"
begin

lemma remove_case_item_frame:
  "remove_case_item t mid co = Some (it, co') \<Longrightarrow> co_uid co' = co_uid co \<and> co_status co' = co_status co"
  by (auto simp: remove_case_item_def)

lemma leads_remove_message_rest:
  assumes V: "J V" and r: "\<And>W p. keeps (at_view W) (r p)"
  shows "leads V (then_io (ktouch env ''remove file'')
      (bind_io (in_mail (remove_pending_message_pushes (ke_env env) mid dep))
      (\<lambda>push_ids. bind_io (read_message_overlaid env mid) (\<lambda>m.
       then_io (in_mail (put_message (ke_env env) mid (unfiled_message m)))
       (then_io (refresh_message_after_ref_change env mid)
       (then_io (in_mail (clear_message_pending_pushes (ke_env env) mid push_ids False))
       (then_io (refresh_case_message_views env k)
       (then_io (commit_transaction env tid) (then_io (kaudit env ''case_message_removed'' fs)
       (r push_ids)))))))))) (\<lambda>_. J) J"
  by (rule leads_then, rule viewed.keeps_touch, rule V, rule leads_any, rule viewed.keeps_in_mail, rule V,
      rule leads_any, rule viewed.keeps_read_overlaid, rule V, (rule leads_then, intro viewed.frame_rules, rule V)+,
      rule leads_then_seq, rule leads_commit [OF V], erule conjE, rule leads_tail, intro viewed.frame_rules r)

lemma leads_remove_message:
  assumes J: "J V" and T: "v_tx V = []"
  shows "leads V (remove_message_from_case env c mid reason) (\<lambda>_. J) J"
  unfolding remove_message_from_case_def remove_message_from_case_workspace_def
proof (rule leads_entry, rule J, rule leads_any, rule viewed.keeps_resolve_any, rule J, unfold split_beta,
    rule leads_check, rule J, rule leads_check, rule J, rule leads_bind, rule sees_case_messages, rule J,
    rule leads_any, rule viewed.keeps_know, rule J, rule leads_res, rule J,
    rule leads_seq, rule leads_begin_one [OF J T], rule leads_then_seq)
  fix x :: "string \<times> case_key \<times> string" and co t a tid W
  let ?k = "fst (snd x)"
  assume co: "case_at env V ?k co \<and> co_uid co = fst x"
    and r: "ok_or (err_case_message_not_found mid (fst x)) (remove_case_item t mid co) = Inr a"
    and W: "pending_of ''case_message_removed'' [key_path ?k, message_json_path mid, afmail_push_path] V tid W \<and> J W"
  obtain it co' where a: "a = (it, co')" by (cases a)
  have frame: "co_uid (snd a) = co_uid co \<and> co_status (snd a) = co_status co"
    using r remove_case_item_frame unfolding a by (auto simp: ok_or_def split: option.splits)
  have files: "v_files W = v_files V" using W by (auto simp: pending_of_def)
  have "J (put_case ?k (snd a) W)" if "check_key env ?k (snd a)"
    by (rule rewrite_free [OF conjunct2 [OF W] _ that]) (use co frame case_at_same [OF files] in auto)
  then show "leads W (write_case_file env ?k (snd a)) (\<lambda>_. J) J"
    using W by (intro leads_weaken [OF leads_write [where J = J]]) auto
qed (rule leads_remove_message_rest, assumption, intro viewed.frame_rules)

lemma leads_trash_rest:
  assumes W: "J W" and r: "\<And>W p. keeps (at_view W) (r p)"
  shows "leads W (bind_io (in_mail m) (\<lambda>item. then_io (trash_messages_workspace env mids)
       (then_io (case item of None \<Rightarrow> ret () | Some it \<Rightarrow> in_mail (record_pending_push_item (ke_env env) it))
       (then_io (remove_case_dir env k) (then_io (remove_empty_case_container_dir env)
       (then_io (refresh_messages_after_ref_change env mids) (then_io (ktouch env ''refresh disposition views'')
       (then_io (commit_transaction env tid) (then_io (kaudit env ''case_trashed'' fs) (r item)))))))))) (\<lambda>_. J) J"
proof -
  have rm: "leads W (remove_case_dir env k) (\<lambda>_. J) J"
    by (rule leads_weaken, rule leads_remove_dir [where J = J]) (use W discard_free in auto)
  show ?thesis
    by (rule leads_any, rule viewed.keeps_in_mail, rule W, (rule leads_then, intro viewed.frame_rules, rule W)+,
        rule leads_then_seq [OF rm], (rule leads_then, intro viewed.frame_rules, assumption)+,
        rule leads_then_seq, erule leads_commit, erule conjE,
        rule leads_tail, intro viewed.frame_rules r)
qed

lemma leads_trash:
  assumes J: "J V" and T: "v_tx V = []"
  shows "leads V (trash_case env c reason) (\<lambda>_. J) J"
  unfolding trash_case_def trash_case_workspace_def Let_def
  by (rule leads_entry, rule J, rule leads_any, rule viewed.keeps_resolve_any, rule J, unfold split_beta,
    rule leads_any, rule viewed.keeps_read_case_file, rule J, rule leads_then, rule viewed.keeps_guards, rule J,
    rule leads_then, rule viewed.keeps_guards, rule J, rule leads_any, rule viewed.keeps_read_case_messages, rule J,
    rule leads_then, rule viewed.keeps_unreferenced, rule J, rule leads_any, rule viewed.keeps_kask, rule J,
    rule leads_any, rule viewed.keeps_in_mail, rule J, rule leads_seq, rule leads_begin_one [OF J T], erule conjE,
    rule leads_trash_rest, assumption, intro viewed.frame_rules)

end

end
