(* ===== verification/Case_Archiving.thy ===== *)
theory Case_Archiving
  imports Case_Unfiling
begin

text \<open>
  Archiving, unarchiving and the repair of an interrupted archive.  Between the move of the directory and
  the write of its status the registry has one exception, which the pending transaction names; an
  invariant that does not look at the status (\<open>case_inv_loose\<close>) holds throughout.
\<close>

section \<open>A consistent registry is an invariant\<close>

definition settled :: "kenv \<Rightarrow> case_view \<Rightarrow> bool" where
  "settled env V \<longleftrightarrow> registry_ok env V \<and> length (v_tx V) \<le> 1"

lemma registry_okD:
  "registry_ok env V \<Longrightarrow> v_files V k = Some (CaseJson co) \<Longrightarrow> check_key env k co \<and> status_fits (key_root k) (co_status co)"
  unfolding registry_ok_def using registry_butD by blast

lemma registry_ok_unique:
  "registry_ok env V \<Longrightarrow> v_files V k = Some (CaseJson co) \<Longrightarrow> v_files V k' = Some (CaseJson co') \<Longrightarrow> co_uid co = co_uid co' \<Longrightarrow> k = k'"
  unfolding registry_ok_def by (rule registry_but_unique)

lemma registry_ok_fresh:
  assumes "registry_ok env V" "\<And>k' co'. case_at env V k' co' \<Longrightarrow> co_uid co' \<noteq> uid" "v_files V k' = Some (CaseJson co')"
  shows "co_uid co' \<noteq> uid"
  using assms(2) [of k' co'] registry_okD [OF assms(1,3)] assms(3) by (simp add: case_at_check)

lemma registry_ok_put:
  assumes "registry_ok env V" "check_key env k co" "status_fits (key_root k) (co_status co)"
    and "\<And>k' co'. k' \<noteq> k \<Longrightarrow> v_files V k' = Some (CaseJson co') \<Longrightarrow> co_uid co' \<noteq> co_uid co"
  shows "registry_ok env (put_case k co V)"
  using assms unfolding registry_ok_def by (intro registry_but_put) auto

lemma registry_ok_same:
  assumes "registry_ok env V" "v_files V k = Some (CaseJson co)" "check_key env k co'" "co_uid co' = co_uid co"
    and "status_fits (key_root k) (co_status co')"
  shows "registry_ok env (put_case k co' V)"
  by (rule registry_ok_put [OF assms(1,3,5)]) (use registry_ok_unique [OF assms(1) _ assms(2)] assms(4) in metis)

lemma no_less_fits:
  assumes "registry_ok env V" "case_at env V k co" "no_less k co k' co'"
  shows "status_fits (key_root k') (co_status co')"
  using assms registry_okD by (fastforce simp: no_less_def case_at_def)

interpretation settled: case_inv_free env "settled env" for env
proof unfold_locales
  show "settled env V'" if "settled env V" "v_files V' = v_files V" "length (v_tx V') \<le> 1" for V V'
    using that registry_but_T by (auto simp: settled_def registry_ok_def)
  show "length (v_tx V) \<le> 1" if "settled env V" for V
    using that by (simp add: settled_def)
  show "settled env (put_case k co' V)" if "settled env V" "case_at env V k co" "check_key env k co'" "no_less k co k co'"
    for V k co co'
    using registry_ok_same [of env V k co co'] no_less_fits [of env V k co k co'] that
    by (simp add: settled_def no_less_def case_at_def)
  show "settled env (put_case k' co' (drop_case k V))"
    if h: "settled env V" "case_at env V k co" "check_key env k' co'" "no_less k co k' co'" "v_files V k' = None" for V k co k' co'
  proof -
    have r: "registry_ok env V" "registry_ok env (drop_case k V)"
      using h(1) registry_but_drop by (auto simp: settled_def registry_ok_def)
    have "co_uid c \<noteq> co_uid co'" if "v_files (drop_case k V) j = Some (CaseJson c)" for j c
      using that h(2,4) registry_ok_unique [OF r(1), of j c k co] by (auto simp: no_less_def case_at_def split: if_splits)
    then show ?thesis
      using h r no_less_fits by (auto simp: settled_def intro!: registry_ok_put)
  qed
  show "settled env (put_case k co V)" if "settled env V" "v_files V k = None" "check_key env k co"
    "status_fits (key_root k) (co_status co)" "\<And>k' co'. case_at env V k' co' \<Longrightarrow> co_uid co' \<noteq> co_uid co" for V k co
    using that registry_ok_fresh by (auto simp: settled_def intro!: registry_ok_put)
  show "settled env (drop_case k V)" if "settled env V" for V k
    using that registry_but_drop by (auto simp: settled_def registry_ok_def)
  then show "settled env (drop_case k V)" if "settled env V" for V k
    using that .
  show "settled env (put_case k co' V)" if "settled env V" "case_at env V k co" "check_key env k co'" "co_uid co' = co_uid co"
    "co_status co' = co_status co" for V k co co'
    using registry_ok_same [of env V k co co'] registry_okD [of env V k co] that
    by (simp add: settled_def case_at_def)
qed

section \<open>Writing a status\<close>

text \<open>Read, change, write back, for an invariant of the one view that results.\<close>

lemma leads_restatus:
  assumes "J V" "\<And>co t. case_at env V k co \<Longrightarrow> check_key env k (f co t) \<Longrightarrow> J (put_case k (f co t) V) \<and> R (put_case k (f co t) V)"
  shows "leads V (bind_io (read_case_file env k) (\<lambda>co. bind_io (know env) (\<lambda>t. write_case_file env k (f co t)))) (\<lambda>_. R) J"
proof (rule leads_bind, rule sees_case_file, rule assms(1))
  fix co assume co: "case_at env V k co"
  show "leads V (bind_io (know env) (\<lambda>t. write_case_file env k (f co t))) (\<lambda>_. R) J"
  proof (rule leads_any, rule viewed.keeps_know, rule assms(1))
    fix t
    show "leads V (write_case_file env k (f co t)) (\<lambda>_. R) J"
      by (rule leads_weaken, rule leads_write [where J = J]) (use assms(1) assms(2) [OF co] in auto)
  qed
qed

text \<open>A registry whose one exception is archived under its uid is made consistent by its status.\<close>

lemma registry_half_same:
  assumes r: "registry_but env (half_archived uid) V" and k: "v_files V k = Some (CaseJson co)" "co_uid co = uid"
    and c: "check_key env k co'" "co_uid co' = uid" "status_fits (key_root k) (co_status co')"
  shows "registry_ok env (put_case k co' V)"
proof -
  have other: "co_uid c \<noteq> uid" if "j \<noteq> k" "v_files V j = Some (CaseJson c)" for j c
    using registry_but_unique [OF r k(1) that(2)] k(2) that(1) by blast
  have "registry_but env (half_archived uid) (put_case k co' V)"
    by (rule registry_but_put [OF r c(1)]) (use c other in auto)
  moreover have "\<not> half_archived uid j c" if "v_files (put_case k co' V) j = Some (CaseJson c)"
    "\<not> status_fits (key_root j) (co_status c)" for j c
    using that other c(3) by (auto simp: half_archived_def split: if_splits)
  ultimately show ?thesis unfolding registry_ok_def registry_but_def by blast
qed

definition awaiting :: "kenv \<Rightarrow> string \<Rightarrow> string \<Rightarrow> transaction_file \<Rightarrow> case_view \<Rightarrow> bool" where
  "awaiting env uid tid tx V \<longleftrightarrow> v_tx V = [(tid, tx)] \<and> repairable_case_archive_uid (ke_env env) tx = Some uid
     \<and> registry_but env (half_archived uid) V"

text \<open>Consistent, with the transaction still there.\<close>

definition repaired :: "kenv \<Rightarrow> string \<Rightarrow> transaction_file \<Rightarrow> case_view \<Rightarrow> bool" where
  "repaired env tid tx V \<longleftrightarrow> v_tx V = [(tid, tx)] \<and> registry_ok env V"

lemma awaiting_inv: "awaiting env uid tid tx V \<Longrightarrow> registry_inv env V"
  by (auto simp: awaiting_def registry_inv_def)

lemma repaired_inv: "repaired env tid tx V \<Longrightarrow> settled env V" "settled env V \<Longrightarrow> registry_inv env V"
  by (auto simp: repaired_def settled_def registry_inv_def)

lemma leads_status_archived:
  assumes a: "awaiting env uid tid tx V" and k: "key_root k = ArchivedCases" "case_at env V k co" "co_uid co = uid"
  shows "leads V (update_case_archive_state env k True) (\<lambda>_. repaired env tid tx) (registry_inv env)"
  unfolding update_case_archive_state_def
proof (rule leads_restatus)
  fix c t assume c: "case_at env V k c" "check_key env k (archive_state True t c)"
  have e: "c = co" using case_at_fun [OF k(2) c(1)] .
  have "registry_ok env (put_case k (archive_state True t c) V)"
    by (rule registry_half_same [of env uid V k co]) (use a k c e in \<open>auto simp: awaiting_def case_at_def archive_state_def status_fits_def\<close>)
  then have "repaired env tid tx (put_case k (archive_state True t c) V)" using a by (simp add: repaired_def awaiting_def)
  then show "registry_inv env (put_case k (archive_state True t c) V) \<and> repaired env tid tx (put_case k (archive_state True t c) V)"
    using repaired_inv by blast
qed (rule awaiting_inv [OF a])

lemma leads_restatus_repaired:
  assumes "repaired env tid tx V" "\<And>co t. co_uid (f co t) = co_uid co" "\<And>co t. status_fits (key_root k) (co_status (f co t))"
  shows "leads V (bind_io (read_case_file env k) (\<lambda>co. bind_io (know env) (\<lambda>t. write_case_file env k (f co t))))
    (\<lambda>_. repaired env tid tx) (repaired env tid tx)"
  by (rule leads_restatus) (use assms in \<open>auto simp: repaired_def case_at_def intro!: registry_ok_same\<close>)

lemma leads_complete:
  assumes J: "repaired env tid tx V" and k: "key_root k = ArchivedCases"
  shows "leads V (complete_case_archive_workspace env uid k mids) (\<lambda>_. repaired env tid tx) (repaired env tid tx)"
proof -
  let ?J = "repaired env tid tx"
  have archiving: "leads V (update_case_archiving_state env k) (\<lambda>_. ?J) ?J"
    unfolding update_case_archiving_state_def
    by (rule leads_restatus_repaired [OF J]) (simp_all add: k status_fits_def)
  have archived: "leads V (update_case_archive_state env k True) (\<lambda>_. ?J) ?J"
    unfolding update_case_archive_state_def
    by (rule leads_restatus_repaired [OF J]) (simp_all add: k status_fits_def archive_state_def)
  show ?thesis
    unfolding complete_case_archive_workspace_def
    by (rule leads_then, rule viewed.keeps_refresh_messages, rule J, rule leads_then, rule viewed.keeps_refresh_views, rule J,
        rule leads_any, rule viewed.keeps_queue_archive, rule J, rule leads_any, rule viewed.keeps_pending_work, rule J,
        rule leads_if, rule leads_then_seq, rule archiving, rule leads_ret, assumption,
        rule leads_then_seq, rule archived, rule leads_ret, assumption)
qed

section \<open>The archive command\<close>

text \<open>A uid is a path segment.\<close>

definition uids_ok :: "kenv \<Rightarrow> bool" where
  "uids_ok env \<longleftrightarrow> (\<forall>uid. uid_shape (CHR ''c'') uid \<longrightarrow> e_valid_segment (ke_env env) uid)"

lemma parse_uid_itself:
  assumes "uids_ok env" "uid_shape (CHR ''c'') uid"
  shows "parse_case_ref (ke_env env) uid = Inr uid"
proof -
  obtain u where u: "uid = CHR ''c'' # u" "list_all is_ascii_digit u"
    using assms(2) by (cases uid) (auto simp: uid_shape_def)
  have d: "CHR ''-'' \<notin> set uid"
    using u by (auto simp: list_all_iff is_ascii_digit_def)
  then have "before_dash uid = uid" by (auto simp: before_dash_def takeWhile_eq_all_conv)
  then show ?thesis
    using assms d u(1) by (auto simp: parse_case_ref_def parse_uid_ref_def validate_id_def require_def
        validate_case_uid_def validate_uid_def uids_ok_def)
qed

lemma archive_repairable:
  assumes "uids_ok env" "parse_case_ref (ke_env env) (key_name k) = Inr uid" "key_root k = ActiveCases"
    and "tx_kind tx = ''case_archive''" "tx_paths tx = archive_paths uid k"
  shows "repairable_case_archive_uid (ke_env env) tx = Some uid"
  using assms parse_uid_itself [OF assms(1) parsed_uid_shape [OF assms(2)]]
  by (simp add: repairable_case_archive_uid_def case_uid_under_def archive_paths_def key_path_def root_name_def
      afmail_push_path_def map_filter_simps)

lemma leads_move_active:
  assumes V: "repaired env tid tx V" and co: "case_at env V k co" "co_uid co = uid" "key_root k = ActiveCases"
    and tx: "repairable_case_archive_uid (ke_env env) tx = Some uid"
  shows "leads V (move_active_case_workspace env uid k) (\<lambda>t V'. repaired env tid tx V' \<and> key_root t = ArchivedCases) (registry_inv env)"
  unfolding move_active_case_workspace_def Let_def
proof (rule leads_check, rule repaired_inv(2) [OF repaired_inv(1) [OF V]], rule leads_check, rule repaired_inv(2) [OF repaired_inv(1) [OF V]],
    rule leads_bind, rule sees_absent, rule repaired_inv(2) [OF repaired_inv(1) [OF V]], rule leads_if,
    rule leads_fail, rule repaired_inv(2) [OF repaired_inv(1) [OF V]], rule leads_then, rule viewed.keeps_touch,
    rule repaired_inv(2) [OF repaired_inv(1) [OF V]], rule leads_then_seq)
  fix ex
  let ?t = "CaseKey ArchivedCases (key_group k) (key_name k)"
  let ?W = "put_case ?t co (drop_case k V)"
  assume "\<not> ex \<longrightarrow> v_files V ?t = None" "\<not> ex"
  then have none: "v_files V ?t = None" by simp
  have r: "registry_ok env V" and k: "v_files V k = Some (CaseJson co)" "check_key env k co"
    using V co by (auto simp: repaired_def case_at_check)
  have t: "check_key env ?t co" using check_key_name [OF k(2)] check_key_uid [OF k(2)] by simp
  have empty: "co_status co = []" using registry_okD [OF r k(1)] co(3) by (simp add: status_fits_def)
  have "registry_but env (half_archived uid) ?W"
  proof (rule registry_but_put [OF registry_but_drop t])
    show "registry_but env (half_archived uid) V"
      using r unfolding registry_ok_def by (rule registry_but_mono) simp
    show "status_fits (key_root ?t) (co_status co) \<or> half_archived uid ?t co"
      using empty co(2) by (simp add: half_archived_def)
    show "co_uid c \<noteq> co_uid co" if "v_files (drop_case k V) j = Some (CaseJson c)" for j c
      using that registry_ok_unique [OF r _ k(1)] by (auto split: if_splits)
  qed
  then have W: "awaiting env uid tid tx ?W"
    using V tx by (simp add: awaiting_def repaired_def)
  show "leads V (kdisk env ''archive case'' (move_dir k ?t)) (\<lambda>_ V'. V' = ?W \<and> registry_inv env V') (registry_inv env)"
    by (rule leads_move_dir) (use k V awaiting_inv [OF W] repaired_inv in blast)+
  fix V' assume "V' = ?W \<and> registry_inv env V'"
  then have V': "V' = ?W" by blast
  have at: "case_at env V' ?t co" using t by (simp add: V' case_at_check)
  show "leads V' (then_io (update_case_archive_state env ?t True) (then_io (remove_empty_case_container_dir env) (ret ?t)))
      (\<lambda>t V'. repaired env tid tx V' \<and> key_root t = ArchivedCases) (registry_inv env)"
  proof (rule leads_then_seq, rule leads_status_archived [OF W [folded V'] _ at co(2)], simp)
    fix V2 assume V2: "repaired env tid tx V2"
    then show "leads V2 (then_io (remove_empty_case_container_dir env) (ret ?t))
        (\<lambda>t V'. repaired env tid tx V' \<and> key_root t = ArchivedCases) (registry_inv env)"
      using repaired_inv by (intro leads_then viewed.keeps_container leads_ret) auto
  qed
qed

lemma leads_loose: "leads V m R J \<Longrightarrow> (\<And>V'. J V' \<Longrightarrow> J' V') \<Longrightarrow> leads V m R J'"
  by (erule leads_weaken)

lemma leads_archive_rest:
  assumes "\<exists>tx co. repaired env tid tx W \<and> case_at env W k co \<and> co_uid co = uid \<and> key_root k = ActiveCases
      \<and> repairable_case_archive_uid (ke_env env) tx = Some uid" and r: "\<And>W t q. keeps (at_view W) (r t q)"
  shows "leads W (bind_io (move_active_case_workspace env uid k) (\<lambda>target.
       bind_io (complete_case_archive_workspace env uid target mids) (\<lambda>q.
       then_io (commit_transaction env tid) (r target q)))) (\<lambda>_. settled env) (registry_inv env)"
proof -
  obtain tx co where W: "repaired env tid tx W" "case_at env W k co" "co_uid co = uid" "key_root k = ActiveCases"
    "repairable_case_archive_uid (ke_env env) tx = Some uid" using assms(1) by blast
  show ?thesis
  proof (rule leads_seq, rule leads_move_active [OF W])
  fix t V1 assume V1: "repaired env tid tx V1 \<and> key_root t = ArchivedCases"
  show "leads V1 (bind_io (complete_case_archive_workspace env uid t mids) (\<lambda>q.
       then_io (commit_transaction env tid) (r t q))) (\<lambda>_. settled env) (registry_inv env)"
    by (rule leads_loose [where J = "settled env"], rule leads_seq, rule leads_loose, rule leads_complete, rule conjunct1 [OF V1],
        rule conjunct2 [OF V1], erule repaired_inv(1), rule leads_then_seq, rule settled.leads_commit, erule repaired_inv(1),
        erule conjE, rule leads_tail, rule r, assumption, erule repaired_inv(2))
  qed
qed

lemma leads_archive:
  assumes J: "settled env V" and T: "v_tx V = []" and u: "uids_ok env"
  shows "leads V (archive_case env c reason) (\<lambda>_. settled env) (registry_inv env)"
  unfolding archive_case_def Let_def
proof (rule leads_entry, rule repaired_inv(2) [OF J], rule leads_bind, rule sees_resolve_active, rule repaired_inv(2) [OF J],
    unfold split_beta, rule leads_bind, rule sees_case_messages, rule repaired_inv(2) [OF J],
    rule leads_then, rule viewed.keeps_guards, rule repaired_inv(2) [OF J], rule leads_then, rule viewed.keeps_preflight,
    rule repaired_inv(2) [OF J], rule leads_seq, rule leads_loose [OF settled.leads_begin_one [OF J T]], erule repaired_inv(2), rule leads_archive_rest)
  fix x :: "string \<times> case_key" and co tid W
  assume x: "key_root (snd x) = ActiveCases \<and> (\<exists>co. case_at env V (snd x) co \<and> co_uid co = fst x)"
    and co: "case_at env V (snd x) co \<and> co_uid co = fst x"
    and W: "pending_of ''case_archive'' (archive_paths (fst x) (snd x)) V tid W \<and> settled env W"
  obtain tx where tx: "v_tx W = [(tid, tx)]" "tx_kind tx = ''case_archive''" "tx_paths tx = archive_paths (fst x) (snd x)"
    and files: "v_files W = v_files V"
    using W by (auto simp: pending_of_def)
  have rep: "repairable_case_archive_uid (ke_env env) tx = Some (fst x)"
    using archive_repairable [OF u _ _ tx(2,3)] check_key_uid x co by (auto simp: case_at_check)
  have J1: "repaired env tid tx W" using W tx(1) by (simp add: repaired_def settled_def)
  have at: "case_at env W (snd x) co" using co case_at_same [OF files] by simp
  show "\<exists>tx co. repaired env tid tx W \<and> case_at env W (snd x) co \<and> co_uid co = fst x \<and> key_root (snd x) = ActiveCases
      \<and> repairable_case_archive_uid (ke_env env) tx = Some (fst x)"
    using J1 at co x rep by blast
qed (intro viewed.frame_rules)

section \<open>Repair\<close>

lemma awaiting_active:
  assumes "awaiting env uid tid tx V" "case_at env V k co" "co_uid co = uid" "key_root k = ActiveCases"
  shows "repaired env tid tx V"
proof -
  have r: "registry_but env (half_archived uid) V" using assms(1) by (simp add: awaiting_def)
  have "\<not> half_archived uid j c" if "v_files V j = Some (CaseJson c)" for j c
    using registry_but_unique [OF r that, of k co] assms by (auto simp: half_archived_def case_at_def)
  then show ?thesis
    using assms(1) r unfolding repaired_def awaiting_def registry_ok_def registry_but_def by blast
qed

lemma leads_recover:
  assumes a: "awaiting env uid tid tx V"
  shows "leads V (recover_case_archive_transaction env uid) (\<lambda>_. repaired env tid tx) (registry_inv env)"
  unfolding recover_case_archive_transaction_def
proof (rule leads_bind, rule sees_find, rule awaiting_inv [OF a])
  fix x assume x: "finds env V ActiveCases uid x"
  show "leads V (case x of Some _ \<Rightarrow> ret ()
   | None \<Rightarrow> bind_io (find_archived_case_by_uid env uid) (\<lambda>archived. case archived of
       None \<Rightarrow> fail (app_error_new ''transaction_incomplete''
         (''cannot repair case archive transaction: case '' @ uid @ '' is neither active nor archived''))
     | Some k \<Rightarrow> bind_io (read_case_messages env k uid) (\<lambda>co.
         then_io (update_case_archive_state env k True)
         (then_io (complete_case_archive_workspace env uid k (co_message_ids co)) (ret ())))))
     (\<lambda>_. repaired env tid tx) (registry_inv env)"
  proof (cases x)
    case (Some k)
    then show ?thesis using awaiting_active [OF a] x by (auto simp: finds_def intro: leads_ret)
  next
    case None
    show ?thesis unfolding None option.case
    proof (rule leads_bind, rule sees_find_archived, rule awaiting_inv [OF a])
      fix y assume y: "finds env V ArchivedCases uid y"
      have found: "leads V (bind_io (read_case_messages env k uid) (\<lambda>co.
           then_io (update_case_archive_state env k True)
           (then_io (complete_case_archive_workspace env uid k (co_message_ids co)) (ret ()))))
         (\<lambda>_. repaired env tid tx) (registry_inv env)" if "key_root k = ArchivedCases" for k
      proof (rule leads_bind, rule sees_case_messages, rule awaiting_inv [OF a], rule leads_then_seq)
        fix co assume "case_at env V k co \<and> co_uid co = uid"
        then show "leads V (update_case_archive_state env k True) (\<lambda>_. repaired env tid tx) (registry_inv env)"
          using leads_status_archived [OF a that] by blast
      next
        fix co W assume "repaired env tid tx W"
        then show "leads W (then_io (complete_case_archive_workspace env uid k (co_message_ids co)) (ret ()))
            (\<lambda>_. repaired env tid tx) (registry_inv env)"
          by (intro leads_then_seq [OF leads_loose [OF leads_complete]] leads_ret)
            (use that repaired_inv in auto)
      qed
      show "leads V (case y of None \<Rightarrow> fail (app_error_new ''transaction_incomplete''
           (''cannot repair case archive transaction: case '' @ uid @ '' is neither active nor archived''))
         | Some k \<Rightarrow> bind_io (read_case_messages env k uid) (\<lambda>co.
           then_io (update_case_archive_state env k True)
           (then_io (complete_case_archive_workspace env uid k (co_message_ids co)) (ret ()))))
         (\<lambda>_. repaired env tid tx) (registry_inv env)"
        using y found by (cases y) (auto simp: finds_def intro: leads_fail awaiting_inv [OF a])
    qed
  qed
qed

definition repair_fits :: "kenv \<Rightarrow> string \<Rightarrow> transaction_file \<Rightarrow> string \<times> transaction_repair \<Rightarrow> bool" where
  "repair_fits env tid tx r \<longleftrightarrow> fst r = tid \<and> (case snd r of
     RepairCaseArchive u \<Rightarrow> repairable_case_archive_uid (ke_env env) tx = Some u
   | AbortedDiscardUndo \<Rightarrow> repairable_case_archive_uid (ke_env env) tx = None)"

lemma sees_repair_action:
  "sees V (repair_action env tx) (\<lambda>a. \<forall>r. a = Some r \<longrightarrow> repair_fits env tid tx (tid, r))"
  unfolding repair_action_def
  by (auto simp: repair_fits_def split: option.split list.split intro!: sees_ret sees_any viewed.frame_rules)
    (auto split: list.splits if_splits transaction_repair.splits)

lemma sees_planned: "sees V (planned_repair env (tid, tx)) (repair_fits env tid tx)"
  unfolding planned_repair_def fst_conv snd_conv
  by (rule sees_bind [OF sees_repair_action [where tid = tid]]) (auto split: option.split intro: sees_fail sees_ret)

lemma leads_run_repair:
  assumes V: "registry_inv env V" "v_tx V = [(tid, tx)]" and f: "repair_fits env tid tx r"
  shows "leads V (run_repair env r) (\<lambda>_ V'. registry_ok env V' \<and> v_tx V' = []) (registry_inv env)"
proof -
  have gone: "leads W (remove_transaction env tid) (\<lambda>_ V'. registry_ok env V' \<and> v_tx V' = []) (registry_inv env)"
    if W: "repaired env tid tx W" for W
  proof -
    have e: "remove tid (v_tx W) = []" using W by (simp add: repaired_def remove_def)
    have r: "registry_ok env (View (v_files W) [])"
      using W registry_but_T by (auto simp: repaired_def registry_ok_def)
    show ?thesis
      by (rule leads_weaken, rule leads_remove_transaction [where J = "registry_inv env"])
        (use repaired_inv(1) [of env tid tx W] repaired_inv(2) [of env W] W e r in \<open>auto simp: registry_inv_def\<close>)
  qed
  obtain a where r: "r = (tid, a)" using f by (cases r) (auto simp: repair_fits_def)
  show ?thesis
  proof (cases a)
    case (RepairCaseArchive uid)
    have x: "repairable_case_archive_uid (ke_env env) tx = Some uid" using f r RepairCaseArchive by (simp add: repair_fits_def)
    have "registry_but env (half_archived uid) V"
      using V x registry_but_mono [of env "\<lambda>_ _. False" V "half_archived uid"] by (auto simp: registry_inv_def registry_ok_def)
    then have "awaiting env uid tid tx V" using V(2) x by (simp add: awaiting_def)
    then show ?thesis unfolding run_repair_def r RepairCaseArchive
      by (simp, intro leads_then_seq [OF leads_recover] gone)
  next
    case AbortedDiscardUndo
    then have "repairable_case_archive_uid (ke_env env) tx = None" using f r by (simp add: repair_fits_def)
    then have "repaired env tid tx V" using V by (auto simp: registry_inv_def repaired_def)
    then show ?thesis unfolding run_repair_def r AbortedDiscardUndo
      using V(1) gone by (simp, intro leads_then keeps_ret)
  qed
qed

lemma leads_repair:
  assumes V: "registry_inv env V"
  shows "leads V (repair_incomplete_transactions env) (\<lambda>_ V'. registry_ok env V' \<and> v_tx V' = []) (registry_inv env)"
  unfolding repair_incomplete_transactions_def
proof (rule leads_then, rule viewed.keeps_touch, rule V,
    rule leads_bind [OF sees_gets [where Q = "\<lambda>txs. txs = sort_key fst (v_tx V)"]], simp add: at_view_def, rule V)
  fix txs assume t: "txs = sort_key fst (v_tx V)"
  consider "v_tx V = []" | tid tx where "v_tx V = [(tid, tx)]"
    using V by (cases "v_tx V") (auto simp: registry_inv_def)
  then show "leads V (bind_io (map_io (planned_repair env) txs) (\<lambda>repairs. for_io repairs (run_repair env)))
      (\<lambda>_ V'. registry_ok env V' \<and> v_tx V' = []) (registry_inv env)"
  proof cases
    case 1
    then show ?thesis using V t by (auto simp: registry_inv_def intro!: leads_bind [OF sees_ret [where Q = "\<lambda>a. a = []"]] leads_ret)
  next
    case 2
    have "sees V (map_io (planned_repair env) txs) (\<lambda>rs. \<exists>r. rs = [r] \<and> repair_fits env tid tx r)"
      unfolding t 2 by (auto intro!: sees_bind [OF sees_planned] sees_bind [OF sees_ret [where Q = "\<lambda>a. a = []"]] sees_ret)
    then show ?thesis
    proof (rule leads_bind)
      fix rs assume "\<exists>r. rs = [r] \<and> repair_fits env tid tx r"
      then obtain r where "rs = [r]" and f: "repair_fits env tid tx r" by blast
      then show "leads V (for_io rs (run_repair env)) (\<lambda>_ V'. registry_ok env V' \<and> v_tx V' = []) (registry_inv env)"
        by (simp, intro leads_then_seq [OF leads_run_repair [OF V 2 f]] leads_ret)
    qed (rule V)
  qed
qed

section \<open>The unarchive command\<close>

text \<open>
  It clears the status before it moves the directory, with no transaction: only a disk that does not fail
  between the two leaves a consistent registry.
\<close>

definition healthy :: "kenv \<Rightarrow> bool" where
  "healthy env \<longleftrightarrow> (\<forall>n. e_disk (ke_env env) n = DiskOk)"

lemma leads_write_healthy:
  assumes "healthy env" "J V"
  shows "leads V (write_case_file env k co) (\<lambda>_ V'. V' = put_case k co V \<and> check_key env k co) J"
  unfolding write_case_file_def then_io_def
proof (rule leads_bind [OF sees_of_res [where Q = "\<lambda>_. check_key env k co"]])
  show "leads V (kdisk env ''write json'' (put_dir k (\<lambda>d. d\<lparr>cd_json := Some (CaseJson co)\<rparr>)))
      (\<lambda>_ V'. V' = put_case k co V \<and> check_key env k co) J" if "check_key env k co"
    by (rule leads_healthy) (use assms that in \<open>auto simp: healthy_def put_case_def intro: at_put_json\<close>)
qed (use assms in \<open>auto simp: check_key_def\<close>)

lemma leads_cleared:
  assumes h: "healthy env" and J: "J V" and co: "case_at env V k co"
  shows "leads V (update_case_archive_state env k False)
    (\<lambda>_ V'. \<exists>t. V' = put_case k (archive_state False t co) V \<and> check_key env k (archive_state False t co)) J"
  unfolding update_case_archive_state_def
proof (rule leads_bind, rule sees_case_file, rule J, rule leads_any, rule viewed.keeps_know, rule J)
  fix c t assume "case_at env V k c"
  then have "c = co" using case_at_fun co by blast
  then show "leads V (write_case_file env k (archive_state False t c))
    (\<lambda>_ V'. \<exists>t. V' = put_case k (archive_state False t co) V \<and> check_key env k (archive_state False t co)) J"
    by (intro leads_weaken [OF leads_write_healthy [where J = J]]) (use h J in auto)
qed

lemma leads_moved_back:
  assumes h: "healthy env" and V: "settled env V" and co: "case_at env V k co" and k': "v_files V k' = None"
    "key_root k' = ActiveCases" "key_name k' = key_name k" and c: "check_key env k (archive_state False t co)"
    and W: "W = put_case k (archive_state False t co) V"
  shows "leads W (then_io (ktouch env ''create directory'') (kdisk env ctxt (move_dir k k'))) (\<lambda>_. settled env) J"
  unfolding ktouch_def
proof (rule leads_then_seq)
  show "leads W (kdisk env ''create directory'' id) (\<lambda>_ V'. V' = W) J"
    by (rule leads_healthy) (use h in \<open>auto simp: healthy_def\<close>)
  fix V' assume V': "V' = W"
  let ?c = "archive_state False t co"
  have r: "registry_ok env V" and T: "length (v_tx V) \<le> 1" and f: "v_files V k = Some (CaseJson co)"
    using V co by (simp_all add: settled_def case_at_def)
  have u: "co_uid ?c = co_uid co" "co_status ?c = []" by (simp_all add: archive_state_def)
  have c': "check_key env k' ?c" using check_key_name [OF c] check_key_uid [OF c] k'(3) by simp
  have "registry_ok env (put_case k' ?c (drop_case k V))"
  proof (rule registry_ok_put)
    show "registry_ok env (drop_case k V)" using r registry_but_drop by (simp add: registry_ok_def)
    show "co_uid co' \<noteq> co_uid ?c" if "v_files (drop_case k V) j = Some (CaseJson co')" for j co'
      using that registry_ok_unique [OF r _ f] u(1) by (auto split: if_splits)
  qed (use c' k'(2) u(2) in \<open>simp_all add: status_fits_def\<close>)
  moreover have "put_case k' ?c (drop_case k W) = put_case k' ?c (drop_case k V)"
    by (simp add: W put_case_def drop_case_def)
  ultimately have s: "settled env (put_case k' ?c (drop_case k W))" using T by (simp add: settled_def)
  show "leads V' (kdisk env ctxt (move_dir k k')) (\<lambda>_. settled env) J"
  proof (rule leads_healthy)
    show "at_view (put_case k' ?c (drop_case k W)) (move_dir k k' w)" if "at_view V' w" for w
      using at_move [OF that, of k k'] unfolding V' by (simp add: W put_case_def drop_case_def)
  qed (use h s in \<open>simp_all add: healthy_def\<close>)
qed

lemma then_io_assoc: "then_io (then_io m n) p = then_io m (then_io n p)"
  by (rule ext) (simp add: then_io_def bind_io_def split: prod.split outcome.split)

lemma leads_unarchive:
  assumes h: "healthy env" and J: "settled env V"
  shows "leads V (unarchive_case env c grp reason) (\<lambda>_. settled env) (settled env)"
  unfolding unarchive_case_def Let_def
proof (rule leads_entry, rule J, rule leads_then, rule keeps_of_res, rule J, rule leads_bind, rule sees_resolve_unarchive, rule J,
    unfold split_beta, rule leads_bind, rule sees_absent, rule J, rule leads_if, rule leads_fail, rule J,
    rule leads_bind, rule sees_case_messages, rule J, rule leads_then_seq, rule leads_cleared [where J = "settled env", OF h J],
    erule conjunct1, subst then_io_assoc [symmetric], rule leads_then_seq)
  fix x :: "string \<times> case_key \<times> string" and ex co W
  let ?k = "fst (snd x)"
  let ?t = "CaseKey ActiveCases grp (key_name ?k)"
  assume e: "\<not> ex \<longrightarrow> v_files V ?t = None" "\<not> ex" and co: "case_at env V ?k co \<and> co_uid co = fst x"
    and W: "\<exists>t. W = put_case ?k (archive_state False t co) V \<and> check_key env ?k (archive_state False t co)"
  show "leads W (then_io (ktouch env ''create directory'') (kdisk env ''unarchive case'' (move_dir ?k ?t))) (\<lambda>_. settled env) (settled env)"
    using W e leads_moved_back [OF h J conjunct1 [OF co], of ?t _ W] by auto
qed (rule leads_tail, intro viewed.frame_rules)

end
