(* ===== verification/Case_Filing.thy ===== *)
theory Case_Filing
  imports Case_Archiving
begin

text \<open>
  Messages stay filed.  An invariant that asks of a case file only its uid and its messages holds through
  archiving and unarchiving, however they end; the interpretation is that some case has the message.
\<close>

section \<open>Invariants that do not look at the status\<close>

locale case_inv_loose = case_inv +
  assumes rewrite_loose: "J V \<Longrightarrow> case_at env V k co \<Longrightarrow> check_key env k co' \<Longrightarrow> co_uid co' = co_uid co
      \<Longrightarrow> co_message_ids co' = co_message_ids co \<Longrightarrow> J (put_case k co' V)"
    and relocate_loose: "J V \<Longrightarrow> case_at env V k co \<Longrightarrow> check_key env k' co \<Longrightarrow> v_files V k' = None
      \<Longrightarrow> J (put_case k' co (drop_case k V))"
begin

lemma leads_restated:
  assumes "J V" "\<And>co t. co_uid (f co t) = co_uid co \<and> co_message_ids (f co t) = co_message_ids co"
  shows "leads V (bind_io (read_case_file env k) (\<lambda>co. bind_io (know env) (\<lambda>t. write_case_file env k (f co t)))) (\<lambda>_. J) J"
proof -
  have "J (put_case k (f co t) V)" if "case_at env V k co" "check_key env k (f co t)" for co t
    using rewrite_loose [OF assms(1) that] assms(2) by simp
  then show ?thesis by (intro leads_restatus assms(1)) auto
qed

lemma leads_set_archived: "J V \<Longrightarrow> leads V (update_case_archive_state env k b) (\<lambda>_. J) J"
  unfolding update_case_archive_state_def
  by (rule leads_restated) (auto simp: archive_state_def co_message_ids_def)

lemma leads_set_archiving: "J V \<Longrightarrow> leads V (update_case_archiving_state env k) (\<lambda>_. J) J"
  unfolding update_case_archiving_state_def
  by (rule leads_restated) (auto simp: co_message_ids_def)

text \<open>A case that is read where it lies moves to a free key of the same name.\<close>

lemma leads_renamed_root:
  assumes "J V" "case_at env V k co" "v_files V k' = None" "key_name k' = key_name k"
  shows "leads V (kdisk env ctxt (move_dir k k')) (\<lambda>_. J) J"
proof -
  have k: "v_files V k = Some (CaseJson co)" "check_key env k co" using assms(2) by (simp_all add: case_at_check)
  have "check_key env k' co" using check_key_name [OF k(2)] check_key_uid [OF k(2)] assms(4) by simp
  then have "J (put_case k' co (drop_case k V))" using relocate_loose assms by blast
  then show ?thesis
    by (intro leads_weaken [OF leads_move_dir [where J = J]]) (use assms(1) k(1) in auto)
qed

lemma leads_complete_loose: "J V \<Longrightarrow> leads V (complete_case_archive_workspace env uid k mids) (\<lambda>_. J) J"
  unfolding complete_case_archive_workspace_def
  by (rule leads_then, rule viewed.keeps_refresh_messages, assumption, rule leads_then, rule viewed.keeps_refresh_views, assumption,
      rule leads_any, rule viewed.keeps_queue_archive, assumption, rule leads_any, rule viewed.keeps_pending_work, assumption,
      rule leads_if, rule leads_then_seq, erule leads_set_archiving, erule leads_ret,
      rule leads_then_seq, erule leads_set_archived, erule leads_ret)

lemma leads_recover_loose:
  assumes J: "J V"
  shows "leads V (recover_case_archive_transaction env uid) (\<lambda>_. J) J"
proof -
  have found: "leads V (bind_io (read_case_messages env k uid) (\<lambda>co. then_io (update_case_archive_state env k True)
      (then_io (complete_case_archive_workspace env uid k (co_message_ids co)) (ret ())))) (\<lambda>_. J) J" for k
    by (rule leads_any, rule viewed.keeps_read_case_messages, rule J, rule leads_then_seq, rule leads_set_archived, rule J,
        rule leads_then_seq, erule leads_complete_loose, erule leads_ret)
  have "leads V (bind_io (find_archived_case_by_uid env uid) (\<lambda>archived. case archived of
       None \<Rightarrow> fail (app_error_new ''transaction_incomplete''
         (''cannot repair case archive transaction: case '' @ uid @ '' is neither active nor archived''))
     | Some k \<Rightarrow> bind_io (read_case_messages env k uid) (\<lambda>co. then_io (update_case_archive_state env k True)
      (then_io (complete_case_archive_workspace env uid k (co_message_ids co)) (ret ()))))) (\<lambda>_. J) J"
    by (rule leads_any, rule viewed.keeps_find, rule J) (auto split: option.split intro: leads_fail J found)
  then show ?thesis unfolding recover_case_archive_transaction_def
    by (intro leads_any [OF viewed.keeps_find(1)] J) (auto split: option.split intro: leads_ret J)
qed

lemma leads_remove_tx: "J V \<Longrightarrow> leads V (remove_transaction env tid) (\<lambda>_. J) J"
  unfolding commit_transaction_def [symmetric] by (rule leads_weaken, erule leads_commit, erule conjunct2)

lemma leads_repair_loose:
  assumes J: "J V"
  shows "leads V (repair_incomplete_transactions env) (\<lambda>_. J) J"
proof -
  have run: "leads W (run_repair env r) (\<lambda>_. J) J" if W: "J W" for W r
    unfolding run_repair_def
    by (rule leads_then_seq [where R' = J])
      (use W in \<open>auto split: transaction_repair.split intro: leads_recover_loose leads_ret leads_remove_tx\<close>)
  have plan: "keeps (at_view V) (planned_repair env t)" for t
    unfolding planned_repair_def repair_action_def by (intro viewed.frame_rules)
  show ?thesis unfolding repair_incomplete_transactions_def
    by (rule leads_then, rule viewed.keeps_touch, rule J, rule leads_any, rule keeps_gets, rule J,
        rule leads_any, rule keeps_map, rule plan, rule J, rule leads_for, erule run, rule J)
qed

lemma leads_archive_loose:
  assumes J: "J V" and T: "v_tx V = []"
  shows "leads V (archive_case env c reason) (\<lambda>_. J) J"
proof -
  have move: "leads W (move_active_case_workspace env uid k) (\<lambda>_. J) J" if W: "J W" and co: "case_at env W k co" for W uid k co
    unfolding move_active_case_workspace_def Let_def
  proof (rule leads_check, rule W, rule leads_check, rule W, rule leads_bind, rule sees_absent, rule W, rule leads_if,
      rule leads_fail, rule W, rule leads_then, rule viewed.keeps_touch, rule W, rule leads_then_seq)
    fix ex
    let ?t = "CaseKey ArchivedCases (key_group k) (key_name k)"
    assume "\<not> ex \<longrightarrow> v_files W ?t = None" "\<not> ex"
    then show "leads W (kdisk env ''archive case'' (move_dir k ?t)) (\<lambda>_. J) J"
      by (intro leads_renamed_root [OF W co]) simp_all
  qed (rule leads_then_seq, erule leads_set_archived, rule leads_tail, intro viewed.frame_rules)
  show ?thesis unfolding archive_case_def Let_def
  proof (rule leads_entry, rule J, rule leads_any, rule viewed.keeps_resolve_active, rule J, unfold split_beta,
      rule leads_bind, rule sees_case_messages, rule J, rule leads_then, rule viewed.keeps_guards, rule J,
      rule leads_then, rule viewed.keeps_preflight, rule J, rule leads_seq, rule leads_begin_one [OF J T], rule leads_seq)
    fix x :: "string \<times> case_key" and co tid W
    assume co: "case_at env V (snd x) co \<and> co_uid co = fst x"
      and W: "pending_of ''case_archive'' (archive_paths (fst x) (snd x)) V tid W \<and> J W"
    then have "v_files W = v_files V" by (auto simp: pending_of_def)
    then show "leads W (move_active_case_workspace env (fst x) (snd x)) (\<lambda>_. J) J"
      using move [OF conjunct2 [OF W]] case_at_same co by blast
  qed (rule leads_seq, erule leads_complete_loose, rule leads_then_seq, erule leads_commit, erule conjE, rule leads_tail,
      intro viewed.frame_rules)
qed

lemma leads_moved_out:
  assumes "J W \<and> (\<exists>u. case_at env W k u) \<and> v_files W (CaseKey r grp (key_name k)) = None" "\<And>W. keeps (at_view W) n"
  shows "leads W (then_io (ktouch env c) (then_io (kdisk env d (move_dir k (CaseKey r grp (key_name k)))) n)) (\<lambda>_. J) J"
proof -
  obtain u where u: "J W" "case_at env W k u" "v_files W (CaseKey r grp (key_name k)) = None" using assms(1) by blast
  show ?thesis
    by (rule leads_then, rule viewed.keeps_touch, rule u(1), rule leads_then_seq [OF leads_renamed_root [OF u]], simp,
        rule leads_tail [OF assms(2)])
qed

lemma leads_unarchive_loose:
  assumes J: "J V"
  shows "leads V (unarchive_case env c grp reason) (\<lambda>_. J) J"
  unfolding unarchive_case_def Let_def
proof (rule leads_entry, rule J, rule leads_then, rule keeps_of_res, rule J, rule leads_any, rule viewed.keeps_resolve_unarchive, rule J,
    unfold split_beta, rule leads_bind, rule sees_absent, rule J, rule leads_if, rule leads_fail, rule J,
    rule leads_bind, rule sees_case_messages, rule J, rule leads_then_seq)
  fix x :: "string \<times> case_key \<times> string" and ex co
  let ?k = "fst (snd x)"
  let ?t = "CaseKey ActiveCases grp (key_name ?k)"
  let ?R = "\<lambda>W. J W \<and> (\<exists>u. case_at env W ?k u) \<and> (v_files W ?t = None)"
  assume e: "\<not> ex \<longrightarrow> v_files V ?t = None" "\<not> ex" and co: "case_at env V ?k co \<and> co_uid co = fst x"
  show "leads V (update_case_archive_state env ?k False) (\<lambda>_. ?R) J"
    unfolding update_case_archive_state_def
  proof (rule leads_restatus, rule J)
    fix u t assume u: "case_at env V ?k u" "check_key env ?k (archive_state False t u)"
    have "?t \<noteq> ?k" using u(1) e by (auto simp: case_at_def)
    moreover have "J (put_case ?k (archive_state False t u) V)"
      by (rule rewrite_loose [OF J u]) (simp_all add: archive_state_def co_message_ids_def)
    ultimately show "J (put_case ?k (archive_state False t u) V) \<and> ?R (put_case ?k (archive_state False t u) V)"
      using u(2) e by (auto simp: case_at_check)
  qed
qed (rule leads_moved_out, assumption, intro viewed.frame_rules)

end

section \<open>Some case has the message\<close>

definition filed :: "kenv \<Rightarrow> string \<Rightarrow> case_view \<Rightarrow> bool" where
  "filed env mid V \<longleftrightarrow> length (v_tx V) \<le> 1 \<and> (\<exists>k co. case_at env V k co \<and> mid \<in> set (co_message_ids co))"

lemma filedI: "case_at env V k co \<Longrightarrow> mid \<in> set (co_message_ids co) \<Longrightarrow> length (v_tx V) \<le> 1 \<Longrightarrow> filed env mid V"
  unfolding filed_def by blast

lemma filedE:
  assumes "filed env mid V"
  obtains k co where "case_at env V k co" "mid \<in> set (co_message_ids co)" "length (v_tx V) \<le> 1"
  using assms unfolding filed_def by blast

lemma case_at_put: "case_at env (put_case k co' V) j c \<longleftrightarrow> (if j = k then c = co' \<and> check_key env k co' else case_at env V j c)"
  by (auto simp: case_at_check)

lemma case_at_drop: "case_at env (drop_case k V) j c \<longleftrightarrow> j \<noteq> k \<and> case_at env V j c"
  by (auto simp: case_at_check)

lemma filed_put:
  assumes f: "filed env mid V" and k: "case_at env V k co" "check_key env k co'" "set (co_message_ids co) \<subseteq> set (co_message_ids co')"
  shows "filed env mid (put_case k co' V)"
proof -
  obtain j c where j: "case_at env V j c" "mid \<in> set (co_message_ids c)" "length (v_tx V) \<le> 1" using f by (rule filedE)
  show ?thesis
  proof (cases "j = k")
    case True
    then have "c = co" using case_at_fun j(1) k(1) by blast
    then show ?thesis using j k by (intro filedI [of env _ k co']) (auto simp: case_at_put)
  next
    case False
    then show ?thesis using j by (intro filedI [of env _ j c]) (auto simp: case_at_put)
  qed
qed

lemma filed_move:
  assumes f: "filed env mid V" and k: "case_at env V k co" "check_key env k' co'" "set (co_message_ids co) \<subseteq> set (co_message_ids co')"
    and n: "v_files V k' = None"
  shows "filed env mid (put_case k' co' (drop_case k V))"
proof -
  obtain j c where j: "case_at env V j c" "mid \<in> set (co_message_ids c)" "length (v_tx V) \<le> 1" using f by (rule filedE)
  show ?thesis
  proof (cases "j = k")
    case True
    then have "c = co" using case_at_fun j(1) k(1) by blast
    then show ?thesis using j k by (intro filedI [of env _ k' co']) (auto simp: case_at_put)
  next
    case False
    moreover have "j \<noteq> k'" using j(1) n by (auto simp: case_at_def)
    ultimately show ?thesis using j by (intro filedI [of env _ j c]) (auto simp: case_at_put case_at_drop)
  qed
qed

interpretation filing: case_inv_loose env "filed env mid" for env mid
proof unfold_locales
  show "filed env mid V'" if "filed env mid V" "v_files V' = v_files V" "length (v_tx V') \<le> 1" for V V'
    using that case_at_same [OF that(2)] by (auto simp: filed_def)
  show "length (v_tx V) \<le> 1" if "filed env mid V" for V
    using that by (simp add: filed_def)
  show "filed env mid (put_case k co' V)" if "filed env mid V" "case_at env V k co" "check_key env k co'" "no_less k co k co'"
    for V k co co'
    using filed_put that by (simp add: no_less_def)
  show "filed env mid (put_case k' co' (drop_case k V))" if "filed env mid V" "case_at env V k co" "check_key env k' co'"
    "no_less k co k' co'" "v_files V k' = None" for V k co k' co'
    using filed_move that by (simp add: no_less_def)
  show "filed env mid (put_case k co V)" if f: "filed env mid V" and n: "v_files V k = None" for V k co
  proof -
    obtain j c where j: "case_at env V j c" "mid \<in> set (co_message_ids c)" "length (v_tx V) \<le> 1" using f by (rule filedE)
    have "j \<noteq> k" using j(1) n by (auto simp: case_at_def)
    then show ?thesis using j by (intro filedI [of env _ j c]) (auto simp: case_at_put)
  qed
  show "filed env mid (drop_case k V)" if f: "filed env mid V" and c: "case_at env V k co"
    and o: "\<And>m. m \<in> set (co_message_ids co) \<Longrightarrow> \<exists>k' co'. k' \<noteq> k \<and> case_at env V k' co' \<and> m \<in> set (co_message_ids co')" for V k co
  proof -
    obtain j d where j: "case_at env V j d" "mid \<in> set (co_message_ids d)" "length (v_tx V) \<le> 1" using f by (rule filedE)
    obtain k' co' where "k' \<noteq> k" "case_at env V k' co'" "mid \<in> set (co_message_ids co')"
    proof (cases "j = k")
      case True
      then have "d = co" using case_at_fun j(1) c by blast
      then show ?thesis using o [of mid] j(2) that by blast
    qed (use j that in blast)
    then show ?thesis using j(3) by (intro filedI [of env _ k' co']) (auto simp: case_at_drop)
  qed
  show "filed env mid (put_case k co' V)" if "filed env mid V" "case_at env V k co" "check_key env k co'" "co_uid co' = co_uid co"
    "co_message_ids co' = co_message_ids co" for V k co co'
    using filed_put [of env mid V k co co'] that by simp
  show "filed env mid (put_case k' co (drop_case k V))" if "filed env mid V" "case_at env V k co" "check_key env k' co"
    "v_files V k' = None" for V k co k'
    using filed_move [of env mid V k co k' co] that by simp
qed

section \<open>Commands and requests\<close>

lemma keeps_put_request: "keeps (at_view V) (put_request env rid r)"
  unfolding put_request_def by (rule hoare_kdisk) (auto simp: at_view_def dir_at_def)

lemma keeps_note_start: "keeps (at_view V) (note_start rid)"
  unfolding note_start_def by (auto simp: hoare_def modify_def at_view_def dir_at_def)

lemma leads_request:
  assumes J: "J V" "J' V" and s: "sees V pre Q" and op: "\<And>a. Q a \<Longrightarrow> leads V (oper a) (\<lambda>_. J') J" and le: "\<And>V'. J' V' \<Longrightarrow> J V'"
  shows "leads V (run_idempotent_request_with_precheck env rid cmd input pre oper) (\<lambda>_. J') J"
  unfolding run_idempotent_request_with_precheck_def
proof (rule leads_then, rule viewed.keeps_require_workspace, rule J(1), rule leads_then, rule keeps_of_res, rule J(1),
    rule leads_then, rule keeps_of_res, rule J(1), rule leads_any, rule keeps_of_res, rule J(1), rule leads_any, rule keeps_gets, rule J(1))
  fix h known
  have fresh: "leads V (bind_io pre (\<lambda>prepared.
          then_io (put_request env rid \<lparr>rq_command = cmd, rq_input_hash = h, rq_status = ''pending'', rq_result = None\<rparr>)
          (then_io (note_start rid)
          (bind_io (oper prepared) (\<lambda>v.
           then_io (put_request env rid \<lparr>rq_command = cmd, rq_input_hash = h, rq_status = ''completed'', rq_result = Some v\<rparr>)
             (ret v)))))) (\<lambda>_. J') J"
    by (rule leads_bind [OF s], rule J(1), rule leads_then, rule keeps_put_request, rule J(1), rule leads_then, rule keeps_note_start,
        rule J(1), rule leads_seq, erule op, rule leads_then, rule keeps_put_request, erule le, erule leads_ret)
  show "leads V (case known of
        Some r \<Rightarrow> then_io (ktouch env ''read idempotency record'') (of_res (replay_request rid cmd h r))
      | None \<Rightarrow> bind_io pre (\<lambda>prepared.
          then_io (put_request env rid \<lparr>rq_command = cmd, rq_input_hash = h, rq_status = ''pending'', rq_result = None\<rparr>)
          (then_io (note_start rid)
          (bind_io (oper prepared) (\<lambda>v.
           then_io (put_request env rid \<lparr>rq_command = cmd, rq_input_hash = h, rq_status = ''completed'', rq_result = Some v\<rparr>)
             (ret v)))))) (\<lambda>_. J') J"
    using fresh J by (auto split: option.split intro!: leads_then [OF viewed.keeps_touch, where J = J] leads_frame [OF keeps_of_res])
qed

lemma leads_idempotent:
  assumes "J V" "J' V" "leads V oper (\<lambda>_. J') J" "\<And>V'. J' V' \<Longrightarrow> J V'"
  shows "leads V (idempotent_value env rid cmd input oper) (\<lambda>_. J') J"
proof (cases rid)
  case (Some r)
  show ?thesis unfolding idempotent_value_def run_idempotent_request_def Some option.case
    by (rule leads_request [where J = J and Q = "\<lambda>_. True"]) (use assms in \<open>auto intro: sees_ret\<close>)
qed (use assms(3) in \<open>simp add: idempotent_value_def\<close>)

end
