(* ===== verification/Case_History.thy ===== *)
theory Case_History
  imports Case_Filing
begin

text \<open>
  The life of a workspace's cases: commands through the gate, the calls of the push run, repair, and the mail
  part going its own way, each step ending however it ends.
\<close>

section \<open>Any command\<close>

text \<open>What a history relies on: room for a new uid, and an unarchive that the disk lets finish.\<close>

fun able :: "kenv \<Rightarrow> case_view \<Rightarrow> case_command \<Rightarrow> bool" where
  "able env V (CaseCreate name grp mid summary reason) = roomy V"
| "able env V c = True"

fun orderly :: "kenv \<Rightarrow> case_view \<Rightarrow> case_command \<Rightarrow> bool" where
  "orderly env V (CaseCreate name grp mid summary reason) = roomy V"
| "orderly env V (CaseUnarchive c grp reason) = healthy env"
| "orderly env V c = True"

fun unfiles :: "case_command \<Rightarrow> bool" where
  "unfiles (CaseRemove c mid reason) = True"
| "unfiles (CaseTrash c reason) = True"
| "unfiles c = False"

fun restates :: "case_command \<Rightarrow> bool" where
  "restates (CaseArchive c reason) = True"
| "restates (CaseUnarchive c grp reason) = True"
| "restates c = False"

context case_inv
begin

lemma leads_idem: "J V \<Longrightarrow> leads V oper (\<lambda>_. J) J \<Longrightarrow> leads V (idempotent_value env rid cmd input oper) (\<lambda>_. J) J"
  by (rule leads_idempotent [where J = J]) auto

lemma leads_ordinary:
  assumes J: "J V" and T: "v_tx V = []" and s: "slugs_ok env" and a: "able env V c" and n: "\<not> unfiles c" "\<not> restates c"
  shows "leads V (execute_case_command env rid c) (\<lambda>_. J) J"
proof (cases c)
  case (CaseCreate name grp mid summary reason)
  then have room: "roomy V" using a by simp
  show ?thesis unfolding CaseCreate execute_case_command.simps idempotent_value_with_precheck_def
  proof (cases rid)
    case (Some r)
    show "leads V (case rid of Some r \<Rightarrow> run_idempotent_request_with_precheck env r ''case_create''
          (JObj [(''name'', JStr name), (''group'', jopt grp), (''message'', jopt mid), (''summary'', jopt summary), (''reason'', jopt reason)])
          (prepare_case_create env name grp mid summary reason) (create_prepared_case env)
        | None \<Rightarrow> bind_io (prepare_case_create env name grp mid summary reason) (create_prepared_case env)) (\<lambda>_. J) J"
      unfolding Some option.case
      by (rule leads_request [where J = J and Q = "prepared_for env V"], rule J, rule J, rule sees_prepare [OF room],
          rule leads_prepared [OF J T], assumption, assumption)
  next
    case None
    show "leads V (case rid of Some r \<Rightarrow> run_idempotent_request_with_precheck env r ''case_create''
          (JObj [(''name'', JStr name), (''group'', jopt grp), (''message'', jopt mid), (''summary'', jopt summary), (''reason'', jopt reason)])
          (prepare_case_create env name grp mid summary reason) (create_prepared_case env)
        | None \<Rightarrow> bind_io (prepare_case_create env name grp mid summary reason) (create_prepared_case env)) (\<lambda>_. J) J"
      unfolding None option.case
      by (rule leads_bind [OF sees_prepare [OF room]], rule J, rule leads_prepared [OF J T])
  qed
next
  case (CaseMerge c' o' reason)
  show ?thesis unfolding CaseMerge execute_case_command.simps
    by (rule leads_if, rule leads_fail, rule J, rule leads_merge, rule J)
qed (use n in \<open>auto simp: tag_case_def untag_case_def intro!: leads_idem J T s leads_add leads_notes_append leads_notes_replace leads_set_summary leads_move leads_rename
    leads_tag leads_delete\<close>)

end

lemma leads_gate:
  assumes J: "J V" and r: "v_tx V = [] \<Longrightarrow> leads V (execute_case_command env rid c) (\<lambda>_. J') J" and le: "\<And>V'. J' V' \<Longrightarrow> J V'"
  shows "leads V (run_case_command env rid c) (\<lambda>_. J') J"
  unfolding run_case_command_def then_io_def
proof (rule leads_bind)
  show "sees V (ensure_no_incomplete_transactions env) (\<lambda>_. v_tx V = [])"
    unfolding ensure_no_incomplete_transactions_def
    by (rule sees_then [OF viewed.keeps_touch], rule sees_bind [OF sees_gets [where Q = "\<lambda>t. t = v_tx V"]])
      (auto simp: at_view_def intro: sees_ret sees_fail)
qed (use J r in auto)

lemma leads_settled:
  assumes J: "settled env V" and T: "v_tx V = []" and s: "slugs_ok env" "uids_ok env" and a: "orderly env V c"
  shows "leads V (execute_case_command env rid c) (\<lambda>_. settled env) (registry_inv env)"
proof -
  let ?J = "settled env"
  have loose: "leads V m (\<lambda>_. ?J) ?J \<Longrightarrow> leads V m (\<lambda>_. ?J) (registry_inv env)" for m :: "json kcmd"
    by (erule leads_loose, erule repaired_inv(2))
  consider (restates) "restates c" | (unfiles) "unfiles c" | (other) "\<not> restates c" "\<not> unfiles c" by blast
  then show ?thesis
  proof cases
    case restates
    then show ?thesis
    proof (cases c)
      case (CaseArchive c' reason)
      show ?thesis unfolding CaseArchive execute_case_command.simps
        by (rule leads_idempotent) (use J T s repaired_inv in \<open>auto intro: leads_archive\<close>)
    next
      case (CaseUnarchive c' grp reason)
      then have "healthy env" using a by simp
      then show ?thesis unfolding CaseUnarchive execute_case_command.simps
        by (intro loose settled.leads_idem leads_unarchive J)
    qed simp_all
  next
    case unfiles
    then show ?thesis
    proof (cases c)
      case (CaseRemove c' mid reason)
      show ?thesis unfolding CaseRemove execute_case_command.simps
        by (intro loose settled.leads_idem settled.leads_remove_message J T)
    next
      case (CaseTrash c' reason)
      show ?thesis unfolding CaseTrash execute_case_command.simps
        by (intro loose settled.leads_idem settled.leads_trash J T)
    qed simp_all
  next
    case other
    have "able env V c" using a by (cases c) simp_all
    then show ?thesis by (intro loose settled.leads_ordinary J T s(1) other)
  qed
qed

lemma leads_registry:
  assumes J: "registry_inv env V" and s: "slugs_ok env" "uids_ok env" and a: "orderly env V c"
  shows "leads V (run_case_command env rid c) (\<lambda>_. registry_inv env) (registry_inv env)"
proof (rule leads_gate [where J = "registry_inv env", OF J])
  assume T: "v_tx V = []"
  then have "settled env V" using J by (auto simp: registry_inv_def settled_def)
  then show "leads V (execute_case_command env rid c) (\<lambda>_. registry_inv env) (registry_inv env)"
    by (intro leads_weaken [OF leads_settled [OF _ T s a]]) (auto intro: repaired_inv(2))
qed

lemma leads_filed:
  assumes J: "filed env mid V" and s: "slugs_ok env" and a: "able env V c" "\<not> unfiles c"
  shows "leads V (run_case_command env rid c) (\<lambda>_. filed env mid) (filed env mid)"
proof (rule leads_gate [where J = "filed env mid", OF J])
  assume T: "v_tx V = []"
  show "leads V (execute_case_command env rid c) (\<lambda>_. filed env mid) (filed env mid)"
  proof (cases "restates c")
    case True
    then show ?thesis
    proof (cases c)
      case (CaseArchive c' reason)
      show ?thesis unfolding CaseArchive execute_case_command.simps
        by (intro filing.leads_idem filing.leads_archive_loose J T)
    next
      case (CaseUnarchive c' grp reason)
      show ?thesis unfolding CaseUnarchive execute_case_command.simps
        by (intro filing.leads_idem filing.leads_unarchive_loose J)
    qed simp_all
  next
    case False
    show ?thesis by (rule filing.leads_ordinary [OF J T s a False])
  qed
qed

end
