(* ===== verification/Case_Steps.thy ===== *)
theory Case_Steps
  imports Case_History
begin

text \<open>
  Histories of a workspace's cases: commands through the gate, the calls that a push run makes of the cases,
  repair, and the mail part changing on its own, each under its own disk and clock and ending however it
  ends; and the requests of such a history.
\<close>

section \<open>The rules of a workspace\<close>

text \<open>What decides whether a case file is valid stays the same; disk, clock and mailbox do as they will.\<close>

definition same_rules :: "kenv \<Rightarrow> kenv \<Rightarrow> bool" where
  "same_rules env env' \<longleftrightarrow> ke_naming env' = ke_naming env \<and> e_valid_segment (ke_env env') = e_valid_segment (ke_env env)"

lemma same_refs:
  assumes "same_rules env env'"
  shows "parse_case_ref (ke_env env') = parse_case_ref (ke_env env)"
  by (rule ext) (use assms in \<open>simp add: parse_case_ref_def parse_uid_ref_def validate_id_def same_rules_def\<close>)

lemma same_checks:
  assumes "same_rules env env'"
  shows "check_key env' k co \<longleftrightarrow> check_key env k co"
proof -
  have n: "validate_name (ke_env env') (ke_naming env') l x = validate_name (ke_env env) (ke_naming env) l x" for l x
    using assms by (simp add: validate_name_def validate_id_def same_rules_def)
  have i: "item_content_ok (ke_env env') (ke_naming env') = item_content_ok (ke_env env) (ke_naming env)"
    by (rule ext) (use assms in \<open>simp add: item_content_ok_def same_rules_def\<close>)
  have "message_collection_content_ok (ke_env env') (ke_naming env') co \<longleftrightarrow> message_collection_content_ok (ke_env env) (ke_naming env) co"
    unfolding message_collection_content_ok_def n i using assms by (simp add: same_rules_def)
  then show ?thesis
    using assms same_refs [OF assms]
    by (simp add: check_key_def check_case_file_def validate_case_collection_def same_rules_def)
qed

lemma same_at: "same_rules env env' \<Longrightarrow> case_at env' V k co \<longleftrightarrow> case_at env V k co"
  by (simp add: case_at_check same_checks)

lemma same_repairable:
  assumes "same_rules env env'"
  shows "repairable_case_archive_uid (ke_env env') = repairable_case_archive_uid (ke_env env)"
  by (rule ext) (simp only: repairable_case_archive_uid_def case_uid_under_def same_refs [OF assms])

lemma same_but: "same_rules env env' \<Longrightarrow> registry_but env' X V \<longleftrightarrow> registry_but env X V"
  by (simp add: registry_but_def same_checks)

lemma same_registry: "same_rules env env' \<Longrightarrow> registry_inv env' V \<longleftrightarrow> registry_inv env V"
  by (simp add: registry_inv_def registry_ok_def same_but same_repairable)

lemma same_filed: "same_rules env env' \<Longrightarrow> filed env' mid V \<longleftrightarrow> filed env mid V"
  by (simp add: filed_def same_at)

lemma same_names: "same_rules env env' \<Longrightarrow> slugs_ok env' \<longleftrightarrow> slugs_ok env" "same_rules env env' \<Longrightarrow> uids_ok env' \<longleftrightarrow> uids_ok env"
  by (simp_all add: slugs_ok_def uids_ok_def same_rules_def)

section \<open>Histories\<close>

definition view_of :: "kworld \<Rightarrow> case_view" where
  "view_of w = View (\<lambda>k. cd_json (dir_at k w)) (kw_tx w)"

definition well_keyed :: "kworld \<Rightarrow> bool" where
  "well_keyed w \<longleftrightarrow> distinct (map fst (kw_dirs w))"

lemma at_view_of: "at_view V w \<longleftrightarrow> well_keyed w \<and> V = view_of w"
  by (cases V) (auto simp: at_view_def view_of_def well_keyed_def)

text \<open>The steps; \<open>ok\<close> says which commands the history has.  A push run files what it sent and finalizes
  cases only while no transaction is incomplete, as every mutating command does.\<close>

inductive case_steps :: "(kenv \<Rightarrow> case_view \<Rightarrow> case_command \<Rightarrow> bool) \<Rightarrow> kenv \<Rightarrow> kworld \<Rightarrow> kworld \<Rightarrow> bool"
  for ok env w where
  here: "case_steps ok env w w"
| command: "case_steps ok env w v \<Longrightarrow> same_rules env env' \<Longrightarrow> ok env' (view_of v) c
    \<Longrightarrow> run_case_command env' rid c v = (r, v') \<Longrightarrow> case_steps ok env w v'"
| repair: "case_steps ok env w v \<Longrightarrow> same_rules env env' \<Longrightarrow> repair_incomplete_transactions env' v = (r', v')
    \<Longrightarrow> case_steps ok env w v'"
| finalize: "case_steps ok env w v \<Longrightarrow> same_rules env env' \<Longrightarrow> kw_tx v = [] \<Longrightarrow> finalize_archiving_cases env' v = (r', v')
    \<Longrightarrow> case_steps ok env w v'"
| sent: "case_steps ok env w v \<Longrightarrow> same_rules env env' \<Longrightarrow> kw_tx v = []
    \<Longrightarrow> append_sent_message_to_case env' k uid mid summary added v = (r', v') \<Longrightarrow> case_steps ok env w v'"
| mail: "case_steps ok env w v \<Longrightarrow> case_steps ok env w (v\<lparr>kw_mail := m\<rparr>)"

lemma leadsD:
  assumes "leads V m (\<lambda>_. R) J" "at_view V w" "m w = (r, w')" "\<And>V. R V \<Longrightarrow> J V"
  shows "well_keyed w' \<and> J (view_of w')"
proof -
  have "somewhere J w'"
    using assms(1-3) unfolding leads_def hoare_def
    by (cases r) (fastforce intro: somewhere_mono [OF _ assms(4)])+
  then show ?thesis by (auto simp: somewhere_def at_view_of)
qed

lemma view_of_mail [simp]: "view_of (w\<lparr>kw_mail := m\<rparr>) = view_of w" "well_keyed (w\<lparr>kw_mail := m\<rparr>) = well_keyed w"
  by (simp_all add: view_of_def well_keyed_def dir_at_def)

lemma leads_push_calls:
  assumes "registry_inv env V" "v_tx V = []"
  shows "leads V (finalize_archiving_cases env) (\<lambda>_. registry_inv env) (registry_inv env)"
    "leads V (append_sent_message_to_case env k uid mid summary added) (\<lambda>_. registry_inv env) (registry_inv env)"
proof -
  have J: "settled env V" using assms by (auto simp: registry_inv_def settled_def)
  show "leads V (finalize_archiving_cases env) (\<lambda>_. registry_inv env) (registry_inv env)"
    by (rule leads_weaken [OF settled.leads_finalize [OF J]]) (auto intro: repaired_inv(2))
  show "leads V (append_sent_message_to_case env k uid mid summary added) (\<lambda>_. registry_inv env) (registry_inv env)"
    by (rule leads_weaken [OF settled.leads_append_sent [OF J]]) (auto intro: repaired_inv(2))
qed

lemma steps_registry:
  assumes "case_steps orderly env w v" "well_keyed w" "registry_inv env (view_of w)" "slugs_ok env" "uids_ok env"
  shows "well_keyed v \<and> registry_inv env (view_of v)"
  using assms(1)
proof induction
  case here
  then show ?case using assms by simp
next
  case (command v env' c rid r v')
  then have J: "registry_inv env' (view_of v)" and v: "at_view (view_of v) v"
    using same_registry by (auto simp: at_view_of)
  have "slugs_ok env'" "uids_ok env'" using assms(4,5) same_names command.hyps(2) by auto
  then have "well_keyed v' \<and> registry_inv env' (view_of v')"
    using leadsD [OF leads_registry [OF J _ _ command.hyps(3)] v command.hyps(4)] by blast
  then show ?case using same_registry command.hyps(2) by blast
next
  case (repair v env' r' v')
  then have J: "registry_inv env' (view_of v)" and v: "at_view (view_of v) v"
    using same_registry by (auto simp: at_view_of)
  have l: "leads (view_of v) (repair_incomplete_transactions env') (\<lambda>_. registry_inv env') (registry_inv env')"
    by (rule leads_weaken [OF leads_repair [OF J]]) (auto simp: registry_inv_def)
  then show ?case using leadsD [OF l v repair.hyps(3)] same_registry repair.hyps(2) by blast
next
  case (finalize v env' r' v')
  then have J: "registry_inv env' (view_of v)" "v_tx (view_of v) = []" and v: "at_view (view_of v) v"
    using same_registry by (auto simp: at_view_of view_of_def)
  show ?case using leadsD [OF leads_push_calls(1) [OF J] v finalize.hyps(4)] same_registry finalize.hyps(2) by blast
next
  case (sent v env' k uid mid summary added r' v')
  then have J: "registry_inv env' (view_of v)" "v_tx (view_of v) = []" and v: "at_view (view_of v) v"
    using same_registry by (auto simp: at_view_of view_of_def)
  show ?case using leadsD [OF leads_push_calls(2) [OF J] v sent.hyps(4)] same_registry sent.hyps(2) by blast
qed simp

fun keeps_filed :: "kenv \<Rightarrow> case_view \<Rightarrow> case_command \<Rightarrow> bool" where
  "keeps_filed env V c = (able env V c \<and> \<not> unfiles c)"

lemma steps_filed:
  assumes "case_steps keeps_filed env w v" "well_keyed w" "filed env mid (view_of w)" "slugs_ok env"
  shows "well_keyed v \<and> filed env mid (view_of v)"
  using assms(1)
proof induction
  case here
  then show ?case using assms by simp
next
  case (command v env' c rid r v')
  then have J: "filed env' mid (view_of v)" and v: "at_view (view_of v) v"
    using same_filed by (auto simp: at_view_of)
  have "slugs_ok env'" "able env' (view_of v) c" "\<not> unfiles c" using assms(4) same_names command.hyps(2,3) by auto
  then show ?case
    using leadsD [OF leads_filed [OF J] v command.hyps(4)] same_filed command.hyps(2) by blast
next
  case (repair v env' r' v')
  then have J: "filed env' mid (view_of v)" and v: "at_view (view_of v) v"
    using same_filed by (auto simp: at_view_of)
  show ?case using leadsD [OF filing.leads_repair_loose [OF J] v repair.hyps(3)] same_filed repair.hyps(2) by blast
next
  case (finalize v env' r' v')
  then have J: "filed env' mid (view_of v)" and v: "at_view (view_of v) v"
    using same_filed by (auto simp: at_view_of)
  show ?case using leadsD [OF filing.leads_finalize [OF J] v finalize.hyps(4)] same_filed finalize.hyps(2) by blast
next
  case (sent v env' k uid mid' summary added r' v')
  then have J: "filed env' mid (view_of v)" and v: "at_view (view_of v) v"
    using same_filed by (auto simp: at_view_of)
  show ?case using leadsD [OF filing.leads_append_sent [OF J] v sent.hyps(4)] same_filed sent.hyps(2) by blast
qed simp

end
