(* ===== verification/Case_Replay.thy ===== *)
theory Case_Replay
  imports Case_Steps
begin

text \<open>
  Requests with an identity.  No case operation touches the request records, so what the wrapper
  \<open>run_idempotent_request_with_precheck\<close> does with them is all that happens to them: an identity starts
  its operation at most once, and a completed one is answered from its record.
\<close>

section \<open>The frame of the requests\<close>

definition requests_are :: "(string \<times> request_record) list \<Rightarrow> string list \<Rightarrow> kworld \<Rightarrow> bool" where
  "requests_are rs ids w \<longleftrightarrow> kw_requests w = rs \<and> kw_started w = ids"

interpretation asked: kframe "requests_are rs ids" for rs ids
  by unfold_locales (simp add: requests_are_def)

lemma keeps_disk_asked:
  assumes "\<And>w. kw_requests (f w) = kw_requests w \<and> kw_started (f w) = kw_started w"
  shows "keeps (requests_are rs ids) (kdisk env ctxt f)"
  by (rule hoare_kdisk) (use assms in \<open>auto simp: requests_are_def\<close>)

lemma asked_dirs [simp]:
  "kw_requests (put_dir k f w) = kw_requests w" "kw_started (put_dir k f w) = kw_started w"
  "kw_requests (drop_dir k w) = kw_requests w" "kw_started (drop_dir k w) = kw_started w"
  by (simp_all add: put_dir_def drop_dir_def)

lemma asked_disk:
  "keeps (requests_are rs ids) (kdisk env ctxt (put_dir k f))"
  "keeps (requests_are rs ids) (kdisk env ctxt (drop_dir k))"
  "keeps (requests_are rs ids) (kdisk env ctxt (move_dir k k'))"
  "keeps (requests_are rs ids) (kdisk env ctxt (move_file k k' n))"
  "keeps (requests_are rs ids) (kdisk env ctxt (move_draft k k' d))"
  "keeps (requests_are rs ids) (kdisk env ctxt (\<lambda>w. w\<lparr>kw_tx := g w\<rparr>))"
  by (rule keeps_disk_asked; simp add: move_dir_def move_file_def move_draft_def)+

lemma asked_writes:
  "keeps (requests_are rs ids) (remove_case_dir env k)"
  "keeps (requests_are rs ids) (write_case_file env k co)"
  "keeps (requests_are rs ids) (begin_transaction env kind paths)"
  "keeps (requests_are rs ids) (remove_transaction env tid)"
  "keeps (requests_are rs ids) (write_string_new env k s)"
  unfolding remove_case_dir_def write_case_file_def begin_transaction_def remove_transaction_def write_string_new_def Let_def
  by (intro asked.frame_rules asked_disk)+

lemma asked_updates:
  "keeps (requests_are rs ids) (commit_transaction env tid)"
  "keeps (requests_are rs ids) (update_case_name env k name)"
  "keeps (requests_are rs ids) (update_case_archive_state env k b)"
  "keeps (requests_are rs ids) (update_case_archiving_state env k)"
  "keeps (requests_are rs ids) (update_case_tags env k add rem)"
  unfolding commit_transaction_def update_case_name_def update_case_archive_state_def update_case_archiving_state_def
    update_case_tags_def Let_def
  by (intro asked.frame_rules asked_writes)+

lemmas asked_rules = asked.frame_rules asked_disk asked_writes asked_updates

lemma asked_match: "keeps I m \<Longrightarrow> (\<And>a. keeps I (f a)) \<Longrightarrow> (\<And>e. keeps I (h e)) \<Longrightarrow> keeps I (match_io m f h)"
  by (rule hoare_match)

lemma asked_create: "keeps (requests_are rs ids) (create_prepared_case env pc)"
  unfolding create_prepared_case_def guarded_dir_def drop_dir_guard_def fill_new_case_def Let_def
  by (intro asked_rules asked_match)

lemma asked_merge_steps:
  "keeps (requests_are rs ids) (merge_case_notes env k k' uid)" "keeps (requests_are rs ids) (move_children env k k')"
  unfolding merge_case_notes_def move_children_def Let_def
  by (intro asked_rules)+

lemma asked_archive_steps:
  "keeps (requests_are rs ids) (move_active_case_workspace env uid k)"
  "keeps (requests_are rs ids) (complete_case_archive_workspace env uid k' mids)"
  unfolding move_active_case_workspace_def complete_case_archive_workspace_def Let_def
  by (intro asked_rules)+

lemma asked_commands:
  "keeps (requests_are rs ids) (add_message_to_case env c mid summary reason)"
  "keeps (requests_are rs ids) (case_set_summary env c mid s reason)"
  "keeps (requests_are rs ids) (remove_message_from_case env c mid reason)"
  "keeps (requests_are rs ids) (move_case env c grp reason)"
  "keeps (requests_are rs ids) (rename_case env c name reason)"
  "keeps (requests_are rs ids) (case_notes_append env c t)"
  "keeps (requests_are rs ids) (case_notes_replace env c t)"
  "keeps (requests_are rs ids) (archive_case env c reason)"
  "keeps (requests_are rs ids) (unarchive_case env c grp reason)"
  "keeps (requests_are rs ids) (trash_case env c reason)"
  "keeps (requests_are rs ids) (delete_case env c allow reason)"
  "keeps (requests_are rs ids) (tag_case env c tag reason)"
  "keeps (requests_are rs ids) (untag_case env c tag reason)"
  "keeps (requests_are rs ids) (merge_case env c c' reason)"
  unfolding add_message_to_case_def add_message_to_existing_case_def case_set_summary_def remove_message_from_case_def
    remove_message_from_case_workspace_def move_case_def rename_case_def case_notes_append_def case_notes_replace_def
    archive_case_def unarchive_case_def trash_case_def trash_case_workspace_def delete_case_def delete_case_workspace_def
    tag_case_def untag_case_def tag_or_untag_def merge_case_def Let_def
  by (intro asked_rules asked_merge_steps asked_archive_steps)+

section \<open>An identity starts at most once\<close>

definition started_recorded :: "(string \<times> request_record) list \<Rightarrow> string list \<Rightarrow> bool" where
  "started_recorded rs ids \<longleftrightarrow> distinct ids \<and> (\<forall>rid \<in> set ids. map_of rs rid \<noteq> None)"

definition requests_ok :: "kworld \<Rightarrow> bool" where
  "requests_ok w \<longleftrightarrow> started_recorded (kw_requests w) (kw_started w)"

definition asks :: "(string \<times> request_record) list \<Rightarrow> string list \<Rightarrow> 'a kcmd \<Rightarrow> bool" where
  "asks rs ids m \<longleftrightarrow> (started_recorded rs ids \<longrightarrow> hoare (requests_are rs ids) m (\<lambda>_. requests_ok) (\<lambda>_. requests_ok) requests_ok)"

lemma requests_are_ok: "started_recorded rs ids \<Longrightarrow> requests_are rs ids w \<Longrightarrow> requests_ok w"
  by (simp add: requests_are_def requests_ok_def)

lemma asks_keeps: "keeps (requests_are rs ids) m \<Longrightarrow> asks rs ids m"
  unfolding asks_def by (auto elim!: hoare_weaken intro: requests_are_ok)

lemma asks_bind:
  assumes "keeps (requests_are rs ids) m" "\<And>a. asks rs ids (f a)"
  shows "asks rs ids (bind_io m f)"
  unfolding asks_def
proof
  assume s: "started_recorded rs ids"
  have "hoare (requests_are rs ids) m (\<lambda>_. requests_are rs ids) (\<lambda>_. requests_ok) requests_ok"
    by (rule hoare_weaken [OF assms(1)]) (use s requests_are_ok in auto)
  then show "hoare (requests_are rs ids) (bind_io m f) (\<lambda>_. requests_ok) (\<lambda>_. requests_ok) requests_ok"
    by (rule hoare_bind) (use assms(2) s in \<open>simp add: asks_def\<close>)
qed

lemma asks_then: "keeps (requests_are rs ids) m \<Longrightarrow> asks rs ids n \<Longrightarrow> asks rs ids (then_io m n)"
  unfolding then_io_def by (rule asks_bind)

lemma recorded_put: "started_recorded rs ids \<Longrightarrow> started_recorded (put rid r rs) ids"
  by (auto simp: started_recorded_def)

lemma asks_put:
  assumes "asks (put rid r rs) ids n"
  shows "asks rs ids (then_io (put_request env rid r) n)"
  unfolding asks_def then_io_def
proof
  assume s: "started_recorded rs ids"
  have t: "requests_ok w" if "requests_are rs ids w \<or> requests_are (put rid r rs) ids w" for w
    using that requests_are_ok [OF s] requests_are_ok [OF recorded_put [OF s]] by blast
  have "hoare (requests_are rs ids) (put_request env rid r) (\<lambda>_. requests_are (put rid r rs) ids) (\<lambda>_. requests_ok) requests_ok"
    unfolding put_request_def by (rule hoare_kdisk) (auto intro!: t simp: requests_are_def)
  then show "hoare (requests_are rs ids) (bind_io (put_request env rid r) (\<lambda>_. n)) (\<lambda>_. requests_ok) (\<lambda>_. requests_ok) requests_ok"
    by (rule hoare_bind) (use assms recorded_put [OF s] in \<open>simp add: asks_def\<close>)
qed

lemma asks_start:
  assumes "asks rs (rid # ids) n" "map_of rs rid \<noteq> None" "rid \<notin> set ids"
  shows "asks rs ids (then_io (note_start rid) n)"
  unfolding asks_def then_io_def
proof
  assume s: "started_recorded rs ids"
  have "hoare (requests_are rs ids) (note_start rid) (\<lambda>_. requests_are rs (rid # ids)) (\<lambda>_. requests_ok) requests_ok"
    by (simp add: note_start_def modify_def hoare_def requests_are_def)
  then show "hoare (requests_are rs ids) (bind_io (note_start rid) (\<lambda>_. n)) (\<lambda>_. requests_ok) (\<lambda>_. requests_ok) requests_ok"
    by (rule hoare_bind) (use assms s in \<open>simp add: asks_def started_recorded_def\<close>)
qed

lemma asks_request:
  assumes "\<And>rs ids. keeps (requests_are rs ids) pre" "\<And>a rs ids. keeps (requests_are rs ids) (oper a)"
  shows "asks rs ids (run_idempotent_request_with_precheck env rid cmd input pre oper)"
proof -
  have fresh: "asks rs ids (bind_io pre (\<lambda>prepared.
          then_io (put_request env rid \<lparr>rq_command = cmd, rq_input_hash = h, rq_status = ''pending'', rq_result = None\<rparr>)
          (then_io (note_start rid)
          (bind_io (oper prepared) (\<lambda>v.
           then_io (put_request env rid \<lparr>rq_command = cmd, rq_input_hash = h, rq_status = ''completed'', rq_result = Some v\<rparr>)
             (ret v))))))" if n: "map_of rs rid = None" and s: "started_recorded rs ids" for h
  proof (rule asks_bind [OF assms(1)], rule asks_put, rule asks_start, rule asks_bind [OF assms(2)], rule asks_put)
    show "rid \<notin> set ids" using n s by (auto simp: started_recorded_def)
  qed (auto intro: asks_keeps keeps_ret)
  have known: "hoare (requests_are rs ids) (gets (\<lambda>w. map_of (kw_requests w) rid))
      (\<lambda>k w. requests_are rs ids w \<and> k = map_of rs rid) (\<lambda>_. requests_ok) requests_ok"
    by (auto simp: hoare_def gets_def requests_are_def)
  have answer: "asks rs ids (bind_io (gets (\<lambda>w. map_of (kw_requests w) rid)) (\<lambda>known. case known of
        Some r \<Rightarrow> then_io (ktouch env ''read idempotency record'') (of_res (replay_request rid cmd h r))
      | None \<Rightarrow> bind_io pre (\<lambda>prepared.
          then_io (put_request env rid \<lparr>rq_command = cmd, rq_input_hash = h, rq_status = ''pending'', rq_result = None\<rparr>)
          (then_io (note_start rid)
          (bind_io (oper prepared) (\<lambda>v.
           then_io (put_request env rid \<lparr>rq_command = cmd, rq_input_hash = h, rq_status = ''completed'', rq_result = Some v\<rparr>)
             (ret v)))))))" for h
    unfolding asks_def
  proof (intro impI, rule hoare_bind [OF known])
    fix k assume s: "started_recorded rs ids"
    have "asks rs ids (then_io (ktouch env ''read idempotency record'') (of_res (replay_request rid cmd h r)))" for r
      by (intro asks_then asks_keeps asked.frame_rules)
    then show "hoare (\<lambda>w. requests_are rs ids w \<and> k = map_of rs rid) (case k of
        Some r \<Rightarrow> then_io (ktouch env ''read idempotency record'') (of_res (replay_request rid cmd h r))
      | None \<Rightarrow> bind_io pre (\<lambda>prepared.
          then_io (put_request env rid \<lparr>rq_command = cmd, rq_input_hash = h, rq_status = ''pending'', rq_result = None\<rparr>)
          (then_io (note_start rid)
          (bind_io (oper prepared) (\<lambda>v.
           then_io (put_request env rid \<lparr>rq_command = cmd, rq_input_hash = h, rq_status = ''completed'', rq_result = Some v\<rparr>)
             (ret v)))))) (\<lambda>_. requests_ok) (\<lambda>_. requests_ok) requests_ok"
      using fresh [of h] s by (cases k) (auto simp: asks_def hoare_def)
  qed
  show ?thesis unfolding run_idempotent_request_with_precheck_def
    by (rule asks_then, rule asked.keeps_require_workspace, rule asks_then, rule keeps_of_res, rule asks_then, rule keeps_of_res,
        rule asks_bind, rule keeps_of_res, rule answer)
qed

lemma asks_idempotent:
  assumes "\<And>rs ids. keeps (requests_are rs ids) oper"
  shows "asks rs ids (idempotent_value env rid cmd input oper)"
proof (cases rid)
  case None
  show ?thesis unfolding idempotent_value_def None option.case by (rule asks_keeps [OF assms])
next
  case (Some r)
  show ?thesis unfolding idempotent_value_def Some option.case run_idempotent_request_def
    by (rule asks_request [OF keeps_ret assms])
qed

lemma asks_command: "asks rs ids (run_case_command env rid c)"
proof -
  have create: "asks rs ids (idempotent_value_with_precheck env rid cmd input (prepare_case_create env name grp mid s reason)
      (create_prepared_case env))" for cmd input name grp mid s reason
  proof (cases rid)
    case None
    show ?thesis unfolding idempotent_value_with_precheck_def None option.case
      by (intro asks_keeps keeps_bind asked.keeps_prepare asked_create)
  next
    case (Some r)
    show ?thesis unfolding idempotent_value_with_precheck_def Some option.case
      by (intro asks_request asked.keeps_prepare asked_create)
  qed
  have "asks rs ids (execute_case_command env rid c)"
  proof (cases c)
    case (CaseMerge c' other reason)
    show ?thesis unfolding CaseMerge execute_case_command.simps
      by (intro asks_keeps keeps_if keeps_fail asked_commands)
  qed (auto intro!: create asks_idempotent asked_commands keeps_then keeps_ret)
  then show ?thesis unfolding run_case_command_def
    by (intro asks_then asked.keeps_no_incomplete)
qed

text \<open>The other steps of a history leave the requests alone.\<close>

lemma asked_recover: "keeps (requests_are rs ids) (recover_case_archive_transaction env uid)"
  unfolding recover_case_archive_transaction_def by (intro asked_rules asked_archive_steps)

lemma asked_steps:
  "keeps (requests_are rs ids) (repair_incomplete_transactions env)"
  "keeps (requests_are rs ids) (finalize_archiving_cases env)"
  "keeps (requests_are rs ids) (append_sent_message_to_case env k uid mid summary added)"
proof -
  have run: "keeps (requests_are rs ids) (run_repair env r)" for r
  proof (cases "snd r")
    case (RepairCaseArchive uid)
    show ?thesis unfolding run_repair_def RepairCaseArchive transaction_repair.case
      by (intro keeps_then asked_recover asked_writes)
  next
    case AbortedDiscardUndo
    show ?thesis unfolding run_repair_def AbortedDiscardUndo transaction_repair.case
      by (intro keeps_then keeps_ret asked_writes)
  qed
  show "keeps (requests_are rs ids) (repair_incomplete_transactions env)"
    unfolding repair_incomplete_transactions_def planned_repair_def repair_action_def
    by (intro asked_rules run)
  show "keeps (requests_are rs ids) (finalize_archiving_cases env)"
    unfolding finalize_archiving_cases_def finalize_archiving_case_def by (intro asked_rules)
  show "keeps (requests_are rs ids) (append_sent_message_to_case env k uid mid summary added)"
    unfolding append_sent_message_to_case_def by (intro asked_rules)
qed

lemma asksD: "asks rs ids m \<Longrightarrow> requests_ok w \<Longrightarrow> kw_requests w = rs \<Longrightarrow> kw_started w = ids \<Longrightarrow> m w = (r, w') \<Longrightarrow> requests_ok w'"
  by (cases r) (auto simp: asks_def hoare_def requests_are_def requests_ok_def)

lemma steps_requests: "case_steps ok env w v \<Longrightarrow> requests_ok w \<Longrightarrow> requests_ok v"
proof (induction rule: case_steps.induct)
  case (command v env' c rid r v')
  then show ?case using asksD [OF asks_command] by blast
next
  case (repair v env' r' v')
  then show ?case using asksD [OF asks_keeps [OF asked_steps(1)]] by blast
next
  case (finalize v env' r' v')
  then show ?case using asksD [OF asks_keeps [OF asked_steps(2)]] by blast
next
  case (sent v env' k uid mid summary added r' v')
  then show ?case using asksD [OF asks_keeps [OF asked_steps(3)]] by blast
qed (simp_all add: requests_ok_def)

end
