(* ===== verification/Case_Scenario.thy ===== *)
theory Case_Scenario
  imports Case_Replay Scenario
begin

text \<open>One workspace with a case: created with a message, archived, and interrupted on the way.\<close>

definition demo_naming :: naming where
  "demo_naming = \<lparr>na_slug = (\<lambda>name. if name = [] then ''case'' else name), na_rfc3339 = (\<lambda>_. True),
     na_suggestions = (\<lambda>_ _. Inr ())\<rparr>"

definition case_env :: kenv where
  "case_env = \<lparr>ke_env = demo_env, ke_naming = demo_naming, ke_config = (\<lambda>_. Inr default_config),
     ke_reason_required = (\<lambda>_. Inr False), ke_overlays = (\<lambda>_. Inr ([], [])), ke_origin = (\<lambda>_. False),
     ke_clear_disposition = (\<lambda>_ _. Inr ()), ke_set_disposition = (\<lambda>_ _ _. Inr ()), ke_related = (\<lambda>_ _. Inr []),
     ke_message_date = (\<lambda>_ _. Inr ''20261119''), ke_local_date = (\<lambda>_. ''20261119''),
     ke_other_references = (\<lambda>_ _. Inr []), ke_json_first = (\<lambda>_. True), ke_new_notes = Inr ''notes'',
     ke_merged_notes = (\<lambda>mine _ theirs. Inr (mine @ theirs)), ke_hash = (\<lambda>_. Inr ''h'')\<rparr>"

definition filed_message :: message_file where
  "filed_message = \<lparr>mf_rfc822_message_id = Some ''<m1@x>'', mf_remote = None, mf_direction = Some ''inbound'',
     mf_status = ''triage'', mf_notification_uid = None, mf_remote_sync = None, mf_push = None\<rparr>"

definition empty_workspace :: kworld where
  "empty_workspace = \<lparr>kw_mail = demo_world\<lparr>w_messages := [(''m1'', filed_message)]\<rparr>, kw_dirs = [], kw_tx = [],
     kw_requests = [], kw_started = []\<rparr>"

definition offer_key :: "case_root \<Rightarrow> case_key" where
  "offer_key r = CaseKey r ''sales'' ''c20261119001-offer''"

definition offer_case :: message_collection where
  "offer_case = new_case_file ''c20261119001'' ''offer'' ''t'' [\<lparr>ci_message_id = ''m1'', ci_summary = None, ci_added = ''t''\<rparr>]"

text \<open>The message is in the active case.\<close>

definition offer_workspace :: kworld where
  "offer_workspace = put_dir (offer_key ActiveCases) (\<lambda>_. \<lparr>cd_json = Some (CaseJson offer_case), cd_notes = Some ''notes'',
     cd_files = [], cd_drafts = []\<rparr>) empty_workspace"

text \<open>A disk that fails at one operation.\<close>

definition failing_at :: "nat \<Rightarrow> disk_event \<Rightarrow> kenv" where
  "failing_at n ev = case_env\<lparr>ke_env := demo_env\<lparr>e_disk := (\<lambda>i. if i = n then ev else DiskOk)\<rparr>\<rparr>"

text \<open>The archive of the case is killed after the directory moved and before its status is written.\<close>

definition half_archived_workspace :: kworld where
  "half_archived_workspace = snd (run_case_command (failing_at 31 CrashAfter) (Some ''r1'') (CaseArchive ''c20261119001'' None) offer_workspace)"

text \<open>The workspace such a kill leaves, written out, and the workspace of an archived case.\<close>

definition archive_transaction :: transaction_file where
  "archive_transaction = \<lparr>tx_kind = ''case_archive'', tx_created = ''t'',
     tx_paths = archive_paths ''c20261119001'' (offer_key ActiveCases)\<rparr>"

definition interrupted_workspace :: kworld where
  "interrupted_workspace = (put_dir (offer_key ArchivedCases) (\<lambda>_. \<lparr>cd_json = Some (CaseJson offer_case), cd_notes = Some ''notes'',
     cd_files = [], cd_drafts = []\<rparr>) empty_workspace)\<lparr>kw_tx := [(''tx'', archive_transaction)]\<rparr>"

definition archived_workspace :: kworld where
  "archived_workspace = put_dir (offer_key ArchivedCases) (\<lambda>_. \<lparr>cd_json = Some (CaseJson (archive_state True ''t'' offer_case)),
     cd_notes = Some ''notes'', cd_files = [], cd_drafts = []\<rparr>) empty_workspace"

definition on_disk :: "(nat \<Rightarrow> disk_event) \<Rightarrow> kenv" where
  "on_disk d = case_env\<lparr>ke_env := demo_env\<lparr>e_disk := d\<rparr>\<rparr>"

definition stuck_workspace :: kworld where
  "stuck_workspace = snd (run_case_command (failing_at 10 (DiskFail ''full'')) None (CaseUnarchive ''c20261119001'' ''sales'' None) archived_workspace)"

text \<open>What the witnesses look at.\<close>

definition outline :: "kworld \<Rightarrow> (case_key \<times> case_text option) list \<times> string list \<times> string option" where
  "outline w = (map (\<lambda>d. (fst d, cd_json (snd d))) (kw_dirs w), kw_started w, map_option rq_status (map_of (kw_requests w) ''r1''))"

lemma half_archived_outline:
  "outline half_archived_workspace = ([(offer_key ArchivedCases, Some (CaseJson offer_case))], [''r1''], Some ''pending'')"
  by code_simp

lemma offer_checks:
  "check_key case_env (offer_key r) offer_case"
  unfolding check_key_def offer_key_def by (cases r; code_simp)

lemma case_env_names: "slugs_ok case_env" "uids_ok case_env" "same_rules case_env (failing_at n ev)" "same_rules case_env case_env"
  by (auto simp: slugs_ok_def uids_ok_def same_rules_def case_env_def failing_at_def demo_env_def demo_naming_def)

lemma view_of_one:
  "view_of (put_dir k (\<lambda>_. d) empty_workspace) = View ((\<lambda>_. None)(k := cd_json d)) []"
  "well_keyed (put_dir k (\<lambda>_. d) empty_workspace)"
  by (auto simp: view_of_def put_dir_def dir_at_def empty_workspace_def well_keyed_def empty_dir_def)

lemma view_of_tx: "view_of (w\<lparr>kw_tx := T\<rparr>) = View (v_files (view_of w)) T" "well_keyed (w\<lparr>kw_tx := T\<rparr>) = well_keyed w"
  by (simp_all add: view_of_def dir_at_def well_keyed_def)

lemma offer_view:
  "view_of offer_workspace = View ((\<lambda>_. None)(offer_key ActiveCases := Some (CaseJson offer_case))) []" "well_keyed offer_workspace"
  "view_of interrupted_workspace = View ((\<lambda>_. None)(offer_key ArchivedCases := Some (CaseJson offer_case))) [(''tx'', archive_transaction)]"
  "well_keyed interrupted_workspace"
  by (simp_all add: offer_workspace_def interrupted_workspace_def view_of_one view_of_tx)

lemma offer_registry: "registry_inv case_env (view_of offer_workspace)"
  using offer_checks [of ActiveCases]
  by (auto simp: offer_view registry_inv_def registry_ok_def registry_but_def offer_key_def offer_case_def status_fits_def)

lemma interrupted_registry: "registry_inv case_env (view_of interrupted_workspace)"
proof -
  have "repairable_case_archive_uid (ke_env case_env) archive_transaction = Some ''c20261119001''"
    by code_simp
  then show ?thesis
    using offer_checks [of ArchivedCases]
    by (auto simp: offer_view registry_inv_def registry_but_def half_archived_def offer_key_def offer_case_def)
qed

lemma offer_filed: "filed case_env ''m1'' (view_of offer_workspace)"
  unfolding filed_def offer_view
  using offer_checks [of ActiveCases] by (auto simp: case_at_check offer_case_def co_message_ids_def)

end
