(* ===== verification/Case_Repair.thy ===== *)
theory Case_Repair
  imports Case_History
begin

text \<open>
  What repair does to the cases: it changes nothing but the state of a case that a transaction names and
  that is archived, so no case is lost and none is altered.
\<close>

section \<open>Changes of the state of a case\<close>

definition only_state :: "message_collection \<Rightarrow> message_collection \<Rightarrow> bool" where
  "only_state co co' \<longleftrightarrow> co' = co\<lparr>co_status := co_status co', co_updated := co_updated co', co_archived := co_archived co'\<rparr>"

lemma only_state_refl [simp]: "only_state co co"
  by (simp add: only_state_def)

lemma only_state_trans: "only_state a b \<Longrightarrow> only_state b c \<Longrightarrow> only_state a c"
  unfolding only_state_def by (cases a; cases b; cases c) simp

lemma only_state_uid: "only_state co co' \<Longrightarrow> co_uid co' = co_uid co"
  unfolding only_state_def by (cases co; cases co') simp

lemma only_state_ids: "only_state co co' \<Longrightarrow> co_message_ids co' = co_message_ids co"
  unfolding only_state_def co_message_ids_def by (cases co; cases co') simp

lemma only_state_archive [simp]: "only_state co (archive_state b t co)"
  by (simp add: only_state_def archive_state_def)

text \<open>From the files \<open>F\<close> only archived cases with a uid in \<open>U\<close> have changed, in their state.\<close>

definition mends :: "string set \<Rightarrow> (case_key \<Rightarrow> case_text option) \<Rightarrow> case_view \<Rightarrow> bool" where
  "mends U F V \<longleftrightarrow> (\<forall>k. v_files V k = F k \<or> key_root k = ArchivedCases
     \<and> (\<exists>co co'. F k = Some (CaseJson co) \<and> v_files V k = Some (CaseJson co') \<and> co_uid co \<in> U \<and> only_state co co'))"

lemma mends_put:
  assumes "mends U F V" "v_files V k = Some (CaseJson co)" "co_uid co \<in> U" "key_root k = ArchivedCases" "only_state co co'"
  shows "mends U F (put_case k co' V)"
proof -
  obtain co0 where "F k = Some (CaseJson co0)" "co_uid co0 \<in> U" "only_state co0 co'"
    using assms only_state_trans only_state_uid unfolding mends_def by (metis case_text.inject option.inject only_state_refl)
  then show ?thesis using assms(1,4) unfolding mends_def by auto
qed

text \<open>An archived case with a uid in \<open>U\<close> where the next write goes.\<close>

definition mending :: "kenv \<Rightarrow> string set \<Rightarrow> (case_key \<Rightarrow> case_text option) \<Rightarrow> case_key \<Rightarrow> case_view \<Rightarrow> bool" where
  "mending env U F k V \<longleftrightarrow> mends U F V \<and> key_root k = ArchivedCases \<and> (\<exists>co. case_at env V k co \<and> co_uid co \<in> U)"

lemma leads_mend:
  assumes m: "mending env U F k V" and f: "\<And>co t. only_state co (f co t)"
  shows "leads V (bind_io (read_case_file env k) (\<lambda>co. bind_io (know env) (\<lambda>t. write_case_file env k (f co t))))
    (\<lambda>_. mending env U F k) (mends U F)"
proof (rule leads_restatus)
  show "mends U F V" using m by (simp add: mending_def)
  fix co t assume co: "case_at env V k co" and c: "check_key env k (f co t)"
  have u: "co_uid co \<in> U" using m case_at_fun [OF co] by (auto simp: mending_def)
  have "mends U F (put_case k (f co t) V)"
    by (rule mends_put [OF _ _ u _ f]) (use m co in \<open>simp_all add: mending_def case_at_def\<close>)
  moreover have "co_uid (f co t) \<in> U" using u only_state_uid [OF f] by simp
  ultimately show "mends U F (put_case k (f co t) V) \<and> mending env U F k (put_case k (f co t) V)"
    using m c by (auto simp: mending_def case_at_put)
qed

lemma leads_mend_archived: "mending env U F k V \<Longrightarrow> leads V (update_case_archive_state env k b) (\<lambda>_. mending env U F k) (mends U F)"
  unfolding update_case_archive_state_def by (erule leads_mend) simp

lemma leads_mend_archiving: "mending env U F k V \<Longrightarrow> leads V (update_case_archiving_state env k) (\<lambda>_. mending env U F k) (mends U F)"
  unfolding update_case_archiving_state_def by (erule leads_mend) (simp add: only_state_def)

lemma mendingD: "mending env U F k V \<Longrightarrow> mends U F V"
  by (simp add: mending_def)

lemma leads_mend_complete:
  assumes m: "mending env U F k V"
  shows "leads V (complete_case_archive_workspace env uid k mids) (\<lambda>_. mends U F) (mends U F)"
  unfolding complete_case_archive_workspace_def
  by (rule leads_then, rule viewed.keeps_refresh_messages, rule mendingD [OF m], rule leads_then, rule viewed.keeps_refresh_views,
      rule mendingD [OF m], rule leads_any, rule viewed.keeps_queue_archive, rule mendingD [OF m], rule leads_any,
      rule viewed.keeps_pending_work, rule mendingD [OF m], rule leads_if, rule leads_then_seq, rule leads_mend_archiving [OF m],
      rule leads_ret, erule mendingD, rule leads_then_seq, rule leads_mend_archived [OF m], rule leads_ret, erule mendingD)

text \<open>A case with the uid is among the files.\<close>

definition named_in :: "(case_key \<Rightarrow> case_text option) \<Rightarrow> string \<Rightarrow> bool" where
  "named_in F uid \<longleftrightarrow> (\<exists>k co. F k = Some (CaseJson co) \<and> co_uid co = uid)"

lemma mends_named_in:
  assumes "mends U F V" "v_files V k = Some (CaseJson co)"
  shows "named_in F (co_uid co)"
  using assms only_state_uid unfolding mends_def named_in_def by (metis case_text.inject option.inject)

lemma leads_mend_recover:
  assumes J: "mends U F V" and u: "uid \<in> U"
  shows "leads V (recover_case_archive_transaction env uid) (\<lambda>_ W. mends U F W \<and> named_in F uid) (mends U F)"
  unfolding recover_case_archive_transaction_def
proof (rule leads_bind, rule sees_find, rule J)
  fix active assume active: "finds env V ActiveCases uid active"
  have found: "leads V (bind_io (read_case_messages env k uid) (\<lambda>co. then_io (update_case_archive_state env k True)
      (then_io (complete_case_archive_workspace env uid k (co_message_ids co)) (ret ())))) (\<lambda>_ W. mends U F W \<and> named_in F uid) (mends U F)"
    if "key_root k = ArchivedCases" for k
  proof (rule leads_bind, rule sees_case_messages, rule J, rule leads_then_seq)
    fix co assume "case_at env V k co \<and> co_uid co = uid"
    then have "mending env U F k V" "named_in F uid" using J u that mends_named_in [OF J] by (auto simp: mending_def case_at_def)
    then show "leads V (update_case_archive_state env k True) (\<lambda>_ W. mending env U F k W \<and> named_in F uid) (mends U F)"
      by (auto intro: leads_weaken [OF leads_mend_archived])
  next
    fix co W assume "mending env U F k W \<and> named_in F uid"
    then show "leads W (then_io (complete_case_archive_workspace env uid k (co_message_ids co)) (ret ()))
        (\<lambda>_ W. mends U F W \<and> named_in F uid) (mends U F)"
      by (auto intro!: leads_then_seq [OF leads_mend_complete] leads_ret)
  qed
  have archived: "leads V (bind_io (find_archived_case_by_uid env uid) (\<lambda>archived. case archived of
       None \<Rightarrow> fail (app_error_new ''transaction_incomplete''
         (''cannot repair case archive transaction: case '' @ uid @ '' is neither active nor archived''))
     | Some k \<Rightarrow> bind_io (read_case_messages env k uid) (\<lambda>co. then_io (update_case_archive_state env k True)
      (then_io (complete_case_archive_workspace env uid k (co_message_ids co)) (ret ()))))) (\<lambda>_ W. mends U F W \<and> named_in F uid) (mends U F)"
  proof (rule leads_bind, rule sees_find_archived, rule J)
    fix a assume "finds env V ArchivedCases uid a"
    then have k: "key_root k = ArchivedCases" if "a = Some k" for k using that by (auto simp: finds_def)
    then show "leads V (case a of
       None \<Rightarrow> fail (app_error_new ''transaction_incomplete''
         (''cannot repair case archive transaction: case '' @ uid @ '' is neither active nor archived''))
     | Some k \<Rightarrow> bind_io (read_case_messages env k uid) (\<lambda>co. then_io (update_case_archive_state env k True)
      (then_io (complete_case_archive_workspace env uid k (co_message_ids co)) (ret ())))) (\<lambda>_ W. mends U F W \<and> named_in F uid) (mends U F)"
      by (cases a) (simp_all add: leads_fail J found)
  qed
  show "leads V (case active of Some _ \<Rightarrow> ret () | None \<Rightarrow> bind_io (find_archived_case_by_uid env uid) (\<lambda>archived. case archived of
       None \<Rightarrow> fail (app_error_new ''transaction_incomplete''
         (''cannot repair case archive transaction: case '' @ uid @ '' is neither active nor archived''))
     | Some k \<Rightarrow> bind_io (read_case_messages env k uid) (\<lambda>co. then_io (update_case_archive_state env k True)
      (then_io (complete_case_archive_workspace env uid k (co_message_ids co)) (ret ()))))) (\<lambda>_ W. mends U F W \<and> named_in F uid) (mends U F)"
    using archived active mends_named_in [OF J]
    by (auto simp: finds_def case_at_def split: option.split intro!: leads_ret J)
qed

section \<open>Repair\<close>

definition named_uids :: "kenv \<Rightarrow> (string \<times> transaction_file) list \<Rightarrow> string set" where
  "named_uids env txs = {uid. \<exists>t \<in> set txs. repairable_case_archive_uid (ke_env env) (snd t) = Some uid}"

lemma mends_tx: "mends U F V \<Longrightarrow> v_files V' = v_files V \<Longrightarrow> mends U F V'"
  by (simp add: mends_def)

text \<open>What a planned repair finds among the files.\<close>

definition repair_found :: "(case_key \<Rightarrow> case_text option) \<Rightarrow> string \<times> transaction_repair \<Rightarrow> bool" where
  "repair_found F r = (case snd r of RepairCaseArchive uid \<Rightarrow> named_in F uid | AbortedDiscardUndo \<Rightarrow> True)"

lemma leads_mend_run:
  assumes J: "mends U F V" and r: "\<And>uid. snd r = RepairCaseArchive uid \<Longrightarrow> uid \<in> U"
  shows "leads V (run_repair env r) (\<lambda>_ W. mends U F W \<and> repair_found F r) (mends U F)"
  unfolding run_repair_def
proof (rule leads_then_seq [where R' = "\<lambda>W. mends U F W \<and> repair_found F r"])
  show "leads V (case snd r of RepairCaseArchive uid \<Rightarrow> recover_case_archive_transaction env uid | AbortedDiscardUndo \<Rightarrow> ret ())
      (\<lambda>_ W. mends U F W \<and> repair_found F r) (mends U F)"
    using r J by (auto simp: repair_found_def split: transaction_repair.split intro: leads_mend_recover leads_ret)
  show "leads W (remove_transaction env (fst r)) (\<lambda>_ W. mends U F W \<and> repair_found F r) (mends U F)"
    if "mends U F W \<and> repair_found F r" for W
    by (rule leads_weaken, rule leads_remove_transaction [where J = "mends U F"]) (use that in \<open>auto intro: mends_tx\<close>)
qed

lemma leads_mend_runs:
  assumes "mends U F V" "\<And>r uid. r \<in> set rs \<Longrightarrow> snd r = RepairCaseArchive uid \<Longrightarrow> uid \<in> U"
  shows "leads V (for_io rs (run_repair env)) (\<lambda>_ W. mends U F W \<and> (\<forall>r \<in> set rs. repair_found F r)) (mends U F)"
  using assms
proof (induction rs arbitrary: V)
  case (Cons r rs)
  have run: "leads V (run_repair env r) (\<lambda>_ W. mends U F W \<and> repair_found F r) (mends U F)"
    by (rule leads_mend_run [OF Cons.prems(1)], rule Cons.prems(2)) simp_all
  have rest: "leads W (for_io rs (run_repair env)) (\<lambda>_ W. mends U F W \<and> (\<forall>r \<in> set (r # rs). repair_found F r)) (mends U F)"
    if W: "mends U F W \<and> repair_found F r" for W
  proof (rule leads_weaken [OF Cons.IH])
    show "uid \<in> U" if "q \<in> set rs" "snd q = RepairCaseArchive uid" for q uid
      by (rule Cons.prems(2) [of q uid]) (use that in simp_all)
  qed (use W in auto)
  show ?case unfolding for_io.simps by (rule leads_then_seq [OF run rest])
qed (simp add: leads_ret)

lemma leads_mend_repair:
  "leads V (repair_incomplete_transactions env)
     (\<lambda>_ W. mends (named_uids env (v_tx V)) (v_files V) W \<and> (\<forall>uid \<in> named_uids env (v_tx V). named_in (v_files V) uid))
     (mends (named_uids env (v_tx V)) (v_files V))"
proof -
  let ?U = "named_uids env (v_tx V)"
  let ?J = "mends ?U (v_files V)"
  have J: "?J V" by (simp add: mends_def)
  have planned: "sees V (map_io (planned_repair env) txs) (\<lambda>rs. ?U = {uid. \<exists>r \<in> set rs. snd r = RepairCaseArchive uid})"
    if t: "set txs = set (v_tx V)" for txs
  proof (rule sees_weaken, rule sees_map)
    show "sees V (planned_repair env t) (repair_fits env (fst t) (snd t))" for t
      using sees_planned [of V env "fst t" "snd t"] by simp
    fix rs assume "list_all2 (\<lambda>t. repair_fits env (fst t) (snd t)) txs rs"
    then have "{uid. \<exists>t \<in> set txs. repairable_case_archive_uid (ke_env env) (snd t) = Some uid}
        = {uid. \<exists>r \<in> set rs. snd r = RepairCaseArchive uid}"
      by (induction rule: list_all2_induct) (auto simp: repair_fits_def split: transaction_repair.splits)
    then show "?U = {uid. \<exists>r \<in> set rs. snd r = RepairCaseArchive uid}" by (simp add: named_uids_def t)
  qed
  show ?thesis unfolding repair_incomplete_transactions_def
  proof (rule leads_then, rule viewed.keeps_touch, rule J,
      rule leads_bind [OF sees_gets [where Q = "\<lambda>txs. set txs = set (v_tx V)"]], simp add: at_view_def, rule J,
      rule leads_bind [OF planned], assumption, rule J)
    fix rs :: "(string \<times> transaction_repair) list"
    assume U: "?U = {uid. \<exists>r \<in> set rs. snd r = RepairCaseArchive uid}"
    show "leads V (for_io rs (run_repair env)) (\<lambda>_ W. ?J W \<and> (\<forall>uid \<in> ?U. named_in (v_files V) uid)) ?J"
      by (rule leads_weaken, rule leads_mend_runs [OF J]) (use U in \<open>fastforce simp: repair_found_def\<close>)+
  qed
qed

section \<open>Beside the case file\<close>

text \<open>Notes, files and drafts of every case are as in \<open>D\<close>.\<close>

definition rest_is :: "(case_key \<Rightarrow> case_dir) \<Rightarrow> kworld \<Rightarrow> bool" where
  "rest_is D w \<longleftrightarrow> (\<forall>k. (dir_at k w)\<lparr>cd_json := None\<rparr> = D k)"

interpretation beside: kframe "rest_is D" for D
  by unfold_locales (simp add: rest_is_def dir_at_def)

lemma keeps_rest_write: "keeps (rest_is D) (write_case_file env k co)"
proof -
  have put: "rest_is D (put_dir k (\<lambda>d. d\<lparr>cd_json := Some (CaseJson co)\<rparr>) w)" if "rest_is D w" for w
    using that by (auto simp: rest_is_def put_dir_def dir_at_def)
  have tick: "rest_is D (ktick w)" if "rest_is D w" for w using that by (simp add: rest_is_def)
  show ?thesis unfolding write_case_file_def
    by (intro hoare_rules, rule hoare_kdisk) (auto intro: put tick)
qed

lemma keeps_rest_status:
  "keeps (rest_is D) (update_case_archive_state env k b)" "keeps (rest_is D) (update_case_archiving_state env k)"
  unfolding update_case_archive_state_def update_case_archiving_state_def
  by (intro beside.frame_rules keeps_rest_write)+

lemma keeps_rest_repair: "keeps (rest_is D) (repair_incomplete_transactions env)"
proof -
  have tx: "keeps (rest_is D) (remove_transaction env tid)" for tid
    unfolding remove_transaction_def
    by (intro hoare_rules, rule hoare_kdisk) (simp_all add: rest_is_def dir_at_def)
  have recover: "keeps (rest_is D) (recover_case_archive_transaction env uid)" for uid
    unfolding recover_case_archive_transaction_def complete_case_archive_workspace_def
    by (intro beside.frame_rules keeps_rest_status)
  have run: "keeps (rest_is D) (run_repair env r)" for r
    unfolding run_repair_def by (cases "snd r") (auto intro!: keeps_then recover tx keeps_ret)
  show ?thesis unfolding repair_incomplete_transactions_def planned_repair_def repair_action_def
    by (intro beside.frame_rules run)
qed

end
