(* ===== verification/Case_Laws.thy ===== *)
theory Case_Laws
  imports Case_Scenario Case_Repair
begin

text \<open>
  The properties of the cases: their registry stays consistent through every history, repair restores it,
  messages stay filed, a request with an identity starts once, and the one interruption that repair does
  not undo.
\<close>

section \<open>The registry\<close>

text \<open>Claim C7: The registry of cases stays consistent.  Through every history of case commands, repairs, finished
  pushes and changes of the mail, with any disk failures and kills, every case file is valid where it
  lies, its status is none under the active root and archiving or archived under the other, and no uid
  names two cases; the only exception is a case whose directory an interrupted archive has moved, and the
  one pending transaction names it.  An unarchive needs a disk that does not fail, and a create that no
  case has the last sequence number of a \<open>u64\<close> (\<open>orderly\<close>).\<close>

theorem registry_stays_consistent:
  assumes "case_steps orderly env w v" "well_keyed w" "registry_inv env (view_of w)" "slugs_ok env" "uids_ok env"
  shows "registry_inv env (view_of v)"
  using steps_registry [OF assms] by blast

theorem registry_stays_consistent_witness:
  "case_steps orderly case_env offer_workspace half_archived_workspace \<and> registry_inv case_env (view_of half_archived_workspace)
    \<and> fst (outline half_archived_workspace) = [(offer_key ArchivedCases, Some (CaseJson offer_case))]"
proof -
  have s: "case_steps orderly case_env offer_workspace half_archived_workspace"
    unfolding half_archived_workspace_def
    by (rule case_steps.command [OF case_steps.here case_env_names(3) _ surjective_pairing]) simp
  show ?thesis
    using s registry_stays_consistent [OF s offer_view(2) offer_registry case_env_names(1,2)]
    by (simp add: half_archived_outline)
qed

text \<open>Claim C8: Repair completes an interrupted archive and loses nothing.  From any registry that the commands can
  leave, a repair that returns leaves no transaction and a registry without exception.  Every case is
  still there, in the directory it was in, with the same uid, name, messages, tags, notes, files and drafts; an active
  case has no status, and one whose directory had been moved is archived or archiving, whatever status it had.
  Only a case that a transaction names may differ, in its status and its times, and no case is added; the
  case of every transaction that repair completes exists.\<close>

theorem repair_restores_registry:
  assumes "registry_inv env (view_of w)" "well_keyed w" "repair_incomplete_transactions env w = (Done (), v)"
  shows "kw_tx v = [] \<and> registry_ok env (view_of v)
    \<and> (\<forall>k co. cd_json (dir_at k w) = Some (CaseJson co) \<longrightarrow> (\<exists>co'. cd_json (dir_at k v) = Some (CaseJson co')
          \<and> only_state co co'
          \<and> co_status co' \<in> (if key_root k = ActiveCases then {[]} else {''archiving'', ''archived''})
          \<and> (co' \<noteq> co \<longrightarrow> co_uid co \<in> named_uids env (kw_tx w))))
    \<and> (\<forall>k. cd_json (dir_at k w) = None \<longrightarrow> cd_json (dir_at k v) = None)
    \<and> (\<forall>k. (dir_at k v)\<lparr>cd_json := cd_json (dir_at k w)\<rparr> = dir_at k w)
    \<and> (\<forall>uid \<in> named_uids env (kw_tx w). \<exists>k co. cd_json (dir_at k v) = Some (CaseJson co) \<and> co_uid co = uid)"
proof -
  let ?U = "named_uids env (kw_tx w)" and ?F = "\<lambda>k. cd_json (dir_at k w)"
  have "somewhere (\<lambda>V. registry_ok env V \<and> v_tx V = []) v"
    using leads_repair [OF assms(1)] assms(2,3) unfolding leads_def hoare_def
    by (auto simp: at_view_of dest!: spec [of _ w])
  then have r: "kw_tx v = []" "registry_ok env (view_of v)" by (auto simp: somewhere_def at_view_of view_of_def)
  have "somewhere (\<lambda>V. mends ?U ?F V \<and> (\<forall>uid \<in> ?U. named_in ?F uid)) v"
    using leads_mend_repair [of "view_of w" env] assms(2,3) unfolding leads_def hoare_def
    by (auto simp: at_view_of view_of_def dest!: spec [of _ w])
  then have m0: "mends ?U ?F (view_of v)" and n: "\<forall>uid \<in> ?U. named_in ?F uid" by (auto simp: somewhere_def at_view_of)
  have m: "cd_json (dir_at k v) = ?F k \<or> key_root k = ArchivedCases
      \<and> (\<exists>co co'. ?F k = Some (CaseJson co) \<and> cd_json (dir_at k v) = Some (CaseJson co') \<and> co_uid co \<in> ?U \<and> only_state co co')" for k
    using m0 by (auto simp: mends_def view_of_def)
  have found: "\<exists>k co. cd_json (dir_at k v) = Some (CaseJson co) \<and> co_uid co = uid" if "uid \<in> ?U" for uid
    using n that m only_state_uid unfolding named_in_def by (metis option.inject case_text.inject)
  have d: "(dir_at k v)\<lparr>cd_json := None\<rparr> = (dir_at k w)\<lparr>cd_json := None\<rparr>" for k
    using keepsD [OF keeps_rest_repair, of "\<lambda>k. (dir_at k w)\<lparr>cd_json := None\<rparr>" w env] assms(3) by (simp add: rest_is_def)
  have rest: "(dir_at k v)\<lparr>cd_json := ?F k\<rparr> = dir_at k w" for k
    using d [of k] by (metis case_dir.surjective case_dir.update_convs(1) case_dir.select_convs(1))
  have fits: "co_status co' \<in> (if key_root k = ActiveCases then {[]} else {''archiving'', ''archived''})"
    if "cd_json (dir_at k v) = Some (CaseJson co')" for k co'
    using registry_okD [OF r(2), of k co'] that by (cases "key_root k") (auto simp: view_of_def status_fits_def)
  have stays: "\<exists>co'. cd_json (dir_at k v) = Some (CaseJson co') \<and> only_state co co' \<and> (co' \<noteq> co \<longrightarrow> co_uid co \<in> ?U)"
    if "?F k = Some (CaseJson co)" for k co
    using m [of k] that by auto
  have none: "cd_json (dir_at k v) = None" if "?F k = None" for k using m [of k] that by auto
  show ?thesis
  proof (intro conjI allI impI ballI r none rest found)
    fix k co assume "?F k = Some (CaseJson co)"
    then show "\<exists>co'. cd_json (dir_at k v) = Some (CaseJson co') \<and> only_state co co'
        \<and> co_status co' \<in> (if key_root k = ActiveCases then {[]} else {''archiving'', ''archived''})
        \<and> (co' \<noteq> co \<longrightarrow> co_uid co \<in> ?U)"
      using stays fits by blast
  qed
qed

theorem repair_restores_registry_witness:
  "\<exists>v co'. repair_incomplete_transactions case_env interrupted_workspace = (Done (), v) \<and> kw_tx v = []
    \<and> cd_json (dir_at (offer_key ArchivedCases) v) = Some (CaseJson co') \<and> co_status co' \<in> {''archiving'', ''archived''}
    \<and> co_message_ids co' = [''m1''] \<and> cd_notes (dir_at (offer_key ArchivedCases) v) = Some ''notes''"
proof -
  obtain v where v: "repair_incomplete_transactions case_env interrupted_workspace = (Done (), v)"
  proof -
    have "fst (repair_incomplete_transactions case_env interrupted_workspace) = Done ()" by code_simp
    then show ?thesis using that by (metis prod.collapse)
  qed
  have d: "dir_at (offer_key ArchivedCases) interrupted_workspace = \<lparr>cd_json = Some (CaseJson offer_case), cd_notes = Some ''notes'',
      cd_files = [], cd_drafts = []\<rparr>"
    by (simp add: interrupted_workspace_def dir_at_def put_dir_def)
  note R = repair_restores_registry [OF interrupted_registry offer_view(4) v]
  have c: "cd_json (dir_at (offer_key ArchivedCases) interrupted_workspace) = Some (CaseJson offer_case)" by (simp add: d)
  obtain co' where co': "cd_json (dir_at (offer_key ArchivedCases) v) = Some (CaseJson co')" "only_state offer_case co'"
    "co_status co' \<in> {''archiving'', ''archived''}"
    using mp [OF spec [OF spec [OF conjunct1 [OF conjunct2 [OF conjunct2 [OF R]]]]] c] by (auto simp: offer_key_def)
  have "co_message_ids co' = co_message_ids offer_case" by (rule only_state_ids [OF co'(2)])
  then have "co_message_ids co' = [''m1'']" by (simp add: co_message_ids_def offer_case_def new_case_file_def)
  moreover have "cd_notes (dir_at (offer_key ArchivedCases) v) = Some ''notes''"
    using arg_cong [OF spec [OF conjunct1 [OF conjunct2 [OF conjunct2 [OF conjunct2 [OF conjunct2 [OF R]]]]], of "offer_key ArchivedCases"], of cd_notes]
    by (simp add: d)
  ultimately show ?thesis using v co' R by blast
qed

section \<open>Messages\<close>

text \<open>Claim C9: Filed messages stay filed.  A message that some case has is in some case after every history without
  a removal or a trashing: through merging, moving, renaming, archiving and unarchiving, deletion of other
  cases, repairs and pushes, whatever the disk does and wherever the process is killed.\<close>

theorem filed_messages_stay_filed:
  assumes "case_steps keeps_filed env w v" "well_keyed w" "filed env mid (view_of w)" "slugs_ok env"
  shows "filed env mid (view_of v)"
  using steps_filed [OF assms] by blast

theorem filed_messages_stay_filed_witness:
  "case_steps keeps_filed case_env offer_workspace half_archived_workspace \<and> filed case_env ''m1'' (view_of half_archived_workspace)"
proof -
  have s: "case_steps keeps_filed case_env offer_workspace half_archived_workspace"
    unfolding half_archived_workspace_def
    by (rule case_steps.command [OF case_steps.here case_env_names(3) _ surjective_pairing]) simp
  show ?thesis using s filed_messages_stay_filed [OF s offer_view(2) offer_filed case_env_names(1)] by blast
qed

section \<open>Requests\<close>

text \<open>Claim C10: A request with an identity starts its operation at most once.  Through every history, with any
  failures and kills, no identity is among the started ones twice, and each started one has a record, so
  that it is answered from the record or refused when it comes again.\<close>

theorem request_starts_once:
  assumes "case_steps ok env w v" "requests_ok w"
  shows "distinct (kw_started v) \<and> (\<forall>rid \<in> set (kw_started v). \<exists>r. map_of (kw_requests v) rid = Some r)"
  using steps_requests [OF assms] by (auto simp: requests_ok_def started_recorded_def)

theorem request_starts_once_witness:
  "case_steps orderly case_env offer_workspace half_archived_workspace
    \<and> snd (outline half_archived_workspace) = ([''r1''], Some ''pending'') \<and> distinct (kw_started half_archived_workspace)"
proof -
  have s: "case_steps orderly case_env offer_workspace half_archived_workspace"
    unfolding half_archived_workspace_def
    by (rule case_steps.command [OF case_steps.here case_env_names(3) _ surjective_pairing]) simp
  have o: "requests_ok offer_workspace"
    by (simp add: requests_ok_def started_recorded_def offer_workspace_def empty_workspace_def put_dir_def)
  show ?thesis using s request_starts_once [OF s o] by (simp add: half_archived_outline)
qed

section \<open>The interruption that repair does not undo\<close>

lemma sees_index_entry:
  "sees V (index_entry env e) (\<lambda>_. \<exists>co. case_at env V (snd e) co \<and> status_fits (key_root (snd e)) (co_status co))"
  unfolding index_entry_def split_beta
proof (rule sees_bind [OF sees_case_messages])
  fix co assume "case_at env V (snd e) co \<and> co_uid co = fst e"
  then show "sees V (then_io (of_res (check_status (snd e) co)) (ret \<lparr>ie_uid = fst e, ie_key = snd e, ie_status = co_status co,
      ie_message_ids = co_message_ids co\<rparr>)) (\<lambda>_. \<exists>co. case_at env V (snd e) co \<and> status_fits (key_root (snd e)) (co_status co))"
    unfolding then_io_def
    by (intro sees_bind [OF sees_of_res [where Q = "\<lambda>_. status_fits (key_root (snd e)) (co_status co)"]] sees_ret)
      (auto simp: check_status_def)
qed

text \<open>An archived case without a status: the index of the cases cannot be built, and no message can be read.\<close>

lemma sees_misfit:
  assumes "case_at env V k co" "key_root k = ArchivedCases" "co_status co = []"
  shows "sees V (read_message_overlaid env mid) (\<lambda>_. False)"
proof -
  have entries: "sees V (map_io (index_entry env) es) (\<lambda>_. False)" if "lists_cases env V (\<lambda>k. key_root k = ArchivedCases) es" for es
  proof (rule sees_weaken [OF sees_map [OF sees_index_entry]])
    fix ix assume l: "list_all2 (\<lambda>e _. \<exists>co. case_at env V (snd e) co \<and> status_fits (key_root (snd e)) (co_status co)) es ix"
    have "(co_uid co, k) \<in> set es" using that assms by (auto simp: lists_cases_def)
    then obtain c where "case_at env V k c" "status_fits (key_root k) (co_status c)"
      using l by (fastforce simp: list_all2_conv_all_nth in_set_conv_nth)
    then show False using case_at_fun [OF assms(1)] assms(2,3) by (auto simp: status_fits_def)
  qed
  have e: "keeps (at_view V) (index_entry env e)" for e
    unfolding index_entry_def by (intro viewed.frame_rules)
  have index: "sees V (build_case_index env) (\<lambda>_. False)"
    unfolding build_case_index_def
    by (rule sees_any, intro viewed.frame_rules, rule sees_any, intro keeps_map e,
        rule sees_bind [OF sees_archived_entries], rule sees_bind [OF entries], assumption, simp)
  have overlay: "sees V (materialized_overlay_index env) (\<lambda>_. False)"
    unfolding materialized_overlay_index_def
  proof (rule sees_any, intro viewed.frame_rules, rule sees_any, intro viewed.frame_rules)
    fix its and x :: "(string \<times> string) list \<times> (string \<times> string) list"
    show "sees V (case x of (dispositions, notifications) \<Rightarrow>
       case List.find (\<lambda>d. map_of notifications (fst d) \<noteq> None) dispositions of
         Some d \<Rightarrow> fail (app_error_new ''message_state_invalid''
           (''message '' @ fst d @ '' is present in both a disposition and a notification''))
       | None \<Rightarrow> bind_io (build_case_index env) (\<lambda>ix.
           ret \<lparr>ov_cases = ix, ov_dispositions = dispositions, ov_notifications = notifications,
             ov_items = filter (\<lambda>it. case pi_local_stage it of None \<Rightarrow> True | Some s \<Rightarrow> s < PendingCleared) its\<rparr>)) (\<lambda>_. False)"
      by (auto split: prod.split option.split intro: sees_fail sees_bind [OF index])
  qed
  show ?thesis unfolding read_message_overlaid_def
    by (rule sees_bind [OF overlay]) simp
qed

text \<open>The workspace after an unarchive whose directory could not be moved.\<close>

lemma stuck_outline:
  "(kw_tx stuck_workspace, outline stuck_workspace)
    = ([], [(offer_key ArchivedCases, Some (CaseJson (archive_state False ''t'' offer_case)))], [], None)"
  by code_simp

lemma stuck_view:
  "kw_tx stuck_workspace = []" "map fst (kw_dirs stuck_workspace) = [offer_key ArchivedCases]"
  "cd_json (dir_at (offer_key ArchivedCases) stuck_workspace) = Some (CaseJson (archive_state False ''t'' offer_case))"
  using stuck_outline by (auto simp: outline_def dir_at_def)

lemma stuck_check: "check_key (on_disk d) (offer_key ArchivedCases) (archive_state False ''t'' offer_case)"
proof -
  have "check_key case_env (offer_key ArchivedCases) (archive_state False ''t'' offer_case)"
    unfolding check_key_def by code_simp
  moreover have "same_rules case_env (on_disk d)" by (simp add: same_rules_def on_disk_def case_env_def demo_env_def)
  ultimately show ?thesis using same_checks by blast
qed

text \<open>Claim C37: An unarchive that fails between its two writes makes the workspace unreadable.  The command clears the
  status of the case file before it moves the directory and has no transaction; if the move fails, no
  message of the workspace can be read any more, on any disk, the gate lets commands through, and
  repair returns without changing a file.\<close>

theorem interrupted_unarchive_blocks_messages:
  "(\<forall>d mid m. fst (read_message_overlaid (on_disk d) mid stuck_workspace) \<noteq> Done m)
    \<and> fst (ensure_no_incomplete_transactions case_env stuck_workspace) = Done ()
    \<and> (case repair_incomplete_transactions case_env stuck_workspace of (r, v) \<Rightarrow>
         r = Done () \<and> kw_dirs v = kw_dirs stuck_workspace)"
proof (intro conjI allI notI)
  fix d mid m
  assume read_ok: "fst (read_message_overlaid (on_disk d) mid stuck_workspace) = Done m"
  have "case_at (on_disk d) (view_of stuck_workspace) (offer_key ArchivedCases) (archive_state False ''t'' offer_case)"
    using stuck_view(3) stuck_check by (simp add: case_at_check view_of_def)
  then have "sees (view_of stuck_workspace) (read_message_overlaid (on_disk d) mid) (\<lambda>_. False)"
    by (rule sees_misfit) (simp_all add: offer_key_def archive_state_def)
  moreover have "at_view (view_of stuck_workspace) stuck_workspace"
    using stuck_view(2) by (simp add: at_view_of well_keyed_def)
  ultimately show False
    using read_ok unfolding sees_def hoare_def by (cases "read_message_overlaid (on_disk d) mid stuck_workspace") auto
next
  show "fst (ensure_no_incomplete_transactions case_env stuck_workspace) = Done ()" by code_simp
  show "case repair_incomplete_transactions case_env stuck_workspace of (r, v) \<Rightarrow>
         r = Done () \<and> kw_dirs v = kw_dirs stuck_workspace" by code_simp
qed

end
