(* ===== verification/Spec2Isabelle.thy ===== *)
theory Spec2Isabelle
  imports Config_Facts Plan_Laws Step_Facts Recovery_Facts Data_Laws Queue_Laws Completion_Laws Findings
    Consumer_Laws Delivery_Laws Mailbox_Laws Case_Laws
begin

text \<open>
  \<^bold>\<open>The push queue, the mail consumer and the cases of afmail.\<close>  afmail keeps mail as files in a workspace and never changes a
  remote mailbox directly: every remote effect (sending a draft, saving it to the drafts mailbox,
  moving, flagging and appending messages) is first written to a queue directory, shown as a plan,
  and executed when the caller confirms exactly that plan.  A process may be killed at any point,
  a server may answer with an error after having done its work, and a message must still not be
  sent twice.  This development models that core: configuration of the steps, queue, planning,
  execution, local completion and recovery.  Inbound mail arrives in a spool (a bucket with a queue
  of events), from which a consumer imports it into the workspace, removes it, and hands batches of
  it to a handler command; no mail may be lost between the four.  The development models that path
  too: ingest, journal, pull, tick and dispatch.  Mail that belongs together is filed in cases,
  directories that are moved, merged and archived by commands of several writes each; a transaction
  file marks the commands that repair must finish, and a request with an identity must not run twice.

  \<^bold>\<open>Parts and theories\<close> (paths under src/src):

  \<^item> \<open>Prelude\<close>: JSON values, \<open>AppError\<close> (error.rs), the effect monad, its Hoare rules, ASCII strings.
  \<^item> \<open>Mail_Config\<close>: mailboxes and their special use, action steps, defaults and validation
    (config/mailbox.rs, actions.rs, defaults.rs, validation.rs, mod.rs).  \<open>Config_Facts\<close>: what a
    validated configuration guarantees.
  \<^item> \<open>Push_Types\<close>: queue items, step states, local stages, payloads, prepared mail, draft
    projections and command results (types/push.rs, draft.rs, command_result.rs).
  \<^item> \<open>Step_State\<close>: the transitions of step states (push_queue/execute/step_state.rs).
  \<^item> \<open>Workspace\<close>: the state and the store operations push calls (push_queue/io.rs,
    store/remote_sync.rs, messages.rs, util.rs, push_state.rs, remote.rs).
  \<^item> \<open>Push_Plan\<close>: planning of items and of the queue (push_queue/mod.rs, plan.rs, preview.rs,
    store/remote_sync.rs, outbound.rs).  \<open>Plan_Facts\<close>, \<open>Plan_Laws\<close>: what a plan promises,
    \<open>Plan_Frame\<close>: what planning leaves alone.
  \<^item> \<open>Push_Execute\<close>: the tracked execution of steps and the lookup of uncertain ones
    (push_queue/execute.rs).  \<open>Step_Facts\<close>: outcomes of one step and of one push.
  \<^item> \<open>Push_Run\<close>: local completion, audit and the push command (push_queue/mod.rs, store/drafts.rs,
    outbound.rs).
  \<^item> \<open>Push_Recovery\<close>: confirmed recovery of an uncertain step (push_queue/recovery.rs);
    \<open>Recovery_Facts\<close> shows what it needs and what it leaves alone.
  \<^item> \<open>Push_Enqueue\<close>: queueing, replacing and removing items, the status command
    (push_queue/mod.rs, preview.rs).
  \<^item> \<open>Frames\<close>, \<open>Ownership\<close>, \<open>Effects\<close>: the contracts the proofs rest on, as locales (what survives
    the operations of the store, the writes of one item, and whole commands) with their
    interpretations on the model.
  \<^item> \<open>Push_Safety\<close>, \<open>Push_Tracking\<close>, \<open>Queue_Safety\<close>: the safety invariant through every step,
    every push and every history of commands.
  \<^item> \<open>Data_Laws\<close>: step states, names, locations, flags, pending marks and the state shown for a draft.
  \<^item> \<open>Queue_Laws\<close>: the stores as finite maps, what queueing writes, one push per draft or
    message, started pushes are frozen.  \<open>Completion_Laws\<close>: the audit log, local completion, pushes that
    only have completions left, settlement.
  \<^item> \<open>Scenario\<close>: one concrete workspace that the witnesses run.  \<open>Findings\<close>: two kills after which a push
    does not do what the code means to; the first blocks the queue for good.
  \<^item> \<open>Consumer_Journal\<close>: the state of the consumer and its journal of receipts, tasks and the active
    batch (sources/cloudflare/journal.rs).  \<open>Consumer_Ingest\<close>: import of one mail, its metadata and
    the index of what is stored (ingest/mod.rs, ingest/identity.rs, mail.rs, store/messages.rs).
  \<^item> \<open>Consumer_Pull\<close>: settings and their validation (config/cloudflare.rs), the bucket, listing,
    budgets and the pull of objects (sources/cloudflare/mod.rs, r2.rs, queue.rs).  \<open>Consumer_Run\<close>:
    receipts, dispatch, the handler and one tick (sources/cloudflare/consumer.rs).
  \<^item> \<open>Consumer_Safety\<close>: the invariant of the consumer's world and its preservation by single writes;
    \<open>Consumer_Import\<close>, \<open>Consumer_Dispatch\<close> and \<open>Consumer_Frame\<close> carry it through the pull and the
    dispatch, \<open>Consumer_History\<close> through ticks, interference and histories.
  \<^item> \<open>Consumer_Laws\<close>: what the consumer promises.  \<open>Delivery_Laws\<close>: the end of the listing, the
    settings, repeated delivery, metadata before mail, the time of outbound mail.
    \<open>Consumer_Scenario\<close>: the concrete runs of their witnesses.
  \<^item> \<open>Mailbox_Pull\<close>: the pull from mailboxes of an IMAP server, with its cursors, budgets, bodies in
    chunks and the reconciliation of what is gone (sources/imap/mod.rs, session.rs, identity.rs,
    store/remote_sync.rs, store/disposition_views.rs).  \<open>Mailbox_Index\<close>: the index of a pull names
    stored mail, through every operation.  \<open>Mailbox_Safety\<close>: what the two passes over a mailbox leave
    dealt with; \<open>Mailbox_Budget\<close>: reservations and what is left.  \<open>Mailbox_Laws\<close>: what the pull
    promises, \<open>Mailbox_Scenario\<close>: the mailbox of its witnesses.
  \<^item> \<open>Case_Types\<close>: the file of a case, its checks and its uid (types/case_archive.rs, store/util.rs).
    \<open>Case_Store\<close>: the directories of the cases, their entries and lookups, the index of the cases and
    the status it gives to a message (store/cases.rs, refs.rs, messages.rs).
  \<^item> \<open>Case_Archive\<close>: transactions, what blocks an archive, archive, its recovery and completion,
    unarchive (store/cases.rs, transactions.rs, remote_sync.rs).  \<open>Case_Commands\<close>: the other commands
    of cases (store/cases.rs, util.rs).  \<open>Case_Requests\<close>: requests with an identity, the dispatch of the
    commands, repair and the check of doctor (store/idempotency.rs, transactions.rs, doctor.rs,
    runner/dispatch.rs).
  \<^item> \<open>Case_Frame\<close>: what an operation that changes no case leaves, as a locale.  \<open>Case_Registry\<close>: a
    registry of cases as a map and what reading shows of it.  \<open>Case_Safety\<close>: the contracts of an
    invariant of the registry as locales; \<open>Case_Keeps\<close>, \<open>Case_Unfiling\<close> and \<open>Case_Archiving\<close> carry them
    through the commands, \<open>Case_Filing\<close> for filed messages, \<open>Case_History\<close> for the registry through
    repair, \<open>Case_Replay\<close> for the requests; \<open>Case_Steps\<close> defines the histories.
    \<open>Case_Repair\<close>: repair changes nothing but the state of the cases it completes.
  \<^item> \<open>Case_Laws\<close>: what the cases promise, \<open>Case_Scenario\<close>: the workspaces of its witnesses.
  \<^item> This theory: the properties of whole histories and commands of the queue.

  \<^bold>\<open>State.\<close>  A \<open>world\<close> is the workspace as the queue code sees it: \<open>w_queue\<close> is the directory of
  queue files (file name stem to the item as it is on disk), \<open>w_item\<close> the \<open>PushItem\<close> in memory that
  the code passes as \<open>\&mut PushItem\<close>, \<open>w_messages\<close> the message files by id, \<open>w_drafts\<close> and
  \<open>w_cases\<close> the drafts and cases that exist, \<open>w_audit\<close> the audit log with a flag for a torn last
  line, and \<open>w_log\<close> a ghost history of the durable writes and of the remote calls, which no
  operation reads.  \<open>durable\<close> drops the members that serde skips.

  \<^bold>\<open>Effects.\<close>  A command is a function from a world to an outcome (\<open>Done\<close>, \<open>Fail\<close> or \<open>Killed\<close>) and a
  world.  Disk, clock, server and the process are an environment \<open>env\<close> indexed by a counter of I/O
  operations, so a statement for every \<open>env\<close> covers every failing disk, every answer of the server
  and a kill at every point.  A disk operation may fail or be cut off before or after its effect;
  a file write is atomic (the code writes a temporary file and renames it).

  \<^bold>\<open>Histories.\<close>  \<open>history mv\<close> are the worlds reached from an empty queue by any sequence of push,
  recovery, queueing and removal commands, each under its own environment; between commands all
  but the queue directory may change arbitrarily.  With \<open>mv\<close> the folder names the server gives
  are stable within a command, which the guard on moves and appends needs.

  \<^bold>\<open>The consumer.\<close>  A \<open>cworld\<close> is the workspace and the bucket as the consumer sees them:
  \<open>cw_journal\<close> the journal file, \<open>cw_markers\<close> and \<open>cw_inputs\<close> the files of a batch, \<open>cw_eml\<close>,
  \<open>cw_meta\<close>, \<open>cw_cache\<close>, \<open>cw_triage\<close> and \<open>cw_disposed\<close> the files of the mail, \<open>cw_bucket\<close> the
  objects, \<open>cw_index\<close> the index in memory, and \<open>cw_log\<close> a ghost history of the writes that matter.
  \<open>chistory rend ck oid spool\<close> are the worlds reached by ticks and pulls under any environments and
  settings for that spool, with mail delivered, messages purged and markers removed in between, and
  with whatever other processes may do while a handler runs (\<open>meanwhile\<close>).  An environment fits
  (\<open>fits\<close>) if it computes the content keys and object ids of the history, the ids of different
  objects differ (which idealises a hash), a batch id is made of hexadecimal digits, and the archive is
  not inside the spool, as validated settings ensure; with \<open>rend\<close>, rendering a view fails with
  storage errors only.  The listing of a bucket is a loop over pages the server gives; it has fuel,
  and \<open>listing_ends\<close> shows that one more than the number of continuation tokens is enough.

  \<^bold>\<open>The mailbox pull.\<close>  It works on the same \<open>cworld\<close>: \<open>cw_cursors\<close> is the cursor file and
  \<open>cw_quarantine\<close> the cursor files that were moved aside.  An \<open>imap_server\<close> is a record of answers
  to the commands of a session, indexed by the counter of I/O operations, so it may answer anything
  at any time.  The loop over the chunks of a body has fuel for 102 rounds, \<open>chunk_fuel\<close>: a chunk that
  does not end the loop is as long as requested, a mebibyte or all that is left, so the limit of 100
  mebibytes and one byte is reached in 101, which \<open>body_fetch_ends\<close> proves.

  \<^bold>\<open>The cases.\<close>  A \<open>kworld\<close> holds a \<open>world\<close> of the queue and the messages (\<open>kw_mail\<close>), the directories of
  the cases (\<open>kw_dirs\<close>: root, group and name to the case file, the notes, the files and the drafts), the
  transaction files (\<open>kw_tx\<close>), the records of requests (\<open>kw_requests\<close>) and, as a ghost, the identities
  whose operation was started (\<open>kw_started\<close>).  \<open>case_steps ok env w v\<close> are the histories from \<open>w\<close> to \<open>v\<close>: case
  commands allowed by \<open>ok\<close>, repairs, completions of archiving cases, filing of sent messages and changes
  of the mail, each under any disk with the same rules for names.  \<open>orderly\<close> lets an unarchive run only on a
  disk that does not fail, as \<open>Case_Laws\<close> shows it must.  \<open>registry_inv\<close> says that every case
  file is valid where it lies and that no uid names two cases, but for one case that a transaction
  names.  \<open>slugs_ok\<close> and \<open>uids_ok\<close> are what the code relies on in the slug of a name and the check of a
  path segment, which are parameters: a slug that is a segment makes a directory name that is one, and
  so does a uid.

  \<^bold>\<open>What is shown.\<close>  A send is submitted at most once per item and step unless a person released the
  uncertain step; what was submitted is recorded on disk; every remote call is preceded by a
  durable record that its outcome is unknown; a settled step is never executed again; a failed
  attempt never becomes a success; a push acts only on the plan that was confirmed and a recovery
  only on the plan it showed; plans cover the queue and respect dependencies; local completion,
  recovery and queueing make no remote call.  Mail leaves the spool only after it was stored and a
  receipt saved; imported mail has a task until its batch is completed; a handler runs only on a
  recorded attempt; the journal on disk always loads; pulls keep their budgets.  A cursor never passes
  a listed message that is not stored; a body in chunks is the body; a cursor file that cannot be read
  is kept.  The registry of cases stays consistent and repair restores it; filed messages stay filed; a
  request starts once.  All loops of the code but the listing of pages and the chunks of a body are
  bounded by the items, steps, messages, cases or retries they iterate over, so every other definition is a total function without fuel.

  \<^bold>\<open>Abstractions.\<close>  Error hints and most details of errors are left out; those details the code
  branches on (\<open>remote_calls_started\<close>, \<open>remote_effect_rejected\<close>) are kept.  Refreshes of derived
  views are fallible operations without effect.  Progress callbacks and the AFMAIL_TEST hooks are
  left out.  Draft parsing and validation, MIME assembly, archive blockers, reference scans,
  hashes and the completion of archiving cases are parameters of the environment.  The audit log
  keeps the targets of an event and not its free-form details, except where they decide.  Strings
  are ASCII lists.  \<open>config_validate\<close> is the part of \<open>MailConfig::validate\<close> about mailboxes and
  actions.  A \<open>message_file\<close> keeps the members the queue reads or writes.

  \<^bold>\<open>Not modelled.\<close>  The command line, the API and review servers and the output layer (I/O and
  presentation); the IMAP, SMTP and Cloudflare clients (third-party protocols, their contract is
  \<open>env\<close>, \<open>cenv\<close> and \<open>imap_server\<close>); MIME parsing, identity matching and case suggestions of
  an import; rendering, templates and markdown; the generated views of
  cases, their suggestions and the results of commands on several messages at once; the parts of the
  store about triage, notifications, contacts, purge and the other checks of doctor, which reach the
  queue only through the modelled commands.
\<close>

section \<open>Sending at most once\<close>

lemma write_ahead_append: "write_ahead mv (es @ es') \<Longrightarrow> write_ahead mv es'"
proof (induction es)
  case (Cons e es)
  then show ?case by (cases e) auto
qed simp

text \<open>Claim C1: in every history of commands, whatever the disk, the server and kills do, one step of one
  queue item submits its message at most once.  The count of an item runs from the creation of its
  queue file to its deletion, and starts again when a person releases the uncertain step in a
  confirmed recovery.\<close>

theorem at_most_once_send:
  assumes "history mv w"
  shows "sends p i (w_log w) \<le> 1"
  using history_disk_ok [OF assms] by (simp add: disk_ok_def sent_once_def)

theorem at_most_once_send_witness:
  "sends ''push_draft_r'' 1 (w_log killed_world) = 1 \<and> sends ''push_draft_r'' 1 (w_log retried_world) \<le> 1"
  using at_most_once_send [OF scenario_history(5)] killed_facts by blast

text \<open>Claim C2: whatever was submitted for an item that was not deleted since is on record: after any
  history its file is in the queue directory, is a draft push, and has the step marked as succeeded
  or as uncertain, so no later run takes the step for unsent.\<close>

theorem sent_is_recorded:
  assumes "history mv w" "0 < sends p i (w_log w)"
  shows "\<exists>it. map_of (w_queue w) p = Some it \<and> item_push_kind it = KDraft \<and> step_done it i"
  using history_disk_ok [OF assms(1)] assms(2) by (simp add: disk_ok_def sent_once_def)

theorem sent_is_recorded_witness:
  "\<exists>it. map_of (w_queue killed_world) ''push_draft_r'' = Some it \<and> item_push_kind it = KDraft \<and> step_done it 1"
  by (rule sent_is_recorded [OF scenario_history(4)]) (use killed_facts in simp)

text \<open>Claim C3: write-ahead: at every remote call of a history that is guarded (every send, and moves and
  appends where the folder names are stable) the last durable write of the item had the step marked
  with an unknown outcome, so a kill during the call leaves an item that is not retried.\<close>

theorem write_ahead_calls:
  assumes "history mv w" "w_log w = later @ Called p i c eff # earlier" "guarded_call mv c"
  shows "\<exists>it. last_write p earlier = Some it \<and> step_remote_outcome_unknown it i"
proof -
  have "write_ahead mv (w_log w)"
    using history_disk_ok [OF assms(1)] by (simp add: disk_ok_def)
  then have "write_ahead mv (Called p i c eff # earlier)"
    unfolding assms(2) by (rule write_ahead_append)
  then show ?thesis
    using assms(3) by (simp add: marked_unknown_def split: option.splits)
qed

theorem write_ahead_calls_witness:
  "\<exists>it. last_write ''push_draft_r'' (tl (w_log killed_world)) = Some it \<and> step_remote_outcome_unknown it 1"
proof (rule write_ahead_calls [OF scenario_history(4)])
  show "w_log killed_world = [] @ Called ''push_draft_r'' 1 (CallSmtp ''me'' [''you''] ''raw'') True # tl (w_log killed_world)"
    using killed_facts by (cases "w_log killed_world") simp_all
  show "guarded_call True (CallSmtp ''me'' [''you''] ''raw'')" by simp
qed

text \<open>Claim C33: the queue directory is always well-formed: one file per push id, named after the item in it,
  holding exactly what serialisation keeps, with step states indexed 0, 1, 2 in order.\<close>

theorem queue_directory_invariant:
  assumes "history mv w"
  shows "distinct (map fst (w_queue w)) \<and> (\<forall>(p, it) \<in> set (w_queue w). pi_push_id it = p \<and> durable it = it
    \<and> map ss_index (pi_step_states it) = [0..<length (pi_step_states it)])"
  using history_disk_ok [OF assms] by (auto simp: disk_ok_def queue_ok_def wf_steps_def)

theorem queue_directory_invariant_witness:
  "distinct (map fst (w_queue killed_world)) \<and> list_all (\<lambda>(p, it). pi_push_id it = p
    \<and> durable it = it \<and> map ss_index (pi_step_states it) = [0..<length (pi_step_states it)]) (w_queue killed_world)"
  using queue_directory_invariant [OF scenario_history(4)] by (simp add: list_all_iff)

section \<open>What a command may do\<close>

text \<open>Claim C14: a push changes queue, item or log only when it was confirmed with exactly the id of the plan
  that resolves now, and every send feature of that plan is compiled in; otherwise it is a preview or
  an error and leaves them as they were.\<close>

theorem push_needs_confirmed_plan:
  "same_core w (snd (push env ph cfg confirm w))
   \<or> (\<exists>plan w1. build_push_plan env ph cfg w = (Done plan, w1) \<and> confirm = Some (rp_plan_id plan)
        \<and> require_plan_features env plan = Inr ())"
proof -
  obtain r w1 where b: "build_push_plan env ph cfg w = (r, w1)" by (cases "build_push_plan env ph cfg w")
  have core: "same_core w w1"
    using keepsD [OF core.keeps_build, of w w env ph cfg] b by simp
  show ?thesis
  proof (cases r)
    case (Done plan)
    show ?thesis
    proof (cases "require_plan_features env plan")
      case (Inl e)
      then show ?thesis using b Done core by (simp add: push_def bind_io_def then_io_def of_res_def fail_def)
    next
      case (Inr u)
      then show ?thesis
        using b Done core
        by (cases confirm; cases "confirm = Some (rp_plan_id plan)")
          (auto simp: push_def bind_io_def then_io_def of_res_def fail_def ret_def
            require_matching_push_plan_def require_def)
    qed
  qed (use b core in \<open>simp_all add: push_def bind_io_def\<close>)
qed

text \<open>a push never releases an uncertain step: only recovery does.\<close>

theorem push_releases_nothing: "releases (snd (push env ph cfg confirm w)) = releases w"
  by (rule keepsD [OF no_release.keeps_push]) simp

text \<open>Only the steps of a push call the remote with an effect.  Local completion, from the
  record of the remote success to the audit entry to be written, does not, nor do the report of a
  failed item, recovery, whatever was found, confirmed or settled, queueing, requeueing and removal.\<close>

theorem only_steps_call:
  "remote_calls (snd (finalize_pushed_item env w)) = remote_calls w
   \<and> remote_calls (snd (after_failure env e n t w)) = remote_calls w
   \<and> remote_calls (snd (recover_with_remote env rh cfg push_id confirm settle w)) = remote_calls w
   \<and> remote_calls (snd (queue_outbound env c d a prev w)) = remote_calls w
   \<and> remote_calls (snd (queue_action_steps env kind mids ls steps reply w)) = remote_calls w
   \<and> remote_calls (snd (remove_outbound_for_draft env c d w)) = remote_calls w
   \<and> remote_calls (snd (remove_pending_message_pushes env mid kind w)) = remote_calls w"
  by (intro conjI; rule keepsD [where I = "\<lambda>w'. remote_calls w' = remote_calls w"])
    (simp_all add: no_call_queueing.keeps_queue_outbound no_call_queueing.keeps_queue_actions no_call.keeps_remove_outbound
      no_call.keeps_remove_messages no_call.keeps_recover_command calls_kept.keeps_finalize calls_kept.keeps_after_failure)

end
